(* ===== verification/Prelude.thy ===== *)
theory Prelude
  imports Main "HOL-Library.Word" "HOL-Library.AList"
begin

text \<open>
  Shared vocabulary of the development.  Rust's \<open>Result<T, E>\<close> is the sum \<open>'e + 'a\<close>, the
  \<open>?\<close> operator is \<open>rbind\<close>, a \<open>for\<close> loop whose body uses \<open>?\<close> is \<open>rfold\<close> (threading a state) or
  \<open>rmap\<close> (collecting results).  Machine integers are \<open>nat\<close> or \<open>int\<close> with the width written out at
  every conversion and at every arithmetic operation that could leave it; bytes are \<open>8 word\<close>.
  Decimal formatting and parsing (\<open>u64::to_string\<close>, \<open>str::parse::<u64>\<close>), \<open>slice::chunks\<close> and
  big-endian integer encodings are the parts of the Rust standard library the program relies on.
\<close>

named_theorems result_simps \<comment> \<open>inversion and evaluation of error-propagating code\<close>
named_theorems width_simps \<comment> \<open>definitions of width-checked integer operations\<close>

type_synonym byte = "8 word"
type_synonym bytes = "byte list"
type_synonym path = "string list"
type_synonym uuid = "128 word"
type_synonym u64 = nat
type_synonym u32 = nat
type_synonym usize = nat
type_synonym i64 = int


section \<open>Results\<close>

fun rbind :: "'e + 'a \<Rightarrow> ('a \<Rightarrow> 'e + 'b) \<Rightarrow> 'e + 'b" where
  "rbind (Inl e) f = Inl e"
| "rbind (Inr a) f = f a"

fun rmap :: "('a \<Rightarrow> 'e + 'b) \<Rightarrow> 'a list \<Rightarrow> 'e + 'b list" where
  "rmap f [] = Inr []"
| "rmap f (x # xs) = rbind (f x) (\<lambda>y. rbind (rmap f xs) (\<lambda>ys. Inr (y # ys)))"

fun rfold :: "('a \<Rightarrow> 's \<Rightarrow> 'e + 's) \<Rightarrow> 'a list \<Rightarrow> 's \<Rightarrow> 'e + 's" where
  "rfold f [] s = Inr s"
| "rfold f (x # xs) s = rbind (f x s) (rfold f xs)"

definition ok_or :: "'e \<Rightarrow> 'a option \<Rightarrow> 'e + 'a" where
  "ok_or e x = (case x of None \<Rightarrow> Inl e | Some a \<Rightarrow> Inr a)"

definition map_err :: "('e \<Rightarrow> 'f) \<Rightarrow> 'e + 'a \<Rightarrow> 'f + 'a" where
  "map_err f r = (case r of Inl e \<Rightarrow> Inl (f e) | Inr a \<Rightarrow> Inr a)"

definition ensure :: "'e \<Rightarrow> bool \<Rightarrow> 'e + unit" where
  "ensure e b = (if b then Inr () else Inl e)"

definition is_ok :: "'e + 'a \<Rightarrow> bool" where
  "is_ok r = (case r of Inl _ \<Rightarrow> False | Inr _ \<Rightarrow> True)"

lemma rbind_eq_Inr [result_simps]:
  "rbind r f = Inr b \<longleftrightarrow> (\<exists>a. r = Inr a \<and> f a = Inr b)"
  by (cases r) auto

lemma rbind_eq_Inl [result_simps]:
  "rbind r f = Inl e \<longleftrightarrow> r = Inl e \<or> (\<exists>a. r = Inr a \<and> f a = Inl e)"
  by (cases r) auto

lemma ok_or_simps [simp]: "ok_or e None = Inl e" "ok_or e (Some a) = Inr a"
  by (simp_all add: ok_or_def)

lemma ok_or_eq_Inr [result_simps]: "ok_or e x = Inr a \<longleftrightarrow> x = Some a"
  by (cases x) auto

lemma ok_or_eq_Inl [result_simps]: "ok_or e x = Inl e' \<longleftrightarrow> x = None \<and> e' = e"
  by (cases x) auto

lemma map_err_simps [simp]: "map_err f (Inl e) = Inl (f e)" "map_err f (Inr a) = Inr a"
  by (simp_all add: map_err_def)

lemma map_err_eq_Inr [result_simps]: "map_err f r = Inr a \<longleftrightarrow> r = Inr a"
  by (cases r) auto

lemma map_err_eq_Inl [result_simps]: "map_err f r = Inl e \<longleftrightarrow> (\<exists>e'. r = Inl e' \<and> e = f e')"
  by (cases r) auto

lemma ensure_simps [simp]: "ensure e True = Inr ()" "ensure e False = Inl e"
  by (simp_all add: ensure_def)

lemma ensure_eq_Inr [result_simps]: "ensure e b = Inr u \<longleftrightarrow> b"
  by (simp add: ensure_def)

lemma ensure_eq_Inl [result_simps]: "ensure e b = Inl e' \<longleftrightarrow> \<not> b \<and> e' = e"
  by (auto simp: ensure_def)

lemma is_ok_simps [simp]: "\<not> is_ok (Inl e)" "is_ok (Inr a)"
  by (simp_all add: is_ok_def)

lemma is_ok_iff: "is_ok r \<longleftrightarrow> (\<exists>a. r = Inr a)"
  by (cases r) auto

lemma rmap_eq_Inr:
  "rmap f xs = Inr ys \<longleftrightarrow> list_all2 (\<lambda>x y. f x = Inr y) xs ys"
  by (induction xs arbitrary: ys) (auto simp: result_simps list_all2_Cons1)

lemma rmap_all_ok: "(\<And>x. x \<in> set xs \<Longrightarrow> f x = Inr (g x)) \<Longrightarrow> rmap f xs = Inr (map g xs)"
  by (induction xs) auto

lemma rfold_append: "rfold f (xs @ ys) s = rbind (rfold f xs s) (rfold f ys)"
proof (induction xs arbitrary: s)
  case (Cons x xs)
  then show ?case by (cases "f x s") auto
qed simp

text \<open>An invariant kept by the body of a loop is kept by the loop.\<close>

lemma rfold_invariant:
  assumes "rfold f xs s = Inr t" and "P s"
    and step: "\<And>x s s'. x \<in> set xs \<Longrightarrow> P s \<Longrightarrow> f x s = Inr s' \<Longrightarrow> P s'"
  shows "P t"
  using assms
proof (induction xs arbitrary: s)
  case (Cons x xs)
  then obtain s' where "f x s = Inr s'" "rfold f xs s' = Inr t"
    by (auto simp: result_simps)
  with Cons show ?case by (metis list.set_intros)
qed simp


section \<open>Machine integers\<close>

definition checked_add_u64 :: "u64 \<Rightarrow> u64 \<Rightarrow> u64 option" where
  [width_simps]: "checked_add_u64 a b = (if a + b < 2 ^ 64 then Some (a + b) else None)"

definition checked_sub_u64 :: "u64 \<Rightarrow> u64 \<Rightarrow> u64 option" where
  [width_simps]: "checked_sub_u64 a b = (if b \<le> a then Some (a - b) else None)"

definition checked_add_u32 :: "u32 \<Rightarrow> u32 \<Rightarrow> u32 option" where
  [width_simps]: "checked_add_u32 a b = (if a + b < 2 ^ 32 then Some (a + b) else None)"

text \<open>Unchecked \<open>+\<close> and \<open>*\<close> on \<open>u64\<close> wrap around in a release build.\<close>

definition add_u64 :: "u64 \<Rightarrow> u64 \<Rightarrow> u64" where
  [width_simps]: "add_u64 a b = (a + b) mod 2 ^ 64"

definition mul_u64 :: "u64 \<Rightarrow> u64 \<Rightarrow> u64" where
  [width_simps]: "mul_u64 a b = (a * b) mod 2 ^ 64"

text \<open>\<open>u64::div_ceil\<close>, which rounds up without forming \<open>a + b - 1\<close>.\<close>

definition div_ceil :: "nat \<Rightarrow> nat \<Rightarrow> nat" where
  "div_ceil a b = (if 0 < a mod b then a div b + 1 else a div b)"

definition usize_try_from :: "u64 \<Rightarrow> usize option" where
  [width_simps]: "usize_try_from n = (if n < 2 ^ 64 then Some n else None)"

definition u32_try_from_usize :: "usize \<Rightarrow> u32 option" where
  [width_simps]: "u32_try_from_usize n = (if n < 2 ^ 32 then Some n else None)"

definition i64_try_from :: "u64 \<Rightarrow> i64 option" where
  [width_simps]: "i64_try_from n = (if n < 2 ^ 63 then Some (int n) else None)"

definition u64_try_from_i64 :: "i64 \<Rightarrow> u64 option" where
  [width_simps]: "u64_try_from_i64 i = (if 0 \<le> i then Some (nat i) else None)"

definition u32_try_from_i64 :: "i64 \<Rightarrow> u32 option" where
  [width_simps]: "u32_try_from_i64 i = (if 0 \<le> i \<and> i < 2 ^ 32 then Some (nat i) else None)"

lemma u64_i64_roundtrip [simp]: "n < 2 ^ 63 \<Longrightarrow> u64_try_from_i64 (int n) = Some n"
  by (simp add: width_simps)

lemma div_ceil_bounds:
  assumes "0 < b"
  shows "a \<le> div_ceil a b * b" and "0 < a \<Longrightarrow> (div_ceil a b - 1) * b < a"
proof -
  have a: "a = a div b * b + a mod b" by simp
  have m: "a mod b < b" using assms by simp
  have "a \<le> (a div b + 1) * b"
    using a m by (metis add_le_cancel_left add_mult_distrib less_imp_le mult_1)
  then show "a \<le> div_ceil a b * b"
    using a by (auto simp: div_ceil_def)
  show "(div_ceil a b - 1) * b < a" if "0 < a"
  proof (cases "0 < a mod b")
    case True
    with a have "a div b * b < a" by linarith
    then show ?thesis using True by (simp add: div_ceil_def)
  next
    case False
    then have q: "a = a div b * b" using a by simp
    then have "0 < a div b" using that by (metis mult_0 neq0_conv)
    then have "(a div b - 1) * b < a div b * b" using assms by simp
    then show ?thesis using False q by (simp add: div_ceil_def)
  qed
qed

text \<open>Big-endian encodings (\<open>u32::to_be_bytes\<close>, \<open>u16::from_be_bytes\<close>, \<open>u32::from_be_bytes\<close>).\<close>

definition be_bytes_u32 :: "u32 \<Rightarrow> bytes" where
  "be_bytes_u32 n = map of_nat
     [(n div 2 ^ 24) mod 256, (n div 2 ^ 16) mod 256, (n div 2 ^ 8) mod 256, n mod 256]"

text \<open>Byte-string literals \<open>b"..."\<close>.\<close>

definition ascii :: "string \<Rightarrow> bytes" where
  "ascii s = map (\<lambda>c. of_nat (of_char c)) s"

lemma length_ascii [simp]: "length (ascii s) = length s"
  by (simp add: ascii_def)

definition u16_from_be :: "byte \<Rightarrow> byte \<Rightarrow> nat" where
  "u16_from_be a b = unat a * 256 + unat b"

definition u32_from_be :: "byte \<Rightarrow> byte \<Rightarrow> byte \<Rightarrow> byte \<Rightarrow> nat" where
  "u32_from_be a b c d = ((unat a * 256 + unat b) * 256 + unat c) * 256 + unat d"

lemma length_be_bytes_u32 [simp]: "length (be_bytes_u32 n) = 4"
  by (simp add: be_bytes_u32_def)

lemma unat_of_nat_byte: "unat (of_nat m :: byte) = m mod 256"
  by (simp add: unat_of_nat)

lemma of_nat_byte_inj: "m < 256 \<Longrightarrow> n < 256 \<Longrightarrow> (of_nat m :: byte) = of_nat n \<Longrightarrow> m = n"
  by (metis mod_less unat_of_nat_byte)

lemma be_bytes_u32_decode:
  assumes "n < 2 ^ 32"
  shows "u32_from_be (be_bytes_u32 n ! 0) (be_bytes_u32 n ! 1) (be_bytes_u32 n ! 2)
           (be_bytes_u32 n ! 3) = n"
proof -
  have 1: "n div 2 ^ 24 = n div 2 ^ 16 div 256" "n div 2 ^ 16 = n div 2 ^ 8 div 256"
    by (simp_all flip: div_mult2_eq)
  have 2: "n div 2 ^ 24 < 256"
    using assms by (simp add: less_mult_imp_div_less)
  show ?thesis
    using 2 unfolding u32_from_be_def be_bytes_u32_def 1
    by (simp add: unat_of_nat_byte)
qed

lemma be_bytes_u32_inj:
  "m < 2 ^ 32 \<Longrightarrow> n < 2 ^ 32 \<Longrightarrow> be_bytes_u32 m = be_bytes_u32 n \<Longrightarrow> m = n"
  by (metis be_bytes_u32_decode)


section \<open>Decimal text\<close>

text \<open>\<open>u64::to_string\<close>.\<close>

fun show_nat :: "nat \<Rightarrow> string" where
  "show_nat n = (if n < 10 then [char_of (48 + n)] else show_nat (n div 10) @ [char_of (48 + n mod 10)])"

declare show_nat.simps [simp del]

definition show_int :: "int \<Rightarrow> string" where
  "show_int i = (if i < 0 then CHR ''-'' # show_nat (nat (- i)) else show_nat (nat i))"

text \<open>
  \<open>str::parse::<u64>\<close>: one optional leading \<open>+\<close>, then at least one decimal digit and nothing
  else; a value of \<open>2^64\<close> or more is an error.
\<close>

definition digit_val :: "char \<Rightarrow> nat option" where
  "digit_val c = (if 48 \<le> (of_char c :: nat) \<and> (of_char c :: nat) \<le> 57
                  then Some (of_char c - 48) else None)"

fun parse_digits :: "nat \<Rightarrow> string \<Rightarrow> nat option" where
  "parse_digits acc [] = Some acc"
| "parse_digits acc (c # cs) =
     (case digit_val c of None \<Rightarrow> None | Some d \<Rightarrow> parse_digits (acc * 10 + d) cs)"

definition parse_u64 :: "string \<Rightarrow> u64 option" where
  "parse_u64 s =
     (let ds = (case s of [] \<Rightarrow> [] | c # cs \<Rightarrow> if c = CHR ''+'' then cs else s)
      in if ds = [] then None
         else case parse_digits 0 ds of
                None \<Rightarrow> None
              | Some n \<Rightarrow> if n < 2 ^ 64 then Some n else None)"

text \<open>\<open>str::parse::<i64>\<close>: as above, with \<open>-\<close> also accepted as the sign.\<close>

definition parse_i64 :: "string \<Rightarrow> i64 option" where
  "parse_i64 s =
     (let neg = (case s of [] \<Rightarrow> False | c # _ \<Rightarrow> c = CHR ''-'');
          ds = (case s of [] \<Rightarrow> [] | c # cs \<Rightarrow> if c = CHR ''+'' \<or> c = CHR ''-'' then cs else s)
      in if ds = [] then None
         else case parse_digits 0 ds of
                None \<Rightarrow> None
              | Some n \<Rightarrow>
                  if neg then (if n \<le> 2 ^ 63 then Some (- int n) else None)
                  else (if n < 2 ^ 63 then Some (int n) else None))"

lemma digit_val_char_of [simp]: "d < 10 \<Longrightarrow> digit_val (char_of (48 + d)) = Some d"
  by (simp add: digit_val_def)

lemma parse_digits_append:
  "parse_digits acc (xs @ ys) =
     (case parse_digits acc xs of None \<Rightarrow> None | Some n \<Rightarrow> parse_digits n ys)"
  by (induction xs arbitrary: acc) (auto split: option.split)

lemma parse_digits_show_nat: "parse_digits 0 (show_nat n) = Some n"
proof (induction n rule: show_nat.induct)
  case (1 n)
  show ?case
  proof (cases "n < 10")
    case True
    then show ?thesis by (simp add: show_nat.simps [of n])
  next
    case False
    with 1 have "parse_digits 0 (show_nat (n div 10)) = Some (n div 10)" by simp
    with False show ?thesis
      by (simp add: show_nat.simps [of n] parse_digits_append)
  qed
qed

lemma hd_show_nat_digit: "\<exists>d cs. d < (10::nat) \<and> show_nat n = char_of (48 + d) # cs"
proof (induction n rule: show_nat.induct)
  case (1 n)
  then show ?case by (cases "n < 10") (auto simp: show_nat.simps [of n])
qed

lemma digit_not_plus: "d < 10 \<Longrightarrow> char_of (48 + d :: nat) \<noteq> CHR ''+''"
proof
  assume "d < 10" and eq: "char_of (48 + d :: nat) = CHR ''+''"
  have "(of_char (char_of (48 + d) :: char) :: nat) = 48 + d" using \<open>d < 10\<close> by simp
  moreover have "(of_char (CHR ''+'') :: nat) = 43" by simp
  ultimately show False unfolding eq by simp
qed

lemma parse_u64_show_nat:
  assumes "n < 2 ^ 64"
  shows "parse_u64 (show_nat n) = Some n"
proof -
  obtain d :: nat and cs where d: "d < 10" and s: "show_nat n = char_of (48 + d) # cs"
    using hd_show_nat_digit by blast
  have "parse_u64 (show_nat n) =
          (case parse_digits 0 (show_nat n) of None \<Rightarrow> None
           | Some m \<Rightarrow> if m < 2 ^ 64 then Some m else None)"
    using digit_not_plus [OF d] by (simp add: parse_u64_def s del: char_of_eq_iff)
  then show ?thesis using assms by (simp add: parse_digits_show_nat)
qed


section \<open>Lists\<close>

text \<open>\<open>slice::chunks(n)\<close>, for a positive \<open>n\<close> (Rust panics on zero).\<close>

function chunks_of :: "nat \<Rightarrow> 'a list \<Rightarrow> 'a list list" where
  "chunks_of n xs = (if xs = [] \<or> n = 0 then [] else take n xs # chunks_of n (drop n xs))"
  by pat_completeness auto
termination
  by (relation "measure (\<lambda>(n, xs). length xs)") auto

declare chunks_of.simps [simp del]

lemma chunks_of_Nil [simp]: "chunks_of n [] = []"
  by (simp add: chunks_of.simps)

lemma chunks_of_step: "0 < n \<Longrightarrow> xs \<noteq> [] \<Longrightarrow> chunks_of n xs = take n xs # chunks_of n (drop n xs)"
  by (subst chunks_of.simps) simp

lemma concat_chunks_of: "0 < n \<Longrightarrow> concat (chunks_of n xs) = xs"
proof (induction n xs rule: chunks_of.induct)
  case (1 n xs)
  then show ?case by (cases "xs = []") (simp_all add: chunks_of.simps [of n xs])
qed

lemma chunks_of_sizes: "c \<in> set (chunks_of n xs) \<Longrightarrow> c \<noteq> [] \<and> length c \<le> n"
proof (induction n xs rule: chunks_of.induct)
  case (1 n xs)
  then show ?case by (cases "xs = [] \<or> n = 0") (auto simp: chunks_of.simps [of n xs])
qed

lemma length_chunks_of: "0 < n \<Longrightarrow> length (chunks_of n xs) = div_ceil (length xs) n"
proof (induction n xs rule: chunks_of.induct)
  case (1 n xs)
  show ?case
  proof (cases "xs = []")
    case True
    then show ?thesis by (simp add: div_ceil_def)
  next
    case False
    with 1 have IH: "length (chunks_of n (drop n xs)) = div_ceil (length xs - n) n" by simp
    show ?thesis
    proof (cases "n \<le> length xs")
      case True
      then have "div_ceil (length xs) n = Suc (div_ceil (length xs - n) n)"
        using "1.prems" by (simp add: div_ceil_def le_div_geq le_mod_geq)
      with IH False "1.prems" show ?thesis by (simp add: chunks_of_step)
    next
      case n: False
      with False have "chunks_of n xs = [xs]" using "1.prems" by (simp add: chunks_of_step)
      moreover have "div_ceil (length xs) n = 1" using n False by (simp add: div_ceil_def)
      ultimately show ?thesis by simp
    qed
  qed
qed

lemma nth_chunks_of:
  "0 < n \<Longrightarrow> i < length (chunks_of n xs) \<Longrightarrow> chunks_of n xs ! i = take n (drop (i * n) xs)"
proof (induction n xs arbitrary: i rule: chunks_of.induct)
  case (1 n xs)
  show ?case
  proof (cases "xs = []")
    case True
    with 1 show ?thesis by simp
  next
    case False
    with 1 show ?thesis
      by (cases i) (simp_all add: chunks_of_step add.commute)
  qed
qed

text \<open>\<open>Vec::resize(n, 0)\<close> when the vector is shorter than \<open>n\<close>: zero padding.\<close>

definition zero_pad :: "nat \<Rightarrow> bytes \<Rightarrow> bytes" where
  "zero_pad n bs = bs @ replicate (n - length bs) 0"

lemma length_zero_pad: "length bs \<le> n \<Longrightarrow> length (zero_pad n bs) = n"
  by (simp add: zero_pad_def)

lemma take_zero_pad: "take (length bs) (zero_pad n bs) = bs"
  by (simp add: zero_pad_def)

lemma take_zero_pad': "k = length bs \<Longrightarrow> take k (zero_pad n bs) = bs"
  by (simp add: take_zero_pad)

text \<open>Association lists as finite maps.\<close>

lemma map_of_update [simp]: "map_of (AList.update k v al) = (map_of al)(k \<mapsto> v)"
  by (simp add: update_conv')

lemma map_of_delete [simp]: "map_of (AList.delete k al) = (map_of al)(k := None)"
  by (simp add: delete_conv')

text \<open>\<open>UPDATE t SET value = v WHERE key = a\<close> on a keyed table.\<close>

lemma map_of_update_where:
  "map_of (map (\<lambda>(k, x). if k = a then (k, v) else (k, x)) al) =
     (\<lambda>b. if b = a then map_option (\<lambda>_. v) (map_of al b) else map_of al b)"
  by (induction al) auto

lemma map_fst_update_where: "map fst (map (\<lambda>(k, x). if k = a then (k, v) else (k, x)) al) = map fst al"
  by (induction al) auto

text \<open>A table scan for a key finds the row when the key is unique.\<close>

lemma find_unique:
  assumes "distinct (map f xs)" "x \<in> set xs"
  shows "find (\<lambda>r. f r = f x) xs = Some x"
  using assms by (induction xs) (auto simp: rev_image_eqI)

lemma find_key_Some:
  assumes "distinct (map f xs)"
  shows "find (\<lambda>r. f r = k) xs = Some x \<longleftrightarrow> x \<in> set xs \<and> f x = k"
  using assms find_unique [OF assms] by (auto simp: find_Some_iff in_set_conv_nth)

lemma find_key_None: "find (\<lambda>r. f r = k) xs = None \<longleftrightarrow> k \<notin> f ` set xs"
  by (auto simp: find_None_iff)

lemma find_append:
  "find P (xs @ ys) = (case find P xs of None \<Rightarrow> find P ys | Some x \<Rightarrow> Some x)"
  by (induction xs) auto

lemma set_map_filter_iff: "b \<in> set (List.map_filter f xs) \<longleftrightarrow> (\<exists>x \<in> set xs. f x = Some b)"
  by (force simp: map_filter_def)

lemma map_filter_append [simp]: "List.map_filter f (xs @ ys) = List.map_filter f xs @ List.map_filter f ys"
  by (simp add: map_filter_def)




lemma distinct_mf_filter:
  "distinct (List.map_filter f xs) \<Longrightarrow> distinct (List.map_filter f (filter P xs))"
proof (induction xs)
  case (Cons x xs)
  then show ?case
    by (cases "f x") (auto simp: map_filter_simps set_map_filter_iff)
qed (simp add: map_filter_simps)

end
