(* ===== verification/Environment.thy ===== *)
theory Environment
  imports Prelude
begin

text \<open>
  What the program takes from outside the repository, as the fields of one record that every
  definition using it takes as an argument: the operating system (which I/O call fails, and how),
  the random sources and the clock, the \<open>uuid\<close> crate, XChaCha20-Poly1305, BLAKE3 and HKDF.  The
  predicates \<open>uuid_laws\<close>, \<open>aead_laws\<close>, \<open>aead_total\<close> and \<open>blake3_laws\<close> state the documented
  behaviour the program relies on.  The second part is the program's view of the file system: an
  association list from paths to contents, a list of directories, and a counter of the effects
  performed so far, which indexes the environment's answers.
\<close>

section \<open>Third-party code and the operating system\<close>

text \<open>
  \<open>os_fault n = None\<close>: the \<open>n\<close>-th effect succeeds.  \<open>Some (m, None)\<close>: it fails with message
  \<open>m\<close> and changes nothing.  \<open>Some (m, Some k)\<close>: it fails, and if it was a write, the file was
  created with the first \<open>k\<close> bytes of the contents.  \<open>sql_text n\<close> is the message rusqlite gives for
  a column \<open>n\<close> whose value does not convert; \<open>uuid_error_text\<close> is the message of a failed
  \<open>Uuid::parse_str\<close>; \<open>json_valid\<close> is the SQL function of that name.  \<open>read_len n\<close> bounds what one
  \<open>read\<close> call delivers: \<open>read\<close> may return fewer bytes than the buffer holds.
\<close>

record env =
  os_fault :: "nat \<Rightarrow> (string \<times> nat option) option"
  draw_uuid :: "nat \<Rightarrow> nat \<Rightarrow> uuid"
  draw_nonce :: "nat \<Rightarrow> bytes"
  draw_key :: "nat \<Rightarrow> bytes"
  clock :: "nat \<Rightarrow> i64"
  uuid_parse :: "string \<Rightarrow> uuid option"
  uuid_hyphenated :: "uuid \<Rightarrow> string"
  uuid_version :: "uuid \<Rightarrow> nat"
  uuid_bytes :: "uuid \<Rightarrow> bytes"
  aead_encrypt :: "bytes \<Rightarrow> bytes \<Rightarrow> bytes \<Rightarrow> bytes \<Rightarrow> (bytes \<times> bytes) option"
  aead_decrypt :: "bytes \<Rightarrow> bytes \<Rightarrow> bytes \<Rightarrow> bytes \<Rightarrow> bytes \<Rightarrow> bytes option"
  blake3 :: "bytes \<Rightarrow> bytes"
  hkdf_sha256 :: "bytes \<Rightarrow> bytes \<Rightarrow> bytes \<Rightarrow> bytes option"
  sql_text :: "nat \<Rightarrow> string"
  uuid_error_text :: "string \<Rightarrow> string"
  json_valid :: "string \<Rightarrow> bool"
  read_len :: "nat \<Rightarrow> nat"

text \<open>
  The \<open>uuid\<close> crate: the canonical text of a UUID (hexadecimal digits and hyphens, so no slash)
  parses back to it, a UUID is 16 bytes and is determined by them.  \<open>Uuid::new_v4\<close> gives UUIDs of version 4.
\<close>

definition uuid_laws :: "env \<Rightarrow> bool" where
  "uuid_laws E \<longleftrightarrow>
     (\<forall>u. uuid_parse E (uuid_hyphenated E u) = Some u \<and> CHR ''/'' \<notin> set (uuid_hyphenated E u)) \<and>
     (\<forall>u. length (uuid_bytes E u) = 16) \<and> inj (uuid_bytes E) \<and>
     (\<forall>t k. uuid_version E (draw_uuid E t k) = 4)"

text \<open>
  An AEAD with a detached tag: for a 32-byte key and a 24-byte nonce, encryption keeps the length
  of the text, gives a 16-byte tag and is inverted by decryption with the same key, nonce and
  associated data; the random sources give values of those sizes.
\<close>

definition aead_laws :: "env \<Rightarrow> bool" where
  "aead_laws E \<longleftrightarrow>
     (\<forall>k n a p. length k = 32 \<longrightarrow> length n = 24 \<longrightarrow>
        (\<forall>c t. aead_encrypt E k n a p = Some (c, t) \<longrightarrow>
           length c = length p \<and> length t = 16 \<and> aead_decrypt E k n a c t = Some p)) \<and>
     (\<forall>t. length (draw_nonce E t) = 24) \<and> (\<forall>t. length (draw_key E t) = 32)"

text \<open>Encryption of a text below the cipher's length limit of \<open>2^38\<close> bytes does not fail.\<close>

definition aead_total :: "env \<Rightarrow> bool" where
  "aead_total E \<longleftrightarrow>
     (\<forall>k n a p. length k = 32 \<longrightarrow> length n = 24 \<longrightarrow> length p < 2 ^ 38 \<longrightarrow>
        aead_encrypt E k n a p \<noteq> None)"

text \<open>
  Nothing is assumed about what the cipher rejects: it has a tag of 16 bytes, so some ciphertexts do pass
  under associated data they were not made with, and it does not commit to its key.  The theorems on
  binding are reductions: a ciphertext that is accepted in another context is exhibited as a forgery, a
  value made by the encryption under one key, nonce and associated data that the decryption accepts
  under the same key and nonce with other associated data.
\<close>

definition aead_forgery :: "env \<Rightarrow> bytes \<Rightarrow> bytes \<Rightarrow> bytes \<Rightarrow> bytes \<Rightarrow> bytes \<Rightarrow> bytes \<Rightarrow> bool" where
  "aead_forgery E k n c t a a' \<longleftrightarrow>
     a' \<noteq> a \<and> (\<exists>p. aead_encrypt E k n a p = Some (c, t)) \<and> aead_decrypt E k n a' c t \<noteq> None"

definition blake3_laws :: "env \<Rightarrow> bool" where
  "blake3_laws E \<longleftrightarrow> (\<forall>b. length (blake3 E b) = 32)"

definition no_faults :: "env \<Rightarrow> bool" where
  "no_faults E \<longleftrightarrow> (\<forall>n. os_fault E n = None)"

lemma uuid_lawsD:
  assumes "uuid_laws E"
  shows "uuid_parse E (uuid_hyphenated E u) = Some u"
    and "length (uuid_bytes E u) = 16"
    and "uuid_bytes E u = uuid_bytes E v \<longleftrightarrow> u = v"
    and "uuid_version E (draw_uuid E t k) = 4"
    and "CHR ''/'' \<notin> set (uuid_hyphenated E u)"
  using assms by (auto simp: uuid_laws_def inj_eq)

lemma uuid_hyphenated_inj:
  assumes "uuid_laws E"
  shows "uuid_hyphenated E u = uuid_hyphenated E v \<longleftrightarrow> u = v"
  using uuid_lawsD(1) [OF assms] by (metis option.inject)

lemma aead_lawsD:
  assumes "aead_laws E" "length k = 32" "length n = 24" "aead_encrypt E k n a p = Some (c, t)"
  shows "length c = length p" and "length t = 16" and "aead_decrypt E k n a c t = Some p"
  using assms unfolding aead_laws_def by blast+

lemma aead_laws_draw:
  assumes "aead_laws E"
  shows "length (draw_nonce E t) = 24" and "length (draw_key E t) = 32"
  using assms unfolding aead_laws_def by blast+

lemma aead_other_context:
  assumes "aead_encrypt E k n a p = Some (c, t)" "a' \<noteq> a"
  shows "aead_decrypt E k n a' c t = None \<or> aead_forgery E k n c t a a'"
  using assms by (auto simp: aead_forgery_def)


section \<open>The file system and the effects of the program\<close>

datatype io_kind = KindNotFound | KindOther

datatype io_error = IoError io_kind string

text \<open>
  The state threaded through the program: the store behind \<open>dyn MetadataStore\<close>, the files and
  directories, the number of effects so far, and the calls of the progress callback, newest first.
\<close>

record 's world =
  store :: 's
  files :: "(path \<times> bytes) list"
  dirs :: "path list"
  tick :: nat
  progress_log :: "(u64 \<times> u64) list"

type_synonym ('s, 'e, 'a) prog = "'s world \<Rightarrow> ('e + 'a) \<times> 's world"

definition ret :: "'a \<Rightarrow> ('s, 'e, 'a) prog" where
  "ret a w = (Inr a, w)"

definition fail :: "'e \<Rightarrow> ('s, 'e, 'a) prog" where
  "fail e w = (Inl e, w)"

definition lift :: "'e + 'a \<Rightarrow> ('s, 'e, 'a) prog" where
  "lift r w = (r, w)"

definition bind :: "('s, 'e, 'a) prog \<Rightarrow> ('a \<Rightarrow> ('s, 'e, 'b) prog) \<Rightarrow> ('s, 'e, 'b) prog" where
  "bind m f w = (case m w of (Inl e, w') \<Rightarrow> (Inl e, w') | (Inr a, w') \<Rightarrow> f a w')"

text \<open>\<open>m.map_err(f)?\<close>, and the value of a call whose error is inspected by the caller.\<close>

definition with_err :: "('e \<Rightarrow> 'f) \<Rightarrow> ('s, 'e, 'a) prog \<Rightarrow> ('s, 'f, 'a) prog" where
  "with_err f m w = (case m w of (r, w') \<Rightarrow> (map_err f r, w'))"

definition attempt :: "('s, 'e, 'a) prog \<Rightarrow> ('s, 'f, 'e + 'a) prog" where
  "attempt m w = (case m w of (r, w') \<Rightarrow> (Inr r, w'))"

fun for_each :: "('a \<Rightarrow> ('s, 'e, unit) prog) \<Rightarrow> 'a list \<Rightarrow> ('s, 'e, unit) prog" where
  "for_each f [] = ret ()"
| "for_each f (x # xs) = bind (f x) (\<lambda>_. for_each f xs)"

definition get_world :: "('s, 'e, 's world) prog" where
  "get_world w = (Inr w, w)"

definition report_progress :: "u64 \<Rightarrow> u64 \<Rightarrow> ('s, 'e, unit) prog" where
  "report_progress a b w = (Inr (), w\<lparr>progress_log := (a, b) # progress_log w\<rparr>)"

text \<open>\<open>Option<&dyn Fn>\<close>: the callback is invoked only when one was passed.\<close>

definition progress_if :: "bool \<Rightarrow> u64 \<Rightarrow> u64 \<Rightarrow> ('s, 'e, unit) prog" where
  "progress_if cb a b = (if cb then report_progress a b else ret ())"

definition next_tick :: "'s world \<Rightarrow> 's world" where
  "next_tick w = w\<lparr>tick := Suc (tick w)\<rparr>"

text \<open>One draw from a random source: the answer for the current tick.\<close>

definition draw :: "(nat \<Rightarrow> 'a) \<Rightarrow> ('s, 'e, 'a) prog" where
  "draw f w = (Inr (f (tick w)), next_tick w)"

definition fs_effect ::
  "env \<Rightarrow> ('s world \<Rightarrow> (io_error + 'a) \<times> 's world) \<Rightarrow> ('s, io_error, 'a) prog" where
  "fs_effect E f w =
     (case os_fault E (tick w) of
        None \<Rightarrow> f (next_tick w)
      | Some (m, _) \<Rightarrow> (Inl (IoError KindOther m), next_tick w))"

definition not_found :: io_error where
  "not_found = IoError KindNotFound ''No such file or directory (os error 2)''"

definition parent_dir :: "path \<Rightarrow> path" where
  "parent_dir p = butlast p"

definition fs_read :: "env \<Rightarrow> path \<Rightarrow> ('s, io_error, bytes) prog" where
  "fs_read E p = fs_effect E (\<lambda>w. case map_of (files w) p of
     None \<Rightarrow> (Inl not_found, w) | Some b \<Rightarrow> (Inr b, w))"

text \<open>\<open>metadata(p).len()\<close>.\<close>

definition fs_len :: "env \<Rightarrow> path \<Rightarrow> ('s, io_error, u64) prog" where
  "fs_len E p = fs_effect E (\<lambda>w. case map_of (files w) p of
     None \<Rightarrow> (Inl not_found, w) | Some b \<Rightarrow> (Inr (length b), w))"

definition fs_exists :: "env \<Rightarrow> path \<Rightarrow> ('s, io_error, bool) prog" where
  "fs_exists E p = fs_effect E (\<lambda>w. (Inr (map_of (files w) p \<noteq> None \<or> p \<in> set (dirs w)), w))"

text \<open>Creates or truncates \<open>p\<close> and writes \<open>b\<close>; the parent directory has to exist.\<close>

definition fs_write :: "env \<Rightarrow> path \<Rightarrow> bytes \<Rightarrow> ('s, io_error, unit) prog" where
  "fs_write E p b w =
     (if parent_dir p \<notin> set (dirs w) then (Inl not_found, next_tick w)
      else case os_fault E (tick w) of
        None \<Rightarrow> (Inr (), (next_tick w)\<lparr>files := AList.update p b (files w)\<rparr>)
      | Some (m, None) \<Rightarrow> (Inl (IoError KindOther m), next_tick w)
      | Some (m, Some k) \<Rightarrow>
          (Inl (IoError KindOther m), (next_tick w)\<lparr>files := AList.update p (take k b) (files w)\<rparr>))"

definition fs_remove :: "env \<Rightarrow> path \<Rightarrow> ('s, io_error, unit) prog" where
  "fs_remove E p = fs_effect E (\<lambda>w. case map_of (files w) p of
     None \<Rightarrow> (Inl not_found, w)
   | Some _ \<Rightarrow> (Inr (), w\<lparr>files := AList.delete p (files w)\<rparr>))"

text \<open>\<open>rename\<close> replaces an existing target.\<close>

definition fs_rename :: "env \<Rightarrow> path \<Rightarrow> path \<Rightarrow> ('s, io_error, unit) prog" where
  "fs_rename E p q = fs_effect E (\<lambda>w. case map_of (files w) p of
     None \<Rightarrow> (Inl not_found, w)
   | Some b \<Rightarrow> if parent_dir q \<notin> set (dirs w) then (Inl not_found, w)
               else (Inr (), w\<lparr>files := AList.update q b (AList.delete p (files w))\<rparr>))"

text \<open>\<open>flush\<close> and \<open>sync_all\<close>.\<close>

definition fs_sync :: "env \<Rightarrow> ('s, io_error, unit) prog" where
  "fs_sync E = fs_effect E (\<lambda>w. (Inr (), w))"

text \<open>Appends to an open file; the contents written so far are in \<open>p\<close>.\<close>

definition fs_append :: "env \<Rightarrow> path \<Rightarrow> bytes \<Rightarrow> ('s, io_error, unit) prog" where
  "fs_append E p b w =
     (let written = (case map_of (files w) p of None \<Rightarrow> [] | Some c \<Rightarrow> c) in
      case os_fault E (tick w) of
        None \<Rightarrow> (Inr (), (next_tick w)\<lparr>files := AList.update p (written @ b) (files w)\<rparr>)
      | Some (m, None) \<Rightarrow> (Inl (IoError KindOther m), next_tick w)
      | Some (m, Some k) \<Rightarrow>
          (Inl (IoError KindOther m), (next_tick w)\<lparr>files := AList.update p (written @ take k b) (files w)\<rparr>))"

text \<open>
  An open file being read is what is left of its contents.  One \<open>read\<close> delivers at least one byte of
  what is left, at most \<open>n\<close>, and possibly fewer.
\<close>

definition reader_read :: "env \<Rightarrow> nat \<Rightarrow> bytes \<Rightarrow> ('s, io_error, bytes \<times> bytes) prog" where
  "reader_read E n rest w =
     (let k = min n (max 1 (read_len E (tick w))) in
      fs_effect E (\<lambda>w. (Inr (take k rest, drop k rest), w)) w)"

text \<open>\<open>create_dir_all\<close>: the directory and its missing ancestors.\<close>

definition fs_create_dir_all :: "env \<Rightarrow> path \<Rightarrow> ('s, io_error, unit) prog" where
  "fs_create_dir_all E p = fs_effect E (\<lambda>w.
     let ancestors = map (\<lambda>n. take n p) [0..<Suc (length p)] in
     if \<exists>q \<in> set ancestors. map_of (files w) q \<noteq> None
     then (Inl (IoError KindOther ''File exists (os error 17)''), w)
     else (Inr (), w\<lparr>dirs := dirs w @ filter (\<lambda>q. q \<notin> set (dirs w)) ancestors\<rparr>))"

text \<open>The entries of a directory: its files, then its subdirectories.\<close>

definition fs_read_dir :: "env \<Rightarrow> path \<Rightarrow> ('s, io_error, path list) prog" where
  "fs_read_dir E p = fs_effect E (\<lambda>w.
     if p \<notin> set (dirs w) then (Inl not_found, w)
     else (Inr (filter (\<lambda>q. q \<noteq> [] \<and> parent_dir q = p) (map fst (files w) @ dirs w)), w))"

definition fs_is_file :: "env \<Rightarrow> path \<Rightarrow> ('s, io_error, bool) prog" where
  "fs_is_file E p = fs_effect E (\<lambda>w. (Inr (map_of (files w) p \<noteq> None), w))"

text \<open>\<open>Path::display\<close>.\<close>

definition path_display :: "path \<Rightarrow> string" where
  "path_display p = concat (map (\<lambda>s. CHR ''/'' # s) p)"

lemmas prog_defs = ret_def fail_def lift_def bind_def with_err_def attempt_def get_world_def
  report_progress_def progress_if_def draw_def

lemmas fs_defs = fs_effect_def fs_read_def fs_len_def fs_exists_def fs_write_def fs_remove_def
  fs_rename_def fs_sync_def fs_append_def reader_read_def fs_create_dir_all_def fs_read_dir_def fs_is_file_def

abbreviation file_at :: "'s world \<Rightarrow> path \<Rightarrow> bytes option" where
  "file_at w p \<equiv> map_of (files w) p"

lemma next_tick_simps [simp]:
  "store (next_tick w) = store w" "files (next_tick w) = files w" "dirs (next_tick w) = dirs w"
  "tick (next_tick w) = Suc (tick w)" "progress_log (next_tick w) = progress_log w"
  by (simp_all add: next_tick_def)

lemma bind_Inr:
  "bind m f w = (Inr b, w'') \<longleftrightarrow> (\<exists>a w'. m w = (Inr a, w') \<and> f a w' = (Inr b, w''))"
  by (auto simp: bind_def split: prod.splits sum.splits)

lemma bind_Inl:
  "bind m f w = (Inl e, w'') \<longleftrightarrow>
     m w = (Inl e, w'') \<or> (\<exists>a w'. m w = (Inr a, w') \<and> f a w' = (Inl e, w''))"
  by (auto simp: bind_def split: prod.splits sum.splits)

lemma bind_step: "m w = (Inr a, w') \<Longrightarrow> bind m f w = f a w'"
  by (simp add: bind_def)

lemma bind_fail: "m w = (Inl e, w') \<Longrightarrow> bind m f w = (Inl e, w')"
  by (simp add: bind_def)

lemma ret_eq [simp]: "ret a w = (r, w') \<longleftrightarrow> r = Inr a \<and> w' = w"
  by (auto simp: ret_def)

lemma fail_eq [simp]: "fail e w = (r, w') \<longleftrightarrow> r = Inl e \<and> w' = w"
  by (auto simp: fail_def)

lemma lift_eq [simp]: "lift r w = (r', w') \<longleftrightarrow> r' = r \<and> w' = w"
  by (auto simp: lift_def)

lemma with_err_step: "m w = (r, w') \<Longrightarrow> with_err f m w = (map_err f r, w')"
  by (simp add: with_err_def)

lemma with_err_Inr [simp]: "with_err f m w = (Inr a, w') \<longleftrightarrow> m w = (Inr a, w')"
  by (auto simp: with_err_def map_err_eq_Inr split: prod.splits)

lemma attempt_step: "m w = (r, w') \<Longrightarrow> attempt m w = (Inr r, w')"
  by (simp add: attempt_def)


section \<open>Effects that succeed, and what an effect leaves alone\<close>

lemma no_faultsD [simp]: "no_faults E \<Longrightarrow> os_fault E n = None"
  by (simp add: no_faults_def)

lemma fs_ok:
  assumes "os_fault E (tick w) = None"
  shows "fs_read E p w = (case file_at w p of None \<Rightarrow> (Inl not_found, next_tick w) | Some b \<Rightarrow> (Inr b, next_tick w))"
    and "fs_len E p w = (case file_at w p of None \<Rightarrow> (Inl not_found, next_tick w) | Some b \<Rightarrow> (Inr (length b), next_tick w))"
    and "fs_exists E p w = (Inr (file_at w p \<noteq> None \<or> p \<in> set (dirs w)), next_tick w)"
    and "parent_dir p \<in> set (dirs w) \<Longrightarrow> fs_write E p b w = (Inr (), (next_tick w)\<lparr>files := AList.update p b (files w)\<rparr>)"
    and "file_at w p = Some b \<Longrightarrow> fs_remove E p w = (Inr (), (next_tick w)\<lparr>files := AList.delete p (files w)\<rparr>)"
    and "fs_sync E w = (Inr (), next_tick w)"
    and "file_at w p = Some c \<Longrightarrow> fs_append E p b w = (Inr (), (next_tick w)\<lparr>files := AList.update p (c @ b) (files w)\<rparr>)"
    and "file_at w p = Some b \<Longrightarrow> parent_dir q \<in> set (dirs w) \<Longrightarrow>
           fs_rename E p q w = (Inr (), (next_tick w)\<lparr>files := AList.update q b (AList.delete p (files w))\<rparr>)"
  using assms by (simp_all add: fs_defs split: option.split)

text \<open>
  \<open>touches P w w'\<close>: between \<open>w\<close> and \<open>w'\<close> only files in \<open>P\<close> changed; the store and the directories
  did not, and time did not run backwards.
\<close>

definition touches :: "path set \<Rightarrow> 's world \<Rightarrow> 's world \<Rightarrow> bool" where
  "touches P w w' \<longleftrightarrow>
     store w' = store w \<and> dirs w' = dirs w \<and> tick w \<le> tick w' \<and> (\<forall>p. p \<notin> P \<longrightarrow> file_at w' p = file_at w p)"

lemma touchesD:
  assumes "touches P w w'"
  shows "store w' = store w" and "dirs w' = dirs w" and "tick w \<le> tick w'"
    and "p \<notin> P \<Longrightarrow> file_at w' p = file_at w p"
  using assms by (auto simp: touches_def)

lemma touches_refl [simp, intro]: "touches P w w"
  by (simp add: touches_def)

lemma touches_trans: "touches P w w' \<Longrightarrow> touches Q w' w'' \<Longrightarrow> P \<subseteq> R \<Longrightarrow> Q \<subseteq> R \<Longrightarrow> touches R w w''"
  unfolding touches_def by (auto dest: order_trans) (metis subsetD)

lemma touches_mono: "touches P w w' \<Longrightarrow> P \<subseteq> R \<Longrightarrow> touches R w w'"
  unfolding touches_def by blast

lemma touches_next_tick [simp]: "touches P w (next_tick w)"
  by (simp add: touches_def)

lemma touches_log [simp]: "touches P w (w'\<lparr>progress_log := l\<rparr>) = touches P w w'"
  by (simp add: touches_def)

lemma touches_read:
  "fs_read E p w = (r, w') \<Longrightarrow> touches {} w w'" "fs_len E p w = (r1, w') \<Longrightarrow> touches {} w w'"
  "fs_exists E p w = (r2, w') \<Longrightarrow> touches {} w w'" "fs_sync E w = (r3, w') \<Longrightarrow> touches {} w w'"
  "reader_read E n rest w = (r4, w') \<Longrightarrow> touches {} w w'" "fs_is_file E p w = (r2, w') \<Longrightarrow> touches {} w w'"
  "fs_read_dir E p w = (r5, w') \<Longrightarrow> touches {} w w'" "draw f w = (r6, w') \<Longrightarrow> touches {} w w'"
  "progress_if cb a b w = (r7, w') \<Longrightarrow> touches {} w w'"
  by (auto simp: fs_defs draw_def progress_if_def report_progress_def Let_def split: option.splits if_splits)

lemma touches_change:
  "fs_write E p b w = (r, w') \<Longrightarrow> touches {p} w w'" "fs_append E p b w = (r, w') \<Longrightarrow> touches {p} w w'"
  "fs_remove E p w = (r, w') \<Longrightarrow> touches {p} w w'" "fs_rename E p q w = (r, w') \<Longrightarrow> touches {p, q} w w'"
  by (auto simp: fs_defs touches_def Let_def split: option.splits if_splits)

end
