(* ===== verification/Example_Env.thy ===== *)
theory Example_Env
  imports Environment
begin

text \<open>
  A concrete environment, used to instantiate the third-party parameters in witnesses.  UUIDs are
  written in decimal, the cipher leaves the text in the clear and marks one pair of key and
  associated data with a tag of its own, the hash sums the bytes, and no I/O call fails.
\<close>

definition ex_key :: bytes where
  "ex_key = replicate 32 0"

definition ex_tag :: "bytes \<Rightarrow> bytes \<Rightarrow> bytes \<Rightarrow> bytes" where
  "ex_tag a0 k a = (if k = ex_key \<and> a = a0 then replicate 16 0 else replicate 16 1)"

definition ex_uuid_bytes :: "uuid \<Rightarrow> bytes" where
  "ex_uuid_bytes u = map (\<lambda>i. ucast (drop_bit (8 * i) u)) [0..<16]"

definition ex_env :: "bytes \<Rightarrow> env" where
  "ex_env a0 =
     \<lparr>os_fault = (\<lambda>_. None),
      draw_uuid = (\<lambda>t k. of_nat (100 + 10 * t + k)),
      draw_nonce = (\<lambda>t. replicate 24 (of_nat t)),
      draw_key = (\<lambda>_. ex_key),
      clock = int,
      uuid_parse = (\<lambda>s. map_option of_nat (parse_digits 0 s)),
      uuid_hyphenated = (\<lambda>u. show_nat (unat u)),
      uuid_version = (\<lambda>_. 4),
      uuid_bytes = ex_uuid_bytes,
      aead_encrypt = (\<lambda>k n a p. Some (p, ex_tag a0 k a)),
      aead_decrypt = (\<lambda>k n a c t. if t = ex_tag a0 k a then Some c else None),
      blake3 = (\<lambda>b. replicate 32 (sum_list b)),
      hkdf_sha256 = (\<lambda>s k i. Some k),
      sql_text = (\<lambda>_. []),
      uuid_error_text = (\<lambda>_. []),
      json_valid = (\<lambda>_. True),
      read_len = (\<lambda>_. 8)\<rparr>"

text \<open>The same environment in which the I/O effects listed in \<open>bad\<close> fail.\<close>

definition ex_faulty :: "nat list \<Rightarrow> env" where
  "ex_faulty bad = (ex_env [])\<lparr>os_fault := (\<lambda>n. if n \<in> set bad then Some (''disk full'', None) else None)\<rparr>"

lemma ex_uuid_bytes_inj: "inj ex_uuid_bytes"
proof
  fix u v assume eq: "ex_uuid_bytes u = ex_uuid_bytes v"
  show "u = v"
  proof (rule bit_word_eqI)
    fix n assume n: "n < LENGTH(128)"
    then have i: "n div 8 < 16" by simp
    from eq have "\<forall>i < 16. ex_uuid_bytes u ! i = ex_uuid_bytes v ! i" by simp
    then have "(ucast (drop_bit (8 * (n div 8)) u) :: byte) = ucast (drop_bit (8 * (n div 8)) v)"
      using i by (auto simp: ex_uuid_bytes_def)
    then have "bit (ucast (drop_bit (8 * (n div 8)) u) :: byte) (n mod 8) =
               bit (ucast (drop_bit (8 * (n div 8)) v) :: byte) (n mod 8)" by simp
    then show "bit u n = bit v n" by (simp add: bit_simps)
  qed
qed

lemma show_nat_no_slash: "CHR ''/'' \<notin> set (show_nat n)"
proof (induction n rule: show_nat.induct)
  case (1 n)
  have "char_of (48 + d) \<noteq> CHR ''/''" if "d < 10" for d :: nat
  proof
    assume "char_of (48 + d) = CHR ''/''"
    then have "of_char (char_of (48 + d) :: char) = (of_char (CHR ''/'') :: nat)" by simp
    with that show False by simp
  qed
  with 1 show ?case
    by (cases "n < 10") (auto simp: show_nat.simps [of n] dest: sym)
qed

lemma ex_uuid_laws: "uuid_laws (ex_env a0)"
  by (simp add: uuid_laws_def ex_env_def parse_digits_show_nat show_nat_no_slash ex_uuid_bytes_inj
      ex_uuid_bytes_def)

lemma ex_aead_laws: "aead_laws (ex_env a0)"
  by (simp add: aead_laws_def ex_env_def ex_tag_def ex_key_def)

lemma ex_aead_total: "aead_total (ex_env a0)"
  by (simp add: aead_total_def ex_env_def)

lemma ex_blake3_laws: "blake3_laws (ex_env a0)"
  by (simp add: blake3_laws_def ex_env_def)

lemma ex_no_faults: "no_faults (ex_env a0)"
  by (simp add: no_faults_def ex_env_def)

lemmas ex_laws = ex_uuid_laws ex_aead_laws ex_aead_total ex_blake3_laws ex_no_faults

end
