(* ===== verification/Crypto.thy ===== *)
theory Crypto
  imports Example_Env
begin

text \<open>
  \<open>src-tauri/src/crypto\<close>: BLAKE3 checksums and \<open>VerifiedBlob\<close>, chunk encryption and decryption with
  associated data, file-key wrapping, recovery-slot wrapping and HKDF vault keys.  Keys are their
  byte strings (the \<open>SecretBox\<close> newtypes differ in type only), a \<open>FileId\<close> or \<open>VaultId\<close> is its UUID,
  and the cipher, the hash and HKDF are fields of the environment.
\<close>

datatype crypto_error =
    DecryptionFailed
  | InvalidBlobFormat usize usize
  | KeyUnwrapFailed
  | KeyWrapFailed
  | EncryptionFailed
  | KeyDerivationFailed
  | ChecksumMismatch


section \<open>Checksums\<close>

datatype verified_blob = VerifiedBlob (into_inner: bytes)

definition compute_checksum :: "env \<Rightarrow> bytes \<Rightarrow> bytes" where
  "compute_checksum E encrypted_blob = blake3 E encrypted_blob"

definition verify_checksum :: "env \<Rightarrow> bytes \<Rightarrow> bytes \<Rightarrow> crypto_error + verified_blob" where
  "verify_checksum E blob expected =
     (let computed = compute_checksum E blob
      in if computed = expected then Inr (VerifiedBlob blob) else Inl ChecksumMismatch)"

lemma verify_checksum_ok [simp]: "verify_checksum E b (compute_checksum E b) = Inr (VerifiedBlob b)"
  by (simp add: verify_checksum_def)

lemma verify_checksum_eq_Inr [result_simps]:
  "verify_checksum E b h = Inr v \<longleftrightarrow> compute_checksum E b = h \<and> v = VerifiedBlob b"
  by (auto simp: verify_checksum_def Let_def)


section \<open>Chunk encryption\<close>

definition NONCE_LEN :: nat where "NONCE_LEN = 24"
definition KEY_LEN :: nat where "KEY_LEN = 32"
definition TAG_LEN :: nat where "TAG_LEN = 16"
definition MIN_BLOB_LEN :: nat where "MIN_BLOB_LEN = NONCE_LEN + TAG_LEN"
definition WRAPPED_LEN :: nat where "WRAPPED_LEN = NONCE_LEN + KEY_LEN + TAG_LEN"

lemmas crypto_lens = NONCE_LEN_def KEY_LEN_def TAG_LEN_def MIN_BLOB_LEN_def WRAPPED_LEN_def

definition build_chunk_aad :: "env \<Rightarrow> uuid \<Rightarrow> u32 \<Rightarrow> bytes" where
  "build_chunk_aad E file_id chunk_index = uuid_bytes E file_id @ be_bytes_u32 chunk_index"

definition generate_nonce :: "env \<Rightarrow> ('s, 'e, bytes) prog" where
  "generate_nonce E = draw (draw_nonce E)"

definition generate_file_key :: "env \<Rightarrow> ('s, 'e, bytes) prog" where
  "generate_file_key E = draw (draw_key E)"

definition encrypt_chunk ::
  "env \<Rightarrow> bytes \<Rightarrow> bytes \<Rightarrow> uuid \<Rightarrow> u32 \<Rightarrow> ('s, crypto_error, bytes) prog" where
  "encrypt_chunk E plaintext file_key file_id chunk_index =
     bind (generate_nonce E) (\<lambda>nonce.
     let aad = build_chunk_aad E file_id chunk_index in
     case aead_encrypt E file_key nonce aad plaintext of
       None \<Rightarrow> fail EncryptionFailed
     | Some (ciphertext, tag) \<Rightarrow> ret (nonce @ ciphertext @ tag))"

definition decrypt_chunk ::
  "env \<Rightarrow> verified_blob \<Rightarrow> bytes \<Rightarrow> uuid \<Rightarrow> u32 \<Rightarrow> crypto_error + bytes" where
  "decrypt_chunk E blob file_key file_id chunk_index =
     (let blob_bytes = into_inner blob in
      if length blob_bytes < MIN_BLOB_LEN
      then Inl (InvalidBlobFormat MIN_BLOB_LEN (length blob_bytes))
      else
        let nonce = take NONCE_LEN blob_bytes;
            rest = drop NONCE_LEN blob_bytes;
            ciphertext_len = length rest - TAG_LEN;
            ciphertext = take ciphertext_len rest;
            tag = drop ciphertext_len rest;
            aad = build_chunk_aad E file_id chunk_index
        in ok_or DecryptionFailed (aead_decrypt E file_key nonce aad ciphertext tag))"

lemma build_chunk_aad_inj:
  assumes "uuid_laws E" "i < 2 ^ 32" "j < 2 ^ 32"
  shows "build_chunk_aad E f i = build_chunk_aad E g j \<longleftrightarrow> f = g \<and> i = j"
  using be_bytes_u32_inj [OF assms(2,3)] assms(1) by (auto simp: build_chunk_aad_def uuid_lawsD)

lemma encrypt_chunk_eq:
  "encrypt_chunk E p k f i w =
     (case aead_encrypt E k (draw_nonce E (tick w)) (build_chunk_aad E f i) p of
        None \<Rightarrow> (Inl EncryptionFailed, next_tick w)
      | Some (c, t) \<Rightarrow> (Inr (draw_nonce E (tick w) @ c @ t), next_tick w))"
  by (simp add: encrypt_chunk_def generate_nonce_def bind_def draw_def ret_def fail_def Let_def
      split: option.split)

lemma encrypt_chunk_world: "encrypt_chunk E p k f i w = (r, w') \<Longrightarrow> w' = next_tick w"
  by (auto simp: encrypt_chunk_eq split: option.splits)

lemma encrypt_chunk_total:
  assumes "aead_laws E" "aead_total E" "length k = 32" "length p < 2 ^ 38"
  shows "\<exists>blob. encrypt_chunk E p k f i w = (Inr blob, next_tick w)"
proof -
  have "aead_encrypt E k (draw_nonce E (tick w)) (build_chunk_aad E f i) p \<noteq> None"
    using assms aead_laws_draw(1) [OF assms(1)] unfolding aead_total_def by blast
  then show ?thesis by (auto simp: encrypt_chunk_eq)
qed

text \<open>What a blob produced by \<open>encrypt_chunk\<close> looks like to \<open>decrypt_chunk\<close>.\<close>

lemma decrypt_chunk_layout:
  assumes "length n = 24" "length t = 16"
  shows "decrypt_chunk E (VerifiedBlob (n @ c @ t)) k f i =
           ok_or DecryptionFailed (aead_decrypt E k n (build_chunk_aad E f i) c t)"
  using assms by (simp add: decrypt_chunk_def crypto_lens)

lemma encrypt_decrypt_chunk:
  assumes "aead_laws E" "length k = 32" "encrypt_chunk E p k f i w = (Inr blob, w')"
  shows "decrypt_chunk E (VerifiedBlob blob) k f i = Inr p" and "length blob = length p + 40"
proof -
  let ?n = "draw_nonce E (tick w)"
  obtain c t where e: "aead_encrypt E k ?n (build_chunk_aad E f i) p = Some (c, t)"
    and b: "blob = ?n @ c @ t"
    using assms(3) by (auto simp: encrypt_chunk_eq split: option.splits)
  have n: "length ?n = 24" using aead_laws_draw(1) [OF assms(1)] .
  note laws = aead_lawsD [OF assms(1,2) n e]
  show "decrypt_chunk E (VerifiedBlob blob) k f i = Inr p"
    using laws n by (simp add: b decrypt_chunk_layout)
  show "length blob = length p + 40" using laws n by (simp add: b)
qed


section \<open>File-key wrapping\<close>

definition wrap_file_key ::
  "env \<Rightarrow> bytes \<Rightarrow> uuid \<Rightarrow> bytes \<Rightarrow> ('s, crypto_error, bytes) prog" where
  "wrap_file_key E file_key file_id key_encryption_key =
     bind (generate_nonce E) (\<lambda>nonce.
     case aead_encrypt E key_encryption_key nonce (uuid_bytes E file_id) file_key of
       None \<Rightarrow> fail KeyWrapFailed
     | Some (ciphertext, tag) \<Rightarrow> ret (nonce @ ciphertext @ tag))"

definition unwrap_file_key :: "env \<Rightarrow> bytes \<Rightarrow> uuid \<Rightarrow> bytes \<Rightarrow> crypto_error + bytes" where
  "unwrap_file_key E wrapped file_id key_encryption_key =
     (let nonce = take NONCE_LEN wrapped;
          ciphertext = take KEY_LEN (drop NONCE_LEN wrapped);
          tag = drop (NONCE_LEN + KEY_LEN) wrapped
      in ok_or DecryptionFailed
           (aead_decrypt E key_encryption_key nonce (uuid_bytes E file_id) ciphertext tag))"


section \<open>Recovery-slot wrapping\<close>

definition AAD_PREFIX :: bytes where
  "AAD_PREFIX = ascii ''arx-runa recovery v1''"

definition build_aad :: "env \<Rightarrow> uuid \<Rightarrow> bytes" where
  "build_aad E vault_id = AAD_PREFIX @ uuid_bytes E vault_id"

definition wrap_master_key_for_recovery ::
  "env \<Rightarrow> bytes \<Rightarrow> bytes \<Rightarrow> uuid \<Rightarrow> ('s, crypto_error, bytes) prog" where
  "wrap_master_key_for_recovery E master_key recovery_key vault_id =
     bind (generate_nonce E) (\<lambda>nonce.
     case aead_encrypt E recovery_key nonce (build_aad E vault_id) master_key of
       None \<Rightarrow> fail KeyWrapFailed
     | Some (ciphertext, tag) \<Rightarrow> ret (nonce @ ciphertext @ tag))"

definition unwrap_master_key_from_recovery ::
  "env \<Rightarrow> bytes \<Rightarrow> bytes \<Rightarrow> uuid \<Rightarrow> crypto_error + bytes" where
  "unwrap_master_key_from_recovery E wrapped recovery_key vault_id =
     (let nonce = take NONCE_LEN wrapped;
          ciphertext = take KEY_LEN (drop NONCE_LEN wrapped);
          tag = drop (NONCE_LEN + KEY_LEN) wrapped
      in ok_or DecryptionFailed
           (aead_decrypt E recovery_key nonce (build_aad E vault_id) ciphertext tag))"

text \<open>Both wrappings share one shape, with the associated data as the parameter.\<close>

lemma wrap_eq:
  fixes w :: "'s world"
  shows "bind (generate_nonce E) (\<lambda>n. case aead_encrypt E kk n a p of
           None \<Rightarrow> fail KeyWrapFailed | Some (c, t) \<Rightarrow> ret (n @ c @ t)) w =
         (case aead_encrypt E kk (draw_nonce E (tick w)) a p of
           None \<Rightarrow> (Inl KeyWrapFailed, next_tick w)
         | Some (c, t) \<Rightarrow> (Inr (draw_nonce E (tick w) @ c @ t), next_tick w))"
  by (simp add: generate_nonce_def bind_def draw_def ret_def fail_def split: option.split)

lemma wrapped_parts:
  assumes "aead_laws E" "length kk = 32" "length p = 32"
    and "aead_encrypt E kk (draw_nonce E t0) a p = Some (c, t)"
    and "wb = draw_nonce E t0 @ c @ t"
  shows "take NONCE_LEN wb = draw_nonce E t0"
    and "take KEY_LEN (drop NONCE_LEN wb) = c"
    and "drop (NONCE_LEN + KEY_LEN) wb = t"
    and "length wb = 72"
    and "aead_decrypt E kk (draw_nonce E t0) a c t = Some p"
proof -
  have n: "length (draw_nonce E t0) = 24" using aead_laws_draw(1) [OF assms(1)] .
  note laws = aead_lawsD [OF assms(1,2) n assms(4)]
  show "take NONCE_LEN wb = draw_nonce E t0" "take KEY_LEN (drop NONCE_LEN wb) = c"
    "drop (NONCE_LEN + KEY_LEN) wb = t" "length wb = 72"
    using n laws assms(3) by (simp_all add: assms(5) crypto_lens)
  show "aead_decrypt E kk (draw_nonce E t0) a c t = Some p" using laws by simp
qed

text \<open>With other associated data a wrapped key is rejected, or it is a forgery.\<close>

lemma wrapped_elsewhere:
  assumes "aead_laws E" "length kk = 32" "length p = 32"
    and "aead_encrypt E kk (draw_nonce E t0) a p = Some (c, t)" "wb = draw_nonce E t0 @ c @ t" "a' \<noteq> a"
  shows "ok_or DecryptionFailed (aead_decrypt E kk (take NONCE_LEN wb) a' (take KEY_LEN (drop NONCE_LEN wb))
           (drop (NONCE_LEN + KEY_LEN) wb)) = Inl DecryptionFailed \<or>
         aead_forgery E kk (take 24 wb) (take 32 (drop 24 wb)) (drop 56 wb) a a'"
proof -
  have lens: "take 24 wb = take NONCE_LEN wb" "take 32 (drop 24 wb) = take KEY_LEN (drop NONCE_LEN wb)"
    "drop 56 wb = drop (NONCE_LEN + KEY_LEN) wb"
    by (simp_all add: crypto_lens)
  show ?thesis
    using aead_other_context [OF assms(4,6)] unfolding lens wrapped_parts [OF assms(1-5)] by auto
qed

lemma wrap_file_key_Inr:
  assumes "aead_laws E" "length kek = 32" "length fk = 32"
    and "wrap_file_key E fk f kek w = (Inr wb, w')"
  shows "unwrap_file_key E wb f kek = Inr fk" and "length wb = 72" and "w' = next_tick w"
proof -
  obtain c t where e: "aead_encrypt E kek (draw_nonce E (tick w)) (uuid_bytes E f) fk = Some (c, t)"
    and b: "wb = draw_nonce E (tick w) @ c @ t" and w': "w' = next_tick w"
    using assms(4) by (auto simp: wrap_file_key_def wrap_eq split: option.splits)
  note parts = wrapped_parts [OF assms(1-3) e b]
  show "unwrap_file_key E wb f kek = Inr fk" by (simp add: unwrap_file_key_def parts)
  show "length wb = 72" by (rule parts)
  show "w' = next_tick w" by (rule w')
qed

lemma wrap_file_key_total:
  assumes "aead_laws E" "aead_total E" "length kek = 32" "length fk = 32"
  shows "\<exists>wb. wrap_file_key E fk f kek w = (Inr wb, next_tick w)"
proof -
  have "aead_encrypt E kek (draw_nonce E (tick w)) (uuid_bytes E f) fk \<noteq> None"
    using assms aead_laws_draw(1) [OF assms(1)] unfolding aead_total_def by simp
  then show ?thesis by (auto simp: wrap_file_key_def wrap_eq)
qed

lemma wrap_file_key_world: "wrap_file_key E fk f kek w = (r, w') \<Longrightarrow> w' = next_tick w"
  by (auto simp: wrap_file_key_def wrap_eq split: option.splits)


section \<open>Vault keys\<close>

definition HKDF_SALT :: bytes where
  "HKDF_SALT = ascii ''arx-runa-v1''"

definition HKDF_INFO_KEY_ENCRYPTION :: bytes where
  "HKDF_INFO_KEY_ENCRYPTION = ascii ''arx-runa-key-encryption''"

definition HKDF_INFO_SQLCIPHER :: bytes where
  "HKDF_INFO_SQLCIPHER = ascii ''arx-runa-sqlcipher''"

definition HKDF_INFO_MANIFEST_BACKUP :: bytes where
  "HKDF_INFO_MANIFEST_BACKUP = ascii ''arx-runa-manifest-backup''"

record vault_keys =
  vk_key_encryption_key :: bytes
  vk_sqlcipher_key :: bytes
  vk_manifest_key :: bytes

definition expand_vault_key_into :: "env \<Rightarrow> bytes \<Rightarrow> bytes \<Rightarrow> crypto_error + bytes" where
  "expand_vault_key_into E master_key_bytes info =
     ok_or KeyDerivationFailed (hkdf_sha256 E HKDF_SALT master_key_bytes info)"

definition derive_vault_keys :: "env \<Rightarrow> bytes \<Rightarrow> crypto_error + vault_keys" where
  "derive_vault_keys E master_key_bytes =
     rbind (expand_vault_key_into E master_key_bytes HKDF_INFO_KEY_ENCRYPTION) (\<lambda>kek.
     rbind (expand_vault_key_into E master_key_bytes HKDF_INFO_SQLCIPHER) (\<lambda>sk.
     rbind (expand_vault_key_into E master_key_bytes HKDF_INFO_MANIFEST_BACKUP) (\<lambda>mk.
     Inr \<lparr>vk_key_encryption_key = kek, vk_sqlcipher_key = sk, vk_manifest_key = mk\<rparr>)))"


section \<open>Properties\<close>

definition ex_world :: "unit world" where
  "ex_world = \<lparr>store = (), files = [], dirs = [], tick = 0, progress_log = []\<rparr>"

text \<open>
  (C7) A blob written by \<open>encrypt_chunk\<close> is 40 bytes longer than its text, passes the checksum recorded
  for it, and decrypts under the same key, file and chunk index to that text.  Under the same key with
  another file identifier or another chunk index it is rejected with \<open>DecryptionFailed\<close>, unless the
  blob itself is a forgery against the cipher: no swap of chunks between positions or files is
  accepted that does not break XChaCha20-Poly1305.
\<close>

theorem chunk_context_binding:
  assumes "uuid_laws E" "aead_laws E" "length file_key = 32" "i < 2 ^ 32"
    and "encrypt_chunk E plaintext file_key file_id i w = (Inr blob, w')"
  shows "length blob = length plaintext + 40 \<and>
     rbind (verify_checksum E blob (compute_checksum E blob))
       (\<lambda>v. decrypt_chunk E v file_key file_id i) = Inr plaintext \<and>
     (\<forall>file_id' j. j < 2 ^ 32 \<and> (file_id' \<noteq> file_id \<or> j \<noteq> i) \<longrightarrow>
        decrypt_chunk E (VerifiedBlob blob) file_key file_id' j = Inl DecryptionFailed \<or>
        aead_forgery E file_key (take 24 blob) (take (length plaintext) (drop 24 blob))
          (drop (24 + length plaintext) blob) (build_chunk_aad E file_id i) (build_chunk_aad E file_id' j))"
proof -
  let ?n = "draw_nonce E (tick w)"
  obtain c t where e: "aead_encrypt E file_key ?n (build_chunk_aad E file_id i) plaintext = Some (c, t)"
    and b: "blob = ?n @ c @ t"
    using assms(5) by (auto simp: encrypt_chunk_eq split: option.splits)
  have n: "length ?n = 24" using aead_laws_draw(1) [OF assms(2)] .
  note laws = aead_lawsD [OF assms(2,3) n e]
  have "decrypt_chunk E (VerifiedBlob blob) file_key f j = Inl DecryptionFailed \<or>
      aead_forgery E file_key ?n c t (build_chunk_aad E file_id i) (build_chunk_aad E f j)"
    if "j < 2 ^ 32" "f \<noteq> file_id \<or> j \<noteq> i" for f j
  proof -
    have "build_chunk_aad E f j \<noteq> build_chunk_aad E file_id i"
      using that by (simp add: build_chunk_aad_inj [OF assms(1) that(1) assms(4)])
    from aead_other_context [OF e this] show ?thesis using n laws by (auto simp: b decrypt_chunk_layout)
  qed
  moreover have "take 24 blob = ?n" "take (length plaintext) (drop 24 blob) = c"
      "drop (24 + length plaintext) blob = t"
    using n laws by (simp_all add: b)
  ultimately show ?thesis using encrypt_decrypt_chunk [OF assms(2,3,5)] by simp
qed

theorem chunk_context_binding_witness:
  "decrypt_chunk (ex_env (build_chunk_aad (ex_env []) 7 0))
     (VerifiedBlob (replicate 24 0 @ [1, 2, 3] @ replicate 16 0)) ex_key 7 0 = Inr [1, 2, 3] \<and>
   decrypt_chunk (ex_env (build_chunk_aad (ex_env []) 7 0))
     (VerifiedBlob (replicate 24 0 @ [1, 2, 3] @ replicate 16 0)) ex_key 7 1 = Inl DecryptionFailed"
proof -
  let ?a = "build_chunk_aad (ex_env []) 7 0"
  have a: "build_chunk_aad (ex_env ?a) f i = build_chunk_aad (ex_env []) f i" for f i
    by (simp add: build_chunk_aad_def ex_env_def)
  have "encrypt_chunk (ex_env ?a) [1, 2, 3] ex_key 7 0 ex_world =
          (Inr (replicate 24 0 @ [1, 2, 3] @ replicate 16 0), next_tick ex_world)"
    by (simp add: encrypt_chunk_eq a) (simp add: ex_env_def ex_tag_def ex_world_def)
  note bound = chunk_context_binding [OF ex_uuid_laws ex_aead_laws _ _ this]
  have "\<not> aead_forgery (ex_env ?a) ex_key n c (replicate 16 0) ?a a'" for n c a'
    by (simp add: aead_forgery_def ex_env_def ex_tag_def)
  with bound show ?thesis by (fastforce simp: a ex_key_def)
qed

text \<open>
  (C8) A wrapped file key is 72 bytes and unwraps under the same file identifier and key-encryption key
  to the file key; for every other file it is rejected, unless it is a forgery against the cipher.
\<close>

theorem wrapped_key_binding:
  assumes "uuid_laws E" "aead_laws E" "length key_encryption_key = 32" "length file_key = 32"
    and "wrap_file_key E file_key file_id key_encryption_key w = (Inr wrapped, w')"
  shows "length wrapped = 72 \<and>
         unwrap_file_key E wrapped file_id key_encryption_key = Inr file_key \<and>
         (\<forall>file_id'. file_id' \<noteq> file_id \<longrightarrow>
            unwrap_file_key E wrapped file_id' key_encryption_key = Inl DecryptionFailed \<or>
            aead_forgery E key_encryption_key (take 24 wrapped) (take 32 (drop 24 wrapped))
              (drop 56 wrapped) (uuid_bytes E file_id) (uuid_bytes E file_id'))"
proof -
  let ?n = "draw_nonce E (tick w)"
  obtain c t where e: "aead_encrypt E key_encryption_key ?n (uuid_bytes E file_id) file_key = Some (c, t)"
    and b: "wrapped = ?n @ c @ t"
    using assms(5) by (auto simp: wrap_file_key_def wrap_eq split: option.splits)
  have "uuid_bytes E f \<noteq> uuid_bytes E file_id" if "f \<noteq> file_id" for f
    using that by (simp add: uuid_lawsD(3) [OF assms(1)])
  with wrapped_elsewhere [OF assms(2-4) e b] wrap_file_key_Inr [OF assms(2-5)] show ?thesis
    by (simp add: unwrap_file_key_def)
qed

theorem wrapped_key_binding_witness:
  "unwrap_file_key (ex_env (ex_uuid_bytes 7)) (replicate 24 0 @ ex_key @ replicate 16 0) 7 ex_key
     = Inr ex_key \<and>
   unwrap_file_key (ex_env (ex_uuid_bytes 7)) (replicate 24 0 @ ex_key @ replicate 16 0) 8 ex_key
     = Inl DecryptionFailed"
proof -
  let ?E = "ex_env (ex_uuid_bytes 7)"
  have u: "uuid_bytes ?E = ex_uuid_bytes" by (simp add: ex_env_def)
  have "wrap_file_key ?E ex_key 7 ex_key ex_world =
          (Inr (replicate 24 0 @ ex_key @ replicate 16 0), next_tick ex_world)"
    by (simp add: wrap_file_key_def wrap_eq) (simp add: ex_env_def ex_tag_def ex_world_def)
  note bound = wrapped_key_binding [OF ex_uuid_laws ex_aead_laws _ _ this]
  have forged: "\<not> aead_forgery ?E ex_key n c (replicate 16 0) (ex_uuid_bytes 7) a'" for n c a'
    by (simp add: aead_forgery_def ex_env_def ex_tag_def)
  have "drop 56 (replicate 24 0 @ ex_key @ replicate 16 0) = replicate 16 0" by (simp add: ex_key_def)
  with bound forged show ?thesis by (fastforce simp: u ex_key_def)
qed

text \<open>
  (C9) A master key wrapped for recovery unwraps for its own vault.  Its blob is rejected for any other
  vault and as the wrapped key of any file, and a wrapped file key is rejected as a recovery blob of
  any vault, even when recovery key and key-encryption key are the same, unless the blob is a forgery
  against the cipher: the two slots have associated data of different lengths.
\<close>

theorem recovery_slot_separation:
  assumes "uuid_laws E" "aead_laws E" "length key = 32" "length master_key = 32" "length file_key = 32"
    and "wrap_master_key_for_recovery E master_key key vault_id w = (Inr slot, w')"
    and "wrap_file_key E file_key file_id key v = (Inr wrapped, v')"
  shows "unwrap_master_key_from_recovery E slot key vault_id = Inr master_key \<and>
     (\<forall>u. u \<noteq> vault_id \<longrightarrow>
        unwrap_master_key_from_recovery E slot key u = Inl DecryptionFailed \<or>
        aead_forgery E key (take 24 slot) (take 32 (drop 24 slot)) (drop 56 slot)
          (build_aad E vault_id) (build_aad E u)) \<and>
     (\<forall>f. unwrap_file_key E slot f key = Inl DecryptionFailed \<or>
        aead_forgery E key (take 24 slot) (take 32 (drop 24 slot)) (drop 56 slot)
          (build_aad E vault_id) (uuid_bytes E f)) \<and>
     (\<forall>u. unwrap_master_key_from_recovery E wrapped key u = Inl DecryptionFailed \<or>
        aead_forgery E key (take 24 wrapped) (take 32 (drop 24 wrapped)) (drop 56 wrapped)
          (uuid_bytes E file_id) (build_aad E u))"
proof -
  obtain c t where e: "aead_encrypt E key (draw_nonce E (tick w)) (build_aad E vault_id) master_key = Some (c, t)"
    and b: "slot = draw_nonce E (tick w) @ c @ t"
    using assms(6) by (auto simp: wrap_master_key_for_recovery_def wrap_eq split: option.splits)
  obtain c' t' where e': "aead_encrypt E key (draw_nonce E (tick v)) (uuid_bytes E file_id) file_key = Some (c', t')"
    and b': "wrapped = draw_nonce E (tick v) @ c' @ t'"
    using assms(7) by (auto simp: wrap_file_key_def wrap_eq split: option.splits)
  have "length (uuid_bytes E f) \<noteq> length (build_aad E u)" for f u
    by (simp add: build_aad_def AAD_PREFIX_def uuid_lawsD(2) [OF assms(1)])
  then have apart: "uuid_bytes E f \<noteq> build_aad E u" for f u by metis
  have inj: "build_aad E u \<noteq> build_aad E vault_id" if "u \<noteq> vault_id" for u
    using that by (simp add: build_aad_def uuid_lawsD(3) [OF assms(1)])
  have own: "unwrap_master_key_from_recovery E slot key vault_id = Inr master_key"
    unfolding unwrap_master_key_from_recovery_def Let_def wrapped_parts [OF assms(2-4) e b] by simp
  show ?thesis
    using own wrapped_elsewhere [OF assms(2-4) e b inj] wrapped_elsewhere [OF assms(2-4) e b apart]
      wrapped_elsewhere [OF assms(2,3,5) e' b' apart [symmetric]]
    unfolding unwrap_master_key_from_recovery_def unwrap_file_key_def Let_def by blast
qed

theorem recovery_slot_separation_witness:
  "unwrap_master_key_from_recovery (ex_env (AAD_PREFIX @ ex_uuid_bytes 7))
     (replicate 24 0 @ ex_key @ replicate 16 0) ex_key 7 = Inr ex_key \<and>
   unwrap_file_key (ex_env (AAD_PREFIX @ ex_uuid_bytes 7))
     (replicate 24 0 @ ex_key @ replicate 16 0) 7 ex_key = Inl DecryptionFailed"
proof -
  let ?E = "ex_env (AAD_PREFIX @ ex_uuid_bytes 7)"
  have u: "build_aad ?E v = AAD_PREFIX @ ex_uuid_bytes v" for v by (simp add: build_aad_def ex_env_def)
  have w: "wrap_master_key_for_recovery ?E ex_key ex_key 7 ex_world =
          (Inr (replicate 24 0 @ ex_key @ replicate 16 0), next_tick ex_world)"
    by (simp add: wrap_master_key_for_recovery_def wrap_eq u)
      (simp add: ex_env_def ex_tag_def ex_world_def)
  obtain wrapped where v: "wrap_file_key ?E ex_key 7 ex_key ex_world = (Inr wrapped, next_tick ex_world)"
    using wrap_file_key_total [OF ex_aead_laws ex_aead_total] by (metis ex_key_def length_replicate)
  note bound = recovery_slot_separation [OF ex_uuid_laws ex_aead_laws _ _ _ w v]
  have forged: "\<not> aead_forgery ?E ex_key n c (replicate 16 0) (build_aad ?E 7) a'" for n c a'
    unfolding u by (simp add: aead_forgery_def ex_env_def ex_tag_def)
  have "drop 56 (replicate 24 0 @ ex_key @ replicate 16 0) = replicate 16 0" by (simp add: ex_key_def)
  with bound forged show ?thesis by (fastforce simp: ex_key_def)
qed

end
