(* ===== verification/Storage_Types.thy ===== *)
theory Storage_Types
  imports Crypto
begin

text \<open>
  \<open>src-tauri/src/storage\<close>: the error type (\<open>error.rs\<close>), the domain records (\<open>types/\<close>) and the
  shared validators (\<open>validation.rs\<close>).
\<close>

section \<open>Errors\<close>

datatype storage_error =
    Database string
  | NotFound
  | ChecksumMismatch
  | DecryptionFailed
  | Io string
  | WrongKey
  | ConstraintViolation string
  | EpochBufferNotFlushed uuid

text \<open>\<open>rusqlite::Error\<close>, as far as \<open>from_rusqlite\<close> distinguishes it.\<close>

datatype sqlite_code = SQLITE_NOTADB | CodeConstraintViolation | CodeCannotOpen | CodeOther string

datatype rusqlite_error =
    SqliteFailure sqlite_code "string option"
  | OtherSqlError string

fun from_rusqlite :: "rusqlite_error \<Rightarrow> storage_error" where
  "from_rusqlite (SqliteFailure SQLITE_NOTADB m) = WrongKey"
| "from_rusqlite (SqliteFailure CodeConstraintViolation m) =
     ConstraintViolation (case m of None \<Rightarrow> ''constraint violation'' | Some t \<Rightarrow> t)"
| "from_rusqlite (SqliteFailure CodeCannotOpen m) =
     Io (case m of None \<Rightarrow> ''unable to open database'' | Some t \<Rightarrow> t)"
| "from_rusqlite (SqliteFailure (CodeOther d) m) = Database (case m of None \<Rightarrow> d | Some t \<Rightarrow> t)"
| "from_rusqlite (OtherSqlError t) = Database t"

fun crypto_error_text :: "crypto_error \<Rightarrow> string" where
  "crypto_error_text crypto_error.DecryptionFailed =
     ''decryption failed: authentication tag mismatch''"
| "crypto_error_text (InvalidBlobFormat expected actual) =
     ''invalid blob format: expected at least '' @ show_nat expected @ '' bytes, got '' @ show_nat actual"
| "crypto_error_text KeyUnwrapFailed = ''key unwrap failed''"
| "crypto_error_text KeyWrapFailed = ''key wrap failed''"
| "crypto_error_text EncryptionFailed = ''chunk encryption failed''"
| "crypto_error_text KeyDerivationFailed = ''key derivation failed''"
| "crypto_error_text crypto_error.ChecksumMismatch =
     ''checksum mismatch: blob has been tampered with or corrupted''"

fun from_crypto :: "crypto_error \<Rightarrow> storage_error" where
  "from_crypto crypto_error.ChecksumMismatch = ChecksumMismatch"
| "from_crypto crypto_error.DecryptionFailed = DecryptionFailed"
| "from_crypto other = Database (crypto_error_text other)"

text \<open>\<open>map_err(|error| StorageError::Io(error.to_string()))\<close>.\<close>

fun from_io :: "io_error \<Rightarrow> storage_error" where
  "from_io (IoError k m) = Io m"

fun io_error_kind :: "io_error \<Rightarrow> io_kind" where
  "io_error_kind (IoError k m) = k"


section \<open>Records\<close>

datatype node_type = File | Directory

fun node_type_as_ref :: "node_type \<Rightarrow> string" where
  "node_type_as_ref File = ''file''"
| "node_type_as_ref Directory = ''directory''"

definition node_type_try_from :: "string \<Rightarrow> string + node_type" where
  "node_type_try_from value =
     (if value = ''file'' then Inr File
      else if value = ''directory'' then Inr Directory
      else Inl (''invalid node_type: '' @ value))"

record node =
  nd_node_id :: uuid
  nd_parent_id :: "uuid option"
  nd_node_type :: node_type
  nd_name :: string
  nd_created_at :: i64
  nd_modified_at :: i64
  nd_size_bytes :: u64
  nd_file_key_wrapped :: "bytes option"

definition node_new ::
  "uuid \<Rightarrow> uuid option \<Rightarrow> node_type \<Rightarrow> string \<Rightarrow> i64 \<Rightarrow> i64 \<Rightarrow> u64 \<Rightarrow> bytes option \<Rightarrow> node" where
  "node_new node_id parent_id node_type name created_at modified_at size_bytes file_key_wrapped =
     \<lparr>nd_node_id = node_id, nd_parent_id = parent_id, nd_node_type = node_type, nd_name = name,
      nd_created_at = created_at, nd_modified_at = modified_at, nd_size_bytes = size_bytes,
      nd_file_key_wrapped = file_key_wrapped\<rparr>"

record chunk_record =
  ck_chunk_id :: uuid
  ck_node_id :: uuid
  ck_chunk_index :: u32
  ck_blob_name :: string
  ck_size_padded :: u64
  ck_blake3_checksum :: bytes
  ck_epoch_blob_id :: "uuid option"
  ck_byte_offset :: "u64 option"
  ck_byte_length :: "u64 option"

record epoch_blob_record =
  eb_epoch_blob_id :: uuid
  eb_blob_name :: string
  eb_file_key_wrapped :: bytes
  eb_size_padded :: u64
  eb_blake3_checksum :: bytes

record epoch_buffer_entry =
  ee_entry_id :: uuid
  ee_node_id :: uuid
  ee_plaintext :: bytes
  ee_size_bytes :: u64

record sync_chunk_record =
  sc_blob_name :: string
  sc_blake3_checksum :: bytes

text \<open>An extent of an epoch blob: node, chunk index, byte offset, byte length.\<close>

type_synonym extent = "uuid \<times> u32 \<times> u64 \<times> u64"

definition assign_node_id :: "chunk_record list \<Rightarrow> uuid \<Rightarrow> chunk_record list" where
  "assign_node_id records node_id = map (\<lambda>r. r\<lparr>ck_node_id := node_id\<rparr>) records"


text \<open>The ranges the Rust types give to the arguments of an insertion.\<close>

definition typed_node :: "node \<Rightarrow> bool" where
  "typed_node n \<longleftrightarrow> nd_size_bytes n < 2 ^ 64 \<and> pred_option (\<lambda>k. length k = 72) (nd_file_key_wrapped n)"

definition typed_chunk :: "chunk_record \<Rightarrow> bool" where
  "typed_chunk c \<longleftrightarrow> ck_chunk_index c < 2 ^ 32 \<and> ck_size_padded c < 2 ^ 64 \<and> length (ck_blake3_checksum c) = 32"

definition typed_epoch_blob :: "epoch_blob_record \<Rightarrow> bool" where
  "typed_epoch_blob e \<longleftrightarrow> eb_size_padded e < 2 ^ 64 \<and> length (eb_blake3_checksum e) = 32"

definition typed_extents :: "extent list \<Rightarrow> bool" where
  "typed_extents xs \<longleftrightarrow> (\<forall>(n, i, off, len) \<in> set xs. i < 2 ^ 32 \<and> off < 2 ^ 64 \<and> len < 2 ^ 64)"


section \<open>Validators\<close>

definition IMMUTABLE_MANIFEST_META_KEYS :: "string list" where
  "IMMUTABLE_MANIFEST_META_KEYS =
     [''schema_version'', ''vault_id'', ''snapshot_counter'', ''chunk_size_bytes'',
      ''epoch_buffer_enabled'']"

definition immutable_meta_key_violation :: "string \<Rightarrow> storage_error" where
  "immutable_meta_key_violation key =
     ConstraintViolation (''manifest_meta key `'' @ key @
       ''` is immutable; use increment_snapshot_counter for snapshot_counter'')"

definition is_immutable_manifest_meta_key :: "string \<Rightarrow> bool" where
  "is_immutable_manifest_meta_key key = (key \<in> set IMMUTABLE_MANIFEST_META_KEYS)"

definition validate_blob_name_uuid_v4 :: "env \<Rightarrow> string \<Rightarrow> storage_error + unit" where
  "validate_blob_name_uuid_v4 E blob_name =
     (case uuid_parse E blob_name of
        None \<Rightarrow> Inl (ConstraintViolation ''invalid blob_name: expected canonical UUID v4'')
      | Some parsed \<Rightarrow>
          if uuid_version E parsed \<noteq> 4 \<or> uuid_hyphenated E parsed \<noteq> blob_name
          then Inl (ConstraintViolation ''invalid blob_name: expected canonical UUID v4'')
          else Inr ())"

fun validate_chunk_target_node :: "node_type option \<Rightarrow> storage_error + unit" where
  "validate_chunk_target_node (Some File) = Inr ()"
| "validate_chunk_target_node (Some Directory) =
     Inl (ConstraintViolation ''chunks can only target file nodes; directory node_id provided'')"
| "validate_chunk_target_node None = Inl (ConstraintViolation ''missing node_id for chunk insert'')"

definition parse_chunk_size_bytes :: "string \<Rightarrow> storage_error + u64" where
  "parse_chunk_size_bytes value =
     (case parse_u64 value of
        None \<Rightarrow> Inl (Database ''invalid chunk_size_bytes: not an integer'')
      | Some chunk_size \<Rightarrow>
          if \<not> (131072 \<le> chunk_size \<and> chunk_size \<le> 67108864)
          then Inl (Database ''invalid chunk_size_bytes: out of range'')
          else Inr chunk_size)"

definition validate_size_padded_matches_chunk_size :: "u64 \<Rightarrow> u64 \<Rightarrow> storage_error + unit" where
  "validate_size_padded_matches_chunk_size size_padded chunk_size_bytes =
     (if size_padded \<noteq> chunk_size_bytes
      then Inl (ConstraintViolation (''invalid size_padded: expected chunk_size_bytes ''
             @ show_nat chunk_size_bytes @ '', got '' @ show_nat size_padded))
      else Inr ())"

definition validate_immutable_meta_matches_expected ::
  "string \<Rightarrow> string \<Rightarrow> string \<Rightarrow> storage_error + unit" where
  "validate_immutable_meta_matches_expected key expected actual =
     (if expected \<noteq> actual
      then Inl (ConstraintViolation (''immutable manifest_meta mismatch for `'' @ key @ ''`''))
      else Inr ())"

lemma validate_blob_name_ok [result_simps]:
  "validate_blob_name_uuid_v4 E b = Inr x \<longleftrightarrow>
     (\<exists>u. uuid_parse E b = Some u \<and> uuid_version E u = 4 \<and> uuid_hyphenated E u = b)"
  by (auto simp: validate_blob_name_uuid_v4_def split: option.splits)

lemma validate_blob_name_draw [simp]:
  "uuid_laws E \<Longrightarrow> validate_blob_name_uuid_v4 E (uuid_hyphenated E (draw_uuid E t k)) = Inr ()"
  by (simp add: validate_blob_name_uuid_v4_def uuid_lawsD)

lemma validate_size_padded_eq_Inr [result_simps]:
  "validate_size_padded_matches_chunk_size a b = Inr u \<longleftrightarrow> a = b"
  by (simp add: validate_size_padded_matches_chunk_size_def)

lemma validate_size_padded_same [simp]: "validate_size_padded_matches_chunk_size a a = Inr ()"
  by (simp add: validate_size_padded_matches_chunk_size_def)

lemma validate_chunk_target_eq_Inr [result_simps]:
  "validate_chunk_target_node t = Inr u \<longleftrightarrow> t = Some File"
  by (cases t rule: validate_chunk_target_node.cases) auto

lemma parse_chunk_size_range:
  "parse_chunk_size_bytes s = Inr n \<Longrightarrow> 131072 \<le> n \<and> n \<le> 67108864"
  by (auto simp: parse_chunk_size_bytes_def split: option.splits if_splits)

lemma parse_chunk_size_show_nat:
  "131072 \<le> n \<Longrightarrow> n \<le> 67108864 \<Longrightarrow> parse_chunk_size_bytes (show_nat n) = Inr n"
  by (simp add: parse_chunk_size_bytes_def parse_u64_show_nat)

lemma node_type_roundtrip [simp]: "node_type_try_from (node_type_as_ref t) = Inr t"
  by (cases t) (simp_all add: node_type_try_from_def)

lemma node_type_as_ref_inj [simp]: "node_type_as_ref s = node_type_as_ref t \<longleftrightarrow> s = t"
  by (cases s; cases t) simp_all

lemma node_type_try_from_eq_Inr [result_simps]:
  "node_type_try_from v = Inr t \<longleftrightarrow> v = node_type_as_ref t"
  by (cases t) (auto simp: node_type_try_from_def)

end
