(* ===== verification/Manifest_Db.thy ===== *)
theory Manifest_Db
  imports Storage_Types "HOL-Library.List_Lexorder" "HOL-Library.Char_ord"
    "HOL-Library.Product_Lexorder"
begin

text \<open>
  The manifest database at schema version 10 (\<open>storage/schema.rs\<close>): one list of rows per table,
  in insertion order, with the column types of the schema (identifiers are TEXT, integers are
  signed 64-bit), and the effect of the SQL statements the store issues: constraint checks of
  \<open>INSERT\<close> (primary keys, UNIQUE, CHECK and foreign keys), the cascading \<open>DELETE\<close> and the recursive
  query over the node tree.  The recursive query is evaluated level by level, for one level more
  than the table has rows: \<open>set_subtree\<close> shows that this reaches every descendant, and
  \<open>subtree_terminates\<close> that the query has finished by then on an acyclic table.  Rows that compare
  equal under ORDER BY keep insertion order.
\<close>

section \<open>Tables\<close>

record node_row =
  nr_node_id :: string
  nr_parent_id :: "string option"
  nr_node_type :: string
  nr_name :: string
  nr_created_at :: i64
  nr_modified_at :: i64
  nr_size_bytes :: i64
  nr_file_key_wrapped :: "bytes option"

record chunk_row =
  cr_chunk_id :: string
  cr_node_id :: string
  cr_chunk_index :: i64
  cr_blob_name :: "string option"
  cr_size_padded :: i64
  cr_blake3_checksum :: bytes
  cr_epoch_blob_id :: "string option"
  cr_byte_offset :: "i64 option"
  cr_byte_length :: "i64 option"

record epoch_blob_row =
  er_epoch_blob_id :: string
  er_blob_name :: string
  er_file_key_wrapped :: bytes
  er_size_padded :: i64
  er_blake3_checksum :: bytes

record buffer_row =
  br_entry_id :: string
  br_node_id :: string
  br_plaintext :: bytes
  br_size_bytes :: i64
  br_queued_at :: i64

text \<open>\<open>DestinationSessionRow\<close> of \<open>sqlcipher.rs\<close>, and the table row, which also has \<open>created_at\<close>.\<close>

record destination_session_row =
  ds_destination_id :: string
  ds_label :: string
  ds_destination_type :: string
  ds_rclone_remote_name :: string
  ds_rclone_config_blob :: string
  ds_bucket :: string
  ds_path_prefix :: string
  ds_is_primary :: bool
  ds_backup_mode :: "string option"
  ds_device_id :: "string option"

record destination_row = destination_session_row +
  ds_created_at :: i64

record backup_failure_row =
  bf_blob_name :: string
  bf_destination_id :: string
  bf_failed_at :: i64
  bf_retry_count :: i64

record share_row =
  sr_share_id :: string
  sr_file_id :: string
  sr_contact_id :: string
  sr_file_share_id :: string
  sr_cloud_path :: string
  sr_created_at :: i64
  sr_expires_at :: "i64 option"
  sr_revoked_at :: "i64 option"
  sr_download_key_id :: "string option"
  sr_receipt_requested :: i64
  sr_receipt_received_at :: "i64 option"
  sr_import_receipt_received_at :: "i64 option"
  sr_download_folder_id :: "string option"

record contact_row =
  ct_contact_id :: string
  ct_display_name :: string
  ct_email :: "string option"
  ct_public_key :: bytes
  ct_created_at :: i64

record received_share_row =
  rr_share_id :: string
  rr_sender_contact_id :: "string option"
  rr_sender_public_key :: bytes
  rr_file_id :: string
  rr_file_name :: string
  rr_file_key_wrapped :: bytes
  rr_chunk_count :: i64
  rr_chunk_size :: i64
  rr_chunk_uuids :: string
  rr_cloud_endpoint :: string
  rr_expires_at :: "i64 option"
  rr_imported_at :: i64

record file_share_row =
  fr_file_share_id :: string
  fr_share_file_id :: string
  fr_share_file_key_wrapped :: bytes
  fr_chunk_uuids :: string
  fr_chunk_size :: i64
  fr_file_size :: i64
  fr_file_name :: string
  fr_created_at :: i64

record identity_row =
  id_id :: i64
  id_public_key :: bytes
  id_wrapped_private_key :: bytes

record sharing_config_row =
  sg_config_id :: string
  sg_destination_id :: "string option"
  sg_provider :: string
  sg_config_json :: string
  sg_created_at :: i64
  sg_updated_at :: i64

record db =
  t_nodes :: "node_row list"
  t_chunks :: "chunk_row list"
  t_epoch_blobs :: "epoch_blob_row list"
  t_epoch_buffer :: "buffer_row list"
  t_meta :: "(string \<times> string) list"
  t_pending_deletions :: "(string \<times> i64) list"
  t_destinations :: "destination_row list"
  t_backup_failures :: "backup_failure_row list"
  t_pending_backup :: "(string \<times> string) list"
  t_sharing_config :: "sharing_config_row list"
  t_shares :: "share_row list"
  t_contacts :: "contact_row list"
  t_received_shares :: "received_share_row list"
  t_file_shares :: "file_share_row list"
  t_vault_identity :: "identity_row list"

definition empty_db :: db where
  "empty_db =
     \<lparr>t_nodes = [], t_chunks = [], t_epoch_blobs = [], t_epoch_buffer = [], t_meta = [],
      t_pending_deletions = [], t_destinations = [], t_backup_failures = [], t_pending_backup = [],
      t_sharing_config = [], t_shares = [], t_contacts = [], t_received_shares = [],
      t_file_shares = [], t_vault_identity = []\<rparr>"

definition constraint_failed :: "string \<Rightarrow> storage_error" where
  "constraint_failed m = from_rusqlite (SqliteFailure CodeConstraintViolation (Some m))"


section \<open>Statements\<close>

definition node_ids :: "db \<Rightarrow> string list" where
  "node_ids d = map nr_node_id (t_nodes d)"

definition sql_find_node :: "string \<Rightarrow> db \<Rightarrow> node_row option" where
  "sql_find_node i d = find (\<lambda>r. nr_node_id r = i) (t_nodes d)"

text \<open>\<open>INSERT INTO nodes\<close>.\<close>

definition sql_insert_node :: "node_row \<Rightarrow> db \<Rightarrow> storage_error + db" where
  "sql_insert_node r d =
     (if nr_node_id r \<in> set (node_ids d)
      then Inl (constraint_failed ''UNIQUE constraint failed: nodes.node_id'')
      else if nr_node_type r \<noteq> ''file'' \<and> nr_node_type r \<noteq> ''directory''
      then Inl (constraint_failed ''CHECK constraint failed: node_type IN ('')
      else if \<not> ((nr_node_type r = ''file'' \<and> nr_file_key_wrapped r \<noteq> None)
               \<or> (nr_node_type r = ''directory'' \<and> nr_file_key_wrapped r = None))
      then Inl (constraint_failed ''CHECK constraint failed: file_key_wrapped'')
      else case nr_parent_id r of
        None \<Rightarrow> Inr (d\<lparr>t_nodes := t_nodes d @ [r]\<rparr>)
      | Some p \<Rightarrow> if p \<in> set (node_ids d) \<or> p = nr_node_id r
          then Inr (d\<lparr>t_nodes := t_nodes d @ [r]\<rparr>)
          else Inl (constraint_failed ''FOREIGN KEY constraint failed''))"

text \<open>The CHECK of \<open>chunks\<close>: a row is a standalone blob or an extent of an epoch blob.\<close>

definition chunk_check :: "chunk_row \<Rightarrow> bool" where
  "chunk_check r =
     ((cr_blob_name r \<noteq> None \<and> cr_epoch_blob_id r = None
         \<and> cr_byte_offset r = None \<and> cr_byte_length r = None)
    \<or> (cr_blob_name r = None \<and> cr_epoch_blob_id r \<noteq> None
         \<and> cr_byte_offset r \<noteq> None \<and> cr_byte_length r \<noteq> None))"

text \<open>\<open>INSERT INTO chunks\<close>.\<close>

definition sql_insert_chunk :: "chunk_row \<Rightarrow> db \<Rightarrow> storage_error + db" where
  "sql_insert_chunk r d =
     (if cr_chunk_id r \<in> set (map cr_chunk_id (t_chunks d))
      then Inl (constraint_failed ''UNIQUE constraint failed: chunks.chunk_id'')
      else if (cr_node_id r, cr_chunk_index r) \<in> set (map (\<lambda>c. (cr_node_id c, cr_chunk_index c)) (t_chunks d))
      then Inl (constraint_failed ''UNIQUE constraint failed: chunks.node_id, chunks.chunk_index'')
      else if cr_blob_name r \<noteq> None \<and> cr_blob_name r \<in> set (map cr_blob_name (t_chunks d))
      then Inl (constraint_failed ''UNIQUE constraint failed: chunks.blob_name'')
      else if \<not> chunk_check r
      then Inl (constraint_failed ''CHECK constraint failed: chunks'')
      else if cr_node_id r \<notin> set (node_ids d)
           \<or> (cr_epoch_blob_id r \<noteq> None
                \<and> cr_epoch_blob_id r \<notin> Some ` set (map er_epoch_blob_id (t_epoch_blobs d)))
      then Inl (constraint_failed ''FOREIGN KEY constraint failed'')
      else Inr (d\<lparr>t_chunks := t_chunks d @ [r]\<rparr>))"

text \<open>\<open>INSERT INTO epoch_blobs\<close>, \<open>INSERT INTO epoch_buffer\<close>.\<close>

definition sql_insert_epoch_blob :: "epoch_blob_row \<Rightarrow> db \<Rightarrow> storage_error + db" where
  "sql_insert_epoch_blob r d =
     (if er_epoch_blob_id r \<in> set (map er_epoch_blob_id (t_epoch_blobs d))
      then Inl (constraint_failed ''UNIQUE constraint failed: epoch_blobs.epoch_blob_id'')
      else if er_blob_name r \<in> set (map er_blob_name (t_epoch_blobs d))
      then Inl (constraint_failed ''UNIQUE constraint failed: epoch_blobs.blob_name'')
      else Inr (d\<lparr>t_epoch_blobs := t_epoch_blobs d @ [r]\<rparr>))"

definition sql_insert_buffer :: "buffer_row \<Rightarrow> db \<Rightarrow> storage_error + db" where
  "sql_insert_buffer r d =
     (if br_entry_id r \<in> set (map br_entry_id (t_epoch_buffer d))
      then Inl (constraint_failed ''UNIQUE constraint failed: epoch_buffer.entry_id'')
      else if br_node_id r \<notin> set (node_ids d)
      then Inl (constraint_failed ''FOREIGN KEY constraint failed'')
      else Inr (d\<lparr>t_epoch_buffer := t_epoch_buffer d @ [r]\<rparr>))"

text \<open>\<open>INSERT OR IGNORE\<close> into a table keyed by its first column.\<close>

definition insert_or_ignore :: "'k \<Rightarrow> 'v \<Rightarrow> ('k \<times> 'v) list \<Rightarrow> ('k \<times> 'v) list" where
  "insert_or_ignore k v t = (if k \<in> fst ` set t then t else t @ [(k, v)])"

text \<open>
  The recursive query \<open>subtree\<close>: starting from a list of node identifiers, the children of the
  identifiers found so far, level by level.
\<close>

definition child_ids :: "node_row list \<Rightarrow> string list \<Rightarrow> string list" where
  "child_ids rows ps =
     map nr_node_id (filter (\<lambda>r. case nr_parent_id r of None \<Rightarrow> False | Some p \<Rightarrow> p \<in> set ps) rows)"

fun descend :: "nat \<Rightarrow> node_row list \<Rightarrow> string list \<Rightarrow> string list" where
  "descend 0 rows fr = []"
| "descend (Suc n) rows fr = fr @ descend n rows (child_ids rows fr)"

definition subtree :: "node_row list \<Rightarrow> string list \<Rightarrow> string list" where
  "subtree rows fr = descend (Suc (length rows)) rows fr"

text \<open>
  \<open>DELETE FROM nodes WHERE node_id = ?1\<close> with \<open>PRAGMA foreign_keys = ON\<close>: the row, its
  descendants (\<open>parent_id ... ON DELETE CASCADE\<close>), and the rows of \<open>chunks\<close>, \<open>epoch_buffer\<close> and
  \<open>shares\<close> that reference a deleted node.
\<close>

definition sql_delete_node_cascade :: "string \<Rightarrow> db \<Rightarrow> db" where
  "sql_delete_node_cascade i d =
     (let gone = set (subtree (t_nodes d) [i]) in
      d\<lparr>t_nodes := filter (\<lambda>r. nr_node_id r \<notin> gone) (t_nodes d),
        t_chunks := filter (\<lambda>c. cr_node_id c \<notin> gone) (t_chunks d),
        t_epoch_buffer := filter (\<lambda>b. br_node_id b \<notin> gone) (t_epoch_buffer d),
        t_shares := filter (\<lambda>s. sr_file_id s \<notin> gone) (t_shares d)\<rparr>)"


section \<open>The node tree\<close>

definition parent_rel :: "node_row list \<Rightarrow> (string \<times> string) set" where
  "parent_rel rows = {(nr_node_id r, p) | r p. r \<in> set rows \<and> nr_parent_id r = Some p}"

lemma in_parent_rel:
  "(x, p) \<in> parent_rel rows \<longleftrightarrow> (\<exists>r \<in> set rows. nr_node_id r = x \<and> nr_parent_id r = Some p)"
  by (auto simp: parent_rel_def)

lemma parent_rel_finite: "finite (parent_rel rows)" and card_parent_rel: "card (parent_rel rows) \<le> length rows"
proof -
  let ?f = "\<lambda>r. (nr_node_id r, the (nr_parent_id r))"
  have sub: "parent_rel rows \<subseteq> ?f ` set rows" by (force simp: parent_rel_def)
  then show "finite (parent_rel rows)" by (rule finite_subset) simp
  have "card (parent_rel rows) \<le> card (?f ` set rows)" using sub by (rule card_mono [rotated]) simp
  also have "\<dots> \<le> length rows" using card_image_le [of "set rows" ?f] card_length [of rows] by simp
  finally show "card (parent_rel rows) \<le> length rows" .
qed

lemma set_child_ids: "set (child_ids rows ps) = {x. \<exists>p \<in> set ps. (x, p) \<in> parent_rel rows}"
proof (rule set_eqI)
  fix x
  have "x \<in> set (child_ids rows ps) \<longleftrightarrow>
          (\<exists>r \<in> set rows. \<exists>p \<in> set ps. nr_node_id r = x \<and> nr_parent_id r = Some p)"
    by (auto simp: child_ids_def split: option.splits)
  also have "\<dots> \<longleftrightarrow> x \<in> {x. \<exists>p \<in> set ps. (x, p) \<in> parent_rel rows}"
    unfolding in_parent_rel mem_Collect_eq by blast
  finally show "x \<in> set (child_ids rows ps) \<longleftrightarrow> x \<in> {x. \<exists>p \<in> set ps. (x, p) \<in> parent_rel rows}" .
qed

lemma set_descend:
  "set (descend n rows fr) = {x. \<exists>k < n. \<exists>p \<in> set fr. (x, p) \<in> parent_rel rows ^^ k}"
proof (induction n arbitrary: fr)
  case (Suc n)
  let ?R = "parent_rel rows"
  have deeper: "set (descend n rows (child_ids rows fr)) =
          {x. \<exists>k < n. \<exists>p \<in> set fr. (x, p) \<in> ?R ^^ Suc k}"
    unfolding Suc set_child_ids by auto
  have "{x. \<exists>k < Suc n. \<exists>p \<in> set fr. (x, p) \<in> ?R ^^ k} =
          {x. \<exists>p \<in> set fr. (x, p) \<in> ?R ^^ 0} \<union> {x. \<exists>k < n. \<exists>p \<in> set fr. (x, p) \<in> ?R ^^ Suc k}"
    unfolding less_Suc_eq_0_disj by blast
  then show ?case using deeper by simp
qed simp

text \<open>The levels evaluated reach every descendant.\<close>

lemma set_subtree: "set (subtree rows fr) = {x. \<exists>p \<in> set fr. (x, p) \<in> (parent_rel rows)\<^sup>*}"
proof -
  have "(x, p) \<in> (parent_rel rows)\<^sup>* \<longleftrightarrow> (\<exists>k < Suc (length rows). (x, p) \<in> parent_rel rows ^^ k)" for x p
  proof
    assume "(x, p) \<in> (parent_rel rows)\<^sup>*"
    then obtain k where "k \<le> card (parent_rel rows)" "(x, p) \<in> parent_rel rows ^^ k"
      using rtrancl_finite_eq_relpow [OF parent_rel_finite] by auto
    then show "\<exists>k < Suc (length rows). (x, p) \<in> parent_rel rows ^^ k"
      using card_parent_rel [of rows] by (metis le_trans less_Suc_eq_le)
  qed (auto simp: relpow_imp_rtrancl)
  then show ?thesis by (auto simp: subtree_def set_descend simp del: descend.simps)
qed

text \<open>On an acyclic table the query has no further level: it has terminated.\<close>

lemma subtree_terminates:
  assumes "acyclic (parent_rel rows)"
  shows "\<nexists>x p. (x, p) \<in> parent_rel rows ^^ Suc (length rows)"
proof (intro notI, elim exE)
  fix x p assume long: "(x, p) \<in> parent_rel rows ^^ Suc (length rows)"
  let ?R = "parent_rel rows"
  obtain f where f: "\<forall>i < Suc (length rows). (f i, f (Suc i)) \<in> ?R"
    using long by (metis relpow_fun_conv)
  have path: "(f i, f j) \<in> ?R\<^sup>+" if "i < j" "j \<le> Suc (length rows)" for i j
    using that
  proof (induction j)
    case (Suc j)
    then have "(f j, f (Suc j)) \<in> ?R" using f by simp
    with Suc show ?case by (cases "i = j") (auto intro: trancl_into_trancl)
  qed simp
  have "f ` {..length rows} \<subseteq> fst ` ?R" 
  proof
    fix y assume "y \<in> f ` {..length rows}"
    then obtain i where "y = f i" "i < Suc (length rows)" by auto
    with f show "y \<in> fst ` ?R" by (metis fst_conv image_eqI)
  qed
  then have "card (f ` {..length rows}) \<le> card (fst ` ?R)"
    by (rule card_mono [rotated]) (simp add: parent_rel_finite)
  also have "\<dots> \<le> length rows"
    using card_image_le [OF parent_rel_finite, of fst rows] card_parent_rel [of rows] by linarith
  finally have "\<not> inj_on f {..length rows}" by (auto dest!: card_image)
  then obtain i j where "i < j" "j \<le> length rows" "f i = f j"
    unfolding inj_on_def by (metis atMost_iff linorder_neqE_nat)
  with path [of i j] assms show False by (auto simp: acyclic_def)
qed

lemma distinct_insert_or_ignore: "distinct (map fst t) \<Longrightarrow> distinct (map fst (insert_or_ignore k v t))"
  by (auto simp: insert_or_ignore_def)

end
