(* ===== verification/Sqlcipher.thy ===== *)
theory Sqlcipher
  imports Manifest_Db
begin

text \<open>
  \<open>SqlCipherMetadataStore\<close> (\<open>storage/sqlcipher.rs\<close>) on the tables of \<open>Manifest_Db\<close>: the row
  converters, the hierarchy checks and the operations of the \<open>MetadataStore\<close> trait.  A read is a
  function \<open>db \<Rightarrow> storage_error + 'a\<close>; a mutation is a function \<open>db \<Rightarrow> storage_error + db\<close>: the
  source runs it in one transaction, which is rolled back when the closure returns an error, so an
  \<open>Inl\<close> leaves the database as it was.  Operations that read the clock or draw identifiers take
  the tick at which they run.
\<close>

section \<open>Row conversion\<close>

definition try_from_int_error :: string where
  "try_from_int_error = ''out of range integral type conversion attempted''"

definition unix_timestamp_now :: "env \<Rightarrow> nat \<Rightarrow> storage_error + i64" where
  "unix_timestamp_now E t =
     (if clock E t < 0 then Inl (Database ''second time provided was later than self'')
      else ok_or (Database try_from_int_error) (i64_try_from (nat (clock E t))))"

definition i64_or_err :: "u64 \<Rightarrow> storage_error + i64" where
  "i64_or_err n = ok_or (Database try_from_int_error) (i64_try_from n)"

definition conv_err :: "env \<Rightarrow> nat \<Rightarrow> rusqlite_error" where
  "conv_err E column = OtherSqlError (sql_text E column)"

fun transpose_opt :: "('a \<Rightarrow> 'e + 'b) \<Rightarrow> 'a option \<Rightarrow> 'e + 'b option" where
  "transpose_opt f None = Inr None"
| "transpose_opt f (Some a) = rbind (f a) (\<lambda>b. Inr (Some b))"

definition read_node :: "env \<Rightarrow> node_row \<Rightarrow> rusqlite_error + node" where
  "read_node E r =
     rbind (ok_or (conv_err E 0) (uuid_parse E (nr_node_id r))) (\<lambda>node_id.
     rbind (transpose_opt (\<lambda>v. ok_or (conv_err E 1) (uuid_parse E v)) (nr_parent_id r)) (\<lambda>parent_id.
     rbind (map_err (\<lambda>_. conv_err E 2) (node_type_try_from (nr_node_type r))) (\<lambda>node_type.
     rbind (ok_or (conv_err E 6) (u64_try_from_i64 (nr_size_bytes r))) (\<lambda>size_bytes.
     rbind (transpose_opt (\<lambda>v. if length v = 72 then Inr v else Inl (conv_err E 7))
              (nr_file_key_wrapped r)) (\<lambda>file_key_wrapped.
     Inr (node_new node_id parent_id node_type (nr_name r) (nr_created_at r) (nr_modified_at r)
            size_bytes file_key_wrapped))))))"

text \<open>
  The argument is the row of the query: the columns of \<open>chunks\<close>, with \<open>blob_name\<close> (and in one query
  also size and checksum) taken from the joined epoch blob.
\<close>

definition read_chunk :: "env \<Rightarrow> chunk_row \<Rightarrow> rusqlite_error + chunk_record" where
  "read_chunk E r =
     rbind (ok_or (conv_err E 3) (cr_blob_name r)) (\<lambda>blob_name.
     rbind (ok_or (conv_err E 0) (uuid_parse E (cr_chunk_id r))) (\<lambda>chunk_id.
     rbind (ok_or (conv_err E 1) (uuid_parse E (cr_node_id r))) (\<lambda>node_id.
     rbind (ok_or (conv_err E 2) (u32_try_from_i64 (cr_chunk_index r))) (\<lambda>chunk_index.
     rbind (ok_or (conv_err E 4) (u64_try_from_i64 (cr_size_padded r))) (\<lambda>size_padded.
     rbind (ensure (conv_err E 5) (length (cr_blake3_checksum r) = 32)) (\<lambda>_.
     rbind (transpose_opt (\<lambda>v. ok_or (conv_err E 6) (uuid_parse E v)) (cr_epoch_blob_id r)) (\<lambda>epoch_blob_id.
     rbind (transpose_opt (\<lambda>v. ok_or (conv_err E 7) (u64_try_from_i64 v)) (cr_byte_offset r)) (\<lambda>byte_offset.
     rbind (transpose_opt (\<lambda>v. ok_or (conv_err E 8) (u64_try_from_i64 v)) (cr_byte_length r)) (\<lambda>byte_length.
     Inr \<lparr>ck_chunk_id = chunk_id, ck_node_id = node_id, ck_chunk_index = chunk_index,
          ck_blob_name = blob_name, ck_size_padded = size_padded,
          ck_blake3_checksum = cr_blake3_checksum r, ck_epoch_blob_id = epoch_blob_id,
          ck_byte_offset = byte_offset, ck_byte_length = byte_length\<rparr>)))))))))"

definition read_epoch_blob :: "env \<Rightarrow> string \<Rightarrow> epoch_blob_row \<Rightarrow> storage_error + epoch_blob_record" where
  "read_epoch_blob E id_message r =
     rbind (ok_or (Database (id_message @ uuid_error_text E (er_epoch_blob_id r)))
              (uuid_parse E (er_epoch_blob_id r))) (\<lambda>epoch_blob_id.
     rbind (ok_or (Database ''size_padded out of range'') (u64_try_from_i64 (er_size_padded r))) (\<lambda>size_padded.
     rbind (ensure (Database ''expected 32-byte checksum in epoch_blobs'')
              (length (er_blake3_checksum r) = 32)) (\<lambda>_.
     Inr \<lparr>eb_epoch_blob_id = epoch_blob_id, eb_blob_name = er_blob_name r,
          eb_file_key_wrapped = er_file_key_wrapped r, eb_size_padded = size_padded,
          eb_blake3_checksum = er_blake3_checksum r\<rparr>)))"


section \<open>Hierarchy checks\<close>

definition validate_parent_type :: "string option \<Rightarrow> storage_error + unit" where
  "validate_parent_type parent_type =
     (case parent_type of
        None \<Rightarrow> Inl (ConstraintViolation ''missing parent node_id'')
      | Some t \<Rightarrow>
          if t = ''directory'' then Inr ()
          else if t = ''file'' then Inl (ConstraintViolation ''parent must be a directory'')
          else Inl (Database ''invalid node_type stored for parent''))"

definition node_type_of :: "string \<Rightarrow> db \<Rightarrow> string option" where
  "node_type_of i d = map_option nr_node_type (sql_find_node i d)"

definition ensure_parent_is_directory_for_insert :: "env \<Rightarrow> node \<Rightarrow> db \<Rightarrow> storage_error + unit" where
  "ensure_parent_is_directory_for_insert E n d =
     (case nd_parent_id n of
        None \<Rightarrow> Inr ()
      | Some parent_id \<Rightarrow>
          if parent_id = nd_node_id n
          then Inl (ConstraintViolation ''node cannot be its own parent'')
          else validate_parent_type (node_type_of (uuid_hyphenated E parent_id) d))"

text \<open>\<open>creates_cycle\<close>: is the new parent a proper descendant of the node?\<close>

definition creates_cycle :: "string \<Rightarrow> string \<Rightarrow> db \<Rightarrow> bool" where
  "creates_cycle i p d = (p \<in> set (subtree (t_nodes d) (child_ids (t_nodes d) [i])))"

definition ensure_move_respects_hierarchy ::
  "env \<Rightarrow> uuid \<Rightarrow> uuid option \<Rightarrow> db \<Rightarrow> storage_error + unit" where
  "ensure_move_respects_hierarchy E node_id new_parent_id d =
     (if sql_find_node (uuid_hyphenated E node_id) d = None then Inl NotFound
      else case new_parent_id of
        None \<Rightarrow> Inr ()
      | Some parent_id \<Rightarrow>
          if parent_id = node_id then Inl (ConstraintViolation ''node cannot be its own parent'')
          else rbind (validate_parent_type (node_type_of (uuid_hyphenated E parent_id) d)) (\<lambda>_.
               if creates_cycle (uuid_hyphenated E node_id) (uuid_hyphenated E parent_id) d
               then Inl (ConstraintViolation ''move would create a cycle'')
               else Inr ()))"


section \<open>Nodes and chunks\<close>

definition node_row_of :: "env \<Rightarrow> node \<Rightarrow> i64 \<Rightarrow> node_row" where
  "node_row_of E n sz =
     \<lparr>nr_node_id = uuid_hyphenated E (nd_node_id n),
      nr_parent_id = map_option (uuid_hyphenated E) (nd_parent_id n),
      nr_node_type = node_type_as_ref (nd_node_type n), nr_name = nd_name n,
      nr_created_at = nd_created_at n, nr_modified_at = nd_modified_at n,
      nr_size_bytes = sz, nr_file_key_wrapped = nd_file_key_wrapped n\<rparr>"

definition insert_node_tx :: "env \<Rightarrow> node \<Rightarrow> db \<Rightarrow> storage_error + db" where
  "insert_node_tx E n d =
     rbind (ensure_parent_is_directory_for_insert E n d) (\<lambda>_.
     rbind (i64_or_err (nd_size_bytes n)) (\<lambda>sz.
     sql_insert_node (node_row_of E n sz) d))"

definition insert_node :: "env \<Rightarrow> node \<Rightarrow> db \<Rightarrow> storage_error + db" where
  "insert_node E n d = insert_node_tx E n d"

definition standalone_row :: "env \<Rightarrow> chunk_record \<Rightarrow> i64 \<Rightarrow> chunk_row" where
  "standalone_row E c sz =
     \<lparr>cr_chunk_id = uuid_hyphenated E (ck_chunk_id c), cr_node_id = uuid_hyphenated E (ck_node_id c),
      cr_chunk_index = int (ck_chunk_index c), cr_blob_name = Some (ck_blob_name c),
      cr_size_padded = sz, cr_blake3_checksum = ck_blake3_checksum c,
      cr_epoch_blob_id = None, cr_byte_offset = None, cr_byte_length = None\<rparr>"

definition read_chunk_size :: "db \<Rightarrow> storage_error + u64" where
  "read_chunk_size d =
     rbind (ok_or (Database ''missing manifest_meta key: chunk_size_bytes'')
              (map_of (t_meta d) ''chunk_size_bytes'')) parse_chunk_size_bytes"

definition insert_chunk_row ::
  "env \<Rightarrow> u64 \<Rightarrow> node_type option \<Rightarrow> chunk_record \<Rightarrow> db \<Rightarrow> storage_error + db" where
  "insert_chunk_row E chunk_size_bytes node_type c d =
     rbind (validate_blob_name_uuid_v4 E (ck_blob_name c)) (\<lambda>_.
     rbind (validate_size_padded_matches_chunk_size (ck_size_padded c) chunk_size_bytes) (\<lambda>_.
     rbind (validate_chunk_target_node node_type) (\<lambda>_.
     rbind (i64_or_err (ck_size_padded c)) (\<lambda>sz.
     sql_insert_chunk (standalone_row E c sz) d))))"

text \<open>\<open>node_type_map\<close>: the stored type of every node the chunks name.\<close>

definition chunk_node_types ::
  "env \<Rightarrow> uuid list \<Rightarrow> db \<Rightarrow> storage_error + (uuid \<times> node_type option) list" where
  "chunk_node_types E ids d =
     rmap (\<lambda>i. rbind (transpose_opt
                  (\<lambda>v. map_err (\<lambda>_. Database ''invalid node_type stored for chunk node'') (node_type_try_from v))
                  (node_type_of (uuid_hyphenated E i) d)) (\<lambda>t. Inr (i, t))) (remdups ids)"

definition insert_chunks :: "env \<Rightarrow> chunk_record list \<Rightarrow> db \<Rightarrow> storage_error + db" where
  "insert_chunks E chunks d =
     rbind (read_chunk_size d) (\<lambda>chunk_size_bytes.
     rbind (chunk_node_types E (map ck_node_id chunks) d) (\<lambda>types.
     rfold (\<lambda>c. insert_chunk_row E chunk_size_bytes (Option.bind (map_of types (ck_node_id c)) id) c)
       chunks d))"

definition insert_file_with_chunks ::
  "env \<Rightarrow> node \<Rightarrow> chunk_record list \<Rightarrow> db \<Rightarrow> storage_error + db" where
  "insert_file_with_chunks E n chunks d =
     rbind (insert_node_tx E n d) (\<lambda>d.
     rbind (read_chunk_size d) (\<lambda>chunk_size_bytes.
     rfold (\<lambda>c d.
       if ck_node_id c \<noteq> nd_node_id n
       then Inl (ConstraintViolation ''chunk node_id does not match inserted file node'')
       else insert_chunk_row E chunk_size_bytes (Some (nd_node_type n)) c d) chunks d))"

definition get_node :: "env \<Rightarrow> uuid \<Rightarrow> db \<Rightarrow> storage_error + node" where
  "get_node E node_id d =
     rbind (transpose_opt (\<lambda>r. map_err from_rusqlite (read_node E r))
              (sql_find_node (uuid_hyphenated E node_id) d)) (ok_or NotFound)"

definition list_children :: "env \<Rightarrow> uuid \<Rightarrow> db \<Rightarrow> storage_error + node list" where
  "list_children E parent_id d =
     rmap (\<lambda>r. map_err from_rusqlite (read_node E r))
       (sort_key nr_name
          (filter (\<lambda>r. nr_parent_id r = Some (uuid_hyphenated E parent_id)) (t_nodes d)))"

definition find_epoch_blob :: "string \<Rightarrow> db \<Rightarrow> epoch_blob_row option" where
  "find_epoch_blob i d = find (\<lambda>e. er_epoch_blob_id e = i) (t_epoch_blobs d)"

text \<open>
  The query of \<open>get_chunks\<close>: \<open>COALESCE(c.blob_name, eb.blob_name)\<close>.  \<open>size_padded\<close> and
  \<open>blake3_checksum\<close> are NOT NULL in \<open>chunks\<close>, so that their COALESCE is the chunk's own column.
\<close>

definition coalesce_blob :: "db \<Rightarrow> chunk_row \<Rightarrow> chunk_row" where
  "coalesce_blob d c =
     (case cr_blob_name c of
        Some _ \<Rightarrow> c
      | None \<Rightarrow> c\<lparr>cr_blob_name :=
          Option.bind (cr_epoch_blob_id c) (\<lambda>i. map_option er_blob_name (find_epoch_blob i d))\<rparr>)"

definition get_chunks :: "env \<Rightarrow> uuid \<Rightarrow> db \<Rightarrow> storage_error + chunk_record list" where
  "get_chunks E node_id d =
     rmap (\<lambda>r. map_err from_rusqlite (read_chunk E r))
       (sort_key cr_chunk_index (map (coalesce_blob d)
          (filter (\<lambda>c. cr_node_id c = uuid_hyphenated E node_id) (t_chunks d))))"

definition rename_node :: "env \<Rightarrow> uuid \<Rightarrow> string \<Rightarrow> i64 \<Rightarrow> db \<Rightarrow> storage_error + db" where
  "rename_node E node_id new_name modified_at d =
     (if uuid_hyphenated E node_id \<notin> set (node_ids d) then Inl NotFound
      else Inr (d\<lparr>t_nodes := map (\<lambda>r. if nr_node_id r = uuid_hyphenated E node_id
                    then r\<lparr>nr_name := new_name, nr_modified_at := modified_at\<rparr> else r) (t_nodes d)\<rparr>))"

definition move_node :: "env \<Rightarrow> uuid \<Rightarrow> uuid option \<Rightarrow> i64 \<Rightarrow> db \<Rightarrow> storage_error + db" where
  "move_node E node_id new_parent_id modified_at d =
     rbind (ensure_move_respects_hierarchy E node_id new_parent_id d) (\<lambda>_.
     Inr (d\<lparr>t_nodes := map (\<lambda>r. if nr_node_id r = uuid_hyphenated E node_id
               then r\<lparr>nr_parent_id := map_option (uuid_hyphenated E) new_parent_id,
                      nr_modified_at := modified_at\<rparr>
               else r) (t_nodes d)\<rparr>))"

text \<open>
  The blob names \<open>delete_node\<close> enqueues: of the standalone chunks in the subtree, and of the epoch
  blobs with a chunk in the subtree and none outside it.
\<close>

definition deleted_blob_names :: "string \<Rightarrow> db \<Rightarrow> string list" where
  "deleted_blob_names i d =
     (let gone = (if i \<in> set (node_ids d) then subtree (t_nodes d) [i] else []);
          standalone = List.map_filter cr_blob_name (filter (\<lambda>c. cr_node_id c \<in> set gone) (t_chunks d));
          epoch = map er_blob_name (filter (\<lambda>e.
                    (\<exists>c \<in> set (t_chunks d). cr_epoch_blob_id c = Some (er_epoch_blob_id e) \<and> cr_node_id c \<in> set gone) \<and>
                    \<not> (\<exists>c \<in> set (t_chunks d). cr_epoch_blob_id c = Some (er_epoch_blob_id e) \<and> cr_node_id c \<notin> set gone))
                  (t_epoch_blobs d))
      in sort (remdups (standalone @ epoch)))"

definition delete_node :: "env \<Rightarrow> nat \<Rightarrow> uuid \<Rightarrow> db \<Rightarrow> storage_error + db" where
  "delete_node E t node_id d =
     rbind (unix_timestamp_now E t) (\<lambda>queued_at.
     let i = uuid_hyphenated E node_id;
         d1 = d\<lparr>t_pending_deletions :=
                 fold (\<lambda>b. insert_or_ignore b queued_at) (deleted_blob_names i d) (t_pending_deletions d)\<rparr>
     in if i \<notin> set (node_ids d1) then Inl NotFound
        else let d2 = sql_delete_node_cascade i d1
             in Inr (d2\<lparr>t_epoch_blobs := filter (\<lambda>e. Some (er_epoch_blob_id e) \<in> set (map cr_epoch_blob_id (t_chunks d2)))
                          (t_epoch_blobs d2)\<rparr>))"


section \<open>Deletion queue and manifest metadata\<close>

definition list_pending_deletions :: "usize \<Rightarrow> db \<Rightarrow> storage_error + string list" where
  "list_pending_deletions limit d =
     rbind (i64_or_err limit) (\<lambda>n.
     Inr (map fst (take (nat n) (sort_key (\<lambda>(b, q). (q, b)) (t_pending_deletions d)))))"

definition mark_deletion_complete :: "string \<Rightarrow> db \<Rightarrow> storage_error + db" where
  "mark_deletion_complete blob_name d =
     Inr (d\<lparr>t_pending_deletions := filter (\<lambda>(b, q). b \<noteq> blob_name) (t_pending_deletions d)\<rparr>)"

definition get_meta :: "string \<Rightarrow> db \<Rightarrow> storage_error + string option" where
  "get_meta key d = Inr (map_of (t_meta d) key)"

definition set_meta :: "string \<Rightarrow> string \<Rightarrow> db \<Rightarrow> storage_error + db" where
  "set_meta key value d =
     (if is_immutable_manifest_meta_key key then Inl (immutable_meta_key_violation key)
      else Inr (d\<lparr>t_meta := AList.update key value (t_meta d)\<rparr>))"

text \<open>\<open>UPDATE manifest_meta SET value = ?1 WHERE key = k\<close>.\<close>

definition sql_update_meta :: "string \<Rightarrow> string \<Rightarrow> db \<Rightarrow> db" where
  "sql_update_meta k v d = d\<lparr>t_meta := map (\<lambda>(k', v'). if k' = k then (k', v) else (k', v')) (t_meta d)\<rparr>"

definition read_snapshot_counter :: "db \<Rightarrow> storage_error + u64" where
  "read_snapshot_counter d =
     rbind (ok_or NotFound (map_of (t_meta d) ''snapshot_counter'')) (\<lambda>current_value.
     ok_or (Database ''invalid snapshot_counter: not an unsigned integer'') (parse_u64 current_value))"

definition increment_snapshot_counter :: "db \<Rightarrow> storage_error + (u64 \<times> db)" where
  "increment_snapshot_counter d =
     rbind (read_snapshot_counter d) (\<lambda>current_parsed.
     rbind (ok_or (Database ''invalid snapshot_counter: overflow'') (checked_add_u64 current_parsed 1)) (\<lambda>next_value.
     Inr (next_value, sql_update_meta ''snapshot_counter'' (show_nat next_value) d)))"


section \<open>Epoch buffer and epoch blobs\<close>

definition insert_file_node_only :: "env \<Rightarrow> node \<Rightarrow> db \<Rightarrow> storage_error + db" where
  "insert_file_node_only E n d = insert_node_tx E n d"

definition stage_epoch_entry :: "env \<Rightarrow> nat \<Rightarrow> uuid \<Rightarrow> bytes \<Rightarrow> db \<Rightarrow> storage_error + db" where
  "stage_epoch_entry E t node_id plaintext d =
     rbind (i64_or_err (length plaintext)) (\<lambda>sz.
     rbind (unix_timestamp_now E t) (\<lambda>queued_at.
     sql_insert_buffer
       \<lparr>br_entry_id = uuid_hyphenated E (draw_uuid E t 0), br_node_id = uuid_hyphenated E node_id,
        br_plaintext = plaintext, br_size_bytes = sz, br_queued_at = queued_at\<rparr> d))"

definition insert_file_node_and_stage_epoch_entry ::
  "env \<Rightarrow> nat \<Rightarrow> node \<Rightarrow> bytes \<Rightarrow> db \<Rightarrow> storage_error + db" where
  "insert_file_node_and_stage_epoch_entry E t n plaintext d =
     rbind (insert_node_tx E n d) (\<lambda>d.
     stage_epoch_entry E t (nd_node_id n) plaintext d)"

text \<open>\<open>SUM\<close> over integers fails on overflow; \<open>total as u64\<close> reinterprets the sign.\<close>

definition get_epoch_buffer_total_bytes :: "db \<Rightarrow> storage_error + u64" where
  "get_epoch_buffer_total_bytes d =
     (let total = sum_list (map br_size_bytes (t_epoch_buffer d))
      in if - (2 ^ 63) \<le> total \<and> total < 2 ^ 63 then Inr (nat (total mod 2 ^ 64))
         else Inl (from_rusqlite (SqliteFailure (CodeOther ''SQL logic error'') (Some ''integer overflow''))))"

definition read_buffer_row :: "env \<Rightarrow> buffer_row \<Rightarrow> storage_error + epoch_buffer_entry" where
  "read_buffer_row E r =
     rbind (ok_or (Database (''invalid entry_id uuid: '' @ uuid_error_text E (br_entry_id r)))
              (uuid_parse E (br_entry_id r))) (\<lambda>entry_id.
     rbind (ok_or (Database (''invalid node_id uuid: '' @ uuid_error_text E (br_node_id r)))
              (uuid_parse E (br_node_id r))) (\<lambda>node_id.
     rbind (ok_or (Database ''size_bytes out of range'') (u64_try_from_i64 (br_size_bytes r))) (\<lambda>size_bytes.
     Inr \<lparr>ee_entry_id = entry_id, ee_node_id = node_id, ee_plaintext = br_plaintext r,
          ee_size_bytes = size_bytes\<rparr>)))"

definition get_epoch_buffer_entries :: "env \<Rightarrow> db \<Rightarrow> storage_error + epoch_buffer_entry list" where
  "get_epoch_buffer_entries E d = rmap (read_buffer_row E) (sort_key br_queued_at (t_epoch_buffer d))"

definition get_epoch_buffer_node_ids :: "env \<Rightarrow> db \<Rightarrow> storage_error + uuid list" where
  "get_epoch_buffer_node_ids E d =
     rmap (\<lambda>r. ok_or (Database (''invalid node_id uuid: '' @ uuid_error_text E (br_node_id r)))
                 (uuid_parse E (br_node_id r)))
       (sort_key br_queued_at (t_epoch_buffer d))"

definition get_epoch_buffer_count :: "db \<Rightarrow> storage_error + u32" where
  "get_epoch_buffer_count d = Inr (length (t_epoch_buffer d) mod 2 ^ 32)"

definition epoch_row :: "env \<Rightarrow> epoch_blob_record \<Rightarrow> i64 \<Rightarrow> epoch_blob_row" where
  "epoch_row E record sz =
     \<lparr>er_epoch_blob_id = uuid_hyphenated E (eb_epoch_blob_id record), er_blob_name = eb_blob_name record,
      er_file_key_wrapped = eb_file_key_wrapped record, er_size_padded = sz,
      er_blake3_checksum = eb_blake3_checksum record\<rparr>"

text \<open>One iteration of the loop over the extents; the counter numbers the identifiers drawn.\<close>

definition insert_extent ::
  "env \<Rightarrow> nat \<Rightarrow> epoch_blob_record \<Rightarrow> i64 \<Rightarrow> nat \<times> extent \<Rightarrow> db \<Rightarrow> storage_error + db" where
  "insert_extent E t record sz x d =
     (case x of (k, node_id, chunk_index, byte_offset, byte_length) \<Rightarrow>
        rbind (i64_or_err byte_offset) (\<lambda>byte_offset_i64.
        rbind (i64_or_err byte_length) (\<lambda>byte_length_i64.
        sql_insert_chunk
          \<lparr>cr_chunk_id = uuid_hyphenated E (draw_uuid E t k), cr_node_id = uuid_hyphenated E node_id,
           cr_chunk_index = int chunk_index, cr_blob_name = None, cr_size_padded = sz,
           cr_blake3_checksum = eb_blake3_checksum record,
           cr_epoch_blob_id = Some (uuid_hyphenated E (eb_epoch_blob_id record)),
           cr_byte_offset = Some byte_offset_i64, cr_byte_length = Some byte_length_i64\<rparr> d)))"

definition insert_epoch_blob_with_extents ::
  "env \<Rightarrow> nat \<Rightarrow> epoch_blob_record \<Rightarrow> extent list \<Rightarrow> db \<Rightarrow> storage_error + db" where
  "insert_epoch_blob_with_extents E t record extents d =
     rbind (i64_or_err (eb_size_padded record)) (\<lambda>sz.
     rbind (sql_insert_epoch_blob (epoch_row E record sz) d) (\<lambda>d.
     rfold (insert_extent E t record sz) (enumerate 0 extents) d))"

text \<open>\<open>DELETE FROM epoch_buffer\<close> has no WHERE clause: every staged entry goes.\<close>

definition commit_epoch_flush ::
  "env \<Rightarrow> nat \<Rightarrow> epoch_blob_record \<Rightarrow> extent list \<Rightarrow> db \<Rightarrow> storage_error + db" where
  "commit_epoch_flush E t record extents d =
     rbind (insert_epoch_blob_with_extents E t record extents d) (\<lambda>d.
     Inr (d\<lparr>t_epoch_buffer := []\<rparr>))"

definition reinsert_epoch_blob ::
  "env \<Rightarrow> nat \<Rightarrow> epoch_blob_record \<Rightarrow> extent list \<Rightarrow> db \<Rightarrow> storage_error + db" where
  "reinsert_epoch_blob E t record extents d = insert_epoch_blob_with_extents E t record extents d"

definition get_epoch_blob :: "env \<Rightarrow> uuid \<Rightarrow> db \<Rightarrow> storage_error + epoch_blob_record" where
  "get_epoch_blob E epoch_blob_id d =
     rbind (ok_or NotFound (find_epoch_blob (uuid_hyphenated E epoch_blob_id) d))
       (read_epoch_blob E ''invalid epoch_blob_id uuid: '')"

end
