(* ===== verification/Sqlcipher_Sync.thy ===== *)
theory Sqlcipher_Sync
  imports Sqlcipher
begin

text \<open>
  The operations of \<open>SqlCipherMetadataStore\<close> that are not part of the \<open>MetadataStore\<close> trait: the
  queries and queues of cloud synchronisation and backup, the destination sessions, the sharing
  configuration, the snapshot state and the user lookup.
\<close>

section \<open>Blob enumeration\<close>

definition list_all_blob_names :: "db \<Rightarrow> storage_error + string set" where
  "list_all_blob_names d =
     Inr (set (List.map_filter cr_blob_name (t_chunks d)) \<union> set (map er_blob_name (t_epoch_blobs d)))"

definition list_sync_chunks :: "env \<Rightarrow> db \<Rightarrow> storage_error + sync_chunk_record list" where
  "list_sync_chunks E d =
     rmap (\<lambda>(blob_name, checksum).
             if length checksum = 32
             then Inr \<lparr>sc_blob_name = blob_name, sc_blake3_checksum = checksum\<rparr>
             else Inl (from_rusqlite (conv_err E 1)))
       (sort_key fst (remdups
          (List.map_filter (\<lambda>c. map_option (\<lambda>b. (b, cr_blake3_checksum c)) (cr_blob_name c)) (t_chunks d)
           @ map (\<lambda>e. (er_blob_name e, er_blake3_checksum e)) (t_epoch_blobs d))))"

definition get_chunk_by_blob_name :: "env \<Rightarrow> string \<Rightarrow> db \<Rightarrow> storage_error + chunk_record option" where
  "get_chunk_by_blob_name E blob_name d =
     transpose_opt (\<lambda>r. map_err from_rusqlite (read_chunk E r))
       (find (\<lambda>c. cr_blob_name c = Some blob_name) (t_chunks d))"

definition get_epoch_blob_by_blob_name ::
  "env \<Rightarrow> string \<Rightarrow> db \<Rightarrow> storage_error + epoch_blob_record option" where
  "get_epoch_blob_by_blob_name E blob_name d =
     transpose_opt (read_epoch_blob E ''invalid epoch_blob_id: '')
       (find (\<lambda>e. er_blob_name e = blob_name) (t_epoch_blobs d))"

text \<open>An inner join: name, size and checksum come from the epoch blob.\<close>

definition get_chunks_for_epoch_blob :: "env \<Rightarrow> uuid \<Rightarrow> db \<Rightarrow> storage_error + chunk_record list" where
  "get_chunks_for_epoch_blob E epoch_blob_id d =
     rmap (\<lambda>r. map_err from_rusqlite (read_chunk E r))
       (sort_key cr_chunk_index (case find_epoch_blob (uuid_hyphenated E epoch_blob_id) d of
          None \<Rightarrow> []
        | Some e \<Rightarrow>
            map (\<lambda>c. c\<lparr>cr_blob_name := Some (er_blob_name e), cr_size_padded := er_size_padded e,
                       cr_blake3_checksum := er_blake3_checksum e\<rparr>)
              (filter (\<lambda>c. cr_epoch_blob_id c = Some (uuid_hyphenated E epoch_blob_id)) (t_chunks d))))"


section \<open>Snapshot counter and user\<close>

definition rollback_snapshot_counter :: "u64 \<Rightarrow> db \<Rightarrow> storage_error + db" where
  "rollback_snapshot_counter previous_value d =
     rbind (read_snapshot_counter d) (\<lambda>current_value.
     rbind (ok_or (Database ''invalid snapshot_counter: overflow'') (checked_add_u64 previous_value 1)) (\<lambda>expected_current.
     if current_value \<noteq> expected_current
     then Inl (Database ''snapshot_counter rollback precondition violated'')
     else Inr (sql_update_meta ''snapshot_counter'' (show_nat previous_value) d)))"

definition clear_last_synced_at :: "db \<Rightarrow> storage_error + db" where
  "clear_last_synced_at d = Inr (d\<lparr>t_meta := AList.delete ''last_synced_at'' (t_meta d)\<rparr>)"

definition read_snapshot_state :: "db \<Rightarrow> storage_error + (u64 \<times> i64 option)" where
  "read_snapshot_state d =
     rbind (ok_or (Database ''missing manifest_meta key: snapshot_counter'')
              (map_of (t_meta d) ''snapshot_counter'')) (\<lambda>raw.
     rbind (ok_or (Database ''invalid snapshot_counter: not an unsigned integer'') (parse_u64 raw)) (\<lambda>snapshot_counter.
     Inr (snapshot_counter, Option.bind (map_of (t_meta d) ''last_synced_at'') parse_i64)))"

record auth_user =
  au_vault_id :: uuid
  au_salt :: bytes
  au_key_file_hash :: "bytes option"

definition get_user :: "env \<Rightarrow> uuid \<Rightarrow> db \<Rightarrow> storage_error + auth_user" where
  "get_user E vault_id d =
     rbind (ok_or NotFound (map_of (t_meta d) ''vault_id'')) (\<lambda>stored_vault_id.
     if stored_vault_id = uuid_hyphenated E vault_id
     then Inr \<lparr>au_vault_id = vault_id, au_salt = replicate 16 0, au_key_file_hash = None\<rparr>
     else Inl NotFound)"


section \<open>Destination sessions\<close>

definition destination_check :: "destination_row \<Rightarrow> bool" where
  "destination_check r =
     (ds_destination_type r \<in> {''cloud'', ''external_drive'', ''local_path''} \<and>
      ds_backup_mode r \<in> {None, Some ''mirror'', Some ''accumulating''})"

definition sql_insert_destination :: "destination_row \<Rightarrow> db \<Rightarrow> storage_error + db" where
  "sql_insert_destination r d =
     (if ds_destination_id r \<in> set (map ds_destination_id (t_destinations d))
      then Inl (constraint_failed ''UNIQUE constraint failed: destination_sessions.destination_id'')
      else if \<not> destination_check r
      then Inl (constraint_failed ''CHECK constraint failed: destination_sessions'')
      else Inr (d\<lparr>t_destinations := t_destinations d @ [r]\<rparr>))"

definition insert_destination_session ::
  "env \<Rightarrow> nat \<Rightarrow> destination_session_row \<Rightarrow> db \<Rightarrow> storage_error + db" where
  "insert_destination_session E t s d =
     rbind (unix_timestamp_now E t) (\<lambda>created_at.
     let existing_primary = (if ds_is_primary s
           then map_option ds_destination_id (find ds_is_primary (t_destinations d)) else None)
     in if existing_primary \<noteq> None \<and> existing_primary \<noteq> Some (ds_destination_id s)
        then Inl (ConstraintViolation ''only one primary destination is allowed'')
        else sql_insert_destination
               (destination_session_row.extend s (destination_row.fields created_at)) d)"

definition list_destination_sessions :: "db \<Rightarrow> storage_error + destination_session_row list" where
  "list_destination_sessions d =
     Inr (map destination_session_row.truncate
            (sort_key (\<lambda>r. (ds_created_at r, ds_destination_id r)) (t_destinations d)))"

definition get_primary_destination :: "db \<Rightarrow> storage_error + destination_session_row option" where
  "get_primary_destination d =
     Inr (map_option destination_session_row.truncate (find ds_is_primary (t_destinations d)))"

definition delete_destination_session :: "string \<Rightarrow> db \<Rightarrow> storage_error + db" where
  "delete_destination_session destination_id d =
     Inr (d\<lparr>t_destinations := filter (\<lambda>r. ds_destination_id r \<noteq> destination_id) (t_destinations d)\<rparr>)"

text \<open>Three UPDATE statements in one transaction.\<close>

definition swap_primary_destination :: "string \<Rightarrow> db \<Rightarrow> storage_error + db" where
  "swap_primary_destination new_primary_id d =
     (let r1 = map (\<lambda>r. if ds_is_primary r \<and> ds_backup_mode r = None
                        then r\<lparr>ds_backup_mode := Some ''mirror''\<rparr> else r) (t_destinations d);
          r2 = map (\<lambda>r. r\<lparr>ds_is_primary := False\<rparr>) r1;
          r3 = map (\<lambda>r. if ds_destination_id r = new_primary_id then r\<lparr>ds_is_primary := True\<rparr> else r) r2
      in if new_primary_id \<notin> set (map ds_destination_id r2) then Inl NotFound
         else Inr (d\<lparr>t_destinations := r3\<rparr>))"


section \<open>Backup queues\<close>

definition record_backup_failure :: "env \<Rightarrow> nat \<Rightarrow> string \<Rightarrow> string \<Rightarrow> db \<Rightarrow> storage_error + db" where
  "record_backup_failure E t blob_name destination_id d =
     rbind (unix_timestamp_now E t) (\<lambda>now.
     let hit = (\<lambda>r. bf_blob_name r = blob_name \<and> bf_destination_id r = destination_id)
     in Inr (d\<lparr>t_backup_failures :=
          if \<exists>r \<in> set (t_backup_failures d). hit r
          then map (\<lambda>r. if hit r then r\<lparr>bf_failed_at := now, bf_retry_count := bf_retry_count r + 1\<rparr> else r)
                 (t_backup_failures d)
          else t_backup_failures d @
                 [\<lparr>bf_blob_name = blob_name, bf_destination_id = destination_id, bf_failed_at = now,
                   bf_retry_count = 0\<rparr>]\<rparr>))"

definition clear_backup_failure :: "string \<Rightarrow> string \<Rightarrow> db \<Rightarrow> storage_error + db" where
  "clear_backup_failure blob_name destination_id d =
     Inr (d\<lparr>t_backup_failures := filter (\<lambda>r. \<not> (bf_blob_name r = blob_name
            \<and> bf_destination_id r = destination_id)) (t_backup_failures d)\<rparr>)"

text \<open>\<open>SELECT destination_id, COUNT(*) ... GROUP BY destination_id ORDER BY destination_id\<close>; \<open>cnt as u32\<close>.\<close>

definition count_by_destination :: "string list \<Rightarrow> (string \<times> u32) list" where
  "count_by_destination ids = map (\<lambda>i. (i, count_list ids i mod 2 ^ 32)) (sort (remdups ids))"

definition get_backup_failure_counts :: "db \<Rightarrow> storage_error + (string \<times> u32) list" where
  "get_backup_failure_counts d = Inr (count_by_destination (map bf_destination_id (t_backup_failures d)))"

definition get_pending_backup_counts :: "db \<Rightarrow> storage_error + (string \<times> u32) list" where
  "get_pending_backup_counts d = Inr (count_by_destination (map snd (t_pending_backup d)))"

definition bulk_insert_pending_backup :: "string list \<Rightarrow> string \<Rightarrow> db \<Rightarrow> storage_error + db" where
  "bulk_insert_pending_backup blob_names destination_id d =
     Inr (d\<lparr>t_pending_backup :=
            fold (\<lambda>b t. if (b, destination_id) \<in> set t then t else t @ [(b, destination_id)])
              blob_names (t_pending_backup d)\<rparr>)"

definition list_pending_backups :: "string \<Rightarrow> db \<Rightarrow> storage_error + string list" where
  "list_pending_backups destination_id d =
     Inr (sort (map fst (filter (\<lambda>(b, i). i = destination_id) (t_pending_backup d))))"

definition clear_pending_backup :: "string \<Rightarrow> string \<Rightarrow> db \<Rightarrow> storage_error + db" where
  "clear_pending_backup blob_name destination_id d =
     Inr (d\<lparr>t_pending_backup := filter (\<lambda>(b, i). \<not> (b = blob_name \<and> i = destination_id)) (t_pending_backup d)\<rparr>)"

definition clear_pending_backups_for_destination :: "string \<Rightarrow> db \<Rightarrow> storage_error + db" where
  "clear_pending_backups_for_destination destination_id d =
     Inr (d\<lparr>t_pending_backup := filter (\<lambda>(b, i). i \<noteq> destination_id) (t_pending_backup d)\<rparr>)"


section \<open>Sharing configuration\<close>

text \<open>\<open>INSERT OR REPLACE\<close> replaces a row only on a conflict of the primary key \<open>config_id\<close>.\<close>

definition upsert_gdrive_sharing_config ::
  "env \<Rightarrow> nat \<Rightarrow> string option \<Rightarrow> string \<Rightarrow> i64 \<Rightarrow> db \<Rightarrow> storage_error + db" where
  "upsert_gdrive_sharing_config E t destination_id config_json now_unix_seconds d =
     (let config_id = uuid_hyphenated E (draw_uuid E t 0)
      in if \<not> json_valid E config_json
         then Inl (constraint_failed ''CHECK constraint failed: json_valid(config_json)'')
         else Inr (d\<lparr>t_sharing_config := filter (\<lambda>r. sg_config_id r \<noteq> config_id) (t_sharing_config d) @
                [\<lparr>sg_config_id = config_id, sg_destination_id = destination_id, sg_provider = ''gdrive'',
                  sg_config_json = config_json, sg_created_at = now_unix_seconds,
                  sg_updated_at = now_unix_seconds\<rparr>]\<rparr>))"

text \<open>\<open>LIMIT 1\<close> without ORDER BY: the first row of the table scan.\<close>

definition get_gdrive_sharing_config :: "db \<Rightarrow> storage_error + string option" where
  "get_gdrive_sharing_config d =
     Inr (map_option sg_config_json (find (\<lambda>r. sg_provider r = ''gdrive'') (t_sharing_config d)))"

end
