(* ===== verification/Schema.thy ===== *)
theory Schema
  imports Manifest_Db
begin

text \<open>
  \<open>storage/schema.rs\<close>: the canonical schema, the migrations from schema version 1 to 10, the
  seeding of \<open>manifest_meta\<close> and its validation on every open.  The state is the catalogue (the
  tables and indices with their columns), the rows, and the rows of \<open>pending_deletions\<close> whose name
  is NULL (a TEXT primary key admits NULL; version 9 removes them).  A migration runs in one
  transaction, and an error closes the connection, so an error leaves the file as it was; the
  canonical schema and the seeding are run statement by statement.  Rows of
  an older version are rows of the current record types in which the columns that do not exist yet
  hold NULL, or the default of the column.
\<close>

type_synonym catalogue = "(string \<times> string list) list"

record schema_state =
  ss_tables :: catalogue
  ss_db :: db
  ss_null_pending :: "i64 list"

definition sql_error :: "string \<Rightarrow> storage_error" where
  "sql_error m = from_rusqlite (SqliteFailure (CodeOther ''SQL logic error'') (Some m))"


section \<open>Statements\<close>

datatype statement =
    CreateTable string "string list"
  | CreateTableIfNotExists string "string list"
  | AddColumn string string
  | DropTable string
  | RenameTable string string
  | Rows "db \<Rightarrow> db"
  | DeleteNullPending

text \<open>The effect of a statement on the catalogue.\<close>

fun ddl :: "statement \<Rightarrow> catalogue \<Rightarrow> storage_error + catalogue" where
  "ddl (CreateTable tbl columns) c =
     (if tbl \<in> set (map fst c) then Inl (sql_error (''table '' @ tbl @ '' already exists''))
      else Inr (c @ [(tbl, columns)]))"
| "ddl (CreateTableIfNotExists tbl columns) c =
     (if tbl \<in> set (map fst c) then Inr c else Inr (c @ [(tbl, columns)]))"
| "ddl (AddColumn tbl column) c =
     (case map_of c tbl of
        None \<Rightarrow> Inl (sql_error (''no such table: '' @ tbl))
      | Some columns \<Rightarrow>
          if column \<in> set columns then Inl (sql_error (''duplicate column name: '' @ column))
          else Inr (AList.update tbl (columns @ [column]) c))"
| "ddl (DropTable tbl) c =
     (if tbl \<notin> set (map fst c) then Inl (sql_error (''no such table: '' @ tbl))
      else Inr (filter (\<lambda>(t, _). t \<noteq> tbl) c))"
| "ddl (RenameTable old new) c =
     (if old \<notin> set (map fst c) then Inl (sql_error (''no such table: '' @ old))
      else if new \<in> set (map fst c)
      then Inl (sql_error (''there is already another table or index with this name: '' @ new))
      else Inr (map (\<lambda>(t, cols). if t = old then (new, cols) else (t, cols)) c))"
| "ddl (Rows f) c = Inr c"
| "ddl DeleteNullPending c = Inr c"

text \<open>The effect of a statement on the rows.\<close>

fun dml :: "statement \<Rightarrow> schema_state \<Rightarrow> schema_state" where
  "dml (Rows f) s = s\<lparr>ss_db := f (ss_db s)\<rparr>"
| "dml DeleteNullPending s = s\<lparr>ss_null_pending := []\<rparr>"
| "dml _ s = s"

definition execute :: "statement \<Rightarrow> schema_state \<Rightarrow> storage_error + schema_state" where
  "execute st s = rbind (ddl st (ss_tables s)) (\<lambda>c. Inr ((dml st s)\<lparr>ss_tables := c\<rparr>))"

text \<open>\<open>execute_batch\<close>.\<close>

definition batch :: "statement list \<Rightarrow> schema_state \<Rightarrow> storage_error + schema_state" where
  "batch = rfold execute"

text \<open>\<open>UPDATE manifest_meta SET value = v WHERE key = 'schema_version'\<close>.\<close>

definition set_version :: "string \<Rightarrow> db \<Rightarrow> db" where
  "set_version v d = d\<lparr>t_meta := map (\<lambda>(k, x). if k = ''schema_version'' then (k, v) else (k, x)) (t_meta d)\<rparr>"

definition nodes_columns :: "string list" where
  "nodes_columns = [''node_id'', ''parent_id'', ''node_type'', ''name'', ''created_at'',
     ''modified_at'', ''size_bytes'', ''file_key_wrapped'']"

definition shares_v8_columns :: "string list" where
  "shares_v8_columns = [''share_id'', ''file_id'', ''contact_id'', ''file_share_id'', ''cloud_path'',
     ''created_at'', ''expires_at'', ''revoked_at'', ''download_key_id'', ''receipt_requested'',
     ''receipt_received_at'', ''import_receipt_received_at'', ''download_folder_id'']"

definition CANONICAL_SCHEMA :: catalogue where
  "CANONICAL_SCHEMA =
     [(''nodes'', nodes_columns),
      (''chunks'', [''chunk_id'', ''node_id'', ''chunk_index'', ''blob_name'', ''size_padded'',
         ''blake3_checksum'']),
      (''manifest_meta'', [''key'', ''value'']),
      (''pending_deletions'', [''blob_name'', ''queued_at'']),
      (''destination_sessions'', [''destination_id'', ''label'', ''destination_type'',
         ''rclone_remote_name'', ''rclone_config_blob'', ''bucket'', ''path_prefix'', ''is_primary'',
         ''backup_mode'', ''created_at'']),
      (''contacts'', [''contact_id'', ''display_name'', ''email'', ''public_key'', ''created_at'']),
      (''shares'', take 8 shares_v8_columns),
      (''received_shares'', [''share_id'', ''sender_contact_id'', ''sender_public_key'', ''file_id'',
         ''file_name'', ''file_key_wrapped'', ''chunk_count'', ''chunk_size'', ''chunk_uuids'',
         ''cloud_endpoint'', ''expires_at'', ''imported_at'']),
      (''vault_identity'', [''id'', ''public_key'', ''wrapped_private_key''])]"

definition apply_canonical_schema :: "schema_state \<Rightarrow> storage_error + schema_state" where
  "apply_canonical_schema s = batch (map (\<lambda>(t, c). CreateTable t c) CANONICAL_SCHEMA) s"


section \<open>Migrations\<close>

definition schema_version :: "schema_state \<Rightarrow> storage_error + string" where
  "schema_version s =
     ok_or (Database ''missing manifest_meta key: schema_version'') (map_of (t_meta (ss_db s)) ''schema_version'')"

text \<open>The frame every migration shares: nothing to do when the version is one of \<open>later\<close>.\<close>

definition migrate :: "string list \<Rightarrow> statement list \<Rightarrow> schema_state \<Rightarrow> storage_error + schema_state" where
  "migrate later statements s =
     rbind (schema_version s) (\<lambda>version. if version \<in> set later then Inr s else batch statements s)"

text \<open>\<open>INSERT INTO chunks_new ... SELECT ... FROM chunks\<close>: the new columns are NULL.\<close>

definition copy_chunks :: "db \<Rightarrow> db" where
  "copy_chunks d = d\<lparr>t_chunks :=
     map (\<lambda>c. c\<lparr>cr_epoch_blob_id := None, cr_byte_offset := None, cr_byte_length := None\<rparr>) (t_chunks d)\<rparr>"

text \<open>\<open>ADD COLUMN\<close> fills the existing rows with NULL, or with the DEFAULT.\<close>

definition fill_shares :: "(share_row \<Rightarrow> share_row) \<Rightarrow> db \<Rightarrow> db" where
  "fill_shares f d = d\<lparr>t_shares := map f (t_shares d)\<rparr>"

definition fill_destinations :: "(destination_row \<Rightarrow> destination_row) \<Rightarrow> db \<Rightarrow> db" where
  "fill_destinations f d = d\<lparr>t_destinations := map f (t_destinations d)\<rparr>"

definition v2_statements :: "statement list" where
  "v2_statements =
     [CreateTable ''epoch_blobs''
        [''epoch_blob_id'', ''blob_name'', ''file_key_wrapped'', ''size_padded'', ''blake3_checksum''],
      CreateTable ''chunks_new'' [''chunk_id'', ''node_id'', ''chunk_index'', ''blob_name'',
        ''size_padded'', ''blake3_checksum'', ''epoch_blob_id'', ''byte_offset'', ''byte_length''],
      CreateTable ''idx_chunks_blob_name'' [''blob_name''],
      Rows copy_chunks,
      DropTable ''chunks'',
      RenameTable ''chunks_new'' ''chunks'',
      CreateTableIfNotExists ''epoch_buffer''
        [''entry_id'', ''node_id'', ''plaintext'', ''size_bytes'', ''queued_at''],
      Rows (set_version ''2'')]"

definition apply_epoch_v2_migration :: "schema_state \<Rightarrow> storage_error + schema_state" where
  "apply_epoch_v2_migration =
     migrate [''2'', ''3'', ''4'', ''5'', ''6'', ''7'', ''8'', ''9'', ''10''] v2_statements"

definition v3_statements :: "statement list" where
  "v3_statements =
     [AddColumn ''shares'' ''download_key_id'',
      Rows (fill_shares (\<lambda>r. r\<lparr>sr_download_key_id := None\<rparr>)),
      AddColumn ''shares'' ''receipt_requested'',
      Rows (fill_shares (\<lambda>r. r\<lparr>sr_receipt_requested := 0\<rparr>)),
      AddColumn ''shares'' ''receipt_received_at'',
      Rows (fill_shares (\<lambda>r. r\<lparr>sr_receipt_received_at := None\<rparr>)),
      Rows (set_version ''3'')]"

definition apply_sharing_v3_migration :: "schema_state \<Rightarrow> storage_error + schema_state" where
  "apply_sharing_v3_migration =
     migrate [''3'', ''4'', ''5'', ''6'', ''7'', ''8'', ''9'', ''10''] v3_statements"

definition v4_statements :: "statement list" where
  "v4_statements =
     [AddColumn ''shares'' ''import_receipt_received_at'',
      Rows (fill_shares (\<lambda>r. r\<lparr>sr_import_receipt_received_at := None\<rparr>)),
      Rows (set_version ''4'')]"

definition apply_sharing_v4_migration :: "schema_state \<Rightarrow> storage_error + schema_state" where
  "apply_sharing_v4_migration =
     migrate [''4'', ''5'', ''6'', ''7'', ''8'', ''9'', ''10''] v4_statements"

definition v5_statements :: "statement list" where
  "v5_statements =
     [CreateTableIfNotExists ''backup_upload_failures''
        [''blob_name'', ''destination_id'', ''failed_at'', ''retry_count''],
      Rows (set_version ''5'')]"

definition apply_backup_v5_migration :: "schema_state \<Rightarrow> storage_error + schema_state" where
  "apply_backup_v5_migration = migrate [''5'', ''6'', ''7'', ''8'', ''9'', ''10''] v5_statements"

definition v6_statements :: "statement list" where
  "v6_statements =
     [CreateTableIfNotExists ''pending_backup'' [''blob_name'', ''destination_id''],
      Rows (set_version ''6'')]"

definition apply_pending_backup_v6_migration :: "schema_state \<Rightarrow> storage_error + schema_state" where
  "apply_pending_backup_v6_migration = migrate [''6'', ''7'', ''8'', ''9'', ''10''] v6_statements"

definition v7_statements :: "statement list" where
  "v7_statements =
     [AddColumn ''destination_sessions'' ''device_id'',
      Rows (fill_destinations (\<lambda>r. r\<lparr>ds_device_id := None\<rparr>)),
      Rows (set_version ''7'')]"

definition apply_device_id_v7_migration :: "schema_state \<Rightarrow> storage_error + schema_state" where
  "apply_device_id_v7_migration = migrate [''7'', ''8'', ''9'', ''10''] v7_statements"

definition v8_statements :: "statement list" where
  "v8_statements =
     [CreateTableIfNotExists ''sharing_config''
        [''config_id'', ''destination_id'', ''provider'', ''config_json'', ''created_at'', ''updated_at''],
      AddColumn ''shares'' ''download_folder_id'',
      Rows (fill_shares (\<lambda>r. r\<lparr>sr_download_folder_id := None\<rparr>)),
      Rows (set_version ''8'')]"

definition apply_gdrive_sharing_v8_migration :: "schema_state \<Rightarrow> storage_error + schema_state" where
  "apply_gdrive_sharing_v8_migration = migrate [''8'', ''9'', ''10''] v8_statements"

definition v9_statements :: "statement list" where
  "v9_statements =
     [DeleteNullPending,
      CreateTable ''shares_new'' shares_v8_columns,
      Rows (fill_shares id),
      DropTable ''shares'',
      RenameTable ''shares_new'' ''shares'',
      Rows (set_version ''9'')]"

definition apply_shares_cascade_v9_migration :: "schema_state \<Rightarrow> storage_error + schema_state" where
  "apply_shares_cascade_v9_migration = migrate [''9'', ''10''] v9_statements"

definition v10_statements :: "statement list" where
  "v10_statements =
     [CreateTable ''file_shares'' [''file_share_id'', ''share_file_id'', ''share_file_key_wrapped'',
        ''chunk_uuids'', ''chunk_size'', ''file_size'', ''file_name'', ''created_at''],
      Rows (set_version ''10'')]"

definition apply_file_shares_v10_migration :: "schema_state \<Rightarrow> storage_error + schema_state" where
  "apply_file_shares_v10_migration = migrate [''10''] v10_statements"


section \<open>Seeding and validation of \<open>manifest_meta\<close>\<close>

definition seed_manifest_meta :: "env \<Rightarrow> uuid \<Rightarrow> u64 \<Rightarrow> bool \<Rightarrow> db \<Rightarrow> db" where
  "seed_manifest_meta E vault_id chunk_size_bytes epoch_buffer_enabled d =
     d\<lparr>t_meta :=
        insert_or_ignore ''epoch_buffer_enabled'' (if epoch_buffer_enabled then ''true'' else ''false'')
       (insert_or_ignore ''chunk_size_bytes'' (show_nat chunk_size_bytes)
       (insert_or_ignore ''vault_id'' (uuid_hyphenated E vault_id)
       (insert_or_ignore ''snapshot_counter'' ''0''
       (insert_or_ignore ''schema_version'' ''1'' (t_meta d)))))\<rparr>"

definition manifest_meta_value :: "string \<Rightarrow> db \<Rightarrow> storage_error + string" where
  "manifest_meta_value key d =
     ok_or (Database (''missing manifest_meta key: '' @ key)) (map_of (t_meta d) key)"

definition SCHEMA_VERSIONS :: "string list" where
  "SCHEMA_VERSIONS = [''1'', ''2'', ''3'', ''4'', ''5'', ''6'', ''7'', ''8'', ''9'', ''10'']"

definition validate_manifest_meta :: "env \<Rightarrow> db \<Rightarrow> storage_error + unit" where
  "validate_manifest_meta E d =
     rbind (manifest_meta_value ''schema_version'' d) (\<lambda>schema_version.
     rbind (ensure (Database ''invalid schema_version: expected 1, 2, 3, 4, 5, 6, 7, 8, 9, or 10'')
              (schema_version \<in> set SCHEMA_VERSIONS)) (\<lambda>_.
     rbind (manifest_meta_value ''vault_id'' d) (\<lambda>vault_id.
     rbind (ok_or (Database ''invalid vault_id: not a UUID'') (uuid_parse E vault_id)) (\<lambda>_.
     rbind (manifest_meta_value ''snapshot_counter'' d) (\<lambda>snapshot_counter.
     rbind (ok_or (Database ''invalid snapshot_counter: not an unsigned integer'') (parse_u64 snapshot_counter)) (\<lambda>_.
     rbind (manifest_meta_value ''chunk_size_bytes'' d) (\<lambda>chunk_size_value.
     rbind (parse_chunk_size_bytes chunk_size_value) (\<lambda>_.
     rbind (manifest_meta_value ''epoch_buffer_enabled'' d) (\<lambda>epoch_value.
     ensure (Database ''invalid epoch_buffer_enabled: expected true|false'')
       (epoch_value = ''true'' \<or> epoch_value = ''false''))))))))))"

text \<open>
  \<open>PRAGMA integrity_check(1)\<close> and \<open>PRAGMA foreign_key_check\<close> are answered by SQLite; the arguments
  are their answers.
\<close>

definition validate_schema_integrity ::
  "string \<Rightarrow> (string \<times> i64 \<times> string option \<times> i64) option \<Rightarrow> storage_error + unit" where
  "validate_schema_integrity integrity_result foreign_key_violation =
     (if integrity_result \<noteq> ''ok''
      then Inl (Database (''schema integrity check failed: '' @ integrity_result))
      else case foreign_key_violation of
        None \<Rightarrow> Inr ()
      | Some (tbl, rowid, parent, fkid) \<Rightarrow>
          Inl (Database (''schema foreign key check failed: table='' @ tbl
             @ '', rowid='' @ show_int rowid
             @ '', parent='' @ (case parent of None \<Rightarrow> ''unknown'' | Some p \<Rightarrow> p)
             @ '', fkid='' @ show_int fkid)))"

definition validate_create_immutable_meta_matches ::
  "env \<Rightarrow> uuid \<Rightarrow> u64 \<Rightarrow> bool \<Rightarrow> db \<Rightarrow> storage_error + unit" where
  "validate_create_immutable_meta_matches E vault_id chunk_size_bytes epoch_buffer_enabled d =
     rfold (\<lambda>(key, expected) _.
        rbind (ok_or (Database (''missing manifest_meta key: '' @ key)) (map_of (t_meta d) key))
          (validate_immutable_meta_matches_expected key expected))
       [(''vault_id'', uuid_hyphenated E vault_id), (''chunk_size_bytes'', show_nat chunk_size_bytes),
        (''epoch_buffer_enabled'', if epoch_buffer_enabled then ''true'' else ''false'')] ()"


section \<open>Opening and creating a store\<close>

definition migrations :: "(schema_state \<Rightarrow> storage_error + schema_state) list" where
  "migrations =
     [apply_epoch_v2_migration, apply_sharing_v3_migration, apply_sharing_v4_migration,
      apply_backup_v5_migration, apply_pending_backup_v6_migration, apply_device_id_v7_migration,
      apply_gdrive_sharing_v8_migration, apply_shares_cascade_v9_migration,
      apply_file_shares_v10_migration]"

definition apply_migrations :: "schema_state \<Rightarrow> storage_error + schema_state" where
  "apply_migrations s = rfold (\<lambda>migration. migration) migrations s"

definition open_store ::
  "env \<Rightarrow> string \<Rightarrow> (string \<times> i64 \<times> string option \<times> i64) option \<Rightarrow> schema_state \<Rightarrow>
   storage_error + schema_state" where
  "open_store E integrity fk s =
     rbind (apply_migrations s) (\<lambda>s.
     rbind (validate_schema_integrity integrity fk) (\<lambda>_.
     rbind (validate_manifest_meta E (ss_db s)) (\<lambda>_. Inr s)))"

definition create_store ::
  "env \<Rightarrow> string \<Rightarrow> (string \<times> i64 \<times> string option \<times> i64) option \<Rightarrow> uuid \<Rightarrow> u64 \<Rightarrow> bool \<Rightarrow>
   schema_state \<Rightarrow> storage_error + schema_state" where
  "create_store E integrity fk vault_id chunk_size_bytes epoch_buffer_enabled s =
     rbind (apply_canonical_schema s) (\<lambda>s.
     let s = s\<lparr>ss_db := seed_manifest_meta E vault_id chunk_size_bytes epoch_buffer_enabled (ss_db s)\<rparr> in
     rbind (apply_migrations s) (\<lambda>s.
     rbind (validate_schema_integrity integrity fk) (\<lambda>_.
     rbind (validate_manifest_meta E (ss_db s)) (\<lambda>_.
     rbind (validate_create_immutable_meta_matches E vault_id chunk_size_bytes epoch_buffer_enabled (ss_db s)) (\<lambda>_.
     Inr s)))))"


section \<open>The catalogue of each version\<close>

definition epoch_catalogue :: catalogue where
  "epoch_catalogue =
     [(''epoch_blobs'', [''epoch_blob_id'', ''blob_name'', ''file_key_wrapped'', ''size_padded'', ''blake3_checksum'']),
      (''chunks'', [''chunk_id'', ''node_id'', ''chunk_index'', ''blob_name'', ''size_padded'', ''blake3_checksum'',
         ''epoch_blob_id'', ''byte_offset'', ''byte_length'']),
      (''idx_chunks_blob_name'', [''blob_name'']),
      (''epoch_buffer'', [''entry_id'', ''node_id'', ''plaintext'', ''size_bytes'', ''queued_at''])]"

text \<open>What a vault last opened by the release of schema version \<open>k\<close> holds.\<close>

fun catalogue_at :: "nat \<Rightarrow> catalogue" where
  "catalogue_at k =
     (if k \<le> 1 then CANONICAL_SCHEMA
      else if k = 2 then AList.delete ''chunks'' CANONICAL_SCHEMA @ epoch_catalogue
      else if k = 3 then AList.update ''shares'' (take 11 shares_v8_columns) (catalogue_at 2)
      else if k = 4 then AList.update ''shares'' (take 12 shares_v8_columns) (catalogue_at 3)
      else if k = 5 then catalogue_at 4 @
        [(''backup_upload_failures'', [''blob_name'', ''destination_id'', ''failed_at'', ''retry_count''])]
      else if k = 6 then catalogue_at 5 @ [(''pending_backup'', [''blob_name'', ''destination_id''])]
      else if k = 7 then AList.update ''destination_sessions'' [''destination_id'', ''label'',
        ''destination_type'', ''rclone_remote_name'', ''rclone_config_blob'', ''bucket'', ''path_prefix'',
        ''is_primary'', ''backup_mode'', ''created_at'', ''device_id''] (catalogue_at 6)
      else if k = 8 then AList.update ''shares'' shares_v8_columns (catalogue_at 7 @
        [(''sharing_config'', [''config_id'', ''destination_id'', ''provider'', ''config_json'', ''created_at'', ''updated_at''])])
      else if k = 9 then AList.delete ''shares'' (catalogue_at 8) @ [(''shares'', shares_v8_columns)]
      else catalogue_at 9 @ [(''file_shares'', [''file_share_id'', ''share_file_id'', ''share_file_key_wrapped'',
        ''chunk_uuids'', ''chunk_size'', ''file_size'', ''file_name'', ''created_at''])])"

declare catalogue_at.simps [simp del]

text \<open>
  What the rows of a vault of version \<open>k\<close> are once version \<open>k'\<close> is reached: a column that \<open>k\<close> does not
  have and \<open>k'\<close> has is filled with NULL or its default, every other column of every row is what it was,
  and \<open>schema_version\<close> names \<open>k'\<close>.  The table of the columns is the repository's history: the extents of
  chunks came with version 2, the download key and receipt columns of shares with 3, the import receipt
  with 4, the device of a destination with 7, the download folder with 8.
\<close>

definition added :: "nat \<Rightarrow> nat \<Rightarrow> nat \<Rightarrow> bool" where
  "added v k k' \<longleftrightarrow> k < v \<and> v \<le> k'"

definition chunk_columns :: "nat \<Rightarrow> nat \<Rightarrow> chunk_row \<Rightarrow> chunk_row" where
  "chunk_columns k k' c =
     (if added 2 k k' then c\<lparr>cr_epoch_blob_id := None, cr_byte_offset := None, cr_byte_length := None\<rparr> else c)"

definition share_columns :: "nat \<Rightarrow> nat \<Rightarrow> share_row \<Rightarrow> share_row" where
  "share_columns k k' r = r\<lparr>
     sr_download_key_id := if added 3 k k' then None else sr_download_key_id r,
     sr_receipt_requested := if added 3 k k' then 0 else sr_receipt_requested r,
     sr_receipt_received_at := if added 3 k k' then None else sr_receipt_received_at r,
     sr_import_receipt_received_at := if added 4 k k' then None else sr_import_receipt_received_at r,
     sr_download_folder_id := if added 8 k k' then None else sr_download_folder_id r\<rparr>"

definition destination_columns :: "nat \<Rightarrow> nat \<Rightarrow> destination_row \<Rightarrow> destination_row" where
  "destination_columns k k' r =
     r\<lparr>ds_device_id := if added 7 k k' then None else ds_device_id r\<rparr>"

definition version_text :: "nat \<Rightarrow> string" where
  "version_text k = SCHEMA_VERSIONS ! (k - 1)"

definition rows_at :: "nat \<Rightarrow> nat \<Rightarrow> db \<Rightarrow> db" where
  "rows_at k k' d = d\<lparr>
     t_chunks := map (chunk_columns k k') (t_chunks d),
     t_shares := map (share_columns k k') (t_shares d),
     t_destinations := map (destination_columns k k') (t_destinations d),
     t_meta := if k < k'
       then map (\<lambda>(key, x). if key = ''schema_version'' then (key, version_text k') else (key, x)) (t_meta d)
       else t_meta d\<rparr>"

text \<open>In particular, from the version on that has all columns nothing but the version number changes.\<close>

lemma columns_old [simp]:
  "\<not> added 2 k k' \<Longrightarrow> chunk_columns k k' = id" "\<not> added 7 k k' \<Longrightarrow> destination_columns k k' = id"
  "\<not> added 3 k k' \<Longrightarrow> \<not> added 4 k k' \<Longrightarrow> \<not> added 8 k k' \<Longrightarrow> share_columns k k' = id"
  by (auto simp: chunk_columns_def share_columns_def destination_columns_def fun_eq_iff)

lemma not_added_same [simp]: "\<not> added v k k"
  by (simp add: added_def)

lemma rows_at_same [simp]: "rows_at k k d = d"
  by (simp add: rows_at_def)

lemma columns_trans:
  assumes "k \<le> k'" "k' \<le> k''"
  shows "chunk_columns k' k'' (chunk_columns k k' c) = chunk_columns k k'' c"
    and "share_columns k' k'' (share_columns k k' r) = share_columns k k'' r"
    and "destination_columns k' k'' (destination_columns k k' t) = destination_columns k k'' t"
  using assms by (auto simp: chunk_columns_def share_columns_def destination_columns_def added_def)

lemma rows_at_trans:
  assumes "k \<le> k'" "k' \<le> k''"
  shows "rows_at k' k'' (rows_at k k' d) = rows_at k k'' d"
proof (cases "k' < k'' \<and> k < k'")
  case True
  then show ?thesis
    by (auto simp: rows_at_def columns_trans [OF assms] intro!: db.equality map_cong)
next
  case False
  with assms have "k' = k'' \<or> k = k'" by auto
  then show ?thesis by auto
qed

lemma rows_at_tables [simp]:
  "t_nodes (rows_at k k' d) = t_nodes d" "t_epoch_blobs (rows_at k k' d) = t_epoch_blobs d"
  "t_epoch_buffer (rows_at k k' d) = t_epoch_buffer d"
  "t_pending_deletions (rows_at k k' d) = t_pending_deletions d"
  "t_backup_failures (rows_at k k' d) = t_backup_failures d"
  "t_pending_backup (rows_at k k' d) = t_pending_backup d"
  "t_sharing_config (rows_at k k' d) = t_sharing_config d"
  "map fst (t_meta (rows_at k k' d)) = map fst (t_meta d)"
  "t_chunks (rows_at k k' d) = map (chunk_columns k k') (t_chunks d)"
  "t_shares (rows_at k k' d) = map (share_columns k k') (t_shares d)"
  "t_destinations (rows_at k k' d) = map (destination_columns k k') (t_destinations d)"
  by (auto simp: rows_at_def)

lemma rows_at_meta [simp]:
  "key \<noteq> ''schema_version'' \<Longrightarrow> map_of (t_meta (rows_at k k' d)) key = map_of (t_meta d) key"
  by (auto simp: rows_at_def map_of_update_where)

lemma rows_at_version:
  assumes "k < k'" "map_of (t_meta d) ''schema_version'' = Some v"
  shows "map_of (t_meta (rows_at k k' d)) ''schema_version'' = Some (version_text k')"
  using assms by (auto simp: rows_at_def map_of_update_where)

definition at_version :: "nat \<Rightarrow> schema_state \<Rightarrow> bool" where
  "at_version k s \<longleftrightarrow> ss_tables s = catalogue_at k \<and> schema_version s = Inr (version_text k)"

lemmas dml_defs = copy_chunks_def fill_shares_def fill_destinations_def set_version_def

lemmas migration_defs = apply_epoch_v2_migration_def apply_sharing_v3_migration_def
  apply_sharing_v4_migration_def apply_backup_v5_migration_def apply_pending_backup_v6_migration_def
  apply_device_id_v7_migration_def apply_gdrive_sharing_v8_migration_def
  apply_shares_cascade_v9_migration_def apply_file_shares_v10_migration_def

lemmas statement_defs = v2_statements_def v3_statements_def v4_statements_def v5_statements_def
  v6_statements_def v7_statements_def v8_statements_def v9_statements_def v10_statements_def

lemma dml_tables [simp]: "ss_tables (dml st s) = ss_tables s"
  by (cases st) simp_all

lemma dml_update_tables: "dml st (s\<lparr>ss_tables := c\<rparr>) = (dml st s)\<lparr>ss_tables := c\<rparr>"
  by (cases st) simp_all

text \<open>A script acts on the catalogue and on the rows independently.\<close>

lemma batch_eq:
  "batch sts s = rbind (rfold ddl sts (ss_tables s)) (\<lambda>c. Inr ((fold dml sts s)\<lparr>ss_tables := c\<rparr>))"
proof (induction sts arbitrary: s)
  case (Cons st sts)
  have "fold dml sts (s\<lparr>ss_tables := c\<rparr>) = (fold dml sts s)\<lparr>ss_tables := c\<rparr>" for s c
    by (induction sts arbitrary: s) (simp_all add: dml_update_tables)
  with Cons show ?case
    by (cases "ddl st (ss_tables s)") (auto simp: batch_def execute_def)
qed (simp add: batch_def)

lemma script_2: "rfold ddl v2_statements (catalogue_at 1) = Inr (catalogue_at 2)"
  and script_3: "rfold ddl v3_statements (catalogue_at 2) = Inr (catalogue_at 3)"
  and script_4: "rfold ddl v4_statements (catalogue_at 3) = Inr (catalogue_at 4)"
  and script_5: "rfold ddl v5_statements (catalogue_at 4) = Inr (catalogue_at 5)"
  and script_6: "rfold ddl v6_statements (catalogue_at 5) = Inr (catalogue_at 6)"
  and script_7: "rfold ddl v7_statements (catalogue_at 6) = Inr (catalogue_at 7)"
  and script_8: "rfold ddl v8_statements (catalogue_at 7) = Inr (catalogue_at 8)"
  and script_9: "rfold ddl v9_statements (catalogue_at 8) = Inr (catalogue_at 9)"
  and script_10: "rfold ddl v10_statements (catalogue_at 9) = Inr (catalogue_at 10)"
  by code_simp+


text \<open>A migration takes a vault of the version before it to its own version and keeps the rows.\<close>

definition upgrades :: "(schema_state \<Rightarrow> storage_error + schema_state) \<Rightarrow> nat \<Rightarrow> nat \<Rightarrow> bool" where
  "upgrades f k k' \<longleftrightarrow> (\<forall>s. at_version k s \<longrightarrow>
     (\<exists>s'. f s = Inr s' \<and> at_version k' s' \<and> ss_db s' = rows_at k k' (ss_db s) \<and>
        (k' = 9 \<longrightarrow> ss_null_pending s' = []) \<and> (ss_null_pending s = [] \<longrightarrow> ss_null_pending s' = [])))"

lemma migrate_upgrades:
  assumes "version_text k \<notin> set later" "rfold ddl sts (catalogue_at k) = Inr (catalogue_at k')"
    and "\<And>s. ss_db (fold dml sts s) = rows_at k k' (ss_db s)"
    and "k < k'"
    and "k' = 9 \<Longrightarrow> \<forall>s. ss_null_pending (fold dml sts s) = []"
    and "\<And>s. ss_null_pending s = [] \<Longrightarrow> ss_null_pending (fold dml sts s) = []"
  shows "upgrades (migrate later sts) k k'"
  unfolding upgrades_def
proof (intro allI impI)
  fix s assume at: "at_version k s"
  let ?s' = "(fold dml sts s)\<lparr>ss_tables := catalogue_at k'\<rparr>"
  have "migrate later sts s = Inr ?s'"
    using at assms(1,2) by (simp add: migrate_def at_version_def batch_eq)
  moreover have "at_version k' ?s'"
    using at assms(3) [of s] rows_at_version [OF assms(4)]
    by (auto simp: at_version_def schema_version_def result_simps)
  ultimately show "\<exists>s'. migrate later sts s = Inr s' \<and> at_version k' s' \<and> ss_db s' = rows_at k k' (ss_db s) \<and>
      (k' = 9 \<longrightarrow> ss_null_pending s' = []) \<and> (ss_null_pending s = [] \<longrightarrow> ss_null_pending s' = [])"
    using assms(3,5,6) by (intro exI [of _ ?s']) auto
qed

lemma column_steps:
  "chunk_columns (Suc 0) 2 = (\<lambda>c. c\<lparr>cr_epoch_blob_id := None, cr_byte_offset := None, cr_byte_length := None\<rparr>)"
  "share_columns 2 3 = (\<lambda>r. r\<lparr>sr_download_key_id := None, sr_receipt_requested := 0, sr_receipt_received_at := None\<rparr>)"
  "share_columns 3 4 = (\<lambda>r. r\<lparr>sr_import_receipt_received_at := None\<rparr>)"
  "share_columns 7 8 = (\<lambda>r. r\<lparr>sr_download_folder_id := None\<rparr>)"
  "destination_columns 6 7 = (\<lambda>r. r\<lparr>ds_device_id := None\<rparr>)"
  by (auto simp: chunk_columns_def share_columns_def destination_columns_def added_def fun_eq_iff)

lemma version_texts:
  "version_text 1 = ''1''" "version_text 2 = ''2''" "version_text 3 = ''3''" "version_text 4 = ''4''"
  "version_text 5 = ''5''" "version_text 6 = ''6''" "version_text 7 = ''7''" "version_text 8 = ''8''"
  "version_text 9 = ''9''" "version_text 10 = ''10''"
  by (simp_all add: version_text_def SCHEMA_VERSIONS_def)

lemmas row_simps = column_steps version_texts [simplified] comp_def rows_at_def added_def dml_defs map_of_update_where

lemma v2_upgrades: "upgrades apply_epoch_v2_migration 1 2"
  unfolding migration_defs by (rule migrate_upgrades [OF _ script_2]) (auto simp: row_simps v2_statements_def cong: if_cong)

lemma v3_upgrades: "upgrades apply_sharing_v3_migration 2 3"
  unfolding migration_defs by (rule migrate_upgrades [OF _ script_3]) (auto simp: row_simps v3_statements_def cong: if_cong)

lemma v4_upgrades: "upgrades apply_sharing_v4_migration 3 4"
  unfolding migration_defs by (rule migrate_upgrades [OF _ script_4]) (auto simp: row_simps v4_statements_def cong: if_cong)

lemma v5_upgrades: "upgrades apply_backup_v5_migration 4 5"
  unfolding migration_defs by (rule migrate_upgrades [OF _ script_5]) (auto simp: row_simps v5_statements_def cong: if_cong)

lemma v6_upgrades: "upgrades apply_pending_backup_v6_migration 5 6"
  unfolding migration_defs by (rule migrate_upgrades [OF _ script_6]) (auto simp: row_simps v6_statements_def cong: if_cong)

lemma v7_upgrades: "upgrades apply_device_id_v7_migration 6 7"
  unfolding migration_defs by (rule migrate_upgrades [OF _ script_7]) (auto simp: row_simps v7_statements_def cong: if_cong)

lemma v8_upgrades: "upgrades apply_gdrive_sharing_v8_migration 7 8"
  unfolding migration_defs by (rule migrate_upgrades [OF _ script_8]) (auto simp: row_simps v8_statements_def cong: if_cong)

lemma v9_upgrades: "upgrades apply_shares_cascade_v9_migration 8 9"
  unfolding migration_defs by (rule migrate_upgrades [OF _ script_9]) (auto simp: row_simps v9_statements_def cong: if_cong)

lemma v10_upgrades: "upgrades apply_file_shares_v10_migration 9 10"
  unfolding migration_defs by (rule migrate_upgrades [OF _ script_10]) (auto simp: row_simps v10_statements_def cong: if_cong)

lemma migration_upgrades:
  assumes "i < length migrations"
  shows "upgrades (migrations ! i) (i + 1) (i + 2)"
proof -
  let ?ks = "[(1, 2), (2, 3), (3, 4), (4, 5), (5, 6), (6, 7), (7, 8), (8, 9), (9, 10)] :: (nat \<times> nat) list"
  have "list_all2 (\<lambda>f (k, k'). upgrades f k k') migrations ?ks"
    using v2_upgrades v3_upgrades v4_upgrades v5_upgrades v6_upgrades v7_upgrades v8_upgrades
      v9_upgrades v10_upgrades by (simp add: migrations_def)
  moreover have "?ks ! i = (i + 1, i + 2)" if "i < 9"
    using that by (auto simp: less_Suc_eq numeral_nat)
  ultimately show ?thesis
    using assms by (fastforce simp: list_all2_conv_all_nth)
qed

text \<open>A migration whose version has been reached already does nothing.\<close>

lemma migration_skips:
  assumes "i < length migrations" "i + 2 \<le> k" "k \<le> 10" "schema_version s = Inr (version_text k)"
  shows "(migrations ! i) s = Inr s"
proof -
  have len: "length migrations = 9" by (simp add: migrations_def)
  have "k \<in> {2..10}" using assms(2,3) by simp
  then show ?thesis
    using assms len
    by (auto simp: migrations_def migration_defs migrate_def version_text_def SCHEMA_VERSIONS_def
        less_Suc_eq numeral_nat nth_Cons' split: if_splits)
qed


lemma migrations_from:
  assumes "i \<le> 9" "at_version k s" "i + 1 \<le> k" "k \<le> 10"
  shows "\<exists>s'. rfold (\<lambda>m. m) (drop i migrations) s = Inr s' \<and> at_version 10 s' \<and>
           ss_db s' = rows_at k 10 (ss_db s) \<and> (k < 9 \<or> ss_null_pending s = [] \<longrightarrow> ss_null_pending s' = [])"
  using assms
proof (induction "9 - i" arbitrary: i k s)
  case 0
  then have "k = 10" by simp
  with 0 show ?case by (auto simp: migrations_def)
next
  case (Suc n)
  have len: "length migrations = 9" by (simp add: migrations_def)
  with Suc.hyps(2) have i: "i < length migrations" by simp
  have n: "n = 9 - (i + 1)" using Suc.hyps(2) by simp
  have drop: "drop i migrations = migrations ! i # drop (i + 1) migrations"
    using i by (simp add: Cons_nth_drop_Suc)
  show ?case
  proof (cases "k = i + 1")
    case True
    obtain s1 where s1: "(migrations ! i) s = Inr s1" "at_version (i + 2) s1" "ss_db s1 = rows_at k (i + 2) (ss_db s)"
      "i + 2 = 9 \<longrightarrow> ss_null_pending s1 = []" "ss_null_pending s = [] \<longrightarrow> ss_null_pending s1 = []"
      using migration_upgrades [OF i] Suc.prems(2) True unfolding upgrades_def by blast
    obtain s' where "rfold (\<lambda>m. m) (drop (i + 1) migrations) s1 = Inr s'" "at_version 10 s'"
      "ss_db s' = rows_at (i + 2) 10 (ss_db s1)" "i + 2 < 9 \<or> ss_null_pending s1 = [] \<longrightarrow> ss_null_pending s' = []"
      using Suc.hyps(1) [OF n, of "i + 2" s1] s1(2) i len by auto
    with s1 True show ?thesis
      unfolding drop using i len by (auto simp: rows_at_trans)
  next
    case False
    have "(migrations ! i) s = Inr s"
      by (rule migration_skips [OF i, where k = k])
        (use Suc.prems False in \<open>auto simp: at_version_def\<close>)
    moreover have "\<exists>s'. rfold (\<lambda>m. m) (drop (i + 1) migrations) s = Inr s' \<and> at_version 10 s' \<and>
        ss_db s' = rows_at k 10 (ss_db s) \<and> (k < 9 \<or> ss_null_pending s = [] \<longrightarrow> ss_null_pending s' = [])"
      using Suc.hyps(1) [OF n, of k s] i len Suc.prems False by auto
    ultimately show ?thesis unfolding drop by auto
  qed
qed

lemma apply_migrations_at_10:
  assumes "schema_version s = Inr ''10''"
  shows "apply_migrations s = Inr s"
proof -
  have "schema_version s = Inr (version_text 10)"
    using assms by (simp add: version_text_def SCHEMA_VERSIONS_def)
  then have "\<forall>i < length migrations. (migrations ! i) s = Inr s"
    using migration_skips [where k = 10 and s = s] by (simp add: migrations_def)
  then have "\<forall>f \<in> set migrations. f s = Inr s"
    by (simp only: all_set_conv_all_nth)
  moreover have "rfold (\<lambda>m. m) fs s = Inr s" if "\<forall>f \<in> set fs. f s = Inr s"
    for fs :: "(schema_state \<Rightarrow> storage_error + schema_state) list"
    using that by (induction fs) auto
  ultimately show ?thesis by (simp add: apply_migrations_def)
qed

text \<open>
  (C6) Opening a vault of any schema version from 1 to 10 migrates it: the chain of migrations
  succeeds on the catalogue of that version, ends with the catalogue and the version number of
  schema 10, and changes the rows in nothing else than this: a column that version \<open>k\<close> does not have
  holds NULL or its default, and \<open>schema_version\<close> is 10, so that every value of a column the vault had
  is kept; the NULL entries of the deletion queue are removed when it passes version 9; and running
  it again changes nothing.
\<close>

theorem migrations_reach_v10:
  assumes "1 \<le> k" "k \<le> 10" "at_version k s"
  shows "\<exists>s'. apply_migrations s = Inr s' \<and> at_version 10 s' \<and> ss_db s' = rows_at k 10 (ss_db s) \<and>
           (k < 9 \<longrightarrow> ss_null_pending s' = []) \<and> apply_migrations s' = Inr s'"
proof -
  obtain s' where s': "apply_migrations s = Inr s'" "at_version 10 s'" "ss_db s' = rows_at k 10 (ss_db s)"
    "k < 9 \<longrightarrow> ss_null_pending s' = []"
    using migrations_from [of 0 k s] assms by (auto simp: apply_migrations_def)
  moreover have "apply_migrations s' = Inr s'"
    using apply_migrations_at_10 s'(2) by (simp add: at_version_def version_text_def SCHEMA_VERSIONS_def)
  ultimately show ?thesis by blast
qed

definition v8_share :: share_row where
  "v8_share = \<lparr>sr_share_id = ''s'', sr_file_id = ''f'', sr_contact_id = ''c'', sr_file_share_id = ''x'',
     sr_cloud_path = ''x'', sr_created_at = 5, sr_expires_at = None, sr_revoked_at = None,
     sr_download_key_id = Some ''k'', sr_receipt_requested = 1, sr_receipt_received_at = Some 7,
     sr_import_receipt_received_at = Some 8, sr_download_folder_id = Some ''d''\<rparr>"

theorem migrations_reach_v10_witness:
  "\<exists>s'. apply_migrations \<lparr>ss_tables = catalogue_at 8,
            ss_db = empty_db\<lparr>t_meta := [(''schema_version'', ''8'')], t_shares := [v8_share]\<rparr>,
            ss_null_pending = [3]\<rparr> = Inr s' \<and>
     at_version 10 s' \<and> t_shares (ss_db s') = [v8_share] \<and> ss_null_pending s' = []"
proof -
  let ?s = "\<lparr>ss_tables = catalogue_at 8, ss_db = empty_db\<lparr>t_meta := [(''schema_version'', ''8'')], t_shares := [v8_share]\<rparr>,
             ss_null_pending = [3]\<rparr>"
  have "at_version 8 ?s" by (simp add: at_version_def schema_version_def version_text_def SCHEMA_VERSIONS_def)
  with migrations_reach_v10 [of 8 ?s] show ?thesis by (auto simp: share_columns_def added_def)
qed


section \<open>Creation of a vault\<close>

lemma validate_manifest_meta_eq_Inr:
  "validate_manifest_meta E d = Inr u \<longleftrightarrow>
     (\<exists>ver vid ctr cs ep. map_of (t_meta d) ''schema_version'' = Some ver \<and> ver \<in> set SCHEMA_VERSIONS \<and>
        map_of (t_meta d) ''vault_id'' = Some vid \<and> uuid_parse E vid \<noteq> None \<and>
        map_of (t_meta d) ''snapshot_counter'' = Some ctr \<and> parse_u64 ctr \<noteq> None \<and>
        map_of (t_meta d) ''chunk_size_bytes'' = Some cs \<and> is_ok (parse_chunk_size_bytes cs) \<and>
        map_of (t_meta d) ''epoch_buffer_enabled'' = Some ep \<and> (ep = ''true'' \<or> ep = ''false''))"
  unfolding validate_manifest_meta_def manifest_meta_value_def rbind_eq_Inr ok_or_eq_Inr ensure_eq_Inr
  by (auto simp: is_ok_iff)

definition empty_file :: schema_state where
  "empty_file = \<lparr>ss_tables = [], ss_db = empty_db, ss_null_pending = []\<rparr>"

lemma canonical_script: "rfold ddl (map (\<lambda>(t, c). CreateTable t c) CANONICAL_SCHEMA) [] = Inr (catalogue_at 1)"
  by code_simp

lemma apply_canonical_schema_empty:
  "apply_canonical_schema empty_file = Inr (empty_file\<lparr>ss_tables := catalogue_at 1\<rparr>)"
proof -
  have "fold dml (map (\<lambda>(t, c). CreateTable t c) cs) s = s" for cs s
    by (induction cs) auto
  then show ?thesis
    unfolding apply_canonical_schema_def batch_eq
    using canonical_script by (simp add: empty_file_def)
qed

lemma seeded_meta:
  "map_of (t_meta (seed_manifest_meta E v cs ep empty_db)) =
     [''schema_version'' \<mapsto> ''1'', ''snapshot_counter'' \<mapsto> ''0'', ''vault_id'' \<mapsto> uuid_hyphenated E v,
      ''chunk_size_bytes'' \<mapsto> show_nat cs, ''epoch_buffer_enabled'' \<mapsto> if ep then ''true'' else ''false'']"
  by (auto simp: seed_manifest_meta_def empty_db_def insert_or_ignore_def)

lemma seeded_tables:
  "t_nodes (seed_manifest_meta E v cs ep d) = t_nodes d" "t_chunks (seed_manifest_meta E v cs ep d) = t_chunks d"
  "t_shares (seed_manifest_meta E v cs ep d) = t_shares d" "t_destinations (seed_manifest_meta E v cs ep d) = t_destinations d"
  "t_epoch_blobs (seed_manifest_meta E v cs ep d) = t_epoch_blobs d" "t_epoch_buffer (seed_manifest_meta E v cs ep d) = t_epoch_buffer d"
  "t_pending_deletions (seed_manifest_meta E v cs ep d) = t_pending_deletions d"
  "t_backup_failures (seed_manifest_meta E v cs ep d) = t_backup_failures d"
  "t_pending_backup (seed_manifest_meta E v cs ep d) = t_pending_backup d"
  "t_sharing_config (seed_manifest_meta E v cs ep d) = t_sharing_config d"
  "distinct (map fst (t_meta d)) \<Longrightarrow> distinct (map fst (t_meta (seed_manifest_meta E v cs ep d)))"
  by (simp_all add: seed_manifest_meta_def distinct_insert_or_ignore)

lemma create_store_migrates:
  "\<exists>s. apply_migrations (empty_file\<lparr>ss_tables := catalogue_at 1,
          ss_db := seed_manifest_meta E v cs ep empty_db\<rparr>) = Inr s \<and> at_version 10 s \<and>
       ss_db s = rows_at 1 10 (seed_manifest_meta E v cs ep empty_db) \<and> ss_null_pending s = []"
proof -
  let ?s = "empty_file\<lparr>ss_tables := catalogue_at 1, ss_db := seed_manifest_meta E v cs ep empty_db\<rparr>"
  have "at_version 1 ?s"
    by (simp add: at_version_def schema_version_def seeded_meta version_text_def SCHEMA_VERSIONS_def)
  from migrations_from [of 0, OF _ this] show ?thesis by (simp add: apply_migrations_def)
qed

lemma validate_seeded:
  assumes "uuid_laws E" "d = rows_at 1 10 (seed_manifest_meta E v cs ep empty_db)"
    and "map_of (t_meta d) ''schema_version'' = Some ''10''"
  shows "validate_manifest_meta E d = rbind (parse_chunk_size_bytes (show_nat cs)) (\<lambda>_. Inr ())"
    and "validate_create_immutable_meta_matches E v cs ep d = Inr ()"
proof -
  have m: "map_of (t_meta d) k = map_of (t_meta (seed_manifest_meta E v cs ep empty_db)) k"
    if "k \<noteq> ''schema_version''" for k
    using assms(2) that by simp
  have p: "parse_u64 ''0'' = Some 0" by (simp add: parse_u64_def digit_val_def)
  show "validate_manifest_meta E d = rbind (parse_chunk_size_bytes (show_nat cs)) (\<lambda>_. Inr ())"
    using p by (auto simp: validate_manifest_meta_def manifest_meta_value_def m seeded_meta assms(3)
        SCHEMA_VERSIONS_def uuid_lawsD(1) [OF assms(1)])
  show "validate_create_immutable_meta_matches E v cs ep d = Inr ()"
    by (simp add: validate_create_immutable_meta_matches_def m seeded_meta
        validate_immutable_meta_matches_expected_def)
qed

lemma create_store_empty:
  assumes "uuid_laws E" "131072 \<le> cs" "cs \<le> 67108864"
  shows "\<exists>s. create_store E ''ok'' None v cs ep empty_file = Inr s \<and> at_version 10 s \<and>
           ss_db s = rows_at 1 10 (seed_manifest_meta E v cs ep empty_db) \<and> ss_null_pending s = [] \<and>
           validate_manifest_meta E (ss_db s) = Inr ()"
proof -
  obtain s where s: "apply_migrations (empty_file\<lparr>ss_tables := catalogue_at 1,
      ss_db := seed_manifest_meta E v cs ep empty_db\<rparr>) = Inr s"
    and at: "at_version 10 s" and rows: "ss_db s = rows_at 1 10 (seed_manifest_meta E v cs ep empty_db)"
    and np: "ss_null_pending s = []"
    using create_store_migrates by blast
  have "map_of (t_meta (ss_db s)) ''schema_version'' = Some ''10''"
    using at by (simp add: at_version_def schema_version_def version_text_def SCHEMA_VERSIONS_def result_simps)
  note v = validate_seeded [OF assms(1) rows this]
  have db: "ss_db (empty_file\<lparr>ss_tables := c\<rparr>) = empty_db" for c by (simp add: empty_file_def)
  have vm: "validate_manifest_meta E (ss_db s) = Inr ()"
    using v(1) parse_chunk_size_show_nat [OF assms(2,3)] by simp
  have "create_store E ''ok'' None v cs ep empty_file = Inr s"
    using s v(2) vm by (simp add: create_store_def apply_canonical_schema_empty db Let_def
        validate_schema_integrity_def)
  with at rows np vm show ?thesis by blast
qed

end
