(* ===== verification/Manifest_Inv.thy ===== *)
theory Manifest_Inv
  imports Sqlcipher_Sync Schema
begin

text \<open>
  The invariant of the manifest database and its preservation by every mutation of the store.  Per
  table: keys are unique, every row reads back (its identifiers are canonical UUID text, its integers
  fit the Rust types), references resolve, the parent of a node is a directory and the node tree is
  acyclic, a file has a wrapped key and a directory has none, at most one destination is primary,
  and \<open>manifest_meta\<close> passes the validation of \<open>open\<close>.
\<close>

section \<open>The invariant\<close>

definition canonical :: "env \<Rightarrow> string \<Rightarrow> bool" where
  "canonical E s = (case uuid_parse E s of None \<Rightarrow> False | Some u \<Rightarrow> uuid_hyphenated E u = s)"

definition node_row_ok :: "env \<Rightarrow> node_row \<Rightarrow> bool" where
  "node_row_ok E r \<longleftrightarrow>
     canonical E (nr_node_id r) \<and> pred_option (canonical E) (nr_parent_id r) \<and>
     0 \<le> nr_size_bytes r \<and>
     (nr_node_type r = ''file'' \<and> (case nr_file_key_wrapped r of None \<Rightarrow> False | Some k \<Rightarrow> length k = 72) \<or>
      nr_node_type r = ''directory'' \<and> nr_file_key_wrapped r = None)"

definition parents_ok :: "node_row list \<Rightarrow> bool" where
  "parents_ok rows \<longleftrightarrow>
     (\<forall>r \<in> set rows. case nr_parent_id r of None \<Rightarrow> True
        | Some p \<Rightarrow> \<exists>q \<in> set rows. nr_node_id q = p \<and> nr_node_type q = ''directory'')"

definition nodes_inv :: "env \<Rightarrow> node_row list \<Rightarrow> bool" where
  "nodes_inv E rows \<longleftrightarrow>
     distinct (map nr_node_id rows) \<and> (\<forall>r \<in> set rows. node_row_ok E r) \<and>
     parents_ok rows \<and> acyclic (parent_rel rows)"

definition chunk_row_ok :: "env \<Rightarrow> chunk_row \<Rightarrow> bool" where
  "chunk_row_ok E c \<longleftrightarrow>
     canonical E (cr_chunk_id c) \<and> canonical E (cr_node_id c) \<and>
     0 \<le> cr_chunk_index c \<and> cr_chunk_index c < 2 ^ 32 \<and> 0 \<le> cr_size_padded c \<and>
     length (cr_blake3_checksum c) = 32 \<and> pred_option (canonical E) (cr_epoch_blob_id c) \<and>
     pred_option (\<lambda>x. 0 \<le> x) (cr_byte_offset c) \<and> pred_option (\<lambda>x. 0 \<le> x) (cr_byte_length c) \<and>
     chunk_check c"

definition chunks_inv :: "env \<Rightarrow> string set \<Rightarrow> string set \<Rightarrow> chunk_row list \<Rightarrow> bool" where
  "chunks_inv E nids eids rows \<longleftrightarrow>
     distinct (map cr_chunk_id rows) \<and> distinct (map (\<lambda>c. (cr_node_id c, cr_chunk_index c)) rows) \<and>
     distinct (List.map_filter cr_blob_name rows) \<and>
     (\<forall>c \<in> set rows. chunk_row_ok E c \<and> cr_node_id c \<in> nids \<and> pred_option (\<lambda>e. e \<in> eids) (cr_epoch_blob_id c))"

definition epoch_row_ok :: "env \<Rightarrow> epoch_blob_row \<Rightarrow> bool" where
  "epoch_row_ok E e \<longleftrightarrow>
     canonical E (er_epoch_blob_id e) \<and> 0 \<le> er_size_padded e \<and> length (er_blake3_checksum e) = 32"

definition epochs_inv :: "env \<Rightarrow> epoch_blob_row list \<Rightarrow> bool" where
  "epochs_inv E rows \<longleftrightarrow>
     distinct (map er_epoch_blob_id rows) \<and> distinct (map er_blob_name rows) \<and>
     (\<forall>e \<in> set rows. epoch_row_ok E e)"

definition buffer_row_ok :: "env \<Rightarrow> buffer_row \<Rightarrow> bool" where
  "buffer_row_ok E b \<longleftrightarrow>
     canonical E (br_entry_id b) \<and> canonical E (br_node_id b) \<and>
     br_size_bytes b = int (length (br_plaintext b))"

definition buffer_inv :: "env \<Rightarrow> string set \<Rightarrow> buffer_row list \<Rightarrow> bool" where
  "buffer_inv E nids rows \<longleftrightarrow>
     distinct (map br_entry_id rows) \<and> (\<forall>b \<in> set rows. buffer_row_ok E b \<and> br_node_id b \<in> nids)"

definition shares_inv :: "string set \<Rightarrow> share_row list \<Rightarrow> bool" where
  "shares_inv nids rows \<longleftrightarrow> (\<forall>s \<in> set rows. sr_file_id s \<in> nids)"

definition meta_inv :: "env \<Rightarrow> db \<Rightarrow> bool" where
  "meta_inv E d \<longleftrightarrow> distinct (map fst (t_meta d)) \<and> validate_manifest_meta E d = Inr ()"

definition dest_inv :: "destination_row list \<Rightarrow> bool" where
  "dest_inv rows \<longleftrightarrow>
     distinct (map ds_destination_id rows) \<and> length (filter ds_is_primary rows) \<le> 1 \<and>
     (\<forall>r \<in> set rows. destination_check r)"

definition queues_inv :: "db \<Rightarrow> bool" where
  "queues_inv d \<longleftrightarrow>
     distinct (map fst (t_pending_deletions d)) \<and> distinct (t_pending_backup d) \<and>
     distinct (map (\<lambda>r. (bf_blob_name r, bf_destination_id r)) (t_backup_failures d)) \<and>
     distinct (map sg_config_id (t_sharing_config d))"

definition db_inv :: "env \<Rightarrow> db \<Rightarrow> bool" where
  "db_inv E d \<longleftrightarrow>
     nodes_inv E (t_nodes d) \<and>
     chunks_inv E (set (node_ids d)) (er_epoch_blob_id ` set (t_epoch_blobs d)) (t_chunks d) \<and>
     epochs_inv E (t_epoch_blobs d) \<and>
     buffer_inv E (set (node_ids d)) (t_epoch_buffer d) \<and>
     shares_inv (set (node_ids d)) (t_shares d) \<and>
     meta_inv E d \<and> dest_inv (t_destinations d) \<and> queues_inv d"

lemmas inv_defs = nodes_inv_def chunks_inv_def epochs_inv_def buffer_inv_def meta_inv_def
  dest_inv_def queues_inv_def


section \<open>Identifiers\<close>

lemma canonical_hyphenated [simp]: "uuid_laws E \<Longrightarrow> canonical E (uuid_hyphenated E u)"
  by (simp add: canonical_def uuid_lawsD)

lemma canonicalE:
  assumes "canonical E s" obtains u where "uuid_parse E s = Some u" "s = uuid_hyphenated E u"
  using assms by (auto simp: canonical_def split: option.splits)

lemma i64_or_err_eq_Inr [result_simps]: "i64_or_err n = Inr i \<longleftrightarrow> i = int n \<and> n < 2 ^ 63"
  by (auto simp: i64_or_err_def width_simps split: if_splits)

lemma i64_or_err_small [simp]: "n < 2 ^ 63 \<Longrightarrow> i64_or_err n = Inr (int n)"
  by (simp add: i64_or_err_def width_simps)


section \<open>Statements and the invariant\<close>

lemma sql_insert_node_eq_Inr:
  "sql_insert_node r d = Inr d' \<longleftrightarrow>
     nr_node_id r \<notin> set (node_ids d) \<and>
     (nr_node_type r = ''file'' \<and> nr_file_key_wrapped r \<noteq> None \<or>
      nr_node_type r = ''directory'' \<and> nr_file_key_wrapped r = None) \<and>
     (\<forall>p. nr_parent_id r = Some p \<longrightarrow> p \<in> set (node_ids d) \<or> p = nr_node_id r) \<and>
     d' = d\<lparr>t_nodes := t_nodes d @ [r]\<rparr>"
  by (auto simp: sql_insert_node_def split: option.splits)

lemma sql_insert_chunk_eq_Inr:
  "sql_insert_chunk r d = Inr d' \<longleftrightarrow>
     cr_chunk_id r \<notin> cr_chunk_id ` set (t_chunks d) \<and>
     (cr_node_id r, cr_chunk_index r) \<notin> (\<lambda>c. (cr_node_id c, cr_chunk_index c)) ` set (t_chunks d) \<and>
     (\<forall>b. cr_blob_name r = Some b \<longrightarrow> b \<notin> set (List.map_filter cr_blob_name (t_chunks d))) \<and>
     chunk_check r \<and> cr_node_id r \<in> set (node_ids d) \<and>
     pred_option (\<lambda>e. e \<in> er_epoch_blob_id ` set (t_epoch_blobs d)) (cr_epoch_blob_id r) \<and>
     d' = d\<lparr>t_chunks := t_chunks d @ [r]\<rparr>"
proof -
  have b: "(cr_blob_name r \<noteq> None \<and> cr_blob_name r \<in> set (map cr_blob_name (t_chunks d))) \<longleftrightarrow>
        \<not> (\<forall>b. cr_blob_name r = Some b \<longrightarrow> b \<notin> set (List.map_filter cr_blob_name (t_chunks d)))"
    by (force simp: set_map_filter_iff)
  have e: "(cr_epoch_blob_id r \<noteq> None \<and> cr_epoch_blob_id r \<notin> Some ` set (map er_epoch_blob_id (t_epoch_blobs d)))
        \<longleftrightarrow> \<not> pred_option (\<lambda>e. e \<in> er_epoch_blob_id ` set (t_epoch_blobs d)) (cr_epoch_blob_id r)"
    by (cases "cr_epoch_blob_id r") auto
  show ?thesis
    unfolding sql_insert_chunk_def b e by (auto simp: constraint_failed_def)
qed

lemma chunks_inv_append:
  assumes "chunks_inv E nids eids rows" "chunk_row_ok E r"
    and "cr_chunk_id r \<notin> cr_chunk_id ` set rows"
    and "(cr_node_id r, cr_chunk_index r) \<notin> (\<lambda>c. (cr_node_id c, cr_chunk_index c)) ` set rows"
    and "\<forall>b. cr_blob_name r = Some b \<longrightarrow> b \<notin> set (List.map_filter cr_blob_name rows)"
    and "cr_node_id r \<in> nids" "pred_option (\<lambda>e. e \<in> eids) (cr_epoch_blob_id r)"
  shows "chunks_inv E nids eids (rows @ [r])"
  using assms by (cases "cr_blob_name r") (auto simp: chunks_inv_def map_filter_simps)

lemma sql_insert_chunk_inv:
  assumes "sql_insert_chunk r d = Inr d'" "db_inv E d" "chunk_row_ok E r"
  shows "db_inv E d'"
proof -
  note i = assms(1) [unfolded sql_insert_chunk_eq_Inr]
  have "chunks_inv E (set (node_ids d)) (er_epoch_blob_id ` set (t_epoch_blobs d)) (t_chunks d @ [r])"
    by (rule chunks_inv_append) (use i assms(2,3) in \<open>auto simp: db_inv_def\<close>)
  with assms(2) i show ?thesis
    by (simp add: db_inv_def node_ids_def meta_inv_def validate_manifest_meta_def
        manifest_meta_value_def queues_inv_def)
qed

text \<open>A new node whose parent is an existing directory keeps the tree acyclic.\<close>

lemma parent_rel_append: "parent_rel (rows @ [r]) = parent_rel rows \<union> {(nr_node_id r, p) | p. nr_parent_id r = Some p}"
  by (auto simp: parent_rel_def)

lemma parent_rel_closed:
  "parents_ok rows \<Longrightarrow> (x, p) \<in> parent_rel rows \<Longrightarrow> p \<in> nr_node_id ` set rows"
  by (force simp: parents_ok_def in_parent_rel)

lemma parent_rel_trancl_closed:
  assumes "parents_ok rows" "(x, p) \<in> (parent_rel rows)\<^sup>+"
  shows "p \<in> nr_node_id ` set rows \<and> x \<in> nr_node_id ` set rows"
proof
  show "p \<in> nr_node_id ` set rows"
    using assms(2) by (cases rule: trancl.cases) (auto dest: parent_rel_closed [OF assms(1)])
  show "x \<in> nr_node_id ` set rows"
    using tranclD [OF assms(2)] unfolding in_parent_rel by (metis image_eqI)
qed

lemma nodes_inv_append:
  assumes "nodes_inv E rows" "node_row_ok E r" "nr_node_id r \<notin> nr_node_id ` set rows"
    and dir: "\<forall>p. nr_parent_id r = Some p \<longrightarrow> (\<exists>q \<in> set rows. nr_node_id q = p \<and> nr_node_type q = ''directory'')"
  shows "nodes_inv E (rows @ [r])"
proof -
  have po: "parents_ok rows" and ac: "acyclic (parent_rel rows)"
    using assms(1) by (auto simp: nodes_inv_def)
  have "acyclic (parent_rel (rows @ [r]))"
  proof (cases "nr_parent_id r")
    case None
    then show ?thesis using ac by (simp add: parent_rel_append)
  next
    case (Some p)
    then have "nr_node_id r \<noteq> p" using dir assms(3) by (metis image_eqI)
    moreover have "(p, nr_node_id r) \<notin> (parent_rel rows)\<^sup>+"
      using parent_rel_trancl_closed [OF po] assms(3) by blast
    ultimately show ?thesis
      using ac Some by (simp add: parent_rel_append acyclic_insert rtrancl_eq_or_trancl)
  qed
  moreover have "parents_ok (rows @ [r])"
    using po dir by (fastforce simp: parents_ok_def split: option.splits)
  ultimately show ?thesis using assms by (simp add: nodes_inv_def)
qed

lemma chunks_inv_mono:
  "chunks_inv E nids eids rows \<Longrightarrow> nids \<subseteq> nids' \<Longrightarrow> eids \<subseteq> eids' \<Longrightarrow> chunks_inv E nids' eids' rows"
  by (auto simp: chunks_inv_def pred_option_def)

lemma chunks_inv_insert_epoch:
  "chunks_inv E nids eids rows \<Longrightarrow> chunks_inv E nids (insert e eids) rows"
  by (erule chunks_inv_mono) auto

lemma buffer_inv_mono: "buffer_inv E nids rows \<Longrightarrow> nids \<subseteq> nids' \<Longrightarrow> buffer_inv E nids' rows"
  by (auto simp: buffer_inv_def)

lemma shares_inv_mono: "shares_inv nids rows \<Longrightarrow> nids \<subseteq> nids' \<Longrightarrow> shares_inv nids' rows"
  by (auto simp: shares_inv_def)

lemma meta_inv_cong: "t_meta d = t_meta d' \<Longrightarrow> meta_inv E d = meta_inv E d'"
  by (simp add: meta_inv_def validate_manifest_meta_def manifest_meta_value_def)

lemma node_type_of_dir:
  assumes "node_type_of i d = Some ''directory''"
  shows "\<exists>q \<in> set (t_nodes d). nr_node_id q = i \<and> nr_node_type q = ''directory''"
  using assms by (auto simp: node_type_of_def sql_find_node_def find_Some_iff)

lemma validate_parent_type_eq_Inr [result_simps]: "validate_parent_type t = Inr u \<longleftrightarrow> t = Some ''directory''"
  by (auto simp: validate_parent_type_def split: option.splits)


section \<open>Insertions\<close>

lemma insert_node_tx_eq_Inr:
  "insert_node_tx E n d = Inr d' \<longleftrightarrow>
     (\<forall>p. nd_parent_id n = Some p \<longrightarrow> p \<noteq> nd_node_id n \<and>
        node_type_of (uuid_hyphenated E p) d = Some ''directory'') \<and>
     nd_size_bytes n < 2 ^ 63 \<and>
     sql_insert_node (node_row_of E n (int (nd_size_bytes n))) d = Inr d'"
  by (auto simp: insert_node_tx_def ensure_parent_is_directory_for_insert_def result_simps
      split: option.splits if_splits)

lemma insert_node_tx_rows:
  assumes "insert_node_tx E n d = Inr d'"
  shows "d' = d\<lparr>t_nodes := t_nodes d @ [node_row_of E n (int (nd_size_bytes n))]\<rparr>"
    and "uuid_hyphenated E (nd_node_id n) \<notin> set (node_ids d)"
    and "nd_node_type n = File \<longleftrightarrow> nd_file_key_wrapped n \<noteq> None"
    and "nd_size_bytes n < 2 ^ 63"
proof -
  note i = assms [unfolded insert_node_tx_eq_Inr sql_insert_node_eq_Inr]
  show "d' = d\<lparr>t_nodes := t_nodes d @ [node_row_of E n (int (nd_size_bytes n))]\<rparr>"
    "uuid_hyphenated E (nd_node_id n) \<notin> set (node_ids d)" "nd_size_bytes n < 2 ^ 63"
    using i by (auto simp: node_row_of_def)
  show "nd_node_type n = File \<longleftrightarrow> nd_file_key_wrapped n \<noteq> None"
    using i by (cases "nd_node_type n") (auto simp: node_row_of_def)
qed

lemma insert_node_tx_inv:
  assumes "uuid_laws E" "insert_node_tx E n d = Inr d'" "typed_node n" "db_inv E d"
  shows "db_inv E d'"
proof -
  let ?r = "node_row_of E n (int (nd_size_bytes n))"
  note rows = insert_node_tx_rows [OF assms(2)]
  have ok: "node_row_ok E ?r"
    using rows(3) assms(1,3)
    by (cases "nd_node_type n") (auto simp: node_row_ok_def node_row_of_def typed_node_def
        pred_option_def option.set_map split: option.splits)
  have dir: "\<forall>p. nr_parent_id ?r = Some p \<longrightarrow>
      (\<exists>q \<in> set (t_nodes d). nr_node_id q = p \<and> nr_node_type q = ''directory'')"
    using assms(2) by (auto simp: insert_node_tx_eq_Inr node_row_of_def dest: node_type_of_dir)
  have "nodes_inv E (t_nodes d @ [?r])"
    by (rule nodes_inv_append [OF _ ok _ dir])
      (use assms(4) rows(2) in \<open>auto simp: db_inv_def node_ids_def node_row_of_def\<close>)
  with assms(4) show ?thesis
    unfolding rows(1) db_inv_def
    by (auto simp: node_ids_def queues_inv_def meta_inv_cong [of "_\<lparr>t_nodes := _\<rparr>" d]
        elim: chunks_inv_mono buffer_inv_mono shares_inv_mono)
qed

lemma insert_chunk_row_eq_Inr:
  "insert_chunk_row E cs t c d = Inr d' \<longleftrightarrow>
     validate_blob_name_uuid_v4 E (ck_blob_name c) = Inr () \<and> ck_size_padded c = cs \<and> t = Some File \<and>
     ck_size_padded c < 2 ^ 63 \<and> sql_insert_chunk (standalone_row E c (int (ck_size_padded c))) d = Inr d'"
  unfolding insert_chunk_row_def rbind_eq_Inr i64_or_err_eq_Inr validate_size_padded_eq_Inr
    validate_chunk_target_eq_Inr by auto

lemma standalone_row_ok:
  "uuid_laws E \<Longrightarrow> typed_chunk c \<Longrightarrow> chunk_row_ok E (standalone_row E c (int (ck_size_padded c)))"
  by (simp add: chunk_row_ok_def standalone_row_def typed_chunk_def chunk_check_def)

lemma insert_chunk_row_inv:
  assumes "uuid_laws E" "insert_chunk_row E cs t c d = Inr d'" "typed_chunk c" "db_inv E d"
  shows "db_inv E d'"
  using assms standalone_row_ok sql_insert_chunk_inv by (auto simp: insert_chunk_row_eq_Inr)

lemma insert_chunks_inv:
  assumes "uuid_laws E" "insert_chunks E cs d = Inr d'" "\<forall>c \<in> set cs. typed_chunk c" "db_inv E d"
  shows "db_inv E d'"
proof -
  obtain n ts where f: "rfold (\<lambda>c. insert_chunk_row E n (Option.bind (map_of ts (ck_node_id c)) id) c) cs d = Inr d'"
    using assms(2) by (auto simp: insert_chunks_def result_simps)
  show ?thesis
    by (rule rfold_invariant [where P = "db_inv E", OF f assms(4)])
      (use assms(1,3) insert_chunk_row_inv in blast)
qed

lemma insert_file_with_chunks_eq_Inr:
  "insert_file_with_chunks E n cs d = Inr d' \<longleftrightarrow>
     (\<exists>d1 s. insert_node_tx E n d = Inr d1 \<and> read_chunk_size d1 = Inr s \<and>
        (\<forall>c \<in> set cs. ck_node_id c = nd_node_id n) \<and>
        rfold (insert_chunk_row E s (Some (nd_node_type n))) cs d1 = Inr d')"
proof -
  have loop: "rfold (\<lambda>c d. if ck_node_id c \<noteq> nd_node_id n
        then Inl (ConstraintViolation ''chunk node_id does not match inserted file node'')
        else insert_chunk_row E s (Some (nd_node_type n)) c d) cs d1 = Inr d' \<longleftrightarrow>
      (\<forall>c \<in> set cs. ck_node_id c = nd_node_id n) \<and>
      rfold (insert_chunk_row E s (Some (nd_node_type n))) cs d1 = Inr d'" for s d1
    by (induction cs arbitrary: d1) (auto simp: result_simps)
  show ?thesis by (auto simp: insert_file_with_chunks_def rbind_eq_Inr loop)
qed

lemma insert_file_with_chunks_inv:
  assumes "uuid_laws E" "insert_file_with_chunks E n cs d = Inr d'" "typed_node n"
    and "\<forall>c \<in> set cs. typed_chunk c" "db_inv E d"
  shows "db_inv E d'"
proof -
  obtain d1 s where n: "insert_node_tx E n d = Inr d1"
    and f: "rfold (insert_chunk_row E s (Some (nd_node_type n))) cs d1 = Inr d'"
    using assms(2) by (auto simp: insert_file_with_chunks_eq_Inr)
  show ?thesis
    by (rule rfold_invariant [where P = "db_inv E", OF f insert_node_tx_inv [OF assms(1) n assms(3,5)]])
      (use assms(1,4) insert_chunk_row_inv in blast)
qed

lemma sql_insert_buffer_inv:
  assumes "sql_insert_buffer r d = Inr d'" "buffer_row_ok E r" "db_inv E d"
  shows "db_inv E d'"
  using assms
  by (auto simp: sql_insert_buffer_def db_inv_def buffer_inv_def node_ids_def queues_inv_def
      meta_inv_cong [of "_\<lparr>t_epoch_buffer := _\<rparr>" d] split: if_splits)

lemma stage_epoch_entry_inv:
  assumes "uuid_laws E" "stage_epoch_entry E t i p d = Inr d'" "db_inv E d"
  shows "db_inv E d'"
  using assms(2) by (auto simp: stage_epoch_entry_def result_simps buffer_row_ok_def assms(1)
      intro!: sql_insert_buffer_inv [OF _ _ assms(3)])

lemma sql_insert_epoch_blob_inv:
  assumes "sql_insert_epoch_blob r d = Inr d'" "epoch_row_ok E r" "db_inv E d"
  shows "db_inv E d'"
  using assms
  by (auto simp: sql_insert_epoch_blob_def db_inv_def epochs_inv_def node_ids_def queues_inv_def
      meta_inv_cong [of "_\<lparr>t_epoch_blobs := _\<rparr>" d] chunks_inv_insert_epoch split: if_splits)

lemma insert_extent_inv:
  assumes "uuid_laws E" "insert_extent E t rec sz x d = Inr d'" "0 \<le> sz" "typed_epoch_blob rec"
    and "case x of (k, n, i, off, len) \<Rightarrow> i < 2 ^ 32" "db_inv E d"
  shows "db_inv E d'"
  using assms(2-5) unfolding insert_extent_def
  by (auto simp: result_simps chunk_row_ok_def chunk_check_def typed_epoch_blob_def assms(1)
      split: prod.splits intro!: sql_insert_chunk_inv [OF _ assms(6)])

lemma insert_epoch_blob_with_extents_inv:
  assumes "uuid_laws E" "insert_epoch_blob_with_extents E t rec xs d = Inr d'"
    and "typed_epoch_blob rec" "typed_extents xs" "db_inv E d"
  shows "db_inv E d'"
proof -
  obtain d1 where e: "sql_insert_epoch_blob (epoch_row E rec (int (eb_size_padded rec))) d = Inr d1"
    and f: "rfold (insert_extent E t rec (int (eb_size_padded rec))) (enumerate 0 xs) d1 = Inr d'"
    using assms(2) by (auto simp: insert_epoch_blob_with_extents_def result_simps)
  have "epoch_row_ok E (epoch_row E rec (int (eb_size_padded rec)))"
    using assms(1,3) by (simp add: epoch_row_ok_def epoch_row_def typed_epoch_blob_def)
  then have d1: "db_inv E d1" by (rule sql_insert_epoch_blob_inv [OF e _ assms(5)])
  have idx: "case x of (k, n, i, off, len) \<Rightarrow> i < 2 ^ 32" if "x \<in> set (enumerate 0 xs)" for x
    using that assms(4) by (fastforce simp: typed_extents_def in_set_enumerate_eq dest: nth_mem)
  show ?thesis
    by (rule rfold_invariant [where P = "db_inv E", OF f d1])
      (use insert_extent_inv [OF assms(1) _ _ assms(3)] idx in fastforce)
qed

lemma commit_epoch_flush_inv:
  assumes "uuid_laws E" "commit_epoch_flush E t rec xs d = Inr d'"
    and "typed_epoch_blob rec" "typed_extents xs" "db_inv E d"
  shows "db_inv E d'"
proof -
  obtain d1 where i: "insert_epoch_blob_with_extents E t rec xs d = Inr d1"
    and d': "d' = d1\<lparr>t_epoch_buffer := []\<rparr>"
    using assms(2) by (auto simp: commit_epoch_flush_def result_simps)
  show ?thesis
    using insert_epoch_blob_with_extents_inv [OF assms(1) i assms(3-5)]
    by (simp add: d' db_inv_def node_ids_def buffer_inv_def queues_inv_def
        meta_inv_cong [of "_\<lparr>t_epoch_buffer := _\<rparr>" d1])
qed


section \<open>Updates of the node tree\<close>

lemma creates_cycle_iff: "creates_cycle i p d \<longleftrightarrow> (p, i) \<in> (parent_rel (t_nodes d))\<^sup>+"
  by (auto simp: creates_cycle_def set_subtree set_child_ids trancl_unfold_right)

lemma db_inv_nodes:
  assumes "db_inv E d" "nodes_inv E rows" "map nr_node_id rows = node_ids d"
  shows "db_inv E (d\<lparr>t_nodes := rows\<rparr>)"
  using assms by (simp add: db_inv_def node_ids_def queues_inv_def meta_inv_cong [of "_\<lparr>t_nodes := _\<rparr>" d]
      flip: set_map)

lemma parent_rel_map:
  assumes "\<And>r. nr_node_id (f r) = nr_node_id r" "\<And>r. nr_parent_id (f r) = nr_parent_id r"
  shows "parent_rel (map f rows) = parent_rel rows"
proof (intro set_eqI)
  show "x \<in> parent_rel (map f rows) \<longleftrightarrow> x \<in> parent_rel rows" for x
    by (cases x) (simp add: in_parent_rel assms)
qed

lemma parents_okD:
  "parents_ok rows \<Longrightarrow> r \<in> set rows \<Longrightarrow> nr_parent_id r = Some p \<Longrightarrow>
     \<exists>q \<in> set rows. nr_node_id q = p \<and> nr_node_type q = ''directory''"
  unfolding parents_ok_def by fastforce

lemma parents_ok_map:
  assumes "\<And>r. nr_node_id (f r) = nr_node_id r" "\<And>r. nr_node_type (f r) = nr_node_type r"
    and dir: "\<And>r p. r \<in> set rows \<Longrightarrow> nr_parent_id (f r) = Some p \<Longrightarrow>
      \<exists>q \<in> set rows. nr_node_id q = p \<and> nr_node_type q = ''directory''"
  shows "parents_ok (map f rows)"
proof -
  have "\<exists>q \<in> set (map f rows). nr_node_id q = p \<and> nr_node_type q = ''directory''"
    if "r \<in> set rows" "nr_parent_id (f r) = Some p" for r p
    using dir [OF that] assms(1,2) by (metis image_eqI image_set)
  then show ?thesis by (simp add: parents_ok_def split: option.split)
qed

lemma rename_node_inv:
  assumes "rename_node E i m t d = Inr d'" "db_inv E d"
  shows "db_inv E d'"
proof -
  let ?f = "\<lambda>r. if nr_node_id r = uuid_hyphenated E i then r\<lparr>nr_name := m, nr_modified_at := t\<rparr> else r"
  have "parent_rel (map ?f (t_nodes d)) = parent_rel (t_nodes d)"
    by (rule parent_rel_map) auto
  moreover have "parents_ok (map ?f (t_nodes d))"
    by (rule parents_ok_map)
      (use assms(2) in \<open>auto simp: db_inv_def nodes_inv_def split: if_splits intro: parents_okD\<close>)
  moreover have ids: "map nr_node_id (map ?f (t_nodes d)) = node_ids d"
    by (simp add: node_ids_def)
  moreover have "\<forall>r \<in> set (map ?f (t_nodes d)). node_row_ok E r"
    using assms(2) by (auto simp: db_inv_def nodes_inv_def node_row_ok_def)
  moreover have "distinct (map nr_node_id (map ?f (t_nodes d)))"
    unfolding ids using assms(2) by (simp add: db_inv_def nodes_inv_def node_ids_def)
  moreover have "acyclic (parent_rel (t_nodes d))" using assms(2) by (simp add: db_inv_def nodes_inv_def)
  ultimately have "nodes_inv E (map ?f (t_nodes d))" unfolding nodes_inv_def by presburger
  from db_inv_nodes [OF assms(2) this ids] show ?thesis
    using assms(1) by (auto simp: rename_node_def split: if_splits)
qed

text \<open>The check of \<open>move_node\<close> is what keeps the tree acyclic.\<close>

lemma move_keeps_acyclic:
  assumes "acyclic (parent_rel rows)" "(p, i) \<notin> (parent_rel rows)\<^sup>*"
  shows "acyclic (parent_rel (map (\<lambda>r. if nr_node_id r = i then r\<lparr>nr_parent_id := Some p, nr_modified_at := t\<rparr> else r) rows))"
    (is "acyclic (parent_rel ?rows)")
proof -
  have "parent_rel ?rows \<subseteq> insert (i, p) (parent_rel rows)"
    by (auto simp: parent_rel_def split: if_splits)
  moreover have "acyclic (insert (i, p) (parent_rel rows))"
    using assms by (simp add: acyclic_insert)
  ultimately show ?thesis by (rule acyclic_subset [rotated])
qed

lemma move_node_inv:
  assumes "uuid_laws E" "move_node E i q t d = Inr d'" "db_inv E d"
  shows "db_inv E d'"
proof -
  let ?i = "uuid_hyphenated E i" and ?q = "map_option (uuid_hyphenated E) q"
  let ?f = "\<lambda>r. if nr_node_id r = ?i then r\<lparr>nr_parent_id := ?q, nr_modified_at := t\<rparr> else r"
  have check: "ensure_move_respects_hierarchy E i q d = Inr ()"
    and d': "d' = d\<lparr>t_nodes := map ?f (t_nodes d)\<rparr>"
    using assms(2) by (auto simp: move_node_def result_simps)
  have n: "nodes_inv E (t_nodes d)" using assms(3) by (simp add: db_inv_def)
  have dir: "\<exists>x \<in> set (t_nodes d). nr_node_id x = uuid_hyphenated E p \<and> nr_node_type x = ''directory''"
    and no_cycle: "(uuid_hyphenated E p, ?i) \<notin> (parent_rel (t_nodes d))\<^sup>*" if "q = Some p" for p
    using check that node_type_of_dir [of "uuid_hyphenated E p" d]
    by (auto simp: ensure_move_respects_hierarchy_def result_simps creates_cycle_iff
        rtrancl_eq_or_trancl uuid_hyphenated_inj [OF assms(1)] split: if_splits option.splits)
  have "acyclic (parent_rel (map ?f (t_nodes d)))"
  proof (cases q)
    case None
    have "parent_rel (map ?f (t_nodes d)) \<subseteq> parent_rel (t_nodes d)"
      using None by (auto simp: parent_rel_def split: if_splits)
    then show ?thesis using n by (auto simp: nodes_inv_def intro: acyclic_subset)
  next
    case (Some p)
    show ?thesis unfolding Some option.map
      using move_keeps_acyclic [OF _ no_cycle [OF Some]] n unfolding nodes_inv_def by blast
  qed
  moreover have "parents_ok (map ?f (t_nodes d))"
    by (rule parents_ok_map)
      (use n dir in \<open>auto simp: nodes_inv_def split: if_splits intro: parents_okD\<close>)
  moreover have "\<forall>r \<in> set (map ?f (t_nodes d)). node_row_ok E r"
    using n assms(1) by (cases q) (auto simp: nodes_inv_def node_row_ok_def)
  moreover have ids: "map nr_node_id (map ?f (t_nodes d)) = node_ids d" by (simp add: node_ids_def)
  moreover have "distinct (map nr_node_id (map ?f (t_nodes d)))"
    unfolding ids using n by (simp add: nodes_inv_def node_ids_def)
  ultimately have "nodes_inv E (map ?f (t_nodes d))" unfolding nodes_inv_def by blast
  from db_inv_nodes [OF assms(3) this ids] show ?thesis by (simp add: d')
qed


section \<open>Deletion of a subtree\<close>

abbreviation descendants :: "db \<Rightarrow> string \<Rightarrow> string set" where
  "descendants d i \<equiv> {x. (x, i) \<in> (parent_rel (t_nodes d))\<^sup>*}"

lemma set_subtree_single: "set (subtree (t_nodes d) [i]) = descendants d i"
  by (simp add: set_subtree)

text \<open>The two tables \<open>delete_node\<close> rewrites beside the queue, and the rows it keeps.\<close>

lemma delete_node_eq_Inr:
  "delete_node E t u d = Inr d' \<longleftrightarrow>
     (\<exists>q. unix_timestamp_now E t = Inr q \<and> uuid_hyphenated E u \<in> set (node_ids d) \<and>
       d' = d\<lparr>t_pending_deletions := fold (\<lambda>b. insert_or_ignore b q)
                  (deleted_blob_names (uuid_hyphenated E u) d) (t_pending_deletions d),
              t_nodes := filter (\<lambda>r. nr_node_id r \<notin> descendants d (uuid_hyphenated E u)) (t_nodes d),
              t_chunks := filter (\<lambda>c. cr_node_id c \<notin> descendants d (uuid_hyphenated E u)) (t_chunks d),
              t_epoch_buffer := filter (\<lambda>b. br_node_id b \<notin> descendants d (uuid_hyphenated E u)) (t_epoch_buffer d),
              t_shares := filter (\<lambda>s. sr_file_id s \<notin> descendants d (uuid_hyphenated E u)) (t_shares d),
              t_epoch_blobs := filter (\<lambda>e. \<exists>c \<in> set (t_chunks d).
                  cr_epoch_blob_id c = Some (er_epoch_blob_id e) \<and>
                  cr_node_id c \<notin> descendants d (uuid_hyphenated E u)) (t_epoch_blobs d)\<rparr>)"
proof -
  have ids: "node_ids (d\<lparr>t_pending_deletions := x\<rparr>) = node_ids d" for x by (simp add: node_ids_def)
  have ep: "filter (\<lambda>e. Some (er_epoch_blob_id e) \<in> set (map cr_epoch_blob_id (filter P cs))) es =
      filter (\<lambda>e. \<exists>c \<in> set cs. cr_epoch_blob_id c = Some (er_epoch_blob_id e) \<and> P c) es" for P cs es
    by (rule filter_cong) (auto simp: image_iff eq_commute)
  have "delete_node E t u d = rbind (unix_timestamp_now E t) (\<lambda>q.
      if uuid_hyphenated E u \<notin> set (node_ids d) then Inl NotFound
      else Inr (d\<lparr>t_pending_deletions := fold (\<lambda>b. insert_or_ignore b q)
                  (deleted_blob_names (uuid_hyphenated E u) d) (t_pending_deletions d),
              t_nodes := filter (\<lambda>r. nr_node_id r \<notin> descendants d (uuid_hyphenated E u)) (t_nodes d),
              t_chunks := filter (\<lambda>c. cr_node_id c \<notin> descendants d (uuid_hyphenated E u)) (t_chunks d),
              t_epoch_buffer := filter (\<lambda>b. br_node_id b \<notin> descendants d (uuid_hyphenated E u)) (t_epoch_buffer d),
              t_shares := filter (\<lambda>s. sr_file_id s \<notin> descendants d (uuid_hyphenated E u)) (t_shares d),
              t_epoch_blobs := filter (\<lambda>e. \<exists>c \<in> set (t_chunks d).
                  cr_epoch_blob_id c = Some (er_epoch_blob_id e) \<and>
                  cr_node_id c \<notin> descendants d (uuid_hyphenated E u)) (t_epoch_blobs d)\<rparr>))"
    by (simp add: delete_node_def Let_def sql_delete_node_cascade_def set_subtree_single ids ep
        del: set_map set_filter cong del: if_weak_cong)
  then show ?thesis by (auto simp: result_simps split: if_splits)
qed

lemma distinct_fold_insert_or_ignore:
  "distinct (map fst t) \<Longrightarrow> distinct (map fst (fold (\<lambda>b. insert_or_ignore b q) bs t))"
  by (induction bs arbitrary: t) (simp_all add: distinct_insert_or_ignore)

lemma set_fold_insert_or_ignore:
  "fst ` set (fold (\<lambda>b. insert_or_ignore b q) bs t) = fst ` set t \<union> set bs"
  by (induction bs arbitrary: t) (auto simp: insert_or_ignore_def)

lemma nodes_inv_delete:
  assumes "nodes_inv E (t_nodes d)"
  shows "nodes_inv E (filter (\<lambda>r. nr_node_id r \<notin> descendants d i) (t_nodes d))" (is "nodes_inv E ?kept")
proof -
  have "parents_ok ?kept"
    unfolding parents_ok_def
  proof
    fix r assume r: "r \<in> set ?kept"
    show "case nr_parent_id r of None \<Rightarrow> True
        | Some p \<Rightarrow> \<exists>q \<in> set ?kept. nr_node_id q = p \<and> nr_node_type q = ''directory''"
    proof (cases "nr_parent_id r")
      case (Some p)
      then have e: "(nr_node_id r, p) \<in> parent_rel (t_nodes d)" using r by (auto simp: in_parent_rel)
      have "p \<notin> descendants d i" using r e by (auto intro: converse_rtrancl_into_rtrancl)
      moreover obtain q where "q \<in> set (t_nodes d)" "nr_node_id q = p" "nr_node_type q = ''directory''"
        using assms r Some parents_okD [of "t_nodes d" r p] by (auto simp: nodes_inv_def)
      ultimately show ?thesis using Some by auto
    qed simp
  qed
  moreover have "acyclic (parent_rel ?kept)"
    by (rule acyclic_subset [where r = "parent_rel ?kept" and s = "parent_rel (t_nodes d)"])
      (use assms in \<open>auto simp: nodes_inv_def parent_rel_def\<close>)
  ultimately show ?thesis
    using assms by (simp add: nodes_inv_def distinct_map_filter)
qed

lemma delete_node_inv:
  assumes "delete_node E t u d = Inr d'" "db_inv E d"
  shows "db_inv E d'"
proof -
  let ?i = "uuid_hyphenated E u"
  let ?g = "descendants d ?i"
  let ?nids = "nr_node_id ` {r \<in> set (t_nodes d). nr_node_id r \<notin> ?g}"
  let ?cs = "filter (\<lambda>c. cr_node_id c \<notin> ?g) (t_chunks d)"
  let ?es = "filter (\<lambda>e. \<exists>c \<in> set (t_chunks d). cr_epoch_blob_id c = Some (er_epoch_blob_id e) \<and>
                cr_node_id c \<notin> ?g) (t_epoch_blobs d)"
  have c: "chunks_inv E (set (node_ids d)) (er_epoch_blob_id ` set (t_epoch_blobs d)) (t_chunks d)"
    using assms(2) by (simp add: db_inv_def)
  have "\<forall>x \<in> set ?cs. pred_option (\<lambda>e. e \<in> er_epoch_blob_id ` set ?es) (cr_epoch_blob_id x)"
    using c by (fastforce simp: chunks_inv_def pred_option_def)
  then have "chunks_inv E ?nids (er_epoch_blob_id ` set ?es) ?cs"
    using c by (auto simp: chunks_inv_def distinct_map_filter distinct_mf_filter node_ids_def)
  moreover have "nodes_inv E (filter (\<lambda>r. nr_node_id r \<notin> ?g) (t_nodes d))"
    using nodes_inv_delete assms(2) by (simp add: db_inv_def)
  moreover have "epochs_inv E ?es"
    using assms(2) by (auto simp: db_inv_def epochs_inv_def distinct_map_filter)
  moreover have "buffer_inv E ?nids (filter (\<lambda>b. br_node_id b \<notin> ?g) (t_epoch_buffer d))"
    "shares_inv ?nids (filter (\<lambda>s. sr_file_id s \<notin> ?g) (t_shares d))"
    using assms(2) by (auto simp: db_inv_def buffer_inv_def shares_inv_def distinct_map_filter node_ids_def)
  moreover obtain q where "d' = d\<lparr>
      t_pending_deletions := fold (\<lambda>b. insert_or_ignore b q) (deleted_blob_names ?i d) (t_pending_deletions d),
      t_nodes := filter (\<lambda>r. nr_node_id r \<notin> ?g) (t_nodes d), t_chunks := ?cs,
      t_epoch_buffer := filter (\<lambda>b. br_node_id b \<notin> ?g) (t_epoch_buffer d),
      t_shares := filter (\<lambda>s. sr_file_id s \<notin> ?g) (t_shares d), t_epoch_blobs := ?es\<rparr>"
    using assms(1) unfolding delete_node_eq_Inr by blast
  moreover have "meta_inv E d' = meta_inv E d"
    by (rule meta_inv_cong) (use calculation(6) in simp)
  ultimately show ?thesis
    using assms(2) unfolding db_inv_def node_ids_def
    by (simp add: queues_inv_def distinct_fold_insert_or_ignore)
qed


section \<open>Metadata, queues, destinations\<close>

lemma validate_manifest_meta_cong:
  assumes "\<And>x. x \<in> set IMMUTABLE_MANIFEST_META_KEYS \<Longrightarrow> map_of (t_meta d') x = map_of (t_meta d) x"
  shows "validate_manifest_meta E d' = validate_manifest_meta E d"
proof -
  have "manifest_meta_value x d' = manifest_meta_value x d" if "x \<in> set IMMUTABLE_MANIFEST_META_KEYS" for x
    using assms [OF that] by (simp add: manifest_meta_value_def)
  then show ?thesis by (simp add: validate_manifest_meta_def IMMUTABLE_MANIFEST_META_KEYS_def)
qed

lemma set_meta_inv:
  assumes "set_meta k v d = Inr d'" "db_inv E d"
  shows "db_inv E d'"
proof -
  have k: "\<not> is_immutable_manifest_meta_key k" and d': "d' = d\<lparr>t_meta := AList.update k v (t_meta d)\<rparr>"
    using assms(1) by (auto simp: set_meta_def split: if_splits)
  have "map_of (t_meta d') x = map_of (t_meta d) x" if "x \<in> set IMMUTABLE_MANIFEST_META_KEYS" for x
    using that k by (auto simp: d' is_immutable_manifest_meta_key_def)
  then have "validate_manifest_meta E d' = validate_manifest_meta E d"
    by (rule validate_manifest_meta_cong)
  then have "meta_inv E d'"
    using assms(2) by (simp add: db_inv_def meta_inv_def d' distinct_update)
  then show ?thesis
    using assms(2) by (simp add: d' db_inv_def node_ids_def queues_inv_def)
qed

lemma clear_last_synced_at_inv:
  assumes "clear_last_synced_at d = Inr d'" "db_inv E d"
  shows "db_inv E d'"
  using assms by (auto simp: clear_last_synced_at_def db_inv_def node_ids_def queues_inv_def meta_inv_def
      validate_manifest_meta_eq_Inr distinct_delete)

lemma map_of_sql_update_meta:
  "map_of (t_meta (sql_update_meta k v d)) x =
     (if x = k then map_option (\<lambda>_. v) (map_of (t_meta d) x) else map_of (t_meta d) x)"
  by (simp add: sql_update_meta_def map_of_update_where)

lemma validate_after_counter_update:
  assumes "validate_manifest_meta E d = Inr ()" "n < 2 ^ 64"
  shows "validate_manifest_meta E (sql_update_meta ''snapshot_counter'' (show_nat n) d) = Inr ()"
  using assms(1) parse_u64_show_nat [OF assms(2)]
  by (auto simp: validate_manifest_meta_eq_Inr map_of_sql_update_meta)

lemma update_snapshot_counter_inv:
  assumes "db_inv E d" "n < 2 ^ 64"
  shows "db_inv E (sql_update_meta ''snapshot_counter'' (show_nat n) d)"
proof -
  let ?d = "sql_update_meta ''snapshot_counter'' (show_nat n) d"
  have "map fst (t_meta ?d) = map fst (t_meta d)"
    unfolding sql_update_meta_def by (simp del: map_map add: map_fst_update_where)
  moreover have "validate_manifest_meta E ?d = Inr ()"
    by (rule validate_after_counter_update) (use assms in \<open>simp_all add: db_inv_def meta_inv_def\<close>)
  ultimately have "meta_inv E ?d" using assms(1) by (simp add: meta_inv_def db_inv_def)
  then show ?thesis
    using assms(1) by (simp add: sql_update_meta_def db_inv_def node_ids_def queues_inv_def)
qed

lemma parse_u64_bound: "parse_u64 s = Some n \<Longrightarrow> n < 2 ^ 64"
  by (auto simp: parse_u64_def Let_def split: if_splits option.splits)

lemma increment_snapshot_counter_inv:
  assumes "increment_snapshot_counter d = Inr (n, d')" "db_inv E d"
  shows "db_inv E d'"
  using assms(1) update_snapshot_counter_inv [OF assms(2), of n]
  by (auto simp: increment_snapshot_counter_def result_simps checked_add_u64_def split: if_splits)

lemma rollback_snapshot_counter_inv:
  assumes "rollback_snapshot_counter n d = Inr d'" "db_inv E d"
  shows "db_inv E d'"
  using assms(1) update_snapshot_counter_inv [OF assms(2), of n]
  by (auto simp: rollback_snapshot_counter_def result_simps checked_add_u64_def split: if_splits)

lemma db_inv_queues:
  assumes "db_inv E d" "t_nodes d' = t_nodes d" "t_chunks d' = t_chunks d" "t_epoch_blobs d' = t_epoch_blobs d"
    and "t_epoch_buffer d' = t_epoch_buffer d" "t_shares d' = t_shares d" "t_meta d' = t_meta d"
    and "dest_inv (t_destinations d')" "queues_inv d'"
  shows "db_inv E d'"
  using assms meta_inv_cong [of d' d] by (simp add: db_inv_def node_ids_def)

lemma queue_ops_inv:
  assumes "db_inv E d"
  shows "mark_deletion_complete b d = Inr d' \<Longrightarrow> db_inv E d'"
    and "clear_backup_failure b i d = Inr d' \<Longrightarrow> db_inv E d'"
    and "clear_pending_backup b i d = Inr d' \<Longrightarrow> db_inv E d'"
    and "clear_pending_backups_for_destination i d = Inr d' \<Longrightarrow> db_inv E d'"
    and "upsert_gdrive_sharing_config E t o' j now d = Inr d' \<Longrightarrow> db_inv E d'"
proof -
  have q: "queues_inv d" "dest_inv (t_destinations d)" using assms by (simp_all add: db_inv_def)
  show "db_inv E d'" if "mark_deletion_complete b d = Inr d'"
    by (rule db_inv_queues [OF assms]) (use that q in \<open>auto simp: mark_deletion_complete_def queues_inv_def distinct_map_filter\<close>)
  show "db_inv E d'" if "clear_backup_failure b i d = Inr d'"
    by (rule db_inv_queues [OF assms]) (use that q in \<open>auto simp: clear_backup_failure_def queues_inv_def distinct_map_filter\<close>)
  show "db_inv E d'" if "clear_pending_backup b i d = Inr d'"
    by (rule db_inv_queues [OF assms]) (use that q in \<open>auto simp: clear_pending_backup_def queues_inv_def\<close>)
  show "db_inv E d'" if "clear_pending_backups_for_destination i d = Inr d'"
    by (rule db_inv_queues [OF assms]) (use that q in \<open>auto simp: clear_pending_backups_for_destination_def queues_inv_def\<close>)
  show "db_inv E d'" if "upsert_gdrive_sharing_config E t o' j now d = Inr d'"
    by (rule db_inv_queues [OF assms]) (use that q in
        \<open>auto simp: upsert_gdrive_sharing_config_def Let_def queues_inv_def distinct_map_filter split: if_splits\<close>)
qed

lemma record_backup_failure_inv:
  assumes "record_backup_failure E t b i d = Inr d'" "db_inv E d"
  shows "db_inv E d'"
proof -
  let ?hit = "\<lambda>r. bf_blob_name r = b \<and> bf_destination_id r = i"
  let ?key = "\<lambda>r. (bf_blob_name r, bf_destination_id r)"
  have q: "queues_inv d" "dest_inv (t_destinations d)" using assms by (simp_all add: db_inv_def)
  obtain x where x: "unix_timestamp_now E t = Inr x"
    using assms(1) by (cases "unix_timestamp_now E t") (simp_all add: record_backup_failure_def)
  have d': "d' = d\<lparr>t_backup_failures := if \<exists>r \<in> set (t_backup_failures d). ?hit r
      then map (\<lambda>r. if ?hit r
             then r\<lparr>bf_failed_at := x, bf_retry_count := bf_retry_count r + 1\<rparr> else r) (t_backup_failures d)
      else t_backup_failures d @
             [\<lparr>bf_blob_name = b, bf_destination_id = i, bf_failed_at = x, bf_retry_count = 0\<rparr>]\<rparr>"
    using assms(1) unfolding record_backup_failure_def x Let_def rbind.simps sum.inject by (rule sym)
  have keys: "map ?key (map (\<lambda>r. if ?hit r
        then r\<lparr>bf_failed_at := x, bf_retry_count := bf_retry_count r + 1\<rparr> else r) rows) =
      map ?key rows" for rows
    by (induction rows) auto
  have "distinct (map ?key (t_backup_failures d'))"
  proof (cases "\<exists>r \<in> set (t_backup_failures d). ?hit r")
    case True
    then have "map ?key (t_backup_failures d') = map ?key (t_backup_failures d)"
      unfolding d' using keys [of "t_backup_failures d"] by (simp del: map_map map_eq_conv)
    then show ?thesis using q unfolding queues_inv_def by metis
  next
    case False
    with q show ?thesis unfolding d' by (auto simp: queues_inv_def)
  qed
  with q show ?thesis by (intro db_inv_queues [OF assms(2)]) (auto simp: d' queues_inv_def)
qed

lemma bulk_insert_pending_backup_inv:
  assumes "bulk_insert_pending_backup bs i d = Inr d'" "db_inv E d"
  shows "db_inv E d'"
proof -
  have "distinct t \<Longrightarrow> distinct (fold (\<lambda>b t. if (b, i) \<in> set t then t else t @ [(b, i)]) bs t)" for t
    by (induction bs arbitrary: t) auto
  moreover have "queues_inv d" "dest_inv (t_destinations d)" using assms by (simp_all add: db_inv_def)
  moreover have "d' = d\<lparr>t_pending_backup := fold (\<lambda>b t. if (b, i) \<in> set t then t else t @ [(b, i)]) bs (t_pending_backup d)\<rparr>"
    using assms(1) by (simp add: bulk_insert_pending_backup_def)
  ultimately show ?thesis
    by (intro db_inv_queues [OF assms(2)]) (simp_all add: queues_inv_def)
qed


lemma insert_destination_inv:
  assumes "insert_destination_session E t r d = Inr d'" "db_inv E d"
  shows "db_inv E d'"
proof -
  have q: "queues_inv d" "dest_inv (t_destinations d)" using assms by (simp_all add: db_inv_def)
  obtain x where guard: "\<not> (ds_is_primary r \<and> (\<exists>p. find ds_is_primary (t_destinations d) = Some p \<and>
        ds_destination_id p \<noteq> ds_destination_id r))"
    and i: "sql_insert_destination (destination_session_row.extend r (destination_row.fields x)) d = Inr d'"
    using assms(1) unfolding insert_destination_session_def rbind_eq_Inr Let_def
    by (auto split: if_splits)
  let ?n = "destination_session_row.extend r (destination_row.fields x)"
  have n: "ds_is_primary ?n = ds_is_primary r" "ds_destination_id ?n = ds_destination_id r"
    by (simp_all add: destination_session_row.extend_def)
  have new: "ds_destination_id r \<notin> ds_destination_id ` set (t_destinations d)" "destination_check ?n"
    and d': "d' = d\<lparr>t_destinations := t_destinations d @ [?n]\<rparr>"
    using i by (auto simp: sql_insert_destination_def n split: if_splits)
  have "length (filter ds_is_primary (t_destinations d @ [?n])) \<le> 1"
  proof (cases "ds_is_primary r")
    case True
    have "find ds_is_primary (t_destinations d) = None"
    proof (rule ccontr)
      assume "find ds_is_primary (t_destinations d) \<noteq> None"
      then obtain p where "find ds_is_primary (t_destinations d) = Some p" by blast
      with guard True new(1) show False
        by (metis find_Some_iff image_eqI nth_mem)
    qed
    then show ?thesis using True by (simp add: n find_None_iff filter_empty_conv)
  qed (use q in \<open>simp add: n dest_inv_def\<close>)
  with new q(2) n have "dest_inv (t_destinations d @ [?n])" by (auto simp: dest_inv_def)
  with q show ?thesis by (intro db_inv_queues [OF assms(2)]) (auto simp: d' queues_inv_def)
qed

lemma delete_destination_inv:
  assumes "delete_destination_session i d = Inr d'" "db_inv E d"
  shows "db_inv E d'"
proof -
  have q: "queues_inv d" "dest_inv (t_destinations d)" using assms by (simp_all add: db_inv_def)
  have "length (filter ds_is_primary (filter P rows)) \<le> length (filter ds_is_primary rows)" for P rows
    by (induction rows) auto
  from this [of "\<lambda>r. ds_destination_id r \<noteq> i" "t_destinations d"] q(2)
  have "dest_inv (filter (\<lambda>r. ds_destination_id r \<noteq> i) (t_destinations d))"
    unfolding dest_inv_def by (simp add: distinct_map_filter del: filter_filter)
  with q show ?thesis
    by (intro db_inv_queues [OF assms(2)]) (use assms(1) in \<open>auto simp: delete_destination_session_def queues_inv_def\<close>)
qed

text \<open>The rows of \<open>destination_sessions\<close> after a swap.\<close>

definition swapped :: "string \<Rightarrow> destination_row \<Rightarrow> destination_row" where
  "swapped p r =
     (let r' = (if ds_is_primary r \<and> ds_backup_mode r = None then r\<lparr>ds_backup_mode := Some ''mirror''\<rparr> else r)
      in r'\<lparr>ds_is_primary := (ds_destination_id r = p)\<rparr>)"

lemma swap_primary_eq_Inr:
  "swap_primary_destination p d = Inr d' \<longleftrightarrow>
     p \<in> ds_destination_id ` set (t_destinations d) \<and> d' = d\<lparr>t_destinations := map (swapped p) (t_destinations d)\<rparr>"
proof -
  let ?f = "\<lambda>r. if ds_is_primary r \<and> ds_backup_mode r = None
              then r\<lparr>ds_backup_mode := Some ''mirror''\<rparr> else (r :: destination_row)"
  let ?g = "\<lambda>r. if ds_destination_id r = p then r\<lparr>ds_is_primary := True\<rparr> else (r :: destination_row)"
  have 1: "map ?g (map (\<lambda>r. r\<lparr>ds_is_primary := False\<rparr>) (map ?f rows)) = map (swapped p) rows" for rows
    by (induction rows) (auto simp: swapped_def Let_def)
  have 2: "map ds_destination_id (map (\<lambda>r. r\<lparr>ds_is_primary := False\<rparr>) (map ?f rows)) = map ds_destination_id rows" for rows
    by (induction rows) auto
  show ?thesis
    unfolding swap_primary_destination_def Let_def 1 2 by auto
qed

lemma swapped_simps [simp]:
  "ds_destination_id (swapped p r) = ds_destination_id r" "ds_is_primary (swapped p r) = (ds_destination_id r = p)"
  by (simp_all add: swapped_def Let_def)

lemma primaries_swapped:
  assumes "distinct (map ds_destination_id rows)"
  shows "length (filter ds_is_primary (map (swapped p) rows)) = (if p \<in> ds_destination_id ` set rows then 1 else 0)"
  using assms by (induction rows) (auto simp: filter_map comp_def filter_empty_conv)

lemma swap_primary_inv:
  assumes "swap_primary_destination p d = Inr d'" "db_inv E d"
  shows "db_inv E d'"
proof -
  have q: "queues_inv d" "dest_inv (t_destinations d)" using assms by (simp_all add: db_inv_def)
  have "destination_check r \<Longrightarrow> destination_check (swapped p r)" for r
    by (auto simp: destination_check_def swapped_def Let_def)
  then have "dest_inv (map (swapped p) (t_destinations d))"
    using q(2) primaries_swapped [of "t_destinations d" p] by (auto simp: dest_inv_def comp_def)
  with q show ?thesis
    by (intro db_inv_queues [OF assms(2)]) (use assms(1) in \<open>auto simp: swap_primary_eq_Inr queues_inv_def\<close>)
qed

end
