(* ===== verification/Sqlcipher_Effects.thy ===== *)
theory Sqlcipher_Effects
  imports Manifest_Inv
begin

text \<open>
  The rows each insertion of the store leaves behind, as equations on the tables, and the round trip
  of a record through its row.  The later theories use these instead of the definitions.
\<close>

section \<open>Rows written by the insertions\<close>

abbreviation chunk_row_of :: "env \<Rightarrow> chunk_record \<Rightarrow> chunk_row" where
  "chunk_row_of E c \<equiv> standalone_row E c (int (ck_size_padded c))"

definition extent_row :: "env \<Rightarrow> nat \<Rightarrow> epoch_blob_record \<Rightarrow> nat \<times> extent \<Rightarrow> chunk_row" where
  "extent_row E t rec x =
     (case x of (k, n, i, off, len) \<Rightarrow>
        \<lparr>cr_chunk_id = uuid_hyphenated E (draw_uuid E t k), cr_node_id = uuid_hyphenated E n,
         cr_chunk_index = int i, cr_blob_name = None, cr_size_padded = int (eb_size_padded rec),
         cr_blake3_checksum = eb_blake3_checksum rec,
         cr_epoch_blob_id = Some (uuid_hyphenated E (eb_epoch_blob_id rec)),
         cr_byte_offset = Some (int off), cr_byte_length = Some (int len)\<rparr>)"

lemma insert_chunk_rows_effect:
  "rfold (\<lambda>c. insert_chunk_row E s (T c) c) cs d = Inr d' \<Longrightarrow>
     d' = d\<lparr>t_chunks := t_chunks d @ map (chunk_row_of E) cs\<rparr> \<and>
     (\<forall>c \<in> set cs. ck_size_padded c = s \<and> T c = Some File \<and> s < 2 ^ 63)"
proof (induction cs arbitrary: d)
  case (Cons c cs)
  then obtain d1 where 1: "insert_chunk_row E s (T c) c d = Inr d1"
    and 2: "rfold (\<lambda>c. insert_chunk_row E s (T c) c) cs d1 = Inr d'"
    by (auto simp: result_simps)
  from 1 have "d1 = d\<lparr>t_chunks := t_chunks d @ [chunk_row_of E c]\<rparr>" "ck_size_padded c = s" "T c = Some File" "s < 2 ^ 63"
    by (auto simp: insert_chunk_row_eq_Inr sql_insert_chunk_eq_Inr)
  with Cons.IH [OF 2] show ?case by simp
qed simp

lemma insert_chunks_effect:
  assumes "insert_chunks E cs d = Inr d'"
  shows "d' = d\<lparr>t_chunks := t_chunks d @ map (chunk_row_of E) cs\<rparr>"
proof -
  obtain s ts where "rfold (\<lambda>c. insert_chunk_row E s (Option.bind (map_of ts (ck_node_id c)) id) c) cs d = Inr d'"
    using assms by (auto simp: insert_chunks_def result_simps)
  from insert_chunk_rows_effect [OF this] show ?thesis by blast
qed

lemma insert_file_with_chunks_effect:
  assumes "insert_file_with_chunks E n cs d = Inr d'"
  shows "d' = d\<lparr>t_nodes := t_nodes d @ [node_row_of E n (int (nd_size_bytes n))],
                t_chunks := t_chunks d @ map (chunk_row_of E) cs\<rparr>"
    and "\<forall>c \<in> set cs. ck_node_id c = nd_node_id n"
    and "cs \<noteq> [] \<Longrightarrow> nd_node_type n = File"
proof -
  obtain d1 s where n: "insert_node_tx E n d = Inr d1"
    and f: "rfold (insert_chunk_row E s (Some (nd_node_type n))) cs d1 = Inr d'"
    and ids: "\<forall>c \<in> set cs. ck_node_id c = nd_node_id n"
    using assms by (auto simp: insert_file_with_chunks_eq_Inr)
  note e = insert_chunk_rows_effect [of E s "\<lambda>_. Some (nd_node_type n)", OF f]
  show "d' = d\<lparr>t_nodes := t_nodes d @ [node_row_of E n (int (nd_size_bytes n))],
                t_chunks := t_chunks d @ map (chunk_row_of E) cs\<rparr>"
    using e insert_node_tx_rows(1) [OF n] by simp
  show "\<forall>c \<in> set cs. ck_node_id c = nd_node_id n" by (rule ids)
  show "nd_node_type n = File" if "cs \<noteq> []" using e that by (cases cs) auto
qed

lemma insert_extents_effect:
  "rfold (insert_extent E t rec (int (eb_size_padded rec))) xs d = Inr d' \<Longrightarrow>
     d' = d\<lparr>t_chunks := t_chunks d @ map (extent_row E t rec) xs\<rparr> \<and>
     (\<forall>(k, n, i, off, len) \<in> set xs. off < 2 ^ 63 \<and> len < 2 ^ 63)"
proof (induction xs arbitrary: d)
  case (Cons x xs)
  then obtain d1 where 1: "insert_extent E t rec (int (eb_size_padded rec)) x d = Inr d1"
    and 2: "rfold (insert_extent E t rec (int (eb_size_padded rec))) xs d1 = Inr d'"
    by (auto simp: result_simps)
  from 1 have "d1 = d\<lparr>t_chunks := t_chunks d @ [extent_row E t rec x]\<rparr> \<and>
      (case x of (k, n, i, off, len) \<Rightarrow> off < 2 ^ 63 \<and> len < 2 ^ 63)"
    by (cases x) (auto simp: insert_extent_def extent_row_def rbind_eq_Inr i64_or_err_eq_Inr sql_insert_chunk_eq_Inr)
  with Cons.IH [OF 2] show ?case by simp
qed simp

lemma insert_epoch_blob_effect:
  assumes "insert_epoch_blob_with_extents E t rec xs d = Inr d'"
  shows "d' = d\<lparr>t_epoch_blobs := t_epoch_blobs d @ [epoch_row E rec (int (eb_size_padded rec))],
                t_chunks := t_chunks d @ map (extent_row E t rec) (enumerate 0 xs)\<rparr>"
    and "eb_size_padded rec < 2 ^ 63"
    and "\<forall>(n, i, off, len) \<in> set xs. off < 2 ^ 63 \<and> len < 2 ^ 63"
    and "er_epoch_blob_id (epoch_row E rec (int (eb_size_padded rec))) \<notin> er_epoch_blob_id ` set (t_epoch_blobs d)"
    and "eb_blob_name rec \<notin> er_blob_name ` set (t_epoch_blobs d)"
proof -
  obtain d1 where s: "eb_size_padded rec < 2 ^ 63"
    and e: "sql_insert_epoch_blob (epoch_row E rec (int (eb_size_padded rec))) d = Inr d1"
    and f: "rfold (insert_extent E t rec (int (eb_size_padded rec))) (enumerate 0 xs) d1 = Inr d'"
    using assms unfolding insert_epoch_blob_with_extents_def rbind_eq_Inr i64_or_err_eq_Inr by auto
  have d1: "d1 = d\<lparr>t_epoch_blobs := t_epoch_blobs d @ [epoch_row E rec (int (eb_size_padded rec))]\<rparr>"
    and new: "er_epoch_blob_id (epoch_row E rec (int (eb_size_padded rec))) \<notin> er_epoch_blob_id ` set (t_epoch_blobs d)"
      "eb_blob_name rec \<notin> er_blob_name ` set (t_epoch_blobs d)"
    using e by (auto simp: sql_insert_epoch_blob_def epoch_row_def split: if_splits)
  note i = insert_extents_effect [OF f]
  show "d' = d\<lparr>t_epoch_blobs := t_epoch_blobs d @ [epoch_row E rec (int (eb_size_padded rec))],
                t_chunks := t_chunks d @ map (extent_row E t rec) (enumerate 0 xs)\<rparr>"
    using i d1 by simp
  have "snd ` set (enumerate 0 xs) = set xs" by (metis list.set_map map_snd_enumerate)
  with i show "\<forall>(n, i, off, len) \<in> set xs. off < 2 ^ 63 \<and> len < 2 ^ 63" by fastforce
  show "eb_size_padded rec < 2 ^ 63" by (rule s)
  show "er_epoch_blob_id (epoch_row E rec (int (eb_size_padded rec))) \<notin> er_epoch_blob_id ` set (t_epoch_blobs d)"
    "eb_blob_name rec \<notin> er_blob_name ` set (t_epoch_blobs d)" by (rule new)+
qed

lemma commit_epoch_flush_effect:
  assumes "commit_epoch_flush E t rec xs d = Inr d'"
  shows "d' = d\<lparr>t_epoch_blobs := t_epoch_blobs d @ [epoch_row E rec (int (eb_size_padded rec))],
                t_chunks := t_chunks d @ map (extent_row E t rec) (enumerate 0 xs), t_epoch_buffer := []\<rparr>"
proof -
  obtain d1 where "insert_epoch_blob_with_extents E t rec xs d = Inr d1" "d' = d1\<lparr>t_epoch_buffer := []\<rparr>"
    using assms by (auto simp: commit_epoch_flush_def result_simps)
  with insert_epoch_blob_effect(1) show ?thesis by simp
qed

definition staged_row :: "env \<Rightarrow> nat \<Rightarrow> uuid \<Rightarrow> bytes \<Rightarrow> buffer_row" where
  "staged_row E t i bs =
     \<lparr>br_entry_id = uuid_hyphenated E (draw_uuid E t 0), br_node_id = uuid_hyphenated E i,
      br_plaintext = bs, br_size_bytes = int (length bs), br_queued_at = clock E t\<rparr>"

lemma stage_epoch_entry_effect:
  assumes "stage_epoch_entry E t i bs d = Inr d'"
  shows "d' = d\<lparr>t_epoch_buffer := t_epoch_buffer d @ [staged_row E t i bs]\<rparr>"
  using assms
  by (auto simp: stage_epoch_entry_def staged_row_def sql_insert_buffer_def unix_timestamp_now_def
      result_simps width_simps split: if_splits)


section \<open>Records read back\<close>

lemma read_node_of_row:
  assumes "uuid_laws E" "typed_node n"
  shows "read_node E (node_row_of E n (int (nd_size_bytes n))) = Inr n"
proof -
  obtain i p ty nm c m sz k where n: "n = \<lparr>nd_node_id = i, nd_parent_id = p, nd_node_type = ty, nd_name = nm,
      nd_created_at = c, nd_modified_at = m, nd_size_bytes = sz, nd_file_key_wrapped = k\<rparr>"
    by (cases n) auto
  show ?thesis
    using assms(2)
    by (cases p; cases k) (auto simp: n read_node_def node_row_of_def node_new_def typed_node_def
        uuid_lawsD(1) [OF assms(1)] u64_try_from_i64_def)
qed

lemma read_chunk_of_row:
  assumes "uuid_laws E" "typed_chunk c" "ck_epoch_blob_id c = None" "ck_byte_offset c = None" "ck_byte_length c = None"
  shows "read_chunk E (chunk_row_of E c) = Inr c"
proof -
  obtain i n x b s h e off len where c: "c = \<lparr>ck_chunk_id = i, ck_node_id = n, ck_chunk_index = x,
      ck_blob_name = b, ck_size_padded = s, ck_blake3_checksum = h, ck_epoch_blob_id = e,
      ck_byte_offset = off, ck_byte_length = len\<rparr>"
    by (cases c) auto
  show ?thesis
    using assms(2-5) by (simp add: c read_chunk_def standalone_row_def typed_chunk_def
        uuid_lawsD(1) [OF assms(1)] width_simps)
qed

end
