(* ===== verification/Manifest_Steps.thy ===== *)
theory Manifest_Steps
  imports Sqlcipher_Effects
begin

text \<open>
  The life of a manifest database as a step relation: it is created, and then any sequence of
  successful store operations is applied to it, in any order and with any arguments of the Rust
  types.  Every reachable database satisfies the invariant, its immutable metadata never changes,
  and its snapshot counter moves by one at a time.
\<close>

inductive store_step :: "env \<Rightarrow> db \<Rightarrow> db \<Rightarrow> bool" for E where
  insert_node: "insert_node E n d = Inr d' \<Longrightarrow> typed_node n \<Longrightarrow> store_step E d d'"
| insert_chunks: "insert_chunks E cs d = Inr d' \<Longrightarrow> \<forall>c \<in> set cs. typed_chunk c \<Longrightarrow> store_step E d d'"
| insert_file_with_chunks:
    "insert_file_with_chunks E n cs d = Inr d' \<Longrightarrow> typed_node n \<Longrightarrow> \<forall>c \<in> set cs. typed_chunk c \<Longrightarrow> store_step E d d'"
| rename_node: "rename_node E i m t d = Inr d' \<Longrightarrow> store_step E d d'"
| move_node: "move_node E i p t d = Inr d' \<Longrightarrow> store_step E d d'"
| delete_node: "delete_node E t i d = Inr d' \<Longrightarrow> store_step E d d'"
| mark_deletion_complete: "mark_deletion_complete b d = Inr d' \<Longrightarrow> store_step E d d'"
| set_meta: "set_meta k v d = Inr d' \<Longrightarrow> store_step E d d'"
| increment_snapshot_counter: "increment_snapshot_counter d = Inr (n, d') \<Longrightarrow> store_step E d d'"
| insert_file_node_only: "insert_file_node_only E n d = Inr d' \<Longrightarrow> typed_node n \<Longrightarrow> store_step E d d'"
| insert_file_node_and_stage_epoch_entry:
    "insert_file_node_and_stage_epoch_entry E t n bs d = Inr d' \<Longrightarrow> typed_node n \<Longrightarrow> store_step E d d'"
| stage_epoch_entry: "stage_epoch_entry E t i bs d = Inr d' \<Longrightarrow> store_step E d d'"
| commit_epoch_flush:
    "commit_epoch_flush E t r xs d = Inr d' \<Longrightarrow> typed_epoch_blob r \<Longrightarrow> typed_extents xs \<Longrightarrow> store_step E d d'"
| reinsert_epoch_blob:
    "reinsert_epoch_blob E t r xs d = Inr d' \<Longrightarrow> typed_epoch_blob r \<Longrightarrow> typed_extents xs \<Longrightarrow> store_step E d d'"
| rollback_snapshot_counter: "rollback_snapshot_counter n d = Inr d' \<Longrightarrow> store_step E d d'"
| clear_last_synced_at: "clear_last_synced_at d = Inr d' \<Longrightarrow> store_step E d d'"
| insert_destination_session: "insert_destination_session E t r d = Inr d' \<Longrightarrow> store_step E d d'"
| delete_destination_session: "delete_destination_session i d = Inr d' \<Longrightarrow> store_step E d d'"
| swap_primary_destination: "swap_primary_destination i d = Inr d' \<Longrightarrow> store_step E d d'"
| record_backup_failure: "record_backup_failure E t b i d = Inr d' \<Longrightarrow> store_step E d d'"
| clear_backup_failure: "clear_backup_failure b i d = Inr d' \<Longrightarrow> store_step E d d'"
| bulk_insert_pending_backup: "bulk_insert_pending_backup bs i d = Inr d' \<Longrightarrow> store_step E d d'"
| clear_pending_backup: "clear_pending_backup b i d = Inr d' \<Longrightarrow> store_step E d d'"
| clear_pending_backups_for_destination: "clear_pending_backups_for_destination i d = Inr d' \<Longrightarrow> store_step E d d'"
| upsert_gdrive_sharing_config: "upsert_gdrive_sharing_config E t o' j now d = Inr d' \<Longrightarrow> store_step E d d'"

inductive reachable_db :: "env \<Rightarrow> uuid \<Rightarrow> u64 \<Rightarrow> bool \<Rightarrow> db \<Rightarrow> bool" for E v cs ep where
  created: "create_store E ''ok'' None v cs ep empty_file = Inr s \<Longrightarrow> reachable_db E v cs ep (ss_db s)"
| stepped: "reachable_db E v cs ep d \<Longrightarrow> store_step E d d' \<Longrightarrow> reachable_db E v cs ep d'"


section \<open>The initial database\<close>

lemma new_store_empty:
  assumes "d = rows_at 1 10 (seed_manifest_meta E v cs ep empty_db)"
  shows "t_nodes d = []" "t_chunks d = []" "t_epoch_blobs d = []" "t_epoch_buffer d = []" "t_shares d = []"
    "t_destinations d = []" "t_pending_deletions d = []" "t_backup_failures d = []" "t_pending_backup d = []"
    "t_sharing_config d = []" "distinct (map fst (t_meta d))"
  using assms seeded_tables(11) [of empty_db E v cs ep]
  by (simp_all add: seeded_tables(1-10) empty_db_def)

lemma db_inv_created:
  assumes "d = rows_at 1 10 (seed_manifest_meta E v cs ep empty_db)" "validate_manifest_meta E d = Inr ()"
  shows "db_inv E d"
  using new_store_empty [OF assms(1)] assms(2)
  by (simp add: db_inv_def inv_defs parents_ok_def shares_inv_def parent_rel_def acyclic_def map_filter_simps)

lemma create_store_Inr:
  assumes "uuid_laws E" "cs < 2 ^ 64" "create_store E ''ok'' None v cs ep empty_file = Inr s"
  shows "db_inv E (ss_db s)" and "ss_db s = rows_at 1 10 (seed_manifest_meta E v cs ep empty_db)"
    and "131072 \<le> cs" "cs \<le> 67108864"
proof -
  have db: "ss_db (empty_file\<lparr>ss_tables := c\<rparr>) = empty_db" for c by (simp add: empty_file_def)
  have mig: "apply_migrations (empty_file\<lparr>ss_tables := catalogue_at 1,
      ss_db := seed_manifest_meta E v cs ep empty_db\<rparr>) = Inr s"
    and val: "validate_manifest_meta E (ss_db s) = Inr ()"
    using assms(3) by (auto simp: create_store_def apply_canonical_schema_empty db Let_def
        validate_schema_integrity_def result_simps)
  show rows: "ss_db s = rows_at 1 10 (seed_manifest_meta E v cs ep empty_db)"
    using create_store_migrates [of E v cs ep] mig by auto
  show "db_inv E (ss_db s)" by (rule db_inv_created [OF rows val])
  have "map_of (t_meta (ss_db s)) ''chunk_size_bytes'' = Some (show_nat cs)"
    using rows seeded_meta [of E v cs ep] by simp
  then have "is_ok (parse_chunk_size_bytes (show_nat cs))"
    using val by (auto simp: validate_manifest_meta_eq_Inr)
  then show "131072 \<le> cs" "cs \<le> 67108864"
    using parse_u64_show_nat [OF assms(2)] by (auto simp: parse_chunk_size_bytes_def split: if_splits)
qed


section \<open>The invariant holds in every reachable database\<close>

lemma store_step_inv:
  assumes "store_step E d d'" "uuid_laws E" "db_inv E d"
  shows "db_inv E d'"
  using assms
proof (induction rule: store_step.induct)
  case (insert_node n d d')
  then show ?case by (simp add: insert_node_def insert_node_tx_inv)
next
  case (insert_file_node_only n d d')
  then show ?case by (simp add: insert_file_node_only_def insert_node_tx_inv)
next
  case (insert_file_node_and_stage_epoch_entry t n bs d d')
  then show ?case
    by (auto simp: insert_file_node_and_stage_epoch_entry_def result_simps
        intro: insert_node_tx_inv stage_epoch_entry_inv)
next
  case (reinsert_epoch_blob t r xs d d')
  then show ?case by (simp add: reinsert_epoch_blob_def insert_epoch_blob_with_extents_inv)
qed (blast intro: insert_chunks_inv insert_file_with_chunks_inv rename_node_inv move_node_inv delete_node_inv
    queue_ops_inv set_meta_inv increment_snapshot_counter_inv stage_epoch_entry_inv commit_epoch_flush_inv
    rollback_snapshot_counter_inv clear_last_synced_at_inv insert_destination_inv delete_destination_inv
    swap_primary_inv record_backup_failure_inv bulk_insert_pending_backup_inv)+

lemma reachable_db_inv:
  assumes "uuid_laws E" "cs < 2 ^ 64" "reachable_db E v cs ep d"
  shows "db_inv E d"
  using assms(3)
proof induction
  case (created s)
  then show ?case by (rule create_store_Inr(1) [OF assms(1,2)])
next
  case (stepped d d')
  then show ?case using store_step_inv assms(1) by blast
qed


section \<open>Metadata along a run\<close>

text \<open>What a step may do to \<open>manifest_meta\<close>.\<close>

lemma store_step_meta:
  assumes "store_step E d d'"
  shows "t_meta d' = t_meta d \<or>
     (\<exists>k v. \<not> is_immutable_manifest_meta_key k \<and> t_meta d' = AList.update k v (t_meta d)) \<or>
     t_meta d' = AList.delete ''last_synced_at'' (t_meta d) \<or>
     (\<exists>c c'. read_snapshot_counter d = Inr c \<and> (c' = c + 1 \<or> c = c' + 1) \<and> c' < 2 ^ 64 \<and>
        d' = sql_update_meta ''snapshot_counter'' (show_nat c') d)"
  using assms
proof cases
  case (insert_node n)
  then show ?thesis using insert_node_tx_rows(1) [of E n d d'] by (simp add: insert_node_def)
next
  case (insert_chunks cs)
  show ?thesis using insert_chunks_effect [OF insert_chunks(1)] by simp
next
  case (insert_file_with_chunks n cs)
  show ?thesis using insert_file_with_chunks_effect(1) [OF insert_file_with_chunks(1)] by simp
next
  case (move_node i p t)
  then show ?thesis by (auto simp: move_node_def result_simps)
next
  case (delete_node t i)
  then show ?thesis by (auto simp: delete_node_eq_Inr)
next
  case (set_meta k v)
  then have "\<not> is_immutable_manifest_meta_key k \<and> t_meta d' = AList.update k v (t_meta d)"
    by (auto simp: set_meta_def split: if_splits)
  then show ?thesis by blast
next
  case (increment_snapshot_counter n)
  then have "\<exists>c. read_snapshot_counter d = Inr c \<and> n = c + 1 \<and> n < 2 ^ 64 \<and>
      d' = sql_update_meta ''snapshot_counter'' (show_nat n) d"
    unfolding increment_snapshot_counter_def rbind_eq_Inr ok_or_eq_Inr checked_add_u64_def
    by (auto split: if_splits)
  then show ?thesis by blast
next
  case (insert_file_node_only n)
  then show ?thesis using insert_node_tx_rows(1) [of E n d d'] by (simp add: insert_file_node_only_def)
next
  case (insert_file_node_and_stage_epoch_entry t n bs)
  then obtain d1 where n: "insert_node_tx E n d = Inr d1" and s: "stage_epoch_entry E t (nd_node_id n) bs d1 = Inr d'"
    by (auto simp: insert_file_node_and_stage_epoch_entry_def result_simps)
  show ?thesis using insert_node_tx_rows(1) [OF n] stage_epoch_entry_effect [OF s] by simp
next
  case (stage_epoch_entry t i bs)
  show ?thesis using stage_epoch_entry_effect [OF stage_epoch_entry(1)] by simp
next
  case (commit_epoch_flush t r xs)
  show ?thesis using commit_epoch_flush_effect [OF commit_epoch_flush(1)] by simp
next
  case (reinsert_epoch_blob t r xs)
  show ?thesis using insert_epoch_blob_effect(1) [OF reinsert_epoch_blob(1) [unfolded reinsert_epoch_blob_def]] by simp
next
  case (rollback_snapshot_counter n)
  then have "\<exists>c. read_snapshot_counter d = Inr c \<and> c = n + 1 \<and> n < 2 ^ 64 \<and>
      d' = sql_update_meta ''snapshot_counter'' (show_nat n) d"
    unfolding rollback_snapshot_counter_def rbind_eq_Inr ok_or_eq_Inr checked_add_u64_def
    by (auto split: if_splits)
  then show ?thesis by blast
next
  case (insert_destination_session t r)
  then show ?thesis
    by (auto simp: insert_destination_session_def sql_insert_destination_def result_simps Let_def split: if_splits)
next
  case (record_backup_failure t b i)
  then show ?thesis
    by (cases "unix_timestamp_now E t") (auto simp: record_backup_failure_def Let_def simp del: if_split)
qed (auto simp: rename_node_def mark_deletion_complete_def clear_last_synced_at_def
    delete_destination_session_def swap_primary_eq_Inr clear_backup_failure_def bulk_insert_pending_backup_def
    clear_pending_backup_def clear_pending_backups_for_destination_def upsert_gdrive_sharing_config_def Let_def
    split: if_splits)

lemma read_snapshot_counter_update:
  assumes "n < 2 ^ 64" "read_snapshot_counter d = Inr c"
  shows "read_snapshot_counter (sql_update_meta ''snapshot_counter'' (show_nat n) d) = Inr n"
proof -
  obtain v where "map_of (t_meta d) ''snapshot_counter'' = Some v"
    using assms(2) by (auto simp: read_snapshot_counter_def result_simps)
  then show ?thesis
    using parse_u64_show_nat [OF assms(1)] by (simp add: read_snapshot_counter_def map_of_sql_update_meta)
qed

lemma immutable_step:
  assumes "store_step E d d'" "k \<in> {''schema_version'', ''vault_id'', ''chunk_size_bytes'', ''epoch_buffer_enabled''}"
  shows "map_of (t_meta d') k = map_of (t_meta d) k"
  using store_step_meta [OF assms(1)] assms(2)
  by (auto simp: is_immutable_manifest_meta_key_def IMMUTABLE_MANIFEST_META_KEYS_def map_of_sql_update_meta)


section \<open>Properties of the manifest database\<close>

text \<open>
  (C1) Every database reachable from a freshly created vault by any sequence of successful store
  operations satisfies the manifest invariant: unique keys, rows that read back, references that
  resolve, directories as parents, an acyclic node tree, a wrapped key exactly for files, at most one
  primary destination and valid metadata.
\<close>

theorem manifest_invariant:
  assumes "uuid_laws E" "cs < 2 ^ 64" "reachable_db E v cs ep d"
  shows "db_inv E d"
  by (rule reachable_db_inv [OF assms])

definition ex_dir :: node where
  "ex_dir = node_new 5 None Directory ''docs'' 0 0 0 None"

lemma ex_created: "\<exists>s. create_store (ex_env []) ''ok'' None 7 131072 True empty_file = Inr s"
  using create_store_empty [OF ex_uuid_laws, of 131072 "[]" 7 True] by auto

theorem manifest_invariant_witness:
  "\<exists>s d. create_store (ex_env []) ''ok'' None 7 131072 True empty_file = Inr s \<and>
     insert_node (ex_env []) ex_dir (ss_db s) = Inr d \<and> length (t_nodes d) = 1 \<and> db_inv (ex_env []) d"
proof -
  obtain s where s: "create_store (ex_env []) ''ok'' None 7 131072 True empty_file = Inr s"
    using ex_created by blast
  have empty: "t_nodes (ss_db s) = []"
    by (rule new_store_empty(1) [OF create_store_Inr(2) [OF ex_uuid_laws _ s]]) simp
  let ?d = "(ss_db s)\<lparr>t_nodes := [node_row_of (ex_env []) ex_dir 0]\<rparr>"
  have i: "insert_node (ex_env []) ex_dir (ss_db s) = Inr ?d"
    using empty by (simp add: insert_node_def insert_node_tx_def ensure_parent_is_directory_for_insert_def
        ex_dir_def node_new_def sql_insert_node_def node_ids_def node_row_of_def i64_or_err_def i64_try_from_def)
  have "typed_node ex_dir" by (simp add: typed_node_def ex_dir_def node_new_def)
  then have "reachable_db (ex_env []) 7 131072 True ?d"
    using reachable_db.created [OF s] store_step.insert_node [OF i] by (blast intro: reachable_db.stepped)
  from manifest_invariant [OF ex_uuid_laws _ this] s i show ?thesis by auto
qed

text \<open>
  (C4) The identity of a vault never changes: in every reachable database the vault identifier, the
  chunk size and the epoch-buffer flag are those it was created with, and the schema version is 10.
\<close>

theorem immutable_metadata:
  assumes "uuid_laws E" "cs < 2 ^ 64" "reachable_db E v cs ep d"
  shows "map_of (t_meta d) ''vault_id'' = Some (uuid_hyphenated E v) \<and>
         read_chunk_size d = Inr cs \<and>
         map_of (t_meta d) ''epoch_buffer_enabled'' = Some (if ep then ''true'' else ''false'') \<and>
         map_of (t_meta d) ''schema_version'' = Some ''10''"
proof -
  have "131072 \<le> cs \<and> cs \<le> 67108864 \<and>
      map_of (t_meta d) ''vault_id'' = Some (uuid_hyphenated E v) \<and>
      map_of (t_meta d) ''chunk_size_bytes'' = Some (show_nat cs) \<and>
      map_of (t_meta d) ''epoch_buffer_enabled'' = Some (if ep then ''true'' else ''false'') \<and>
      map_of (t_meta d) ''schema_version'' = Some ''10''"
    using assms(3)
  proof induction
    case (created s)
    note c = create_store_Inr [OF assms(1,2) created]
    have "at_version 10 s"
      using create_store_empty [OF assms(1) c(3,4), of v ep] created by auto
    with c show ?case
      by (auto simp: seeded_meta at_version_def schema_version_def result_simps
          version_text_def SCHEMA_VERSIONS_def)
  next
    case (stepped d d')
    then show ?case using immutable_step [OF stepped(2)] by simp
  qed
  then show ?thesis using parse_chunk_size_show_nat by (simp add: read_chunk_size_def)
qed

theorem immutable_metadata_witness:
  "\<exists>s. create_store (ex_env []) ''ok'' None 7 131072 True empty_file = Inr s \<and> read_chunk_size (ss_db s) = Inr 131072"
  using ex_created immutable_metadata [OF ex_uuid_laws _ reachable_db.created] by fastforce

text \<open>
  (C5) The snapshot counter is always readable and moves by at most one per operation, and a rollback
  undoes the increment it follows: after \<open>increment_snapshot_counter\<close> returned \<open>n\<close>, the counter
  reads \<open>n\<close>, one more than before, and \<open>rollback_snapshot_counter (n - 1)\<close> succeeds and restores
  the previous value.
\<close>

theorem snapshot_counter_discipline:
  assumes "db_inv E d"
  shows "\<exists>c. read_snapshot_counter d = Inr c \<and>
     (\<forall>d'. store_step E d d' \<longrightarrow>
        (\<exists>c'. read_snapshot_counter d' = Inr c' \<and> (c' = c \<or> c' = c + 1 \<or> c = c' + 1))) \<and>
     (\<forall>n d'. increment_snapshot_counter d = Inr (n, d') \<longrightarrow>
        n = c + 1 \<and> read_snapshot_counter d' = Inr n \<and>
        (\<exists>d''. rollback_snapshot_counter (n - 1) d' = Inr d'' \<and> read_snapshot_counter d'' = Inr c))"
proof -
  obtain v c where v: "map_of (t_meta d) ''snapshot_counter'' = Some v" "parse_u64 v = Some c"
    using assms by (auto simp: db_inv_def meta_inv_def validate_manifest_meta_eq_Inr)
  then have c: "read_snapshot_counter d = Inr c" by (simp add: read_snapshot_counter_def)
  have "\<exists>c'. read_snapshot_counter d' = Inr c' \<and> (c' = c \<or> c' = c + 1 \<or> c = c' + 1)"
    if step: "store_step E d d'" for d'
  proof -
    consider "map_of (t_meta d') ''snapshot_counter'' = Some v"
      | c' where "c' = c + 1 \<or> c = c' + 1" "c' < 2 ^ 64" "d' = sql_update_meta ''snapshot_counter'' (show_nat c') d"
      using store_step_meta [OF step] v(1) c
      by (auto simp: is_immutable_manifest_meta_key_def IMMUTABLE_MANIFEST_META_KEYS_def)
    then show ?thesis
    proof cases
      case 1
      then show ?thesis using v(2) by (simp add: read_snapshot_counter_def)
    next
      case 2
      then show ?thesis using read_snapshot_counter_update [OF _ c] by blast
    qed
  qed
  moreover have "n = c + 1 \<and> read_snapshot_counter d' = Inr n \<and>
      (\<exists>d''. rollback_snapshot_counter (n - 1) d' = Inr d'' \<and> read_snapshot_counter d'' = Inr c)"
    if inc: "increment_snapshot_counter d = Inr (n, d')" for n d'
  proof -
    have n: "n = c + 1" "n < 2 ^ 64" and d': "d' = sql_update_meta ''snapshot_counter'' (show_nat n) d"
      using inc c unfolding increment_snapshot_counter_def checked_add_u64_def by (auto split: if_splits)
    have r: "read_snapshot_counter d' = Inr n" unfolding d' by (rule read_snapshot_counter_update [OF n(2) c])
    have "rollback_snapshot_counter (n - 1) d' = Inr (sql_update_meta ''snapshot_counter'' (show_nat c) d')"
      using n r by (simp add: rollback_snapshot_counter_def checked_add_u64_def)
    moreover have "read_snapshot_counter (sql_update_meta ''snapshot_counter'' (show_nat c) d') = Inr c"
      by (rule read_snapshot_counter_update [OF _ r]) (use n in simp)
    ultimately show ?thesis using n r by blast
  qed
  ultimately show ?thesis using c by blast
qed

theorem snapshot_counter_discipline_witness:
  "\<exists>s. create_store (ex_env []) ''ok'' None 7 131072 True empty_file = Inr s \<and>
     (\<exists>c. read_snapshot_counter (ss_db s) = Inr c)"
proof -
  obtain s where s: "create_store (ex_env []) ''ok'' None 7 131072 True empty_file = Inr s"
    using ex_created by blast
  have "db_inv (ex_env []) (ss_db s)" by (rule create_store_Inr(1) [OF ex_uuid_laws _ s]) simp
  from snapshot_counter_discipline [OF this] s show ?thesis by blast
qed

end
