(* ===== verification/Manifest_Props.thy ===== *)
theory Manifest_Props
  imports Manifest_Steps
begin

text \<open>
  Behaviour of the single operations of the store on a database that satisfies the invariant:
  creation, moves, deletion of a subtree and the deletion queue, destinations, and the sharing
  configuration.
\<close>

section \<open>Creation\<close>

text \<open>
  Creating a vault in an empty file: for a chunk size between 128 KiB and 64 MiB it succeeds,
  the file is at schema version 10 with the requested vault identifier, chunk size and epoch flag, a
  zero snapshot counter, no node, and the invariant holds; for any other chunk size it is refused as
  out of range.
\<close>

theorem create_store_fresh:
  assumes "uuid_laws E" "cs < 2 ^ 64"
  shows "(131072 \<le> cs \<and> cs \<le> 67108864 \<longrightarrow>
           (\<exists>s. create_store E ''ok'' None v cs ep empty_file = Inr s \<and> at_version 10 s \<and> db_inv E (ss_db s) \<and>
              t_nodes (ss_db s) = [] \<and> read_chunk_size (ss_db s) = Inr cs \<and>
              map_of (t_meta (ss_db s)) ''vault_id'' = Some (uuid_hyphenated E v) \<and>
              read_snapshot_counter (ss_db s) = Inr 0)) \<and>
         (\<not> (131072 \<le> cs \<and> cs \<le> 67108864) \<longrightarrow>
           create_store E ''ok'' None v cs ep empty_file = Inl (Database ''invalid chunk_size_bytes: out of range''))"
proof (intro conjI impI)
  assume cs: "131072 \<le> cs \<and> cs \<le> 67108864"
  then obtain s where s: "create_store E ''ok'' None v cs ep empty_file = Inr s" "at_version 10 s"
    and rows: "ss_db s = rows_at 1 10 (seed_manifest_meta E v cs ep empty_db)"
    using create_store_empty [OF assms(1)] by blast
  have "db_inv E (ss_db s)" by (rule create_store_Inr(1) [OF assms s(1)])
  moreover have "t_nodes (ss_db s) = []" by (rule new_store_empty(1) [OF rows])
  moreover have "read_chunk_size (ss_db s) = Inr cs"
    using rows cs parse_chunk_size_show_nat by (simp add: read_chunk_size_def seeded_meta)
  moreover have "map_of (t_meta (ss_db s)) ''vault_id'' = Some (uuid_hyphenated E v)"
    "read_snapshot_counter (ss_db s) = Inr 0"
    using rows by (simp_all add: seeded_meta read_snapshot_counter_def parse_u64_def digit_val_def)
  ultimately show "\<exists>s. create_store E ''ok'' None v cs ep empty_file = Inr s \<and> at_version 10 s \<and> db_inv E (ss_db s) \<and>
      t_nodes (ss_db s) = [] \<and> read_chunk_size (ss_db s) = Inr cs \<and>
      map_of (t_meta (ss_db s)) ''vault_id'' = Some (uuid_hyphenated E v) \<and> read_snapshot_counter (ss_db s) = Inr 0"
    using s by blast
next
  assume cs: "\<not> (131072 \<le> cs \<and> cs \<le> 67108864)"
  obtain s where m: "apply_migrations (empty_file\<lparr>ss_tables := catalogue_at 1,
      ss_db := seed_manifest_meta E v cs ep empty_db\<rparr>) = Inr s"
    and at: "at_version 10 s" and rows: "ss_db s = rows_at 1 10 (seed_manifest_meta E v cs ep empty_db)"
    using create_store_migrates by blast
  have "map_of (t_meta (ss_db s)) ''schema_version'' = Some ''10''"
    using at by (simp add: at_version_def schema_version_def version_text_def SCHEMA_VERSIONS_def result_simps)
  note v = validate_seeded(1) [OF assms(1) rows this]
  have db: "ss_db (empty_file\<lparr>ss_tables := c\<rparr>) = empty_db" for c by (simp add: empty_file_def)
  have "parse_chunk_size_bytes (show_nat cs) = Inl (Database ''invalid chunk_size_bytes: out of range'')"
    using cs parse_u64_show_nat [OF assms(2)] by (auto simp: parse_chunk_size_bytes_def)
  with v m show "create_store E ''ok'' None v cs ep empty_file = Inl (Database ''invalid chunk_size_bytes: out of range'')"
    by (simp add: create_store_def apply_canonical_schema_empty db Let_def validate_schema_integrity_def)
qed

theorem create_store_fresh_witness:
  "(\<exists>s. create_store (ex_env []) ''ok'' None 7 131072 False empty_file = Inr s \<and> t_nodes (ss_db s) = []) \<and>
   create_store (ex_env []) ''ok'' None 7 1000 False empty_file = Inl (Database ''invalid chunk_size_bytes: out of range'')"
  using create_store_fresh [OF ex_uuid_laws, of 131072 "[]" 7 False]
    create_store_fresh [OF ex_uuid_laws, of 1000 "[]" 7 False] by auto

text \<open>
  \<open>create\<close> does not open an existing vault: on a file that already has the table \<open>nodes\<close> it
  fails with a database error, whatever its other arguments.
\<close>

theorem create_store_existing:
  assumes "''nodes'' \<in> set (map fst (ss_tables s))"
  shows "create_store E integrity fk v cs ep s = Inl (Database ''table nodes already exists'')"
proof -
  have "apply_canonical_schema s = Inl (Database ''table nodes already exists'')"
    using assms by (simp add: apply_canonical_schema_def CANONICAL_SCHEMA_def batch_def execute_def sql_error_def)
  then show ?thesis by (simp add: create_store_def)
qed

theorem create_store_existing_witness:
  "\<exists>s. create_store (ex_env []) ''ok'' None 7 131072 True empty_file = Inr s \<and>
     create_store (ex_env []) ''ok'' None 7 131072 True s = Inl (Database ''table nodes already exists'')"
proof -
  obtain s where s: "create_store (ex_env []) ''ok'' None 7 131072 True empty_file = Inr s" "at_version 10 s"
    using create_store_empty [OF ex_uuid_laws, of 131072 "[]" 7 True] by auto
  have "''nodes'' \<in> set (map fst (catalogue_at 10))" by code_simp
  then have "''nodes'' \<in> set (map fst (ss_tables s))" using s(2) by (simp add: at_version_def)
  from create_store_existing [OF this] s(1) show ?thesis by blast
qed


section \<open>Moves\<close>

lemma node_type_of_iff:
  assumes "db_inv E d"
  shows "node_type_of i d = Some ty \<longleftrightarrow> (\<exists>r \<in> set (t_nodes d). nr_node_id r = i \<and> nr_node_type r = ty)"
proof -
  have "distinct (map nr_node_id (t_nodes d))" using assms by (simp add: db_inv_def nodes_inv_def)
  then show ?thesis by (auto simp: node_type_of_def sql_find_node_def find_key_Some)
qed

text \<open>
  (C3) \<open>move_node\<close> succeeds exactly when the node exists and the new parent, if there is one, is a
  directory that is neither the node itself nor one of its descendants; on success the tree is still
  acyclic, the node's parent is the new one, and every other row is unchanged.
\<close>

theorem move_node_iff:
  assumes "uuid_laws E" "db_inv E d"
  shows "(is_ok (move_node E i p t d) \<longleftrightarrow>
           uuid_hyphenated E i \<in> set (node_ids d) \<and>
           (\<forall>q. p = Some q \<longrightarrow>
              (\<exists>r \<in> set (t_nodes d). nr_node_id r = uuid_hyphenated E q \<and> nr_node_type r = ''directory'') \<and>
              (uuid_hyphenated E q, uuid_hyphenated E i) \<notin> (parent_rel (t_nodes d))\<^sup>*)) \<and>
         (\<forall>d'. move_node E i p t d = Inr d' \<longrightarrow>
            acyclic (parent_rel (t_nodes d')) \<and> node_ids d' = node_ids d \<and>
            (\<forall>r \<in> set (t_nodes d'). if nr_node_id r = uuid_hyphenated E i
               then nr_parent_id r = map_option (uuid_hyphenated E) p else r \<in> set (t_nodes d)))"
proof (intro conjI allI impI)
  have find: "(sql_find_node j d = None) = (j \<notin> set (node_ids d))" for j
    by (simp add: sql_find_node_def node_ids_def find_key_None)
  show "is_ok (move_node E i p t d) \<longleftrightarrow> uuid_hyphenated E i \<in> set (node_ids d) \<and>
      (\<forall>q. p = Some q \<longrightarrow>
        (\<exists>r \<in> set (t_nodes d). nr_node_id r = uuid_hyphenated E q \<and> nr_node_type r = ''directory'') \<and>
        (uuid_hyphenated E q, uuid_hyphenated E i) \<notin> (parent_rel (t_nodes d))\<^sup>*)"
    by (auto simp: is_ok_iff move_node_def rbind_eq_Inr ensure_move_respects_hierarchy_def find
        validate_parent_type_eq_Inr node_type_of_iff [OF assms(2)] creates_cycle_iff rtrancl_eq_or_trancl
        uuid_hyphenated_inj [OF assms(1)] split: option.splits if_splits)
next
  fix d' assume m: "move_node E i p t d = Inr d'"
  then have d': "d' = d\<lparr>t_nodes := map (\<lambda>r. if nr_node_id r = uuid_hyphenated E i
       then r\<lparr>nr_parent_id := map_option (uuid_hyphenated E) p, nr_modified_at := t\<rparr> else r) (t_nodes d)\<rparr>"
    by (auto simp: move_node_def result_simps)
  show "acyclic (parent_rel (t_nodes d'))"
    using move_node_inv [OF assms(1) m assms(2)] by (simp add: db_inv_def nodes_inv_def)
  show "node_ids d' = node_ids d" by (simp add: d' node_ids_def)
  show "\<forall>r \<in> set (t_nodes d'). if nr_node_id r = uuid_hyphenated E i
      then nr_parent_id r = map_option (uuid_hyphenated E) p else r \<in> set (t_nodes d)"
    by (auto simp: d')
qed

text \<open>A small database for the witnesses: a directory 5, a directory 6 in it, and a file 7 in 6.\<close>

definition ex_base :: db where
  "ex_base = empty_db\<lparr>t_meta := [(''schema_version'', ''10''), (''snapshot_counter'', ''0''), (''vault_id'', ''1''),
     (''chunk_size_bytes'', ''131072''), (''epoch_buffer_enabled'', ''true'')]\<rparr>"

definition ex_node :: "uuid \<Rightarrow> uuid option \<Rightarrow> node" where
  "ex_node i p = node_new i p (if i = 7 then File else Directory) ''n'' 0 0 0 (if i = 7 then Some (replicate 72 0) else None)"

definition ex_tree :: db where
  "ex_tree = ex_base\<lparr>t_nodes := [node_row_of (ex_env []) (ex_node 5 None) 0,
     node_row_of (ex_env []) (ex_node 6 (Some 5)) 0, node_row_of (ex_env []) (ex_node 7 (Some 6)) 0]\<rparr>"

lemma ex_uuid_text: "uuid_hyphenated (ex_env a) u = show_nat (unat u)" "uuid_parse (ex_env a) = (\<lambda>s. map_option of_nat (parse_digits 0 s))"
  by (simp_all add: ex_env_def)

lemma ex_ids: "uuid_hyphenated (ex_env a) 5 = ''5''" "uuid_hyphenated (ex_env a) 6 = ''6''" "uuid_hyphenated (ex_env a) 7 = ''7''"
proof -
  have "show_nat 5 = ''5''" "show_nat 6 = ''6''" "show_nat 7 = ''7''" by code_simp+
  then show "uuid_hyphenated (ex_env a) 5 = ''5''" "uuid_hyphenated (ex_env a) 6 = ''6''" "uuid_hyphenated (ex_env a) 7 = ''7''"
    by (simp_all add: ex_uuid_text)
qed

lemma parent_rel_Cons:
  "parent_rel [] = {}" "parent_rel (r # rows) = (case nr_parent_id r of None \<Rightarrow> {} | Some p \<Rightarrow> {(nr_node_id r, p)}) \<union> parent_rel rows"
  by (auto simp: parent_rel_def split: option.splits)

lemma ex_base_inv: "db_inv (ex_env []) ex_base"
proof -
  have "parse_chunk_size_bytes ''131072'' = Inr 131072"
    by (simp add: parse_chunk_size_bytes_def parse_u64_def digit_val_def)
  then have "validate_manifest_meta (ex_env []) ex_base = Inr ()"
    by (simp add: validate_manifest_meta_eq_Inr ex_base_def ex_uuid_text SCHEMA_VERSIONS_def parse_u64_def digit_val_def)
  then show ?thesis
    by (simp add: db_inv_def inv_defs parents_ok_def shares_inv_def parent_rel_def acyclic_def map_filter_simps
        ex_base_def empty_db_def)
qed

lemma ex_tree_inv: "db_inv (ex_env []) ex_tree"
proof -
  let ?E = "ex_env []"
  note ev = insert_node_tx_def ensure_parent_is_directory_for_insert_def ex_node_def node_new_def sql_insert_node_def
    node_ids_def node_row_of_def i64_or_err_def i64_try_from_def node_type_of_def sql_find_node_def
    validate_parent_type_def ex_ids ex_base_def empty_db_def
  have t: "typed_node (ex_node i p)" for i p by (simp add: typed_node_def ex_node_def node_new_def)
  have "insert_node_tx ?E (ex_node 5 None) ex_base = Inr (ex_base\<lparr>t_nodes := [node_row_of ?E (ex_node 5 None) 0]\<rparr>)"
    by (simp add: ev)
  note 1 = insert_node_tx_inv [OF ex_uuid_laws this t ex_base_inv]
  have "insert_node_tx ?E (ex_node 6 (Some 5)) (ex_base\<lparr>t_nodes := [node_row_of ?E (ex_node 5 None) 0]\<rparr>) =
      Inr (ex_base\<lparr>t_nodes := [node_row_of ?E (ex_node 5 None) 0, node_row_of ?E (ex_node 6 (Some 5)) 0]\<rparr>)"
    by (simp add: ev)
  note 2 = insert_node_tx_inv [OF ex_uuid_laws this t 1]
  have "insert_node_tx ?E (ex_node 7 (Some 6))
      (ex_base\<lparr>t_nodes := [node_row_of ?E (ex_node 5 None) 0, node_row_of ?E (ex_node 6 (Some 5)) 0]\<rparr>) = Inr ex_tree"
    by (simp add: ev ex_tree_def)
  from insert_node_tx_inv [OF ex_uuid_laws this t 2] show ?thesis .
qed

theorem move_node_iff_witness:
  "is_ok (move_node (ex_env []) 7 (Some 5) 9 ex_tree) \<and> \<not> is_ok (move_node (ex_env []) 5 (Some 6) 9 ex_tree)"
proof -
  let ?R = "parent_rel (t_nodes ex_tree)"
  have R: "?R = {(''6'', ''5''), (''7'', ''6'')}"
    by (auto simp: parent_rel_Cons ex_tree_def node_row_of_def ex_node_def node_new_def ex_ids)
  have "(''5'', ''7'') \<notin> ?R\<^sup>*" unfolding R by (auto elim: converse_rtranclE)
  moreover have "(''6'', ''5'') \<in> ?R\<^sup>*" unfolding R by blast
  ultimately show ?thesis
    using move_node_iff [OF ex_uuid_laws ex_tree_inv, of 7 "Some 5" 9]
      move_node_iff [OF ex_uuid_laws ex_tree_inv, of 5 "Some 6" 9]
    by (simp add: ex_ids node_ids_def ex_tree_def node_row_of_def ex_node_def node_new_def)
qed


section \<open>Deletion\<close>

lemma chunk_names_unique:
  assumes "db_inv E d" "x \<in> set (t_chunks d)" "y \<in> set (t_chunks d)"
    and "cr_blob_name x = Some n" "cr_blob_name y = Some n"
  shows "x = y"
proof -
  have "distinct (List.map_filter cr_blob_name rows) \<Longrightarrow> x \<in> set rows \<Longrightarrow> y \<in> set rows \<Longrightarrow> x = y" for rows
    using assms(4,5) by (induction rows) (auto simp: map_filter_simps set_map_filter_iff split: option.splits)
  then show ?thesis using assms(1-3) unfolding db_inv_def chunks_inv_def by blast
qed

text \<open>All blob names the store knows, as \<open>list_all_blob_names\<close> returns them.\<close>

lemma set_deleted_blob_names:
  assumes "i \<in> set (node_ids d)"
  shows "set (deleted_blob_names i d) =
     {b. \<exists>c \<in> set (t_chunks d). cr_blob_name c = Some b \<and> cr_node_id c \<in> descendants d i} \<union>
     {er_blob_name e | e. e \<in> set (t_epoch_blobs d) \<and>
        (\<exists>c \<in> set (t_chunks d). cr_epoch_blob_id c = Some (er_epoch_blob_id e) \<and> cr_node_id c \<in> descendants d i) \<and>
        \<not> (\<exists>c \<in> set (t_chunks d). cr_epoch_blob_id c = Some (er_epoch_blob_id e) \<and> cr_node_id c \<notin> descendants d i)}"
  using assms by (auto simp: deleted_blob_names_def set_subtree_single Let_def set_map_filter_iff)

text \<open>A name that \<open>delete_node\<close> queues belongs to no surviving chunk and to no surviving epoch blob.\<close>

lemma deleted_names_dead:
  assumes "db_inv E d"
    and names_differ: "\<forall>c \<in> set (t_chunks d). \<forall>e \<in> set (t_epoch_blobs d). cr_blob_name c \<noteq> Some (er_blob_name e)"
    and "i \<in> set (node_ids d)" "x \<in> set (deleted_blob_names i d)"
  shows "(\<nexists>c. c \<in> set (t_chunks d) \<and> cr_node_id c \<notin> descendants d i \<and> cr_blob_name c = Some x) \<and>
         (\<nexists>e c. e \<in> set (t_epoch_blobs d) \<and> er_blob_name e = x \<and> c \<in> set (t_chunks d) \<and>
            cr_epoch_blob_id c = Some (er_epoch_blob_id e) \<and> cr_node_id c \<notin> descendants d i)"
proof -
  consider c where "c \<in> set (t_chunks d)" "cr_blob_name c = Some x" "cr_node_id c \<in> descendants d i"
    | e where "e \<in> set (t_epoch_blobs d)" "er_blob_name e = x"
        "\<And>c. c \<in> set (t_chunks d) \<Longrightarrow> cr_epoch_blob_id c = Some (er_epoch_blob_id e) \<Longrightarrow> cr_node_id c \<in> descendants d i"
    using assms(4) unfolding set_deleted_blob_names [OF assms(3)] by blast
  then show ?thesis
  proof cases
    case 1
    have "c' = c" if "c' \<in> set (t_chunks d)" "cr_blob_name c' = Some x" for c'
      using chunk_names_unique [OF assms(1) that(1) 1(1) that(2) 1(2)] .
    with 1 names_differ show ?thesis by metis
  next
    case 2
    have "e' = e" if "e' \<in> set (t_epoch_blobs d)" "er_blob_name e' = x" for e'
      using that 2(1,2) assms(1) by (auto simp: db_inv_def epochs_inv_def distinct_map inj_on_def)
    with 2 names_differ show ?thesis by metis
  qed
qed

text \<open>
  (C2) Deleting a node removes exactly the node and its descendants with their chunks, and no blob is
  lost or deleted too early: every blob name the manifest knew is afterwards either still known or
  queued for deletion, and no name that was newly queued is still in use.  (Standalone chunks and
  epoch blobs have different names, and every epoch blob is referenced by a chunk.)
\<close>

theorem delete_node_blobs:
  assumes "db_inv E d" "delete_node E t u d = Inr d'"
    and "\<forall>c \<in> set (t_chunks d). \<forall>e \<in> set (t_epoch_blobs d). cr_blob_name c \<noteq> Some (er_blob_name e)"
    and "\<forall>e \<in> set (t_epoch_blobs d). \<exists>c \<in> set (t_chunks d). cr_epoch_blob_id c = Some (er_epoch_blob_id e)"
    and "list_all_blob_names d = Inr before" "list_all_blob_names d' = Inr after"
  shows "set (node_ids d') = set (node_ids d) - descendants d (uuid_hyphenated E u) \<and>
         t_chunks d' = filter (\<lambda>c. cr_node_id c \<notin> descendants d (uuid_hyphenated E u)) (t_chunks d) \<and>
         after \<subseteq> before \<and> before \<subseteq> after \<union> fst ` set (t_pending_deletions d') \<and>
         (fst ` set (t_pending_deletions d') - fst ` set (t_pending_deletions d)) \<inter> after = {}"
proof -
  let ?g = "descendants d (uuid_hyphenated E u)"
  note e = assms(2) [unfolded delete_node_eq_Inr]
  have in_ids: "uuid_hyphenated E u \<in> set (node_ids d)" using e by blast
  have nodes: "t_nodes d' = filter (\<lambda>r. nr_node_id r \<notin> ?g) (t_nodes d)"
    and chunks: "t_chunks d' = filter (\<lambda>c. cr_node_id c \<notin> ?g) (t_chunks d)"
    and epochs: "t_epoch_blobs d' = filter (\<lambda>e. \<exists>c \<in> set (t_chunks d).
        cr_epoch_blob_id c = Some (er_epoch_blob_id e) \<and> cr_node_id c \<notin> ?g) (t_epoch_blobs d)"
    using e by auto
  obtain q where "t_pending_deletions d' = fold (\<lambda>b. insert_or_ignore b q)
      (deleted_blob_names (uuid_hyphenated E u) d) (t_pending_deletions d)"
    using e by auto
  then have pend: "fst ` set (t_pending_deletions d') = fst ` set (t_pending_deletions d) \<union>
      set (deleted_blob_names (uuid_hyphenated E u) d)"
    by (simp add: set_fold_insert_or_ignore)
  note names = set_deleted_blob_names [OF in_ids]
  have b: "before = {x. \<exists>c \<in> set (t_chunks d). cr_blob_name c = Some x} \<union> er_blob_name ` set (t_epoch_blobs d)"
    and a: "after = {x. \<exists>c \<in> set (t_chunks d'). cr_blob_name c = Some x} \<union> er_blob_name ` set (t_epoch_blobs d')"
    using assms(5,6) by (auto simp: list_all_blob_names_def set_map_filter_iff)
  have "after \<subseteq> before" unfolding a b chunks epochs by auto
  moreover have "before \<subseteq> after \<union> set (deleted_blob_names (uuid_hyphenated E u) d)"
  proof
    fix x assume "x \<in> before"
    then consider c where "c \<in> set (t_chunks d)" "cr_blob_name c = Some x"
      | e where "e \<in> set (t_epoch_blobs d)" "er_blob_name e = x" unfolding b by blast
    then show "x \<in> after \<union> set (deleted_blob_names (uuid_hyphenated E u) d)"
    proof cases
      case 1
      then show ?thesis unfolding a chunks names by auto
    next
      case 2
      obtain c where c: "c \<in> set (t_chunks d)" "cr_epoch_blob_id c = Some (er_epoch_blob_id e)"
        using assms(4) 2(1) by blast
      show ?thesis
      proof (cases "\<exists>c \<in> set (t_chunks d). cr_epoch_blob_id c = Some (er_epoch_blob_id e) \<and> cr_node_id c \<notin> ?g")
        case True
        then have "e \<in> set (t_epoch_blobs d')" using 2(1) by (simp add: epochs)
        then show ?thesis unfolding a using 2(2) by blast
      next
        case False
        with c 2 show ?thesis unfolding names by blast
      qed
    qed
  qed
  moreover have "x \<notin> after" if "x \<in> set (deleted_blob_names (uuid_hyphenated E u) d)" for x
    using deleted_names_dead [OF assms(1,3) in_ids that] unfolding a chunks epochs by auto
  moreover have "set (node_ids d') = set (node_ids d) - ?g" by (auto simp: node_ids_def nodes)
  ultimately show ?thesis using pend chunks by blast
qed


text \<open>The file 7 with a standalone chunk and an extent of a shared epoch blob.\<close>

definition ex_chunk :: "string \<Rightarrow> i64 \<Rightarrow> string option \<Rightarrow> string option \<Rightarrow> chunk_row" where
  "ex_chunk i x b e = \<lparr>cr_chunk_id = i, cr_node_id = ''7'', cr_chunk_index = x, cr_blob_name = b, cr_size_padded = 0,
     cr_blake3_checksum = replicate 32 0, cr_epoch_blob_id = e, cr_byte_offset = map_option (\<lambda>_. 0) e,
     cr_byte_length = map_option (\<lambda>_. 0) e\<rparr>"

definition ex_stored :: db where
  "ex_stored = ex_tree\<lparr>
     t_epoch_blobs := [\<lparr>er_epoch_blob_id = ''20'', er_blob_name = ''21'', er_file_key_wrapped = [], er_size_padded = 0,
        er_blake3_checksum = replicate 32 0\<rparr>],
     t_chunks := [ex_chunk ''10'' 0 (Some ''11'') None, ex_chunk ''12'' 1 None (Some ''20'')]\<rparr>"

lemma ex_parse: "uuid_parse (ex_env a) ''7'' = Some 7" "uuid_parse (ex_env a) ''10'' = Some 10"
  "uuid_parse (ex_env a) ''12'' = Some 12" "uuid_parse (ex_env a) ''20'' = Some 20"
  by (simp_all add: ex_uuid_text digit_val_def)

lemma ex_ids2: "uuid_hyphenated (ex_env a) 10 = ''10''" "uuid_hyphenated (ex_env a) 12 = ''12''"
  "uuid_hyphenated (ex_env a) 20 = ''20''"
proof -
  have "show_nat 10 = ''10''" "show_nat 12 = ''12''" "show_nat 20 = ''20''" by code_simp+
  then show "uuid_hyphenated (ex_env a) 10 = ''10''" "uuid_hyphenated (ex_env a) 12 = ''12''"
    "uuid_hyphenated (ex_env a) 20 = ''20''" by (simp_all add: ex_uuid_text)
qed

lemma ex_stored_inv: "db_inv (ex_env []) ex_stored"
proof -
  have "''7'' \<in> set (node_ids ex_tree)"
    by (simp add: ex_tree_def node_ids_def node_row_of_def ex_node_def node_new_def ex_ids)
  then have "chunks_inv (ex_env []) (set (node_ids ex_stored)) (er_epoch_blob_id ` set (t_epoch_blobs ex_stored)) (t_chunks ex_stored)"
    by (simp add: chunks_inv_def ex_stored_def ex_chunk_def chunk_row_ok_def chunk_check_def canonical_def
        ex_parse ex_ids ex_ids2 map_filter_simps node_ids_def)
  moreover have "epochs_inv (ex_env []) (t_epoch_blobs ex_stored)"
    by (simp add: epochs_inv_def ex_stored_def epoch_row_ok_def canonical_def ex_parse ex_ids2)
  ultimately show ?thesis
    using ex_tree_inv unfolding db_inv_def
    by (simp add: ex_stored_def node_ids_def queues_inv_def meta_inv_cong [of "_\<lparr>t_epoch_blobs := _, t_chunks := _\<rparr>" ex_tree])
qed

theorem delete_node_blobs_witness:
  "\<exists>d'. delete_node (ex_env []) 0 6 ex_stored = Inr d' \<and> list_all_blob_names d' = Inr {} \<and>
     {''11'', ''21''} \<subseteq> fst ` set (t_pending_deletions d')"
proof -
  have R: "parent_rel (t_nodes ex_stored) = {(''6'', ''5''), (''7'', ''6'')}"
    by (auto simp: parent_rel_Cons ex_stored_def ex_tree_def node_row_of_def ex_node_def node_new_def ex_ids)
  have g: "''7'' \<in> descendants ex_stored ''6''" unfolding R by blast
  have "''6'' \<in> set (node_ids ex_stored)"
    by (simp add: ex_stored_def ex_tree_def node_ids_def node_row_of_def ex_node_def node_new_def ex_ids)
  then have "is_ok (delete_node (ex_env []) 0 6 ex_stored)"
    unfolding is_ok_iff delete_node_eq_Inr
    by (simp add: unix_timestamp_now_def i64_try_from_def ex_ids) (simp add: ex_env_def)
  then obtain d' where d': "delete_node (ex_env []) 0 6 ex_stored = Inr d'" by (auto simp: is_ok_iff)
  have gone: "t_chunks d' = []" "t_epoch_blobs d' = []"
    using d' g unfolding delete_node_eq_Inr by (auto simp: ex_ids ex_stored_def ex_chunk_def)
  then have after: "list_all_blob_names d' = Inr {}"
    by (simp add: list_all_blob_names_def map_filter_simps)
  have before: "list_all_blob_names ex_stored = Inr {''11'', ''21''}"
    by (auto simp: list_all_blob_names_def map_filter_simps ex_stored_def ex_chunk_def)
  have names: "\<forall>c \<in> set (t_chunks ex_stored). \<forall>e \<in> set (t_epoch_blobs ex_stored). cr_blob_name c \<noteq> Some (er_blob_name e)"
    "\<forall>e \<in> set (t_epoch_blobs ex_stored). \<exists>c \<in> set (t_chunks ex_stored). cr_epoch_blob_id c = Some (er_epoch_blob_id e)"
    by (simp_all add: ex_stored_def ex_chunk_def)
  have "{''11'', ''21''} \<subseteq> {} \<union> fst ` set (t_pending_deletions d')"
    using delete_node_blobs [OF ex_stored_inv d' names before after] by (elim conjE)
  with d' after show ?thesis by auto
qed


section \<open>Destinations and sharing configuration\<close>

text \<open>
  Promoting a destination: \<open>swap_primary_destination\<close> fails with \<open>NotFound\<close> exactly when the
  destination does not exist; otherwise exactly one destination is primary afterwards, it is the one
  asked for, and \<open>get_primary_destination\<close> returns it; no destination is added or removed, and the
  former primary is left with a backup mode.
\<close>

theorem swap_primary_spec:
  assumes "db_inv E d"
  shows "(p \<notin> set (map ds_destination_id (t_destinations d)) \<longrightarrow> swap_primary_destination p d = Inl NotFound) \<and>
         (p \<in> set (map ds_destination_id (t_destinations d)) \<longrightarrow>
           (\<exists>d' s. swap_primary_destination p d = Inr d' \<and> get_primary_destination d' = Inr (Some s) \<and>
              ds_destination_id s = p \<and> length (filter ds_is_primary (t_destinations d')) = 1 \<and>
              map ds_destination_id (t_destinations d') = map ds_destination_id (t_destinations d) \<and>
              (\<forall>r \<in> set (t_destinations d). ds_is_primary r \<longrightarrow>
                 (\<exists>r' \<in> set (t_destinations d'). ds_destination_id r' = ds_destination_id r \<and> ds_backup_mode r' \<noteq> None))))"
proof (intro conjI impI)
  let ?f = "\<lambda>r. if ds_is_primary r \<and> ds_backup_mode r = None
              then r\<lparr>ds_backup_mode := Some ''mirror''\<rparr> else (r :: destination_row)"
  have ids: "map ds_destination_id (map (\<lambda>r. r\<lparr>ds_is_primary := False\<rparr>) (map ?f rows)) = map ds_destination_id rows" for rows
    by (induction rows) auto
  assume "p \<notin> set (map ds_destination_id (t_destinations d))"
  then show "swap_primary_destination p d = Inl NotFound"
    unfolding swap_primary_destination_def Let_def ids by simp
next
  assume p: "p \<in> set (map ds_destination_id (t_destinations d))"
  let ?d = "d\<lparr>t_destinations := map (swapped p) (t_destinations d)\<rparr>"
  have swap: "swap_primary_destination p d = Inr ?d" using p by (simp add: swap_primary_eq_Inr)
  have one: "length (filter ds_is_primary (t_destinations ?d)) = 1"
    using primaries_swapped [of "t_destinations d" p] p assms by (simp add: db_inv_def dest_inv_def)
  obtain r where r: "find ds_is_primary (t_destinations ?d) = Some r"
  proof (cases "find ds_is_primary (t_destinations ?d)")
    case None
    then have "filter ds_is_primary (t_destinations ?d) = []" by (auto simp: find_None_iff filter_empty_conv)
    then show ?thesis using one by simp
  qed blast
  then have "ds_destination_id r = p" by (auto simp: find_Some_iff)
  moreover have "\<exists>r' \<in> set (t_destinations ?d). ds_destination_id r' = ds_destination_id q \<and> ds_backup_mode r' \<noteq> None"
    if "q \<in> set (t_destinations d)" "ds_is_primary q" for q
  proof (rule bexI [of _ "swapped p q"])
    show "ds_destination_id (swapped p q) = ds_destination_id q \<and> ds_backup_mode (swapped p q) \<noteq> None"
      using that by (auto simp: swapped_def Let_def)
  qed (use that in simp)
  moreover have "get_primary_destination ?d = Inr (Some (destination_session_row.truncate r))"
    using r by (simp add: get_primary_destination_def)
  moreover have "ds_destination_id (destination_session_row.truncate r) = ds_destination_id r"
    by (simp add: destination_session_row.defs)
  ultimately show "\<exists>d' s. swap_primary_destination p d = Inr d' \<and> get_primary_destination d' = Inr (Some s) \<and>
      ds_destination_id s = p \<and> length (filter ds_is_primary (t_destinations d')) = 1 \<and>
      map ds_destination_id (t_destinations d') = map ds_destination_id (t_destinations d) \<and>
      (\<forall>r \<in> set (t_destinations d). ds_is_primary r \<longrightarrow>
         (\<exists>r' \<in> set (t_destinations d'). ds_destination_id r' = ds_destination_id r \<and> ds_backup_mode r' \<noteq> None))"
    using swap one by (intro exI [of _ ?d] exI [of _ "destination_session_row.truncate r"]) (simp add: comp_def)
qed

definition ex_destination :: "string \<Rightarrow> bool \<Rightarrow> string option \<Rightarrow> destination_row" where
  "ex_destination i p m = \<lparr>ds_destination_id = i, ds_label = i, ds_destination_type = ''cloud'', ds_rclone_remote_name = i,
     ds_rclone_config_blob = [], ds_bucket = [], ds_path_prefix = [], ds_is_primary = p, ds_backup_mode = m,
     ds_device_id = None, ds_created_at = 0\<rparr>"

theorem swap_primary_spec_witness:
  "\<exists>d' s. swap_primary_destination ''b''
       (ex_base\<lparr>t_destinations := [ex_destination ''a'' True None, ex_destination ''b'' False (Some ''mirror'')]\<rparr>) = Inr d' \<and>
     get_primary_destination d' = Inr (Some s) \<and> ds_destination_id s = ''b''"
proof -
  let ?d = "ex_base\<lparr>t_destinations := [ex_destination ''a'' True None, ex_destination ''b'' False (Some ''mirror'')]\<rparr>"
  have "db_inv (ex_env []) ?d"
    by (rule db_inv_queues [OF ex_base_inv])
      (use ex_base_inv in \<open>simp_all add: db_inv_def queues_inv_def dest_inv_def destination_check_def ex_destination_def\<close>)
  from swap_primary_spec [OF this, of "''b''"] show ?thesis by (auto simp: ex_destination_def)
qed

text \<open>
  Storing a Google Drive configuration does not replace the one already stored: unless the fresh
  row identifier collides with an existing one, \<open>get_gdrive_sharing_config\<close> keeps returning the old
  configuration, and the table grows by a row.
\<close>

theorem gdrive_upsert_keeps_old:
  assumes "upsert_gdrive_sharing_config E t dest new now d = Inr d'"
    and "get_gdrive_sharing_config d = Inr (Some old)"
    and "uuid_hyphenated E (draw_uuid E t 0) \<notin> sg_config_id ` set (t_sharing_config d)"
  shows "get_gdrive_sharing_config d' = Inr (Some old) \<and>
         length (t_sharing_config d') = Suc (length (t_sharing_config d))"
proof -
  let ?i = "uuid_hyphenated E (draw_uuid E t 0)"
  have f: "filter (\<lambda>r. sg_config_id r \<noteq> ?i) (t_sharing_config d) = t_sharing_config d"
    using assms(3) by (force simp: filter_id_conv)
  show ?thesis
    using assms(1,2) by (auto simp: upsert_gdrive_sharing_config_def get_gdrive_sharing_config_def Let_def f
        find_append split: if_splits)
qed

theorem gdrive_upsert_keeps_old_witness:
  "\<exists>d1 d2. upsert_gdrive_sharing_config (ex_env []) 0 None ''old'' 0 ex_base = Inr d1 \<and>
     upsert_gdrive_sharing_config (ex_env []) 1 None ''new'' 1 d1 = Inr d2 \<and>
     get_gdrive_sharing_config d2 = Inr (Some ''old'')"
proof -
  have ids: "draw_uuid (ex_env []) 0 0 = 100" "draw_uuid (ex_env []) 1 0 = 110" by (simp_all add: ex_env_def)
  have j: "json_valid (ex_env []) x" for x by (simp add: ex_env_def)
  obtain d1 where d1: "upsert_gdrive_sharing_config (ex_env []) 0 None ''old'' 0 ex_base = Inr d1"
    by (simp add: upsert_gdrive_sharing_config_def j Let_def)
  then have rows: "t_sharing_config d1 = [\<lparr>sg_config_id = uuid_hyphenated (ex_env []) 100, sg_destination_id = None,
      sg_provider = ''gdrive'', sg_config_json = ''old'', sg_created_at = 0, sg_updated_at = 0\<rparr>]"
    by (auto simp: upsert_gdrive_sharing_config_def j ids ex_base_def empty_db_def Let_def)
  obtain d2 where d2: "upsert_gdrive_sharing_config (ex_env []) 1 None ''new'' 1 d1 = Inr d2"
    by (simp add: upsert_gdrive_sharing_config_def j Let_def)
  have "get_gdrive_sharing_config d1 = Inr (Some ''old'')" by (simp add: get_gdrive_sharing_config_def rows)
  from gdrive_upsert_keeps_old [OF d2 this] d1 d2 show ?thesis
    by (simp add: rows ids [unfolded One_nat_def] uuid_hyphenated_inj [OF ex_uuid_laws])
qed

end
