(* ===== verification/Metadata_Store.thy ===== *)
theory Metadata_Store
  imports Storage_Types
begin

text \<open>
  \<open>storage/metadata_store.rs\<close>: the trait \<open>MetadataStore\<close> as a record of functions over an arbitrary store
  type, so that the pipeline and the vault operations are defined once for every implementation, as
  they are in the source over \<open>dyn MetadataStore\<close>.  \<open>query\<close> and \<open>mutate\<close> are a call of a method by the
  program: one effect, which may fail with a database error and then leaves the store as it was.
\<close>

section \<open>The trait\<close>

text \<open>Methods that only read take the store; the others also take the tick at which they run.\<close>

record 's metadata_store =
  ms_insert_node :: "node \<Rightarrow> nat \<Rightarrow> 's \<Rightarrow> storage_error + 's"
  ms_insert_chunks :: "chunk_record list \<Rightarrow> nat \<Rightarrow> 's \<Rightarrow> storage_error + 's"
  ms_insert_file_with_chunks :: "node \<Rightarrow> chunk_record list \<Rightarrow> nat \<Rightarrow> 's \<Rightarrow> storage_error + 's"
  ms_get_node :: "uuid \<Rightarrow> 's \<Rightarrow> storage_error + node"
  ms_list_children :: "uuid \<Rightarrow> 's \<Rightarrow> storage_error + node list"
  ms_get_chunks :: "uuid \<Rightarrow> 's \<Rightarrow> storage_error + chunk_record list"
  ms_rename_node :: "uuid \<Rightarrow> string \<Rightarrow> i64 \<Rightarrow> nat \<Rightarrow> 's \<Rightarrow> storage_error + 's"
  ms_move_node :: "uuid \<Rightarrow> uuid option \<Rightarrow> i64 \<Rightarrow> nat \<Rightarrow> 's \<Rightarrow> storage_error + 's"
  ms_delete_node :: "uuid \<Rightarrow> nat \<Rightarrow> 's \<Rightarrow> storage_error + 's"
  ms_list_pending_deletions :: "usize \<Rightarrow> 's \<Rightarrow> storage_error + string list"
  ms_mark_deletion_complete :: "string \<Rightarrow> nat \<Rightarrow> 's \<Rightarrow> storage_error + 's"
  ms_get_meta :: "string \<Rightarrow> 's \<Rightarrow> storage_error + string option"
  ms_set_meta :: "string \<Rightarrow> string \<Rightarrow> nat \<Rightarrow> 's \<Rightarrow> storage_error + 's"
  ms_increment_snapshot_counter :: "'s \<Rightarrow> storage_error + (u64 \<times> 's)"
  ms_insert_file_node_only :: "node \<Rightarrow> nat \<Rightarrow> 's \<Rightarrow> storage_error + 's"
  ms_insert_file_node_and_stage_epoch_entry :: "node \<Rightarrow> bytes \<Rightarrow> nat \<Rightarrow> 's \<Rightarrow> storage_error + 's"
  ms_stage_epoch_entry :: "uuid \<Rightarrow> bytes \<Rightarrow> nat \<Rightarrow> 's \<Rightarrow> storage_error + 's"
  ms_get_epoch_buffer_total_bytes :: "'s \<Rightarrow> storage_error + u64"
  ms_get_epoch_buffer_entries :: "'s \<Rightarrow> storage_error + epoch_buffer_entry list"
  ms_get_epoch_buffer_node_ids :: "'s \<Rightarrow> storage_error + uuid list"
  ms_get_epoch_buffer_count :: "'s \<Rightarrow> storage_error + u32"
  ms_commit_epoch_flush :: "epoch_blob_record \<Rightarrow> extent list \<Rightarrow> nat \<Rightarrow> 's \<Rightarrow> storage_error + 's"
  ms_get_epoch_blob :: "uuid \<Rightarrow> 's \<Rightarrow> storage_error + epoch_blob_record"

definition query :: "env \<Rightarrow> ('s \<Rightarrow> storage_error + 'a) \<Rightarrow> ('s, storage_error, 'a) prog" where
  "query E f w =
     (case os_fault E (tick w) of
        None \<Rightarrow> (f (store w), next_tick w)
      | Some (m, _) \<Rightarrow> (Inl (Database m), next_tick w))"

definition mutate :: "env \<Rightarrow> (nat \<Rightarrow> 's \<Rightarrow> storage_error + 's) \<Rightarrow> ('s, storage_error, unit) prog" where
  "mutate E f w =
     (case os_fault E (tick w) of
        Some (m, _) \<Rightarrow> (Inl (Database m), next_tick w)
      | None \<Rightarrow>
          (case f (tick w) (store w) of
             Inl e \<Rightarrow> (Inl e, next_tick w)
           | Inr s \<Rightarrow> (Inr (), (next_tick w)\<lparr>store := s\<rparr>)))"

text \<open>\<open>get_epoch_buffer_count\<close> has a default body in the trait.\<close>

definition default_get_epoch_buffer_count :: "('s \<Rightarrow> storage_error + uuid list) \<Rightarrow> 's \<Rightarrow> storage_error + u32" where
  "default_get_epoch_buffer_count node_ids s = rbind (node_ids s) (\<lambda>ids. Inr (length ids mod 2 ^ 32))"

definition read_chunk_size_bytes :: "env \<Rightarrow> 's metadata_store \<Rightarrow> ('s, storage_error, u64) prog" where
  "read_chunk_size_bytes E MS =
     bind (query E (ms_get_meta MS ''chunk_size_bytes'')) (\<lambda>v.
     bind (lift (ok_or (Database ''missing manifest_meta key: chunk_size_bytes'') v)) (\<lambda>chunk_size_text.
     lift (parse_chunk_size_bytes chunk_size_text)))"


section \<open>Calls\<close>

lemma query_ok: "os_fault E (tick w) = None \<Longrightarrow> query E f w = (f (store w), next_tick w)"
  by (simp add: query_def)

lemma mutate_ok:
  "os_fault E (tick w) = None \<Longrightarrow> f (tick w) (store w) = Inr s \<Longrightarrow> mutate E f w = (Inr (), (next_tick w)\<lparr>store := s\<rparr>)"
  by (simp add: mutate_def)

lemma touches_query: "query E f w = (r, w') \<Longrightarrow> touches {} w w'"
  by (auto simp: query_def split: option.splits)

lemma mutate_Inr:
  "mutate E f w = (Inr u, w') \<Longrightarrow> \<exists>s. f (tick w) (store w) = Inr s \<and> w' = (next_tick w)\<lparr>store := s\<rparr>"
  by (auto simp: mutate_def split: option.splits sum.splits)

lemma mutate_Inl: "mutate E f w = (Inl e, w') \<Longrightarrow> w' = next_tick w"
  by (auto simp: mutate_def split: option.splits sum.splits)

text \<open>The store says that the chunk size is \<open>cs\<close>.\<close>

definition chunk_size_is :: "'s metadata_store \<Rightarrow> 's \<Rightarrow> u64 \<Rightarrow> bool" where
  "chunk_size_is MS s cs \<longleftrightarrow>
     (case ms_get_meta MS ''chunk_size_bytes'' s of
        Inr (Some v) \<Rightarrow> parse_chunk_size_bytes v = Inr cs
      | _ \<Rightarrow> False)"

lemma chunk_size_range: "chunk_size_is MS s cs \<Longrightarrow> 131072 \<le> cs \<and> cs \<le> 67108864"
  by (auto simp: chunk_size_is_def parse_chunk_size_range split: sum.splits option.splits)

lemma read_chunk_size_bytes_ok:
  "os_fault E (tick w) = None \<Longrightarrow> chunk_size_is MS (store w) cs \<Longrightarrow>
     read_chunk_size_bytes E MS w = (Inr cs, next_tick w)"
  by (auto simp: read_chunk_size_bytes_def bind_def query_def lift_def chunk_size_is_def
      split: sum.splits option.splits)

lemma read_chunk_size_bytes_Inr:
  "read_chunk_size_bytes E MS w = (Inr cs, w') \<Longrightarrow> chunk_size_is MS (store w) cs"
  by (auto simp: read_chunk_size_bytes_def bind_Inr query_def lift_def chunk_size_is_def result_simps
      split: option.splits)

lemma read_chunk_size_bytes_world: "read_chunk_size_bytes E MS w = (r, w') \<Longrightarrow> w' = next_tick w"
  by (auto simp: read_chunk_size_bytes_def bind_def query_def lift_def split: option.splits sum.splits)

end
