(* ===== verification/Metadata_Laws.thy ===== *)
theory Metadata_Laws
  imports Metadata_Store "HOL-Library.Multiset"
begin

text \<open>
  What the pipeline and the vault operations rely on from an implementation of \<open>MetadataStore\<close>, as
  locales: abstraction functions from the store to maps of nodes, chunk lists, epoch blobs and the
  epoch buffer, an invariant, and the laws of the operations.  \<open>settings_store\<close> is the part the
  pipeline needs, \<open>manifest_store\<close> adds the contents of the manifest.
\<close>

text \<open>A chunk row of its own blob, not an extent of an epoch blob.\<close>

definition standalone_chunk :: "chunk_record \<Rightarrow> bool" where
  "standalone_chunk c \<longleftrightarrow> ck_epoch_blob_id c = None \<and> ck_byte_offset c = None \<and> ck_byte_length c = None"

text \<open>Chunk \<open>c\<close> is the extent \<open>(off, len)\<close> of epoch blob \<open>e\<close>.\<close>

definition extent_chunk :: "uuid \<Rightarrow> u64 \<Rightarrow> u64 \<Rightarrow> chunk_record \<Rightarrow> bool" where
  "extent_chunk e off len c \<longleftrightarrow>
     ck_epoch_blob_id c = Some e \<and> ck_byte_offset c = Some off \<and> ck_byte_length c = Some len"

locale settings_store =
  fixes MS :: "'s metadata_store"
    and inv :: "'s \<Rightarrow> bool"
    and meta_of :: "'s \<Rightarrow> string \<Rightarrow> string option"
  assumes get_meta: "inv s \<Longrightarrow> ms_get_meta MS k s = Inr (meta_of s k)"
    and settings_present: "inv s \<Longrightarrow> \<exists>v cs. meta_of s ''chunk_size_bytes'' = Some v \<and> parse_chunk_size_bytes v = Inr cs"
    and epoch_flag_present: "inv s \<Longrightarrow> meta_of s ''epoch_buffer_enabled'' \<in> {Some ''true'', Some ''false''}"
begin

text \<open>The chunk size of a vault is always readable.\<close>

lemma chunk_size_readable: "inv s \<Longrightarrow> \<exists>cs. chunk_size_is MS s cs"
  using settings_present [of s] by (auto simp: chunk_size_is_def get_meta)

lemma chunk_size_cong: "inv s \<Longrightarrow> inv s' \<Longrightarrow> meta_of s' = meta_of s \<Longrightarrow> chunk_size_is MS s' cs = chunk_size_is MS s cs"
  by (simp add: chunk_size_is_def get_meta)

end

locale manifest_store = settings_store MS inv meta_of
  for MS :: "'s metadata_store" and inv :: "'s \<Rightarrow> bool" and meta_of :: "'s \<Rightarrow> string \<Rightarrow> string option" +
  fixes node_of :: "'s \<Rightarrow> uuid \<Rightarrow> node option"
    and chunk_list :: "'s \<Rightarrow> uuid \<Rightarrow> chunk_record list"
    and epoch_of :: "'s \<Rightarrow> uuid \<Rightarrow> epoch_blob_record option"
    and buffer_of :: "'s \<Rightarrow> epoch_buffer_entry list"
  assumes get_node: "inv s \<Longrightarrow> ms_get_node MS u s = ok_or NotFound (node_of s u)"
    and get_chunks: "inv s \<Longrightarrow> ms_get_chunks MS u s = Inr (chunk_list s u)"
    and get_epoch_blob: "inv s \<Longrightarrow> ms_get_epoch_blob MS u s = ok_or NotFound (epoch_of s u)"
    and get_buffer_entries: "inv s \<Longrightarrow> ms_get_epoch_buffer_entries MS s = Inr (buffer_of s)"
    and get_buffer_ids: "inv s \<Longrightarrow> ms_get_epoch_buffer_node_ids MS s = Inr (map ee_node_id (buffer_of s))"
    and buffer_sizes: "inv s \<Longrightarrow> b \<in> set (buffer_of s) \<Longrightarrow> ee_size_bytes b = length (ee_plaintext b)"
    and buffer_nodes: "inv s \<Longrightarrow> b \<in> set (buffer_of s) \<Longrightarrow> node_of s (ee_node_id b) \<noteq> None"
    and insert_file:
      "inv s \<Longrightarrow> typed_node n \<Longrightarrow> \<forall>c \<in> set cs. typed_chunk c \<and> standalone_chunk c \<Longrightarrow>
       ms_insert_file_with_chunks MS n cs t s = Inr s' \<Longrightarrow>
         inv s' \<and> meta_of s' = meta_of s \<and> epoch_of s' = epoch_of s \<and> buffer_of s' = buffer_of s \<and>
         node_of s (nd_node_id n) = None \<and> node_of s' = (node_of s)(nd_node_id n := Some n) \<and>
         chunk_list s' = (chunk_list s)(nd_node_id n := sort_key ck_chunk_index cs) \<and>
         distinct (map ck_blob_name cs)"
    and insert_staged:
      "inv s \<Longrightarrow> typed_node n \<Longrightarrow>
       ms_insert_file_node_and_stage_epoch_entry MS n bs t s = Inr s' \<Longrightarrow>
         inv s' \<and> meta_of s' = meta_of s \<and> epoch_of s' = epoch_of s \<and>
         node_of s (nd_node_id n) = None \<and> node_of s' = (node_of s)(nd_node_id n := Some n) \<and>
         chunk_list s' = chunk_list s \<and> chunk_list s (nd_node_id n) = [] \<and>
         (\<exists>b. ee_node_id b = nd_node_id n \<and> ee_plaintext b = bs \<and> ee_size_bytes b = length bs \<and>
            mset (buffer_of s') = add_mset b (mset (buffer_of s)))"
    and commit_flush:
      "inv s \<Longrightarrow> typed_epoch_blob rec \<Longrightarrow> typed_extents xs \<Longrightarrow>
       ms_commit_epoch_flush MS rec xs t s = Inr s' \<Longrightarrow>
         inv s' \<and> meta_of s' = meta_of s \<and> node_of s' = node_of s \<and> buffer_of s' = [] \<and>
         epoch_of s (eb_epoch_blob_id rec) = None \<and> epoch_of s' = (epoch_of s)(eb_epoch_blob_id rec := Some rec) \<and>
         (\<forall>u. u \<notin> fst ` set xs \<longrightarrow> chunk_list s' u = chunk_list s u) \<and>
         (\<forall>n off len. (n, 0, off, len) \<in> set xs \<longrightarrow> (\<forall>x \<in> set xs. fst (snd x) = 0) \<longrightarrow> chunk_list s n = [] \<longrightarrow>
            (\<exists>c. chunk_list s' n = [c] \<and> extent_chunk (eb_epoch_blob_id rec) off len c))"

end
