(* ===== verification/Sqlcipher_Store.thy ===== *)
theory Sqlcipher_Store
  imports Sqlcipher_Effects Metadata_Laws
begin

text \<open>
  \<open>impl MetadataStore for SqlCipherMetadataStore\<close>: the operations of \<open>Sqlcipher\<close> as an instance of the
  trait, and the proof that it obeys the laws of \<open>manifest_store\<close>.
\<close>

section \<open>The instance\<close>

definition sqlcipher_store :: "env \<Rightarrow> db metadata_store" where
  "sqlcipher_store E =
     \<lparr>ms_insert_node = (\<lambda>n t. insert_node E n),
      ms_insert_chunks = (\<lambda>cs t. insert_chunks E cs),
      ms_insert_file_with_chunks = (\<lambda>n cs t. insert_file_with_chunks E n cs),
      ms_get_node = get_node E,
      ms_list_children = list_children E,
      ms_get_chunks = get_chunks E,
      ms_rename_node = (\<lambda>u name m t. rename_node E u name m),
      ms_move_node = (\<lambda>u p m t. move_node E u p m),
      ms_delete_node = (\<lambda>u t. delete_node E t u),
      ms_list_pending_deletions = list_pending_deletions,
      ms_mark_deletion_complete = (\<lambda>b t. mark_deletion_complete b),
      ms_get_meta = get_meta,
      ms_set_meta = (\<lambda>k v t. set_meta k v),
      ms_increment_snapshot_counter = increment_snapshot_counter,
      ms_insert_file_node_only = (\<lambda>n t. insert_file_node_only E n),
      ms_insert_file_node_and_stage_epoch_entry = (\<lambda>n bs t. insert_file_node_and_stage_epoch_entry E t n bs),
      ms_stage_epoch_entry = (\<lambda>u bs t. stage_epoch_entry E t u bs),
      ms_get_epoch_buffer_total_bytes = get_epoch_buffer_total_bytes,
      ms_get_epoch_buffer_entries = get_epoch_buffer_entries E,
      ms_get_epoch_buffer_node_ids = get_epoch_buffer_node_ids E,
      ms_get_epoch_buffer_count = get_epoch_buffer_count,
      ms_commit_epoch_flush = (\<lambda>rec xs t. commit_epoch_flush E t rec xs),
      ms_get_epoch_blob = get_epoch_blob E\<rparr>"

lemma sqlcipher_store_sel [simp]:
  "ms_insert_file_with_chunks (sqlcipher_store E) n cs t d = insert_file_with_chunks E n cs d"
  "ms_get_node (sqlcipher_store E) = get_node E" "ms_get_chunks (sqlcipher_store E) = get_chunks E"
  "ms_list_children (sqlcipher_store E) = list_children E"
  "ms_get_meta (sqlcipher_store E) = get_meta" "ms_delete_node (sqlcipher_store E) u t d = delete_node E t u d"
  "ms_get_epoch_blob (sqlcipher_store E) = get_epoch_blob E"
  "ms_get_epoch_buffer_entries (sqlcipher_store E) = get_epoch_buffer_entries E"
  "ms_get_epoch_buffer_node_ids (sqlcipher_store E) = get_epoch_buffer_node_ids E"
  "ms_insert_file_node_and_stage_epoch_entry (sqlcipher_store E) n bs t d = insert_file_node_and_stage_epoch_entry E t n bs d"
  "ms_commit_epoch_flush (sqlcipher_store E) rec xs t d = commit_epoch_flush E t rec xs d"
  by (simp_all add: sqlcipher_store_def)


section \<open>Abstraction\<close>

definition store_inv :: "env \<Rightarrow> db \<Rightarrow> bool" where
  "store_inv E d \<longleftrightarrow> uuid_laws E \<and> db_inv E d"

definition db_meta :: "db \<Rightarrow> string \<Rightarrow> string option" where
  "db_meta d = map_of (t_meta d)"

definition db_node :: "env \<Rightarrow> db \<Rightarrow> uuid \<Rightarrow> node option" where
  "db_node E d u = (case get_node E u d of Inl _ \<Rightarrow> None | Inr n \<Rightarrow> Some n)"

definition db_chunks :: "env \<Rightarrow> db \<Rightarrow> uuid \<Rightarrow> chunk_record list" where
  "db_chunks E d u = (case get_chunks E u d of Inl _ \<Rightarrow> [] | Inr cs \<Rightarrow> cs)"

definition db_epoch :: "env \<Rightarrow> db \<Rightarrow> uuid \<Rightarrow> epoch_blob_record option" where
  "db_epoch E d u = (case get_epoch_blob E u d of Inl _ \<Rightarrow> None | Inr b \<Rightarrow> Some b)"

definition db_buffer :: "env \<Rightarrow> db \<Rightarrow> epoch_buffer_entry list" where
  "db_buffer E d = (case get_epoch_buffer_entries E d of Inl _ \<Rightarrow> [] | Inr bs \<Rightarrow> bs)"


section \<open>Reads\<close>

lemma store_invD: "store_inv E d \<Longrightarrow> uuid_laws E" "store_inv E d \<Longrightarrow> db_inv E d"
  by (simp_all add: store_inv_def)

lemma read_node_total:
  assumes "node_row_ok E r"
  shows "\<exists>n. read_node E r = Inr n"
proof -
  obtain u where u: "uuid_parse E (nr_node_id r) = Some u" using assms by (auto simp: node_row_ok_def elim: canonicalE)
  have p: "\<exists>p. transpose_opt (\<lambda>v. ok_or (conv_err E 1) (uuid_parse E v)) (nr_parent_id r) = Inr p"
    using assms by (cases "nr_parent_id r") (auto simp: node_row_ok_def elim: canonicalE)
  have t: "\<exists>t. node_type_try_from (nr_node_type r) = Inr t"
    using assms by (auto simp: node_row_ok_def node_type_try_from_def)
  have k: "transpose_opt (\<lambda>v. if length v = 72 then Inr v else Inl (conv_err E 7)) (nr_file_key_wrapped r) = Inr (nr_file_key_wrapped r)"
    using assms by (cases "nr_file_key_wrapped r") (auto simp: node_row_ok_def)
  have "0 \<le> nr_size_bytes r" using assms by (simp add: node_row_ok_def)
  then show ?thesis using u p t k by (auto simp: read_node_def width_simps)
qed

lemma sql_find_node_row: "db_inv E d \<Longrightarrow> sql_find_node i d = Some r \<Longrightarrow> node_row_ok E r"
  by (auto simp: sql_find_node_def find_Some_iff db_inv_def nodes_inv_def)

lemma get_node_inv: "store_inv E d \<Longrightarrow> get_node E u d = ok_or NotFound (db_node E d u)"
  using read_node_total [OF sql_find_node_row [of E d "uuid_hyphenated E u"]]
  by (cases "sql_find_node (uuid_hyphenated E u) d") (auto simp: store_inv_def db_node_def get_node_def)

lemma read_chunk_total:
  assumes "chunk_row_ok E r"
  shows "\<exists>c. read_chunk E (r\<lparr>cr_blob_name := Some b\<rparr>) = Inr c"
proof -
  obtain u where u: "uuid_parse E (cr_chunk_id r) = Some u" using assms by (auto simp: chunk_row_ok_def elim: canonicalE)
  obtain v where v: "uuid_parse E (cr_node_id r) = Some v" using assms by (auto simp: chunk_row_ok_def elim: canonicalE)
  have e: "\<exists>x. transpose_opt (\<lambda>v. ok_or (conv_err E 6) (uuid_parse E v)) (cr_epoch_blob_id r) = Inr x"
    using assms by (cases "cr_epoch_blob_id r") (auto simp: chunk_row_ok_def elim: canonicalE)
  have o: "\<exists>x. transpose_opt (\<lambda>v. ok_or (conv_err E 7) (u64_try_from_i64 v)) (cr_byte_offset r) = Inr x"
    using assms by (cases "cr_byte_offset r") (auto simp: chunk_row_ok_def width_simps)
  have l: "\<exists>x. transpose_opt (\<lambda>v. ok_or (conv_err E 8) (u64_try_from_i64 v)) (cr_byte_length r) = Inr x"
    using assms by (cases "cr_byte_length r") (auto simp: chunk_row_ok_def width_simps)
  show ?thesis using assms u v e o l by (auto simp: read_chunk_def chunk_row_ok_def width_simps)
qed

text \<open>The record \<open>get_chunks\<close> makes of a row.\<close>

definition chunk_rec :: "env \<Rightarrow> db \<Rightarrow> chunk_row \<Rightarrow> chunk_record" where
  "chunk_rec E d r = projr (read_chunk E (coalesce_blob d r))"

lemma coalesce_total:
  assumes "db_inv E d" "r \<in> set (t_chunks d)"
  shows "\<exists>b. coalesce_blob d r = r\<lparr>cr_blob_name := Some b\<rparr>"
proof (cases "cr_blob_name r")
  case None
  have ok: "chunk_row_ok E r" "pred_option (\<lambda>e. e \<in> er_epoch_blob_id ` set (t_epoch_blobs d)) (cr_epoch_blob_id r)"
    using assms by (auto simp: db_inv_def chunks_inv_def)
  then obtain e where e: "cr_epoch_blob_id r = Some e" "e \<in> er_epoch_blob_id ` set (t_epoch_blobs d)"
    using None by (cases "cr_epoch_blob_id r") (auto simp: chunk_row_ok_def chunk_check_def)
  then obtain x where "find_epoch_blob e d = Some x"
    using find_key_None [of er_epoch_blob_id e "t_epoch_blobs d"] by (auto simp: find_epoch_blob_def)
  then have "coalesce_blob d r = r\<lparr>cr_blob_name := Some (er_blob_name x)\<rparr>" using None e by (simp add: coalesce_blob_def)
  then show ?thesis by blast
next
  case (Some b)
  then have "coalesce_blob d r = r\<lparr>cr_blob_name := Some b\<rparr>" by (cases r) (simp add: coalesce_blob_def)
  then show ?thesis by blast
qed

lemma read_coalesced:
  assumes "db_inv E d" "r \<in> set (t_chunks d)"
  shows "read_chunk E (coalesce_blob d r) = Inr (chunk_rec E d r)"
proof -
  have "chunk_row_ok E r" using assms by (auto simp: db_inv_def chunks_inv_def)
  then obtain c where "read_chunk E (coalesce_blob d r) = Inr c"
    using coalesce_total [OF assms] read_chunk_total by metis
  then show ?thesis by (simp add: chunk_rec_def)
qed

lemma insort_key_map: "insort_key f (g x) (map g xs) = map g (insort_key (\<lambda>x. f (g x)) x xs)"
  by (induction xs) auto

lemma sort_key_map: "sort_key f (map g xs) = map g (sort_key (\<lambda>x. f (g x)) xs)"
  by (induction xs) (simp_all add: insort_key_map)

lemma insort_key_int: "insort_key (\<lambda>x. int (f x)) x xs = insort_key f x xs"
  by (induction xs) auto

lemma sort_key_int: "sort_key (\<lambda>x. int (f x)) xs = sort_key f xs"
  by (induction xs) (simp_all add: insort_key_int)

lemma coalesce_index [simp]: "cr_chunk_index (coalesce_blob d r) = cr_chunk_index r"
  by (simp add: coalesce_blob_def split: option.split)

abbreviation rows_of :: "env \<Rightarrow> db \<Rightarrow> uuid \<Rightarrow> chunk_row list" where
  "rows_of E d u \<equiv> filter (\<lambda>c. cr_node_id c = uuid_hyphenated E u) (t_chunks d)"

lemma get_chunks_rows:
  assumes "db_inv E d"
  shows "get_chunks E u d = Inr (map (chunk_rec E d) (sort_key cr_chunk_index (rows_of E d u)))"
proof -
  have "rmap (\<lambda>r. map_err from_rusqlite (read_chunk E r)) (map (coalesce_blob d) xs) = Inr (map (chunk_rec E d) xs)"
    if "set xs \<subseteq> set (t_chunks d)" for xs
    using that by (induction xs) (simp_all add: read_coalesced [OF assms])
  moreover have "set (sort_key cr_chunk_index (rows_of E d u)) \<subseteq> set (t_chunks d)" by auto
  ultimately show ?thesis by (simp add: get_chunks_def sort_key_map)
qed

lemma db_chunks_rows: "db_inv E d \<Longrightarrow> db_chunks E d u = map (chunk_rec E d) (sort_key cr_chunk_index (rows_of E d u))"
  by (simp add: db_chunks_def get_chunks_rows)

lemma read_epoch_blob_total: "epoch_row_ok E r \<Longrightarrow> \<exists>b. read_epoch_blob E m r = Inr b"
  by (auto simp: read_epoch_blob_def epoch_row_ok_def width_simps elim!: canonicalE)

lemma get_epoch_blob_inv:
  assumes "store_inv E d"
  shows "get_epoch_blob E u d = ok_or NotFound (db_epoch E d u)"
proof (cases "find_epoch_blob (uuid_hyphenated E u) d")
  case (Some r)
  then have "epoch_row_ok E r" using assms
    by (auto simp: store_inv_def db_inv_def epochs_inv_def find_epoch_blob_def find_Some_iff)
  then obtain b where "read_epoch_blob E ''invalid epoch_blob_id uuid: '' r = Inr b" using read_epoch_blob_total by blast
  with Some show ?thesis by (simp add: db_epoch_def get_epoch_blob_def)
qed (simp add: db_epoch_def get_epoch_blob_def)

text \<open>The entry read from a buffer row.\<close>

definition buffer_rec :: "env \<Rightarrow> buffer_row \<Rightarrow> epoch_buffer_entry" where
  "buffer_rec E r = projr (read_buffer_row E r)"

lemma read_buffer_row_inv:
  assumes "buffer_row_ok E r"
  shows "read_buffer_row E r = Inr (buffer_rec E r)" "uuid_parse E (br_node_id r) = Some (ee_node_id (buffer_rec E r))"
    "ee_plaintext (buffer_rec E r) = br_plaintext r" "ee_size_bytes (buffer_rec E r) = length (br_plaintext r)"
  using assms by (auto simp: buffer_row_ok_def read_buffer_row_def buffer_rec_def width_simps elim!: canonicalE)

lemma buffer_rows_ok: "db_inv E d \<Longrightarrow> r \<in> set (t_epoch_buffer d) \<Longrightarrow> buffer_row_ok E r"
  by (auto simp: db_inv_def buffer_inv_def)

lemma get_buffer_rows:
  assumes "db_inv E d"
  shows "get_epoch_buffer_entries E d = Inr (map (buffer_rec E) (sort_key br_queued_at (t_epoch_buffer d)))"
    and "get_epoch_buffer_node_ids E d = Inr (map (\<lambda>r. ee_node_id (buffer_rec E r)) (sort_key br_queued_at (t_epoch_buffer d)))"
  unfolding get_epoch_buffer_entries_def get_epoch_buffer_node_ids_def
  by (rule rmap_all_ok; use read_buffer_row_inv [OF buffer_rows_ok [OF assms]] in simp)+

lemma db_buffer_rows: "db_inv E d \<Longrightarrow> db_buffer E d = map (buffer_rec E) (sort_key br_queued_at (t_epoch_buffer d))"
  by (simp add: db_buffer_def get_buffer_rows)

lemma buffer_node_known:
  assumes "store_inv E d" "b \<in> set (db_buffer E d)"
  shows "db_node E d (ee_node_id b) \<noteq> None"
proof -
  note u = store_invD(1) [OF assms(1)] and i = store_invD(2) [OF assms(1)]
  obtain r where r: "r \<in> set (t_epoch_buffer d)" "b = buffer_rec E r" using assms(2) by (auto simp: db_buffer_rows [OF i])
  have c: "canonical E (br_node_id r)" "br_node_id r \<in> set (node_ids d)"
    using i r(1) by (auto simp: db_inv_def buffer_inv_def buffer_row_ok_def)
  then have "uuid_hyphenated E (ee_node_id b) = br_node_id r"
    using read_buffer_row_inv(2) [OF buffer_rows_ok [OF i r(1)]] r(2) u by (auto elim!: canonicalE)
  then obtain x where x: "sql_find_node (uuid_hyphenated E (ee_node_id b)) d = Some x"
    using c(2) find_key_None [of nr_node_id "br_node_id r" "t_nodes d"]
    by (cases "sql_find_node (br_node_id r) d") (auto simp: sql_find_node_def node_ids_def)
  then obtain n where "read_node E x = Inr n" using read_node_total [OF sql_find_node_row [OF i x]] by blast
  with x show ?thesis by (simp add: db_node_def get_node_def)
qed


section \<open>Insertions\<close>

lemma chunk_rec_cong: "t_epoch_blobs d' = t_epoch_blobs d \<Longrightarrow> chunk_rec E d' r = chunk_rec E d r"
  by (simp add: chunk_rec_def coalesce_blob_def find_epoch_blob_def split: option.split)

lemma node_after_insert:
  assumes "uuid_laws E" "insert_node_tx E n d = Inr d1" "typed_node n" "t_nodes d' = t_nodes d1"
  shows "db_node E d (nd_node_id n) = None \<and> db_node E d' = (db_node E d)(nd_node_id n := Some n)"
proof (intro conjI ext)
  show "db_node E d (nd_node_id n) = None"
    using insert_node_tx_rows(2) [OF assms(2)] find_key_None [of nr_node_id "uuid_hyphenated E (nd_node_id n)" "t_nodes d"]
    by (simp add: db_node_def get_node_def sql_find_node_def node_ids_def)
  fix u
  note rows = insert_node_tx_rows [OF assms(2)]
  let ?r = "node_row_of E n (int (nd_size_bytes n))"
  have t: "t_nodes d' = t_nodes d @ [?r]" using rows(1) assms(4) by simp
  show "db_node E d' u = ((db_node E d)(nd_node_id n := Some n)) u"
  proof (cases "u = nd_node_id n")
    case True
    have "find (\<lambda>r. nr_node_id r = uuid_hyphenated E u) (t_nodes d) = None"
      using rows(2) True by (simp add: find_key_None node_ids_def)
    then have "sql_find_node (uuid_hyphenated E u) d' = Some ?r"
      using True by (simp add: sql_find_node_def t find_append node_row_of_def)
    then show ?thesis using True read_node_of_row [OF assms(1,3)] by (simp add: db_node_def get_node_def)
  next
    case False
    then have "nr_node_id ?r \<noteq> uuid_hyphenated E u" using uuid_hyphenated_inj [OF assms(1)] by (simp add: node_row_of_def)
    then have "sql_find_node (uuid_hyphenated E u) d' = sql_find_node (uuid_hyphenated E u) d"
      by (simp add: sql_find_node_def t find_append split: option.split)
    then show ?thesis using False by (simp add: db_node_def get_node_def)
  qed
qed

lemma rows_of_fresh:
  assumes "db_inv E d" "uuid_hyphenated E u \<notin> set (node_ids d)"
  shows "rows_of E d u = []"
  using assms by (auto simp: db_inv_def chunks_inv_def filter_empty_conv)

lemma sqlcipher_insert_file:
  assumes "store_inv E d" "typed_node n" "\<forall>c \<in> set cs. typed_chunk c \<and> standalone_chunk c"
    and ins: "insert_file_with_chunks E n cs d = Inr d'"
  shows "store_inv E d' \<and> db_meta d' = db_meta d \<and> db_epoch E d' = db_epoch E d \<and> db_buffer E d' = db_buffer E d \<and>
     db_node E d (nd_node_id n) = None \<and> db_node E d' = (db_node E d)(nd_node_id n := Some n) \<and>
     db_chunks E d' = (db_chunks E d)(nd_node_id n := sort_key ck_chunk_index cs) \<and> distinct (map ck_blob_name cs)"
proof -
  note u = store_invD(1) [OF assms(1)] and i = store_invD(2) [OF assms(1)]
  note eff = insert_file_with_chunks_effect [OF ins]
  have i': "db_inv E d'" by (rule insert_file_with_chunks_inv [OF u ins assms(2) _ i]) (use assms(3) in blast)
  obtain d1 where n: "insert_node_tx E n d = Inr d1" using ins by (auto simp: insert_file_with_chunks_eq_Inr)
  note rows = insert_node_tx_rows [OF n]
  have node: "db_node E d (nd_node_id n) = None \<and> db_node E d' = (db_node E d)(nd_node_id n := Some n)"
    by (rule node_after_insert [OF u n assms(2)]) (simp add: eff(1) rows(1))
  have same: "t_epoch_blobs d' = t_epoch_blobs d" "t_meta d' = t_meta d" "t_epoch_buffer d' = t_epoch_buffer d"
    and ch: "t_chunks d' = t_chunks d @ map (chunk_row_of E) cs" by (simp_all add: eff(1))
  have rt: "chunk_rec E d' (chunk_row_of E c) = c" if "c \<in> set cs" for c
    using read_chunk_of_row [OF u, of c] assms(3) that
    by (simp add: chunk_rec_def coalesce_blob_def standalone_row_def standalone_chunk_def)
  have "db_chunks E d' v = ((db_chunks E d)(nd_node_id n := sort_key ck_chunk_index cs)) v" for v
  proof (cases "v = nd_node_id n")
    case True
    have "rows_of E d v = []" using rows_of_fresh [OF i] rows(2) True by simp
    then have "rows_of E d' v = map (chunk_row_of E) cs"
      using eff(2) True by (auto simp: ch standalone_row_def filter_empty_conv intro!: filter_True)
    then have "db_chunks E d' v = map (\<lambda>c. chunk_rec E d' (chunk_row_of E c)) (sort_key ck_chunk_index cs)"
      by (simp add: db_chunks_rows [OF i'] sort_key_map standalone_row_def sort_key_int comp_def)
    also have "\<dots> = sort_key ck_chunk_index cs" by (rule map_idI) (simp add: rt)
    finally show ?thesis using True by simp
  next
    case False
    then have "filter (\<lambda>c. cr_node_id c = uuid_hyphenated E v) (map (chunk_row_of E) cs) = []"
      using eff(2) uuid_hyphenated_inj [OF u] by (auto simp: filter_empty_conv standalone_row_def)
    then show ?thesis using False
      by (simp add: db_chunks_rows [OF i'] db_chunks_rows [OF i] ch chunk_rec_cong [OF same(1)])
  qed
  moreover have "distinct (map ck_blob_name cs)"
  proof -
    have "distinct (List.map_filter cr_blob_name (t_chunks d @ map (chunk_row_of E) cs))"
      using i' ch by (simp add: db_inv_def chunks_inv_def)
    moreover have "List.map_filter cr_blob_name (map (chunk_row_of E) cs) = map ck_blob_name cs"
      by (induction cs) (simp_all add: map_filter_simps standalone_row_def)
    ultimately show ?thesis by simp
  qed
  moreover have "db_epoch E d' = db_epoch E d" "db_meta d' = db_meta d" "db_buffer E d' = db_buffer E d"
    by (auto simp: db_epoch_def get_epoch_blob_def find_epoch_blob_def same db_meta_def db_buffer_rows [OF i] db_buffer_rows [OF i'])
  ultimately show ?thesis using node u i' by (auto simp: store_inv_def)
qed

lemma sqlcipher_insert_staged:
  assumes "store_inv E d" "typed_node n" and ins: "insert_file_node_and_stage_epoch_entry E t n bs d = Inr d'"
  shows "store_inv E d' \<and> db_meta d' = db_meta d \<and> db_epoch E d' = db_epoch E d \<and>
     db_node E d (nd_node_id n) = None \<and> db_node E d' = (db_node E d)(nd_node_id n := Some n) \<and> db_chunks E d' = db_chunks E d \<and> db_chunks E d (nd_node_id n) = [] \<and>
     (\<exists>b. ee_node_id b = nd_node_id n \<and> ee_plaintext b = bs \<and> ee_size_bytes b = length bs \<and>
        mset (db_buffer E d') = add_mset b (mset (db_buffer E d)))"
proof -
  note u = store_invD(1) [OF assms(1)] and i = store_invD(2) [OF assms(1)]
  obtain d1 where n: "insert_node_tx E n d = Inr d1" and st: "stage_epoch_entry E t (nd_node_id n) bs d1 = Inr d'"
    using ins by (auto simp: insert_file_node_and_stage_epoch_entry_def result_simps)
  note rows = insert_node_tx_rows [OF n] and eff = stage_epoch_entry_effect [OF st]
  have i1: "db_inv E d1" by (rule insert_node_tx_inv [OF u n assms(2) i])
  have i': "db_inv E d'" by (rule stage_epoch_entry_inv [OF u st i1])
  have node: "db_node E d (nd_node_id n) = None \<and> db_node E d' = (db_node E d)(nd_node_id n := Some n)"
    by (rule node_after_insert [OF u n assms(2)]) (simp add: eff)
  have same: "t_epoch_blobs d' = t_epoch_blobs d" "t_meta d' = t_meta d" "t_chunks d' = t_chunks d"
    and buf: "t_epoch_buffer d' = t_epoch_buffer d @ [staged_row E t (nd_node_id n) bs]"
    by (simp_all add: eff rows(1))
  have "db_chunks E d' = db_chunks E d"
    by (auto simp: db_chunks_rows [OF i] db_chunks_rows [OF i'] same chunk_rec_cong [OF same(1)])
  moreover have "db_chunks E d (nd_node_id n) = []"
    using rows_of_fresh [OF i rows(2)] by (simp add: db_chunks_rows [OF i])
  moreover have "mset (db_buffer E d') = add_mset (buffer_rec E (staged_row E t (nd_node_id n) bs)) (mset (db_buffer E d))"
    by (simp add: db_buffer_rows [OF i] db_buffer_rows [OF i'] buf)
  moreover have "ee_node_id (buffer_rec E (staged_row E t (nd_node_id n) bs)) = nd_node_id n"
      "ee_plaintext (buffer_rec E (staged_row E t (nd_node_id n) bs)) = bs"
      "ee_size_bytes (buffer_rec E (staged_row E t (nd_node_id n) bs)) = length bs"
    by (simp_all add: buffer_rec_def read_buffer_row_def staged_row_def uuid_lawsD(1) [OF u] width_simps)
  moreover have "db_epoch E d' = db_epoch E d" "db_meta d' = db_meta d"
    by (auto simp: db_epoch_def get_epoch_blob_def find_epoch_blob_def same db_meta_def)
  ultimately show ?thesis using node u i' by (auto simp: store_inv_def)
qed

section \<open>Flush\<close>

lemma chunk_rec_epoch_append:
  assumes "db_inv E d" "r \<in> set (t_chunks d)" "t_epoch_blobs d' = t_epoch_blobs d @ es"
  shows "chunk_rec E d' r = chunk_rec E d r"
proof -
  have "find_epoch_blob e d' = find_epoch_blob e d" if "cr_epoch_blob_id r = Some e" for e
  proof -
    have "e \<in> er_epoch_blob_id ` set (t_epoch_blobs d)"
      using assms(1,2) that by (force simp: db_inv_def chunks_inv_def)
    then have "find_epoch_blob e d \<noteq> None" by (simp add: find_epoch_blob_def find_key_None)
    then show ?thesis by (auto simp: find_epoch_blob_def assms(3) find_append)
  qed
  then have "coalesce_blob d' r = coalesce_blob d r"
    by (cases "cr_epoch_blob_id r") (simp_all add: coalesce_blob_def split: option.split)
  then show ?thesis by (simp add: chunk_rec_def)
qed

lemma epoch_after_flush:
  assumes "uuid_laws E" "typed_epoch_blob rec" "t_epoch_blobs d' = t_epoch_blobs d @ [epoch_row E rec (int (eb_size_padded rec))]"
    and new: "uuid_hyphenated E (eb_epoch_blob_id rec) \<notin> er_epoch_blob_id ` set (t_epoch_blobs d)"
  shows "db_epoch E d' = (db_epoch E d)(eb_epoch_blob_id rec := Some rec)" "db_epoch E d (eb_epoch_blob_id rec) = None"
proof -
  let ?r = "epoch_row E rec (int (eb_size_padded rec))"
  have r: "read_epoch_blob E m ?r = Inr rec" for m
    using assms(2) by (cases rec) (simp add: read_epoch_blob_def epoch_row_def typed_epoch_blob_def uuid_lawsD(1) [OF assms(1)] u64_try_from_i64_def)
  have old: "find_epoch_blob (uuid_hyphenated E (eb_epoch_blob_id rec)) d = None"
    using new by (simp add: find_epoch_blob_def find_key_None)
  then show "db_epoch E d (eb_epoch_blob_id rec) = None" by (simp add: db_epoch_def get_epoch_blob_def)
  have "db_epoch E d' u = ((db_epoch E d)(eb_epoch_blob_id rec := Some rec)) u" for u
  proof (cases "u = eb_epoch_blob_id rec")
    case True
    with old have "find_epoch_blob (uuid_hyphenated E u) d' = Some ?r"
      by (simp add: find_epoch_blob_def assms(3) find_append) (simp add: epoch_row_def)
    then show ?thesis using True r by (simp add: db_epoch_def get_epoch_blob_def)
  next
    case False
    then have "er_epoch_blob_id ?r \<noteq> uuid_hyphenated E u" using uuid_hyphenated_inj [OF assms(1)] by (simp add: epoch_row_def)
    then have "find_epoch_blob (uuid_hyphenated E u) d' = find_epoch_blob (uuid_hyphenated E u) d"
      by (simp add: find_epoch_blob_def assms(3) find_append split: option.split)
    then show ?thesis using False by (simp add: db_epoch_def get_epoch_blob_def)
  qed
  then show "db_epoch E d' = (db_epoch E d)(eb_epoch_blob_id rec := Some rec)" by blast
qed

lemma distinct_map_single:
  assumes "distinct (map f xs)" "x \<in> set xs" "\<forall>y \<in> set xs. f y = k"
  shows "xs = [x]"
proof -
  have "length xs \<le> 1" using assms(1,3) by (cases xs; cases "tl xs") auto
  with assms(2) show ?thesis by (cases xs) auto
qed

lemma rows_of_extent:
  assumes i: "db_inv E d'" and u: "uuid_laws E"
    and ch: "t_chunks d' = t_chunks d @ map (extent_row E t rec) (enumerate 0 xs)"
    and x: "(n, 0, off, len) \<in> set xs" "\<forall>x \<in> set xs. fst (snd x) = 0" and none: "rows_of E d n = []"
  shows "\<exists>k. rows_of E d' n = [extent_row E t rec (k, n, 0, off, len)]"
proof -
  have "(n, 0, off, len) \<in> snd ` set (enumerate 0 xs)" using x(1) by (simp flip: set_map)
  then obtain k where k: "(k, n, 0, off, len) \<in> set (enumerate 0 xs)" by fastforce
  let ?rows = "rows_of E d' n"
  have rows: "?rows = filter (\<lambda>c. cr_node_id c = uuid_hyphenated E n) (map (extent_row E t rec) (enumerate 0 xs))"
    using none by (simp add: ch)
  have "distinct (map (\<lambda>c. (cr_node_id c, cr_chunk_index c)) ?rows)"
    using i by (auto simp: db_inv_def chunks_inv_def intro: distinct_map_filter)
  moreover have "extent_row E t rec (k, n, 0, off, len) \<in> set ?rows"
    using k by (force simp: rows extent_row_def)
  moreover have "(cr_node_id r, cr_chunk_index r) = (uuid_hyphenated E n, 0)" if r: "r \<in> set ?rows" for r
  proof -
    obtain j m i off' len' where "(j, m, i, off', len') \<in> set (enumerate 0 xs)" "r = extent_row E t rec (j, m, i, off', len')"
      using r by (auto simp: rows)
    moreover have "snd ` set (enumerate 0 xs) = set xs" by (metis list.set_map map_snd_enumerate)
    ultimately have "i = 0" using x(2) by (metis fst_conv imageI snd_conv)
    then show ?thesis using r \<open>r = _\<close> by (simp add: extent_row_def)
  qed
  ultimately show ?thesis by (blast intro: distinct_map_single)
qed

lemma read_extent_row:
  assumes "uuid_laws E" "read_chunk E (coalesce_blob d (extent_row E t rec (k, n, 0, off, len))) = Inr c"
  shows "extent_chunk (eb_epoch_blob_id rec) off len c"
  using assms(2) by (auto simp: extent_chunk_def read_chunk_def result_simps extent_row_def coalesce_blob_def
      uuid_lawsD(1) [OF assms(1)] u64_try_from_i64_def split: option.splits if_splits)

lemma sqlcipher_commit_flush:
  assumes "store_inv E d" "typed_epoch_blob rec" "typed_extents xs" and c: "commit_epoch_flush E t rec xs d = Inr d'"
  shows "store_inv E d' \<and> db_meta d' = db_meta d \<and> db_node E d' = db_node E d \<and> db_buffer E d' = [] \<and>
     db_epoch E d (eb_epoch_blob_id rec) = None \<and> db_epoch E d' = (db_epoch E d)(eb_epoch_blob_id rec := Some rec) \<and>
     (\<forall>u. u \<notin> fst ` set xs \<longrightarrow> db_chunks E d' u = db_chunks E d u) \<and>
     (\<forall>n off len. (n, 0, off, len) \<in> set xs \<longrightarrow> (\<forall>x \<in> set xs. fst (snd x) = 0) \<longrightarrow> db_chunks E d n = [] \<longrightarrow>
        (\<exists>c. db_chunks E d' n = [c] \<and> extent_chunk (eb_epoch_blob_id rec) off len c))"
proof -
  note u = store_invD(1) [OF assms(1)] and i = store_invD(2) [OF assms(1)]
  obtain d1 where ins: "insert_epoch_blob_with_extents E t rec xs d = Inr d1"
    using c by (auto simp: commit_epoch_flush_def result_simps)
  note eff = commit_epoch_flush_effect [OF c] and new = insert_epoch_blob_effect(4) [OF ins]
  have i': "db_inv E d'" by (rule commit_epoch_flush_inv [OF u c assms(2,3) i])
  have eb: "t_epoch_blobs d' = t_epoch_blobs d @ [epoch_row E rec (int (eb_size_padded rec))]"
    and ch: "t_chunks d' = t_chunks d @ map (extent_row E t rec) (enumerate 0 xs)"
    and same: "t_meta d' = t_meta d" "t_nodes d' = t_nodes d" "t_epoch_buffer d' = []" by (simp_all add: eff)
  have ex: "snd ` set (enumerate 0 xs) = set xs" by (metis list.set_map map_snd_enumerate)
  have "db_chunks E d' v = db_chunks E d v" if v: "v \<notin> fst ` set xs" for v
  proof -
    have "cr_node_id (extent_row E t rec x) \<noteq> uuid_hyphenated E v" if "x \<in> set (enumerate 0 xs)" for x
    proof -
      have "snd x \<in> set xs" using that ex by (metis imageI)
      then have "fst (snd x) \<noteq> v" using v by blast
      then show ?thesis using uuid_hyphenated_inj [OF u] by (auto simp: extent_row_def split: prod.split)
    qed
    then have "rows_of E d' v = rows_of E d v" by (auto simp: ch filter_empty_conv)
    then show ?thesis by (simp add: db_chunks_rows [OF i] db_chunks_rows [OF i'] chunk_rec_epoch_append [OF i _ eb])
  qed
  moreover have "\<exists>c. db_chunks E d' n = [c] \<and> extent_chunk (eb_epoch_blob_id rec) off len c"
    if x: "(n, 0, off, len) \<in> set xs" "\<forall>x \<in> set xs. fst (snd x) = 0" "db_chunks E d n = []" for n off len
  proof -
    have none: "rows_of E d n = []" using x(3) by (simp add: db_chunks_rows [OF i]) (metis length_0_conv length_sort)
    then obtain k where k: "rows_of E d' n = [extent_row E t rec (k, n, 0, off, len)]"
      using rows_of_extent [OF i' u ch x(1,2)] by blast
    let ?r = "extent_row E t rec (k, n, 0, off, len)"
    have "?r \<in> set (t_chunks d')" using arg_cong [OF k, of set] by auto
    note rd = read_coalesced [OF i' this]
    have "extent_chunk (eb_epoch_blob_id rec) off len (chunk_rec E d' ?r)"
      by (rule read_extent_row [OF u rd])
    then show ?thesis using k by (simp add: db_chunks_rows [OF i'])
  qed
  moreover have "db_node E d' = db_node E d" "db_meta d' = db_meta d" "db_buffer E d' = []"
    by (auto simp: db_node_def get_node_def sql_find_node_def same db_meta_def db_buffer_rows [OF i'])
  moreover have "db_epoch E d (eb_epoch_blob_id rec) = None \<and> db_epoch E d' = (db_epoch E d)(eb_epoch_blob_id rec := Some rec)"
    using epoch_after_flush [OF u assms(2) eb] new by (simp add: epoch_row_def)
  ultimately show ?thesis using u i' by (auto simp: store_inv_def)
qed


section \<open>The laws\<close>

lemma sqlcipher_get_meta: "get_meta k d = (Inr (db_meta d k) :: storage_error + _)"
  by (simp add: get_meta_def db_meta_def)

lemma sqlcipher_manifest_store:
  "manifest_store (sqlcipher_store E) (store_inv E) db_meta (db_node E) (db_chunks E) (db_epoch E) (db_buffer E)"
proof unfold_locales
  show "ms_get_meta (sqlcipher_store E) k s = Inr (db_meta s k)" for k s by (simp add: sqlcipher_get_meta)
  show "\<exists>v cs. db_meta s ''chunk_size_bytes'' = Some v \<and> parse_chunk_size_bytes v = Inr cs" if "store_inv E s" for s
  proof -
    have "meta_inv E s" using that by (simp add: store_inv_def db_inv_def)
    then show ?thesis unfolding meta_inv_def validate_manifest_meta_eq_Inr db_meta_def is_ok_def
      by (elim conjE exE) (simp split: sum.splits)
  qed
  show "db_meta s ''epoch_buffer_enabled'' \<in> {Some ''true'', Some ''false''}" if "store_inv E s" for s
  proof -
    have "meta_inv E s" using that by (simp add: store_inv_def db_inv_def)
    then show ?thesis unfolding meta_inv_def validate_manifest_meta_eq_Inr db_meta_def is_ok_def
      by (elim conjE exE) (simp split: sum.splits)
  qed
  show "ms_get_node (sqlcipher_store E) u s = ok_or NotFound (db_node E s u)" if "store_inv E s" for u s
    using get_node_inv [OF that] by simp
  show "ms_get_chunks (sqlcipher_store E) u s = Inr (db_chunks E s u)" if "store_inv E s" for u s
    using get_chunks_rows [OF store_invD(2) [OF that]] by (simp add: db_chunks_def)
  show "ms_get_epoch_blob (sqlcipher_store E) u s = ok_or NotFound (db_epoch E s u)" if "store_inv E s" for u s
    using get_epoch_blob_inv [OF that] by simp
  show "ms_get_epoch_buffer_entries (sqlcipher_store E) s = Inr (db_buffer E s)" if "store_inv E s" for s
    using get_buffer_rows(1) [OF store_invD(2) [OF that]] by (simp add: db_buffer_def)
  show "ms_get_epoch_buffer_node_ids (sqlcipher_store E) s = Inr (map ee_node_id (db_buffer E s))" if "store_inv E s" for s
    using get_buffer_rows [OF store_invD(2) [OF that]] by (simp add: db_buffer_def)
  show "ee_size_bytes b = length (ee_plaintext b)" if "store_inv E s" "b \<in> set (db_buffer E s)" for s b
    using that(2) read_buffer_row_inv(3,4) [OF buffer_rows_ok [OF store_invD(2) [OF that(1)]]]
    by (auto simp: db_buffer_rows [OF store_invD(2) [OF that(1)]])
  show "db_node E s (ee_node_id b) \<noteq> None" if "store_inv E s" "b \<in> set (db_buffer E s)" for s b
    using buffer_node_known [OF that] .
  show "store_inv E s' \<and> db_meta s' = db_meta s \<and> db_epoch E s' = db_epoch E s \<and> db_buffer E s' = db_buffer E s \<and>
      db_node E s (nd_node_id n) = None \<and> db_node E s' = (db_node E s)(nd_node_id n := Some n) \<and>
      db_chunks E s' = (db_chunks E s)(nd_node_id n := sort_key ck_chunk_index cs) \<and> distinct (map ck_blob_name cs)"
    if "store_inv E s" "typed_node n" "\<forall>c \<in> set cs. typed_chunk c \<and> standalone_chunk c"
      "ms_insert_file_with_chunks (sqlcipher_store E) n cs t s = Inr s'" for s n cs t s'
    by (rule sqlcipher_insert_file [OF that(1-3)]) (use that(4) in simp)
  show "store_inv E s' \<and> db_meta s' = db_meta s \<and> db_epoch E s' = db_epoch E s \<and>
      db_node E s (nd_node_id n) = None \<and> db_node E s' = (db_node E s)(nd_node_id n := Some n) \<and> db_chunks E s' = db_chunks E s \<and> db_chunks E s (nd_node_id n) = [] \<and>
      (\<exists>b. ee_node_id b = nd_node_id n \<and> ee_plaintext b = bs \<and> ee_size_bytes b = length bs \<and>
        mset (db_buffer E s') = add_mset b (mset (db_buffer E s)))"
    if "store_inv E s" "typed_node n"
      "ms_insert_file_node_and_stage_epoch_entry (sqlcipher_store E) n bs t s = Inr s'" for s n bs t s'
    by (rule sqlcipher_insert_staged [OF that(1,2)]) (use that(3) in simp)
  show "store_inv E s' \<and> db_meta s' = db_meta s \<and> db_node E s' = db_node E s \<and> db_buffer E s' = [] \<and>
      db_epoch E s (eb_epoch_blob_id rec) = None \<and> db_epoch E s' = (db_epoch E s)(eb_epoch_blob_id rec := Some rec) \<and>
      (\<forall>u. u \<notin> fst ` set xs \<longrightarrow> db_chunks E s' u = db_chunks E s u) \<and>
      (\<forall>n off len. (n, 0, off, len) \<in> set xs \<longrightarrow> (\<forall>x \<in> set xs. fst (snd x) = 0) \<longrightarrow> db_chunks E s n = [] \<longrightarrow>
        (\<exists>c. db_chunks E s' n = [c] \<and> extent_chunk (eb_epoch_blob_id rec) off len c))"
    if "store_inv E s" "typed_epoch_blob rec" "typed_extents xs"
      "ms_commit_epoch_flush (sqlcipher_store E) rec xs t s = Inr s'" for s rec xs t s'
    by (rule sqlcipher_commit_flush [OF that(1-3)]) (use that(4) in simp)
qed

end
