(* ===== verification/Staging.thy ===== *)
theory Staging
  imports Sqlcipher_Sync Metadata_Store
begin

text \<open>
  \<open>storage/staging.rs\<close>: the staging directory, owner-only writes, the migration of blobs from the flat
  layout, and the removal of orphaned blobs.  Errors carry the path they concern.
\<close>

section \<open>The code\<close>

definition io_at :: "path \<Rightarrow> io_error \<Rightarrow> storage_error" where
  "io_at p e = (case e of IoError k m \<Rightarrow> Io (path_display p @ '': '' @ m))"

definition ensure_staging_directory :: "env \<Rightarrow> path \<Rightarrow> ('s, storage_error, unit) prog" where
  "ensure_staging_directory E p =
     bind (with_err (io_at p) (fs_create_dir_all E p)) (\<lambda>_.
     for_each (\<lambda>subdir. with_err (io_at (p @ [subdir])) (fs_create_dir_all E (p @ [subdir])))
       [''pending'', ''cache''])"

text \<open>\<open>Path::file_stem\<close> and \<open>Path::extension\<close> of a file name.\<close>

definition split_ext :: "string \<Rightarrow> string \<times> string option" where
  "split_ext name =
     (let after = takeWhile (\<lambda>c. c \<noteq> CHR ''.'') (rev name) in
      if length after = length name then (name, None)
      else let stem = take (length name - length after - 1) name in
           if stem = [] then (name, None) else (stem, Some (rev after)))"

text \<open>The tests both loops apply to an entry: a \<open>.blob\<close> file whose stem is a UUID of version 4.\<close>

definition blob_uuid :: "env \<Rightarrow> path \<Rightarrow> uuid option" where
  "blob_uuid E p =
     (case split_ext (last p) of (stem_text, extension) \<Rightarrow>
        if extension \<noteq> Some ''blob'' then None
        else case uuid_parse E stem_text of
               None \<Rightarrow> None
             | Some parsed_uuid \<Rightarrow> if uuid_version E parsed_uuid \<noteq> 4 then None else Some parsed_uuid)"

definition next_entry :: "env \<Rightarrow> path \<Rightarrow> ('s, storage_error, unit) prog" where
  "next_entry E dir = with_err (io_at dir) (fs_sync E)"

definition rename_error :: "path \<Rightarrow> path \<Rightarrow> io_error \<Rightarrow> storage_error" where
  "rename_error p q e = (case e of IoError k m \<Rightarrow> Io (path_display p @ '' -> '' @ path_display q @ '': '' @ m))"

fun migrate_entries :: "env \<Rightarrow> path \<Rightarrow> path list \<Rightarrow> ('s, storage_error, unit) prog" where
  "migrate_entries E staging_dir [] = next_entry E staging_dir"
| "migrate_entries E staging_dir (p # ps) =
     bind (next_entry E staging_dir) (\<lambda>_.
     bind (with_err (io_at p) (fs_is_file E p)) (\<lambda>is_file.
     if \<not> is_file then migrate_entries E staging_dir ps
     else if blob_uuid E p = None then migrate_entries E staging_dir ps
     else
       let dest = staging_dir @ [''pending'', last p] in
       bind (with_err (rename_error p dest) (fs_rename E p dest)) (\<lambda>_.
       migrate_entries E staging_dir ps)))"

definition migrate_flat_staging_blobs :: "env \<Rightarrow> path \<Rightarrow> ('s, storage_error, unit) prog" where
  "migrate_flat_staging_blobs E staging_dir =
     bind (attempt (fs_read_dir E staging_dir)) (\<lambda>r.
     case r of
       Inr entries \<Rightarrow> migrate_entries E staging_dir entries
     | Inl error \<Rightarrow> if io_error_kind error = KindNotFound then ret () else fail (io_at staging_dir error))"

fun cleanup_entries :: "env \<Rightarrow> path \<Rightarrow> string set \<Rightarrow> path list \<Rightarrow> nat \<Rightarrow> ('s, storage_error, nat) prog" where
  "cleanup_entries E dir known [] deleted_count = bind (next_entry E dir) (\<lambda>_. ret deleted_count)"
| "cleanup_entries E dir known (p # ps) deleted_count =
     bind (next_entry E dir) (\<lambda>_.
     bind (with_err (io_at p) (fs_is_file E p)) (\<lambda>is_file.
     if \<not> is_file then cleanup_entries E dir known ps deleted_count
     else case blob_uuid E p of
       None \<Rightarrow> cleanup_entries E dir known ps deleted_count
     | Some parsed_uuid \<Rightarrow>
         if uuid_hyphenated E parsed_uuid \<in> known then cleanup_entries E dir known ps deleted_count
         else bind (attempt (fs_remove E p)) (\<lambda>r.
              case r of
                Inr _ \<Rightarrow> cleanup_entries E dir known ps (deleted_count + 1)
              | Inl error \<Rightarrow>
                  if io_error_kind error = KindNotFound then cleanup_entries E dir known ps deleted_count
                  else fail (io_at p error))))"

definition cleanup_orphaned_blobs_in_dir :: "env \<Rightarrow> path \<Rightarrow> string set \<Rightarrow> ('s, storage_error, nat) prog" where
  "cleanup_orphaned_blobs_in_dir E dir known =
     bind (with_err (io_at dir) (fs_read_dir E dir)) (\<lambda>entries.
     cleanup_entries E dir known entries 0)"

text \<open>
  Opening with \<open>create\<close> and \<open>truncate\<close>, setting the mode and writing are one effect, which may leave a
  prefix of the contents behind; \<open>sync_all\<close> is a second one.
\<close>

definition write_owner_only :: "env \<Rightarrow> path \<Rightarrow> bytes \<Rightarrow> ('s, storage_error, unit) prog" where
  "write_owner_only E p bs =
     bind (with_err (io_at p) (fs_write E p bs)) (\<lambda>_.
     with_err (io_at p) (fs_sync E))"

fun cleanup_subdirs :: "env \<Rightarrow> path \<Rightarrow> string set \<Rightarrow> string list \<Rightarrow> nat \<Rightarrow> ('s, storage_error, nat) prog" where
  "cleanup_subdirs E staging_directory known [] total_deleted = ret total_deleted"
| "cleanup_subdirs E staging_directory known (subdir # rest) total_deleted =
     (let dir = staging_directory @ [subdir] in
      bind (with_err (io_at dir) (fs_exists E dir)) (\<lambda>there.
      if \<not> there then cleanup_subdirs E staging_directory known rest total_deleted
      else bind (cleanup_orphaned_blobs_in_dir E dir known) (\<lambda>n.
           cleanup_subdirs E staging_directory known rest (total_deleted + n))))"

definition cleanup_orphaned_blobs :: "env \<Rightarrow> path \<Rightarrow> (db, storage_error, nat) prog" where
  "cleanup_orphaned_blobs E staging_directory =
     bind (query E list_all_blob_names) (\<lambda>known_blob_names.
     cleanup_subdirs E staging_directory known_blob_names [''pending'', ''cache''] 0)"

end
