(* ===== verification/Exif.thy ===== *)
theory Exif
  imports Prelude "HOL-Library.Sublist"
begin

text \<open>
  \<open>storage/pipeline/exif.rs\<close>: removal of metadata from JPEG and PNG files before encryption.  The
  loops of the source advance a position in the input; here they recurse on the rest of the input
  and return what the source appends to its output.  Serialised segment and chunk lists give the
  specification: stripping a well-formed image is filtering its segments.
\<close>

section \<open>The code\<close>

definition is_jpeg :: "bytes \<Rightarrow> bool" where
  "is_jpeg bs = (take 2 bs = [0xFF, 0xD8])"

definition PNG_SIGNATURE :: bytes where
  "PNG_SIGNATURE = [0x89, 0x50, 0x4E, 0x47, 0x0D, 0x0A, 0x1A, 0x0A]"

definition is_png :: "bytes \<Rightarrow> bool" where
  "is_png bs = (take 8 bs = PNG_SIGNATURE)"

definition is_image_magic :: "bytes \<Rightarrow> bool" where
  "is_image_magic bs = (is_jpeg bs \<or> is_png bs)"

definition drop_segment :: "byte \<Rightarrow> bool" where
  "drop_segment marker = (marker = 0xE1 \<or> marker = 0xE2 \<or> marker = 0xED)"

function jpeg_loop :: "bytes \<Rightarrow> bytes" where
  "jpeg_loop rest =
     (if length rest < 2 then []
      else if rest ! 0 \<noteq> 0xFF then rest
      else
        let marker = rest ! 1 in
        if marker = 0 then jpeg_loop (drop 1 rest)
        else if marker = 0xD8 then [0xFF, marker] @ jpeg_loop (drop 2 rest)
        else if marker = 0xD9 then [0xFF, marker]
        else if 0xD0 \<le> marker \<and> marker \<le> 0xD7 then [0xFF, marker] @ jpeg_loop (drop 2 rest)
        else if length rest < 4 then []
        else
          let seg_end = 2 + u16_from_be (rest ! 2) (rest ! 3) in
          if seg_end > length rest then []
          else (if drop_segment marker then [] else take seg_end rest)
               @ (if marker = 0xDA then drop seg_end rest else jpeg_loop (drop seg_end rest)))"
  by pat_completeness auto
termination
  by (relation "measure length") auto

declare jpeg_loop.simps [simp del]

definition strip_jpeg_metadata :: "bytes \<Rightarrow> bytes" where
  "strip_jpeg_metadata bs = (if length bs < 4 then bs else take 2 bs @ jpeg_loop (drop 2 bs))"

definition drop_chunk :: "bytes \<Rightarrow> bool" where
  "drop_chunk t = (t = [0x65, 0x58, 0x49, 0x66] \<or> t = [0x74, 0x45, 0x58, 0x74]
                 \<or> t = [0x69, 0x54, 0x58, 0x74] \<or> t = [0x7A, 0x54, 0x58, 0x74])"

function png_loop :: "bytes \<Rightarrow> bytes" where
  "png_loop rest =
     (if length rest < 12 then []
      else
        let chunk_data_len = u32_from_be (rest ! 0) (rest ! 1) (rest ! 2) (rest ! 3);
            chunk_type = take 4 (drop 4 rest);
            total_chunk_len = 4 + 4 + chunk_data_len + 4 in
        if total_chunk_len > length rest then []
        else (if drop_chunk chunk_type then [] else take total_chunk_len rest)
             @ png_loop (drop total_chunk_len rest))"
  by pat_completeness auto
termination
  by (relation "measure length") auto

declare png_loop.simps [simp del]

definition strip_png_metadata :: "bytes \<Rightarrow> bytes" where
  "strip_png_metadata bs = (if length bs < 8 + 12 then bs else take 8 bs @ png_loop (drop 8 bs))"

definition strip_exif :: "bytes \<Rightarrow> bytes" where
  "strip_exif bs =
     (if is_jpeg bs then strip_jpeg_metadata bs
      else if is_png bs then strip_png_metadata bs
      else bs)"


section \<open>Only deletions\<close>

lemma subseq_take_drop: "subseq a (take n xs) \<Longrightarrow> subseq b (drop n xs) \<Longrightarrow> subseq (a @ b) xs"
  using list_emb_append_mono [of "(=)" a "take n xs" b "drop n xs"] by simp

lemma subseq_of_drop: "subseq b (drop n xs) \<Longrightarrow> subseq b xs"
  using subseq_take_drop [of "[]" n xs b] by simp

lemma take_two: "2 \<le> length xs \<Longrightarrow> take 2 xs = [xs ! 0, xs ! 1]"
  by (cases xs; cases "tl xs") (auto simp: numeral_2_eq_2)

lemma subseq_jpeg_loop: "subseq (jpeg_loop bs) bs"
proof (induction bs rule: jpeg_loop.induct)
  case (1 rest)
  let ?m = "rest ! 1" and ?e = "2 + u16_from_be (rest ! 2) (rest ! 3)"
  have two: "subseq ([0xFF, ?m] @ b) rest" if "subseq b (drop 2 rest)" "2 \<le> length rest" "rest ! 0 = 0xFF" for b
    by (rule subseq_take_drop [where n = 2]) (use that take_two [of rest] in simp_all)
  consider "length rest < 2" | "2 \<le> length rest" "rest ! 0 \<noteq> 0xFF"
    | "2 \<le> length rest" "rest ! 0 = 0xFF" "?m = 0"
    | "2 \<le> length rest" "rest ! 0 = 0xFF" "?m = 0xD9"
    | "2 \<le> length rest" "rest ! 0 = 0xFF" "?m = 0xD8 \<or> 0xD0 \<le> ?m \<and> ?m \<le> 0xD7"
    | "2 \<le> length rest" "rest ! 0 = 0xFF" "?m \<noteq> 0" "?m \<noteq> 0xD8" "?m \<noteq> 0xD9" "\<not> (0xD0 \<le> ?m \<and> ?m \<le> 0xD7)"
    by fastforce
  then show ?case
  proof cases
    case 3
    have "subseq (jpeg_loop (drop 1 rest)) rest" by (rule subseq_of_drop, rule "1.IH"(1)) (use 3 in simp_all)
    then show ?thesis using 3 by (subst jpeg_loop.simps) simp
  next
    case 4
    then show ?thesis using two [of "[]"] by (subst jpeg_loop.simps) simp
  next
    case 5
    have "subseq (jpeg_loop (drop 2 rest)) (drop 2 rest)"
    proof (cases "?m = 0xD8")
      case True
      show ?thesis by (rule "1.IH"(2)) (use 5 True in simp_all)
    next
      case False
      show ?thesis by (rule "1.IH"(3)) (use 5 False in \<open>auto simp: word_le_nat_alt\<close>)
    qed
    then have "subseq ([0xFF, ?m] @ jpeg_loop (drop 2 rest)) rest" using two 5 by blast
    moreover have "?m \<noteq> 0" "?m \<noteq> 0xD9" using 5(3) by (auto simp: word_le_nat_alt)
    ultimately show ?thesis using 5 unfolding jpeg_loop.simps [of rest] Let_def by (cases "?m = 0xD8") auto
  next
    case 6
    have loop: "jpeg_loop rest = (if length rest < 4 \<or> length rest < ?e then []
        else (if drop_segment ?m then [] else take ?e rest) @ (if ?m = 0xDA then drop ?e rest else jpeg_loop (drop ?e rest)))"
      unfolding jpeg_loop.simps [of rest] Let_def using 6 by auto
    have "subseq ((if drop_segment ?m then [] else take ?e rest) @ (if ?m = 0xDA then drop ?e rest else jpeg_loop (drop ?e rest))) rest"
      if "\<not> length rest < 4" "\<not> length rest < ?e"
      by (rule subseq_take_drop) (use "1.IH"(4) 6 that in auto)
    then show ?thesis unfolding loop by (auto simp del: add_2_eq_Suc)
  qed (simp_all add: jpeg_loop.simps [of rest])
qed

lemma subseq_png_loop: "subseq (png_loop bs) bs"
proof (induction bs rule: png_loop.induct)
  case (1 rest)
  let ?n = "4 + 4 + u32_from_be (rest ! 0) (rest ! 1) (rest ! 2) (rest ! 3) + 4"
  show ?case
  proof (cases "length rest < 12 \<or> length rest < ?n")
    case True
    then show ?thesis by (auto simp: png_loop.simps [of rest] Let_def)
  next
    case False
    have "subseq ((if drop_chunk (take 4 (drop 4 rest)) then [] else take ?n rest) @ png_loop (drop ?n rest)) rest"
      by (rule subseq_take_drop) (use False 1 in auto)
    then show ?thesis using False by (subst png_loop.simps) (simp add: Let_def cong del: if_weak_cong)
  qed
qed

lemma subseq_strip_exif: "subseq (strip_exif bs) bs"
  using subseq_take_drop [OF _ subseq_jpeg_loop, of "take 2 bs" 2 bs]
    subseq_take_drop [OF _ subseq_png_loop, of "take 8 bs" 8 bs]
  by (simp add: strip_exif_def strip_jpeg_metadata_def strip_png_metadata_def)

lemma strip_exif_other: "\<not> is_image_magic bs \<Longrightarrow> strip_exif bs = bs"
  by (simp add: strip_exif_def is_image_magic_def)


section \<open>Well-formed images\<close>

text \<open>A JPEG segment: a marker that carries a length, and its payload.\<close>

type_synonym segment = "byte \<times> bytes"

definition segment_ok :: "segment \<Rightarrow> bool" where
  "segment_ok s = (case s of (marker, payload) \<Rightarrow>
     marker \<noteq> 0 \<and> marker \<noteq> 0xD8 \<and> marker \<noteq> 0xD9 \<and> \<not> (0xD0 \<le> marker \<and> marker \<le> 0xD7) \<and>
     marker \<noteq> 0xDA \<and> marker \<noteq> 0xFF \<and> length payload + 2 < 65536)"

definition be_u16 :: "nat \<Rightarrow> bytes" where
  "be_u16 n = [of_nat (n div 256), of_nat n]"

definition put_segment :: "segment \<Rightarrow> bytes" where
  "put_segment s = (case s of (marker, payload) \<Rightarrow> [0xFF, marker] @ be_u16 (length payload + 2) @ payload)"

text \<open>A JPEG file: SOI, the segments, the scan header, the compressed data to the end of the file.\<close>

definition put_jpeg :: "segment list \<Rightarrow> bytes \<Rightarrow> bytes \<Rightarrow> bytes" where
  "put_jpeg segs scan_header bitstream =
     [0xFF, 0xD8] @ concat (map put_segment segs)
       @ [0xFF, 0xDA] @ be_u16 (length scan_header + 2) @ scan_header @ bitstream"

lemma u16_be_u16: "n < 65536 \<Longrightarrow> u16_from_be (be_u16 n ! 0) (be_u16 n ! 1) = n"
  by (simp add: u16_from_be_def be_u16_def unat_of_nat_byte)

lemma jpeg_loop_segment:
  assumes "segment_ok s"
  shows "jpeg_loop (put_segment s @ rest) = (if drop_segment (fst s) then [] else put_segment s) @ jpeg_loop rest"
proof -
  obtain m p where s: "s = (m, p)" by (cases s)
  have ok: "m \<noteq> 0" "m \<noteq> 0xD8" "m \<noteq> 0xD9" "\<not> (0xD0 \<le> m \<and> m \<le> 0xD7)" "m \<noteq> 0xDA" and len: "length p + 2 < 65536"
    using assms by (auto simp: segment_ok_def s)
  let ?in = "put_segment s @ rest"
  have shape: "?in = 0xFF # m # (be_u16 (length p + 2) ! 0) # (be_u16 (length p + 2) ! 1) # p @ rest"
    by (simp add: s put_segment_def be_u16_def)
  have e: "2 + u16_from_be (?in ! 2) (?in ! 3) = length (put_segment s)"
    using u16_be_u16 [OF len] by (simp add: shape) (simp add: s put_segment_def be_u16_def)
  have l: "length ?in = length (put_segment s) + length rest" "length ?in \<ge> 4" "length (put_segment s) \<ge> 4"
    by (simp_all add: s put_segment_def be_u16_def)
  have i: "?in ! 0 = 0xFF" "?in ! 1 = m" using shape by simp_all
  have "\<not> length ?in < 2" "\<not> length ?in < 4" "\<not> length ?in < length (put_segment s)" using l by simp_all
  then show ?thesis
    unfolding jpeg_loop.simps [of ?in] using ok by (simp only: i Let_def e if_False) (simp add: s)
qed

lemma jpeg_loop_scan:
  assumes "length h + 2 < 65536"
  shows "jpeg_loop ([0xFF, 0xDA] @ be_u16 (length h + 2) @ h @ rest) = [0xFF, 0xDA] @ be_u16 (length h + 2) @ h @ rest"
proof -
  let ?in = "[0xFF, 0xDA] @ be_u16 (length h + 2) @ h @ rest"
  have e: "2 + u16_from_be (?in ! 2) (?in ! 3) = length h + 4"
    using u16_be_u16 [OF assms] by (simp add: be_u16_def)
  have i: "?in ! 0 = 0xFF" "?in ! 1 = 0xDA" "length ?in = length h + 4 + length rest"
    by (simp_all add: be_u16_def)
  have "\<not> (0xD0 \<le> (0xDA :: byte) \<and> (0xDA :: byte) \<le> 0xD7)" "\<not> drop_segment 0xDA"
    by (simp_all add: drop_segment_def)
  then show ?thesis
    unfolding jpeg_loop.simps [of ?in] by (simp only: i Let_def e) simp
qed

lemma jpeg_loop_segments:
  assumes "\<forall>s \<in> set segs. segment_ok s"
  shows "jpeg_loop (concat (map put_segment segs) @ rest)
       = concat (map put_segment (filter (\<lambda>s. \<not> drop_segment (fst s)) segs)) @ jpeg_loop rest"
  using assms by (induction segs) (simp_all add: jpeg_loop_segment)

lemma strip_put_jpeg:
  assumes "\<forall>s \<in> set segs. segment_ok s" and "length scan_header + 2 < 65536"
  shows "strip_exif (put_jpeg segs scan_header bitstream)
       = put_jpeg (filter (\<lambda>s. \<not> drop_segment (fst s)) segs) scan_header bitstream"
proof -
  let ?tail = "[0xFF, 0xDA] @ be_u16 (length scan_header + 2) @ scan_header @ bitstream"
  have "is_jpeg (put_jpeg segs scan_header bitstream)" "4 \<le> length (put_jpeg segs scan_header bitstream)"
    by (simp_all add: is_jpeg_def put_jpeg_def)
  then have "strip_exif (put_jpeg segs scan_header bitstream) = [0xFF, 0xD8] @ jpeg_loop (concat (map put_segment segs) @ ?tail)"
    by (simp add: strip_exif_def strip_jpeg_metadata_def put_jpeg_def)
  also have "\<dots> = [0xFF, 0xD8] @ concat (map put_segment (filter (\<lambda>s. \<not> drop_segment (fst s)) segs)) @ ?tail"
    unfolding jpeg_loop_segments [OF assms(1)] jpeg_loop_scan [OF assms(2)] ..
  finally show ?thesis unfolding put_jpeg_def .
qed

text \<open>A PNG chunk: its type, its data and its checksum.\<close>

type_synonym png_chunk = "bytes \<times> bytes \<times> bytes"

definition chunk_ok :: "png_chunk \<Rightarrow> bool" where
  "chunk_ok c = (case c of (t, dat, crc) \<Rightarrow> length t = 4 \<and> length crc = 4 \<and> length dat < 4294967296)"

definition be_u32 :: "nat \<Rightarrow> bytes" where
  "be_u32 n = [of_nat (n div 16777216), of_nat (n div 65536), of_nat (n div 256), of_nat n]"

definition put_chunk :: "png_chunk \<Rightarrow> bytes" where
  "put_chunk c = (case c of (t, dat, crc) \<Rightarrow> be_u32 (length dat) @ t @ dat @ crc)"

definition put_png :: "png_chunk list \<Rightarrow> bytes" where
  "put_png cs = PNG_SIGNATURE @ concat (map put_chunk cs)"

lemma u32_be_u32:
  assumes "n < 4294967296"
  shows "u32_from_be (be_u32 n ! 0) (be_u32 n ! 1) (be_u32 n ! 2) (be_u32 n ! 3) = n"
proof -
  have "n div 256 = 256 * (n div 65536) + n div 256 mod 256" "n div 65536 = 256 * (n div 16777216) + n div 65536 mod 256"
    using mult_div_mod_eq [of 256 "n div 256"] mult_div_mod_eq [of 256 "n div 65536"]
    by (simp_all add: div_mult2_eq [symmetric])
  then have "16777216 * (n div 16777216) + 65536 * (n div 65536 mod 256) + n div 256 mod 256 * 256 = 256 * (n div 256)"
    by linarith
  then show ?thesis
    using assms mult_div_mod_eq [of 256 n] by (simp add: u32_from_be_def be_u32_def unat_of_nat_byte del: mult_div_mod_eq)
qed

lemma png_loop_chunk:
  assumes "chunk_ok c"
  shows "png_loop (put_chunk c @ rest) = (if drop_chunk (fst c) then [] else put_chunk c) @ png_loop rest"
proof -
  obtain t dat crc where c: "c = (t, dat, crc)" by (cases c)
  have ok: "length t = 4" "length crc = 4" and len: "length dat < 4294967296"
    using assms by (auto simp: chunk_ok_def c)
  let ?in = "put_chunk c @ rest"
  have e: "4 + 4 + u32_from_be (?in ! 0) (?in ! 1) (?in ! 2) (?in ! 3) + 4 = length (put_chunk c)"
    using u32_be_u32 [OF len] ok by (simp add: c put_chunk_def be_u32_def)
  have t: "take 4 (drop 4 ?in) = fst c" using ok by (simp add: c put_chunk_def be_u32_def)
  have "\<not> length ?in < 12" "\<not> length ?in < length (put_chunk c)"
    using ok by (simp_all add: c put_chunk_def be_u32_def)
  then show ?thesis
    unfolding png_loop.simps [of ?in] by (simp only: t Let_def e if_False) simp
qed

lemma png_loop_chunks:
  assumes "\<forall>c \<in> set cs. chunk_ok c"
  shows "png_loop (concat (map put_chunk cs)) = concat (map put_chunk (filter (\<lambda>c. \<not> drop_chunk (fst c)) cs))"
  using assms by (induction cs) (simp_all add: png_loop_chunk png_loop.simps [of "[]"])

lemma length_put_chunk: "chunk_ok c \<Longrightarrow> 12 \<le> length (put_chunk c)"
  by (auto simp: chunk_ok_def put_chunk_def be_u32_def)

lemma strip_put_png:
  assumes "\<forall>c \<in> set cs. chunk_ok c"
  shows "strip_exif (put_png cs) = put_png (filter (\<lambda>c. \<not> drop_chunk (fst c)) cs)"
proof -
  have png: "\<not> is_jpeg (put_png cs)" "is_png (put_png cs)" "length PNG_SIGNATURE = 8"
    by (simp_all add: is_jpeg_def is_png_def put_png_def PNG_SIGNATURE_def)
  have "length (put_png cs) < 20 \<Longrightarrow> cs = []"
    using assms length_put_chunk png(3) by (cases cs) (fastforce simp: put_png_def)+
  then show ?thesis
    using png png_loop_chunks [OF assms]
    by (auto simp: strip_exif_def strip_png_metadata_def) (simp_all add: put_png_def)
qed


section \<open>Properties\<close>

text \<open>(C10) Stripping a well-formed JPEG (SOI, length-carrying segments, scan header, compressed data)
  gives the same JPEG without its APP1, APP2 and APP13 segments, and stripping a well-formed PNG gives
  the same PNG without its \<open>eXIf\<close>, \<open>tEXt\<close>, \<open>iTXt\<close> and \<open>zTXt\<close> chunks: the remaining segments keep their
  order and contents, and stripping a second time changes nothing.\<close>

theorem strip_exif_well_formed:
  assumes "\<forall>s \<in> set segs. segment_ok s" and "length scan_header + 2 < 65536" and "\<forall>c \<in> set cs. chunk_ok c"
  shows "strip_exif (put_jpeg segs scan_header bitstream)
           = put_jpeg (filter (\<lambda>s. fst s \<notin> {0xE1, 0xE2, 0xED}) segs) scan_header bitstream
       \<and> strip_exif (put_png cs)
           = put_png (filter (\<lambda>c. fst c \<notin> {ascii ''eXIf'', ascii ''tEXt'', ascii ''iTXt'', ascii ''zTXt''}) cs)
       \<and> strip_exif (strip_exif (put_jpeg segs scan_header bitstream)) = strip_exif (put_jpeg segs scan_header bitstream)
       \<and> strip_exif (strip_exif (put_png cs)) = strip_exif (put_png cs)"
proof -
  have d: "drop_segment m \<longleftrightarrow> m \<in> {0xE1, 0xE2, 0xED}" for m by (auto simp: drop_segment_def)
  have e: "drop_chunk t \<longleftrightarrow> t \<in> {ascii ''eXIf'', ascii ''tEXt'', ascii ''iTXt'', ascii ''zTXt''}" for t
    by (auto simp: drop_chunk_def ascii_def)
  have "\<forall>s \<in> set (filter P segs). segment_ok s" "\<forall>c \<in> set (filter Q cs). chunk_ok c" for P Q
    using assms by auto
  then show ?thesis
    using assms by (simp add: strip_put_jpeg strip_put_png) (simp add: d e)
qed

theorem strip_exif_well_formed_witness:
  "strip_exif (put_jpeg [(0xE0, [74]), (0xE1, [69, 120]), (0xDB, [1])] [2] [3, 0xFF, 0xD9])
     = put_jpeg [(0xE0, [74]), (0xDB, [1])] [2] [3, 0xFF, 0xD9]
   \<and> strip_exif (put_png [(ascii ''IHDR'', [1], [0, 0, 0, 1]), (ascii ''tEXt'', [5, 5], [0, 0, 0, 2])])
     = put_png [(ascii ''IHDR'', [1], [0, 0, 0, 1])]"
  using strip_exif_well_formed [of "[(0xE0, [74]), (0xE1, [69, 120]), (0xDB, [1])]" "[2]"
      "[(ascii ''IHDR'', [1], [0, 0, 0, 1]), (ascii ''tEXt'', [5, 5], [0, 0, 0, 2])]" "[3, 0xFF, 0xD9]"]
  by (simp add: segment_ok_def chunk_ok_def ascii_def)

text \<open> Whatever the input, stripping only deletes bytes: the output is a subsequence of the input, it
  still starts with the same magic number, and an input that is neither a JPEG nor a PNG is returned as it is.\<close>

theorem strip_exif_conservative:
  "subseq (strip_exif bs) bs
   \<and> is_jpeg (strip_exif bs) = is_jpeg bs \<and> is_png (strip_exif bs) = is_png bs
   \<and> (is_image_magic bs \<or> strip_exif bs = bs)"
proof -
  have "is_jpeg bs \<Longrightarrow> is_jpeg (strip_exif bs)" "is_png bs \<Longrightarrow> is_png (strip_exif bs)"
    by (auto simp: strip_exif_def is_jpeg_def is_png_def strip_jpeg_metadata_def strip_png_metadata_def PNG_SIGNATURE_def
        dest: arg_cong [where f = "take 2"])
  moreover have "is_png b \<Longrightarrow> \<not> is_jpeg b" for b :: bytes
    by (auto simp: is_jpeg_def is_png_def PNG_SIGNATURE_def dest: arg_cong [where f = "take 2"])
  ultimately show ?thesis
    using subseq_strip_exif [of bs] strip_exif_other [of bs]
    by (cases "is_jpeg bs"; cases "is_png bs"; cases "is_png (strip_exif bs)") (simp_all add: is_image_magic_def)
qed

text \<open>A fill byte in front of a marker, which JPEG allows, is read as a marker of its own and the real
  marker as its length: when an EXIF segment preceded by a fill byte starts a file of less than 56 KB,
  the output is the bare SOI marker and the image is lost.\<close>

theorem strip_exif_fill_byte:
  assumes "length rest < 57598"
  shows "strip_exif ([0xFF, 0xD8, 0xFF, 0xFF, 0xE1] @ rest) = [0xFF, 0xD8]"
proof -
  have "256 * unat (0xE1 :: byte) = 57600" by simp
  then have "57600 \<le> u16_from_be 0xE1 x" for x by (simp add: u16_from_be_def)
  then have "Suc (length rest) < u16_from_be 0xE1 x" for x
    using assms less_le_trans [of "Suc (length rest)" 57600 "u16_from_be 0xE1 x"] by simp
  then have "jpeg_loop ([0xFF, 0xFF, 0xE1] @ rest) = []"
    by (subst jpeg_loop.simps) (cases rest; simp add: Let_def)
  then show ?thesis
    by (simp add: strip_exif_def is_jpeg_def strip_jpeg_metadata_def)
qed

theorem strip_exif_fill_byte_witness:
  "strip_exif ([0xFF, 0xD8, 0xFF, 0xFF, 0xE1] @ [0, 2, 0xFF, 0xDA, 0, 2, 7, 0xFF, 0xD9]) = [0xFF, 0xD8]"
  using strip_exif_fill_byte [of "[0, 2, 0xFF, 0xDA, 0, 2, 7, 0xFF, 0xD9]"] by simp

end
