(* ===== verification/Encrypt_File.thy ===== *)
theory Encrypt_File
  imports Staging Exif
begin

text \<open>
  \<open>storage/pipeline/encrypt_file.rs\<close>: a source file or byte string becomes a list of encrypted blobs of
  one fixed size in the staging directory.  The streaming loop recurses on what is left of the source;
  an error of its body carries the blob names staged so far, the source's \<open>&mut\<close> argument, which the
  caller uses to clean up.
\<close>

section \<open>The code\<close>

definition blob_file :: "path \<Rightarrow> string \<Rightarrow> path" where
  "blob_file dir blob_name = dir @ [blob_name @ ''.blob'']"

text \<open>Reads until \<open>n\<close> bytes are there or the source is exhausted; gives them and the rest.\<close>

function read_chunk_plaintext ::
  "env \<Rightarrow> nat \<Rightarrow> bytes \<Rightarrow> bytes \<Rightarrow> 's world \<Rightarrow> (storage_error + (bytes \<times> bytes)) \<times> 's world" where
  "read_chunk_plaintext E n rest plaintext w =
     (if length plaintext < n then
        (case reader_read E (n - length plaintext) rest w of
           (Inl error, w1) \<Rightarrow> (Inl (from_io error), w1)
         | (Inr (read_now, rest1), w1) \<Rightarrow>
             if read_now = [] then (Inr (plaintext, rest1), w1)
             else read_chunk_plaintext E n rest1 (plaintext @ read_now) w1)
      else (Inr (plaintext, rest), w))"
  by pat_completeness auto
termination
  by (relation "measure (\<lambda>(E, n, rest, plaintext, w). n - length plaintext)") (auto intro!: diff_less_mono2)

declare read_chunk_plaintext.simps [simp del]

definition write_blob_file :: "env \<Rightarrow> path \<Rightarrow> string \<Rightarrow> bytes \<Rightarrow> ('s, storage_error, unit) prog" where
  "write_blob_file E staging_directory blob_name wire_blob =
     write_owner_only E (blob_file staging_directory blob_name) wire_blob"

fun cleanup_staged_blobs :: "env \<Rightarrow> path \<Rightarrow> string list \<Rightarrow> ('s, 'e, unit) prog" where
  "cleanup_staged_blobs E staging_directory [] = ret ()"
| "cleanup_staged_blobs E staging_directory (b # bs) =
     bind (attempt (fs_remove E (blob_file staging_directory b))) (\<lambda>_.
     cleanup_staged_blobs E staging_directory bs)"

definition new_chunk_record :: "uuid \<Rightarrow> u32 \<Rightarrow> string \<Rightarrow> u64 \<Rightarrow> bytes \<Rightarrow> chunk_record" where
  "new_chunk_record chunk_id chunk_index blob_name chunk_size_bytes checksum =
     \<lparr>ck_chunk_id = chunk_id, ck_node_id = 0, ck_chunk_index = chunk_index, ck_blob_name = blob_name,
      ck_size_padded = chunk_size_bytes, ck_blake3_checksum = checksum,
      ck_epoch_blob_id = None, ck_byte_offset = None, ck_byte_length = None\<rparr>"

text \<open>
  The body of both loops: encrypt one zero-padded chunk, name it, write it, report it.  The result is
  the new record; the error says whether the blob had been named.
\<close>

definition stage_chunk ::
  "env \<Rightarrow> bool \<Rightarrow> uuid \<Rightarrow> bytes \<Rightarrow> path \<Rightarrow> u64 \<Rightarrow> u64 \<Rightarrow> bytes \<Rightarrow> u32 \<Rightarrow> u64 \<Rightarrow> 's world
     \<Rightarrow> ((string list \<times> storage_error) + chunk_record) \<times> 's world" where
  "stage_chunk E progress file_id file_key dir chunk_size file_size chunk chunk_index bytes_processed =
     bind (with_err (\<lambda>e. ([], from_crypto e))
             (encrypt_chunk E (zero_pad chunk_size chunk) file_key file_id chunk_index)) (\<lambda>wire_blob.
     let checksum = compute_checksum E wire_blob in
     bind (draw (\<lambda>t. uuid_hyphenated E (draw_uuid E t 0))) (\<lambda>blob_name.
     bind (with_err (\<lambda>e. ([blob_name], e)) (write_blob_file E dir blob_name wire_blob)) (\<lambda>_.
     bind (progress_if progress (bytes_processed + length chunk) file_size) (\<lambda>_.
     bind (draw (\<lambda>t. draw_uuid E t 0)) (\<lambda>chunk_id.
     ret (new_chunk_record chunk_id chunk_index blob_name chunk_size checksum))))))"

lemma reader_read_split: "reader_read E n rest w = (Inr (now, rest'), w') \<Longrightarrow> rest = now @ rest'"
  by (auto simp: reader_read_def fs_effect_def Let_def split: option.splits)

lemma read_chunk_plaintext_split:
  "read_chunk_plaintext E n rest plaintext w = (Inr (p, rest'), w') \<Longrightarrow> plaintext @ rest = p @ rest'"
proof (induction E n rest plaintext w arbitrary: p rest' w' rule: read_chunk_plaintext.induct)
  case (1 E n rest plaintext w)
  show ?case
  proof (cases "length plaintext < n")
    case True
    obtain now rest1 w1 where r: "reader_read E (n - length plaintext) rest w = (Inr (now, rest1), w1)"
      using "1.prems" True
      by (subst (asm) read_chunk_plaintext.simps) (auto split: if_splits prod.splits sum.splits)
    show ?thesis
    proof (cases "now = []")
      case False
      have "read_chunk_plaintext E n rest1 (plaintext @ now) w1 = (Inr (p, rest'), w')"
        using "1.prems" True False r by (subst (asm) read_chunk_plaintext.simps) simp
      from "1.IH" [OF True r [symmetric] refl refl False this] reader_read_split [OF r]
      show ?thesis by simp
    qed (use "1.prems" True r reader_read_split [OF r] in
        \<open>subst (asm) read_chunk_plaintext.simps, simp\<close>)
  qed (use "1.prems" in \<open>subst (asm) read_chunk_plaintext.simps, simp\<close>)
qed

function encrypt_loop ::
  "env \<Rightarrow> bool \<Rightarrow> uuid \<Rightarrow> bytes \<Rightarrow> path \<Rightarrow> u64 \<Rightarrow> u64 \<Rightarrow> bytes \<Rightarrow> u32 \<Rightarrow> u64 \<Rightarrow> chunk_record list
     \<Rightarrow> 's world \<Rightarrow> ((string list \<times> storage_error) + chunk_record list) \<times> 's world" where
  "encrypt_loop E progress file_id file_key dir chunk_size file_size rest chunk_index bytes_processed records w =
     (case read_chunk_plaintext E chunk_size rest [] w of
        (Inl error, w1) \<Rightarrow> (Inl (map ck_blob_name records, error), w1)
      | (Inr (chunk, rest1), w1) \<Rightarrow>
          if chunk = [] then (Inr records, w1)
          else
            (case stage_chunk E progress file_id file_key dir chunk_size file_size chunk chunk_index bytes_processed w1 of
               (Inl (named, error), w2) \<Rightarrow> (Inl (map ck_blob_name records @ named, error), w2)
             | (Inr record, w2) \<Rightarrow>
                 if length chunk < chunk_size then (Inr (records @ [record]), w2)
                 else
                   (case checked_add_u32 chunk_index 1 of
                      None \<Rightarrow> (Inl (map ck_blob_name (records @ [record]), ConstraintViolation ''chunk_index overflow''), w2)
                    | Some next \<Rightarrow>
                        encrypt_loop E progress file_id file_key dir chunk_size file_size rest1 next
                          (bytes_processed + length chunk) (records @ [record]) w2)))"
  by pat_completeness auto
termination
  by (relation "measure (\<lambda>(E, pr, f, k, dir, cs, fs, rest, i, bp, rs, w). length rest)")
    (auto dest!: sym [of "(Inr _, _)"] read_chunk_plaintext_split)

declare encrypt_loop.simps [simp del]

definition encrypt_file_inner ::
  "env \<Rightarrow> bool \<Rightarrow> path \<Rightarrow> uuid \<Rightarrow> bytes \<Rightarrow> 's metadata_store \<Rightarrow> path
     \<Rightarrow> ('s, string list \<times> storage_error, chunk_record list) prog" where
  "encrypt_file_inner E progress source file_id file_key MS staging_directory =
     bind (with_err (Pair []) (read_chunk_size_bytes E MS)) (\<lambda>chunk_size.
     bind (attempt (fs_len E source)) (\<lambda>metadata.
     let file_size = (case metadata of Inl _ \<Rightarrow> 0 | Inr n \<Rightarrow> n) in
     bind (with_err (\<lambda>e. ([], from_io e)) (fs_read E source)) (\<lambda>contents.
     encrypt_loop E progress file_id file_key staging_directory chunk_size file_size contents 0 0 [])))"

text \<open>The chunks of an in-memory source; a failed write is cleaned up here.\<close>

fun encrypt_chunks ::
  "env \<Rightarrow> bool \<Rightarrow> uuid \<Rightarrow> bytes \<Rightarrow> path \<Rightarrow> u64 \<Rightarrow> u64 \<Rightarrow> bytes list \<Rightarrow> u32 \<Rightarrow> u64 \<Rightarrow> chunk_record list
     \<Rightarrow> 's world \<Rightarrow> (storage_error + chunk_record list) \<times> 's world" where
  "encrypt_chunks E progress file_id file_key dir chunk_size file_size [] chunk_index bytes_processed records w =
     (Inr records, w)"
| "encrypt_chunks E progress file_id file_key dir chunk_size file_size (chunk # rest) chunk_index bytes_processed records w =
     (case stage_chunk E progress file_id file_key dir chunk_size file_size chunk chunk_index bytes_processed w of
        (Inl (named, error), w1) \<Rightarrow>
          bind (cleanup_staged_blobs E dir (map ck_blob_name records @ named)) (\<lambda>_. fail error) w1
      | (Inr record, w1) \<Rightarrow>
          (case checked_add_u32 chunk_index 1 of
             None \<Rightarrow> (Inl (ConstraintViolation ''chunk_index overflow''), w1)
           | Some next \<Rightarrow>
               encrypt_chunks E progress file_id file_key dir chunk_size file_size rest next
                 (bytes_processed + length chunk) (records @ [record]) w1))"

definition encrypt_bytes ::
  "env \<Rightarrow> bool \<Rightarrow> bytes \<Rightarrow> uuid \<Rightarrow> bytes \<Rightarrow> 's metadata_store \<Rightarrow> path
     \<Rightarrow> ('s, storage_error, chunk_record list) prog" where
  "encrypt_bytes E progress source_bytes file_id file_key MS staging_directory =
     (if source_bytes = [] then ret []
      else
        bind (read_chunk_size_bytes E MS) (\<lambda>chunk_size.
        encrypt_chunks E progress file_id file_key staging_directory chunk_size (length source_bytes)
          (chunks_of chunk_size source_bytes) 0 0 []))"

definition read_magic_bytes :: "env \<Rightarrow> path \<Rightarrow> ('s, storage_error, bytes) prog" where
  "read_magic_bytes E p =
     bind (with_err from_io (fs_read E p)) (\<lambda>contents.
     bind (with_err from_io (reader_read E 8 contents)) (\<lambda>(magic, _).
     ret (zero_pad 8 magic)))"

definition encrypt_file ::
  "env \<Rightarrow> bool \<Rightarrow> path \<Rightarrow> uuid \<Rightarrow> bytes \<Rightarrow> 's metadata_store \<Rightarrow> path
     \<Rightarrow> ('s, storage_error, chunk_record list) prog" where
  "encrypt_file E progress source file_id file_key MS staging_directory =
     bind (read_magic_bytes E source) (\<lambda>magic.
     if is_image_magic magic then
       bind (with_err from_io (fs_read E source)) (\<lambda>raw_bytes.
       encrypt_bytes E progress (strip_exif raw_bytes) file_id file_key MS staging_directory)
     else
       bind (attempt (encrypt_file_inner E progress source file_id file_key MS staging_directory)) (\<lambda>result.
       case result of
         Inr records \<Rightarrow> ret records
       | Inl (staged_blob_names, error) \<Rightarrow>
           bind (cleanup_staged_blobs E staging_directory staged_blob_names) (\<lambda>_. fail error)))"

end
