(* ===== verification/Decrypt_File.thy ===== *)
theory Decrypt_File
  imports Encrypt_File
begin

text \<open>
  \<open>storage/pipeline/decrypt_file.rs\<close>: chunk lists are validated against the file size, blobs are looked
  up in \<open>pending/\<close>, \<open>cache/\<close> and the flat layout, verified, decrypted and written to a temporary file
  that replaces the destination, or collected in memory, whole or for a byte range; files packed into an
  epoch blob are sliced out of it.  A \<open>BufWriter\<close> is modelled as writing through.
\<close>

section \<open>Validation of a chunk list\<close>

definition malformed_chunks :: storage_error where
  "malformed_chunks = ConstraintViolation ''chunk list is malformed: missing or duplicate chunk_index''"

fun validate_sorted_chunks :: "nat \<Rightarrow> u64 \<Rightarrow> chunk_record list \<Rightarrow> storage_error + unit" where
  "validate_sorted_chunks expected_index chunk_size_bytes [] = Inr ()"
| "validate_sorted_chunks expected_index chunk_size_bytes (chunk # rest) =
     rbind (ok_or (ConstraintViolation ''chunk index overflow'') (u32_try_from_usize expected_index)) (\<lambda>expected_index_u32.
     if ck_chunk_index chunk \<noteq> expected_index_u32 then Inl malformed_chunks
     else rbind (validate_size_padded_matches_chunk_size (ck_size_padded chunk) chunk_size_bytes) (\<lambda>_.
          validate_sorted_chunks (expected_index + 1) chunk_size_bytes rest))"

definition read_and_validate_chunks ::
  "env \<Rightarrow> u64 \<Rightarrow> chunk_record list \<Rightarrow> 's metadata_store \<Rightarrow> ('s, storage_error, chunk_record list \<times> u64 \<times> u64) prog" where
  "read_and_validate_chunks E file_size chunks MS =
     bind (read_chunk_size_bytes E MS) (\<lambda>chunk_size_bytes.
     bind (lift (ok_or (Database ''chunk_size_bytes overflow while sizing blob'') (checked_add_u64 chunk_size_bytes 40))) (\<lambda>expected_blob_len.
     let expected_chunk_count_u64 = (if file_size = 0 then 0 else div_ceil file_size chunk_size_bytes) in
     bind (lift (ok_or (Database try_from_int_error) (usize_try_from expected_chunk_count_u64))) (\<lambda>expected_chunk_count.
     if length chunks \<noteq> expected_chunk_count then fail malformed_chunks
     else
       let sorted_chunks = sort_key ck_chunk_index chunks in
       bind (lift (validate_sorted_chunks 0 chunk_size_bytes sorted_chunks)) (\<lambda>_.
       ret (sorted_chunks, chunk_size_bytes, expected_blob_len)))))"


section \<open>Blobs\<close>

text \<open>\<open>try_exists(p).await.unwrap_or(false)\<close>.\<close>

definition exists_or_false :: "env \<Rightarrow> path \<Rightarrow> ('s, storage_error, bool) prog" where
  "exists_or_false E p = bind (attempt (fs_exists E p)) (\<lambda>r. ret (case r of Inl _ \<Rightarrow> False | Inr b \<Rightarrow> b))"

definition resolve_blob_path :: "env \<Rightarrow> path \<Rightarrow> string \<Rightarrow> ('s, storage_error, path) prog" where
  "resolve_blob_path E staging_dir blob_name =
     (let pending = blob_file (staging_dir @ [''pending'']) blob_name;
          cache = blob_file (staging_dir @ [''cache'']) blob_name in
      bind (exists_or_false E pending) (\<lambda>in_pending.
      if in_pending then ret pending
      else bind (exists_or_false E cache) (\<lambda>in_cache.
           if in_cache then ret cache
           else ret (blob_file staging_dir blob_name))))"

definition read_encrypted_blob :: "env \<Rightarrow> path \<Rightarrow> u64 \<Rightarrow> ('s, storage_error, bytes) prog" where
  "read_encrypted_blob E blob_path expected_blob_len =
     bind (with_err from_io (fs_len E blob_path)) (\<lambda>len.
     if len \<noteq> expected_blob_len
     then fail (ConstraintViolation ''encrypted blob length mismatch for configured chunk_size_bytes'')
     else
       bind (lift (ok_or (Database try_from_int_error) (usize_try_from expected_blob_len))) (\<lambda>n.
       bind (with_err from_io (fs_read E blob_path)) (\<lambda>contents.
       if length contents < n then fail (Io ''early eof'') else ret (take n contents))))"

text \<open>The common part of the three loops: find, read, verify and decrypt the blob of a chunk.\<close>

definition decrypt_blob ::
  "env \<Rightarrow> path \<Rightarrow> u64 \<Rightarrow> uuid \<Rightarrow> bytes \<Rightarrow> chunk_record \<Rightarrow> ('s, storage_error, bytes) prog" where
  "decrypt_blob E blob_directory expected_blob_len file_id file_key chunk =
     bind (lift (validate_blob_name_uuid_v4 E (ck_blob_name chunk))) (\<lambda>_.
     bind (resolve_blob_path E blob_directory (ck_blob_name chunk)) (\<lambda>blob_path.
     bind (read_encrypted_blob E blob_path expected_blob_len) (\<lambda>encrypted_blob.
     bind (lift (map_err from_crypto (verify_checksum E encrypted_blob (ck_blake3_checksum chunk)))) (\<lambda>verified_blob.
     lift (map_err from_crypto (decrypt_chunk E verified_blob file_key file_id (ck_chunk_index chunk)))))))"

text \<open>How many bytes of a chunk belong to the file, checked against the decrypted chunk.\<close>

definition bytes_to_write :: "bool \<Rightarrow> u64 \<Rightarrow> u64 \<Rightarrow> chunk_record \<Rightarrow> storage_error + u64" where
  "bytes_to_write is_last file_size chunk_size_bytes chunk =
     (if is_last
      then ok_or (ConstraintViolation ''file_size underflow while computing last-chunk truncation'')
             (checked_sub_u64 file_size (mul_u64 (ck_chunk_index chunk) chunk_size_bytes))
      else Inr chunk_size_bytes)"

definition truncated_plaintext :: "bool \<Rightarrow> u64 \<Rightarrow> u64 \<Rightarrow> chunk_record \<Rightarrow> bytes \<Rightarrow> storage_error + bytes" where
  "truncated_plaintext is_last file_size chunk_size_bytes chunk plaintext =
     rbind (bytes_to_write is_last file_size chunk_size_bytes chunk) (\<lambda>n.
     rbind (ok_or (Database try_from_int_error) (usize_try_from n)) (\<lambda>n.
     if n > length plaintext then Inl (ConstraintViolation ''file_size exceeds padded plaintext length'')
     else Inr (take n plaintext)))"


section \<open>Decryption to a file\<close>

definition temporary_destination_path :: "env \<Rightarrow> path \<Rightarrow> ('s, storage_error, path) prog" where
  "temporary_destination_path E destination =
     draw (\<lambda>t. parent_dir destination @ [''.arx-runa-decrypt-'' @ uuid_hyphenated E (draw_uuid E t 0) @ ''.tmp''])"

definition replace_destination_with_temp :: "env \<Rightarrow> path \<Rightarrow> path \<Rightarrow> ('s, storage_error, unit) prog" where
  "replace_destination_with_temp E destination temporary_destination =
     bind (with_err from_io (fs_exists E destination)) (\<lambda>there.
     if \<not> there then with_err from_io (fs_rename E temporary_destination destination)
     else
       bind (temporary_destination_path E destination) (\<lambda>backup_destination.
       bind (with_err from_io (fs_rename E destination backup_destination)) (\<lambda>_.
       bind (attempt (fs_rename E temporary_destination destination)) (\<lambda>r.
       case r of
         Inl error \<Rightarrow> bind (attempt (fs_rename E backup_destination destination)) (\<lambda>_. fail (from_io error))
       | Inr _ \<Rightarrow> with_err from_io (fs_remove E backup_destination)))))"

fun decrypt_loop ::
  "env \<Rightarrow> bool \<Rightarrow> path \<Rightarrow> uuid \<Rightarrow> bytes \<Rightarrow> u64 \<Rightarrow> u64 \<Rightarrow> u64 \<Rightarrow> path \<Rightarrow> chunk_record list \<Rightarrow> u64
     \<Rightarrow> ('s, storage_error, unit) prog" where
  "decrypt_loop E progress temp file_id file_key file_size chunk_size_bytes blob_len blob_directory [] bytes_decrypted = ret ()"
| "decrypt_loop E progress temp file_id file_key file_size chunk_size_bytes blob_len blob_directory (chunk # rest) bytes_decrypted =
     bind (decrypt_blob E blob_directory blob_len file_id file_key chunk) (\<lambda>plaintext.
     bind (lift (truncated_plaintext (rest = []) file_size chunk_size_bytes chunk plaintext)) (\<lambda>slice.
     bind (with_err from_io (fs_append E temp slice)) (\<lambda>_.
     bind (progress_if progress (bytes_decrypted + length slice) file_size) (\<lambda>_.
     decrypt_loop E progress temp file_id file_key file_size chunk_size_bytes blob_len blob_directory rest
       (bytes_decrypted + length slice)))))"

definition decrypt_file ::
  "env \<Rightarrow> bool \<Rightarrow> path \<Rightarrow> uuid \<Rightarrow> bytes \<Rightarrow> u64 \<Rightarrow> chunk_record list \<Rightarrow> path \<Rightarrow> 's metadata_store
     \<Rightarrow> ('s, storage_error, unit) prog" where
  "decrypt_file E progress destination file_id file_key file_size chunks blob_directory MS =
     bind (read_and_validate_chunks E file_size chunks MS) (\<lambda>(sorted_chunks, chunk_size_bytes, expected_blob_len).
     bind (temporary_destination_path E destination) (\<lambda>temp.
     bind (with_err from_io (fs_write E temp [])) (\<lambda>_.
     bind (attempt
       (bind (decrypt_loop E progress temp file_id file_key file_size chunk_size_bytes expected_blob_len blob_directory sorted_chunks 0) (\<lambda>_.
        bind (with_err from_io (fs_sync E)) (\<lambda>_.
        bind (with_err from_io (fs_sync E)) (\<lambda>_.
        replace_destination_with_temp E destination temp))))) (\<lambda>decrypt_result.
     case decrypt_result of
       Inr _ \<Rightarrow> ret ()
     | Inl error \<Rightarrow> bind (attempt (fs_remove E temp)) (\<lambda>_. fail error)))))"


section \<open>Decryption to memory\<close>

fun decrypt_memory_loop ::
  "env \<Rightarrow> bool \<Rightarrow> uuid \<Rightarrow> bytes \<Rightarrow> u64 \<Rightarrow> u64 \<Rightarrow> u64 \<Rightarrow> path \<Rightarrow> chunk_record list \<Rightarrow> bytes
     \<Rightarrow> ('s, storage_error, bytes) prog" where
  "decrypt_memory_loop E progress file_id file_key file_size chunk_size_bytes blob_len blob_directory [] output = ret output"
| "decrypt_memory_loop E progress file_id file_key file_size chunk_size_bytes blob_len blob_directory (chunk # rest) output =
     bind (decrypt_blob E blob_directory blob_len file_id file_key chunk) (\<lambda>plaintext.
     bind (lift (truncated_plaintext (rest = []) file_size chunk_size_bytes chunk plaintext)) (\<lambda>slice.
     bind (progress_if progress (length (output @ slice)) file_size) (\<lambda>_.
     decrypt_memory_loop E progress file_id file_key file_size chunk_size_bytes blob_len blob_directory rest (output @ slice))))"

definition decrypt_file_to_memory ::
  "env \<Rightarrow> bool \<Rightarrow> uuid \<Rightarrow> bytes \<Rightarrow> u64 \<Rightarrow> chunk_record list \<Rightarrow> path \<Rightarrow> 's metadata_store
     \<Rightarrow> ('s, storage_error, bytes) prog" where
  "decrypt_file_to_memory E progress file_id file_key file_size chunks blob_directory MS =
     bind (read_and_validate_chunks E file_size chunks MS) (\<lambda>(sorted_chunks, chunk_size_bytes, expected_blob_len).
     bind (lift (ok_or (Database try_from_int_error) (usize_try_from file_size))) (\<lambda>_.
     decrypt_memory_loop E progress file_id file_key file_size chunk_size_bytes expected_blob_len blob_directory sorted_chunks []))"

text \<open>Unchecked subtraction on \<open>u64\<close> wraps around in a release build.\<close>

definition sub_u64 :: "u64 \<Rightarrow> u64 \<Rightarrow> u64" where
  [width_simps]: "sub_u64 a b = (if b \<le> a then a - b else a + 2 ^ 64 - b)"

text \<open>The part of one decrypted chunk that lies in the requested range; \<open>None\<close>: nothing of it does.\<close>

definition range_slice ::
  "u64 \<Rightarrow> u64 \<Rightarrow> nat \<Rightarrow> u64 \<Rightarrow> u64 \<Rightarrow> chunk_record \<Rightarrow> bytes \<Rightarrow> storage_error + bytes option" where
  "range_slice file_size chunk_size_bytes chunk_count range_start range_end chunk plaintext =
     (let chunk_file_offset = mul_u64 (ck_chunk_index chunk) chunk_size_bytes in
      rbind (if ck_chunk_index chunk + 1 = chunk_count
             then ok_or (ConstraintViolation ''file_size underflow while computing last-chunk truncation'')
                    (checked_sub_u64 file_size chunk_file_offset)
             else Inr chunk_size_bytes) (\<lambda>real_bytes_in_chunk.
      let chunk_file_end = sub_u64 (add_u64 chunk_file_offset real_bytes_in_chunk) 1;
          overlap_start = max range_start chunk_file_offset;
          overlap_end = min range_end chunk_file_end in
      if overlap_start > overlap_end then Inr None
      else
        rbind (ok_or (Database try_from_int_error) (usize_try_from (overlap_start - chunk_file_offset))) (\<lambda>plain_slice_start.
        rbind (ok_or (Database try_from_int_error) (usize_try_from (add_u64 (overlap_end - chunk_file_offset) 1))) (\<lambda>plain_slice_end.
        if plain_slice_end > length plaintext
        then Inl (ConstraintViolation ''range slice exceeds padded plaintext length'')
        else Inr (Some (drop plain_slice_start (take plain_slice_end plaintext)))))))"

fun decrypt_range_loop ::
  "env \<Rightarrow> uuid \<Rightarrow> bytes \<Rightarrow> u64 \<Rightarrow> u64 \<Rightarrow> u64 \<Rightarrow> nat \<Rightarrow> path \<Rightarrow> u64 \<Rightarrow> u64 \<Rightarrow> chunk_record list \<Rightarrow> bytes
     \<Rightarrow> ('s, storage_error, bytes) prog" where
  "decrypt_range_loop E file_id file_key file_size chunk_size_bytes blob_len chunk_count blob_directory range_start range_end [] output =
     ret output"
| "decrypt_range_loop E file_id file_key file_size chunk_size_bytes blob_len chunk_count blob_directory range_start range_end (chunk # rest) output =
     bind (decrypt_blob E blob_directory blob_len file_id file_key chunk) (\<lambda>plaintext.
     bind (lift (range_slice file_size chunk_size_bytes chunk_count range_start range_end chunk plaintext)) (\<lambda>slice.
     decrypt_range_loop E file_id file_key file_size chunk_size_bytes blob_len chunk_count blob_directory range_start range_end rest
       (output @ (case slice of None \<Rightarrow> [] | Some s \<Rightarrow> s))))"

definition decrypt_file_range_to_memory ::
  "env \<Rightarrow> uuid \<Rightarrow> bytes \<Rightarrow> u64 \<Rightarrow> chunk_record list \<Rightarrow> path \<Rightarrow> 's metadata_store \<Rightarrow> u64 \<Rightarrow> u64
     \<Rightarrow> ('s, storage_error, bytes) prog" where
  "decrypt_file_range_to_memory E file_id file_key file_size chunks blob_directory MS range_start range_end =
     (if range_start > range_end \<or> range_end \<ge> file_size
      then fail (ConstraintViolation ''range is out of bounds for this file'')
      else
        bind (read_and_validate_chunks E file_size chunks MS) (\<lambda>(sorted_chunks, chunk_size_bytes, expected_blob_len).
        let first_chunk_index = range_start div chunk_size_bytes;
            last_chunk_index = range_end div chunk_size_bytes in
        bind (lift (ok_or (Database try_from_int_error) (usize_try_from (add_u64 (range_end - range_start) 1)))) (\<lambda>_.
        decrypt_range_loop E file_id file_key file_size chunk_size_bytes expected_blob_len (length sorted_chunks) blob_directory
          range_start range_end (take (last_chunk_index - first_chunk_index + 1) (drop first_chunk_index sorted_chunks)) [])))"


section \<open>Files packed into an epoch blob\<close>

definition decrypt_epoch_blob_to_slice ::
  "env \<Rightarrow> chunk_record \<Rightarrow> bytes \<Rightarrow> path \<Rightarrow> 's metadata_store \<Rightarrow> ('s, storage_error, bytes \<times> usize \<times> usize) prog" where
  "decrypt_epoch_blob_to_slice E chunk kek blob_directory MS =
     bind (lift (ok_or (ConstraintViolation ''chunk is not an epoch chunk'') (ck_epoch_blob_id chunk))) (\<lambda>epoch_blob_id.
     bind (lift (ok_or (ConstraintViolation ''epoch chunk missing byte_offset'') (ck_byte_offset chunk))) (\<lambda>byte_offset.
     bind (lift (ok_or (ConstraintViolation ''epoch chunk missing byte_length'') (ck_byte_length chunk))) (\<lambda>byte_length.
     bind (query E (ms_get_epoch_blob MS epoch_blob_id)) (\<lambda>record.
     bind (resolve_blob_path E blob_directory (eb_blob_name record)) (\<lambda>blob_path.
     bind (with_err from_io (fs_read E blob_path)) (\<lambda>encrypted_bytes.
     bind (lift (map_err from_crypto (verify_checksum E encrypted_bytes (eb_blake3_checksum record)))) (\<lambda>verified_blob.
     bind (lift (ensure (Database ''epoch blob key_wrapped has wrong length'') (length (eb_file_key_wrapped record) = WRAPPED_LEN))) (\<lambda>_.
     bind (lift (map_err from_crypto (unwrap_file_key E (eb_file_key_wrapped record) (eb_epoch_blob_id record) kek))) (\<lambda>file_key.
     bind (lift (map_err from_crypto (decrypt_chunk E verified_blob file_key (eb_epoch_blob_id record) 0))) (\<lambda>decrypted.
     bind (lift (ok_or (ConstraintViolation ''byte_offset overflows usize'') (usize_try_from byte_offset))) (\<lambda>start.
     bind (lift (ok_or (ConstraintViolation ''byte_offset + byte_length overflow'') (checked_add_u64 byte_offset byte_length))) (\<lambda>extent.
     bind (lift (ok_or (ConstraintViolation ''byte extent overflows usize'') (usize_try_from extent))) (\<lambda>stop.
     if stop > length decrypted
     then fail (ConstraintViolation ''epoch byte range exceeds decrypted blob length'')
     else ret (decrypted, start, stop))))))))))))))"

definition decrypt_epoch_file ::
  "env \<Rightarrow> bool \<Rightarrow> path \<Rightarrow> chunk_record \<Rightarrow> bytes \<Rightarrow> path \<Rightarrow> 's metadata_store \<Rightarrow> ('s, storage_error, unit) prog" where
  "decrypt_epoch_file E progress destination chunk kek blob_directory MS =
     bind (lift (ok_or (ConstraintViolation ''epoch chunk missing byte_length'') (ck_byte_length chunk))) (\<lambda>byte_length.
     bind (decrypt_epoch_blob_to_slice E chunk kek blob_directory MS) (\<lambda>(decrypted, start, stop).
     let file_bytes = drop start (take stop decrypted) in
     bind (temporary_destination_path E destination) (\<lambda>temp.
     bind (with_err from_io (fs_write E temp [])) (\<lambda>_.
     bind (with_err from_io (fs_append E temp file_bytes)) (\<lambda>_.
     bind (with_err from_io (fs_sync E)) (\<lambda>_.
     bind (with_err from_io (fs_sync E)) (\<lambda>_.
     bind (attempt (replace_destination_with_temp E destination temp)) (\<lambda>replace_result.
     case replace_result of
       Inl error \<Rightarrow> bind (attempt (fs_remove E temp)) (\<lambda>_. fail error)
     | Inr _ \<Rightarrow> progress_if progress byte_length byte_length))))))))"

definition decrypt_epoch_file_to_memory ::
  "env \<Rightarrow> bool \<Rightarrow> chunk_record \<Rightarrow> bytes \<Rightarrow> path \<Rightarrow> 's metadata_store \<Rightarrow> ('s, storage_error, bytes) prog" where
  "decrypt_epoch_file_to_memory E progress chunk kek blob_directory MS =
     bind (lift (ok_or (ConstraintViolation ''epoch chunk missing byte_length'') (ck_byte_length chunk))) (\<lambda>byte_length.
     bind (decrypt_epoch_blob_to_slice E chunk kek blob_directory MS) (\<lambda>(decrypted, start, stop).
     let output = drop start (take stop decrypted) in
     bind (progress_if progress byte_length byte_length) (\<lambda>_.
     ret output)))"

end
