(* ===== verification/Encrypt_Lemmas.thy ===== *)
theory Encrypt_Lemmas
  imports Encrypt_File
begin

text \<open>
  Correctness of the encryption pipeline.  Reading is independent of how the operating system splits
  the reads; a successful run leaves every chunk of the source in the staging directory
  (\<open>file_stored\<close>); a run without faults succeeds; a failed run with a single fault leaves nothing behind
  (\<open>nothing_staged\<close>).
\<close>

section \<open>Reading\<close>

lemma take_in_parts:
  assumes "k \<le> m"
  shows "take k xs @ take (m - length (take k xs)) (drop k xs) = take m xs"
    and "drop (m - length (take k xs)) (drop k xs) = drop m xs"
proof -
  show "take k xs @ take (m - length (take k xs)) (drop k xs) = take m xs"
    using assms take_add [of k "m - k" xs] by (cases "k \<le> length xs") simp_all
  show "drop (m - length (take k xs)) (drop k xs) = drop m xs"
    using assms by (cases "k \<le> length xs") simp_all
qed

lemma read_chunk_plaintext_Inr:
  "read_chunk_plaintext E n rest acc w = (Inr (p, rest'), w') \<Longrightarrow> length acc \<le> n \<Longrightarrow>
     p = acc @ take (n - length acc) rest \<and> rest' = drop (n - length acc) rest"
proof (induction E n rest acc w arbitrary: p rest' w' rule: read_chunk_plaintext.induct)
  case (1 E n rest acc w)
  show ?case
  proof (cases "length acc < n")
    case True
    let ?k = "min (n - length acc) (max 1 (read_len E (tick w)))"
    obtain w1 where r: "reader_read E (n - length acc) rest w = (Inr (take ?k rest, drop ?k rest), w1)"
      using "1.prems"(1) True unfolding read_chunk_plaintext.simps [of E n rest acc w]
      by (auto simp: reader_read_def fs_effect_def Let_def split: option.splits)
    show ?thesis
    proof (cases "take ?k rest = []")
      case True
      then have "rest = []" using \<open>length acc < n\<close> by auto
      then show ?thesis
        using "1.prems"(1) r \<open>length acc < n\<close> unfolding read_chunk_plaintext.simps [of E n rest acc w] by simp
    next
      case False
      have e: "read_chunk_plaintext E n (drop ?k rest) (acc @ take ?k rest) w1 = (Inr (p, rest'), w')"
        using "1.prems"(1) r unfolding read_chunk_plaintext.simps [of E n rest acc w]
        by (simp only: r if_P [OF True] if_not_P [OF False] prod.case sum.case)
      have l: "length (acc @ take ?k rest) \<le> n" using True by simp
      show ?thesis
        using "1.IH" [OF True r [symmetric] refl refl False e l] take_in_parts [of ?k "n - length acc" rest]
        by (simp only: append_assoc length_append diff_diff_left [symmetric] min.cobounded1 simp_thms)
    qed
  next
    case False
    then show ?thesis using "1.prems" unfolding read_chunk_plaintext.simps [of E n rest acc w] by simp
  qed
qed

lemma read_chunk_plaintext_touches: "read_chunk_plaintext E n rest acc w = (r, w') \<Longrightarrow> touches {} w w'"
proof (induction E n rest acc w arbitrary: r w' rule: read_chunk_plaintext.induct)
  case (1 E n rest acc w)
  show ?case
  proof (cases "length acc < n")
    case True
    obtain x w1 where r: "reader_read E (n - length acc) rest w = (x, w1)" by fastforce
    note t = touches_read(5) [OF r]
    show ?thesis
    proof (cases "\<exists>now rest1. x = Inr (now, rest1) \<and> now \<noteq> []")
      case False
      then show ?thesis
        using "1.prems" True r t unfolding read_chunk_plaintext.simps [of E n rest acc w]
        by (auto split: sum.splits prod.splits)
    next
      case more: True
      then obtain now rest1 where x: "x = Inr (now, rest1)" "now \<noteq> []" by blast
      then have e: "read_chunk_plaintext E n rest1 (acc @ now) w1 = (r, w')"
        using "1.prems" True r unfolding read_chunk_plaintext.simps [of E n rest acc w] by simp
      show ?thesis
        by (rule touches_trans [OF t "1.IH" [OF True r [symmetric] x(1) refl x(2) e]]) auto
    qed
  next
    case False
    then show ?thesis using "1.prems" unfolding read_chunk_plaintext.simps [of E n rest acc w] by simp
  qed
qed

lemma read_chunk_plaintext_ok:
  assumes "no_faults E"
  shows "\<exists>x w'. read_chunk_plaintext E n rest acc w = (Inr x, w')"
  using assms
proof (induction E n rest acc w rule: read_chunk_plaintext.induct)
  case (1 E n rest acc w)
  let ?k = "min (n - length acc) (max 1 (read_len E (tick w)))"
  have r: "reader_read E (n - length acc) rest w = (Inr (take ?k rest, drop ?k rest), next_tick w)"
    using "1.prems" by (simp add: reader_read_def fs_effect_def Let_def)
  show ?case
  proof (cases "length acc < n \<and> take ?k rest \<noteq> []")
    case True
    then have c: "length acc < n" "take ?k rest \<noteq> []" by blast+
    have "read_chunk_plaintext E n rest acc w = read_chunk_plaintext E n (drop ?k rest) (acc @ take ?k rest) (next_tick w)"
      unfolding read_chunk_plaintext.simps [of E n rest acc w] r
      by (simp only: if_P [OF c(1)] if_not_P [OF c(2)] prod.case sum.case)
    then show ?thesis using "1.IH" [OF c(1) r [symmetric] refl refl c(2) "1.prems"] by simp
  next
    case False
    then show ?thesis unfolding read_chunk_plaintext.simps [of E n rest acc w] r by (auto split: if_splits)
  qed
qed


section \<open>What encryption leaves in the staging directory\<close>

text \<open>
  Record \<open>r\<close> describes chunk \<open>i\<close> with contents \<open>c\<close>: the blob it names, looked up in \<open>blobs\<close>, has the
  fixed length and the recorded checksum, and decrypts under the file's key, identifier and the chunk's
  index to the contents padded with zeros.
\<close>

definition chunk_stored ::
  "env \<Rightarrow> (string \<Rightarrow> bytes option) \<Rightarrow> bytes \<Rightarrow> uuid \<Rightarrow> nat \<Rightarrow> nat \<Rightarrow> bytes \<Rightarrow> chunk_record \<Rightarrow> bool" where
  "chunk_stored E blobs key fid cs i c r \<longleftrightarrow>
     ck_chunk_index r = i \<and> ck_size_padded r = cs \<and> validate_blob_name_uuid_v4 E (ck_blob_name r) = Inr () \<and>
     ck_epoch_blob_id r = None \<and> ck_byte_offset r = None \<and> ck_byte_length r = None \<and>
     (\<exists>blob. blobs (ck_blob_name r) = Some blob \<and> length blob = cs + 40 \<and>
        compute_checksum E blob = ck_blake3_checksum r \<and>
        decrypt_chunk E (VerifiedBlob blob) key fid i = Inr (zero_pad cs c))"

definition chunks_stored ::
  "env \<Rightarrow> (string \<Rightarrow> bytes option) \<Rightarrow> bytes \<Rightarrow> uuid \<Rightarrow> nat \<Rightarrow> nat \<Rightarrow> bytes list \<Rightarrow> chunk_record list \<Rightarrow> bool" where
  "chunks_stored E blobs key fid cs i chunks rs \<longleftrightarrow>
     length rs = length chunks \<and> (\<forall>j < length chunks. chunk_stored E blobs key fid cs (i + j) (chunks ! j) (rs ! j))"

definition file_stored ::
  "env \<Rightarrow> (string \<Rightarrow> bytes option) \<Rightarrow> bytes \<Rightarrow> uuid \<Rightarrow> nat \<Rightarrow> bytes \<Rightarrow> chunk_record list \<Rightarrow> bool" where
  "file_stored E blobs key fid cs content rs \<longleftrightarrow> chunks_stored E blobs key fid cs 0 (chunks_of cs content) rs"

abbreviation blobs_in :: "'s world \<Rightarrow> path \<Rightarrow> string \<Rightarrow> bytes option" where
  "blobs_in w dir b \<equiv> file_at w (blob_file dir b)"

lemma blob_file_inj [simp]: "blob_file d a = blob_file d b \<longleftrightarrow> a = b"
  by (simp add: blob_file_def)

lemma parent_blob_file [simp]: "parent_dir (blob_file d b) = d"
  by (simp add: blob_file_def parent_dir_def)

lemma chunk_stored_cong:
  "chunk_stored E blobs key fid cs i c r \<Longrightarrow> blobs' (ck_blob_name r) = blobs (ck_blob_name r) \<Longrightarrow>
     chunk_stored E blobs' key fid cs i c r"
  by (simp add: chunk_stored_def)

lemma chunks_stored_Nil [simp]: "chunks_stored E blobs key fid cs i [] rs \<longleftrightarrow> rs = []"
  by (auto simp: chunks_stored_def)

lemma chunks_stored_Cons:
  "chunks_stored E blobs key fid cs i (c # chunks) (r # rs) \<longleftrightarrow>
     chunk_stored E blobs key fid cs i c r \<and> chunks_stored E blobs key fid cs (Suc i) chunks rs"
  by (simp add: chunks_stored_def All_less_Suc2) blast

lemma attempt_Inr: "attempt m w = (Inr r, w') \<longleftrightarrow> m w = (r, w')"
  by (auto simp: attempt_def split: prod.splits)

lemma attempt_not_Inl: "attempt m w \<noteq> (Inl e, w')"
  by (auto simp: attempt_def split: prod.splits)

lemma progress_if_eq:
  "progress_if cb a b w = (Inr (), if cb then w\<lparr>progress_log := (a, b) # progress_log w\<rparr> else w)"
  by (simp add: progress_if_def report_progress_def ret_def)

lemma stage_chunk_Inr:
  assumes "stage_chunk E pr fid key dir cs fsz chunk i bp w = (Inr r, w')"
    and "aead_laws E" "uuid_laws E" "length key = 32" "length chunk \<le> cs"
  shows "chunk_stored E (blobs_in w' dir) key fid cs i chunk r" and "touches {blob_file dir (ck_blob_name r)} w w'"
proof -
  obtain blob where e: "encrypt_chunk E (zero_pad cs chunk) key fid i w = (Inr blob, next_tick w)"
    using assms(1) encrypt_chunk_world [of E "zero_pad cs chunk" key fid i w]
    by (fastforce simp: stage_chunk_def bind_Inr)
  note blob = encrypt_decrypt_chunk [OF assms(2,4) e]
  let ?n = "uuid_hyphenated E (draw_uuid E (Suc (tick w)) 0)"
  let ?w1 = "next_tick (next_tick w)"
  from assms(1) obtain w2 w3 where wr: "write_blob_file E dir ?n blob ?w1 = (Inr (), w2)"
    and pr: "w3 = (if pr then w2\<lparr>progress_log := (bp + length chunk, fsz) # progress_log w2\<rparr> else w2)"
    and w': "w' = next_tick w3"
    and r: "r = new_chunk_record (draw_uuid E (tick w3) 0) i ?n cs (compute_checksum E blob)"
    by (auto simp: stage_chunk_def bind_Inr e draw_def Let_def progress_if_eq)
  have f: "files w2 = AList.update (blob_file dir ?n) blob (files ?w1)"
    and t: "touches {blob_file dir ?n} ?w1 w2"
    using wr by (auto simp: write_blob_file_def write_owner_only_def bind_Inr fs_defs touches_def split: option.splits if_splits)
  have p: "files w3 = files w2" "touches {} w2 w3"
    by (auto simp: pr)
  show "touches {blob_file dir (ck_blob_name r)} w w'"
    using t p(2) unfolding r w' by (auto simp: new_chunk_record_def touches_def)
  show "chunk_stored E (blobs_in w' dir) key fid cs i chunk r"
    using blob assms(3,5) unfolding r w'
    by (simp add: chunk_stored_def new_chunk_record_def f p length_zero_pad)
qed

lemma stage_chunk_ok:
  assumes "no_faults E" "aead_laws E" "aead_total E" "length key = 32" "length chunk \<le> cs" "cs \<le> 67108864" "dir \<in> set (dirs w)"
  shows "\<exists>r w'. stage_chunk E pr fid key dir cs fsz chunk i bp w = (Inr r, w')"
proof -
  have "(67108864 :: nat) < 2 ^ 38" by simp
  then have "length (zero_pad cs chunk) < 2 ^ 38"
    using assms(5,6) by (simp add: length_zero_pad)
  then obtain blob where e: "encrypt_chunk E (zero_pad cs chunk) key fid i w = (Inr blob, next_tick w)"
    using encrypt_chunk_total [OF assms(2-4)] by blast
  show ?thesis
    using assms(1,7)
    by (simp add: stage_chunk_def bind_def with_err_def e draw_def Let_def write_blob_file_def write_owner_only_def
        fs_write_def fs_sync_def fs_effect_def progress_if_def report_progress_def ret_def)
qed

text \<open>A later blob of another name leaves the chunks stored so far alone.\<close>

lemma chunks_stored_mono:
  assumes "chunks_stored E (blobs_in w dir) key fid cs i chunks rs"
    and "touches (blob_file dir ` N) w w'" "N \<inter> ck_blob_name ` set rs = {}"
  shows "chunks_stored E (blobs_in w' dir) key fid cs i chunks rs"
proof -
  have same: "blobs_in w' dir b = blobs_in w dir b" if "b \<in> ck_blob_name ` set rs" for b
  proof (rule touchesD(4) [OF assms(2)])
    have "b \<notin> N" using assms(3) that by (metis disjoint_iff)
    then show "blob_file dir b \<notin> blob_file dir ` N" by (simp add: image_iff)
  qed
  have len: "length rs = length chunks" and all: "\<And>j. j < length chunks \<Longrightarrow> chunk_stored E (blobs_in w dir) key fid cs (i + j) (chunks ! j) (rs ! j)"
    using assms(1) by (auto simp: chunks_stored_def)
  have "chunk_stored E (blobs_in w' dir) key fid cs (i + j) (chunks ! j) (rs ! j)" if "j < length chunks" for j
    by (rule chunk_stored_cong [OF all [OF that]], rule same) (use that len in simp)
  then show ?thesis using len by (simp add: chunks_stored_def)
qed

text \<open>
  One step of either loop: the chunk just staged stays readable while the rest is staged under other names.
\<close>

lemma staged_Cons:
  assumes "chunk_stored E (blobs_in w1 dir) key fid cs i c r" and t1: "touches {blob_file dir (ck_blob_name r)} w w1"
    and t2: "touches (blob_file dir ` set (map ck_blob_name new)) w1 w'"
    and st: "distinct (map ck_blob_name new) \<Longrightarrow> chunks_stored E (blobs_in w' dir) key fid cs (Suc i) chunks new"
  shows "touches (blob_file dir ` set (map ck_blob_name (r # new))) w w'"
    and "distinct (map ck_blob_name (r # new)) \<Longrightarrow> chunks_stored E (blobs_in w' dir) key fid cs i (c # chunks) (r # new)"
proof -
  show "touches (blob_file dir ` set (map ck_blob_name (r # new))) w w'"
    by (rule touches_trans [OF t1 t2]) auto
  assume d: "distinct (map ck_blob_name (r # new))"
  then have "blob_file dir (ck_blob_name r) \<notin> blob_file dir ` set (map ck_blob_name new)" by auto
  from touchesD(4) [OF t2 this] assms(1) have "chunk_stored E (blobs_in w' dir) key fid cs i c r"
    by (rule chunk_stored_cong [rotated])
  then show "chunks_stored E (blobs_in w' dir) key fid cs i (c # chunks) (r # new)"
    using st d by (simp add: chunks_stored_Cons)
qed

lemma cleanup_staged_blobs_ok:
  "\<exists>w'. cleanup_staged_blobs E dir bs w = (Inr () :: 'e + unit, w') \<and> touches (blob_file dir ` set bs) w w'"
proof (induction bs arbitrary: w)
  case (Cons b bs)
  obtain x w1 where r: "fs_remove E (blob_file dir b) w = (x, w1)" by fastforce
  obtain w' where c: "cleanup_staged_blobs E dir bs w1 = (Inr () :: 'e + unit, w')" "touches (blob_file dir ` set bs) w1 w'"
    using Cons.IH by blast
  have "touches (blob_file dir ` set (b # bs)) w w'"
    by (rule touches_trans [OF touches_change(3) [OF r] c(2)]) auto
  then show ?case using c(1) r by (auto simp: bind_def attempt_def)
qed (simp add: ret_def)

lemma encrypt_chunks_Inr:
  assumes "aead_laws E" "uuid_laws E" "length key = 32"
  shows "encrypt_chunks E pr fid key dir cs fsz chunks i bp rs w = (Inr rs', w') \<Longrightarrow> \<forall>c \<in> set chunks. length c \<le> cs \<Longrightarrow>
    \<exists>new. rs' = rs @ new \<and> touches (blob_file dir ` set (map ck_blob_name new)) w w' \<and>
      (distinct (map ck_blob_name new) \<longrightarrow> chunks_stored E (blobs_in w' dir) key fid cs i chunks new)"
proof (induction chunks arbitrary: i bp rs w)
  case Nil
  then show ?case by simp
next
  case (Cons c chunks)
  obtain r w1 where s: "stage_chunk E pr fid key dir cs fsz c i bp w = (Inr r, w1)"
    using Cons.prems(1) by (auto simp: bind_Inr split: sum.splits prod.splits)
  note st = stage_chunk_Inr [OF s assms]
  have e: "encrypt_chunks E pr fid key dir cs fsz chunks (Suc i) (bp + length c) (rs @ [r]) w1 = (Inr rs', w')"
    using Cons.prems(1) s by (auto simp: width_simps split: if_splits)
  obtain new where new: "rs' = (rs @ [r]) @ new" "touches (blob_file dir ` set (map ck_blob_name new)) w1 w'"
    "distinct (map ck_blob_name new) \<Longrightarrow> chunks_stored E (blobs_in w' dir) key fid cs (Suc i) chunks new"
    using Cons.IH [OF e] Cons.prems(2) by auto
  have le: "length c \<le> cs" using Cons.prems(2) by simp
  show ?case
    using staged_Cons [OF st(1) [OF le] st(2) [OF le] new(2,3)] new(1) by (intro exI [of _ "r # new"]) simp
qed

text \<open>The streaming loop, with the read replaced by what it delivers.\<close>

lemma encrypt_loop_step:
  assumes "encrypt_loop E pr fid key dir cs fsz rest i bp rs w = (x, w')" "0 < cs"
  obtains (read_error) e where "x = Inl (map ck_blob_name rs, e)" "touches {} w w'"
      "read_chunk_plaintext E cs rest [] w = (Inl e, w')"
  | (finished) "rest = []" "x = Inr rs" "touches {} w w'"
  | (stage_error) named e w1 where "rest \<noteq> []" "touches {} w w1"
      "stage_chunk E pr fid key dir cs fsz (take cs rest) i bp w1 = (Inl (named, e), w')"
      "x = Inl (map ck_blob_name rs @ named, e)"
  | (last) r w1 where "rest \<noteq> []" "drop cs rest = []" "length rest < cs" "touches {} w w1"
      "stage_chunk E pr fid key dir cs fsz (take cs rest) i bp w1 = (Inr r, w')" "x = Inr (rs @ [r])"
  | (overflow) r w1 where "rest \<noteq> []" "touches {} w w1" "2 ^ 32 \<le> Suc i"
      "stage_chunk E pr fid key dir cs fsz (take cs rest) i bp w1 = (Inr r, w')"
      "x = Inl (map ck_blob_name (rs @ [r]), ConstraintViolation ''chunk_index overflow'')"
  | (more) r w1 w2 where "rest \<noteq> []" "touches {} w w1"
      "stage_chunk E pr fid key dir cs fsz (take cs rest) i bp w1 = (Inr r, w2)"
      "encrypt_loop E pr fid key dir cs fsz (drop cs rest) (Suc i) (bp + length (take cs rest)) (rs @ [r]) w2 = (x, w')" "Suc i < 2 ^ 32"
proof -
  obtain y w1 where r: "read_chunk_plaintext E cs rest [] w = (y, w1)" by fastforce
  note t = read_chunk_plaintext_touches [OF r]
  note loop = assms(1) [unfolded encrypt_loop.simps [of E pr fid key dir cs fsz rest i bp rs w] r]
  show thesis
  proof (cases y)
    case (Inl e)
    show thesis by (rule read_error [of e]) (use loop t r Inl in simp_all)
  next
    case (Inr a)
    have a: "a = (take cs rest, drop cs rest)"
      using read_chunk_plaintext_Inr [of E cs rest "[]" w "fst a" "snd a" w1] r Inr by (simp add: prod_eq_iff)
    show thesis
    proof (cases "rest = []")
      case True
      show thesis by (rule finished) (use loop t Inr a True in simp_all)
    next
      case False
      then have ne: "take cs rest \<noteq> []" using assms(2) by simp
      obtain z w2 where st: "stage_chunk E pr fid key dir cs fsz (take cs rest) i bp w1 = (z, w2)" by fastforce
      note loop = loop [unfolded Inr a prod.case sum.case if_not_P [OF ne] st]
      show thesis
      proof (cases z)
        case (Inl ne)
        then obtain n e where "z = Inl (n, e)" by (cases ne) simp
        then show thesis using stage_error [OF False t] st loop by simp
      next
        case (Inr rec)
        show thesis
        proof (cases "length rest < cs")
          case True
          then show thesis using last [OF False _ True t] st loop Inr by simp
        next
          case long: False
          then show thesis
            using overflow [OF False t, of rec] more [OF False t, of rec] st loop Inr
            by (cases "Suc i < 2 ^ 32") (simp_all add: width_simps)
        qed
      qed
    qed
  qed
qed

lemma encrypt_loop_Inr:
  assumes "aead_laws E" "uuid_laws E" "length key = 32" "0 < cs"
  shows "encrypt_loop E pr fid key dir cs fsz rest i bp rs w = (Inr rs', w') \<Longrightarrow>
    \<exists>new. rs' = rs @ new \<and> touches (blob_file dir ` set (map ck_blob_name new)) w w' \<and>
      (distinct (map ck_blob_name new) \<longrightarrow> chunks_stored E (blobs_in w' dir) key fid cs i (chunks_of cs rest) new)"
proof (induction "length rest" arbitrary: rest i bp rs w rule: less_induct)
  case less
  have le: "length (take cs rest) \<le> cs" by simp
  from less.prems assms(4) show ?case
  proof (cases rule: encrypt_loop_step)
    case finished
    then show ?thesis by (auto intro: touches_mono)
  next
    case (last r w1)
    note st = stage_chunk_Inr [OF last(5) assms(1-3) le]
    have t: "touches {blob_file dir (ck_blob_name r)} w w'" by (rule touches_trans [OF last(4) st(2)]) auto
    have "chunks_of cs rest = [take cs rest]" using last(1,2) assms(4) by (simp add: chunks_of_step)
    then show ?thesis
      using staged_Cons [OF st(1) t, of "[]" w' "[]"] last(6) by (intro exI [of _ "[r]"]) simp
  next
    case (more r w1 w2)
    have short: "length (drop cs rest) < length rest" using more(1) assms(4) by simp
    obtain new where new: "rs' = (rs @ [r]) @ new" "touches (blob_file dir ` set (map ck_blob_name new)) w2 w'"
      "distinct (map ck_blob_name new) \<Longrightarrow> chunks_stored E (blobs_in w' dir) key fid cs (Suc i) (chunks_of cs (drop cs rest)) new"
      using less.hyps [OF short more(4)] by auto
    note st = stage_chunk_Inr [OF more(3) assms(1-3) le]
    have t: "touches {blob_file dir (ck_blob_name r)} w w2" by (rule touches_trans [OF more(2) st(2)]) auto
    have "chunks_of cs rest = take cs rest # chunks_of cs (drop cs rest)" using more(1) assms(4) by (simp add: chunks_of_step)
    then show ?thesis
      using staged_Cons [OF st(1) t new(2,3)] new(1) by (intro exI [of _ "r # new"]) simp
  qed simp_all
qed


section \<open>Encryption succeeds when nothing fails\<close>

lemma stage_chunk_touches_dirs:
  "stage_chunk E pr fid key dir cs fsz c i bp w = (x, w') \<Longrightarrow> dirs w' = dirs w \<and> store w' = store w"
  by (auto simp: stage_chunk_def bind_def with_err_def encrypt_chunk_eq draw_def write_blob_file_def write_owner_only_def
      fs_write_def fs_sync_def fs_effect_def progress_if_eq ret_def Let_def split: option.splits sum.splits prod.splits if_splits)

lemma encrypt_chunks_ok:
  assumes "no_faults E" "aead_laws E" "aead_total E" "length key = 32" "cs \<le> 67108864"
  shows "\<forall>c \<in> set chunks. length c \<le> cs \<Longrightarrow> dir \<in> set (dirs w) \<Longrightarrow> i + length chunks < 2 ^ 32 \<Longrightarrow>
    \<exists>rs' w'. encrypt_chunks E pr fid key dir cs fsz chunks i bp rs w = (Inr rs', w')"
proof (induction chunks arbitrary: i bp rs w)
  case (Cons c chunks)
  have le: "length c \<le> cs" using Cons.prems(1) by simp
  obtain r w1 where s: "stage_chunk E pr fid key dir cs fsz c i bp w = (Inr r, w1)"
    using stage_chunk_ok [OF assms(1-4) le assms(5) Cons.prems(2)] by blast
  have d: "dir \<in> set (dirs w1)" using Cons.prems(2) stage_chunk_touches_dirs [OF s] by simp
  have "Suc i < 2 ^ 32" using Cons.prems(3) by simp
  moreover have "\<exists>rs' w'. encrypt_chunks E pr fid key dir cs fsz chunks (Suc i) (bp + length c) (rs @ [r]) w1 = (Inr rs', w')"
    by (rule Cons.IH) (use Cons.prems d in simp_all)
  ultimately show ?case using s by (simp add: width_simps)
qed simp

lemma encrypt_loop_ok:
  assumes "no_faults E" "aead_laws E" "aead_total E" "length key = 32" "0 < cs" "cs \<le> 67108864"
  shows "dir \<in> set (dirs w) \<Longrightarrow> i + length (chunks_of cs rest) < 2 ^ 32 \<Longrightarrow>
    \<exists>rs' w'. encrypt_loop E pr fid key dir cs fsz rest i bp rs w = (Inr rs', w')"
proof (induction "length rest" arbitrary: rest i bp rs w rule: less_induct)
  case less
  obtain a w1 where r: "read_chunk_plaintext E cs rest [] w = (Inr a, w1)" using read_chunk_plaintext_ok [OF assms(1)] by blast
  have a: "a = (take cs rest, drop cs rest)"
    using read_chunk_plaintext_Inr [of E cs rest "[]" w "fst a" "snd a" w1] r by (simp add: prod_eq_iff)
  note loop = encrypt_loop.simps [of E pr fid key dir cs fsz rest i bp rs w, unfolded r a prod.case sum.case]
  show ?case
  proof (cases "rest = []")
    case False
    then have ne: "take cs rest \<noteq> []" using assms(5) by simp
    note chunks = chunks_of_step [OF assms(5) False]
    have "dir \<in> set (dirs w1)"
      using less.prems(1) touchesD(2) [OF read_chunk_plaintext_touches [OF r]] by simp
    moreover have "length (take cs rest) \<le> cs" by simp
    ultimately obtain rec w2 where s: "stage_chunk E pr fid key dir cs fsz (take cs rest) i bp w1 = (Inr rec, w2)"
      using stage_chunk_ok [OF assms(1-4) _ assms(6)] by blast
    then have d: "dir \<in> set (dirs w2)"
      using stage_chunk_touches_dirs [OF s] touchesD(2) [OF read_chunk_plaintext_touches [OF r]] less.prems(1) by simp
    have short: "length (drop cs rest) < length rest" using False assms(5) by simp
    have "\<exists>rs' w'. encrypt_loop E pr fid key dir cs fsz (drop cs rest) (Suc i) (bp + length (take cs rest)) (rs @ [rec]) w2 = (Inr rs', w')"
      by (rule less.hyps [OF short d]) (use less.prems(2) chunks in simp)
    moreover have "Suc i < 2 ^ 32" using less.prems(2) chunks by simp
    ultimately show ?thesis unfolding loop s if_not_P [OF ne] prod.case sum.case
      by (auto simp: width_simps min_def not_less)
  next
    case True
    then show ?thesis unfolding loop by simp
  qed
qed


section \<open>Cleaning up after a failure\<close>

text \<open>A fault of the operating system between two points in time.\<close>

definition fault_between :: "env \<Rightarrow> nat \<Rightarrow> nat \<Rightarrow> bool" where
  "fault_between E a b \<longleftrightarrow> (\<exists>n. a \<le> n \<and> n < b \<and> os_fault E n \<noteq> None)"

lemma fault_between_mono: "fault_between E a b \<Longrightarrow> a' \<le> a \<Longrightarrow> b \<le> b' \<Longrightarrow> fault_between E a' b'"
  unfolding fault_between_def by (meson le_trans less_le_trans)

lemma read_chunk_plaintext_Inl:
  "read_chunk_plaintext E n rest acc w = (Inl e, w') \<Longrightarrow> fault_between E (tick w) (tick w')"
proof (induction E n rest acc w rule: read_chunk_plaintext.induct)
  case (1 E n rest acc w)
  have len: "length acc < n"
    using "1.prems" unfolding read_chunk_plaintext.simps [of E n rest acc w] by (simp split: if_splits)
  obtain x w1 where r: "reader_read E (n - length acc) rest w = (x, w1)" by fastforce
  note loop = "1.prems" [unfolded read_chunk_plaintext.simps [of E n rest acc w] if_P [OF len] r prod.case]
  show ?case
  proof (cases x)
    case (Inl a)
    then have "w' = next_tick w" "os_fault E (tick w) \<noteq> None"
      using loop r by (auto simp: reader_read_def fs_effect_def Let_def split: option.splits)
    then show ?thesis by (auto simp: fault_between_def)
  next
    case (Inr a)
    obtain now rest1 where a: "a = (now, rest1)" by (cases a)
    have ne: "now \<noteq> []" and e: "read_chunk_plaintext E n rest1 (acc @ now) w1 = (Inl e, w')"
      using loop by (auto simp: Inr a split: if_splits)
    from "1.IH" [OF len r [symmetric] Inr a [symmetric] ne e] touchesD(3) [OF touches_read(5) [OF r]]
    show ?thesis by (auto intro: fault_between_mono)
  qed
qed

lemma stage_chunk_Inl:
  assumes "stage_chunk E pr fid key dir cs fsz c i bp w = (Inl (named, e), w')"
  shows "touches (blob_file dir ` set named) w w'"
  using assms
  by (auto simp: stage_chunk_def bind_def with_err_def encrypt_chunk_eq draw_def write_blob_file_def write_owner_only_def
      fs_write_def fs_sync_def fs_effect_def progress_if_eq ret_def Let_def touches_def map_err_def
      split: option.splits sum.splits prod.splits if_splits)

lemma stage_chunk_fault:
  assumes "stage_chunk E pr fid key dir cs fsz c i bp w = (Inl x, w')"
    and "aead_laws E" "aead_total E" "length key = 32" "length c \<le> cs" "cs \<le> 67108864" "dir \<in> set (dirs w)"
  shows "fault_between E (tick w) (tick w')"
proof -
  have "(67108864 :: nat) < 2 ^ 38" by simp
  then have "length (zero_pad cs c) < 2 ^ 38" using assms(5,6) by (simp add: length_zero_pad)
  then obtain blob where e: "encrypt_chunk E (zero_pad cs c) key fid i w = (Inr blob, next_tick w)"
    using encrypt_chunk_total [OF assms(2-4)] by blast
  have "os_fault E (Suc (Suc (tick w))) \<noteq> None \<and> tick w' = Suc (Suc (Suc (tick w))) \<or>
      os_fault E (Suc (Suc (Suc (tick w)))) \<noteq> None \<and> tick w' = Suc (Suc (Suc (Suc (tick w))))"
    using assms(1,7)
    by (auto simp: stage_chunk_def bind_def with_err_def e draw_def Let_def write_blob_file_def write_owner_only_def
        fs_write_def fs_sync_def fs_effect_def progress_if_eq ret_def split: option.splits)
  then show ?thesis unfolding fault_between_def
    by (metis lessI less_imp_le_nat less_SucI)
qed

text \<open>Files after a failure that was cleaned up: as before, or a blob of the staging directory that is gone.\<close>

definition cleaned_up :: "path \<Rightarrow> string set \<Rightarrow> 's world \<Rightarrow> 's world \<Rightarrow> bool" where
  "cleaned_up dir N w w' \<longleftrightarrow> touches (blob_file dir ` N) w w' \<and> (\<forall>b \<in> N. blobs_in w' dir b = None)"

lemma cleanup_staged_blobs_gone:
  assumes "\<And>n. tick w \<le> n \<Longrightarrow> os_fault E n = None"
  shows "\<exists>w'. cleanup_staged_blobs E dir bs w = (Inr () :: 'e + unit, w') \<and> cleaned_up dir (set bs) w w'"
  using assms
proof (induction bs arbitrary: w)
  case Nil
  then show ?case by (simp add: ret_def cleaned_up_def)
next
  case (Cons b bs)
  obtain x w1 where r: "fs_remove E (blob_file dir b) w = (x, w1)" by fastforce
  note t1 = touches_change(3) [OF r]
  have gone: "blobs_in w1 dir b = None"
    using r Cons.prems [of "tick w"] by (auto simp: fs_remove_def fs_effect_def split: option.splits)
  have nf: "\<And>n. tick w1 \<le> n \<Longrightarrow> os_fault E n = None"
    using Cons.prems touchesD(3) [OF t1] by simp
  obtain w' where c: "cleanup_staged_blobs E dir bs w1 = (Inr () :: 'e + unit, w')" "touches (blob_file dir ` set bs) w1 w'"
      "\<forall>b \<in> set bs. blobs_in w' dir b = None"
    using Cons.IH [OF nf] unfolding cleaned_up_def by blast
  have "touches (blob_file dir ` set (b # bs)) w w'" by (rule touches_trans [OF t1 c(2)]) auto
  moreover have "blobs_in w' dir b = None"
  proof (cases "b \<in> set bs")
    case False
    then have "blob_file dir b \<notin> blob_file dir ` set bs" by auto
    from touchesD(4) [OF c(2) this] gone show ?thesis by simp
  qed (use c(3) in blast)
  ultimately show ?case using c r by (auto simp: bind_def attempt_def cleaned_up_def)
qed

lemma encrypt_loop_Inl:
  assumes "aead_laws E" "aead_total E" "uuid_laws E" "length key = 32" "0 < cs" "cs \<le> 67108864"
  shows "encrypt_loop E pr fid key dir cs fsz rest i bp rs w = (Inl (names, e), w') \<Longrightarrow> dir \<in> set (dirs w) \<Longrightarrow>
     i + length (chunks_of cs rest) < 2 ^ 32 \<Longrightarrow>
     fault_between E (tick w) (tick w') \<and>
     (\<exists>new. names = map ck_blob_name rs @ new \<and> touches (blob_file dir ` set new) w w')"
proof (induction "length rest" arbitrary: rest i bp rs w rule: less_induct)
  case less
  have le: "length (take cs rest) \<le> cs" by simp
  from less.prems(1) assms(5) show ?case
  proof (cases rule: encrypt_loop_step)
    case (read_error e)
    then show ?thesis using read_chunk_plaintext_Inl [OF read_error(3)] by simp
  next
    case (stage_error named e w1)
    have d: "dir \<in> set (dirs w1)" using less.prems(2) touchesD(2) [OF stage_error(2)] by simp
    have "touches (blob_file dir ` set named) w w'"
      by (rule touches_trans [OF stage_error(2) stage_chunk_Inl [OF stage_error(3)]]) auto
    moreover have "fault_between E (tick w) (tick w')"
      using stage_chunk_fault [OF stage_error(3) assms(1,2,4) le assms(6) d] touchesD(3) [OF stage_error(2)]
      by (auto intro: fault_between_mono)
    ultimately show ?thesis using stage_error(4) by simp
  next
    case (overflow r w1)
    then show ?thesis using less.prems(3) chunks_of_step [OF assms(5) overflow(1)] by simp
  next
    case (more r w1 w2)
    note st = stage_chunk_Inr [OF more(3) assms(1,3,4) le]
    have short: "length (drop cs rest) < length rest" using more(1) assms(5) by simp
    have t: "touches {blob_file dir (ck_blob_name r)} w w2" by (rule touches_trans [OF more(2) st(2)]) auto
    have d: "dir \<in> set (dirs w2)" using less.prems(2) touchesD(2) [OF t] by simp
    have i: "Suc i + length (chunks_of cs (drop cs rest)) < 2 ^ 32"
      using less.prems(3) chunks_of_step [OF assms(5) more(1)] by simp
    from less.hyps [OF short more(4) d i] obtain new where new: "fault_between E (tick w2) (tick w')"
      "names = map ck_blob_name (rs @ [r]) @ new" "touches (blob_file dir ` set new) w2 w'" by blast
    have "touches (blob_file dir ` set (ck_blob_name r # new)) w w'" by (rule touches_trans [OF t new(3)]) auto
    then show ?thesis using new(1,2) touchesD(3) [OF t]
      by (auto intro: fault_between_mono intro!: exI [of _ "ck_blob_name r # new"])
  qed simp_all
qed

text \<open>At most one effect of a run fails.\<close>

definition single_fault :: "env \<Rightarrow> bool" where
  "single_fault E \<longleftrightarrow> (\<forall>m n. os_fault E m \<noteq> None \<and> os_fault E n \<noteq> None \<longrightarrow> m = n)"

lemma single_faultD: "single_fault E \<Longrightarrow> fault_between E a b \<Longrightarrow> b \<le> n \<Longrightarrow> os_fault E n = None"
  unfolding single_fault_def fault_between_def by (metis not_le)

lemma encrypt_chunks_Inl:
  assumes "single_fault E" "aead_laws E" "aead_total E" "uuid_laws E" "length key = 32" "cs \<le> 67108864"
  shows "encrypt_chunks E pr fid key dir cs fsz chunks i bp rs w = (Inl e, w') \<Longrightarrow> \<forall>c \<in> set chunks. length c \<le> cs \<Longrightarrow>
     dir \<in> set (dirs w) \<Longrightarrow> i + length chunks < 2 ^ 32 \<Longrightarrow>
     \<exists>new. cleaned_up dir (set (map ck_blob_name rs @ new)) w w'"
proof (induction chunks arbitrary: i bp rs w)
  case (Cons c chunks)
  have le: "length c \<le> cs" using Cons.prems(2) by simp
  obtain x w1 where s: "stage_chunk E pr fid key dir cs fsz c i bp w = (x, w1)" by fastforce
  show ?case
  proof (cases x)
    case (Inl a)
    obtain named e' where a: "a = (named, e')" by (cases a)
    have f: "fault_between E (tick w) (tick w1)"
      using stage_chunk_fault [OF _ assms(2,3,5) le assms(6) Cons.prems(3)] s Inl by blast
    let ?names = "map ck_blob_name rs @ named"
    obtain w2 where c: "cleanup_staged_blobs E dir ?names w1 = (Inr () :: storage_error + unit, w2)" "cleaned_up dir (set ?names) w1 w2"
      using cleanup_staged_blobs_gone [OF single_faultD [OF assms(1) f]] by blast
    have "w' = w2" using Cons.prems(1) by (simp add: s Inl a bind_def c(1) fail_def)
    moreover have "touches (blob_file dir ` set named) w w1" using stage_chunk_Inl s Inl a by blast
    then have "touches (blob_file dir ` set ?names) w w2"
      by (rule touches_trans) (use c(2) in \<open>auto simp: cleaned_up_def\<close>)
    ultimately show ?thesis using c(2) by (auto simp: cleaned_up_def)
  next
    case (Inr r)
    have s': "stage_chunk E pr fid key dir cs fsz c i bp w = (Inr r, w1)" using s Inr by simp
    note st = stage_chunk_Inr [OF s' assms(2,4,5) le]
    have d: "dir \<in> set (dirs w1)" using Cons.prems(3) touchesD(2) [OF st(2)] by simp
    have i: "Suc i < 2 ^ 32" "Suc i + length chunks < 2 ^ 32" using Cons.prems(4) by simp_all
    have e: "encrypt_chunks E pr fid key dir cs fsz chunks (Suc i) (bp + length c) (rs @ [r]) w1 = (Inl e, w')"
      using Cons.prems(1) s' i(1) by (simp add: width_simps)
    obtain new where new: "cleaned_up dir (set (map ck_blob_name (rs @ [r]) @ new)) w1 w'"
      using Cons.IH [OF e _ d i(2)] Cons.prems(2) by auto
    have "touches (blob_file dir ` set (map ck_blob_name rs @ ck_blob_name r # new)) w w'"
      by (rule touches_trans [OF st(2)]) (use new in \<open>auto simp: cleaned_up_def\<close>)
    then show ?thesis using new by (intro exI [of _ "ck_blob_name r # new"]) (auto simp: cleaned_up_def)
  qed
qed simp


section \<open>The entry points\<close>

text \<open>A \<open>read\<close> of a regular file delivers at least eight bytes when they are there.\<close>

definition reads_eight :: "env \<Rightarrow> bool" where
  "reads_eight E \<longleftrightarrow> (\<forall>t. 8 \<le> read_len E t)"

lemma is_image_magic_pad: "is_image_magic (zero_pad 8 (take 8 bs)) = is_image_magic bs"
proof -
  have "replicate 2 0 = [0, 0 :: byte]" by (simp add: numeral_2_eq_2)
  then have j: "is_jpeg (zero_pad 8 (take 8 bs)) = is_jpeg bs"
    by (cases bs rule: remdups_adj.cases) (simp_all add: is_jpeg_def zero_pad_def)
  have p: "is_png (zero_pad 8 (take 8 bs)) = is_png bs"
  proof (cases "8 \<le> length bs")
    case False
    then have "\<not> is_png bs" by (auto simp: is_png_def PNG_SIGNATURE_def dest: arg_cong [where f = length])
    moreover have "last (zero_pad 8 (take 8 bs)) = 0" using False by (simp add: zero_pad_def)
    then have "\<not> is_png (zero_pad 8 (take 8 bs))"
      using False by (auto simp: is_png_def PNG_SIGNATURE_def length_zero_pad)
    ultimately show ?thesis by simp
  qed (simp add: is_png_def zero_pad_def)
  show ?thesis by (simp add: is_image_magic_def j p)
qed

lemma read_magic_bytes_Inr:
  assumes "read_magic_bytes E p w = (Inr magic, w')" "reads_eight E"
  shows "\<exists>bs. file_at w p = Some bs \<and> is_image_magic magic = is_image_magic bs" "touches {} w w'"
proof -
  have "8 \<le> max 1 (read_len E t)" for t using assms(2) unfolding reads_eight_def by (meson max.coboundedI2)
  then have k: "min 8 (max (Suc 0) (read_len E t)) = 8" for t by simp
  show "\<exists>bs. file_at w p = Some bs \<and> is_image_magic magic = is_image_magic bs" "touches {} w w'"
    using assms(1)
    by (auto simp: read_magic_bytes_def bind_Inr fs_read_def reader_read_def k Let_def fs_effect_def is_image_magic_pad
        touches_def split: option.splits)
qed

lemma chunk_size_unique: "chunk_size_is MS s a \<Longrightarrow> chunk_size_is MS s b \<Longrightarrow> a = b"
  by (auto simp: chunk_size_is_def split: sum.splits option.splits)

lemma encrypt_bytes_Inr:
  assumes "encrypt_bytes E pr bs fid key MS dir w = (Inr rs, w')"
    and "aead_laws E" "uuid_laws E" "length key = 32" "chunk_size_is MS (store w) cs"
  shows "touches (blob_file dir ` set (map ck_blob_name rs)) w w'"
    and "distinct (map ck_blob_name rs) \<Longrightarrow> file_stored E (blobs_in w' dir) key fid cs bs rs"
proof -
  have "touches (blob_file dir ` set (map ck_blob_name rs)) w w' \<and>
      (distinct (map ck_blob_name rs) \<longrightarrow> file_stored E (blobs_in w' dir) key fid cs bs rs)"
  proof (cases "bs = []")
    case True
    then show ?thesis using assms(1) by (simp add: encrypt_bytes_def file_stored_def)
  next
    case False
    then obtain cs' w1 where r: "read_chunk_size_bytes E MS w = (Inr cs', w1)"
      and e: "encrypt_chunks E pr fid key dir cs' (length bs) (chunks_of cs' bs) 0 0 [] w1 = (Inr rs, w')"
      using assms(1) by (auto simp: encrypt_bytes_def bind_Inr)
    have cs: "cs' = cs" using chunk_size_unique [OF read_chunk_size_bytes_Inr [OF r] assms(5)] .
    have w1: "w1 = next_tick w" by (rule read_chunk_size_bytes_world [OF r])
    have "\<forall>c \<in> set (chunks_of cs bs). length c \<le> cs" using chunks_of_sizes by blast
    from encrypt_chunks_Inr [OF assms(2-4) e [unfolded cs] this]
    show ?thesis unfolding w1 by (auto simp: file_stored_def touches_def)
  qed
  then show "touches (blob_file dir ` set (map ck_blob_name rs)) w w'"
    and "distinct (map ck_blob_name rs) \<Longrightarrow> file_stored E (blobs_in w' dir) key fid cs bs rs" by blast+
qed

lemma encrypt_file_inner_Inr:
  assumes "encrypt_file_inner E pr source fid key MS dir w = (Inr rs, w')"
    and "aead_laws E" "uuid_laws E" "length key = 32" "chunk_size_is MS (store w) cs" "file_at w source = Some bs"
  shows "touches (blob_file dir ` set (map ck_blob_name rs)) w w'"
    and "distinct (map ck_blob_name rs) \<Longrightarrow> file_stored E (blobs_in w' dir) key fid cs bs rs"
proof -
  obtain cs' w1 l w2 c w3 where r: "read_chunk_size_bytes E MS w = (Inr cs', w1)"
    and l: "fs_len E source w1 = (l, w2)" and c: "fs_read E source w2 = (Inr c, w3)"
    and e: "encrypt_loop E pr fid key dir cs' (case l of Inl _ \<Rightarrow> 0 | Inr n \<Rightarrow> n) c 0 0 [] w3 = (Inr rs, w')"
    using assms(1) by (auto simp: encrypt_file_inner_def bind_Inr attempt_Inr Let_def)
  have cs: "cs' = cs" using chunk_size_unique [OF read_chunk_size_bytes_Inr [OF r] assms(5)] .
  have w1: "w1 = next_tick w" by (rule read_chunk_size_bytes_world [OF r])
  have t: "touches {} w w3"
    by (rule touches_trans [OF touches_trans [OF _ touches_read(2) [OF l]] touches_read(1) [OF c]]) (auto simp: w1)
  have "file_at w2 source = Some bs" using touchesD(4) [OF touches_read(2) [OF l]] assms(6) w1 by simp
  then have "c = bs" using c by (auto simp: fs_read_def fs_effect_def split: option.splits)
  moreover have "0 < cs" using chunk_size_range [OF assms(5)] by simp
  ultimately have "touches (blob_file dir ` set (map ck_blob_name rs)) w3 w' \<and>
      (distinct (map ck_blob_name rs) \<longrightarrow> file_stored E (blobs_in w' dir) key fid cs bs rs)"
    using encrypt_loop_Inr [OF assms(2-4) _ e [unfolded cs]] by (auto simp: file_stored_def)
  then show "touches (blob_file dir ` set (map ck_blob_name rs)) w w'"
    and "distinct (map ck_blob_name rs) \<Longrightarrow> file_stored E (blobs_in w' dir) key fid cs bs rs"
    using touches_trans [OF t] by blast+
qed

lemma encrypt_file_Inr:
  assumes "encrypt_file E pr source fid key MS dir w = (Inr rs, w')" "reads_eight E"
    and "aead_laws E" "uuid_laws E" "length key = 32" "chunk_size_is MS (store w) cs" "file_at w source = Some bs"
  shows "touches (blob_file dir ` set (map ck_blob_name rs)) w w'"
    and "distinct (map ck_blob_name rs) \<Longrightarrow> file_stored E (blobs_in w' dir) key fid cs (strip_exif bs) rs"
proof -
  obtain magic w1 where m: "read_magic_bytes E source w = (Inr magic, w1)"
    using assms(1) by (auto simp: encrypt_file_def bind_Inr)
  note magic = read_magic_bytes_Inr [OF m assms(2)]
  have img: "is_image_magic magic = is_image_magic bs" using magic(1) assms(7) by auto
  have w1: "chunk_size_is MS (store w1) cs" "file_at w1 source = Some bs"
    using touchesD(1,4) [OF magic(2)] assms(6,7) by auto
  have "touches (blob_file dir ` set (map ck_blob_name rs)) w1 w' \<and>
      (distinct (map ck_blob_name rs) \<longrightarrow> file_stored E (blobs_in w' dir) key fid cs (strip_exif bs) rs)"
  proof (cases "is_image_magic bs")
    case True
    then obtain raw w2 where r: "fs_read E source w1 = (Inr raw, w2)"
      and e: "encrypt_bytes E pr (strip_exif raw) fid key MS dir w2 = (Inr rs, w')"
      using assms(1) m img by (auto simp: encrypt_file_def bind_Inr)
    have raw: "raw = bs" using r w1(2) by (auto simp: fs_read_def fs_effect_def split: option.splits)
    note t = touches_read(1) [OF r]
    have "chunk_size_is MS (store w2) cs" using w1(1) touchesD(1) [OF t] by simp
    from encrypt_bytes_Inr [OF e [unfolded raw] assms(3-5) this] touches_trans [OF t]
    show ?thesis by blast
  next
    case False
    obtain x w2 where e: "encrypt_file_inner E pr source fid key MS dir w1 = (x, w2)" by fastforce
    have "x = Inr rs \<and> w2 = w'"
      using assms(1) False e
      by (cases x) (auto simp: encrypt_file_def bind_def m img attempt_def ret_def fail_def split: prod.splits sum.splits)
    with e have e: "encrypt_file_inner E pr source fid key MS dir w1 = (Inr rs, w')" by simp
    from encrypt_file_inner_Inr [OF e assms(3-5) w1] strip_exif_other [OF False]
    show ?thesis by simp
  qed
  then show "touches (blob_file dir ` set (map ck_blob_name rs)) w w'"
    and "distinct (map ck_blob_name rs) \<Longrightarrow> file_stored E (blobs_in w' dir) key fid cs (strip_exif bs) rs"
    using touches_trans [OF magic(2)] by blast+
qed

text \<open>A source that has fewer than \<open>2^32\<close> chunks whatever the chunk size of the vault.\<close>

definition addressable :: "bytes \<Rightarrow> bool" where
  "addressable bs \<longleftrightarrow> length bs < (2 ^ 32 - 1) * 131072"

lemma chunk_count_bound:
  assumes "addressable bs" "131072 \<le> cs"
  shows "length (chunks_of cs bs) < 2 ^ 32"
proof -
  have "length bs div cs \<le> length bs div 131072" using assms(2) by (simp add: div_le_mono2)
  also have "\<dots> < 2 ^ 32 - 1" using assms(1) unfolding addressable_def by (simp add: less_mult_imp_div_less)
  finally show ?thesis
    using assms(2) by (simp add: length_chunks_of div_ceil_def)
qed

lemma length_strip_exif: "length (strip_exif bs) \<le> length bs"
  by (rule list_emb_length [OF subseq_strip_exif])

text \<open>Success when no effect fails.\<close>

lemma encrypt_bytes_ok:
  assumes "no_faults E" "aead_laws E" "aead_total E" "length key = 32" "chunk_size_is MS (store w) cs"
    and "dir \<in> set (dirs w)" "addressable bs"
  shows "\<exists>rs w'. encrypt_bytes E pr bs fid key MS dir w = (Inr rs, w')"
proof (cases "bs = []")
  case False
  have r: "read_chunk_size_bytes E MS w = (Inr cs, next_tick w)"
    by (rule read_chunk_size_bytes_ok) (use assms(1,5) in simp_all)
  note range = chunk_size_range [OF assms(5)]
  have "\<forall>c \<in> set (chunks_of cs bs). length c \<le> cs" using chunks_of_sizes by blast
  then have "\<exists>rs w'. encrypt_chunks E pr fid key dir cs (length bs) (chunks_of cs bs) 0 0 [] (next_tick w) = (Inr rs, w')"
    by (intro encrypt_chunks_ok [OF assms(1-4)]) (use range assms(6) chunk_count_bound [OF assms(7)] in simp_all)
  then show ?thesis using False by (simp add: encrypt_bytes_def bind_def r)
qed (simp add: encrypt_bytes_def)

lemma encrypt_file_ok:
  assumes "no_faults E" "aead_laws E" "aead_total E" "length key = 32" "chunk_size_is MS (store w) cs"
    and "dir \<in> set (dirs w)" "addressable bs" "file_at w source = Some bs"
  shows "\<exists>rs w'. encrypt_file E pr source fid key MS dir w = (Inr rs, w')"
proof -
  let ?w2 = "next_tick (next_tick w)"
  let ?k = "min 8 (max (Suc 0) (read_len E (Suc (tick w))))"
  have m: "read_magic_bytes E source w = (Inr (zero_pad 8 (take ?k bs)), ?w2)"
    using assms(1,8) by (simp add: read_magic_bytes_def bind_def fs_read_def reader_read_def fs_effect_def with_err_def Let_def ret_def)
  show ?thesis
  proof (cases "is_image_magic (zero_pad 8 (take ?k bs))")
    case True
    have "addressable (strip_exif bs)" using assms(7) length_strip_exif [of bs] by (simp add: addressable_def)
    then have "\<exists>rs w'. encrypt_bytes E pr (strip_exif bs) fid key MS dir (next_tick ?w2) = (Inr rs, w')"
      by (intro encrypt_bytes_ok [OF assms(1-4)]) (use assms(5,6) in simp_all)
    moreover have "fs_read E source ?w2 = (Inr bs, next_tick ?w2)" using assms(1,8) by (simp add: fs_ok)
    ultimately show ?thesis using True by (simp add: encrypt_file_def bind_def with_err_def m)
  next
    case False
    have r: "read_chunk_size_bytes E MS ?w2 = (Inr cs, next_tick ?w2)"
      by (rule read_chunk_size_bytes_ok) (use assms(1,5) in simp_all)
    note range = chunk_size_range [OF assms(5)]
    have "\<exists>rs w'. encrypt_loop E pr fid key dir cs (length bs) bs 0 0 [] (next_tick (next_tick (next_tick ?w2))) = (Inr rs, w')"
      by (rule encrypt_loop_ok [OF assms(1-4)]) (use range assms(6) chunk_count_bound [OF assms(7)] in simp_all)
    then obtain rs w' where "encrypt_file_inner E pr source fid key MS dir ?w2 = (Inr rs, w')"
      using assms(1,8) by (auto simp: encrypt_file_inner_def bind_def with_err_def r attempt_def fs_ok)
    then show ?thesis using False by (simp add: encrypt_file_def bind_def m attempt_def ret_def)
  qed
qed

text \<open>
  A failed run with one fault leaves every file as it was, except that a blob of the staging directory
  whose name was drawn again may be gone.
\<close>

definition nothing_staged :: "path \<Rightarrow> 's world \<Rightarrow> 's world \<Rightarrow> bool" where
  "nothing_staged dir w w' \<longleftrightarrow>
     store w' = store w \<and> (\<forall>p. file_at w' p = file_at w p \<or> file_at w' p = None \<and> parent_dir p = dir)"

lemma nothing_staged_cleaned: "touches {} w w1 \<Longrightarrow> cleaned_up dir N w1 w' \<Longrightarrow> nothing_staged dir w w'"
  unfolding nothing_staged_def cleaned_up_def touches_def by (metis empty_iff imageE parent_blob_file)

lemma nothing_staged_touches: "touches {} w w' \<Longrightarrow> nothing_staged dir w w'"
  by (simp add: nothing_staged_def touches_def)

lemma encrypt_bytes_Inl:
  assumes "encrypt_bytes E pr bs fid key MS dir w = (Inl e, w')"
    and "single_fault E" "aead_laws E" "aead_total E" "uuid_laws E" "length key = 32" "dir \<in> set (dirs w)" "addressable bs"
  shows "nothing_staged dir w w'"
proof -
  have "bs \<noteq> []" using assms(1) by (auto simp: encrypt_bytes_def)
  obtain x w1 where r: "read_chunk_size_bytes E MS w = (x, w1)" by fastforce
  have w1: "w1 = next_tick w" by (rule read_chunk_size_bytes_world [OF r])
  show ?thesis
  proof (cases x)
    case (Inl e')
    then have "w' = w1" using assms(1) r \<open>bs \<noteq> []\<close> by (simp add: encrypt_bytes_def bind_def)
    then show ?thesis by (simp add: nothing_staged_touches w1)
  next
    case (Inr cs)
    note range = chunk_size_range [OF read_chunk_size_bytes_Inr [OF r [unfolded Inr]]]
    have e: "encrypt_chunks E pr fid key dir cs (length bs) (chunks_of cs bs) 0 0 [] w1 = (Inl e, w')"
      using assms(1) r Inr \<open>bs \<noteq> []\<close> by (simp add: encrypt_bytes_def bind_def)
    have "\<forall>c \<in> set (chunks_of cs bs). length c \<le> cs" using chunks_of_sizes by blast
    moreover have "dir \<in> set (dirs w1)" using assms(7) w1 by simp
    moreover have "0 + length (chunks_of cs bs) < 2 ^ 32" using chunk_count_bound [OF assms(8)] range by simp
    ultimately obtain N where "cleaned_up dir N w1 w'"
      using encrypt_chunks_Inl [OF assms(2-6) _ e] range by blast
    then show ?thesis by (rule nothing_staged_cleaned [rotated]) (simp add: w1)
  qed
qed

lemma encrypt_file_inner_Inl:
  assumes "encrypt_file_inner E pr source fid key MS dir w = (Inl (names, e), w')"
    and "aead_laws E" "aead_total E" "uuid_laws E" "length key = 32" "dir \<in> set (dirs w)"
    and "file_at w source = Some bs" "addressable bs"
  shows "touches {} w w' \<and> names = [] \<or> fault_between E (tick w) (tick w') \<and> touches (blob_file dir ` set names) w w'"
proof -
  obtain x w1 where r: "read_chunk_size_bytes E MS w = (x, w1)" by fastforce
  have w1: "w1 = next_tick w" by (rule read_chunk_size_bytes_world [OF r])
  obtain l w2 where l: "fs_len E source w1 = (l, w2)" by fastforce
  obtain y w3 where c: "fs_read E source w2 = (y, w3)" by fastforce
  have t: "touches {} w w3"
    by (rule touches_trans [OF touches_trans [OF _ touches_read(2) [OF l]] touches_read(1) [OF c]]) (auto simp: w1)
  note run = assms(1) [unfolded encrypt_file_inner_def bind_def with_err_def attempt_def r]
  show ?thesis
  proof (cases "\<exists>cs b. x = Inr cs \<and> y = Inr b")
    case False
    then show ?thesis using run l c t w1
      by (cases x; cases y) (auto simp: Let_def touches_def split: prod.splits sum.splits)
  next
    case True
    then obtain cs b where x: "x = Inr cs" and y: "y = Inr b" by blast
    have "file_at w2 source = Some bs" using touchesD(4) [OF touches_read(2) [OF l]] assms(7) w1 by simp
    then have b: "b = bs" using c y by (auto simp: fs_read_def fs_effect_def split: option.splits)
    have e: "encrypt_loop E pr fid key dir cs (case l of Inl _ \<Rightarrow> 0 | Inr n \<Rightarrow> n) bs 0 0 [] w3 = (Inl (names, e), w')"
      using run l c by (simp add: x y b Let_def)
    note range = chunk_size_range [OF read_chunk_size_bytes_Inr [OF r [unfolded x]]]
    have d: "dir \<in> set (dirs w3)" using assms(6) touchesD(2) [OF t] by simp
    have n: "0 + length (chunks_of cs bs) < 2 ^ 32" using chunk_count_bound [OF assms(8)] range by simp
    have "0 < cs" "cs \<le> 67108864" using range by simp_all
    from encrypt_loop_Inl [OF assms(2-5) this e d n]
    have "fault_between E (tick w3) (tick w')" "touches (blob_file dir ` set names) w3 w'" by auto
    then show ?thesis using t touchesD(3) [OF t] touches_trans [OF t] by (blast intro: fault_between_mono)
  qed
qed

lemma encrypt_file_Inl:
  assumes "encrypt_file E pr source fid key MS dir w = (Inl e, w')"
    and "single_fault E" "aead_laws E" "aead_total E" "uuid_laws E" "length key = 32" "dir \<in> set (dirs w)"
    and "file_at w source = Some bs" "addressable bs"
  shows "nothing_staged dir w w'"
proof -
  obtain m w1 where m: "read_magic_bytes E source w = (m, w1)" by fastforce
  have t1: "touches {} w w1"
    using m by (auto simp: read_magic_bytes_def bind_def with_err_def fs_read_def reader_read_def fs_effect_def Let_def
        touches_def ret_def split: option.splits prod.splits sum.splits)
  show ?thesis
  proof (cases "\<exists>magic. m = Inr magic \<and> is_image_magic magic")
    case True
    obtain x w2 where r: "fs_read E source w1 = (x, w2)" by fastforce
    note t2 = touches_read(1) [OF r]
    have t: "touches {} w w2" by (rule touches_trans [OF t1 t2]) auto
    have f: "file_at w1 source = Some bs" using touchesD(4) [OF t1] assms(8) by simp
    show ?thesis
    proof (cases x)
      case (Inl e')
      then have "w' = w2" using assms(1) m r True by (auto simp: encrypt_file_def bind_def with_err_def)
      then show ?thesis using t by (simp add: nothing_staged_touches)
    next
      case (Inr raw)
      have "raw = bs" using r f Inr by (auto simp: fs_read_def fs_effect_def split: option.splits)
      then have e: "encrypt_bytes E pr (strip_exif bs) fid key MS dir w2 = (Inl e, w')"
        using assms(1) m r True Inr by (auto simp: encrypt_file_def bind_def with_err_def)
      have "addressable (strip_exif bs)" using assms(9) length_strip_exif [of bs] by (simp add: addressable_def)
      from encrypt_bytes_Inl [OF e assms(2-6) _ this] touchesD [OF t] assms(7)
      show ?thesis unfolding nothing_staged_def by simp
    qed
  next
    case no_image: False
    obtain x w2 where r: "encrypt_file_inner E pr source fid key MS dir w1 = (x, w2)" by fastforce
    show ?thesis
    proof (cases "\<exists>names e'. x = Inl (names, e') \<and> (\<exists>magic. m = Inr magic)")
      case False
      then have "w' = w1" using assms(1) m r no_image
        by (cases m; cases x) (auto simp: encrypt_file_def bind_def attempt_def ret_def)
      then show ?thesis using t1 by (simp add: nothing_staged_touches)
    next
      case True
      then obtain names e' magic where x: "x = Inl (names, e')" "m = Inr magic" by blast
      obtain w3 where c: "cleanup_staged_blobs E dir names w2 = (Inr () :: storage_error + unit, w3)"
        using cleanup_staged_blobs_ok by blast
      have w': "w' = w3" using assms(1) m r no_image x c
        by (auto simp: encrypt_file_def bind_def attempt_def fail_def)
      have "dir \<in> set (dirs w1)" "file_at w1 source = Some bs" using touchesD(2,4) [OF t1] assms(7,8) by auto
      from encrypt_file_inner_Inl [OF r [unfolded x] assms(3-6) this assms(9)]
      show ?thesis
      proof
        assume "touches {} w1 w2 \<and> names = []"
        then show ?thesis using c w' t1
          by (auto simp: ret_def intro!: nothing_staged_touches intro: touches_trans)
      next
        assume a: "fault_between E (tick w1) (tick w2) \<and> touches (blob_file dir ` set names) w1 w2"
        obtain w4 where c4: "cleanup_staged_blobs E dir names w2 = (Inr () :: storage_error + unit, w4)" "cleaned_up dir (set names) w2 w4"
          using cleanup_staged_blobs_gone [OF single_faultD [OF assms(2) conjunct1 [OF a]]] by blast
        have "w4 = w'" using c4(1) c w' by simp
        then have "cleaned_up dir (set names) w1 w'"
          using a c4(2) touches_trans [of "blob_file dir ` set names" w1 w2] by (auto simp: cleaned_up_def)
        then show ?thesis by (rule nothing_staged_cleaned [OF t1])
      qed
    qed
  qed
qed

end
