(* ===== verification/Decrypt_Lemmas.thy ===== *)
theory Decrypt_Lemmas
  imports Decrypt_File Encrypt_Lemmas "HOL-Library.Multiset"
begin

text \<open>
  Correctness of the decryption pipeline: what a stored file decrypts to, as a whole and by ranges; the
  rejection of tampered blobs; and that the destination of a download is never left half-written.
\<close>

section \<open>Blob lookup\<close>

definition blob_path :: "'s world \<Rightarrow> path \<Rightarrow> string \<Rightarrow> path" where
  "blob_path w dir b =
     (let pending = blob_file (dir @ [''pending'']) b; cache = blob_file (dir @ [''cache'']) b in
      if file_at w pending \<noteq> None \<or> pending \<in> set (dirs w) then pending
      else if file_at w cache \<noteq> None \<or> cache \<in> set (dirs w) then cache
      else blob_file dir b)"

definition blob_lookup :: "'s world \<Rightarrow> path \<Rightarrow> string \<Rightarrow> bytes option" where
  "blob_lookup w dir b = file_at w (blob_path w dir b)"

lemma blob_path_is_blob: "\<exists>d. blob_path w dir b = blob_file d b"
  by (auto simp: blob_path_def Let_def)

lemma blob_path_touches:
  assumes "touches P w w'" "\<And>d b. blob_file d b \<notin> P"
  shows "blob_path w' dir b = blob_path w dir b"
  using touchesD(2,4) [OF assms(1)] assms(2) by (simp add: blob_path_def Let_def cong del: if_weak_cong)

lemma blob_lookup_touches:
  assumes "touches P w w'" "\<And>d b. blob_file d b \<notin> P"
  shows "blob_lookup w' dir = blob_lookup w dir"
proof
  fix b
  obtain d where "blob_path w dir b = blob_file d b" using blob_path_is_blob by blast
  then show "blob_lookup w' dir b = blob_lookup w dir b"
    using touchesD(4) [OF assms(1)] assms(2) by (simp add: blob_lookup_def blob_path_touches [OF assms])
qed

lemma exists_or_false_ok:
  "os_fault E (tick w) = None \<Longrightarrow> exists_or_false E p w = (Inr (file_at w p \<noteq> None \<or> p \<in> set (dirs w)), next_tick w)"
  by (simp add: exists_or_false_def bind_def attempt_def fs_ok ret_def)

lemma exists_or_false_Inr: "\<exists>b. exists_or_false E p w = (Inr b, next_tick w)"
  by (auto simp: exists_or_false_def bind_def attempt_def fs_exists_def fs_effect_def ret_def split: option.splits)

lemma resolve_blob_path_ok:
  assumes "no_faults E"
  shows "\<exists>w'. resolve_blob_path E dir b w = (Inr (blob_path w dir b), w') \<and> touches {} w w'"
  using assms by (auto simp: resolve_blob_path_def blob_path_def bind_def exists_or_false_ok ret_def Let_def touches_def)

lemma resolve_blob_path_touches: "resolve_blob_path E dir b w = (r, w') \<Longrightarrow> touches {} w w'"
proof -
  assume a: "resolve_blob_path E dir b w = (r, w')"
  obtain x where x: "exists_or_false E (blob_file (dir @ [''pending'']) b) w = (Inr x, next_tick w)"
    using exists_or_false_Inr by blast
  obtain y where y: "exists_or_false E (blob_file (dir @ [''cache'']) b) (next_tick w) = (Inr y, next_tick (next_tick w))"
    using exists_or_false_Inr by blast
  show ?thesis using a x y by (auto simp: resolve_blob_path_def bind_def Let_def touches_def ret_def split: if_splits)
qed

lemma read_encrypted_blob_ok:
  assumes "no_faults E" "file_at w p = Some blob" "length blob < 2 ^ 64"
  shows "read_encrypted_blob E p (length blob) w = (Inr blob, next_tick (next_tick w))"
  using assms by (simp add: read_encrypted_blob_def bind_def with_err_def fs_ok lift_def width_simps ret_def)

lemma read_encrypted_blob_touches: "read_encrypted_blob E p n w = (r, w') \<Longrightarrow> touches {} w w'"
  by (auto simp: read_encrypted_blob_def bind_def with_err_def fs_len_def fs_read_def fs_effect_def lift_def touches_def ret_def fail_def
      split: option.splits if_splits sum.splits)

lemma decrypt_blob_touches:
  assumes "decrypt_blob E dir n fid key r w = (x, w')"
  shows "touches {} w w'"
proof -
  obtain y w1 where res: "resolve_blob_path E dir (ck_blob_name r) w = (y, w1)" by fastforce
  obtain z w2 where rd: "read_encrypted_blob E (case y of Inr p \<Rightarrow> p | Inl _ \<Rightarrow> []) n w1 = (z, w2)" by fastforce
  have t1: "touches {} w w1" by (rule resolve_blob_path_touches [OF res])
  have t2: "touches {} w w2" by (rule touches_trans [OF t1 read_encrypted_blob_touches [OF rd]]) auto
  show ?thesis
    using assms res rd t1 t2
    by (auto simp: decrypt_blob_def bind_def lift_def split: sum.splits prod.splits)
qed

lemma decrypt_blob_ok:
  assumes "no_faults E" "chunk_stored E (blob_lookup w dir) key fid cs i c r" "cs \<le> 67108864"
  shows "\<exists>w'. decrypt_blob E dir (cs + 40) fid key r w = (Inr (zero_pad cs c), w')"
proof -
  obtain blob where b: "blob_lookup w dir (ck_blob_name r) = Some blob" "length blob = cs + 40"
      "compute_checksum E blob = ck_blake3_checksum r"
      "decrypt_chunk E (VerifiedBlob blob) key fid (ck_chunk_index r) = Inr (zero_pad cs c)"
    and v: "validate_blob_name_uuid_v4 E (ck_blob_name r) = Inr ()"
    using assms(2) by (auto simp: chunk_stored_def)
  obtain w1 where res: "resolve_blob_path E dir (ck_blob_name r) w = (Inr (blob_path w dir (ck_blob_name r)), w1)"
    and t: "touches {} w w1"
    using resolve_blob_path_ok [OF assms(1)] by blast
  have f: "file_at w1 (blob_path w dir (ck_blob_name r)) = Some blob"
    using touchesD(4) [OF t] b(1) by (simp add: blob_lookup_def)
  have "length blob < 2 ^ 64" using b(2) assms(3) by simp
  from read_encrypted_blob_ok [OF assms(1) f this] b res v
  show ?thesis by (simp add: decrypt_blob_def bind_def lift_def verify_checksum_def)
qed


section \<open>Truncation of the padded plaintext\<close>

lemma mul_u64_small: "i < 2 ^ 32 \<Longrightarrow> cs \<le> 67108864 \<Longrightarrow> mul_u64 i cs = i * cs \<and> i * cs < 2 ^ 58"
proof -
  assume i: "i < 2 ^ 32" and cs: "cs \<le> 67108864"
  have "i * cs \<le> i * 67108864" using cs by simp
  also have "\<dots> < 2 ^ 32 * 67108864" using i by (simp only: mult_less_mono1 zero_less_numeral)
  finally show ?thesis by (simp add: mul_u64_def)
qed

lemma truncated_plaintext_ok:
  assumes "ck_chunk_index r = i" "i < 2 ^ 32" "cs \<le> 67108864" "length c \<le> cs"
    and "is_last \<Longrightarrow> file_size = i * cs + length c" "\<not> is_last \<Longrightarrow> length c = cs"
  shows "truncated_plaintext is_last file_size cs r (zero_pad cs c) = Inr c"
  using assms mul_u64_small [OF assms(2,3)]
  by (cases is_last) (auto simp: truncated_plaintext_def bytes_to_write_def width_simps length_zero_pad take_zero_pad' zero_pad_def)

lemma truncated_plaintext_length:
  assumes "truncated_plaintext is_last file_size cs r p = Inr sl" "ck_chunk_index r < 2 ^ 32" "cs \<le> 67108864"
  shows "length sl = (if is_last then file_size - ck_chunk_index r * cs else cs)"
    and "is_last \<Longrightarrow> ck_chunk_index r * cs \<le> file_size"
  using assms mul_u64_small [OF assms(2,3)]
  by (auto simp: truncated_plaintext_def bytes_to_write_def result_simps checked_sub_u64_def usize_try_from_def split: if_splits)

lemma validate_sorted_chunks_Cons:
  "validate_sorted_chunks i cs (r # rs) = Inr u \<longleftrightarrow>
     i < 2 ^ 32 \<and> ck_chunk_index r = i \<and> ck_size_padded r = cs \<and> validate_sorted_chunks (Suc i) cs rs = Inr u"
  by (auto simp: result_simps width_simps split: if_splits)

lemma validate_sorted_indices: "validate_sorted_chunks i cs rs = Inr () \<Longrightarrow> map ck_chunk_index rs = [i..<i + length rs]"
proof (induction rs arbitrary: i)
  case (Cons r rs)
  have "map ck_chunk_index rs = [Suc i..<Suc i + length rs]" "ck_chunk_index r = i"
    using Cons unfolding validate_sorted_chunks_Cons by blast+
  moreover have "[i..<i + length (r # rs)] = i # [Suc i..<Suc i + length rs]" by (subst upt_conv_Cons) simp_all
  ultimately show ?case by simp
qed simp

lemma validate_sorted_chunks_stored:
  "chunks_stored E blobs key fid cs i chunks rs \<Longrightarrow> i + length rs \<le> 2 ^ 32 \<Longrightarrow> validate_sorted_chunks i cs rs = Inr ()"
proof (induction rs arbitrary: i chunks)
  case (Cons r rs)
  obtain c chunks' where "chunks = c # chunks'" using Cons.prems(1) by (cases chunks) (auto simp: chunks_stored_def)
  with Cons show ?case by (auto simp: chunks_stored_Cons validate_sorted_chunks_Cons chunk_stored_def simp del: validate_sorted_chunks.simps(2))
qed simp


section \<open>The chunk list of a stored file\<close>

lemma chunks_stored_indices: "chunks_stored E blobs key fid cs i chunks rs \<Longrightarrow> map ck_chunk_index rs = [i..<i + length rs]"
  by (auto simp: chunks_stored_def chunk_stored_def intro!: nth_equalityI)

lemma sort_stored:
  assumes "file_stored E blobs key fid cs content rs" "mset chunks = mset rs"
  shows "sort_key ck_chunk_index chunks = rs"
proof -
  have idx: "map ck_chunk_index rs = [0..<length rs]"
    using chunks_stored_indices [OF assms(1) [unfolded file_stored_def]] by simp
  then have "inj_on ck_chunk_index (set rs)" by (metis distinct_map distinct_upt)
  moreover have "set chunks = set rs" using assms(2) by (metis set_mset_mset)
  moreover have "sorted (map ck_chunk_index rs)" unfolding idx by simp
  ultimately show ?thesis
    using sort_key_inj_key_eq [OF assms(2)] by simp
qed

lemma read_and_validate_chunks_ok:
  assumes "no_faults E" "chunk_size_is MS (store w) cs" "file_stored E blobs key fid cs content rs"
    and "mset chunks = mset rs" "length rs < 2 ^ 32"
  shows "read_and_validate_chunks E (length content) chunks MS w = (Inr (rs, cs, cs + 40), next_tick w)"
proof -
  note range = chunk_size_range [OF assms(2)]
  have r: "read_chunk_size_bytes E MS w = (Inr cs, next_tick w)"
    by (rule read_chunk_size_bytes_ok) (use assms(1,2) in simp_all)
  have len: "length rs = div_ceil (length content) cs"
    using assms(3) range by (simp add: file_stored_def chunks_stored_def length_chunks_of)
  have "length chunks = length rs" using assms(4) by (metis size_mset)
  moreover have "(if length content = 0 then 0 else div_ceil (length content) cs) = length rs" using len by (simp add: div_ceil_def)
  moreover have "validate_sorted_chunks 0 cs rs = Inr ()"
    by (rule validate_sorted_chunks_stored) (use assms(3,5) in \<open>auto simp: file_stored_def\<close>)
  ultimately show ?thesis
    using range assms(5) sort_stored [OF assms(3,4)]
    by (simp only: read_and_validate_chunks_def bind_def r lift_def Let_def prod.case sum.case)
      (simp add: width_simps ret_def bind_def lift_def)
qed

lemma read_and_validate_chunks_Inr:
  assumes "read_and_validate_chunks E file_size chunks MS w = (Inr (rs, cs, n), w')"
  shows "chunk_size_is MS (store w) cs" "w' = next_tick w" "n = cs + 40"
    and "length rs = (if file_size = 0 then 0 else div_ceil file_size cs)" "validate_sorted_chunks 0 cs rs = Inr ()"
proof -
  obtain w1 where r: "read_chunk_size_bytes E MS w = (Inr cs, w1)"
    using assms by (auto simp: read_and_validate_chunks_def bind_Inr Let_def split: if_splits)
  show "chunk_size_is MS (store w) cs" by (rule read_chunk_size_bytes_Inr [OF r])
  show "w' = next_tick w" "n = cs + 40" "length rs = (if file_size = 0 then 0 else div_ceil file_size cs)"
    "validate_sorted_chunks 0 cs rs = Inr ()"
    using assms read_chunk_size_bytes_world [OF r]
    by (auto simp: read_and_validate_chunks_def bind_Inr Let_def r width_simps result_simps split: if_splits)
qed


section \<open>A stored file decrypts to its contents\<close>

text \<open>One iteration of the loops on a stored file.\<close>

lemma chunk_step:
  assumes "no_faults E" "0 < cs" "cs \<le> 67108864" "i + length (r # rs) \<le> 2 ^ 32"
    and "chunks_stored E (blob_lookup w dir) key fid cs i (chunks_of cs content) (r # rs)"
    and "file_size = i * cs + length content"
  shows "\<exists>w'. decrypt_blob E dir (cs + 40) fid key r w = (Inr (zero_pad cs (take cs content)), w') \<and> touches {} w w'"
    and "truncated_plaintext (rs = []) file_size cs r (zero_pad cs (take cs content)) = Inr (take cs content)"
    and "chunks_stored E (blob_lookup w dir) key fid cs (Suc i) (chunks_of cs (drop cs content)) rs"
    and "file_size = Suc i * cs + length (drop cs content) \<or> rs = [] \<and> drop cs content = []"
proof -
  have ne: "content \<noteq> []" using assms(5) by (auto simp: chunks_stored_def)
  note step = chunks_of_step [OF assms(2) ne]
  have st: "chunk_stored E (blob_lookup w dir) key fid cs i (take cs content) r"
    and rest: "chunks_stored E (blob_lookup w dir) key fid cs (Suc i) (chunks_of cs (drop cs content)) rs"
    using assms(5) unfolding step chunks_stored_Cons by blast+
  show "chunks_stored E (blob_lookup w dir) key fid cs (Suc i) (chunks_of cs (drop cs content)) rs" by (rule rest)
  show "\<exists>w'. decrypt_blob E dir (cs + 40) fid key r w = (Inr (zero_pad cs (take cs content)), w') \<and> touches {} w w'"
    using decrypt_blob_ok [OF assms(1) st assms(3)] decrypt_blob_touches by blast
  have last: "rs = [] \<longleftrightarrow> drop cs content = []"
    using rest assms(2) by (auto simp: chunks_stored_def length_chunks_of div_ceil_def split: if_splits)
  show "truncated_plaintext (rs = []) file_size cs r (zero_pad cs (take cs content)) = Inr (take cs content)"
    by (rule truncated_plaintext_ok [of _ i]) (use st assms(3,4,6) last in \<open>auto simp: chunk_stored_def\<close>)
  show "file_size = Suc i * cs + length (drop cs content) \<or> rs = [] \<and> drop cs content = []"
    using assms(6) last by auto
qed

lemma decrypt_loop_ok:
  assumes "no_faults E" "0 < cs" "cs \<le> 67108864" "\<And>d b. temp \<noteq> blob_file d b"
  shows "chunks_stored E (blob_lookup w dir) key fid cs i (chunks_of cs content) rs \<Longrightarrow> i + length rs \<le> 2 ^ 32 \<Longrightarrow>
     file_size = i * cs + length content \<or> rs = [] \<and> content = [] \<Longrightarrow> file_at w temp = Some acc \<Longrightarrow>
     \<exists>w'. decrypt_loop E pr temp fid key file_size cs (cs + 40) dir rs bd w = (Inr (), w') \<and>
       touches {temp} w w' \<and> file_at w' temp = Some (acc @ content)"
proof (induction rs arbitrary: i content acc bd w)
  case Nil
  then have "content = []" using assms(2) by (auto simp: chunks_stored_def length_chunks_of div_ceil_def split: if_splits)
  with Nil show ?case by simp
next
  case (Cons r rs)
  have fsz: "file_size = i * cs + length content" using Cons.prems(3) by simp
  note s = chunk_step [OF assms(1-3) Cons.prems(2,1) fsz]
  obtain w1 where d: "decrypt_blob E dir (cs + 40) fid key r w = (Inr (zero_pad cs (take cs content)), w1)" and t: "touches {} w w1"
    using s(1) by blast
  let ?w2 = "(next_tick w1)\<lparr>files := AList.update temp (acc @ take cs content) (files w1)\<rparr>"
  let ?w3 = "if pr then ?w2\<lparr>progress_log := (bd + length (take cs content), file_size) # progress_log ?w2\<rparr> else ?w2"
  have a: "fs_append E temp (take cs content) w1 = (Inr (), ?w2)"
    by (rule fs_ok(7)) (use assms(1) touchesD(4) [OF t] Cons.prems(4) in simp_all)
  have t3: "touches {temp} w ?w3" using t by (auto simp: touches_def)
  have look: "blob_lookup ?w3 dir = blob_lookup w dir"
    by (rule blob_lookup_touches [OF t3]) (use assms(4) in auto)
  have "\<exists>w'. decrypt_loop E pr temp fid key file_size cs (cs + 40) dir rs (bd + length (take cs content)) ?w3 = (Inr (), w') \<and>
       touches {temp} ?w3 w' \<and> file_at w' temp = Some ((acc @ take cs content) @ drop cs content)"
  proof (rule Cons.IH [where i = "Suc i"])
    show "chunks_stored E (blob_lookup ?w3 dir) key fid cs (Suc i) (chunks_of cs (drop cs content)) rs"
      using s(3) look by simp
    show "file_size = Suc i * cs + length (drop cs content) \<or> rs = [] \<and> drop cs content = []" by (rule s(4))
  qed (use Cons.prems(2) in simp_all)
  then obtain w' where w': "decrypt_loop E pr temp fid key file_size cs (cs + 40) dir rs (bd + length (take cs content)) ?w3 = (Inr (), w')"
      "touches {temp} ?w3 w'" "file_at w' temp = Some (acc @ content)" by auto
  have "decrypt_loop E pr temp fid key file_size cs (cs + 40) dir (r # rs) bd w = (Inr (), w')"
    using w'(1) by (cases pr) (simp_all add: bind_def d s(2) lift_def with_err_def a progress_if_eq)
  then show ?case using w'(3) touches_trans [OF t3 w'(2)] by blast
qed

lemma decrypt_memory_loop_ok:
  assumes "no_faults E" "0 < cs" "cs \<le> 67108864"
  shows "chunks_stored E (blob_lookup w dir) key fid cs i (chunks_of cs content) rs \<Longrightarrow> i + length rs \<le> 2 ^ 32 \<Longrightarrow>
     file_size = i * cs + length content \<or> rs = [] \<and> content = [] \<Longrightarrow>
     \<exists>w'. decrypt_memory_loop E pr fid key file_size cs (cs + 40) dir rs out w = (Inr (out @ content), w') \<and> touches {} w w'"
proof (induction rs arbitrary: i content out w)
  case Nil
  then have "content = []" using assms(2) by (auto simp: chunks_stored_def length_chunks_of div_ceil_def split: if_splits)
  then show ?case by simp
next
  case (Cons r rs)
  have fsz: "file_size = i * cs + length content" using Cons.prems(3) by simp
  note s = chunk_step [OF assms Cons.prems(2,1) fsz]
  obtain w1 where d: "decrypt_blob E dir (cs + 40) fid key r w = (Inr (zero_pad cs (take cs content)), w1)" and t: "touches {} w w1"
    using s(1) by blast
  let ?w2 = "if pr then w1\<lparr>progress_log := (length (out @ take cs content), file_size) # progress_log w1\<rparr> else w1"
  have t2: "touches {} w ?w2" using t by auto
  have look: "blob_lookup ?w2 dir = blob_lookup w dir" by (rule blob_lookup_touches [OF t2]) simp
  have "\<exists>w'. decrypt_memory_loop E pr fid key file_size cs (cs + 40) dir rs (out @ take cs content) ?w2
      = (Inr ((out @ take cs content) @ drop cs content), w') \<and> touches {} ?w2 w'"
  proof (rule Cons.IH [where i = "Suc i"])
    show "chunks_stored E (blob_lookup ?w2 dir) key fid cs (Suc i) (chunks_of cs (drop cs content)) rs"
      using s(3) look by simp
    show "file_size = Suc i * cs + length (drop cs content) \<or> rs = [] \<and> drop cs content = []" by (rule s(4))
  qed (use Cons.prems(2) in simp)
  then obtain w' where w': "decrypt_memory_loop E pr fid key file_size cs (cs + 40) dir rs (out @ take cs content) ?w2 = (Inr (out @ content), w')"
      "touches {} ?w2 w'" by auto
  have "decrypt_memory_loop E pr fid key file_size cs (cs + 40) dir (r # rs) out w = (Inr (out @ content), w')"
    using w'(1) by (cases pr) (simp_all add: bind_def d s(2) lift_def progress_if_eq)
  then show ?case using touches_trans [OF t2 w'(2)] by blast
qed

lemma decrypt_file_to_memory_ok:
  assumes "no_faults E" "chunk_size_is MS (store w) cs" "file_stored E (blob_lookup w dir) key fid cs content rs"
    and "mset chunks = mset rs" "length rs < 2 ^ 32" "length content < 2 ^ 64"
  shows "\<exists>w'. decrypt_file_to_memory E pr fid key (length content) chunks dir MS w = (Inr content, w') \<and> touches {} w w'"
proof -
  note range = chunk_size_range [OF assms(2)]
  have look: "blob_lookup (next_tick w) dir = blob_lookup w dir" by (rule blob_lookup_touches [of "{}"]) simp_all
  have "\<exists>w'. decrypt_memory_loop E pr fid key (length content) cs (cs + 40) dir rs [] (next_tick w) = (Inr ([] @ content), w') \<and> touches {} (next_tick w) w'"
    by (rule decrypt_memory_loop_ok [where i = 0]) (use assms range look in \<open>simp_all add: file_stored_def\<close>)
  then obtain w' where w': "decrypt_memory_loop E pr fid key (length content) cs (cs + 40) dir rs [] (next_tick w) = (Inr content, w')"
      "touches {} (next_tick w) w'" by auto
  have "touches {} w w'" by (rule touches_trans [OF _ w'(2)]) auto
  then show ?thesis
    using w'(1) read_and_validate_chunks_ok [OF assms(1-5)] assms(6)
    by (simp add: decrypt_file_to_memory_def bind_def lift_def width_simps)
qed


section \<open>Ranges\<close>

lemma sub_range_of_chunk:
  fixes content :: bytes
  assumes "c = take n (drop off content)" "off \<le> a" "b < off + length c" "a \<le> b"
  shows "drop (a - off) (take (b - off + 1) (zero_pad n c)) = drop a (take (Suc b) content)"
proof -
  have "b - off + 1 \<le> length c" using assms(2-4) by linarith
  then have "take (b - off + 1) (zero_pad n c) = take (b - off + 1) c" by (simp add: zero_pad_def)
  also have "\<dots> = take (Suc b - off) (drop off content)"
  proof -
    have "b - off + 1 = Suc b - off" "Suc b - off \<le> n" using assms by (simp_all split: if_splits)
    then show ?thesis by (simp add: assms(1) min_def)
  qed
  also have "\<dots> = drop off (take (Suc b) content)" by (simp add: drop_take)
  finally show ?thesis using assms(2) by simp
qed

text \<open>The part of a stored chunk that \<open>range_slice\<close> keeps.\<close>

lemma range_slice_ok:
  assumes "ck_chunk_index r = i" "i < n" "n < 2 ^ 32" "0 < cs" "cs \<le> 67108864"
    and "n = div_ceil (length content) cs" "length content < 2 ^ 63" "s \<le> e" "e < length content"
    and "c = take cs (drop (i * cs) content)"
  shows "range_slice (length content) cs n s e r (zero_pad cs c) =
     Inr (if max s (i * cs) \<le> min e (i * cs + length c - 1)
          then Some (drop (max s (i * cs)) (take (Suc (min e (i * cs + length c - 1))) content)) else None)"
proof -
  have m: "mul_u64 i cs = i * cs" "i * cs < 2 ^ 58" using mul_u64_small [of i cs] assms(2,3,5) by simp_all
  have off: "i * cs < length content"
  proof -
    have "i * cs \<le> (n - 1) * cs" using assms(2) by (intro mult_le_mono1) simp
    also have "\<dots> < length content" using div_ceil_bounds(2) [OF assms(4), of "length content"] assms(6,9) by fastforce
    finally show ?thesis .
  qed
  have real: "(if i + 1 = n then ok_or (ConstraintViolation ''file_size underflow while computing last-chunk truncation'')
                    (checked_sub_u64 (length content) (i * cs)) else Inr cs) = Inr (length c)"
  proof (cases "i + 1 = n")
    case True
    have "length content \<le> i * cs + cs"
      using div_ceil_bounds(1) [OF assms(4), of "length content"] assms(6) True by (metis Suc_eq_plus1 add.commute mult_Suc)
    then show ?thesis using True off assms(10) by (simp add: width_simps min_def)
  next
    case False
    then have "(i + 1) * cs \<le> (n - 1) * cs" using assms(2) by (intro mult_le_mono1) simp
    also have "\<dots> < length content" using div_ceil_bounds(2) [OF assms(4), of "length content"] assms(6,9) by fastforce
    finally show ?thesis using False assms(10) by (simp add: min_def) linarith
  qed
  have lc: "0 < length c" "i * cs + length c \<le> length content" using off assms(4,10) by (auto simp: min_def)
  then have e: "sub_u64 (add_u64 (i * cs) (length c)) 1 = i * cs + length c - 1"
    using assms(7) by (auto simp: width_simps Suc_le_eq)
  have le: "length c \<le> cs" using assms(10) by simp
  let ?a = "max s (i * cs)" and ?b = "min e (i * cs + length c - 1)"
  show ?thesis
  proof (cases "?a \<le> ?b")
    case False
    then have lt: "?b < ?a" by (simp only: not_le)
    show ?thesis unfolding range_slice_def assms(1) m(1) Let_def real rbind.simps e if_P [OF lt] if_not_P [OF False] ..
  next
    case True
    have b: "?b < i * cs + length c" using lc(1) by linarith
    have cut: "drop (?a - i * cs) (take (?b - i * cs + 1) (zero_pad cs c)) = drop ?a (take (Suc ?b) content)"
      by (rule sub_range_of_chunk [OF assms(10) _ b True]) simp
    have ia: "i * cs \<le> ?a" by (rule max.cobounded2)
    have up: "?b - i * cs + 1 \<le> cs" "?a - i * cs \<le> cs" using ia True b le by linarith+
    moreover have "cs < 2 ^ 64" using assms(5) by simp
    ultimately have sz: "?a - i * cs < 2 ^ 64" "?b - i * cs + 1 < 2 ^ 64" "?b - i * cs + 1 \<le> cs"
      using le_less_trans by blast+
    then have add: "add_u64 (?b - i * cs) 1 = ?b - i * cs + 1" by (simp add: add_u64_def)
    have "\<not> ?b < ?a" using True by (simp only: not_less)
    moreover have "usize_try_from (?a - i * cs) = Some (?a - i * cs)" "usize_try_from (?b - i * cs + 1) = Some (?b - i * cs + 1)"
      using sz(1,2) by (simp_all only: usize_try_from_def if_P)
    moreover have "\<not> length (zero_pad cs c) < ?b - i * cs + 1" using sz(3) le by (simp only: length_zero_pad not_less)
    ultimately show ?thesis
      unfolding range_slice_def assms(1) m(1) Let_def real rbind.simps e add if_P [OF True] cut [symmetric]
      by (simp only: if_False ok_or_simps rbind.simps)
  qed
qed

lemma drop_take_append: "a \<le> b \<Longrightarrow> drop s (take a xs) @ drop (max s a) (take b xs) = drop s (take b xs)"
proof -
  assume "a \<le> b"
  then have "take b xs = take a xs @ drop a (take b xs)"
    by (metis append_take_drop_id min.absorb1 take_take)
  then have e: "drop s (take b xs) = drop s (take a xs) @ drop (s - length (take a xs)) (drop a (take b xs))"
    by (metis drop_append)
  show ?thesis
  proof (cases "a \<le> length xs")
    case True
    then have "s - length (take a xs) + a = max s a" by simp
    then show ?thesis using e by simp
  qed (use \<open>a \<le> b\<close> in simp)
qed

lemma decrypt_range_loop_ok:
  assumes "no_faults E" "0 < cs" "cs \<le> 67108864" "length rs < 2 ^ 32" "length content < 2 ^ 63" "s \<le> e" "e < length content"
    and st: "file_stored E (blob_lookup w dir) key fid cs content rs"
  shows "j + k = Suc (e div cs) \<Longrightarrow> s div cs \<le> j \<Longrightarrow> file_stored E (blob_lookup w dir) key fid cs content rs \<Longrightarrow>
     \<exists>w'. decrypt_range_loop E fid key (length content) cs (cs + 40) (length rs) dir s e (take k (drop j rs))
            (drop s (take (min (Suc e) (j * cs)) content)) w = (Inr (drop s (take (Suc e) content)), w') \<and> touches {} w w'"
proof (induction k arbitrary: j w)
  case 0
  have "Suc e \<le> Suc (e div cs) * cs" using assms(2) by (metis Suc_leI dividend_less_times_div mult.commute mult_Suc_right add.commute)
  then show ?case using 0 by (simp add: min_absorb1)
next
  case (Suc k)
  have len: "length rs = div_ceil (length content) cs"
    using st assms(2) by (simp add: file_stored_def chunks_stored_def length_chunks_of)
  have je: "j * cs \<le> e"
  proof -
    have "j \<le> e div cs" using Suc.prems(1) by simp
    then show ?thesis by (metis div_times_less_eq_dividend le_trans mult_le_mono1)
  qed
  have "j * cs < length rs * cs"
    unfolding len using je assms(7) div_ceil_bounds(1) [OF assms(2), of "length content"] by linarith
  then have j: "j < length rs" by simp
  let ?c = "take cs (drop (j * cs) content)"
  have cs: "chunk_stored E (blob_lookup w dir) key fid cs j ?c (rs ! j)"
    using Suc.prems(3) j nth_chunks_of [OF assms(2), of j content]
    by (auto simp: file_stored_def chunks_stored_def)
  obtain w1 where d: "decrypt_blob E dir (cs + 40) fid key (rs ! j) w = (Inr (zero_pad cs ?c), w1)"
    using decrypt_blob_ok [OF assms(1) cs assms(3)] by blast
  note t = decrypt_blob_touches [OF d]
  have lc: "j * cs + length ?c = min (Suc j * cs) (length content)" "0 < length ?c"
    using je assms(2,7) by (auto simp: min_def)
  let ?b = "min e (j * cs + length ?c - 1)"
  have b: "Suc ?b = min (Suc e) (Suc j * cs)" and ab: "max s (j * cs) \<le> ?b"
  proof -
    have "s < Suc (s div cs) * cs" using assms(2) dividend_less_div_times [of cs s] by (simp add: add.commute)
    also have "\<dots> \<le> Suc j * cs" using Suc.prems(2) by (intro mult_le_mono1) simp
    finally have "s < j * cs + length ?c" using lc(1) assms(6,7) by simp
    then have "s \<le> j * cs + length ?c - 1" "j * cs \<le> j * cs + length ?c - 1" using lc(2) by linarith+
    then show "max s (j * cs) \<le> ?b" using assms(6) je by (simp only: max.bounded_iff min.bounded_iff simp_thms)
    have "Suc (min e (n - 1)) = min (Suc e) n" if "0 < n" for n :: nat using that by simp
    from this [of "j * cs + length ?c"] lc(2) have "Suc ?b = min (Suc e) (j * cs + length ?c)" by linarith
    also have "\<dots> = min (Suc e) (Suc j * cs)" unfolding lc(1) using assms(7) by simp
    finally show "Suc ?b = min (Suc e) (Suc j * cs)" .
  qed
  have idx: "ck_chunk_index (rs ! j) = j" using cs by (simp add: chunk_stored_def)
  have r: "range_slice (length content) cs (length rs) s e (rs ! j) (zero_pad cs ?c) = Inr (Some (drop (max s (j * cs)) (take (min (Suc e) (Suc j * cs)) content)))"
    using range_slice_ok [OF idx j assms(4,2,3) len assms(5-7) refl] ab b by simp
  let ?out = "drop s (take (min (Suc e) (j * cs)) content) @ drop (max s (j * cs)) (take (min (Suc e) (Suc j * cs)) content)"
  have out: "?out = drop s (take (min (Suc e) (Suc j * cs)) content)"
    using drop_take_append [of "j * cs" "min (Suc e) (Suc j * cs)" s content] je by (simp add: min_def)
  have look: "blob_lookup w1 dir = blob_lookup w dir" by (rule blob_lookup_touches [OF t]) simp
  obtain w' where w': "decrypt_range_loop E fid key (length content) cs (cs + 40) (length rs) dir s e (take k (drop (Suc j) rs)) ?out w1
      = (Inr (drop s (take (Suc e) content)), w')" "touches {} w1 w'"
    using Suc.IH [of "Suc j" w1] Suc.prems look unfolding out by auto
  have "take (Suc k) (drop j rs) = rs ! j # take k (drop (Suc j) rs)" using j by (metis Cons_nth_drop_Suc take_Suc_Cons)
  then show ?case
    using w' d r touches_trans [OF t w'(2)] by (simp add: bind_def lift_def)
qed

lemma decrypt_file_range_to_memory_ok:
  assumes "no_faults E" "chunk_size_is MS (store w) cs" "file_stored E (blob_lookup w dir) key fid cs content rs"
    and "mset chunks = mset rs" "length rs < 2 ^ 32" "length content < 2 ^ 63" "s \<le> e" "e < length content"
  shows "\<exists>w'. decrypt_file_range_to_memory E fid key (length content) chunks dir MS s e w
           = (Inr (drop s (take (Suc e) content)), w') \<and> touches {} w w'"
proof -
  note range = chunk_size_range [OF assms(2)]
  have cs: "0 < cs" "cs \<le> 67108864" using range by simp_all
  let ?f = "s div cs" and ?l = "e div cs"
  have fl: "?f \<le> ?l" using assms(7) by (rule div_le_mono)
  have look: "blob_lookup (next_tick w) dir = blob_lookup w dir" by (rule blob_lookup_touches [of "{}"]) simp_all
  have st: "file_stored E (blob_lookup (next_tick w) dir) key fid cs content rs" using assms(3) look by simp
  have "min (Suc e) (?f * cs) \<le> s" by (rule min.coboundedI2) (rule div_times_less_eq_dividend)
  then have nil: "drop s (take (min (Suc e) (?f * cs)) content) = []" by simp
  obtain w' where w': "decrypt_range_loop E fid key (length content) cs (cs + 40) (length rs) dir s e
        (take (?l - ?f + 1) (drop ?f rs)) [] (next_tick w) = (Inr (drop s (take (Suc e) content)), w')" "touches {} (next_tick w) w'"
    using decrypt_range_loop_ok [OF assms(1) cs assms(5-8) st, of ?f "?l - ?f + 1"] fl st nil by auto
  have "touches {} w w'" by (rule touches_trans [OF _ w'(2)]) auto
  moreover have "add_u64 (e - s) 1 = e - s + 1" "e - s + 1 < 2 ^ 64" using assms(6,8) by (simp_all add: add_u64_def)
  ultimately show ?thesis
    using w'(1) read_and_validate_chunks_ok [OF assms(1-5)] assms(7,8)
    by (simp add: decrypt_file_range_to_memory_def bind_def lift_def usize_try_from_def Let_def)
qed


section \<open>The destination of a download\<close>

definition tmp_path :: "env \<Rightarrow> path \<Rightarrow> nat \<Rightarrow> path" where
  "tmp_path E destination t = parent_dir destination @ [''.arx-runa-decrypt-'' @ uuid_hyphenated E (draw_uuid E t 0) @ ''.tmp'']"

lemma temporary_destination_path_eq: "temporary_destination_path E d w = (Inr (tmp_path E d (tick w)), next_tick w)"
  by (simp add: temporary_destination_path_def draw_def tmp_path_def)

lemma tmp_path_not_blob: "tmp_path E d t \<noteq> blob_file d' b"
proof
  assume "tmp_path E d t = blob_file d' b"
  then have "last (last (tmp_path E d t)) = last (last (blob_file d' b))" by simp
  then show False by (simp add: tmp_path_def blob_file_def)
qed

lemma parent_tmp_path [simp]: "parent_dir (tmp_path E d t) = parent_dir d"
  by (simp add: tmp_path_def parent_dir_def)

lemma tmp_path_inj: "uuid_laws E \<Longrightarrow> tmp_path E d s = tmp_path E d t \<longleftrightarrow> draw_uuid E s 0 = draw_uuid E t 0"
  by (simp add: tmp_path_def uuid_hyphenated_inj)

text \<open>The identifiers drawn in a period differ.\<close>

definition fresh_draws :: "env \<Rightarrow> nat \<Rightarrow> nat \<Rightarrow> bool" where
  "fresh_draws E a b \<longleftrightarrow> inj_on (\<lambda>t. draw_uuid E t 0) {a..<b}"

lemma fresh_drawsD: "fresh_draws E a b \<Longrightarrow> a \<le> s \<Longrightarrow> s < t \<Longrightarrow> t < b \<Longrightarrow> draw_uuid E s 0 \<noteq> draw_uuid E t 0"
  unfolding fresh_draws_def by (auto dest!: inj_onD [of _ _ s t])

lemma replace_missing:
  assumes "file_at w dest = None" "dest \<notin> set (dirs w)"
  shows "replace_destination_with_temp E dest temp w =
     (case os_fault E (tick w) of
        Some (m, _) \<Rightarrow> (Inl (Io m), next_tick w)
      | None \<Rightarrow> with_err from_io (fs_rename E temp dest) (next_tick w))"
  using assms by (simp add: replace_destination_with_temp_def bind_def with_err_def fs_exists_def fs_effect_def split: option.splits)

lemma replace_outcome:
  assumes "replace_destination_with_temp E dest temp w = (r, w')" "file_at w temp = Some new" "dest \<notin> set (dirs w)"
    and "temp \<noteq> dest" "tmp_path E dest (Suc (tick w)) \<noteq> temp" "tmp_path E dest (Suc (tick w)) \<noteq> dest"
  shows "touches {dest, temp, tmp_path E dest (Suc (tick w))} w w'"
    and "r = Inr () \<Longrightarrow> file_at w' dest = Some new \<and> file_at w' temp = None"
    and "r = Inl e \<Longrightarrow> single_fault E \<Longrightarrow> parent_dir dest \<in> set (dirs w) \<Longrightarrow> file_at w' dest \<in> {file_at w dest, Some new}"
proof -
  let ?B = "tmp_path E dest (Suc (tick w))"
  have "touches {dest, temp, ?B} w w' \<and> (r = Inr () \<longrightarrow> file_at w' dest = Some new \<and> file_at w' temp = None) \<and>
     (r = Inl e \<longrightarrow> single_fault E \<longrightarrow> parent_dir dest \<in> set (dirs w) \<longrightarrow> file_at w' dest \<in> {file_at w dest, Some new})"
  proof (cases "file_at w dest")
    case None
    then show ?thesis
      using assms unfolding replace_missing [OF None assms(3)]
      by (auto simp: with_err_def fs_rename_def fs_effect_def touches_def split: option.splits if_splits)
  next
    case (Some old)
    note run = assms(1) [unfolded replace_destination_with_temp_def bind_def with_err_def temporary_destination_path_eq attempt_def]
    consider (f0) "os_fault E (tick w) \<noteq> None" | (f2) "os_fault E (tick w) = None" "os_fault E (tick w + 2) \<noteq> None"
      | (f3) "os_fault E (tick w) = None" "os_fault E (tick w + 2) = None" "os_fault E (tick w + 3) \<noteq> None"
      | (ok) "os_fault E (tick w) = None" "os_fault E (tick w + 2) = None" "os_fault E (tick w + 3) = None" by blast
    then show ?thesis
    proof cases
      case f0
      then show ?thesis using run Some by (auto simp: fs_exists_def fs_effect_def)
    next
      case f2
      then show ?thesis using run Some by (auto simp: fs_exists_def fs_rename_def fs_effect_def touches_def)
    next
      case f3
      have "single_fault E \<Longrightarrow> os_fault E (tick w + 4) = None"
        using f3(3) unfolding single_fault_def by fastforce
      with f3 show ?thesis using run Some assms(2-6)
        by (auto simp: fs_exists_def fs_rename_def fs_effect_def touches_def fail_def numeral_eq_Suc split: option.splits if_splits)
    next
      case ok
      then show ?thesis using run Some assms(2-6)
        by (auto simp: fs_exists_def fs_rename_def fs_remove_def fs_effect_def touches_def fail_def numeral_eq_Suc split: option.splits if_splits)
    qed
  qed
  then show "touches {dest, temp, ?B} w w'" "r = Inr () \<Longrightarrow> file_at w' dest = Some new \<and> file_at w' temp = None"
    "r = Inl e \<Longrightarrow> single_fault E \<Longrightarrow> parent_dir dest \<in> set (dirs w) \<Longrightarrow> file_at w' dest \<in> {file_at w dest, Some new}"
    by blast+
qed

lemma replace_ticks: "replace_destination_with_temp E dest temp w = (r, w') \<Longrightarrow> tick w \<le> tick w'"
  by (auto simp: replace_destination_with_temp_def bind_def with_err_def temporary_destination_path_eq attempt_def
      fs_exists_def fs_rename_def fs_remove_def fs_effect_def fail_def split: option.splits if_splits sum.splits prod.splits)

lemma decrypt_loop_touches: "decrypt_loop E pr temp fid key fsz cs n dir rs bd w = (r, w') \<Longrightarrow> touches {temp} w w'"
proof (induction rs arbitrary: bd w)
  case (Cons c rs)
  obtain x w1 where d: "decrypt_blob E dir n fid key c w = (x, w1)" by fastforce
  note t = touches_mono [OF decrypt_blob_touches [OF d], of "{temp}"]
  show ?case
  proof (cases "\<exists>p sl. x = Inr p \<and> truncated_plaintext (rs = []) fsz cs c p = Inr sl")
    case False
    then show ?thesis using Cons.prems t d
      by (cases x; cases "truncated_plaintext (rs = []) fsz cs c (projr x)") (auto simp: bind_def lift_def)
  next
    case True
    then obtain p sl where p: "x = Inr p" "truncated_plaintext (rs = []) fsz cs c p = Inr sl" by blast
    obtain y w2 where a: "fs_append E temp sl w1 = (y, w2)" by fastforce
    have t2: "touches {temp} w w2" by (rule touches_trans [OF t touches_change(2) [OF a]]) auto
    show ?thesis
    proof (cases y)
      case (Inl e)
      then show ?thesis using Cons.prems d p a t2 by (simp add: bind_def lift_def with_err_def)
    next
      case (Inr u)
      let ?w3 = "if pr then w2\<lparr>progress_log := (bd + length sl, fsz) # progress_log w2\<rparr> else w2"
      have "decrypt_loop E pr temp fid key fsz cs n dir rs (bd + length sl) ?w3 = (r, w')"
        using Cons.prems d p a Inr by (cases pr) (simp_all add: bind_def lift_def with_err_def progress_if_eq)
      from Cons.IH [OF this] have "touches {temp} ?w3 w'" .
      then show ?thesis by (rule touches_trans [rotated]) (use t2 in auto)
    qed
  qed
qed simp

lemma decrypt_loop_length:
  "decrypt_loop E pr temp fid key fsz cs n dir rs bd w = (Inr u, w') \<Longrightarrow> validate_sorted_chunks i cs rs = Inr () \<Longrightarrow>
   cs \<le> 67108864 \<Longrightarrow> file_at w temp = Some acc \<Longrightarrow>
   \<exists>out. file_at w' temp = Some (acc @ out) \<and> (if rs = [] then out = [] else i * cs + length out = fsz)"
proof (induction rs arbitrary: i bd w acc)
  case (Cons c rs)
  have v: "i < 2 ^ 32" "ck_chunk_index c = i" "validate_sorted_chunks (Suc i) cs rs = Inr ()"
    using Cons.prems(2) unfolding validate_sorted_chunks_Cons by blast+
  obtain p w1 where d: "decrypt_blob E dir n fid key c w = (Inr p, w1)"
    using Cons.prems(1) by (auto simp: bind_Inr)
  obtain sl where sl: "truncated_plaintext (rs = []) fsz cs c p = Inr sl"
    using Cons.prems(1) d by (cases "truncated_plaintext (rs = []) fsz cs c p") (auto simp: bind_def lift_def)
  have f1: "file_at w1 temp = Some acc" using touchesD(4) [OF decrypt_blob_touches [OF d]] Cons.prems(4) by simp
  obtain w2 where a: "fs_append E temp sl w1 = (Inr (), w2)"
    using Cons.prems(1) d sl by (auto simp: bind_Inr)
  have f2: "file_at w2 temp = Some (acc @ sl)"
    using a f1 by (auto simp: fs_append_def Let_def split: option.splits)
  let ?w3 = "if pr then w2\<lparr>progress_log := (bd + length sl, fsz) # progress_log w2\<rparr> else w2"
  have f3: "file_at ?w3 temp = Some (acc @ sl)" using f2 by simp
  have loop: "decrypt_loop E pr temp fid key fsz cs n dir rs (bd + length sl) ?w3 = (Inr u, w')"
    using Cons.prems(1) d sl a by (cases pr) (simp_all add: bind_def lift_def with_err_def progress_if_eq)
  obtain out where out: "file_at w' temp = Some ((acc @ sl) @ out)" "if rs = [] then out = [] else Suc i * cs + length out = fsz"
    using Cons.IH [OF loop v(3) Cons.prems(3) f3] by blast
  have "i * cs + length (sl @ out) = fsz"
    using truncated_plaintext_length [OF sl _ Cons.prems(3)] v out(2) by (auto split: if_splits)
  then show ?case using out(1) by (intro exI [of _ "sl @ out"]) simp
qed simp

text \<open>
  The phases of \<open>decrypt_file\<close>: it fails before the destination is looked at, or the temporary file holds
  exactly \<open>file_size\<close> bytes when the replacement starts.
\<close>

lemma decrypt_file_phases:
  assumes "decrypt_file E pr dest fid key fsz chunks dir MS w = (r, w')"
  defines "temp \<equiv> tmp_path E dest (Suc (tick w))"
  obtains (early) e where "r = Inl e" "touches {temp} w w'"
  | (replace) out w1 x w2 where "touches {temp} w w1" "tick w + 3 \<le> tick w1" "file_at w1 temp = Some out" "length out = fsz"
      "replace_destination_with_temp E dest temp w1 = (x, w2)" "touches {temp} w2 w'"
      "x = Inr () \<and> r = Inr () \<and> w' = w2 \<or> (\<exists>e. x = Inl e \<and> r = Inl e)"
proof -
  obtain v wa where v: "read_and_validate_chunks E fsz chunks MS w = (v, wa)" by fastforce
  have wa: "wa = next_tick w"
    using v by (auto simp: read_and_validate_chunks_def bind_def lift_def Let_def ret_def fail_def
        dest!: read_chunk_size_bytes_world split: prod.splits sum.splits if_splits)
  show thesis
  proof (cases v)
    case (Inl e)
    then have "r = Inl e" "w' = next_tick w" using assms(1) v wa by (simp_all add: decrypt_file_def bind_def)
    then show thesis by (simp add: early)
  next
    case (Inr y)
    obtain rs cs n where y: "y = (rs, cs, n)" by (cases y)
    note val = read_and_validate_chunks_Inr [OF v [unfolded Inr y]]
    obtain z wb where c: "fs_write E temp [] (next_tick (next_tick w)) = (z, wb)" by fastforce
    have tb: "touches {temp} w wb"
      by (rule touches_trans [OF _ touches_change(1) [OF c]]) (auto simp: touches_def)
    show thesis
    proof (cases z)
      case (Inl e)
      show thesis by (rule early [of "from_io e"])
        (use assms v Inr y wa c Inl tb in \<open>simp_all add: decrypt_file_def bind_def temporary_destination_path_eq with_err_def\<close>)
    next
      case zr: (Inr u)
      have fb: "file_at wb temp = Some []" "tick wb = tick w + 3"
        using c zr by (auto simp: fs_write_def split: if_splits option.splits)
      obtain l wl where loop: "decrypt_loop E pr temp fid key fsz cs n dir rs 0 wb = (l, wl)" by fastforce
      obtain s1 ws where s1: "fs_sync E wl = (s1, ws)" by fastforce
      obtain s2 w1 where s2: "fs_sync E ws = (s2, w1)" by fastforce
      obtain q w2 where rep: "replace_destination_with_temp E dest temp w1 = (q, w2)" by fastforce
      have tl: "touches {temp} w wl" by (rule touches_trans [OF tb decrypt_loop_touches [OF loop]]) auto
      have ts: "touches {temp} w ws" by (rule touches_trans [OF tl touches_read(4) [OF s1]]) auto
      have t1: "touches {temp} w w1" by (rule touches_trans [OF ts touches_read(4) [OF s2]]) auto
      note run = assms(1) [unfolded decrypt_file_def bind_def temporary_destination_path_eq with_err_def attempt_def v Inr y wa]
      show thesis
      proof (cases "\<exists>a b. l = Inr () \<and> s1 = Inr a \<and> s2 = Inr b")
        case False
        define wq where "wq = (case l of Inl _ \<Rightarrow> wl | Inr _ \<Rightarrow> (case s1 of Inl _ \<Rightarrow> ws | Inr _ \<Rightarrow> w1))"
        obtain y w3 where rm: "fs_remove E temp wq = (y, w3)" by fastforce
        have tq: "touches {temp} w wq" using tl ts t1 by (simp add: wq_def split: sum.split)
        have q: "w' = w3 \<and> (\<exists>e. r = Inl e)"
          using run c zr loop s1 s2 False rm unfolding temp_def wq_def
          by (cases l; cases s1; cases s2) (auto simp: fail_def)
        have "touches {temp} w w3" by (rule touches_trans [OF tq touches_change(3) [OF rm]]) auto
        with q show thesis using early by blast
      next
        case True
        note range = chunk_size_range [OF val(1)]
        have l: "l = Inr ()" using True by simp
        obtain out where out: "file_at wl temp = Some out" "if rs = [] then out = [] else length out = fsz"
          using decrypt_loop_length [OF loop [unfolded l] val(5) _ fb(1)] range by (cases "rs = []") auto
        have len: "length out = fsz"
        proof (cases "rs = []")
          case True
          then have "fsz = 0" using val(4) div_ceil_bounds(1) [of cs fsz] range by (auto split: if_splits)
          then show ?thesis using True out(2) by simp
        qed (use out(2) in simp)
        have f1: "file_at w1 temp = Some out"
          using out(1) touchesD(4) [OF touches_read(4) [OF s1], of temp] touchesD(4) [OF touches_read(4) [OF s2], of temp] by simp
        have tk: "tick w + 3 \<le> tick w1"
          using fb(2) touchesD(3) [OF decrypt_loop_touches [OF loop]] touchesD(3) [OF touches_read(4) [OF s1]]
            touchesD(3) [OF touches_read(4) [OF s2]] by simp
        obtain y w3 where rm: "fs_remove E temp w2 = (y, w3)" by fastforce
        show thesis
        proof (rule replace [OF t1 tk f1 len rep])
          show "touches {temp} w2 w'" "q = Inr () \<and> r = Inr () \<and> w' = w2 \<or> (\<exists>e. q = Inl e \<and> r = Inl e)"
            using run c zr loop s1 s2 rep rm True touches_change(3) [OF rm] unfolding temp_def
            by (cases q; auto simp: fail_def ret_def)+
        qed
      qed
    qed
  qed
qed

text \<open>A path that no download uses as a temporary or backup file.\<close>

definition no_temp :: "env \<Rightarrow> path \<Rightarrow> path \<Rightarrow> bool" where
  "no_temp E dest p \<longleftrightarrow> (\<forall>t. p \<noteq> tmp_path E dest t)"

lemma replace_ok:
  assumes "no_faults E" "file_at w temp = Some new" "dest \<notin> set (dirs w)" "parent_dir dest \<in> set (dirs w)"
    and "temp \<noteq> dest" "tmp_path E dest (Suc (tick w)) \<noteq> temp" "tmp_path E dest (Suc (tick w)) \<noteq> dest"
  shows "\<exists>w'. replace_destination_with_temp E dest temp w = (Inr (), w') \<and>
     (\<forall>p. file_at w' p = (if p = dest then Some new else if p = temp then None
        else if p = tmp_path E dest (Suc (tick w)) \<and> file_at w dest \<noteq> None then None else file_at w p))"
proof (cases "file_at w dest")
  case None
  then show ?thesis
    using assms unfolding replace_missing [OF None assms(3)] by (simp add: with_err_def fs_ok(8))
next
  case (Some old)
  let ?B = "tmp_path E dest (Suc (tick w))"
  let ?w3 = "(next_tick (next_tick (next_tick w)))\<lparr>files := AList.update ?B old (AList.delete dest (files w))\<rparr>"
  let ?w4 = "(next_tick ?w3)\<lparr>files := AList.update dest new (AList.delete temp (files ?w3))\<rparr>"
  have r1: "fs_rename E dest ?B (next_tick (next_tick w)) = (Inr (), ?w3)"
    using fs_ok(8) [of E "next_tick (next_tick w)" dest old ?B] assms(1,4) Some by simp
  have r2: "fs_rename E temp dest ?w3 = (Inr (), ?w4)"
    using fs_ok(8) [of E ?w3 temp new dest] assms Some by simp
  have r3: "fs_remove E ?B ?w4 = (Inr (), (next_tick ?w4)\<lparr>files := AList.delete ?B (files ?w4)\<rparr>)"
    using fs_ok(5) [of E ?w4 ?B old] assms Some by simp
  show ?thesis
    using assms(1) Some r1 r2 r3 assms(5-7)
    by (auto simp: replace_destination_with_temp_def bind_def with_err_def fs_ok(3) temporary_destination_path_eq attempt_def)
qed

lemma decrypt_file_ok:
  assumes "decrypt_file E pr dest fid key (length content) chunks dir MS w = (r, w')"
    and "no_faults E" "uuid_laws E" "chunk_size_is MS (store w) cs" "file_stored E (blob_lookup w dir) key fid cs content rs"
    and "mset chunks = mset rs" "length rs < 2 ^ 32" "fresh_draws E (tick w) (tick w' + 2)"
    and "dest \<notin> set (dirs w)" "parent_dir dest \<in> set (dirs w)" "no_temp E dest dest"
  shows "r = Inr ()" "file_at w' dest = Some content" "store w' = store w"
    and "p \<noteq> dest \<Longrightarrow> file_at w' p = file_at w p \<or> file_at w' p = None \<and> (\<exists>t. p = tmp_path E dest t)"
proof -
  let ?T = "tmp_path E dest (Suc (tick w))"
  let ?w2 = "next_tick (next_tick w)"
  let ?w3 = "(next_tick ?w2)\<lparr>files := AList.update ?T [] (files w)\<rparr>"
  note range = chunk_size_range [OF assms(4)]
  have nd: "tmp_path E dest t \<noteq> dest" for t using assms(11) unfolding no_temp_def by metis
  have c: "fs_write E ?T [] ?w2 = (Inr (), ?w3)"
    using fs_ok(4) [of E ?w2 ?T "[]"] assms(2,10) by simp
  have t3: "touches {?T} w ?w3" by (simp add: touches_def)
  have look: "blob_lookup ?w3 dir = blob_lookup w dir"
    by (rule blob_lookup_touches [OF t3]) (use tmp_path_not_blob in \<open>metis singletonD\<close>)
  have "\<exists>w4. decrypt_loop E pr ?T fid key (length content) cs (cs + 40) dir rs 0 ?w3 = (Inr (), w4) \<and>
      touches {?T} ?w3 w4 \<and> file_at w4 ?T = Some ([] @ content)"
    by (rule decrypt_loop_ok [where i = 0])
      (use assms(2,5,7) range look tmp_path_not_blob in \<open>simp_all add: file_stored_def\<close>)
  then obtain w4 where loop: "decrypt_loop E pr ?T fid key (length content) cs (cs + 40) dir rs 0 ?w3 = (Inr (), w4)"
    and t4: "touches {?T} ?w3 w4" and f4: "file_at w4 ?T = Some content" by auto
  let ?w6 = "next_tick (next_tick w4)"
  have t: "touches {?T} w w4" by (rule touches_trans [OF t3 t4]) auto
  have eq: "decrypt_file E pr dest fid key (length content) chunks dir MS w =
     (case replace_destination_with_temp E dest ?T ?w6 of
        (Inr _, w7) \<Rightarrow> (Inr (), w7)
      | (Inl e, w7) \<Rightarrow> (Inl e, snd (fs_remove E ?T w7)))"
    using read_and_validate_chunks_ok [OF assms(2,4-7)] assms(2)
    by (simp add: decrypt_file_def bind_def temporary_destination_path_eq with_err_def c loop attempt_def fs_ok(6) ret_def fail_def
        split: prod.splits sum.splits)
  have tw: "Suc (tick ?w6) < tick w' + 2"
  proof -
    obtain x w7 where r7: "replace_destination_with_temp E dest ?T ?w6 = (x, w7)" by fastforce
    obtain y w8 where r8: "fs_remove E ?T w7 = (y, w8)" by fastforce
    have "tick ?w6 \<le> tick w7" "tick w7 \<le> tick w8" using replace_ticks [OF r7] touchesD(3) [OF touches_change(3) [OF r8]] by simp_all
    moreover have "w' = w7 \<or> w' = w8" using assms(1) eq r7 r8 by (auto split: sum.splits)
    ultimately show ?thesis by auto
  qed
  have "draw_uuid E (Suc (tick w)) 0 \<noteq> draw_uuid E (Suc (tick ?w6)) 0"
    by (rule fresh_drawsD [OF assms(8)]) (use touchesD(3) [OF t] tw in simp_all)
  then have BT: "tmp_path E dest (Suc (tick ?w6)) \<noteq> ?T"
    using tmp_path_inj [OF assms(3), of dest "Suc (tick w)" "Suc (tick ?w6)"] by metis
  have d6: "dest \<notin> set (dirs ?w6)" "parent_dir dest \<in> set (dirs ?w6)" "file_at ?w6 ?T = Some content"
    using touchesD(2) [OF t] assms(9,10) f4 by simp_all
  obtain w7 where rep: "replace_destination_with_temp E dest ?T ?w6 = (Inr (), w7)"
    and f7: "\<forall>p. file_at w7 p = (if p = dest then Some content else if p = ?T then None
        else if p = tmp_path E dest (Suc (tick ?w6)) \<and> file_at ?w6 dest \<noteq> None then None else file_at ?w6 p)"
    using replace_ok [OF assms(2) d6(3) d6(1,2) nd BT nd] by blast
  have r: "r = Inr ()" "w' = w7" using assms(1) eq rep by simp_all
  show "r = Inr ()" by (rule r)
  show "file_at w' dest = Some content" using f7 r(2) by simp
  show "store w' = store w"
    using touchesD(1) [OF replace_outcome(1) [OF rep d6(3,1) nd BT nd]] touchesD(1) [OF t] r(2) by simp
  show "file_at w' p = file_at w p \<or> file_at w' p = None \<and> (\<exists>t. p = tmp_path E dest t)" if "p \<noteq> dest"
    using f7 r(2) that touchesD(4) [OF t, of p] by auto
qed


section \<open>Tampered blobs\<close>

text \<open>The blob of record \<open>r\<close> has the right size but another checksum.\<close>

definition blob_tampered :: "env \<Rightarrow> (string \<Rightarrow> bytes option) \<Rightarrow> nat \<Rightarrow> chunk_record \<Rightarrow> bool" where
  "blob_tampered E blobs cs r \<longleftrightarrow>
     validate_blob_name_uuid_v4 E (ck_blob_name r) = Inr () \<and>
     (\<exists>blob. blobs (ck_blob_name r) = Some blob \<and> length blob = cs + 40 \<and> compute_checksum E blob \<noteq> ck_blake3_checksum r)"

lemma decrypt_blob_tampered:
  assumes "no_faults E" "blob_tampered E (blob_lookup w dir) cs r" "cs \<le> 67108864"
  shows "\<exists>w'. decrypt_blob E dir (cs + 40) fid key r w = (Inl ChecksumMismatch, w')"
proof -
  obtain blob where b: "blob_lookup w dir (ck_blob_name r) = Some blob" "length blob = cs + 40"
      "compute_checksum E blob \<noteq> ck_blake3_checksum r"
    and v: "validate_blob_name_uuid_v4 E (ck_blob_name r) = Inr ()"
    using assms(2) by (auto simp: blob_tampered_def)
  obtain w1 where res: "resolve_blob_path E dir (ck_blob_name r) w = (Inr (blob_path w dir (ck_blob_name r)), w1)"
    and t: "touches {} w w1"
    using resolve_blob_path_ok [OF assms(1)] by blast
  have f: "file_at w1 (blob_path w dir (ck_blob_name r)) = Some blob"
    using touchesD(4) [OF t] b(1) by (simp add: blob_lookup_def)
  have "length blob < 2 ^ 64" using b(2) assms(3) by simp
  from read_encrypted_blob_ok [OF assms(1) f this] b res v
  show ?thesis by (simp add: decrypt_blob_def bind_def lift_def verify_checksum_def)
qed

lemma decrypt_loop_tampered:
  assumes "no_faults E" "cs \<le> 67108864" "\<And>d b. temp \<noteq> blob_file d b"
  shows "chunks_stored E (blob_lookup w dir) key fid cs i chunks pre \<Longrightarrow> \<forall>c \<in> set chunks. length c = cs \<Longrightarrow>
     i + length pre \<le> 2 ^ 32 \<Longrightarrow> blob_tampered E (blob_lookup w dir) cs r \<Longrightarrow> file_at w temp \<noteq> None \<Longrightarrow>
     \<exists>w'. decrypt_loop E pr temp fid key fsz cs (cs + 40) dir (pre @ r # post) bd w = (Inl ChecksumMismatch, w')"
proof (induction pre arbitrary: i chunks bd w)
  case Nil
  obtain w' where "decrypt_blob E dir (cs + 40) fid key r w = (Inl ChecksumMismatch, w')"
    using decrypt_blob_tampered [OF assms(1) Nil.prems(4) assms(2)] by blast
  then show ?case by (simp add: bind_def)
next
  case (Cons a pre)
  obtain c chunks' where ch: "chunks = c # chunks'" using Cons.prems(1) by (cases chunks) (auto simp: chunks_stored_def)
  have st: "chunk_stored E (blob_lookup w dir) key fid cs i c a" "chunks_stored E (blob_lookup w dir) key fid cs (Suc i) chunks' pre"
    using Cons.prems(1) unfolding ch chunks_stored_Cons by blast+
  obtain w1 where d: "decrypt_blob E dir (cs + 40) fid key a w = (Inr (zero_pad cs c), w1)"
    using decrypt_blob_ok [OF assms(1) st(1) assms(2)] by blast
  note t = decrypt_blob_touches [OF d]
  have sl: "truncated_plaintext False fsz cs a (zero_pad cs c) = Inr c"
    by (rule truncated_plaintext_ok [of _ i]) (use st(1) Cons.prems(2,3) assms(2) in \<open>auto simp: chunk_stored_def ch\<close>)
  obtain acc where acc: "file_at w1 temp = Some acc" using Cons.prems(5) touchesD(4) [OF t, of temp] by auto
  let ?w2 = "(next_tick w1)\<lparr>files := AList.update temp (acc @ c) (files w1)\<rparr>"
  let ?w3 = "if pr then ?w2\<lparr>progress_log := (bd + length c, fsz) # progress_log ?w2\<rparr> else ?w2"
  have ap: "fs_append E temp c w1 = (Inr (), ?w2)" by (rule fs_ok(7)) (use assms(1) acc in simp_all)
  have t3: "touches {temp} w ?w3" using t by (auto simp: touches_def)
  have look: "blob_lookup ?w3 dir = blob_lookup w dir" by (rule blob_lookup_touches [OF t3]) (use assms(3) in auto)
  have "\<exists>w'. decrypt_loop E pr temp fid key fsz cs (cs + 40) dir (pre @ r # post) (bd + length c) ?w3 = (Inl ChecksumMismatch, w')"
  proof (rule Cons.IH [where i = "Suc i" and chunks = chunks'])
    show "chunks_stored E (blob_lookup ?w3 dir) key fid cs (Suc i) chunks' pre" "blob_tampered E (blob_lookup ?w3 dir) cs r"
      using st(2) look Cons.prems(4) by simp_all
  qed (use Cons.prems(2,3) ch in simp_all)
  then show ?case using d sl ap by (cases pr) (auto simp: bind_def lift_def with_err_def progress_if_eq)
qed

lemma full_chunks_before:
  assumes "0 < cs" "Suc j < length (chunks_of cs content)" "c \<in> set (take (Suc j) (chunks_of cs content))"
  shows "length c = cs"
proof -
  obtain k where k: "k < Suc j" "c = chunks_of cs content ! k"
    using assms(2,3) by (auto simp: in_set_conv_nth)
  have "Suc k * cs \<le> (div_ceil (length content) cs - 1) * cs"
    using k(1) assms(1,2) by (intro mult_le_mono1) (simp add: length_chunks_of)
  also have "\<dots> < length content"
  proof (rule div_ceil_bounds(2) [OF assms(1)])
    show "0 < length content" using assms(2) by (cases content) auto
  qed
  finally show ?thesis using k assms(1,2) by (simp add: nth_chunks_of)
qed

lemma decrypt_file_tampered_lemma:
  assumes "no_faults E" "chunk_size_is MS (store w) cs" "j < length rs" "length rs < 2 ^ 32"
    and "length rs = div_ceil (length content) cs" "validate_sorted_chunks 0 cs rs = Inr ()"
    and "chunks_stored E (blob_lookup w dir) key fid cs 0 (take j (chunks_of cs content)) (take j rs)"
    and "blob_tampered E (blob_lookup w dir) cs (rs ! j)" "parent_dir dest \<in> set (dirs w)"
  shows "\<exists>w'. decrypt_file E pr dest fid key (length content) rs dir MS w = (Inl ChecksumMismatch, w') \<and>
     (\<forall>p. file_at w' p = (if p = tmp_path E dest (Suc (tick w)) then None else file_at w p))"
proof -
  let ?T = "tmp_path E dest (Suc (tick w))"
  let ?w2 = "next_tick (next_tick w)"
  let ?w3 = "(next_tick ?w2)\<lparr>files := AList.update ?T [] (files w)\<rparr>"
  note range = chunk_size_range [OF assms(2)]
  have r: "read_chunk_size_bytes E MS w = (Inr cs, next_tick w)"
    by (rule read_chunk_size_bytes_ok) (use assms(1,2) in simp_all)
  have idx: "map ck_chunk_index rs = [0..<length rs]" using validate_sorted_indices [OF assms(6)] by simp
  have "sort_key ck_chunk_index rs = rs" by (rule sort_key_id_if_sorted) (simp add: idx)
  moreover have "content \<noteq> []" using assms(3,5) by (auto simp: div_ceil_def)
  ultimately have v: "read_and_validate_chunks E (length content) rs MS w = (Inr (rs, cs, cs + 40), next_tick w)"
    using range assms(4-6)
    by (simp only: read_and_validate_chunks_def bind_def r lift_def Let_def prod.case sum.case)
      (simp add: width_simps ret_def bind_def lift_def)
  have c: "fs_write E ?T [] ?w2 = (Inr (), ?w3)"
    using fs_ok(4) [of E ?w2 ?T "[]"] assms(1,9) by simp
  have t3: "touches {?T} w ?w3" by (simp add: touches_def)
  have look: "blob_lookup ?w3 dir = blob_lookup w dir"
    by (rule blob_lookup_touches [OF t3]) (use tmp_path_not_blob in \<open>metis singletonD\<close>)
  have full: "\<forall>c \<in> set (take j (chunks_of cs content)). length c = cs"
    using full_chunks_before [of cs "j - 1" content] assms(3,5) range
    by (cases j) (auto simp: length_chunks_of)
  have split: "rs = take j rs @ rs ! j # drop (Suc j) rs" using assms(3) by (rule id_take_nth_drop)
  have "\<exists>w'. decrypt_loop E pr ?T fid key (length content) cs (cs + 40) dir (take j rs @ rs ! j # drop (Suc j) rs) 0 ?w3 = (Inl ChecksumMismatch, w')"
    by (rule decrypt_loop_tampered [where i = 0, OF assms(1) _ tmp_path_not_blob _ full])
      (use range assms(3,4,7,8) look in simp_all)
  then obtain w4 where loop: "decrypt_loop E pr ?T fid key (length content) cs (cs + 40) dir rs 0 ?w3 = (Inl ChecksumMismatch, w4)"
    using split by metis
  have t: "touches {?T} w w4" by (rule touches_trans [OF t3 decrypt_loop_touches [OF loop]]) auto
  obtain x w5 where rm: "fs_remove E ?T w4 = (x, w5)" by fastforce
  have "file_at w5 ?T = None" using rm assms(1) by (auto simp: fs_remove_def fs_effect_def split: option.splits)
  moreover have "file_at w5 p = file_at w p" if "p \<noteq> ?T" for p
    using touchesD(4) [OF touches_change(3) [OF rm], of p] touchesD(4) [OF t, of p] that by simp
  moreover have "decrypt_file E pr dest fid key (length content) rs dir MS w = (Inl ChecksumMismatch, w5)"
    by (simp add: decrypt_file_def bind_def v temporary_destination_path_eq with_err_def c loop attempt_def rm fail_def)
  ultimately show ?thesis by auto
qed

end
