(* ===== verification/Vault_Ops.thy ===== *)
theory Vault_Ops
  imports Decrypt_File
begin

text \<open>
  \<open>storage/vault_ops\<close>: the operations the user interface calls, over an arbitrary \<open>MetadataStore\<close>:
  upload with its two routes, the flush of the epoch buffer, download, deletion of files and
  directories, and the preparation of the local storage.
\<close>

section \<open>Routing\<close>

datatype route_decision = Immediate | EpochBuffer

definition decide :: "u64 \<Rightarrow> u64 \<Rightarrow> bool \<Rightarrow> route_decision" where
  "decide file_size chunk_size_bytes epoch_enabled =
     (if epoch_enabled \<and> file_size < chunk_size_bytes then EpochBuffer else Immediate)"


section \<open>Upload\<close>

definition strip_exif_if_image :: "env \<Rightarrow> path \<Rightarrow> u64 \<Rightarrow> ('s, storage_error, bytes option) prog" where
  "strip_exif_if_image E source source_len =
     (if source_len = 0 then ret None
      else
        bind (with_err from_io (fs_read E source)) (\<lambda>contents.
        bind (with_err from_io (reader_read E 8 contents)) (\<lambda>(header, _).
        if \<not> is_image_magic header then ret None
        else bind (with_err from_io (fs_read E source)) (\<lambda>raw.
             ret (Some (strip_exif raw))))))"

definition read_epoch_buffer_enabled :: "env \<Rightarrow> 's metadata_store \<Rightarrow> ('s, storage_error, bool) prog" where
  "read_epoch_buffer_enabled E MS =
     bind (query E (ms_get_meta MS ''epoch_buffer_enabled'')) (\<lambda>v.
     bind (lift (ok_or (Database ''missing manifest_meta key: epoch_buffer_enabled'') v)) (\<lambda>epoch_text.
     if epoch_text = ''true'' then ret True
     else if epoch_text = ''false'' then ret False
     else fail (Database ''invalid epoch_buffer_enabled: expected true or false'')))"

definition cleanup_staged_chunks :: "env \<Rightarrow> path \<Rightarrow> chunk_record list \<Rightarrow> ('s, 'e, unit) prog" where
  "cleanup_staged_chunks E staging_directory chunks = cleanup_staged_blobs E staging_directory (map ck_blob_name chunks)"

definition upload_epoch ::
  "env \<Rightarrow> path \<Rightarrow> uuid \<Rightarrow> uuid option \<Rightarrow> string \<Rightarrow> i64 \<Rightarrow> i64 \<Rightarrow> 's metadata_store \<Rightarrow> bytes \<Rightarrow> bytes option
     \<Rightarrow> ('s, storage_error, node) prog" where
  "upload_epoch E source node_id parent_id name created_at modified_at MS kek stripped =
     bind (case stripped of Some b \<Rightarrow> ret b | None \<Rightarrow> with_err from_io (fs_read E source)) (\<lambda>plaintext.
     bind (with_err from_crypto (wrap_file_key E (replicate 32 0) node_id kek)) (\<lambda>sentinel_wrapped.
     let node = node_new node_id parent_id File name created_at modified_at (length plaintext) (Some sentinel_wrapped) in
     bind (mutate E (ms_insert_file_node_and_stage_epoch_entry MS node plaintext)) (\<lambda>_.
     ret node)))"

definition upload_immediate ::
  "env \<Rightarrow> bool \<Rightarrow> path \<Rightarrow> uuid \<Rightarrow> uuid option \<Rightarrow> string \<Rightarrow> i64 \<Rightarrow> i64 \<Rightarrow> 's metadata_store \<Rightarrow> bytes \<Rightarrow> path
     \<Rightarrow> bytes option \<Rightarrow> u64 \<Rightarrow> ('s, storage_error, node) prog" where
  "upload_immediate E progress source node_id parent_id name created_at modified_at MS kek staging_directory stripped file_size =
     bind (generate_file_key E) (\<lambda>file_key.
     bind (with_err from_crypto (wrap_file_key E file_key node_id kek)) (\<lambda>wrapped_file_key.
     bind (case stripped of
             Some b \<Rightarrow> encrypt_bytes E progress b node_id file_key MS staging_directory
           | None \<Rightarrow> encrypt_file E progress source node_id file_key MS staging_directory) (\<lambda>chunks.
     let chunks = assign_node_id chunks node_id;
         node = node_new node_id parent_id File name created_at modified_at file_size (Some wrapped_file_key) in
     bind (attempt (mutate E (ms_insert_file_with_chunks MS node chunks))) (\<lambda>r.
     case r of
       Inl error \<Rightarrow> bind (cleanup_staged_chunks E staging_directory chunks) (\<lambda>_. fail error)
     | Inr _ \<Rightarrow> ret node))))"

definition upload_file ::
  "env \<Rightarrow> bool \<Rightarrow> path \<Rightarrow> uuid \<Rightarrow> uuid option \<Rightarrow> string \<Rightarrow> i64 \<Rightarrow> i64 \<Rightarrow> 's metadata_store \<Rightarrow> bytes \<Rightarrow> path
     \<Rightarrow> ('s, storage_error, node) prog" where
  "upload_file E progress source node_id parent_id name created_at modified_at MS kek staging_directory =
     bind (with_err from_io (fs_len E source)) (\<lambda>source_len.
     bind (strip_exif_if_image E source source_len) (\<lambda>stripped.
     let file_size = (case stripped of Some b \<Rightarrow> length b | None \<Rightarrow> source_len) in
     bind (read_chunk_size_bytes E MS) (\<lambda>chunk_size_bytes.
     bind (read_epoch_buffer_enabled E MS) (\<lambda>epoch_buffer_enabled.
     case decide file_size chunk_size_bytes epoch_buffer_enabled of
       EpochBuffer \<Rightarrow> upload_epoch E source node_id parent_id name created_at modified_at MS kek stripped
     | Immediate \<Rightarrow> upload_immediate E progress source node_id parent_id name created_at modified_at MS kek
                      staging_directory stripped file_size))))"


section \<open>Download\<close>

text \<open>The part the three downloads share: the node, its chunks, and that the file is not still buffered.\<close>

definition load_file_node ::
  "env \<Rightarrow> uuid \<Rightarrow> 's metadata_store \<Rightarrow> ('s, storage_error, node \<times> chunk_record list) prog" where
  "load_file_node E node_id MS =
     bind (query E (ms_get_node MS node_id)) (\<lambda>node.
     if nd_node_type node \<noteq> File then fail (ConstraintViolation ''target is a directory'')
     else
       bind (query E (ms_get_chunks MS node_id)) (\<lambda>chunks.
       if chunks = [] then
         bind (query E (ms_get_epoch_buffer_node_ids MS)) (\<lambda>buffer_ids.
         if node_id \<in> set buffer_ids then fail (EpochBufferNotFlushed node_id) else ret (node, chunks))
       else ret (node, chunks)))"

text \<open>\<open>chunks.first().map(|c| c.epoch_blob_id.is_some()).unwrap_or(false)\<close>.\<close>

definition is_epoch_packed :: "chunk_record list \<Rightarrow> bool" where
  "is_epoch_packed chunks = (case chunks of [] \<Rightarrow> False | c # _ \<Rightarrow> ck_epoch_blob_id c \<noteq> None)"

definition node_file_key :: "env \<Rightarrow> node \<Rightarrow> bytes \<Rightarrow> storage_error + bytes" where
  "node_file_key E node kek =
     rbind (ok_or (ConstraintViolation ''file node missing wrapped key'') (nd_file_key_wrapped node)) (\<lambda>wrapped_key.
     map_err from_crypto (unwrap_file_key E wrapped_key (nd_node_id node) kek))"

definition download_file ::
  "env \<Rightarrow> bool \<Rightarrow> path \<Rightarrow> uuid \<Rightarrow> 's metadata_store \<Rightarrow> bytes \<Rightarrow> path \<Rightarrow> ('s, storage_error, unit) prog" where
  "download_file E progress destination node_id MS kek blob_directory =
     bind (load_file_node E node_id MS) (\<lambda>(node, chunks).
     if is_epoch_packed chunks then decrypt_epoch_file E progress destination (chunks ! 0) kek blob_directory MS
     else
       bind (lift (node_file_key E node kek)) (\<lambda>file_key.
       decrypt_file E progress destination (nd_node_id node) file_key (nd_size_bytes node) chunks blob_directory MS))"

definition download_file_to_memory ::
  "env \<Rightarrow> bool \<Rightarrow> uuid \<Rightarrow> 's metadata_store \<Rightarrow> bytes \<Rightarrow> path \<Rightarrow> ('s, storage_error, bytes) prog" where
  "download_file_to_memory E progress node_id MS kek blob_directory =
     bind (load_file_node E node_id MS) (\<lambda>(node, chunks).
     if is_epoch_packed chunks then decrypt_epoch_file_to_memory E progress (chunks ! 0) kek blob_directory MS
     else
       bind (lift (node_file_key E node kek)) (\<lambda>file_key.
       decrypt_file_to_memory E progress (nd_node_id node) file_key (nd_size_bytes node) chunks blob_directory MS))"

definition download_file_range_to_memory ::
  "env \<Rightarrow> uuid \<Rightarrow> 's metadata_store \<Rightarrow> bytes \<Rightarrow> path \<Rightarrow> u64 \<Rightarrow> u64 \<Rightarrow> ('s, storage_error, bytes) prog" where
  "download_file_range_to_memory E node_id MS kek blob_directory range_start range_end =
     bind (load_file_node E node_id MS) (\<lambda>(node, chunks).
     if is_epoch_packed chunks
     then fail (ConstraintViolation
            ''range streaming is not supported for epoch-packed files; sync the vault first'')
     else
       bind (lift (node_file_key E node kek)) (\<lambda>file_key.
       decrypt_file_range_to_memory E (nd_node_id node) file_key (nd_size_bytes node) chunks blob_directory MS
         range_start range_end))"


section \<open>Flush of the epoch buffer\<close>

text \<open>Concatenates the entries; the extents record where each one starts.\<close>

fun pack_entries :: "(uuid \<times> bytes) list \<Rightarrow> bytes \<Rightarrow> extent list \<Rightarrow> bytes \<times> extent list" where
  "pack_entries [] packed extents = (packed, extents)"
| "pack_entries ((node_id, plaintext) # rest) packed extents =
     pack_entries rest (packed @ plaintext) (extents @ [(node_id, 0, length packed, length plaintext)])"

definition flush_one_blob ::
  "env \<Rightarrow> (uuid \<times> bytes) list \<Rightarrow> bytes \<Rightarrow> path \<Rightarrow> u64 \<Rightarrow> 's metadata_store \<Rightarrow> ('s, storage_error, unit) prog" where
  "flush_one_blob E entries kek staging_dir chunk_size_bytes MS =
     (case pack_entries entries [] [] of (packed, extents) \<Rightarrow>
      bind (lift (ok_or (Database try_from_int_error) (usize_try_from chunk_size_bytes))) (\<lambda>chunk_size_usize.
      let packed = (if length packed < chunk_size_usize then zero_pad chunk_size_usize packed else packed) in
      bind (draw (\<lambda>t. draw_uuid E t 0)) (\<lambda>epoch_blob_id.
      bind (generate_file_key E) (\<lambda>file_key.
      bind (with_err from_crypto (wrap_file_key E file_key epoch_blob_id kek)) (\<lambda>wrapped_file_key.
      bind (with_err from_crypto (encrypt_chunk E packed file_key epoch_blob_id 0)) (\<lambda>encrypted.
      let blob_name = uuid_hyphenated E epoch_blob_id in
      bind (with_err from_io (fs_write E (blob_file staging_dir blob_name) encrypted)) (\<lambda>_.
      let record = \<lparr>eb_epoch_blob_id = epoch_blob_id, eb_blob_name = blob_name,
                    eb_file_key_wrapped = wrapped_file_key, eb_size_padded = length encrypted,
                    eb_blake3_checksum = compute_checksum E encrypted\<rparr> in
      mutate E (ms_commit_epoch_flush MS record extents))))))))"

definition flush_and_report ::
  "env \<Rightarrow> bool \<Rightarrow> (uuid \<times> bytes) list \<Rightarrow> bytes \<Rightarrow> path \<Rightarrow> u64 \<Rightarrow> 's metadata_store \<Rightarrow> u64 \<Rightarrow> u64
     \<Rightarrow> ('s, storage_error, u64) prog" where
  "flush_and_report E progress entries kek staging_dir chunk_size_bytes MS flushed_bytes total_bytes =
     (let blob_bytes = sum_list (map (\<lambda>(_, p). length p) entries) in
      bind (flush_one_blob E entries kek staging_dir chunk_size_bytes MS) (\<lambda>_.
      bind (progress_if progress (flushed_bytes + blob_bytes) total_bytes) (\<lambda>_.
      ret (flushed_bytes + blob_bytes))))"

text \<open>The loop over the entries: the batch collected so far is flushed when the next entry does not fit.\<close>

fun flush_loop ::
  "env \<Rightarrow> bool \<Rightarrow> bytes \<Rightarrow> path \<Rightarrow> u64 \<Rightarrow> 's metadata_store \<Rightarrow> u64 \<Rightarrow> epoch_buffer_entry list
     \<Rightarrow> (uuid \<times> bytes) list \<Rightarrow> u64 \<Rightarrow> u64 \<Rightarrow> ('s, storage_error, unit) prog" where
  "flush_loop E progress kek staging_dir chunk_size_bytes MS total_bytes [] current_blob_entries current_size flushed_bytes =
     (if current_blob_entries = [] then ret ()
      else bind (flush_and_report E progress current_blob_entries kek staging_dir chunk_size_bytes MS flushed_bytes total_bytes) (\<lambda>_.
           ret ()))"
| "flush_loop E progress kek staging_dir chunk_size_bytes MS total_bytes (entry # rest) current_blob_entries current_size flushed_bytes =
     (if current_size + ee_size_bytes entry > chunk_size_bytes \<and> current_blob_entries \<noteq> []
      then
        bind (flush_and_report E progress current_blob_entries kek staging_dir chunk_size_bytes MS flushed_bytes total_bytes) (\<lambda>flushed_bytes.
        flush_loop E progress kek staging_dir chunk_size_bytes MS total_bytes rest [(ee_node_id entry, ee_plaintext entry)]
          (ee_size_bytes entry) flushed_bytes)
      else
        flush_loop E progress kek staging_dir chunk_size_bytes MS total_bytes rest
          (current_blob_entries @ [(ee_node_id entry, ee_plaintext entry)]) (current_size + ee_size_bytes entry) flushed_bytes)"

definition flush_epoch_buffer ::
  "env \<Rightarrow> bool \<Rightarrow> 's metadata_store \<Rightarrow> bytes \<Rightarrow> path \<Rightarrow> u64 \<Rightarrow> ('s, storage_error, unit) prog" where
  "flush_epoch_buffer E progress MS kek staging_dir chunk_size_bytes =
     bind (query E (ms_get_epoch_buffer_entries MS)) (\<lambda>entries.
     if entries = [] then ret ()
     else flush_loop E progress kek staging_dir chunk_size_bytes MS (sum_list (map ee_size_bytes entries)) entries [] 0 0)"


section \<open>Deletion\<close>

text \<open>Best-effort removals; a failure is only logged.\<close>

fun remove_all :: "env \<Rightarrow> path list \<Rightarrow> ('s, 'e, unit) prog" where
  "remove_all E [] = ret ()"
| "remove_all E (p # ps) = bind (attempt (fs_remove E p)) (\<lambda>_. remove_all E ps)"

definition blob_paths :: "path \<Rightarrow> string \<Rightarrow> path list" where
  "blob_paths staging_directory blob_name =
     [blob_file (staging_directory @ [''pending'']) blob_name, blob_file (staging_directory @ [''cache'']) blob_name,
      blob_file staging_directory blob_name]"

definition delete_file :: "env \<Rightarrow> uuid \<Rightarrow> 's metadata_store \<Rightarrow> path \<Rightarrow> ('s, storage_error, unit) prog" where
  "delete_file E node_id MS staging_directory =
     bind (query E (ms_get_node MS node_id)) (\<lambda>node.
     if nd_node_type node = Directory then fail (ConstraintViolation ''target is a directory'')
     else
       bind (query E (ms_get_chunks MS node_id)) (\<lambda>chunks.
       bind (lift (rmap (\<lambda>chunk. rbind (validate_blob_name_uuid_v4 E (ck_blob_name chunk)) (\<lambda>_.
                        Inr (blob_paths staging_directory (ck_blob_name chunk)))) chunks)) (\<lambda>validated_blob_paths.
       bind (mutate E (ms_delete_node MS node_id)) (\<lambda>_.
       remove_all E (concat validated_blob_paths)))))"

text \<open>
  The recursion descends along the children the store reports; \<open>None\<close>: it went deeper than \<open>fuel\<close>.
\<close>

function delete_subtree ::
  "env \<Rightarrow> 's metadata_store \<Rightarrow> path \<Rightarrow> nat \<Rightarrow> uuid \<Rightarrow> 's world \<Rightarrow> ((storage_error + unit) \<times> 's world) option"
and delete_children ::
  "env \<Rightarrow> 's metadata_store \<Rightarrow> path \<Rightarrow> nat \<Rightarrow> node list \<Rightarrow> 's world \<Rightarrow> ((storage_error + unit) \<times> 's world) option" where
  "delete_subtree E MS staging_directory 0 node_id w = None"
| "delete_subtree E MS staging_directory (Suc fuel) node_id w =
     (case query E (ms_list_children MS node_id) w of
        (Inl e, w1) \<Rightarrow> Some (Inl e, w1)
      | (Inr children, w1) \<Rightarrow>
          (case delete_children E MS staging_directory fuel children w1 of
             None \<Rightarrow> None
           | Some (Inl e, w2) \<Rightarrow> Some (Inl e, w2)
           | Some (Inr _, w2) \<Rightarrow> Some (mutate E (ms_delete_node MS node_id) w2)))"
| "delete_children E MS staging_directory fuel [] w = Some (Inr (), w)"
| "delete_children E MS staging_directory fuel (child # rest) w =
     (case (if nd_node_type child = Directory
            then delete_subtree E MS staging_directory fuel (nd_node_id child) w
            else Some (delete_file E (nd_node_id child) MS staging_directory w)) of
        None \<Rightarrow> None
      | Some (Inl e, w1) \<Rightarrow> Some (Inl e, w1)
      | Some (Inr _, w1) \<Rightarrow> delete_children E MS staging_directory fuel rest w1)"
  by pat_completeness auto
termination
  by (relation "measures [\<lambda>x. case x of Inl (E, MS, d, n, u, w) \<Rightarrow> 2 * n | Inr (E, MS, d, n, cs, w) \<Rightarrow> 2 * n + 1,
                          \<lambda>x. case x of Inl _ \<Rightarrow> 0 | Inr (E, MS, d, n, cs, w) \<Rightarrow> length cs]") auto

definition delete_directory ::
  "env \<Rightarrow> nat \<Rightarrow> uuid \<Rightarrow> 's metadata_store \<Rightarrow> path \<Rightarrow> 's world \<Rightarrow> ((storage_error + unit) \<times> 's world) option" where
  "delete_directory E fuel node_id MS staging_directory w =
     (case query E (ms_get_node MS node_id) w of
        (Inl e, w1) \<Rightarrow> Some (Inl e, w1)
      | (Inr node, w1) \<Rightarrow>
          if nd_node_type node \<noteq> Directory
          then Some (Inl (ConstraintViolation ''target is not a directory''), w1)
          else delete_subtree E MS staging_directory fuel node_id w1)"


section \<open>Preparation of the local storage\<close>

definition is_below :: "path \<Rightarrow> path \<Rightarrow> bool" where
  "is_below d p \<longleftrightarrow> take (length d) p = d"

definition fs_remove_dir_all :: "env \<Rightarrow> path \<Rightarrow> ('s, io_error, unit) prog" where
  "fs_remove_dir_all E d = fs_effect E (\<lambda>w.
     if d \<notin> set (dirs w) then (Inl not_found, w)
     else (Inr (), w\<lparr>files := filter (\<lambda>(p, _). \<not> is_below d p) (files w),
                     dirs := filter (\<lambda>p. \<not> is_below d p) (dirs w)\<rparr>))"

definition prepare_vault_storage :: "env \<Rightarrow> path \<Rightarrow> (db, storage_error, nat) prog" where
  "prepare_vault_storage E staging_directory =
     bind (ensure_staging_directory E staging_directory) (\<lambda>_.
     bind (migrate_flat_staging_blobs E staging_directory) (\<lambda>_.
     let mirror_temp = staging_directory @ [''mirror-temp''] in
     bind (exists_or_false E mirror_temp) (\<lambda>there.
     bind (if there then bind (attempt (fs_remove_dir_all E mirror_temp)) (\<lambda>_. ret ()) else ret ()) (\<lambda>_.
     cleanup_orphaned_blobs E staging_directory))))"

end
