(* ===== verification/Epoch_Lemmas.thy ===== *)
theory Epoch_Lemmas
  imports Decrypt_Lemmas Vault_Ops Metadata_Laws
begin

text \<open>
  Files packed into epoch blobs: what it means that the extent of an epoch blob holds a file, that the
  two epoch decryptions give the file back, and that a flush stores every entry it packs.
\<close>

section \<open>Extents\<close>

text \<open>The blob of an epoch record is where \<open>blobs\<close> says, is intact and opens to \<open>packed\<close>.\<close>

definition epoch_stored :: "env \<Rightarrow> (string \<Rightarrow> bytes option) \<Rightarrow> bytes \<Rightarrow> epoch_blob_record \<Rightarrow> bytes \<Rightarrow> bool" where
  "epoch_stored E blobs kek rec packed \<longleftrightarrow>
     length (eb_file_key_wrapped rec) = WRAPPED_LEN \<and> length packed < 2 ^ 63 \<and>
     (\<exists>blob key. blobs (eb_blob_name rec) = Some blob \<and> compute_checksum E blob = eb_blake3_checksum rec \<and>
        unwrap_file_key E (eb_file_key_wrapped rec) (eb_epoch_blob_id rec) kek = Inr key \<and>
        decrypt_chunk E (VerifiedBlob blob) key (eb_epoch_blob_id rec) 0 = Inr packed)"

definition extent_at :: "bytes \<Rightarrow> nat \<Rightarrow> nat \<Rightarrow> bytes \<Rightarrow> bool" where
  "extent_at packed off len content \<longleftrightarrow> off + len \<le> length packed \<and> take len (drop off packed) = content"

text \<open>
  The manifest, given by its chunk lists and epoch blobs, and the blobs hold \<open>content\<close> for node \<open>n\<close>,
  in an epoch blob named after its identifier.
\<close>

definition extent_stored ::
  "env \<Rightarrow> (string \<Rightarrow> bytes option) \<Rightarrow> bytes \<Rightarrow> (uuid \<Rightarrow> chunk_record list) \<Rightarrow> (uuid \<Rightarrow> epoch_blob_record option)
     \<Rightarrow> uuid \<Rightarrow> bytes \<Rightarrow> bool" where
  "extent_stored E blobs kek chunks epochs n content \<longleftrightarrow>
     (\<exists>c e off len rec packed. chunks n = [c] \<and> extent_chunk e off len c \<and> epochs e = Some rec \<and>
        eb_epoch_blob_id rec = e \<and> eb_blob_name rec = uuid_hyphenated E e \<and>
        epoch_stored E blobs kek rec packed \<and> extent_at packed off len content)"

lemma epoch_stored_cong:
  "epoch_stored E blobs kek rec packed \<Longrightarrow> blobs' (eb_blob_name rec) = blobs (eb_blob_name rec) \<Longrightarrow>
     epoch_stored E blobs' kek rec packed"
  by (auto simp: epoch_stored_def)

lemma decrypt_epoch_blob_to_slice_touches:
  "decrypt_epoch_blob_to_slice E c kek dir MS w = (r, w') \<Longrightarrow> touches {} w w'"
proof -
  have q: "touches {} v v'" if "query E f v = (x, v')" for f :: "'a \<Rightarrow> storage_error + epoch_blob_record" and x v v'
    using touches_query [OF that] .
  assume "decrypt_epoch_blob_to_slice E c kek dir MS w = (r, w')"
  then show ?thesis
    unfolding decrypt_epoch_blob_to_slice_def bind_def with_err_def
    by (auto simp: lift_def ret_def fail_def split: prod.splits sum.splits if_splits
        dest!: q resolve_blob_path_touches touches_read(1) elim!: touches_trans)
qed

lemma decrypt_epoch_blob_to_slice_ok:
  assumes "no_faults E" "ms_get_epoch_blob MS e (store w) = Inr rec" "eb_epoch_blob_id rec = e" "extent_chunk e off len c"
    and st: "epoch_stored E (blob_lookup w dir) kek rec packed" and "extent_at packed off len content"
  shows "\<exists>w'. decrypt_epoch_blob_to_slice E c kek dir MS w = (Inr (packed, off, off + len), w') \<and> touches {} w w'"
proof -
  obtain blob key where b: "blob_lookup w dir (eb_blob_name rec) = Some blob" "compute_checksum E blob = eb_blake3_checksum rec"
    and k: "unwrap_file_key E (eb_file_key_wrapped rec) e kek = Inr key" "decrypt_chunk E (VerifiedBlob blob) key e 0 = Inr packed"
    and l: "length (eb_file_key_wrapped rec) = WRAPPED_LEN" "length packed < 2 ^ 63"
    using st assms(3) by (auto simp: epoch_stored_def)
  obtain w1 where r: "resolve_blob_path E dir (eb_blob_name rec) (next_tick w) = (Inr (blob_path w dir (eb_blob_name rec)), w1)"
    and t: "touches {} (next_tick w) w1"
    using resolve_blob_path_ok [OF assms(1), of dir "eb_blob_name rec" "next_tick w"] by (auto simp: blob_path_def Let_def)
  have f: "file_at w1 (blob_path w dir (eb_blob_name rec)) = Some blob"
    using b(1) touchesD(4) [OF t] by (simp add: blob_lookup_def)
  have v: "verify_checksum E blob (eb_blake3_checksum rec) = Inr (VerifiedBlob blob)" using verify_checksum_ok [of E blob] b(2) by simp
  have "off + len < 2 ^ 64" "off + len \<le> length packed" using assms(6) l(2) by (auto simp: extent_at_def)
  then have "decrypt_epoch_blob_to_slice E c kek dir MS w = (Inr (packed, off, off + len), next_tick w1)"
    using assms(1-4) f l(1) v k
    by (simp add: decrypt_epoch_blob_to_slice_def extent_chunk_def bind_def lift_def query_def r fs_ok with_err_def
        ret_def width_simps)
  moreover have "touches {} w (next_tick w1)" using t by (auto simp: touches_def)
  ultimately show ?thesis by blast
qed

lemma extent_slice: "extent_at packed off len content \<Longrightarrow> drop off (take (off + len) packed) = content"
  by (simp add: extent_at_def drop_take add.commute)

lemma decrypt_epoch_file_to_memory_ok:
  assumes "no_faults E" "ms_get_epoch_blob MS e (store w) = Inr rec" "eb_epoch_blob_id rec = e" "extent_chunk e off len c"
    and "epoch_stored E (blob_lookup w dir) kek rec packed" "extent_at packed off len content"
  shows "\<exists>w'. decrypt_epoch_file_to_memory E pr c kek dir MS w = (Inr content, w') \<and> touches {} w w'"
proof -
  obtain w1 where s: "decrypt_epoch_blob_to_slice E c kek dir MS w = (Inr (packed, off, off + len), w1)" "touches {} w w1"
    using decrypt_epoch_blob_to_slice_ok [OF assms] by blast
  have "decrypt_epoch_file_to_memory E pr c kek dir MS w =
      (Inr content, if pr then w1\<lparr>progress_log := (len, len) # progress_log w1\<rparr> else w1)"
    using assms(4) by (simp add: decrypt_epoch_file_to_memory_def extent_chunk_def bind_def lift_def s(1) progress_if_def
        report_progress_def ret_def extent_slice [OF assms(6)])
  then show ?thesis using s(2) by (simp add: touches_def)
qed


section \<open>Packing\<close>

lemma extent_at_append: "extent_at packed off len content \<Longrightarrow> extent_at (packed @ rest) off len content"
  by (simp add: extent_at_def)

lemma pack_entries_spec:
  assumes "pack_entries es packed xs = (packed', xs')"
  shows "\<exists>ys. packed' = packed @ concat (map snd es) \<and> xs' = xs @ ys \<and> map fst ys = map fst es \<and>
     (\<forall>y \<in> set ys. fst (snd y) = 0 \<and> fst (snd (snd y)) \<le> length packed' \<and> snd (snd (snd y)) \<le> length packed') \<and>
     (\<forall>(n, bs) \<in> set es. \<exists>off. (n, 0, off, length bs) \<in> set ys \<and> extent_at packed' off (length bs) bs)"
  using assms
proof (induction es packed xs rule: pack_entries.induct)
  case (2 n bs rest packed xs)
  then obtain ys where ys: "packed' = packed @ bs @ concat (map snd rest)" "xs' = xs @ (n, 0, length packed, length bs) # ys"
      "map fst ys = map fst rest"
      "\<forall>y \<in> set ys. fst (snd y) = 0 \<and> fst (snd (snd y)) \<le> length packed' \<and> snd (snd (snd y)) \<le> length packed'"
      "\<forall>(m, cs) \<in> set rest. \<exists>off. (m, 0, off, length cs) \<in> set ys \<and> extent_at packed' off (length cs) cs"
    by auto
  have "extent_at packed' (length packed) (length bs) bs" by (simp add: extent_at_def ys(1))
  with ys show ?case by (intro exI [of _ "(n, 0, length packed, length bs) # ys"]) fastforce
qed simp

lemma pack_entries_bytes: "pack_entries es [] [] = (packed, xs) \<Longrightarrow> length packed = sum_list (map (\<lambda>(_, p). length p) es)"
  using pack_entries_spec [of es "[]" "[]" packed xs] by (auto simp: length_concat comp_def case_prod_beta')

lemma extent_at_pad: "extent_at packed off len content \<Longrightarrow> extent_at (if b then zero_pad n packed else packed) off len content"
  by (simp add: zero_pad_def extent_at_append)

end
