(* ===== verification/Flush_Lemmas.thy ===== *)
theory Flush_Lemmas
  imports Epoch_Lemmas
begin

text \<open>
  The flush of the epoch buffer over any store that obeys \<open>manifest_store\<close>: every buffered entry ends
  up in an extent that holds its plaintext, and nothing else of the vault changes.
\<close>

section \<open>Frames\<close>

text \<open>
  Between \<open>w\<close> and \<open>w'\<close> epoch blobs were only added, under freshly drawn identifiers, and only files
  named after such identifiers changed.
\<close>

definition blob_frame ::
  "env \<Rightarrow> path \<Rightarrow> 's world \<Rightarrow> 's world \<Rightarrow> (uuid \<Rightarrow> epoch_blob_record option) \<Rightarrow> (uuid \<Rightarrow> epoch_blob_record option) \<Rightarrow> bool" where
  "blob_frame E sd w w' ep ep' \<longleftrightarrow>
     dirs w' = dirs w \<and> tick w \<le> tick w' \<and> (\<forall>e. ep e \<noteq> None \<longrightarrow> ep' e = ep e) \<and>
     (\<forall>e. ep' e \<noteq> ep e \<longrightarrow> (\<exists>t. tick w \<le> t \<and> t < tick w' \<and> e = draw_uuid E t 0)) \<and>
     (\<forall>p. file_at w' p \<noteq> file_at w p \<longrightarrow>
        (\<exists>t e. tick w \<le> t \<and> t < tick w' \<and> e = draw_uuid E t 0 \<and> ep e = None \<and> p = blob_file sd (uuid_hyphenated E e)))"

lemma blob_frame_refl: "dirs w' = dirs w \<Longrightarrow> files w' = files w \<Longrightarrow> tick w \<le> tick w' \<Longrightarrow> blob_frame E sd w w' ep ep"
  by (simp add: blob_frame_def)

lemma blob_frameD:
  assumes "blob_frame E sd w w' ep ep'"
  shows "dirs w' = dirs w" "tick w \<le> tick w'" "ep e \<noteq> None \<Longrightarrow> ep' e = ep e"
  using assms by (simp_all add: blob_frame_def)

lemma blob_frame_new:
  assumes "blob_frame E sd w w' ep ep'" "ep' e \<noteq> ep e"
  obtains t where "tick w \<le> t" "t < tick w'" "e = draw_uuid E t 0"
  using assms by (auto simp: blob_frame_def)

lemma blob_frame_file:
  assumes "blob_frame E sd w w' ep ep'" "file_at w' p \<noteq> file_at w p"
  obtains t where "tick w \<le> t" "t < tick w'" "ep (draw_uuid E t 0) = None" "p = blob_file sd (uuid_hyphenated E (draw_uuid E t 0))"
  using assms by (auto simp: blob_frame_def)

lemma blob_frameI:
  assumes "dirs w' = dirs w" "tick w \<le> tick w'" "\<And>e. ep e \<noteq> None \<Longrightarrow> ep' e = ep e"
    and "\<And>e. ep' e \<noteq> ep e \<Longrightarrow> \<exists>t. tick w \<le> t \<and> t < tick w' \<and> e = draw_uuid E t 0"
    and "\<And>p. file_at w' p \<noteq> file_at w p \<Longrightarrow>
           \<exists>t. tick w \<le> t \<and> t < tick w' \<and> ep (draw_uuid E t 0) = None \<and> p = blob_file sd (uuid_hyphenated E (draw_uuid E t 0))"
  shows "blob_frame E sd w w' ep ep'"
  using assms by (simp add: blob_frame_def)

lemma blob_frame_trans:
  assumes a: "blob_frame E sd w1 w2 ep1 ep2" and b: "blob_frame E sd w2 w3 ep2 ep3"
  shows "blob_frame E sd w1 w3 ep1 ep3"
proof (rule blob_frameI)
  note t = blob_frameD(2) [OF a] blob_frameD(2) [OF b]
  show "dirs w3 = dirs w1" "tick w1 \<le> tick w3" using blob_frameD(1) [OF a] blob_frameD(1) [OF b] t by simp_all
  show "ep3 e = ep1 e" if "ep1 e \<noteq> None" for e
    using blob_frameD(3) [OF a that] blob_frameD(3) [OF b, of e] that by simp
  show "\<exists>t. tick w1 \<le> t \<and> t < tick w3 \<and> e = draw_uuid E t 0" if "ep3 e \<noteq> ep1 e" for e
  proof (cases "ep3 e = ep2 e")
    case True
    then have "ep2 e \<noteq> ep1 e" using that by simp
    then obtain u where "tick w1 \<le> u" "u < tick w2" "e = draw_uuid E u 0" by (rule blob_frame_new [OF a])
    then show ?thesis using t by (intro exI [of _ u]) simp
  next
    case False
    then obtain u where "tick w2 \<le> u" "u < tick w3" "e = draw_uuid E u 0" by (rule blob_frame_new [OF b])
    then show ?thesis using t by (intro exI [of _ u]) simp
  qed
  show "\<exists>t. tick w1 \<le> t \<and> t < tick w3 \<and> ep1 (draw_uuid E t 0) = None \<and> p = blob_file sd (uuid_hyphenated E (draw_uuid E t 0))"
    if "file_at w3 p \<noteq> file_at w1 p" for p
  proof (cases "file_at w3 p = file_at w2 p")
    case True
    then have "file_at w2 p \<noteq> file_at w1 p" using that by simp
    then obtain u where "tick w1 \<le> u" "u < tick w2" "ep1 (draw_uuid E u 0) = None" "p = blob_file sd (uuid_hyphenated E (draw_uuid E u 0))"
      by (rule blob_frame_file [OF a])
    then show ?thesis using t by (intro exI [of _ u]) simp
  next
    case False
    then obtain u where u: "tick w2 \<le> u" "u < tick w3" "ep2 (draw_uuid E u 0) = None" "p = blob_file sd (uuid_hyphenated E (draw_uuid E u 0))"
      by (rule blob_frame_file [OF b])
    have "ep1 (draw_uuid E u 0) = None" using blob_frameD(3) [OF a] u(3) by metis
    then show ?thesis using u t by (intro exI [of _ u]) simp
  qed
qed

lemma extent_stored_mono:
  assumes "extent_stored E blobs kek ch ep n bs" "ch' n = ch n" "\<And>e. ep e \<noteq> None \<Longrightarrow> ep' e = ep e"
    and "\<And>e b. ep e \<noteq> None \<Longrightarrow> blobs (uuid_hyphenated E e) = Some b \<Longrightarrow> blobs' (uuid_hyphenated E e) = Some b"
  shows "extent_stored E blobs' kek ch' ep' n bs"
proof -
  obtain c e off len rec packed where x: "ch n = [c]" "extent_chunk e off len c" "ep e = Some rec"
      "eb_epoch_blob_id rec = e" "eb_blob_name rec = uuid_hyphenated E e"
      "epoch_stored E blobs kek rec packed" "extent_at packed off len bs"
    using assms(1) unfolding extent_stored_def by blast
  then have "blobs (eb_blob_name rec) \<noteq> None" by (auto simp: epoch_stored_def)
  then have "epoch_stored E blobs' kek rec packed"
    using x assms(4) [of e] by (intro epoch_stored_cong [OF x(6)]) auto
  moreover have "ep' e = Some rec" using assms(3) [of e] x(3) by simp
  ultimately show ?thesis using x assms(2) unfolding extent_stored_def by metis
qed

lemma extent_stored_frame:
  assumes "extent_stored E (blobs_in w sd) kek ch ep n bs" "blob_frame E sd w w' ep ep'" "ch' n = ch n" "uuid_laws E"
  shows "extent_stored E (blobs_in w' sd) kek ch' ep' n bs"
proof (rule extent_stored_mono [where ch = ch and ch' = ch', OF assms(1,3)])
  show "ep' e = ep e" if "ep e \<noteq> None" for e using blob_frameD(3) [OF assms(2) that] .
  show "blobs_in w' sd (uuid_hyphenated E e) = Some b" if "ep e \<noteq> None" "blobs_in w sd (uuid_hyphenated E e) = Some b" for e b
  proof (rule ccontr)
    assume "blobs_in w' sd (uuid_hyphenated E e) \<noteq> Some b"
    then have "blobs_in w' sd (uuid_hyphenated E e) \<noteq> blobs_in w sd (uuid_hyphenated E e)" using that(2) by simp
    then obtain t where "ep (draw_uuid E t 0) = None"
        "blob_file sd (uuid_hyphenated E e) = blob_file sd (uuid_hyphenated E (draw_uuid E t 0))"
      by (rule blob_frame_file [OF assms(2)])
    then show False using that(1) uuid_hyphenated_inj [OF assms(4)] by simp
  qed
qed

text \<open>The entries waiting in the buffer: one per node, of nodes that have no chunks yet.\<close>

definition pending_entries :: "(uuid \<Rightarrow> chunk_record list) \<Rightarrow> (uuid \<times> bytes) list \<Rightarrow> bool" where
  "pending_entries ch es \<longleftrightarrow> distinct (map fst es) \<and> (\<forall>(n, bs) \<in> set es. ch n = []) \<and> length (concat (map snd es)) < 2 ^ 62"

lemma pending_entriesD:
  assumes "pending_entries ch (es @ fs)"
  shows "pending_entries ch es" "pending_entries ch fs" "fst ` set es \<inter> fst ` set fs = {}"
  using assms by (auto simp: pending_entries_def)

lemma pending_entries_cong: "pending_entries ch es \<Longrightarrow> (\<And>n. n \<in> fst ` set es \<Longrightarrow> ch' n = ch n) \<Longrightarrow> pending_entries ch' es"
  by (force simp: pending_entries_def)

section \<open>One blob\<close>

text \<open>The steps of a flush of one batch that succeeds.\<close>

lemma flush_one_blob_steps:
  assumes "flush_one_blob E es kek sd cs MS w = (Inr u, w')" "aead_laws E" "blake3_laws E" "length kek = 32"
    and "pack_entries es [] [] = (packed, xs)" "length packed < 2 ^ 62" "cs \<le> 67108864"
  defines "e \<equiv> draw_uuid E (tick w) 0"
  obtains rec w1 where "eb_epoch_blob_id rec = e" "eb_blob_name rec = uuid_hyphenated E e" "typed_epoch_blob rec"
    "touches {blob_file sd (uuid_hyphenated E e)} w w1" "tick w < tick w1"
    "epoch_stored E (blobs_in w1 sd) kek rec (if length packed < cs then zero_pad cs packed else packed)"
    "mutate E (ms_commit_epoch_flush MS rec xs) w1 = (Inr u, w')"
proof -
  define packed' where "packed' = (if length packed < cs then zero_pad cs packed else packed)"
  define key where "key = draw_key E (Suc (tick w))"
  let ?w2 = "next_tick (next_tick w)"
  have k: "length key = 32" using aead_laws_draw [OF assms(2)] by (simp add: key_def)
  have len: "length packed' < 2 ^ 63 - 40" using assms(6,7) by (auto simp: packed'_def zero_pad_def)
  have draw_step: "bind (draw f) g v = g (f (tick v)) (next_tick v)" for f :: "nat \<Rightarrow> 'z" and g :: "'z \<Rightarrow> ('a, storage_error, unit) prog" and v
    by (simp add: bind_def draw_def)
  have usize_step: "bind (lift (ok_or (Database try_from_int_error) (usize_try_from cs))) g w = g cs w"
    for g :: "usize \<Rightarrow> ('a, storage_error, unit) prog"
    using assms(7) by (simp add: bind_def lift_def width_simps)
  have steps: "bind (with_err from_crypto (wrap_file_key E key e kek)) (\<lambda>wrapped.
        bind (with_err from_crypto (encrypt_chunk E packed' key e 0)) (\<lambda>encrypted.
        bind (with_err from_io (fs_write E (blob_file sd (uuid_hyphenated E e)) encrypted)) (\<lambda>_.
        mutate E (ms_commit_epoch_flush MS \<lparr>eb_epoch_blob_id = e, eb_blob_name = uuid_hyphenated E e, eb_file_key_wrapped = wrapped,
          eb_size_padded = length encrypted, eb_blake3_checksum = compute_checksum E encrypted\<rparr> xs)))) ?w2 = (Inr u, w')"
    using assms(1)
    by (simp add: flush_one_blob_def assms(5) Let_def draw_step generate_file_key_def usize_step e_def key_def
        split del: if_split flip: packed'_def)
  then obtain wrapped w3 encrypted w4 w5 where wr: "wrap_file_key E key e kek ?w2 = (Inr wrapped, w3)"
    and en: "encrypt_chunk E packed' key e 0 w3 = (Inr encrypted, w4)"
    and fw: "fs_write E (blob_file sd (uuid_hyphenated E e)) encrypted w4 = (Inr (), w5)"
    and mu: "mutate E (ms_commit_epoch_flush MS \<lparr>eb_epoch_blob_id = e, eb_blob_name = uuid_hyphenated E e, eb_file_key_wrapped = wrapped,
          eb_size_padded = length encrypted, eb_blake3_checksum = compute_checksum E encrypted\<rparr> xs) w5 = (Inr u, w')"
    by (auto simp: bind_Inr)
  note wrapped = wrap_file_key_Inr [OF assms(2,4) k wr]
  note enc = encrypt_decrypt_chunk [OF assms(2) k en] and w4 = encrypt_chunk_world [OF en]
  have f: "file_at w5 (blob_file sd (uuid_hyphenated E e)) = Some encrypted"
    using fw by (auto simp: fs_write_def update_conv' split: if_splits option.splits)
  show thesis
  proof (rule that [OF _ _ _ _ _ _ mu])
    show "typed_epoch_blob \<lparr>eb_epoch_blob_id = e, eb_blob_name = uuid_hyphenated E e, eb_file_key_wrapped = wrapped,
          eb_size_padded = length encrypted, eb_blake3_checksum = compute_checksum E encrypted\<rparr>"
      using enc(2) len assms(3) by (simp add: typed_epoch_blob_def blake3_laws_def compute_checksum_def)
    show "touches {blob_file sd (uuid_hyphenated E e)} w w5"
      using touches_change(1) [OF fw] wrapped(3) w4 by (simp add: touches_def)
    show "tick w < tick w5" using touchesD(3) [OF touches_change(1) [OF fw]] wrapped(3) w4 by simp
    show "epoch_stored E (blobs_in w5 sd) kek \<lparr>eb_epoch_blob_id = e, eb_blob_name = uuid_hyphenated E e, eb_file_key_wrapped = wrapped,
          eb_size_padded = length encrypted, eb_blake3_checksum = compute_checksum E encrypted\<rparr>
          (if length packed < cs then zero_pad cs packed else packed)"
      using wrapped(1,2) enc(1) f len by (simp add: epoch_stored_def crypto_lens flip: packed'_def)
  qed simp_all
qed

context manifest_store
begin

lemma flush_one_blob_Inr:
  assumes r: "flush_one_blob E es kek sd cs MS w = (Inr u, w')" and s: "inv (store w)"
    and laws: "aead_laws E" "blake3_laws E" "uuid_laws E" "length kek = 32" "cs \<le> 67108864"
    and es: "pending_entries (chunk_list (store w)) es"
  shows "inv (store w') \<and> meta_of (store w') = meta_of (store w) \<and> node_of (store w') = node_of (store w) \<and> buffer_of (store w') = []"
    and "blob_frame E sd w w' (epoch_of (store w)) (epoch_of (store w'))"
    and "n \<notin> fst ` set es \<Longrightarrow> chunk_list (store w') n = chunk_list (store w) n"
    and "(n, bs) \<in> set es \<Longrightarrow> extent_stored E (blobs_in w' sd) kek (chunk_list (store w')) (epoch_of (store w')) n bs"
proof -
  define e where "e = draw_uuid E (tick w) 0"
  obtain packed xs where p: "pack_entries es [] [] = (packed, xs)" by fastforce
  from pack_entries_spec [OF p] have pk: "packed = concat (map snd es)" "map fst xs = map fst es"
      "\<forall>y \<in> set xs. fst (snd y) = 0 \<and> fst (snd (snd y)) \<le> length packed \<and> snd (snd (snd y)) \<le> length packed"
      "\<forall>(n, bs) \<in> set es. \<exists>off. (n, 0, off, length bs) \<in> set xs \<and> extent_at packed off (length bs) bs"
    by auto
  have len: "length packed < 2 ^ 62" using es pk(1) by (simp add: pending_entries_def)
  obtain rec w1 where rec: "eb_epoch_blob_id rec = e" "eb_blob_name rec = uuid_hyphenated E e" "typed_epoch_blob rec"
    and t: "touches {blob_file sd (uuid_hyphenated E e)} w w1" "tick w < tick w1"
    and st: "epoch_stored E (blobs_in w1 sd) kek rec (if length packed < cs then zero_pad cs packed else packed)"
    and mu: "mutate E (ms_commit_epoch_flush MS rec xs) w1 = (Inr u, w')"
    using flush_one_blob_steps [OF r laws(1,2,4) p len laws(5)] unfolding e_def by blast
  obtain s' where c: "ms_commit_epoch_flush MS rec xs (tick w1) (store w) = Inr s'" and w': "w' = (next_tick w1)\<lparr>store := s'\<rparr>"
    using mutate_Inr [OF mu] touchesD(1) [OF t(1)] by auto
  have typed: "typed_extents xs"
    using pk(3) len by (fastforce simp: typed_extents_def)
  note law = commit_flush [OF s rec(3) typed c, unfolded rec(1)]
  then show "inv (store w') \<and> meta_of (store w') = meta_of (store w) \<and> node_of (store w') = node_of (store w) \<and> buffer_of (store w') = []"
    by (simp add: w')
  show "blob_frame E sd w w' (epoch_of (store w)) (epoch_of (store w'))"
  proof (rule blob_frameI)
    show "\<exists>t. tick w \<le> t \<and> t < tick w' \<and> epoch_of (store w) (draw_uuid E t 0) = None \<and> p = blob_file sd (uuid_hyphenated E (draw_uuid E t 0))"
      if "file_at w' p \<noteq> file_at w p" for p
      using that touchesD(4) [OF t(1), of p] t(2) law by (intro exI [of _ "tick w"]) (auto simp: w' e_def)
    show "\<exists>t. tick w \<le> t \<and> t < tick w' \<and> u = draw_uuid E t 0" if "epoch_of (store w') u \<noteq> epoch_of (store w) u" for u
      using that t(2) law by (intro exI [of _ "tick w"]) (auto simp: w' e_def split: if_splits)
  qed (use t law touchesD(2) [OF t(1)] in \<open>auto simp: w'\<close>)
  have ids: "fst ` set xs = fst ` set es" using pk(2) by (metis list.set_map)
  show "chunk_list (store w') n = chunk_list (store w) n" if "n \<notin> fst ` set es" using law ids that by (simp add: w')
  show "extent_stored E (blobs_in w' sd) kek (chunk_list (store w')) (epoch_of (store w')) n bs" if m: "(n, bs) \<in> set es"
  proof -
    obtain off where off: "(n, 0, off, length bs) \<in> set xs" "extent_at packed off (length bs) bs" using pk(4) m by fastforce
    have "\<forall>x \<in> set xs. fst (snd x) = 0" using pk(3) by blast
    moreover have "chunk_list (store w) n = []" using es m by (auto simp: pending_entries_def)
    ultimately obtain ck where ck: "chunk_list s' n = [ck]" "extent_chunk e off (length bs) ck"
      using law off(1) by blast
    have "extent_at (if length packed < cs then zero_pad cs packed else packed) off (length bs) bs"
      by (rule extent_at_pad [OF off(2)])
    moreover have "epoch_of s' e = Some rec" using law by simp
    ultimately show ?thesis using ck st rec(1,2) unfolding extent_stored_def by (force simp: w')
  qed
qed

end

section \<open>The whole buffer\<close>

abbreviation entry_pair :: "epoch_buffer_entry \<Rightarrow> uuid \<times> bytes" where
  "entry_pair b \<equiv> (ee_node_id b, ee_plaintext b)"

context manifest_store
begin

text \<open>What flushing the entries \<open>es\<close> achieves.\<close>

definition flushed :: "env \<Rightarrow> bytes \<Rightarrow> path \<Rightarrow> (uuid \<times> bytes) list \<Rightarrow> 's world \<Rightarrow> 's world \<Rightarrow> bool" where
  "flushed E kek sd es w w' \<longleftrightarrow>
     inv (store w') \<and> meta_of (store w') = meta_of (store w) \<and> node_of (store w') = node_of (store w) \<and>
     buffer_of (store w') = (if es = [] then buffer_of (store w) else []) \<and>
     blob_frame E sd w w' (epoch_of (store w)) (epoch_of (store w')) \<and>
     (\<forall>n. n \<notin> fst ` set es \<longrightarrow> chunk_list (store w') n = chunk_list (store w) n) \<and>
     (\<forall>(n, bs) \<in> set es. extent_stored E (blobs_in w' sd) kek (chunk_list (store w')) (epoch_of (store w')) n bs)"

lemma flushed_Nil: "inv (store w) \<Longrightarrow> store w' = store w \<Longrightarrow> files w' = files w \<Longrightarrow> dirs w' = dirs w \<Longrightarrow> tick w \<le> tick w' \<Longrightarrow>
     flushed E kek sd [] w w'"
  by (simp add: flushed_def blob_frame_refl)

lemma flushed_trans:
  assumes a: "flushed E kek sd es w1 w2" and b: "flushed E kek sd fs w2 w3" and "fst ` set es \<inter> fst ` set fs = {}" "uuid_laws E"
  shows "flushed E kek sd (es @ fs) w1 w3"
proof -
  have fr: "blob_frame E sd w1 w2 (epoch_of (store w1)) (epoch_of (store w2))"
      "blob_frame E sd w2 w3 (epoch_of (store w2)) (epoch_of (store w3))"
    using a b by (simp_all add: flushed_def)
  have "extent_stored E (blobs_in w3 sd) kek (chunk_list (store w3)) (epoch_of (store w3)) n bs" if "(n, bs) \<in> set es" for n bs
  proof (rule extent_stored_frame [where ch = "chunk_list (store w2)" and ch' = "chunk_list (store w3)", OF _ fr(2) _ assms(4)])
    show "extent_stored E (blobs_in w2 sd) kek (chunk_list (store w2)) (epoch_of (store w2)) n bs" using a that by (auto simp: flushed_def)
    have "n \<notin> fst ` set fs" using that assms(3) by force
    then show "chunk_list (store w3) n = chunk_list (store w2) n" using b by (simp add: flushed_def)
  qed
  moreover have "chunk_list (store w3) n = chunk_list (store w1) n" if "n \<notin> fst ` set (es @ fs)" for n
    using a b that by (simp add: flushed_def image_Un)
  ultimately show ?thesis using a b blob_frame_trans [OF fr] by (auto simp: flushed_def)
qed

lemma flush_and_report_Inr:
  assumes "flush_and_report E pr es kek sd cs MS fb tb w = (Inr u, w')" "inv (store w)" "es \<noteq> []"
    and laws: "aead_laws E" "blake3_laws E" "uuid_laws E" "length kek = 32" "cs \<le> 67108864"
    and "pending_entries (chunk_list (store w)) es"
  shows "flushed E kek sd es w w'"
proof -
  obtain w1 where f: "flush_one_blob E es kek sd cs MS w = (Inr (), w1)"
    and w': "w' = w1 \<or> (\<exists>l. w' = w1\<lparr>progress_log := l\<rparr>)"
    using assms(1) by (auto simp: flush_and_report_def Let_def bind_Inr progress_if_def report_progress_def ret_def split: if_splits)
  have w1: "flushed E kek sd es w w1"
    using flush_one_blob_Inr [OF f assms(2) laws assms(9)] assms(3) by (auto simp: flushed_def)
  show ?thesis using w' w1 by (auto simp: flushed_def blob_frame_def)
qed

lemma flush_loop_Inr:
  assumes laws: "aead_laws E" "blake3_laws E" "uuid_laws E" "length kek = 32" "cs \<le> 67108864"
  shows "flush_loop E pr kek sd cs MS tb entries cur sz fb w = (Inr u, w') \<Longrightarrow> inv (store w) \<Longrightarrow>
     pending_entries (chunk_list (store w)) (cur @ map entry_pair entries) \<Longrightarrow>
     flushed E kek sd (cur @ map entry_pair entries) w w'"
proof (induction entries arbitrary: cur sz fb w)
  case Nil
  show ?case
  proof (cases "cur = []")
    case True
    then show ?thesis using Nil by (auto intro: flushed_Nil)
  next
    case False
    then obtain x where "flush_and_report E pr cur kek sd cs MS fb tb w = (Inr x, w')" using Nil.prems(1) by (auto simp: bind_Inr)
    from flush_and_report_Inr [OF this Nil.prems(2) False laws] Nil.prems(3) show ?thesis by simp
  qed
next
  case (Cons b entries)
  show ?case
  proof (cases "sz + ee_size_bytes b > cs \<and> cur \<noteq> []")
    case True
    then obtain fb' w1 where f: "flush_and_report E pr cur kek sd cs MS fb tb w = (Inr fb', w1)"
      and r: "flush_loop E pr kek sd cs MS tb entries [entry_pair b] (ee_size_bytes b) fb' w1 = (Inr u, w')"
      using Cons.prems(1) by (auto simp: bind_Inr)
    note split = pending_entriesD [OF Cons.prems(3)]
    have a: "flushed E kek sd cur w w1" using flush_and_report_Inr [OF f Cons.prems(2) _ laws split(1)] True by blast
    have "pending_entries (chunk_list (store w1)) (map entry_pair (b # entries))"
    proof (rule pending_entries_cong [OF split(2)])
      show "chunk_list (store w1) n = chunk_list (store w) n" if "n \<in> fst ` set (map entry_pair (b # entries))" for n
        using a split(3) that unfolding flushed_def disjoint_iff by blast
    qed
    then have "flushed E kek sd (map entry_pair (b # entries)) w1 w'"
      using Cons.IH [OF r] a by (simp add: flushed_def)
    from flushed_trans [OF a this split(3) laws(3)] show ?thesis .
  next
    case False
    then have "flush_loop E pr kek sd cs MS tb entries (cur @ [entry_pair b]) (sz + ee_size_bytes b) fb w = (Inr u, w')"
      using Cons.prems(1) by auto
    from Cons.IH [OF this Cons.prems(2)] Cons.prems(3) show ?thesis by simp
  qed
qed

lemma flush_epoch_buffer_Inr:
  assumes "flush_epoch_buffer E pr MS kek sd cs w = (Inr u, w')" "inv (store w)"
    and laws: "aead_laws E" "blake3_laws E" "uuid_laws E" "length kek = 32" "cs \<le> 67108864"
    and "pending_entries (chunk_list (store w)) (map entry_pair (buffer_of (store w)))"
  shows "flushed E kek sd (map entry_pair (buffer_of (store w))) w w'" "buffer_of (store w') = []"
proof -
  have ok: "os_fault E (tick w) = None" using assms(1)
    by (auto simp: flush_epoch_buffer_def bind_Inr query_def split: option.splits)
  then have q: "query E (ms_get_epoch_buffer_entries MS) w = (Inr (buffer_of (store w)), next_tick w)"
    by (simp add: query_ok get_buffer_entries [OF assms(2)])
  let ?es = "map entry_pair (buffer_of (store w))"
  show f: "flushed E kek sd ?es w w'"
  proof (cases "buffer_of (store w) = []")
    case True
    then have "w' = next_tick w" using assms(1) q by (simp add: flush_epoch_buffer_def bind_def)
    then show ?thesis using True assms(2) by (auto intro!: flushed_Nil)
  next
    case False
    then have "flush_loop E pr kek sd cs MS (sum_list (map ee_size_bytes (buffer_of (store w)))) (buffer_of (store w)) [] 0 0 (next_tick w) = (Inr u, w')"
      using assms(1) q by (simp add: flush_epoch_buffer_def bind_def)
    from flush_loop_Inr [OF laws this] assms(2,8) have "flushed E kek sd ?es (next_tick w) w'" by simp
    with flushed_trans [OF flushed_Nil [OF assms(2), of "next_tick w"] this _ laws(3)] show ?thesis by simp
  qed
  then show "buffer_of (store w') = []" by (auto simp: flushed_def split: if_splits)
qed

end

end
