(* ===== verification/Upload_Lemmas.thy ===== *)
theory Upload_Lemmas
  imports Flush_Lemmas
begin

text \<open>
  Uploads over any store that obeys \<open>manifest_store\<close>: where the blobs of an upload get their names,
  and what a successful upload leaves in the manifest and the staging directory on either route.
\<close>

section \<open>Blob names are fresh draws\<close>

text \<open>Records of standalone chunks whose blobs are named by the draws at ticks \<open>a\<close> to \<open>b\<close>.\<close>

definition drawn :: "env \<Rightarrow> nat \<Rightarrow> nat \<Rightarrow> chunk_record list \<Rightarrow> bool" where
  "drawn E a b rs \<longleftrightarrow> (\<forall>r \<in> set rs. typed_chunk r \<and> standalone_chunk r \<and>
     (\<exists>t. a \<le> t \<and> t < b \<and> ck_blob_name r = uuid_hyphenated E (draw_uuid E t 0)))"

lemma drawn_Nil [simp]: "drawn E a b []"
  by (simp add: drawn_def)

lemma drawn_mono: "drawn E a b rs \<Longrightarrow> a' \<le> a \<Longrightarrow> b \<le> b' \<Longrightarrow> drawn E a' b' rs"
  unfolding drawn_def by (meson le_trans less_le_trans)

lemma drawn_append: "drawn E a b (rs @ rs') \<longleftrightarrow> drawn E a b rs \<and> drawn E a b rs'"
  by (auto simp: drawn_def)

lemma stage_chunk_drawn:
  assumes "stage_chunk E pr fid key dir cs fsz c i bp w = (Inr r, w')" "blake3_laws E" "cs \<le> 67108864" "i < 2 ^ 32"
  shows "drawn E (tick w) (tick w') [r]" "tick w \<le> tick w'"
proof -
  obtain blob where e: "encrypt_chunk E (zero_pad cs c) key fid i w = (Inr blob, next_tick w)"
    using assms(1) encrypt_chunk_world [of E "zero_pad cs c" key fid i w]
    by (fastforce simp: stage_chunk_def bind_Inr)
  let ?n = "uuid_hyphenated E (draw_uuid E (Suc (tick w)) 0)"
  from assms(1) obtain x w2 where wr: "write_blob_file E dir ?n blob (next_tick (next_tick w)) = (Inr (), w2)"
    and w': "tick w' = Suc (tick w2)" and r: "r = new_chunk_record x i ?n cs (compute_checksum E blob)"
    by (auto simp: stage_chunk_def bind_Inr e draw_def Let_def progress_if_eq)
  have typed: "typed_chunk r" "standalone_chunk r" "ck_blob_name r = ?n"
    using assms(2-4) by (simp_all add: r new_chunk_record_def typed_chunk_def standalone_chunk_def blake3_laws_def compute_checksum_def)
  have "tick w + 2 \<le> tick w2"
    using wr by (auto simp: write_blob_file_def write_owner_only_def bind_Inr fs_defs split: option.splits if_splits)
  then show "drawn E (tick w) (tick w') [r]" "tick w \<le> tick w'"
    using w' typed by (auto simp: drawn_def intro!: exI [of _ "Suc (tick w)"])
qed

lemma encrypt_chunks_drawn:
  assumes "blake3_laws E" "cs \<le> 67108864"
  shows "encrypt_chunks E pr fid key dir cs fsz chunks i bp rs w = (Inr rs', w') \<Longrightarrow> i < 2 ^ 32 \<Longrightarrow> drawn E a (tick w) rs \<Longrightarrow> a \<le> tick w \<Longrightarrow>
     drawn E a (tick w') rs'"
proof (induction chunks arbitrary: i bp rs w)
  case (Cons c chunks)
  obtain r w1 where s: "stage_chunk E pr fid key dir cs fsz c i bp w = (Inr r, w1)"
    and e: "encrypt_chunks E pr fid key dir cs fsz chunks (Suc i) (bp + length c) (rs @ [r]) w1 = (Inr rs', w')"
    and i: "Suc i < 2 ^ 32"
    using Cons.prems(1) by (auto simp: bind_Inr width_simps split: sum.splits prod.splits if_splits)
  note st = stage_chunk_drawn [OF s assms Cons.prems(2)]
  show ?case
    using Cons.IH [OF e i] drawn_mono [OF Cons.prems(3)] drawn_mono [OF st(1)] Cons.prems(4) st(2) by (auto simp: drawn_append)
qed simp

lemma encrypt_loop_drawn:
  assumes "blake3_laws E" "cs \<le> 67108864" "0 < cs"
  shows "encrypt_loop E pr fid key dir cs fsz rest i bp rs w = (Inr rs', w') \<Longrightarrow> i < 2 ^ 32 \<Longrightarrow> drawn E a (tick w) rs \<Longrightarrow> a \<le> tick w \<Longrightarrow>
     drawn E a (tick w') rs'"
proof (induction "length rest" arbitrary: rest i bp rs w rule: less_induct)
  case less
  have step: "drawn E a (tick w2) (rs @ [r])" "a \<le> tick w2"
    if "touches {} w w1" "stage_chunk E pr fid key dir cs fsz (take cs rest) i bp w1 = (Inr r, w2)" for r w1 w2
    using drawn_mono [OF less.prems(3)] drawn_mono [OF stage_chunk_drawn(1) [OF that(2) assms(1,2) less.prems(2)]] less.prems(4)
      stage_chunk_drawn(2) [OF that(2) assms(1,2) less.prems(2)] touchesD(3) [OF that(1)] by (auto simp: drawn_append)
  from less.prems(1) assms(3) show ?case
  proof (cases rule: encrypt_loop_step)
    case finished
    then show ?thesis using drawn_mono [OF less.prems(3)] touchesD(3) [OF finished(3)] by auto
  next
    case (last r w1)
    then show ?thesis using step [OF last(4,5)] by simp
  next
    case (more r w1 w2)
    have "length (drop cs rest) < length rest" using more(1) assms(3) by simp
    from less.hyps [OF this more(4,5)] step [OF more(2,3)] show ?thesis by blast
  qed simp_all
qed

lemma encrypt_bytes_drawn:
  assumes "encrypt_bytes E pr bs fid key MS dir w = (Inr rs, w')" "blake3_laws E"
  shows "drawn E (tick w) (tick w') rs"
proof (cases "bs = []")
  case False
  then obtain cs w1 where r: "read_chunk_size_bytes E MS w = (Inr cs, w1)"
    and e: "encrypt_chunks E pr fid key dir cs (length bs) (chunks_of cs bs) 0 0 [] w1 = (Inr rs, w')"
    using assms(1) by (auto simp: encrypt_bytes_def bind_Inr)
  have "drawn E (tick w1) (tick w') rs" by (rule encrypt_chunks_drawn [OF assms(2) _ e]) (use chunk_size_range [OF read_chunk_size_bytes_Inr [OF r]] in simp_all)
  then show ?thesis by (rule drawn_mono) (simp_all add: read_chunk_size_bytes_world [OF r])
qed (use assms(1) in \<open>simp add: encrypt_bytes_def\<close>)

lemma encrypt_file_inner_drawn:
  assumes "encrypt_file_inner E pr source fid key MS dir w = (Inr rs, w')" "blake3_laws E"
  shows "drawn E (tick w) (tick w') rs"
proof -
  obtain cs w1 l w2 c w3 where r: "read_chunk_size_bytes E MS w = (Inr cs, w1)"
    and l: "fs_len E source w1 = (l, w2)" and c: "fs_read E source w2 = (Inr c, w3)"
    and e: "encrypt_loop E pr fid key dir cs (case l of Inl _ \<Rightarrow> 0 | Inr n \<Rightarrow> n) c 0 0 [] w3 = (Inr rs, w')"
    using assms(1) by (auto simp: encrypt_file_inner_def bind_Inr attempt_Inr Let_def)
  have "cs \<le> 67108864" "0 < cs" using chunk_size_range [OF read_chunk_size_bytes_Inr [OF r]] by simp_all
  from encrypt_loop_drawn [OF assms(2) this e, of "tick w3"] have "drawn E (tick w3) (tick w') rs" by simp
  moreover have "tick w \<le> tick w3"
    using touchesD(3) [OF touches_read(2) [OF l]] touchesD(3) [OF touches_read(1) [OF c]]
    by (simp add: read_chunk_size_bytes_world [OF r])
  ultimately show ?thesis by (blast intro: drawn_mono)
qed

lemma encrypt_file_drawn:
  assumes "encrypt_file E pr source fid key MS dir w = (Inr rs, w')" "blake3_laws E"
  shows "drawn E (tick w) (tick w') rs"
proof -
  obtain magic w1 where m: "read_magic_bytes E source w = (Inr magic, w1)" using assms(1) by (auto simp: encrypt_file_def bind_Inr)
  have t: "tick w \<le> tick w1"
    using m by (auto simp: read_magic_bytes_def bind_Inr fs_read_def reader_read_def Let_def fs_effect_def split: option.splits)
  show ?thesis
  proof (cases "is_image_magic magic")
    case True
    then obtain raw w2 where r: "fs_read E source w1 = (Inr raw, w2)"
      and e: "encrypt_bytes E pr (strip_exif raw) fid key MS dir w2 = (Inr rs, w')"
      using assms(1) m by (auto simp: encrypt_file_def bind_Inr)
    show ?thesis
      using encrypt_bytes_drawn [OF e assms(2)] t touchesD(3) [OF touches_read(1) [OF r]] by (auto elim: drawn_mono)
  next
    case False
    obtain x w2 where e: "encrypt_file_inner E pr source fid key MS dir w1 = (x, w2)" by fastforce
    have "x = Inr rs \<and> w2 = w'"
      using assms(1) False e
      by (cases x) (auto simp: encrypt_file_def bind_def m attempt_def ret_def fail_def split: prod.splits sum.splits)
    then show ?thesis using encrypt_file_inner_drawn [of E pr source fid key MS dir w1 rs w'] assms(2) e t by (auto elim: drawn_mono)
  qed
qed

section \<open>What an upload reads\<close>

text \<open>A node whose chunks hold \<open>content\<close> under a key that the node's wrapped key opens to.\<close>

definition chunks_held ::
  "env \<Rightarrow> (string \<Rightarrow> bytes option) \<Rightarrow> bytes \<Rightarrow> nat \<Rightarrow> node \<Rightarrow> chunk_record list \<Rightarrow> bytes \<Rightarrow> bool" where
  "chunks_held E blobs kek cs nd chunks content \<longleftrightarrow>
     nd_size_bytes nd = length content \<and>
     (\<exists>wrapped key. nd_file_key_wrapped nd = Some wrapped \<and> unwrap_file_key E wrapped (nd_node_id nd) kek = Inr key \<and>
        file_stored E blobs key (nd_node_id nd) cs content chunks)"

lemma is_image_magic_take: "is_image_magic (take 8 bs) = is_image_magic bs"
  by (simp add: is_image_magic_def is_jpeg_def is_png_def)

lemma file_stored_assign:
  "file_stored E blobs key fid cs content rs \<Longrightarrow> file_stored E blobs key fid cs content (assign_node_id rs n)"
  by (simp add: file_stored_def chunks_stored_def assign_node_id_def chunk_stored_def)

lemma assign_node_id_names [simp]: "map ck_blob_name (assign_node_id rs n) = map ck_blob_name rs"
  by (simp add: assign_node_id_def)

lemma drawn_assign [simp]: "drawn E a b (assign_node_id rs n) = drawn E a b rs"
  by (simp add: drawn_def assign_node_id_def typed_chunk_def standalone_chunk_def)

lemma strip_exif_if_image_Inr:
  assumes "strip_exif_if_image E source (length bs) w = (Inr stripped, w')" "reads_eight E" "file_at w source = Some bs"
  shows "stripped = (if is_image_magic bs then Some (strip_exif bs) else None)" "touches {} w w'"
proof -
  have "8 \<le> max 1 (read_len E t)" for t using assms(2) unfolding reads_eight_def by (meson max.coboundedI2)
  then have k: "min 8 (max (Suc 0) (read_len E t)) = 8" for t by simp
  have empty: "\<not> is_image_magic []" by (simp add: is_image_magic_def is_jpeg_def is_png_def PNG_SIGNATURE_def)
  show "stripped = (if is_image_magic bs then Some (strip_exif bs) else None)" "touches {} w w'"
    using assms(1,3) empty
    by (auto simp: strip_exif_if_image_def bind_Inr fs_read_def reader_read_def k Let_def fs_effect_def is_image_magic_take
        touches_def split: option.splits if_splits)
qed

lemma read_epoch_buffer_enabled_world:
  assumes "read_epoch_buffer_enabled E MS w = (r, w')"
  shows "w' = next_tick w"
proof -
  obtain v where q: "query E (ms_get_meta MS ''epoch_buffer_enabled'') w = (v, next_tick w)"
    by (cases "os_fault E (tick w)") (auto simp: query_def)
  show ?thesis using assms
    by (cases v; cases "projr v")
      (auto simp: read_epoch_buffer_enabled_def bind_def q lift_def ret_def fail_def split: if_splits)
qed

text \<open>The encryption step of the immediate route.\<close>

lemma upload_encrypt_Inr:
  assumes e: "(case stripped of Some b \<Rightarrow> encrypt_bytes E pr b n key MS sd | None \<Rightarrow> encrypt_file E pr source n key MS sd) w = (Inr rs, w')"
    and "stripped = (if is_image_magic bs then Some (strip_exif bs) else None)"
    and "reads_eight E" "aead_laws E" "uuid_laws E" "length key = 32" "chunk_size_is MS (store w) cs" "file_at w source = Some bs"
    and "blake3_laws E"
  shows "touches (blob_file sd ` set (map ck_blob_name rs)) w w'" "drawn E (tick w) (tick w') rs"
    and "distinct (map ck_blob_name rs) \<Longrightarrow> file_stored E (blobs_in w' sd) key n cs (strip_exif bs) rs"
proof -
  have "touches (blob_file sd ` set (map ck_blob_name rs)) w w' \<and> drawn E (tick w) (tick w') rs \<and>
      (distinct (map ck_blob_name rs) \<longrightarrow> file_stored E (blobs_in w' sd) key n cs (strip_exif bs) rs)"
  proof (cases "is_image_magic bs")
    case True
    then have e: "encrypt_bytes E pr (strip_exif bs) n key MS sd w = (Inr rs, w')" using e assms(2) by simp
    show ?thesis using encrypt_bytes_Inr [OF e assms(4-7)] encrypt_bytes_drawn [OF e assms(9)] by blast
  next
    case False
    then have e: "encrypt_file E pr source n key MS sd w = (Inr rs, w')" using e assms(2) by simp
    show ?thesis using encrypt_file_Inr [OF e assms(3-8)] encrypt_file_drawn [OF e assms(9)] by blast
  qed
  then show "touches (blob_file sd ` set (map ck_blob_name rs)) w w'" "drawn E (tick w) (tick w') rs"
    and "distinct (map ck_blob_name rs) \<Longrightarrow> file_stored E (blobs_in w' sd) key n cs (strip_exif bs) rs" by blast+
qed

section \<open>Both routes\<close>

text \<open>
  Outcome of the immediate route: the node and the chunk list \<open>rs\<close> are in the manifest, the chunks
  hold the content, and only the blobs of \<open>rs\<close> were written.
\<close>

context manifest_store
begin

definition uploaded :: "env \<Rightarrow> node \<Rightarrow> 's world \<Rightarrow> 's world \<Rightarrow> bool" where
  "uploaded E nd w w' \<longleftrightarrow>
     inv (store w') \<and> meta_of (store w') = meta_of (store w) \<and> epoch_of (store w') = epoch_of (store w) \<and>
     dirs w' = dirs w \<and> tick w \<le> tick w' \<and> nd_node_type nd = File \<and>
     node_of (store w) (nd_node_id nd) = None \<and> node_of (store w') = (node_of (store w))(nd_node_id nd := Some nd)"

definition uploaded_chunks :: "env \<Rightarrow> path \<Rightarrow> bytes \<Rightarrow> nat \<Rightarrow> node \<Rightarrow> bytes \<Rightarrow> 's world \<Rightarrow> 's world \<Rightarrow> bool" where
  "uploaded_chunks E sd kek cs nd content w w' \<longleftrightarrow>
     (\<exists>rs. buffer_of (store w') = buffer_of (store w) \<and> chunk_list (store w') = (chunk_list (store w))(nd_node_id nd := rs) \<and>
        (\<forall>p. p \<notin> blob_file sd ` ck_blob_name ` set rs \<longrightarrow> file_at w' p = file_at w p) \<and> drawn E (tick w) (tick w') rs \<and>
        chunks_held E (blobs_in w' sd) kek cs nd rs content)"

definition uploaded_entry :: "node \<Rightarrow> bytes \<Rightarrow> 's world \<Rightarrow> 's world \<Rightarrow> bool" where
  "uploaded_entry nd content w w' \<longleftrightarrow>
     (\<forall>p. file_at w' p = file_at w p) \<and> chunk_list (store w') = chunk_list (store w) \<and> chunk_list (store w) (nd_node_id nd) = [] \<and>
     (\<exists>b. ee_node_id b = nd_node_id nd \<and> ee_plaintext b = content \<and> mset (buffer_of (store w')) = add_mset b (mset (buffer_of (store w))))"

lemma upload_immediate_Inr:
  assumes r: "upload_immediate E pr source n parent name ct mt MS kek sd stripped (length (strip_exif bs)) w = (Inr nd, w')"
    and str: "stripped = (if is_image_magic bs then Some (strip_exif bs) else None)"
    and s: "inv (store w)" "chunk_size_is MS (store w) cs" "file_at w source = Some bs" "addressable bs"
    and laws: "reads_eight E" "aead_laws E" "uuid_laws E" "blake3_laws E" "length kek = 32"
  shows "nd_node_id nd = n" "uploaded E nd w w'" "uploaded_chunks E sd kek cs nd (strip_exif bs) w w'"
proof -
  define key where "key = draw_key E (tick w)"
  have k: "length key = 32" using aead_laws_draw [OF laws(2)] by (simp add: key_def)
  obtain wb w1 rs w2 where wr: "wrap_file_key E key n kek (next_tick w) = (Inr wb, w1)"
    and e: "(case stripped of Some b \<Rightarrow> encrypt_bytes E pr b n key MS sd | None \<Rightarrow> encrypt_file E pr source n key MS sd) w1 = (Inr rs, w2)"
    and rest: "bind (attempt (mutate E (ms_insert_file_with_chunks MS
          (node_new n parent File name ct mt (length (strip_exif bs)) (Some wb)) (assign_node_id rs n)))) (\<lambda>r. case r of
        Inl error \<Rightarrow> bind (cleanup_staged_chunks E sd (assign_node_id rs n)) (\<lambda>_. fail error)
      | Inr _ \<Rightarrow> ret (node_new n parent File name ct mt (length (strip_exif bs)) (Some wb))) w2 = (Inr nd, w')"
    using r unfolding upload_immediate_def bind_Inr [of "generate_file_key E"] bind_Inr [of "with_err _ _"]
      bind_Inr [of "case_option _ _ _"] Let_def
    by (simp add: generate_file_key_def draw_def flip: key_def) blast
  have nd: "nd = node_new n parent File name ct mt (length (strip_exif bs)) (Some wb)"
    and mu: "mutate E (ms_insert_file_with_chunks MS nd (assign_node_id rs n)) w2 = (Inr (), w')"
  proof -
    obtain res w3 where m: "mutate E (ms_insert_file_with_chunks MS
        (node_new n parent File name ct mt (length (strip_exif bs)) (Some wb)) (assign_node_id rs n)) w2 = (res, w3)" by fastforce
    show "nd = node_new n parent File name ct mt (length (strip_exif bs)) (Some wb)"
      "mutate E (ms_insert_file_with_chunks MS nd (assign_node_id rs n)) w2 = (Inr (), w')"
      using rest m by (cases res; auto simp: bind_def attempt_def split: sum.splits prod.splits)+
  qed
  note wrapped = wrap_file_key_Inr [OF laws(2,5) k wr]
  have w1: "chunk_size_is MS (store w1) cs" "file_at w1 source = Some bs" "tick w1 = tick w + 2" using s wrapped(3) by simp_all
  note enc = upload_encrypt_Inr [OF e str laws(1-3) k w1(1,2) laws(4)]
  have st: "store w2 = store w" using touchesD(1) [OF enc(1)] wrapped(3) by simp
  obtain s' where ins: "ms_insert_file_with_chunks MS nd (assign_node_id rs n) (tick w2) (store w) = Inr s'"
    and w': "w' = (next_tick w2)\<lparr>store := s'\<rparr>" using mutate_Inr [OF mu] st by auto
  have size: "length (strip_exif bs) < 2 ^ 64" using s(4) length_strip_exif [of bs] by (simp add: addressable_def)
  show id: "nd_node_id nd = n" by (simp add: nd node_new_def)
  have typed: "typed_node nd" using size wrapped(2) by (simp add: nd node_new_def typed_node_def)
  have "\<forall>c \<in> set (assign_node_id rs n). typed_chunk c \<and> standalone_chunk c"
    using enc(2) drawn_assign [of E "tick w1" "tick w2" rs n] unfolding drawn_def by blast
  note law = insert_file [OF s(1) typed this ins, unfolded id]
  then have held: "file_stored E (blobs_in w2 sd) key n cs (strip_exif bs) (assign_node_id rs n)"
    using enc(3) by (simp add: file_stored_assign)
  have ticks: "tick w \<le> tick w1" "tick w2 \<le> tick w'" "tick w1 \<le> tick w2"
    using w1(3) touchesD(3) [OF enc(1)] by (simp_all add: w')
  show "uploaded E nd w w'"
    using law ticks touchesD(2) [OF enc(1)] wrapped(3) id by (simp add: uploaded_def w') (simp add: nd node_new_def)
  have "drawn E (tick w) (tick w') (assign_node_id rs n)" using drawn_mono [OF enc(2) ticks(1,2)] by simp
  moreover have "chunks_held E (blobs_in w' sd) kek cs nd (assign_node_id rs n) (strip_exif bs)"
    using held wrapped(1) by (simp add: chunks_held_def w' nd node_new_def)
  moreover have "chunk_list (store w') = (chunk_list (store w))(n := assign_node_id rs n)"
    using law sort_stored [OF held refl] by (simp add: w')
  moreover have "file_at w' p = file_at w p" if "p \<notin> blob_file sd ` ck_blob_name ` set (assign_node_id rs n)" for p
  proof -
    have "ck_blob_name ` set (assign_node_id rs n) = set (map ck_blob_name rs)" by (metis assign_node_id_names list.set_map)
    then show ?thesis using touchesD(4) [OF enc(1), of p] that wrapped(3) by (simp add: w')
  qed
  ultimately show "uploaded_chunks E sd kek cs nd (strip_exif bs) w w'"
    unfolding uploaded_chunks_def id using law by (intro exI [of _ "assign_node_id rs n"]) (simp add: w')
qed

lemma upload_epoch_Inr:
  assumes r: "upload_epoch E source n parent name ct mt MS kek stripped w = (Inr nd, w')"
    and str: "stripped = (if is_image_magic bs then Some (strip_exif bs) else None)"
    and s: "inv (store w)" "file_at w source = Some bs" "addressable bs"
    and laws: "aead_laws E" "length kek = 32"
  shows "nd_node_id nd = n" "uploaded E nd w w'" "uploaded_entry nd (strip_exif bs) w w'"
proof -
  obtain p w1 where p: "(case stripped of Some b \<Rightarrow> ret b | None \<Rightarrow> with_err from_io (fs_read E source)) w = (Inr p, w1)"
    and rest: "bind (with_err from_crypto (wrap_file_key E (replicate 32 0) n kek)) (\<lambda>sentinel.
        let node = node_new n parent File name ct mt (length p) (Some sentinel) in
        bind (mutate E (ms_insert_file_node_and_stage_epoch_entry MS node p)) (\<lambda>_. ret node)) w1 = (Inr nd, w')"
    using r unfolding upload_epoch_def bind_Inr [of "case_option _ _ _"] by blast
  have w1: "p = strip_exif bs \<and> files w1 = files w \<and> dirs w1 = dirs w \<and> store w1 = store w \<and> tick w \<le> tick w1"
    using p s(2) strip_exif_other [of bs]
    by (auto simp: str ret_def fs_read_def fs_effect_def split: if_splits option.splits)
  obtain wb w2 where wr: "wrap_file_key E (replicate 32 0) n kek w1 = (Inr wb, w2)"
    and nd: "nd = node_new n parent File name ct mt (length p) (Some wb)"
    and mu: "mutate E (ms_insert_file_node_and_stage_epoch_entry MS nd p) w2 = (Inr (), w')"
    using rest by (auto simp: bind_Inr Let_def)
  note wrapped = wrap_file_key_Inr [OF laws _ wr, simplified]
  obtain s' where ins: "ms_insert_file_node_and_stage_epoch_entry MS nd p (tick w2) (store w) = Inr s'"
    and w': "w' = (next_tick w2)\<lparr>store := s'\<rparr>" using mutate_Inr [OF mu] w1 wrapped(3) by auto
  have size: "length p < 2 ^ 64" using w1 s(3) length_strip_exif [of bs] by (simp add: addressable_def)
  show id: "nd_node_id nd = n" by (simp add: nd node_new_def)
  have typed: "typed_node nd" using size wrapped(2) by (simp add: nd node_new_def typed_node_def)
  note law = insert_staged [OF s(1) typed ins, unfolded id]
  show "uploaded E nd w w'" using law w1 wrapped(3) id by (simp add: uploaded_def w') (simp add: nd node_new_def)
  show "uploaded_entry nd (strip_exif bs) w w'"
    using law w1 wrapped(3) id unfolding uploaded_entry_def by (auto simp: w')
qed

text \<open>A successful upload took one of the two routes.\<close>

lemma upload_file_Inr:
  assumes r: "upload_file E pr source n parent name ct mt MS kek sd w = (Inr nd, w')"
    and s: "inv (store w)" "chunk_size_is MS (store w) cs" "file_at w source = Some bs" "addressable bs"
    and laws: "reads_eight E" "aead_laws E" "uuid_laws E" "blake3_laws E" "length kek = 32"
  shows "nd_node_id nd = n" "uploaded E nd w w'"
    and "uploaded_chunks E sd kek cs nd (strip_exif bs) w w' \<or> uploaded_entry nd (strip_exif bs) w w'"
proof -
  let ?str = "if is_image_magic bs then Some (strip_exif bs) else None"
  let ?size = "length (strip_exif bs)"
  obtain len w1 stripped w2 cs' w3 en w4 where l: "fs_len E source w = (Inr len, w1)"
    and st: "strip_exif_if_image E source len w1 = (Inr stripped, w2)"
    and c: "read_chunk_size_bytes E MS w2 = (Inr cs', w3)" and e: "read_epoch_buffer_enabled E MS w3 = (Inr en, w4)"
    and up: "(case decide (case stripped of Some b \<Rightarrow> length b | None \<Rightarrow> len) cs' en of
        EpochBuffer \<Rightarrow> upload_epoch E source n parent name ct mt MS kek stripped
      | Immediate \<Rightarrow> upload_immediate E pr source n parent name ct mt MS kek sd stripped
          (case stripped of Some b \<Rightarrow> length b | None \<Rightarrow> len)) w4 = (Inr nd, w')"
    using r by (auto simp: upload_file_def bind_Inr Let_def)
  have len: "len = length bs" using l s(3) by (auto simp: fs_len_def fs_effect_def split: option.splits)
  note t1 = touches_read(2) [OF l]
  have f1: "file_at w1 source = Some bs" using touchesD(4) [OF t1] s(3) by simp
  note str = strip_exif_if_image_Inr [OF st [unfolded len] laws(1) f1]
  have t4: "touches {} w2 w4"
    using read_epoch_buffer_enabled_world [OF e] read_chunk_size_bytes_world [OF c] by (simp add: touches_def)
  have t: "touches {} w w4" by (rule touches_trans [OF touches_trans [OF t1 str(2)] t4]) auto
  have size: "(case stripped of Some b \<Rightarrow> length b | None \<Rightarrow> len) = ?size"
    using str(1) len strip_exif_other [of bs] by simp
  have w4: "inv (store w4)" "chunk_size_is MS (store w4) cs" "file_at w4 source = Some bs"
    using touchesD(1,4) [OF t] s by simp_all
  have f: "file_at w4 p = file_at w p" for p using touchesD(4) [OF t] by simp
  have "nd_node_id nd = n \<and> uploaded E nd w4 w' \<and>
      (uploaded_chunks E sd kek cs nd (strip_exif bs) w4 w' \<or> uploaded_entry nd (strip_exif bs) w4 w')"
  proof (cases "decide ?size cs' en")
    case Immediate
    then have u: "upload_immediate E pr source n parent name ct mt MS kek sd stripped ?size w4 = (Inr nd, w')"
      using up size by simp
    show ?thesis using upload_immediate_Inr [OF u str(1) w4 s(4) laws] by blast
  next
    case EpochBuffer
    then have u: "upload_epoch E source n parent name ct mt MS kek stripped w4 = (Inr nd, w')" using up size by simp
    show ?thesis using upload_epoch_Inr [OF u str(1) w4(1,3) s(4) laws(2,5)] by blast
  qed
  moreover have "uploaded_chunks E sd kek cs nd (strip_exif bs) w w'" if "uploaded_chunks E sd kek cs nd (strip_exif bs) w4 w'"
    using that drawn_mono [of E "tick w4" "tick w'" _ "tick w" "tick w'"] touchesD(1,3) [OF t]
    unfolding uploaded_chunks_def f by auto
  ultimately show "nd_node_id nd = n" "uploaded E nd w w'"
      "uploaded_chunks E sd kek cs nd (strip_exif bs) w w' \<or> uploaded_entry nd (strip_exif bs) w w'"
    using touchesD(1-3) [OF t] by (auto simp: uploaded_def uploaded_entry_def f)
qed

end

end
