(* ===== verification/Fresh_Blobs.thy ===== *)
theory Fresh_Blobs
  imports Upload_Lemmas
begin

text \<open>
  Whatever the outcome of an upload, and whichever I/O calls fail: it only creates, changes or removes
  blobs that it named itself, and a failed one leaves the store as it was.
\<close>

definition names :: "env \<Rightarrow> nat \<Rightarrow> nat \<Rightarrow> string set" where
  "names E a b = (\<lambda>t. uuid_hyphenated E (draw_uuid E t 0)) ` {a..<b}"

lemma names_mono: "a' \<le> a \<Longrightarrow> b \<le> b' \<Longrightarrow> names E a b \<subseteq> names E a' b'"
  unfolding names_def by (intro image_mono) auto

lemma names_disjoint: "fresh_draws E a c \<Longrightarrow> uuid_laws E \<Longrightarrow> b \<le> c \<Longrightarrow> names E a b \<inter> names E b c = {}"
proof -
  assume f: "fresh_draws E a c" "uuid_laws E" "b \<le> c"
  have "draw_uuid E s 0 \<noteq> draw_uuid E t 0" if "a \<le> s" "s < b" "b \<le> t" "t < c" for s t
    using fresh_drawsD [OF f(1), of s t] that by simp
  then show ?thesis using uuid_hyphenated_inj [OF f(2)] by (fastforce simp: names_def)
qed

lemma fresh_draws_le: "fresh_draws E a c \<Longrightarrow> b \<le> c \<Longrightarrow> fresh_draws E a b"
  unfolding fresh_draws_def by (erule inj_on_subset) auto

lemma fresh_draws_sub: "fresh_draws E a c \<Longrightarrow> a \<le> a' \<Longrightarrow> fresh_draws E a' c"
  unfolding fresh_draws_def by (erule inj_on_subset) auto

lemma drawn_names: "drawn E a b rs \<Longrightarrow> ck_blob_name ` set rs \<subseteq> names E a b"
  by (auto simp: drawn_def names_def)

text \<open>Only blobs named between the two ticks are touched.\<close>

definition fresh_only :: "env \<Rightarrow> path \<Rightarrow> 's world \<Rightarrow> 's world \<Rightarrow> bool" where
  "fresh_only E sd w w' \<longleftrightarrow> touches (blob_file sd ` names E (tick w) (tick w')) w w'"

lemma fresh_only_refl [simp]: "fresh_only E sd w w"
  by (simp add: fresh_only_def)

lemma fresh_only_touches: "touches {} w w' \<Longrightarrow> fresh_only E sd w w'"
  unfolding fresh_only_def by (erule touches_mono) simp

lemma fresh_only_ticks: "fresh_only E sd w w' \<Longrightarrow> tick w \<le> tick w'"
  unfolding fresh_only_def by (rule touchesD(3))

lemma fresh_only_store: "fresh_only E sd w w' \<Longrightarrow> store w' = store w"
  unfolding fresh_only_def by (rule touchesD(1))

lemma fresh_only_trans:
  assumes "fresh_only E sd w1 w2" "fresh_only E sd w2 w3"
  shows "fresh_only E sd w1 w3"
proof -
  note t = fresh_only_ticks [OF assms(1)] fresh_only_ticks [OF assms(2)]
  show ?thesis unfolding fresh_only_def
    by (rule touches_trans [OF assms(1) [unfolded fresh_only_def] assms(2) [unfolded fresh_only_def]])
      (use t in \<open>intro image_mono names_mono; simp\<close>)+
qed

lemma stage_chunk_fresh:
  assumes "stage_chunk E pr fid key dir cs fsz c i bp w = (x, w')"
  shows "fresh_only E dir w w'"
    and "x = Inr r \<Longrightarrow> ck_blob_name r \<in> names E (tick w) (tick w')"
    and "x = Inl (named, e) \<Longrightarrow> set named \<subseteq> names E (tick w) (tick w')"
proof -
  let ?n = "uuid_hyphenated E (draw_uuid E (Suc (tick w)) 0)"
  have n: "?n \<in> names E (tick w) b" if "tick w + 2 \<le> b" for b using that by (auto simp: names_def)
  obtain y where e: "encrypt_chunk E (zero_pad cs c) key fid i w = (y, next_tick w)"
    using encrypt_chunk_world [of E "zero_pad cs c" key fid i w] by (metis surj_pair)
  obtain z w2 where wr: "write_blob_file E dir ?n (projr y) (next_tick (next_tick w)) = (z, w2)" by fastforce
  have t: "touches {blob_file dir ?n} (next_tick (next_tick w)) w2"
    using wr by (auto simp: write_blob_file_def write_owner_only_def bind_def with_err_def fs_defs touches_def
        split: option.splits if_splits sum.splits prod.splits)
  have tk: "tick w + 2 \<le> tick w2" using touchesD(3) [OF t] by simp
  have cases: "(\<exists>er. y = Inl er) \<and> w' = next_tick w \<and> (\<exists>er. x = Inl ([], er)) \<or>
      (\<exists>er. z = Inl er) \<and> w' = w2 \<and> (\<exists>er. x = Inl ([?n], er)) \<or>
      (\<exists>r l. x = Inr r \<and> ck_blob_name r = ?n \<and> tick w' = Suc (tick w2) \<and> files w' = files w2 \<and> dirs w' = dirs w2 \<and> store w' = store w2)"
    using assms wr by (cases y; cases z)
      (auto simp: stage_chunk_def bind_def with_err_def e draw_def Let_def progress_if_eq ret_def new_chunk_record_def split: if_splits)
  show "fresh_only E dir w w'"
    unfolding fresh_only_def
  proof (rule touches_mono)
    show "touches (if w' = next_tick w then {} else {blob_file dir ?n}) w w'"
      using cases t tk by (auto simp: touches_def)
    show "(if w' = next_tick w then {} else {blob_file dir ?n}) \<subseteq> blob_file dir ` names E (tick w) (tick w')"
      using cases tk n by auto
  qed
  show "x = Inr r \<Longrightarrow> ck_blob_name r \<in> names E (tick w) (tick w')"
    and "x = Inl (named, e) \<Longrightarrow> set named \<subseteq> names E (tick w) (tick w')"
    using cases tk n by auto
qed

lemma cleanup_staged_blobs_touches:
  "cleanup_staged_blobs E dir bs w = (r, w') \<Longrightarrow> touches (blob_file dir ` set bs) w w'"
proof (induction bs arbitrary: w)
  case (Cons b bs)
  obtain x w1 where r: "fs_remove E (blob_file dir b) w = (x, w1)" by fastforce
  then have "cleanup_staged_blobs E dir bs w1 = (r, w')" using Cons.prems by (simp add: bind_def attempt_def)
  from touches_trans [OF touches_change(3) [OF r] Cons.IH [OF this]] show ?case by auto
qed simp

lemma cleanup_fresh:
  assumes "fresh_only E dir w w1" "set bs \<subseteq> names E (tick w) (tick w1)" "cleanup_staged_blobs E dir bs w1 = (r, w')"
  shows "fresh_only E dir w w'"
proof -
  note t = cleanup_staged_blobs_touches [OF assms(3)]
  have le: "tick w1 \<le> tick w'" by (rule touchesD(3) [OF t])
  have sub: "names E (tick w) (tick w1) \<subseteq> names E (tick w) (tick w')" by (rule names_mono) (use le in simp_all)
  show ?thesis unfolding fresh_only_def
    by (rule touches_trans [OF assms(1) [unfolded fresh_only_def] t]) (intro image_mono, use sub assms(2) in blast)+
qed

lemma encrypt_chunks_fresh:
  "encrypt_chunks E pr fid key dir cs fsz chunks i bp rs w = (x, w') \<Longrightarrow> fresh_only E dir w0 w \<Longrightarrow>
     ck_blob_name ` set rs \<subseteq> names E (tick w0) (tick w) \<Longrightarrow> fresh_only E dir w0 w'"
proof (induction chunks arbitrary: i bp rs w)
  case (Cons c chunks)
  obtain y w1 where s: "stage_chunk E pr fid key dir cs fsz c i bp w = (y, w1)" by fastforce
  note st = stage_chunk_fresh [OF s] and tk = fresh_only_ticks [OF Cons.prems(2)]
  note f1 = fresh_only_trans [OF Cons.prems(2) st(1)]
  have le: "tick w \<le> tick w1" by (rule fresh_only_ticks [OF st(1)])
  have old: "names E (tick w0) (tick w) \<subseteq> names E (tick w0) (tick w1)" "names E (tick w) (tick w1) \<subseteq> names E (tick w0) (tick w1)"
    by (rule names_mono; use tk le in simp)+
  show ?case
  proof (cases y)
    case (Inl ne)
    obtain named e where ne: "ne = (named, e)" by fastforce
    have "bind (cleanup_staged_blobs E dir (map ck_blob_name rs @ named)) (\<lambda>_. fail e) w1 = (x, w')"
      using Cons.prems(1) s Inl ne by simp
    then obtain u where "cleanup_staged_blobs E dir (map ck_blob_name rs @ named) w1 = (u :: storage_error + unit, w')"
      by (auto simp: bind_def fail_def split: prod.splits sum.splits)
    moreover have "set (map ck_blob_name rs @ named) \<subseteq> names E (tick w0) (tick w1)"
      using st(3) [of named e] Inl ne Cons.prems(3) old by (simp, meson order_trans)
    ultimately show ?thesis by (rule cleanup_fresh [OF f1, rotated])
  next
    case (Inr r)
    have r: "ck_blob_name ` set (rs @ [r]) \<subseteq> names E (tick w0) (tick w1)"
      using st(2) [OF Inr] Cons.prems(3) old by auto
    show ?thesis
      using Cons.prems(1) s Inr Cons.IH [OF _ f1 r] f1 by (auto split: option.splits)
  qed
qed simp

lemma encrypt_loop_fresh:
  assumes "0 < cs"
  shows "encrypt_loop E pr fid key dir cs fsz rest i bp rs w = (x, w') \<Longrightarrow> fresh_only E dir w0 w \<Longrightarrow>
     ck_blob_name ` set rs \<subseteq> names E (tick w0) (tick w) \<Longrightarrow>
     fresh_only E dir w0 w' \<and> (\<forall>ns e. x = Inl (ns, e) \<longrightarrow> set ns \<subseteq> names E (tick w0) (tick w'))"
proof (induction "length rest" arbitrary: rest i bp rs w rule: less_induct)
  case less
  have step: "fresh_only E dir w0 w2" "names E (tick w0) (tick w) \<subseteq> names E (tick w0) (tick w2)"
      "names E (tick w1) (tick w2) \<subseteq> names E (tick w0) (tick w2)"
    if "touches {} w w1" "stage_chunk E pr fid key dir cs fsz (take cs rest) i bp w1 = (y, w2)" for y w1 w2
  proof -
    note st = stage_chunk_fresh(1) [OF that(2)] and f = fresh_only_trans [OF less.prems(2) fresh_only_touches [OF that(1)]]
    show "fresh_only E dir w0 w2" by (rule fresh_only_trans [OF f st])
    show "names E (tick w0) (tick w) \<subseteq> names E (tick w0) (tick w2)" "names E (tick w1) (tick w2) \<subseteq> names E (tick w0) (tick w2)"
      by (rule names_mono; use fresh_only_ticks [OF less.prems(2)] touchesD(3) [OF that(1)] fresh_only_ticks [OF st] in simp)+
  qed
  have w: "fresh_only E dir w0 w' \<and> names E (tick w0) (tick w) \<subseteq> names E (tick w0) (tick w')" if "touches {} w w'"
    using fresh_only_trans [OF less.prems(2) fresh_only_touches [OF that]] names_mono [of "tick w0" "tick w0" "tick w" "tick w'" E]
      touchesD(3) [OF that] by simp
  from less.prems(1) assms show ?case
  proof (cases rule: encrypt_loop_step)
    case (read_error e)
    then show ?thesis using w [OF read_error(2)] less.prems(3) by auto
  next
    case finished
    then show ?thesis using w by simp
  next
    case (stage_error named e w1)
    then show ?thesis using step [OF stage_error(2,3)] stage_chunk_fresh(3) [OF stage_error(3) refl] less.prems(3) by auto
  next
    case (last r w1)
    then show ?thesis using step [OF last(4,5)] by simp
  next
    case (overflow r w1)
    then show ?thesis using step [OF overflow(2,4)] stage_chunk_fresh(2) [OF overflow(4) refl] less.prems(3) by auto
  next
    case (more r w1 w2)
    have "length (drop cs rest) < length rest" using more(1) assms by simp
    moreover have "ck_blob_name ` set (rs @ [r]) \<subseteq> names E (tick w0) (tick w2)"
      using step [OF more(2,3)] stage_chunk_fresh(2) [OF more(3) refl] less.prems(3) by auto
    ultimately show ?thesis using less.hyps [OF _ more(4) step(1) [OF more(2,3)]] by blast
  qed
qed

lemma encrypt_bytes_fresh:
  assumes "encrypt_bytes E pr bs fid key MS dir w = (x, w')"
  shows "fresh_only E dir w w'"
proof (cases "bs = []")
  case False
  obtain c w1 where r: "read_chunk_size_bytes E MS w = (c, w1)" by fastforce
  have f: "fresh_only E dir w w1" by (rule fresh_only_touches) (simp add: read_chunk_size_bytes_world [OF r])
  show ?thesis
  proof (cases c)
    case (Inr cs)
    then have "encrypt_chunks E pr fid key dir cs (length bs) (chunks_of cs bs) 0 0 [] w1 = (x, w')"
      using assms False r by (simp add: encrypt_bytes_def bind_def)
    from encrypt_chunks_fresh [OF this f] show ?thesis by simp
  qed (use assms False r f in \<open>simp add: encrypt_bytes_def bind_def\<close>)
qed (use assms in \<open>simp add: encrypt_bytes_def\<close>)

lemma encrypt_file_inner_fresh:
  assumes "encrypt_file_inner E pr source fid key MS dir w = (x, w')"
  shows "fresh_only E dir w w'" "x = Inl (ns, e) \<Longrightarrow> set ns \<subseteq> names E (tick w) (tick w')"
proof -
  obtain c w1 where r: "read_chunk_size_bytes E MS w = (c, w1)" by fastforce
  obtain l w2 where l: "fs_len E source w1 = (l, w2)" by fastforce
  obtain b w3 where b: "fs_read E source w2 = (b, w3)" by fastforce
  have f1: "fresh_only E dir w w1" by (rule fresh_only_touches) (simp add: read_chunk_size_bytes_world [OF r])
  have f3: "fresh_only E dir w w3"
    by (rule fresh_only_trans [OF fresh_only_trans [OF f1 fresh_only_touches [OF touches_read(2) [OF l]]]
        fresh_only_touches [OF touches_read(1) [OF b]]])
  have "fresh_only E dir w w' \<and> (\<forall>ns e. x = Inl (ns, e) \<longrightarrow> set ns \<subseteq> names E (tick w) (tick w'))"
  proof (cases c)
    case (Inl er)
    then have "x = Inl ([], er) \<and> w' = w1" using assms r by (simp add: encrypt_file_inner_def bind_def with_err_def)
    then show ?thesis using f1 by simp
  next
    case (Inr cs)
    show ?thesis
    proof (cases b)
      case Inl_b: (Inl er)
      then have "x = Inl ([], from_io er) \<and> w' = w3" using assms r l b Inr
        by (simp add: encrypt_file_inner_def bind_def with_err_def attempt_def)
      then show ?thesis using f3 by simp
    next
      case Inr_b: (Inr c)
      have e: "encrypt_loop E pr fid key dir cs (case l of Inl _ \<Rightarrow> 0 | Inr n \<Rightarrow> n) c 0 0 [] w3 = (x, w')"
        using assms r l b Inr Inr_b by (simp add: encrypt_file_inner_def bind_def with_err_def attempt_def)
      have "0 < cs" using chunk_size_range [OF read_chunk_size_bytes_Inr [OF r [unfolded Inr]]] by simp
      from encrypt_loop_fresh [OF this e f3] show ?thesis by simp
    qed
  qed
  then show "fresh_only E dir w w'" "x = Inl (ns, e) \<Longrightarrow> set ns \<subseteq> names E (tick w) (tick w')" by blast+
qed

lemma read_magic_bytes_touches: "read_magic_bytes E p w = (r, w') \<Longrightarrow> touches {} w w'"
  by (auto simp: read_magic_bytes_def bind_def with_err_def fs_read_def reader_read_def fs_effect_def Let_def
      touches_def ret_def split: option.splits prod.splits sum.splits)

lemma encrypt_file_fresh:
  assumes "encrypt_file E pr source fid key MS dir w = (x, w')"
  shows "fresh_only E dir w w'"
proof -
  obtain m w1 where m: "read_magic_bytes E source w = (m, w1)" by fastforce
  note f1 = fresh_only_touches [OF read_magic_bytes_touches [OF m]]
  show ?thesis
  proof (cases m)
    case Inl
    then show ?thesis using assms m f1 by (simp add: encrypt_file_def bind_def)
  next
    case (Inr magic)
    show ?thesis
    proof (cases "is_image_magic magic")
      case True
      obtain y w2 where r: "fs_read E source w1 = (y, w2)" by fastforce
      note f2 = fresh_only_trans [OF f1 fresh_only_touches [OF touches_read(1) [OF r]]]
      show ?thesis
      proof (cases y)
        case Inl
        then show ?thesis using assms m Inr True r f2 by (simp add: encrypt_file_def bind_def with_err_def)
      next
        case (Inr raw)
        then have "encrypt_bytes E pr (strip_exif raw) fid key MS dir w2 = (x, w')"
          using assms m \<open>m = Inr magic\<close> True r by (simp add: encrypt_file_def bind_def with_err_def)
        from fresh_only_trans [OF f2 encrypt_bytes_fresh [OF this]] show ?thesis .
      qed
    next
      case False
      obtain y w2 where i: "encrypt_file_inner E pr source fid key MS dir w1 = (y, w2)" by fastforce
      note f = encrypt_file_inner_fresh [OF i]
      show ?thesis
      proof (cases y)
        case (Inl ne)
        obtain ns e where ne: "ne = (ns, e)" by fastforce
        have "bind (cleanup_staged_blobs E dir ns) (\<lambda>_. fail e) w2 = (x, w')"
          using assms m Inr False i Inl ne by (simp add: encrypt_file_def bind_def attempt_def)
        then obtain u where "cleanup_staged_blobs E dir ns w2 = (u :: storage_error + unit, w')"
          by (auto simp: bind_def fail_def split: prod.splits sum.splits)
        from cleanup_fresh [OF f(1) f(2) this] Inl ne have "fresh_only E dir w1 w'" by blast
        then show ?thesis by (rule fresh_only_trans [OF f1])
      next
        case Inr_y: (Inr rs)
        then have "w' = w2" using assms m Inr False i by (simp add: encrypt_file_def bind_def attempt_def)
        then show ?thesis using fresh_only_trans [OF f1 f(1)] by simp
      qed
    qed
  qed
qed


section \<open>A failed upload\<close>

lemma mutate_Inl_touches: "mutate E f w = (Inl e, w') \<Longrightarrow> touches {} w w'"
  using mutate_Inl [of E f w e w'] by simp

lemma upload_epoch_fails:
  assumes "upload_epoch E source n parent name ct mt MS kek stripped w = (Inl e, w')"
  shows "touches {} w w'"
proof -
  obtain p w1 where p: "(case stripped of Some b \<Rightarrow> ret b | None \<Rightarrow> with_err from_io (fs_read E source)) w = (p, w1)" by fastforce
  have t1: "touches {} w w1"
    using p by (auto simp: ret_def with_err_def dest: touches_read(1) split: option.splits prod.splits)
  show ?thesis
  proof (cases p)
    case (Inr b)
    obtain wb w2 where wr: "wrap_file_key E (replicate 32 0) n kek w1 = (wb, w2)" by fastforce
    have t2: "touches {} w w2" using t1 wrap_file_key_world [OF wr] by (simp add: touches_def)
    show ?thesis
    proof (cases wb)
      case Inl
      then show ?thesis using assms p Inr wr t2 by (simp add: upload_epoch_def bind_def with_err_def)
    next
      case Inr_wb: (Inr k)
      then have "mutate E (ms_insert_file_node_and_stage_epoch_entry MS (node_new n parent File name ct mt (length b) (Some k)) b) w2 = (Inl e, w')"
        using assms p Inr wr by (auto simp: upload_epoch_def bind_def with_err_def Let_def ret_def split: prod.splits sum.splits)
      then show ?thesis using touches_trans [OF t2 mutate_Inl_touches] by blast
    qed
  qed (use assms p t1 in \<open>simp add: upload_epoch_def bind_def\<close>)
qed

lemma bind_generate_file_key: "bind (generate_file_key E) g w = g (draw_key E (tick w)) (next_tick w)"
  by (simp add: bind_def generate_file_key_def draw_def)

lemma bind_with_err: "m w = (Inr a, w') \<Longrightarrow> bind (with_err f m) g w = g a w'"
  by (simp add: bind_def with_err_def)

lemma upload_immediate_fails:
  assumes r: "upload_immediate E pr source n parent name ct mt MS kek sd stripped fsz w = (Inl e, w')" and b: "blake3_laws E"
  shows "fresh_only E sd w w'"
proof -
  define key where "key = draw_key E (tick w)"
  obtain wb w1 where wr: "wrap_file_key E key n kek (next_tick w) = (wb, w1)" by fastforce
  have f1: "fresh_only E sd w w1" by (rule fresh_only_touches) (simp add: wrap_file_key_world [OF wr] touches_def)
  show ?thesis
  proof (cases wb)
    case Inl
    then show ?thesis using r wr f1 by (simp add: upload_immediate_def bind_def generate_file_key_def draw_def with_err_def flip: key_def)
  next
    case (Inr k)
    let ?enc = "case stripped of Some b \<Rightarrow> encrypt_bytes E pr b n key MS sd | None \<Rightarrow> encrypt_file E pr source n key MS sd"
    obtain x w2 where en: "?enc w1 = (x, w2)" by fastforce
    have f2: "fresh_only E sd w1 w2" using en by (cases stripped) (auto intro: encrypt_bytes_fresh encrypt_file_fresh)
    note f = fresh_only_trans [OF f1 f2]
    let ?node = "node_new n parent File name ct mt fsz (Some k)"
    have step: "bind ?enc (\<lambda>chunks. bind (attempt (mutate E (ms_insert_file_with_chunks MS ?node (assign_node_id chunks n)))) (\<lambda>r. case r of
        Inl error \<Rightarrow> bind (cleanup_staged_chunks E sd (assign_node_id chunks n)) (\<lambda>_. fail error) | Inr _ \<Rightarrow> ret ?node)) w1 = (Inl e, w')"
      using r unfolding key_def by (simp add: upload_immediate_def bind_generate_file_key bind_with_err wr [unfolded key_def] Inr Let_def)
    show ?thesis
    proof (cases x)
      case Inl
      then show ?thesis using step en f by (simp add: bind_def)
    next
      case Inr_x: (Inr rs)
      obtain y w3 where mu: "mutate E (ms_insert_file_with_chunks MS ?node (assign_node_id rs n)) w2 = (y, w3)" by fastforce
      show ?thesis
      proof (cases y)
        case (Inl er)
        note t3 = mutate_Inl_touches [OF mu [unfolded Inl]]
        obtain u where c: "cleanup_staged_blobs E sd (map ck_blob_name rs) w3 = (u :: storage_error + unit, w')"
          using step en Inr_x mu Inl by (auto simp: bind_def attempt_def cleanup_staged_chunks_def fail_def split: prod.splits sum.splits)
        have "drawn E (tick w1) (tick w2) rs"
          using en Inr_x b by (cases stripped) (auto intro: encrypt_bytes_drawn encrypt_file_drawn)
        then have "drawn E (tick w) (tick w3) rs"
          by (rule drawn_mono) (use fresh_only_ticks [OF f1] touchesD(3) [OF t3] in simp_all)
        then have "set (map ck_blob_name rs) \<subseteq> names E (tick w) (tick w3)" by (fastforce simp: drawn_def names_def)
        from cleanup_fresh [OF fresh_only_trans [OF f fresh_only_touches [OF t3]] this c] show ?thesis .
      next
        case Inr_y: (Inr v)
        then show ?thesis using step en Inr_x mu by (simp add: bind_def attempt_def ret_def)
      qed
    qed
  qed
qed

text \<open>A failed upload leaves the store and every older blob alone, whatever failed.\<close>

lemma upload_file_fails:
  assumes r: "upload_file E pr source n parent name ct mt MS kek sd w = (Inl e, w')" and b: "blake3_laws E"
  shows "fresh_only E sd w w'"
proof -
  obtain len w1 where l: "fs_len E source w = (len, w1)" by fastforce
  note f1 = fresh_only_touches [OF touches_read(2) [OF l]]
  show ?thesis
  proof (cases len)
    case Inl
    then show ?thesis using r l f1 by (simp add: upload_file_def bind_def with_err_def)
  next
    case (Inr n1)
    obtain st w2 where st: "strip_exif_if_image E source n1 w1 = (st, w2)" by fastforce
    have "touches {} w1 w2"
      using st by (auto simp: strip_exif_if_image_def bind_def with_err_def fs_read_def reader_read_def Let_def fs_effect_def touches_def
          ret_def split: option.splits if_splits prod.splits sum.splits)
    note f2 = fresh_only_trans [OF f1 fresh_only_touches [OF this]]
    show ?thesis
    proof (cases st)
      case Inl
      then show ?thesis using r l Inr st f2 by (simp add: upload_file_def bind_def with_err_def)
    next
      case Inr_st: (Inr stripped)
      obtain c w3 where c: "read_chunk_size_bytes E MS w2 = (c, w3)" by fastforce
      obtain en w4 where en: "read_epoch_buffer_enabled E MS w3 = (en, w4)" by fastforce
      have f3: "fresh_only E sd w w3"
        by (rule fresh_only_trans [OF f2 fresh_only_touches]) (simp add: read_chunk_size_bytes_world [OF c])
      have f4: "fresh_only E sd w w4"
        by (rule fresh_only_trans [OF f3 fresh_only_touches]) (simp add: read_epoch_buffer_enabled_world [OF en])
      have "(case c of Inl e \<Rightarrow> (Inl e, w3) | Inr cs \<Rightarrow> case en of Inl e \<Rightarrow> (Inl e, w4) | Inr en \<Rightarrow>
          (let fsz = (case stripped of None \<Rightarrow> n1 | Some b \<Rightarrow> length b) in
           case decide fsz cs en of EpochBuffer \<Rightarrow> upload_epoch E source n parent name ct mt MS kek stripped w4
           | Immediate \<Rightarrow> upload_immediate E pr source n parent name ct mt MS kek sd stripped fsz w4)) = (Inl e, w')"
        using r l Inr st Inr_st c en
        by (simp add: upload_file_def bind_def with_err_def Let_def split: sum.splits route_decision.splits)
      then consider "w' = w3" | "w' = w4" | "upload_epoch E source n parent name ct mt MS kek stripped w4 = (Inl e, w')"
        | fsz where "upload_immediate E pr source n parent name ct mt MS kek sd stripped fsz w4 = (Inl e, w')"
        by (auto simp: Let_def split: sum.splits route_decision.splits)
      then show ?thesis
      proof cases
        case 3
        show ?thesis by (rule fresh_only_trans [OF f4 fresh_only_touches [OF upload_epoch_fails [OF 3]]])
      next
        case 4
        show ?thesis by (rule fresh_only_trans [OF f4 upload_immediate_fails [OF 4 b]])
      qed (use f3 f4 in simp_all)
    qed
  qed
qed

end
