(* ===== verification/Vault_Runs.thy ===== *)
theory Vault_Runs
  imports Fresh_Blobs
begin

text \<open>
  Histories of a vault: uploads that succeed, uploads that fail, and flushes of the epoch buffer, in any
  order.  The invariant says of every file uploaded so far where its contents are; the downloads find them.
\<close>

section \<open>Downloads\<close>

lemma blob_lookup_pending:
  "blobs_in w (dir @ [''pending'']) b = Some x \<Longrightarrow> blob_lookup w dir b = Some x"
  by (simp add: blob_lookup_def blob_path_def Let_def)

lemma file_stored_mono:
  assumes "file_stored E blobs key n cs content rs"
    and "\<And>b x. b \<in> ck_blob_name ` set rs \<Longrightarrow> blobs b = Some x \<Longrightarrow> blobs' b = Some x"
  shows "file_stored E blobs' key n cs content rs"
proof -
  have len: "length rs = length (chunks_of cs content)" using assms(1) by (simp add: file_stored_def chunks_stored_def)
  have "chunk_stored E blobs' key n cs j (chunks_of cs content ! j) (rs ! j)" if j: "j < length rs" for j
  proof -
    have c: "chunk_stored E blobs key n cs j (chunks_of cs content ! j) (rs ! j)"
      using assms(1) j len by (simp add: file_stored_def chunks_stored_def)
    then obtain x where "blobs (ck_blob_name (rs ! j)) = Some x" by (auto simp: chunk_stored_def)
    then show ?thesis using chunk_stored_cong [OF c, of blobs'] assms(2) [of "ck_blob_name (rs ! j)" x] j by simp
  qed
  then show ?thesis using len by (simp add: file_stored_def chunks_stored_def)
qed

lemma chunks_held_mono:
  assumes "chunks_held E blobs kek cs nd rs content"
    and "\<And>b x. b \<in> ck_blob_name ` set rs \<Longrightarrow> blobs b = Some x \<Longrightarrow> blobs' b = Some x"
  shows "chunks_held E blobs' kek cs nd rs content"
proof -
  obtain wrapped key where k: "nd_size_bytes nd = length content" "nd_file_key_wrapped nd = Some wrapped"
      "unwrap_file_key E wrapped (nd_node_id nd) kek = Inr key" and f: "file_stored E blobs key (nd_node_id nd) cs content rs"
    using assms(1) by (auto simp: chunks_held_def)
  have "file_stored E blobs' key (nd_node_id nd) cs content rs" by (rule file_stored_mono [OF f assms(2)])
  with k show ?thesis by (auto simp: chunks_held_def)
qed

lemma file_stored_bounds:
  assumes "file_stored E blobs key n cs content rs" "addressable content" "131072 \<le> cs"
  shows "length rs < 2 ^ 32" "length content < 2 ^ 63"
proof -
  have "length rs = length (chunks_of cs content)" using assms(1) by (simp add: file_stored_def chunks_stored_def)
  then show "length rs < 2 ^ 32" using chunk_count_bound [OF assms(2,3)] by simp
  show "length content < 2 ^ 63" using assms(2) by (simp add: addressable_def)
qed

context manifest_store
begin

text \<open>Where the contents of a file are.\<close>

definition in_chunks :: "env \<Rightarrow> (string \<Rightarrow> bytes option) \<Rightarrow> bytes \<Rightarrow> nat \<Rightarrow> 's \<Rightarrow> uuid \<Rightarrow> bytes \<Rightarrow> bool" where
  "in_chunks E blobs kek cs s n content \<longleftrightarrow>
     (\<exists>nd. node_of s n = Some nd \<and> nd_node_type nd = File \<and> nd_node_id nd = n \<and> n \<notin> ee_node_id ` set (buffer_of s) \<and>
        (\<forall>c \<in> set (chunk_list s n). ck_epoch_blob_id c = None) \<and> chunks_held E blobs kek cs nd (chunk_list s n) content)"

definition in_epoch :: "env \<Rightarrow> (string \<Rightarrow> bytes option) \<Rightarrow> bytes \<Rightarrow> 's \<Rightarrow> uuid \<Rightarrow> bytes \<Rightarrow> bool" where
  "in_epoch E blobs kek s n content \<longleftrightarrow>
     (\<exists>nd. node_of s n = Some nd \<and> nd_node_type nd = File) \<and> extent_stored E blobs kek (chunk_list s) (epoch_of s) n content"

definition in_buffer :: "'s \<Rightarrow> uuid \<Rightarrow> bytes \<Rightarrow> bool" where
  "in_buffer s n content \<longleftrightarrow>
     (\<exists>nd. node_of s n = Some nd \<and> nd_node_type nd = File) \<and> chunk_list s n = [] \<and>
     (\<exists>b \<in> set (buffer_of s). ee_node_id b = n \<and> ee_plaintext b = content)"

lemma load_file_node_ok:
  assumes "no_faults E" "inv (store w)" "node_of (store w) n = Some nd" "nd_node_type nd = File"
    and "chunk_list (store w) n \<noteq> [] \<or> n \<notin> ee_node_id ` set (buffer_of (store w))"
  shows "\<exists>w'. load_file_node E n MS w = (Inr (nd, chunk_list (store w) n), w') \<and> touches {} w w'"
  using assms get_node [OF assms(2), of n] get_chunks [OF assms(2), of n] get_buffer_ids [OF assms(2)]
  by (cases "chunk_list (store w) n = []") (auto simp: load_file_node_def bind_def query_def ret_def touches_def)

lemma download_in_chunks:
  assumes "no_faults E" "inv (store w)" "chunk_size_is MS (store w) cs" "addressable content"
    and i: "in_chunks E (blob_lookup w dir) kek cs (store w) n content"
  shows "\<exists>w'. download_file_to_memory E pr n MS kek dir w = (Inr content, w') \<and> touches {} w w'"
    and "s \<le> e \<Longrightarrow> e < length content \<Longrightarrow>
      \<exists>w'. download_file_range_to_memory E n MS kek dir s e w = (Inr (drop s (take (Suc e) content)), w') \<and> touches {} w w'"
proof -
  let ?rs = "chunk_list (store w) n"
  obtain nd wrapped key where nd: "node_of (store w) n = Some nd" "nd_node_type nd = File" "nd_node_id nd = n"
      "n \<notin> ee_node_id ` set (buffer_of (store w))" "\<forall>c \<in> set ?rs. ck_epoch_blob_id c = None"
    and k: "nd_size_bytes nd = length content" "nd_file_key_wrapped nd = Some wrapped" "unwrap_file_key E wrapped n kek = Inr key"
    and st: "file_stored E (blob_lookup w dir) key n cs content ?rs"
    using i by (auto simp: in_chunks_def chunks_held_def)
  obtain w1 where l: "load_file_node E n MS w = (Inr (nd, ?rs), w1)" and t1: "touches {} w w1"
    using load_file_node_ok [OF assms(1,2) nd(1,2)] nd(4) by blast
  have fk: "node_file_key E nd kek = Inr key" using k nd(3) by (simp add: node_file_key_def)
  have ne: "\<not> is_epoch_packed ?rs" using nd(5) by (cases ?rs) (simp_all add: is_epoch_packed_def)
  have st1: "file_stored E (blob_lookup w1 dir) key n cs content ?rs" using st blob_lookup_touches [OF t1] by simp
  have cs1: "chunk_size_is MS (store w1) cs" using assms(3) touchesD(1) [OF t1] by simp
  note bounds = file_stored_bounds [OF st1 assms(4)] and range = chunk_size_range [OF cs1]
  have len: "length ?rs < 2 ^ 32" "length content < 2 ^ 63" using bounds range by simp_all
  obtain w2 where "decrypt_file_to_memory E pr n key (length content) ?rs dir MS w1 = (Inr content, w2)" "touches {} w1 w2"
    using decrypt_file_to_memory_ok [OF assms(1) cs1 st1 refl len(1)] len(2) by force
  then show "\<exists>w'. download_file_to_memory E pr n MS kek dir w = (Inr content, w') \<and> touches {} w w'"
    using touches_trans [OF t1] by (auto simp: download_file_to_memory_def bind_def l ne fk lift_def nd(3) k(1))
  assume se: "s \<le> e" "e < length content"
  obtain w2 where "decrypt_file_range_to_memory E n key (length content) ?rs dir MS s e w1 = (Inr (drop s (take (Suc e) content)), w2)"
      "touches {} w1 w2"
    using decrypt_file_range_to_memory_ok [OF assms(1) cs1 st1 refl len se] by blast
  then show "\<exists>w'. download_file_range_to_memory E n MS kek dir s e w = (Inr (drop s (take (Suc e) content)), w') \<and> touches {} w w'"
    using touches_trans [OF t1] by (auto simp: download_file_range_to_memory_def bind_def l ne fk lift_def nd(3) k(1))
qed

lemma download_in_epoch:
  assumes "no_faults E" "inv (store w)" "in_epoch E (blob_lookup w dir) kek (store w) n content"
  shows "\<exists>w'. download_file_to_memory E pr n MS kek dir w = (Inr content, w') \<and> touches {} w w'"
proof -
  obtain nd where nd: "node_of (store w) n = Some nd" "nd_node_type nd = File" using assms(3) by (auto simp: in_epoch_def)
  obtain c e off len rec packed where x: "chunk_list (store w) n = [c]" "extent_chunk e off len c" "epoch_of (store w) e = Some rec"
      "eb_epoch_blob_id rec = e" "epoch_stored E (blob_lookup w dir) kek rec packed" "extent_at packed off len content"
    using assms(3) unfolding in_epoch_def extent_stored_def by blast
  obtain w1 where l: "load_file_node E n MS w = (Inr (nd, [c]), w1)" and t1: "touches {} w w1"
    using load_file_node_ok [OF assms(1,2) nd] x(1) by auto
  have g: "ms_get_epoch_blob MS e (store w1) = Inr rec"
    using get_epoch_blob [of "store w1" e] x(3) assms(2) touchesD(1) [OF t1] by simp
  have "epoch_stored E (blob_lookup w1 dir) kek rec packed" using x(5) blob_lookup_touches [OF t1] by simp
  from decrypt_epoch_file_to_memory_ok [OF assms(1) g x(4,2) this x(6)]
  obtain w2 where "decrypt_epoch_file_to_memory E pr c kek dir MS w1 = (Inr content, w2)" "touches {} w1 w2" by blast
  moreover have "is_epoch_packed [c]" using x(2) by (simp add: is_epoch_packed_def extent_chunk_def)
  ultimately show ?thesis using touches_trans [OF t1] by (auto simp: download_file_to_memory_def bind_def l)
qed

lemma download_in_buffer:
  assumes "no_faults E" "inv (store w)" "in_buffer (store w) n content"
  shows "fst (download_file_to_memory E pr n MS kek dir w) = Inl (EpochBufferNotFlushed n)"
  using assms get_node [OF assms(2), of n] get_chunks [OF assms(2), of n] get_buffer_ids [OF assms(2)]
  by (auto simp: in_buffer_def download_file_to_memory_def load_file_node_def bind_def query_def fail_def)

end


section \<open>Time only moves forward\<close>

definition mono_prog :: "('s, 'e, 'a) prog \<Rightarrow> bool" where
  "mono_prog m \<longleftrightarrow> (\<forall>w r w'. m w = (r, w') \<longrightarrow> tick w \<le> tick w')"

lemma mono_progD: "mono_prog m \<Longrightarrow> m w = (r, w') \<Longrightarrow> tick w \<le> tick w'"
  by (simp add: mono_prog_def)

lemma mono_progI: "(\<And>w r w'. m w = (r, w') \<Longrightarrow> tick w \<le> tick w') \<Longrightarrow> mono_prog m"
  by (simp add: mono_prog_def)

named_theorems mono_progs

lemma mono_bind [mono_progs]: "mono_prog m \<Longrightarrow> (\<And>a. mono_prog (f a)) \<Longrightarrow> mono_prog (bind m f)"
  by (rule mono_progI) (fastforce simp: bind_def dest: mono_progD split: prod.splits sum.splits)

lemma mono_basic [mono_progs]:
  "mono_prog (ret a)" "mono_prog (fail e)" "mono_prog (lift r)" "mono_prog (draw f)" "mono_prog (progress_if c x y)"
  "mono_prog (generate_file_key E)" "mono_prog (query E g)" "mono_prog (mutate E h)"
  "mono_prog (wrap_file_key E fk n kek)" "mono_prog (encrypt_chunk E p fk n i)"
  by (auto simp: mono_prog_def ret_def fail_def lift_def draw_def progress_if_def report_progress_def generate_file_key_def query_def
      mutate_def wrap_file_key_def wrap_eq encrypt_chunk_eq split: option.splits sum.splits if_splits prod.splits)

lemma mono_with_err [mono_progs]: "mono_prog m \<Longrightarrow> mono_prog (with_err f m)"
  by (rule mono_progI) (auto simp: with_err_def dest: mono_progD split: prod.splits)

lemma mono_attempt [mono_progs]: "mono_prog m \<Longrightarrow> mono_prog (attempt m)"
  by (rule mono_progI) (auto simp: attempt_def dest: mono_progD split: prod.splits)

lemma mono_fs [mono_progs]:
  "mono_prog (fs_read E p)" "mono_prog (fs_len E p)" "mono_prog (fs_write E p b)" "mono_prog (fs_remove E p)" "mono_prog (reader_read E k b)"
  by (auto simp: mono_prog_def dest!: touches_read touches_change intro: touchesD(3))

lemma mono_encrypt [mono_progs]: "mono_prog (encrypt_bytes E pr bs fid key MS dir)" "mono_prog (encrypt_file E pr source fid key MS dir)"
  by (auto intro!: mono_progI dest!: encrypt_bytes_fresh encrypt_file_fresh fresh_only_ticks)

lemma mono_cleanup [mono_progs]: "mono_prog (cleanup_staged_blobs E dir bs)"
  by (rule mono_progI) (auto dest: cleanup_staged_blobs_touches touchesD(3))

lemma mono_case [mono_progs]:
  "(\<And>a. mono_prog (f a)) \<Longrightarrow> mono_prog g \<Longrightarrow> mono_prog (case x of Some a \<Rightarrow> f a | None \<Rightarrow> g)"
  "(\<And>a. mono_prog (h a)) \<Longrightarrow> (\<And>b. mono_prog (k b)) \<Longrightarrow> mono_prog (case y of Inl a \<Rightarrow> h a | Inr b \<Rightarrow> k b)"
  "(\<And>a b. mono_prog (l a b)) \<Longrightarrow> mono_prog (case z of (a, b) \<Rightarrow> l a b)"
  "mono_prog m1 \<Longrightarrow> mono_prog m2 \<Longrightarrow> mono_prog (if c then m1 else m2)"
  "mono_prog m3 \<Longrightarrow> mono_prog m4 \<Longrightarrow> mono_prog (case d of Immediate \<Rightarrow> m3 | EpochBuffer \<Rightarrow> m4)"
  by (auto split: option.split sum.split prod.split route_decision.split)

lemma mono_upload_file: "mono_prog (upload_file E pr source n parent name ct mt MS kek sd)"
  unfolding upload_file_def strip_exif_if_image_def read_chunk_size_bytes_def read_epoch_buffer_enabled_def upload_epoch_def
    upload_immediate_def cleanup_staged_chunks_def Let_def
  by (intro mono_progs)

lemma mono_flush_and_report [mono_progs]: "mono_prog (flush_and_report E pr es kek sd cs MS fb tb)"
  unfolding flush_and_report_def flush_one_blob_def Let_def by (intro mono_progs)

lemma mono_flush_loop [mono_progs]: "mono_prog (flush_loop E pr kek sd cs MS tb entries cur sz fb)"
proof (induction entries arbitrary: cur sz fb)
  case Nil
  show ?case by (simp, intro conjI impI mono_progs)
next
  case (Cons b entries)
  show ?case unfolding flush_loop.simps by (intro mono_progs Cons.IH)
qed

lemma mono_flush_epoch_buffer: "mono_prog (flush_epoch_buffer E pr MS kek sd cs)"
  unfolding flush_epoch_buffer_def by (intro mono_progs)


section \<open>Histories\<close>

text \<open>
  \<open>vault_run E MS kek root w0 w M\<close>: from \<open>w0\<close> the history led to \<open>w\<close>, and \<open>M\<close> maps every file uploaded
  on the way to the contents it was uploaded with (without image metadata).
\<close>

inductive vault_run ::
  "env \<Rightarrow> 's metadata_store \<Rightarrow> bytes \<Rightarrow> path \<Rightarrow> 's world \<Rightarrow> 's world \<Rightarrow> (uuid \<rightharpoonup> bytes) \<Rightarrow> bool"
  for E MS kek root w0 where
  start: "vault_run E MS kek root w0 w0 Map.empty"
| upload:
    "vault_run E MS kek root w0 w M \<Longrightarrow> file_at w source = Some bs \<Longrightarrow> addressable bs \<Longrightarrow>
     upload_file E pr source n parent name ct mt MS kek (root @ [''pending'']) w = (Inr nd, w') \<Longrightarrow>
     vault_run E MS kek root w0 w' (M(n \<mapsto> strip_exif bs))"
| upload_failed:
    "vault_run E MS kek root w0 w M \<Longrightarrow>
     upload_file E pr source n parent name ct mt MS kek (root @ [''pending'']) w = (Inl e, w') \<Longrightarrow>
     vault_run E MS kek root w0 w' M"
| flush:
    "vault_run E MS kek root w0 w M \<Longrightarrow> chunk_size_is MS (store w) cs \<Longrightarrow>
     ms_get_epoch_buffer_entries MS (store w) = Inr entries \<Longrightarrow> length (concat (map ee_plaintext entries)) < 2 ^ 62 \<Longrightarrow>
     flush_epoch_buffer E pr MS kek (root @ [''pending'']) cs w = (Inr (), w') \<Longrightarrow>
     vault_run E MS kek root w0 w' M"

definition run_laws :: "env \<Rightarrow> bytes \<Rightarrow> bool" where
  "run_laws E kek \<longleftrightarrow> aead_laws E \<and> uuid_laws E \<and> blake3_laws E \<and> reads_eight E \<and> length kek = 32"

context manifest_store
begin

text \<open>All blob names in use were drawn in the past, so that later draws do not hit them.\<close>

definition held :: "env \<Rightarrow> bytes \<Rightarrow> path \<Rightarrow> nat \<Rightarrow> 's world \<Rightarrow> uuid \<Rightarrow> bytes \<Rightarrow> bool" where
  "held E kek sd cs w n content \<longleftrightarrow> addressable content \<and>
     (in_chunks E (blobs_in w sd) kek cs (store w) n content \<and> ck_blob_name ` set (chunk_list (store w) n) \<subseteq> names E 0 (tick w) \<or>
      in_epoch E (blobs_in w sd) kek (store w) n content \<and> n \<notin> ee_node_id ` set (buffer_of (store w)) \<or>
      in_buffer (store w) n content)"

definition run_inv :: "env \<Rightarrow> bytes \<Rightarrow> path \<Rightarrow> nat \<Rightarrow> 's world \<Rightarrow> (uuid \<rightharpoonup> bytes) \<Rightarrow> bool" where
  "run_inv E kek sd cs w M \<longleftrightarrow>
     inv (store w) \<and> chunk_size_is MS (store w) cs \<and>
     distinct (map ee_node_id (buffer_of (store w))) \<and> (\<forall>b \<in> set (buffer_of (store w)). chunk_list (store w) (ee_node_id b) = []) \<and>
     (\<forall>e. epoch_of (store w) e \<noteq> None \<longrightarrow> uuid_hyphenated E e \<in> names E 0 (tick w)) \<and>
     (\<forall>n content. M n = Some content \<longrightarrow> held E kek sd cs w n content)"

lemma held_node: "held E kek sd cs w n content \<Longrightarrow> node_of (store w) n \<noteq> None"
  by (auto simp: held_def in_chunks_def in_epoch_def in_buffer_def)

text \<open>What is held stays held while only newer blobs change and the manifest keeps what it has on the node.\<close>

lemma held_frame:
  assumes h: "held E kek sd cs w n content"
    and files: "\<And>p. file_at w' p \<noteq> file_at w p \<Longrightarrow> p \<in> blob_file sd ` names E (tick w) (tick w')" and "tick w \<le> tick w'"
    and fresh: "fresh_draws E 0 (tick w')" "uuid_laws E"
    and ep: "\<And>e. epoch_of (store w) e \<noteq> None \<Longrightarrow> epoch_of (store w') e = epoch_of (store w) e \<and> uuid_hyphenated E e \<in> names E 0 (tick w)"
    and same: "node_of (store w') n = node_of (store w) n" "chunk_list (store w') n = chunk_list (store w) n"
    and buf: "\<And>b. ee_node_id b = n \<Longrightarrow> b \<in> set (buffer_of (store w')) \<longleftrightarrow> b \<in> set (buffer_of (store w))"
  shows "held E kek sd cs w' n content"
proof -
  have kept: "blobs_in w' sd b = blobs_in w sd b" if "b \<in> names E 0 (tick w)" for b
  proof (rule ccontr)
    assume "blobs_in w' sd b \<noteq> blobs_in w sd b"
    from files [OF this] have "b \<in> names E (tick w) (tick w')" by auto
    with that names_disjoint [OF fresh assms(3)] show False by auto
  qed
  have nb: "n \<in> ee_node_id ` set (buffer_of (store w')) \<longleftrightarrow> n \<in> ee_node_id ` set (buffer_of (store w))"
    using buf by (auto simp: image_iff)
  have sub: "names E 0 (tick w) \<subseteq> names E 0 (tick w')" by (rule names_mono) (use assms(3) in simp_all)
  consider (c) "in_chunks E (blobs_in w sd) kek cs (store w) n content" "ck_blob_name ` set (chunk_list (store w) n) \<subseteq> names E 0 (tick w)"
    | (e) "in_epoch E (blobs_in w sd) kek (store w) n content" "n \<notin> ee_node_id ` set (buffer_of (store w))"
    | (b) "in_buffer (store w) n content" using h unfolding held_def by blast
  then show ?thesis
  proof cases
    case c
    then obtain nd where nd: "node_of (store w) n = Some nd" "nd_node_type nd = File" "nd_node_id nd = n"
        "n \<notin> ee_node_id ` set (buffer_of (store w))" "\<forall>c \<in> set (chunk_list (store w) n). ck_epoch_blob_id c = None"
      and ch: "chunks_held E (blobs_in w sd) kek cs nd (chunk_list (store w) n) content"
      unfolding in_chunks_def by blast
    have "chunks_held E (blobs_in w' sd) kek cs nd (chunk_list (store w) n) content"
      by (rule chunks_held_mono [OF ch]) (use kept c(2) in auto)
    then have "in_chunks E (blobs_in w' sd) kek cs (store w') n content"
      using nd nb unfolding in_chunks_def same by blast
    moreover have "ck_blob_name ` set (chunk_list (store w') n) \<subseteq> names E 0 (tick w')" using c(2) sub same by auto
    ultimately show ?thesis using h unfolding held_def by blast
  next
    case e
    have "extent_stored E (blobs_in w' sd) kek (chunk_list (store w')) (epoch_of (store w')) n content"
      by (rule extent_stored_mono [where ch = "chunk_list (store w)" and ch' = "chunk_list (store w')" and ep = "epoch_of (store w)"])
        (use e same ep kept in \<open>auto simp: in_epoch_def\<close>)
    then show ?thesis using e h nb same unfolding held_def in_epoch_def by auto
  next
    case b
    then show ?thesis using h same buf unfolding held_def in_buffer_def by metis
  qed
qed

lemma run_invD:
  assumes "run_inv E kek sd cs w M"
  shows "inv (store w)" "chunk_size_is MS (store w) cs" "distinct (map ee_node_id (buffer_of (store w)))"
    and "b \<in> set (buffer_of (store w)) \<Longrightarrow> chunk_list (store w) (ee_node_id b) = []"
    and "epoch_of (store w) e \<noteq> None \<Longrightarrow> uuid_hyphenated E e \<in> names E 0 (tick w)"
    and "M n = Some content \<Longrightarrow> held E kek sd cs w n content"
  using assms by (auto simp: run_inv_def)

lemma chunk_size_kept: "inv s \<Longrightarrow> inv s' \<Longrightarrow> meta_of s' = meta_of s \<Longrightarrow> chunk_size_is MS s cs \<Longrightarrow> chunk_size_is MS s' cs"
  using chunk_size_cong by blast

lemma run_inv_upload:
  assumes I: "run_inv E kek sd cs w M" and laws: "run_laws E kek" "fresh_draws E 0 (tick w')"
    and u: "upload_file E pr source n parent name ct mt MS kek sd w = (Inr nd, w')" "file_at w source = Some bs" "addressable bs"
  shows "run_inv E kek sd cs w' (M(n \<mapsto> strip_exif bs))"
proof -
  note L = laws(1) [unfolded run_laws_def]
  have laws': "reads_eight E" "aead_laws E" "uuid_laws E" "blake3_laws E" "length kek = 32" using L by simp_all
  note up = upload_file_Inr [OF u(1) run_invD(1,2) [OF I] u(2,3) laws']
  have id: "nd_node_id nd = n" by (rule up(1))
  have fr: "inv (store w')" "meta_of (store w') = meta_of (store w)" "epoch_of (store w') = epoch_of (store w)"
      "dirs w' = dirs w" "tick w \<le> tick w'" "nd_node_type nd = File" "node_of (store w) n = None"
      "node_of (store w') = (node_of (store w))(n := Some nd)"
    using up(2) unfolding uploaded_def id by simp_all
  have sub: "names E 0 (tick w) \<subseteq> names E 0 (tick w')" "names E (tick w) (tick w') \<subseteq> names E 0 (tick w')"
    by (rule names_mono; use fr(5) in simp)+
  have addr: "addressable (strip_exif bs)" using u(3) length_strip_exif [of bs] by (simp add: addressable_def)
  have nob: "ee_node_id b \<noteq> n" if "b \<in> set (buffer_of (store w))" for b
    using buffer_nodes [OF run_invD(1) [OF I] that] fr(7) by auto
  have cs': "chunk_size_is MS (store w') cs" by (rule chunk_size_kept [OF run_invD(1) [OF I] fr(1,2) run_invD(2) [OF I]])
  have epochs: "uuid_hyphenated E e \<in> names E 0 (tick w')" if "epoch_of (store w') e \<noteq> None" for e
    using run_invD(5) [OF I] that fr(3) sub(1) by auto
  have old: "held E kek sd cs w' m content"
    if m: "M m = Some content" and files: "\<And>p. file_at w' p \<noteq> file_at w p \<Longrightarrow> p \<in> blob_file sd ` names E (tick w) (tick w')"
      and ch: "m \<noteq> n \<Longrightarrow> chunk_list (store w') m = chunk_list (store w) m"
      and buf: "\<And>b. ee_node_id b \<noteq> n \<Longrightarrow> b \<in> set (buffer_of (store w')) \<longleftrightarrow> b \<in> set (buffer_of (store w))" for m content
  proof -
    note h = run_invD(6) [OF I m]
    have ne: "m \<noteq> n" using held_node [OF h] fr(7) by auto
    show ?thesis
      by (rule held_frame [OF h files fr(5) laws(2) laws'(3)]) (use run_invD(5) [OF I] fr(3,8) ne ch buf in auto)
  qed
  from up(3) show ?thesis
  proof
    assume "uploaded_chunks E sd kek cs nd (strip_exif bs) w w'"
    then obtain rs where rs: "buffer_of (store w') = buffer_of (store w)" "chunk_list (store w') = (chunk_list (store w))(n := rs)"
        "\<And>p. p \<notin> blob_file sd ` ck_blob_name ` set rs \<Longrightarrow> file_at w' p = file_at w p" "drawn E (tick w) (tick w') rs"
        "chunks_held E (blobs_in w' sd) kek cs nd rs (strip_exif bs)"
      unfolding uploaded_chunks_def id by blast
    have files: "p \<in> blob_file sd ` names E (tick w) (tick w')" if "file_at w' p \<noteq> file_at w p" for p
      using rs(3) [of p] that drawn_names [OF rs(4)] by auto
    have "n \<notin> ee_node_id ` set (buffer_of (store w'))" using nob rs(1) by (metis imageE)
    moreover have "\<forall>c \<in> set rs. ck_epoch_blob_id c = None" using rs(4) by (simp add: drawn_def standalone_chunk_def)
    ultimately have "in_chunks E (blobs_in w' sd) kek cs (store w') n (strip_exif bs)"
      using rs(2,5) fr(6,8) id unfolding in_chunks_def by simp
    then have new: "held E kek sd cs w' n (strip_exif bs)"
      using addr drawn_names [OF rs(4)] sub(2) rs(2) unfolding held_def by auto
    have "held E kek sd cs w' m content" if "(M(n \<mapsto> strip_exif bs)) m = Some content" for m content
      using that new old [of m content] files rs(1,2) by (auto split: if_splits)
    moreover have "chunk_list (store w') (ee_node_id b) = []" if "b \<in> set (buffer_of (store w'))" for b
      using run_invD(4) [OF I] that rs(1,2) nob by simp
    ultimately show ?thesis
      using fr(1) cs' run_invD(3) [OF I] epochs unfolding run_inv_def rs(1) by blast
  next
    assume "uploaded_entry nd (strip_exif bs) w w'"
    then obtain b where b: "\<And>p. file_at w' p = file_at w p" "chunk_list (store w') = chunk_list (store w)" "chunk_list (store w) n = []"
        "ee_node_id b = n" "ee_plaintext b = strip_exif bs" "mset (buffer_of (store w')) = add_mset b (mset (buffer_of (store w)))"
      unfolding uploaded_entry_def id by blast
    have set': "set (buffer_of (store w')) = insert b (set (buffer_of (store w)))"
      using arg_cong [OF b(6), of set_mset] by simp
    have "mset (map ee_node_id (buffer_of (store w'))) = mset (n # map ee_node_id (buffer_of (store w)))"
      using b(4,6) by simp
    then have dist: "distinct (map ee_node_id (buffer_of (store w')))"
      using run_invD(3) [OF I] nob mset_eq_imp_distinct_iff [of "map ee_node_id (buffer_of (store w'))"]
      by (metis (no_types, lifting) distinct.simps(2) imageE list.set_map)
    have "in_buffer (store w') n (strip_exif bs)"
      using b(2-5) set' fr(6,8) unfolding in_buffer_def by auto
    then have new: "held E kek sd cs w' n (strip_exif bs)" using addr unfolding held_def by blast
    have "held E kek sd cs w' m content" if "(M(n \<mapsto> strip_exif bs)) m = Some content" for m content
      using that new old [of m content] b(1,2,4) set' by (auto split: if_splits)
    moreover have "chunk_list (store w') (ee_node_id c) = []" if "c \<in> set (buffer_of (store w'))" for c
      using run_invD(4) [OF I] that set' b(2-4) by auto
    ultimately show ?thesis using fr(1) cs' dist epochs unfolding run_inv_def by blast
  qed
qed

lemma run_inv_failed:
  assumes I: "run_inv E kek sd cs w M" and laws: "run_laws E kek" "fresh_draws E 0 (tick w')"
    and u: "upload_file E pr source n parent name ct mt MS kek sd w = (Inl e, w')"
  shows "run_inv E kek sd cs w' M"
proof -
  have f: "fresh_only E sd w w'" by (rule upload_file_fails [OF u]) (use laws(1) in \<open>simp add: run_laws_def\<close>)
  note t = f [unfolded fresh_only_def]
  have le: "tick w \<le> tick w'" by (rule fresh_only_ticks [OF f])
  have st: "store w' = store w" by (rule fresh_only_store [OF f])
  have sub: "names E 0 (tick w) \<subseteq> names E 0 (tick w')" by (rule names_mono) (use le in simp_all)
  have "held E kek sd cs w' m content" if "M m = Some content" for m content
    by (rule held_frame [OF run_invD(6) [OF I that] _ le laws(2)])
      (use touchesD(4) [OF t] run_invD(5) [OF I] laws(1) st in \<open>auto simp: run_laws_def\<close>)
  then show ?thesis using I sub unfolding run_inv_def st by blast
qed

lemma run_inv_flush:
  assumes I: "run_inv E kek sd cs w M" and laws: "run_laws E kek" "fresh_draws E 0 (tick w')"
    and f: "flush_epoch_buffer E pr MS kek sd cs w = (Inr (), w')" "length (concat (map ee_plaintext (buffer_of (store w)))) < 2 ^ 62"
  shows "run_inv E kek sd cs w' M" "buffer_of (store w') = []"
proof -
  let ?es = "map entry_pair (buffer_of (store w))"
  have laws': "aead_laws E" "blake3_laws E" "uuid_laws E" "length kek = 32" "cs \<le> 67108864"
    using laws(1) chunk_size_range [OF run_invD(2) [OF I]] by (simp_all add: run_laws_def)
  have pend: "pending_entries (chunk_list (store w)) ?es"
    using run_invD(3,4) [OF I] f(2) by (auto simp: pending_entries_def comp_def)
  note fl = flush_epoch_buffer_Inr [OF f(1) run_invD(1) [OF I] laws' pend]
  then show empty: "buffer_of (store w') = []" by blast
  have fr: "inv (store w')" "meta_of (store w') = meta_of (store w)" "node_of (store w') = node_of (store w)"
      "blob_frame E sd w w' (epoch_of (store w)) (epoch_of (store w'))"
    and ch: "\<And>n. n \<notin> fst ` set ?es \<Longrightarrow> chunk_list (store w') n = chunk_list (store w) n"
    and ex: "\<And>n bs. (n, bs) \<in> set ?es \<Longrightarrow> extent_stored E (blobs_in w' sd) kek (chunk_list (store w')) (epoch_of (store w')) n bs"
    using fl(1) unfolding flushed_def by auto
  note le = blob_frameD(2) [OF fr(4)]
  have files: "p \<in> blob_file sd ` names E (tick w) (tick w')" if changed: "file_at w' p \<noteq> file_at w p" for p
  proof -
    obtain t where "tick w \<le> t" "t < tick w'" "epoch_of (store w) (draw_uuid E t 0) = None"
        "p = blob_file sd (uuid_hyphenated E (draw_uuid E t 0))"
      by (rule blob_frame_file [OF fr(4) changed])
    then show ?thesis by (simp add: names_def)
  qed
  have sub: "names E 0 (tick w) \<subseteq> names E 0 (tick w')" by (rule names_mono) (use le in simp_all)
  have "held E kek sd cs w' n content" if m: "M n = Some content" for n content
  proof (cases "n \<in> fst ` set ?es")
    case True
    note h = run_invD(6) [OF I m]
    have nb: "n \<in> ee_node_id ` set (buffer_of (store w))" using True by force
    then have "in_buffer (store w) n content" using h unfolding held_def in_chunks_def by blast
    then obtain b nd where "b \<in> set (buffer_of (store w))" "ee_node_id b = n" "ee_plaintext b = content"
        "node_of (store w) n = Some nd" "nd_node_type nd = File" unfolding in_buffer_def by blast
    then have "in_epoch E (blobs_in w' sd) kek (store w') n content"
      using ex [of n content] fr(3) unfolding in_epoch_def by force
    then show ?thesis using h empty unfolding held_def by auto
  next
    case False
    have nb: "b \<notin> set (buffer_of (store w))" if "ee_node_id b = n" for b using False that by force
    have ep: "epoch_of (store w') e = epoch_of (store w) e \<and> uuid_hyphenated E e \<in> names E 0 (tick w)"
      if "epoch_of (store w) e \<noteq> None" for e
      using blob_frameD(3) [OF fr(4) that] run_invD(5) [OF I that] by simp
    show ?thesis
      by (rule held_frame [OF run_invD(6) [OF I m] files le laws(2) laws'(3) ep]) (use fr(3) ch [OF False] nb empty in auto)
  qed
  moreover have "uuid_hyphenated E e \<in> names E 0 (tick w')" if "epoch_of (store w') e \<noteq> None" for e
  proof (cases "epoch_of (store w') e = epoch_of (store w) e")
    case True
    then show ?thesis using run_invD(5) [OF I, of e] that sub by auto
  next
    case False
    then obtain t where "tick w \<le> t" "t < tick w'" "e = draw_uuid E t 0" by (rule blob_frame_new [OF fr(4)])
    then show ?thesis by (simp add: names_def)
  qed
  ultimately show "run_inv E kek sd cs w' M"
    using fr(1) chunk_size_kept [OF run_invD(1) [OF I] fr(1,2) run_invD(2) [OF I]] unfolding run_inv_def empty by simp
qed

text \<open>The invariant holds along every history.\<close>

lemma run_inv_run:
  assumes "vault_run E MS kek root w0 w M" "run_laws E kek" "inv (store w0)" "chunk_size_is MS (store w0) cs"
    and "buffer_of (store w0) = []" "\<And>e. epoch_of (store w0) e = None"
  shows "fresh_draws E 0 (tick w) \<Longrightarrow> run_inv E kek (root @ [''pending'']) cs w M"
  using assms(1)
proof induction
  case start
  show ?case using assms(3-6) by (simp add: run_inv_def)
next
  case (upload w M source bs pr n parent name ct mt nd w')
  have "run_inv E kek (root @ [''pending'']) cs w M"
    by (rule upload.IH [OF fresh_draws_le [OF upload.prems mono_progD [OF mono_upload_file upload.hyps(4)]]])
  then show ?case by (rule run_inv_upload [OF _ assms(2) upload.prems upload.hyps(4,2,3)])
next
  case (upload_failed w M pr source n parent name ct mt e w')
  have "run_inv E kek (root @ [''pending'']) cs w M"
    by (rule upload_failed.IH [OF fresh_draws_le [OF upload_failed.prems mono_progD [OF mono_upload_file upload_failed.hyps(2)]]])
  then show ?case by (rule run_inv_failed [OF _ assms(2) upload_failed.prems upload_failed.hyps(2)])
next
  case (flush w M cs' entries pr w')
  have I: "run_inv E kek (root @ [''pending'']) cs w M"
    by (rule flush.IH [OF fresh_draws_le [OF flush.prems mono_progD [OF mono_flush_epoch_buffer flush.hyps(5)]]])
  have "cs' = cs" by (rule chunk_size_unique [OF flush.hyps(2) run_invD(2) [OF I]])
  moreover have "entries = buffer_of (store w)" using flush.hyps(3) get_buffer_entries [OF run_invD(1) [OF I]] by simp
  ultimately show ?case using run_inv_flush(1) [OF I assms(2) flush.prems] flush.hyps(4,5) by blast
qed

lemma download_held:
  assumes "no_faults E" "run_inv E kek (root @ [''pending'']) cs w M" "M n = Some content"
  shows "in_buffer (store w) n content \<and> fst (download_file_to_memory E pr n MS kek root w) = Inl (EpochBufferNotFlushed n) \<or>
     (\<exists>w'. download_file_to_memory E pr n MS kek root w = (Inr content, w') \<and> touches {} w w')"
proof -
  note inv = run_invD(1,2) [OF assms(2)] and h = run_invD(6) [OF assms(2,3)]
  have addr: "addressable content" using h by (simp add: held_def)
  consider (c) "in_chunks E (blobs_in w (root @ [''pending''])) kek cs (store w) n content"
    | (e) "in_epoch E (blobs_in w (root @ [''pending''])) kek (store w) n content" | (b) "in_buffer (store w) n content"
    using h unfolding held_def by blast
  then show ?thesis
  proof cases
    case c
    then have "in_chunks E (blob_lookup w root) kek cs (store w) n content"
      unfolding in_chunks_def using chunks_held_mono [where blobs' = "blob_lookup w root"] blob_lookup_pending by blast
    from download_in_chunks(1) [OF assms(1) inv addr this] show ?thesis by blast
  next
    case e
    have "extent_stored E (blob_lookup w root) kek (chunk_list (store w)) (epoch_of (store w)) n content"
      by (rule extent_stored_mono [where ch = "chunk_list (store w)" and ch' = "chunk_list (store w)" and ep = "epoch_of (store w)"
            and ep' = "epoch_of (store w)" and blobs = "blobs_in w (root @ [''pending''])"])
        (use e blob_lookup_pending in \<open>auto simp: in_epoch_def\<close>)
    then have "in_epoch E (blob_lookup w root) kek (store w) n content" using e by (simp add: in_epoch_def)
    from download_in_epoch [OF assms(1) inv(1) this] show ?thesis by blast
  next
    case b
    then show ?thesis using download_in_buffer [OF assms(1) inv(1)] by blast
  qed
qed

end

end
