(* ===== verification/Blob_Names.thy ===== *)
theory Blob_Names
  imports Vault_Runs
begin

text \<open>
  The blobs of one encryption have distinct names, as long as the random source does not repeat a UUID.
\<close>

lemma mono_encrypt_chunks: "mono_prog (encrypt_chunks E pr fid key dir cs fsz chunks i bp rs :: ('s, storage_error, chunk_record list) prog)"
proof (induction chunks arbitrary: i bp rs)
  case Nil
  show ?case by (rule mono_progI) simp
next
  case (Cons c chunks)
  show ?case
  proof (rule mono_progI)
    fix w x and w' :: "'s world" assume e: "encrypt_chunks E pr fid key dir cs fsz (c # chunks) i bp rs w = (x, w')"
    obtain y w1 where s: "stage_chunk E pr fid key dir cs fsz c i bp w = (y, w1)" by fastforce
    have le: "tick w \<le> tick w1" by (rule fresh_only_ticks [OF stage_chunk_fresh(1) [OF s]])
    have cl: "mono_prog (bind (cleanup_staged_blobs E dir bs) (\<lambda>_. fail er) :: ('s, storage_error, chunk_record list) prog)" for bs :: "string list" and er
      by (intro mono_progs)
    have "tick w1 \<le> tick w'"
    proof (cases y)
      case (Inl ne)
      then show ?thesis using e s mono_progD [OF cl] by (auto split: prod.splits)
    next
      case (Inr r)
      then show ?thesis using e s by (auto split: option.splits dest: mono_progD [OF Cons.IH])
    qed
    with le show "tick w \<le> tick w'" by simp
  qed
qed

lemma mono_encrypt_loop:
  assumes "0 < cs"
  shows "encrypt_loop E pr fid key dir cs fsz rest i bp rs w = (x, w') \<Longrightarrow> tick w \<le> tick w'"
proof (induction "length rest" arbitrary: rest i bp rs w rule: less_induct)
  case less
  have step: "tick w \<le> tick w2"
    if "touches {} w w1" "stage_chunk E pr fid key dir cs fsz (take cs rest) i bp w1 = (y, w2)" for y w1 w2
    using touchesD(3) [OF that(1)] fresh_only_ticks [OF stage_chunk_fresh(1) [OF that(2)]] by simp
  from less.prems(1) assms show ?case
  proof (cases rule: encrypt_loop_step)
    case (more r w1 w2)
    have "length (drop cs rest) < length rest" using more(1) assms by simp
    from less.hyps [OF this more(4)] step [OF more(2,3)] show ?thesis by simp
  qed (use touchesD(3) step in blast)+
qed

lemma distinct_names_snoc:
  assumes "distinct (map ck_blob_name rs)" "ck_blob_name ` set rs \<subseteq> names E a b" "fresh_draws E a c" "uuid_laws E"
    and "ck_blob_name r \<in> names E b' b''" "a \<le> b" "b \<le> b'" "b'' \<le> c"
  shows "distinct (map ck_blob_name (rs @ [r]))" "ck_blob_name ` set (rs @ [r]) \<subseteq> names E a b''"
proof -
  have lt: "b' < b''" using assms(5) by (cases "b' < b''") (simp_all add: names_def)
  have sub: "names E a b \<subseteq> names E a b'" "names E b' b'' \<subseteq> names E b' c" "names E a b \<subseteq> names E a b''" "names E b' b'' \<subseteq> names E a b''"
    by (rule names_mono; use assms(6-8) lt in simp)+
  have "names E a b' \<inter> names E b' c = {}" by (rule names_disjoint [OF assms(3,4)]) (use lt assms(8) in simp)
  then have "ck_blob_name r \<notin> ck_blob_name ` set rs" using sub(1,2) assms(2,5) by blast
  then show "distinct (map ck_blob_name (rs @ [r]))" using assms(1) by simp
  show "ck_blob_name ` set (rs @ [r]) \<subseteq> names E a b''" using sub(3,4) assms(2,5) by auto
qed

lemma encrypt_chunks_distinct:
  assumes "uuid_laws E"
  shows "encrypt_chunks E pr fid key dir cs fsz chunks i bp rs w = (Inr rs', w') \<Longrightarrow> fresh_draws E a (tick w') \<Longrightarrow> a \<le> tick w \<Longrightarrow>
     distinct (map ck_blob_name rs) \<Longrightarrow> ck_blob_name ` set rs \<subseteq> names E a (tick w) \<Longrightarrow> distinct (map ck_blob_name rs')"
proof (induction chunks arbitrary: i bp rs w)
  case (Cons c chunks)
  obtain r w1 where s: "stage_chunk E pr fid key dir cs fsz c i bp w = (Inr r, w1)"
    and e: "encrypt_chunks E pr fid key dir cs fsz chunks (Suc i) (bp + length c) (rs @ [r]) w1 = (Inr rs', w')"
    using Cons.prems(1) by (auto simp: bind_Inr width_simps split: sum.splits prod.splits if_splits)
  note st = stage_chunk_fresh(1,2) [OF s]
  have le: "tick w \<le> tick w1" by (rule fresh_only_ticks [OF st(1)])
  have le': "tick w1 \<le> tick w'" by (rule mono_progD [OF mono_encrypt_chunks e])
  note d = distinct_names_snoc [OF Cons.prems(4,5,2) assms st(2) [OF refl] Cons.prems(3) order_refl le']
  show ?case by (rule Cons.IH [OF e Cons.prems(2) _ d]) (use le Cons.prems(3) in simp)
qed simp

lemma encrypt_loop_distinct:
  assumes "uuid_laws E" "0 < cs"
  shows "encrypt_loop E pr fid key dir cs fsz rest i bp rs w = (Inr rs', w') \<Longrightarrow> fresh_draws E a (tick w') \<Longrightarrow> a \<le> tick w \<Longrightarrow>
     distinct (map ck_blob_name rs) \<Longrightarrow> ck_blob_name ` set rs \<subseteq> names E a (tick w) \<Longrightarrow> distinct (map ck_blob_name rs')"
proof (induction "length rest" arbitrary: rest i bp rs w rule: less_induct)
  case less
  have step: "distinct (map ck_blob_name (rs @ [r])) \<and> ck_blob_name ` set (rs @ [r]) \<subseteq> names E a (tick w2)"
    if "touches {} w w1" "stage_chunk E pr fid key dir cs fsz (take cs rest) i bp w1 = (Inr r, w2)" "tick w2 \<le> tick w'" for r w1 w2
    using distinct_names_snoc [OF less.prems(4,5,2) assms(1) stage_chunk_fresh(2) [OF that(2) refl] less.prems(3)
        touchesD(3) [OF that(1)] that(3)] by blast
  from less.prems(1) assms(2) show ?case
  proof (cases rule: encrypt_loop_step)
    case finished
    then show ?thesis using less.prems(4) by simp
  next
    case (last r w1)
    then show ?thesis using step [OF last(4,5)] by simp
  next
    case (more r w1 w2)
    have l: "length (drop cs rest) < length rest" using more(1) assms by simp
    have le: "tick w2 \<le> tick w'" by (rule mono_encrypt_loop [OF assms(2) more(4)])
    have "a \<le> tick w2"
      using less.prems(3) touchesD(3) [OF more(2)] fresh_only_ticks [OF stage_chunk_fresh(1) [OF more(3)]] by simp
    then show ?thesis using less.hyps [OF l more(4) less.prems(2)] step [OF more(2,3) le] by blast
  qed simp_all
qed

lemma encrypt_bytes_distinct:
  assumes "encrypt_bytes E pr bs fid key MS dir w = (Inr rs, w')" "uuid_laws E" "fresh_draws E (tick w) (tick w')"
  shows "distinct (map ck_blob_name rs)"
proof (cases "bs = []")
  case False
  then obtain cs w1 where r: "read_chunk_size_bytes E MS w = (Inr cs, w1)"
    and e: "encrypt_chunks E pr fid key dir cs (length bs) (chunks_of cs bs) 0 0 [] w1 = (Inr rs, w')"
    using assms(1) by (auto simp: encrypt_bytes_def bind_Inr)
  show ?thesis by (rule encrypt_chunks_distinct [OF assms(2) e assms(3)]) (simp_all add: read_chunk_size_bytes_world [OF r])
qed (use assms(1) in \<open>simp add: encrypt_bytes_def\<close>)

lemma encrypt_file_distinct:
  assumes "encrypt_file E pr source fid key MS dir w = (Inr rs, w')" "uuid_laws E" "fresh_draws E (tick w) (tick w')"
  shows "distinct (map ck_blob_name rs)"
proof -
  obtain magic w1 where m: "read_magic_bytes E source w = (Inr magic, w1)" using assms(1) by (auto simp: encrypt_file_def bind_Inr)
  have t: "tick w \<le> tick w1" by (rule touchesD(3) [OF read_magic_bytes_touches [OF m]])
  show ?thesis
  proof (cases "is_image_magic magic")
    case True
    then obtain raw w2 where r: "fs_read E source w1 = (Inr raw, w2)"
      and e: "encrypt_bytes E pr (strip_exif raw) fid key MS dir w2 = (Inr rs, w')"
      using assms(1) m by (auto simp: encrypt_file_def bind_Inr)
    show ?thesis
      by (rule encrypt_bytes_distinct [OF e assms(2) fresh_draws_sub [OF assms(3)]])
        (use t touchesD(3) [OF touches_read(1) [OF r]] in simp)
  next
    case False
    obtain x w2 where "encrypt_file_inner E pr source fid key MS dir w1 = (x, w2)" by fastforce
    moreover from this have "x = Inr rs \<and> w2 = w'"
      using assms(1) False
      by (cases x) (auto simp: encrypt_file_def bind_def m attempt_def ret_def fail_def split: prod.splits sum.splits)
    ultimately obtain cs l w3 w4 c w5 where r: "read_chunk_size_bytes E MS w1 = (Inr cs, w3)"
      and l: "fs_len E source w3 = (l, w4)" and c: "fs_read E source w4 = (Inr c, w5)"
      and e: "encrypt_loop E pr fid key dir cs (case l of Inl _ \<Rightarrow> 0 | Inr n \<Rightarrow> n) c 0 0 [] w5 = (Inr rs, w')"
      by (auto simp: encrypt_file_inner_def bind_Inr attempt_Inr Let_def)
    have "0 < cs" using chunk_size_range [OF read_chunk_size_bytes_Inr [OF r]] by simp
    then show ?thesis
      by (rule encrypt_loop_distinct [OF assms(2) _ e assms(3)])
        (use t read_chunk_size_bytes_world [OF r] touchesD(3) [OF touches_read(2) [OF l]] touchesD(3) [OF touches_read(1) [OF c]] in simp_all)
  qed
qed


section \<open>Time during decryption\<close>

lemma mono_fs_more [mono_progs]:
  "mono_prog (fs_append E p b)" "mono_prog (fs_exists E p)" "mono_prog (fs_sync E)" "mono_prog (fs_rename E p q)"
  by (auto simp: mono_prog_def dest!: touches_read touches_change intro: touchesD(3))

lemma mono_decrypt_blob [mono_progs]: "mono_prog (decrypt_blob E dir n fid key c)"
  unfolding decrypt_blob_def resolve_blob_path_def exists_or_false_def read_encrypted_blob_def Let_def by (intro mono_progs)

lemma mono_decrypt_loop [mono_progs]: "mono_prog (decrypt_loop E pr temp fid key fsz cs n dir rs bd)"
  by (induction rs arbitrary: bd) (simp_all add: mono_progs)

lemma mono_decrypt_file [mono_progs]: "mono_prog (decrypt_file E pr dest fid key fsz chunks dir MS)"
  unfolding decrypt_file_def read_and_validate_chunks_def read_chunk_size_bytes_def temporary_destination_path_def
    replace_destination_with_temp_def Let_def
  by (intro mono_progs)

end
