(* ===== verification/Sqlcipher_Vault.thy ===== *)
theory Sqlcipher_Vault
  imports Sqlcipher_Store Blob_Names
begin

text \<open>
  The pipeline and the vault operations on the SQLCipher store: the interpretation of \<open>manifest_store\<close>, which brings
  the lemmas on uploads, flushes, downloads and histories to this store under the prefix \<open>sq\<close>.
\<close>

interpretation sq: manifest_store "sqlcipher_store E" "store_inv E" db_meta "db_node E" "db_chunks E" "db_epoch E" "db_buffer E"
  for E
  by (rule sqlcipher_manifest_store)

end
