(* ===== verification/Example_Vault.thy ===== *)
theory Example_Vault
  imports Manifest_Props Sqlcipher_Vault
begin

text \<open>
  A small vault for the witnesses: the empty manifest of \<open>ex_base\<close>, a source file of three bytes, and
  the staging directories.  Programs run on it by simplification; the padded chunks stay symbolic.
\<close>

definition ex_vault :: "db world" where
  "ex_vault = \<lparr>store = ex_base, files = [([''src''], [1, 2, 3])], dirs = [[], [''v''], [''v'', ''pending'']], tick = 0, progress_log = []\<rparr>"

lemma ex_vault_sel [simp]:
  "store ex_vault = ex_base" "files ex_vault = [([''src''], [1, 2, 3])]" "dirs ex_vault = [[], [''v''], [''v'', ''pending'']]"
  "tick ex_vault = 0" "progress_log ex_vault = []"
  by (simp_all add: ex_vault_def)

lemma ex_env_sel [simp]:
  "os_fault (ex_env a) n = None" "draw_uuid (ex_env a) t k = of_nat (100 + 10 * t + k)" "read_len (ex_env a) t = 8"
  "draw_nonce (ex_env a) t = replicate 24 (of_nat t)" "draw_key (ex_env a) t = ex_key"
  "aead_encrypt (ex_env a) key nc x p = Some (p, ex_tag a key x)"
  "aead_decrypt (ex_env a) key nc x c tg = (if tg = ex_tag a key x then Some c else None)"
  "blake3 (ex_env a) b = replicate 32 (sum_list b)" "uuid_version (ex_env a) u = 4" "clock (ex_env a) t = int t"
  by (simp_all add: ex_env_def)

lemma ex_faulty_sel [simp]:
  "os_fault (ex_faulty bad) n = (if n \<in> set bad then Some (''disk full'', None) else None)"
  "draw_uuid (ex_faulty bad) t k = of_nat (100 + 10 * t + k)" "read_len (ex_faulty bad) t = 8"
  "draw_nonce (ex_faulty bad) t = replicate 24 (of_nat t)" "draw_key (ex_faulty bad) t = ex_key"
  "aead_encrypt (ex_faulty bad) key nc x p = Some (p, ex_tag [] key x)"
  "aead_decrypt (ex_faulty bad) key nc x c tg = (if tg = ex_tag [] key x then Some c else None)"
  "uuid_hyphenated (ex_faulty bad) = uuid_hyphenated (ex_env [])"
  by (simp_all add: ex_faulty_def)

lemma ex_reads_eight: "reads_eight (ex_env a)"
  by (simp add: reads_eight_def)

lemma ex_key_len: "length ex_key = 32"
  by (simp add: ex_key_def)

lemma ex_fresh: "b \<le> 1000 \<Longrightarrow> fresh_draws (ex_env a) 0 b"
proof (unfold fresh_draws_def, rule inj_onI)
  fix s t assume b: "b \<le> 1000" "s \<in> {0..<b}" "t \<in> {0..<b}" and eq: "draw_uuid (ex_env a) s 0 = draw_uuid (ex_env a) t 0"
  have "unat (of_nat (100 + 10 * n) :: uuid) = 100 + 10 * n" if "n < 1000" for n
    using that by (simp only: unat_of_nat) (rule mod_less, simp)
  with b eq show "s = t" by (metis ex_env_sel(2) add.right_neutral add_left_cancel atLeastLessThan_iff less_le_trans mult_cancel1 zero_neq_numeral)
qed

lemma ex_chunk_size: "chunk_size_is (sqlcipher_store E) ex_base 131072"
  by (simp add: chunk_size_is_def sqlcipher_get_meta db_meta_def ex_base_def parse_chunk_size_bytes_def parse_u64_def digit_val_def)

lemma ex_read_size:
  "store w = ex_base \<Longrightarrow> os_fault E' (tick w) = None \<Longrightarrow> read_chunk_size_bytes E' (sqlcipher_store E) w = (Inr 131072, next_tick w)"
  by (rule read_chunk_size_bytes_ok) (simp_all add: ex_chunk_size)

lemma ex_store_inv: "store_inv (ex_env []) ex_base"
  by (simp add: store_inv_def ex_uuid_laws ex_base_inv)

text \<open>The simplification set that runs programs.\<close>

lemmas run_simps = bind_def with_err_def attempt_def ret_def fail_def lift_def draw_def progress_if_def report_progress_def Let_def
  fs_effect_def fs_read_def fs_len_def fs_exists_def fs_write_def fs_append_def fs_remove_def fs_rename_def fs_sync_def reader_read_def
  next_tick_def parent_dir_def blob_file_def query_def mutate_def encrypt_chunk_eq write_blob_file_def write_owner_only_def
  new_chunk_record_def stage_chunk_def

lemmas encrypt_simps = encrypt_file_def read_magic_bytes_def is_image_magic_def is_jpeg_def is_png_def PNG_SIGNATURE_def
  encrypt_file_inner_def

definition ex_blob :: bytes where
  "ex_blob = replicate 24 7 @ zero_pad 131072 [1, 2, 3] @ ex_tag [] ex_key (build_chunk_aad (ex_env []) 7 0)"

definition ex_record :: chunk_record where
  "ex_record = new_chunk_record 210 0 (uuid_hyphenated (ex_env []) 180) 131072 (compute_checksum (ex_env []) ex_blob)"

definition ex_staged :: "db world" where
  "ex_staged = ex_vault\<lparr>files := [([''src''], [1, 2, 3]), ([''v'', ''pending'', uuid_hyphenated (ex_env []) 180 @ ''.blob''], ex_blob)],
     tick := 12\<rparr>"

lemma ex_magic: "read_magic_bytes (ex_env []) [''src''] ex_vault = (Inr (zero_pad 8 [1, 2, 3]), next_tick (next_tick ex_vault))"
  by (simp add: read_magic_bytes_def run_simps ex_vault_def)

lemma ex_encrypted:
  "encrypt_file (ex_env []) False [''src''] 7 ex_key (sqlcipher_store (ex_env [])) [''v'', ''pending''] ex_vault = (Inr [ex_record], ex_staged)"
proof -
  let ?w = "ex_vault\<lparr>tick := Suc (Suc (Suc (Suc (Suc 0))))\<rparr>"
  have "encrypt_loop (ex_env []) False 7 ex_key [''v'', ''pending''] 131072 (Suc (Suc (Suc 0))) [1, 2, 3] 0 0 [] ?w = (Inr [ex_record], ex_staged)"
    by (subst encrypt_loop.simps, subst read_chunk_plaintext.simps, subst read_chunk_plaintext.simps)
      (simp add: run_simps ex_record_def ex_staged_def ex_blob_def ex_vault_def)
  then show ?thesis
    by (simp add: encrypt_file_def ex_magic is_image_magic_def is_jpeg_def is_png_def PNG_SIGNATURE_def zero_pad_def
        encrypt_file_inner_def ex_read_size run_simps)
qed

lemmas decrypt_simps = decrypt_file_def read_and_validate_chunks_def temporary_destination_path_def decrypt_blob_def
  resolve_blob_path_def exists_or_false_def read_encrypted_blob_def truncated_plaintext_def bytes_to_write_def
  replace_destination_with_temp_def validate_size_padded_matches_chunk_size_def validate_blob_name_uuid_v4_def

lemma ex_blob_facts:
  "length ex_blob = 131112" "decrypt_chunk (ex_env []) (VerifiedBlob ex_blob) ex_key 7 0 = Inr (zero_pad 131072 [1, 2, 3])"
  by (simp_all add: ex_blob_def length_zero_pad ex_tag_def decrypt_chunk_layout)

definition ex_out :: "db world" where
  "ex_out = ex_staged\<lparr>files := files ex_staged @ [([''out''], [1, 2, 3])], tick := 23\<rparr>"

lemma ex_decrypted:
  "decrypt_file (ex_env []) False [''out''] 7 ex_key 3 [ex_record] [''v''] (sqlcipher_store (ex_env [])) ex_staged = (Inr (), ex_out)"
proof -
  have "take 3 (zero_pad 131072 [1, 2, 3]) = [1, 2, 3]" "\<not> length (zero_pad 131072 [1, 2, 3]) < 3"
    by (simp_all add: take_zero_pad' length_zero_pad)
  then show ?thesis
    by (simp add: decrypt_simps run_simps ex_out_def ex_staged_def ex_record_def ex_read_size width_simps div_ceil_def ex_blob_facts
        ex_uuid_laws uuid_lawsD verify_checksum_ok)
qed


section \<open>An upload through the epoch buffer, and its flush\<close>

lemma two: "Suc (Suc 0) = 2"
  by simp

lemma ex_strip:
  "file_at w [''src''] = Some [1, 2, 3] \<Longrightarrow>
     strip_exif_if_image (ex_env []) [''src''] 3 w = (Inr None, next_tick (next_tick w))"
  by (simp add: strip_exif_if_image_def run_simps is_image_magic_def is_jpeg_def is_png_def PNG_SIGNATURE_def)

lemma ex_read_epoch: "store w = ex_base \<Longrightarrow> read_epoch_buffer_enabled (ex_env []) (sqlcipher_store E) w = (Inr True, next_tick w)"
  by (simp add: read_epoch_buffer_enabled_def run_simps sqlcipher_get_meta db_meta_def ex_base_def)

definition ex_file :: node where
  "ex_file = node_new 7 None File ''n'' 0 0 3 (Some (replicate 24 6 @ replicate 32 0 @ ex_tag [] ex_key (uuid_bytes (ex_env []) 7)))"

definition ex_row :: buffer_row where
  "ex_row = \<lparr>br_entry_id = uuid_hyphenated (ex_env []) 170, br_node_id = uuid_hyphenated (ex_env []) 7, br_plaintext = [1, 2, 3], br_size_bytes = 3, br_queued_at = 7\<rparr>"

definition ex_buffered :: "db world" where
  "ex_buffered = ex_vault\<lparr>store := ex_base\<lparr>t_nodes := [node_row_of (ex_env []) ex_file 3], t_epoch_buffer := [ex_row]\<rparr>, tick := 8\<rparr>"

lemmas db_simps = insert_node_tx_def ensure_parent_is_directory_for_insert_def node_new_def sql_insert_node_def
    node_ids_def node_row_of_def i64_or_err_def i64_try_from_def node_type_of_def sql_find_node_def
    validate_parent_type_def ex_ids ex_base_def empty_db_def insert_file_node_and_stage_epoch_entry_def stage_epoch_entry_def
    unix_timestamp_now_def sql_insert_buffer_def

lemma ex_insert:
  "insert_file_node_and_stage_epoch_entry (ex_env []) 7 ex_file [1, 2, 3] ex_base = Inr (store ex_buffered)"
  by (simp add: db_simps ex_file_def ex_buffered_def ex_row_def)

lemma ex_upload: "upload_file (ex_env []) False [''src''] 7 None ''n'' 0 0 (sqlcipher_store (ex_env [])) ex_key [''v'', ''pending''] ex_vault = (Inr ex_file, ex_buffered)"
  using ex_insert by (simp add: upload_file_def run_simps ex_strip ex_read_size ex_read_epoch decide_def upload_epoch_def
   wrap_file_key_def generate_nonce_def ex_file_def ex_buffered_def two)

definition ex_packed :: bytes where
  "ex_packed = replicate 24 12 @ zero_pad 131072 [1, 2, 3] @ ex_tag [] ex_key (build_chunk_aad (ex_env []) 190 0)"

definition ex_epoch :: epoch_blob_record where
  "ex_epoch = \<lparr>eb_epoch_blob_id = 190, eb_blob_name = uuid_hyphenated (ex_env []) 190,
     eb_file_key_wrapped = replicate 24 11 @ ex_key @ ex_tag [] ex_key (uuid_bytes (ex_env []) 190),
     eb_size_padded = 131112, eb_blake3_checksum = compute_checksum (ex_env []) ex_packed\<rparr>"

definition ex_flushed :: "db world" where
  "ex_flushed = ex_buffered\<lparr>store := (store ex_buffered)\<lparr>t_epoch_blobs := [epoch_row (ex_env []) ex_epoch 131112],
       t_chunks := [extent_row (ex_env []) 14 ex_epoch (0, 7, 0, 0, 3)], t_epoch_buffer := []\<rparr>,
     files := [([''src''], [1, 2, 3]), ([''v'', ''pending'', uuid_hyphenated (ex_env []) 190 @ ''.blob''], ex_packed)], tick := 15\<rparr>"

lemma ex_entries: "get_epoch_buffer_entries (ex_env []) (store ex_buffered) =
    Inr [\<lparr>ee_entry_id = 170, ee_node_id = 7, ee_plaintext = [1, 2, 3], ee_size_bytes = 3\<rparr>]"
  by (simp add: get_epoch_buffer_entries_def ex_buffered_def read_buffer_row_def ex_row_def uuid_lawsD [OF ex_uuid_laws] width_simps)

lemma ex_packed_len: "length ex_packed = 131112"
  by (simp add: ex_packed_def length_zero_pad ex_tag_def)

lemma ex_commit: "commit_epoch_flush (ex_env []) 14 ex_epoch [(7, 0, 0, 3)] (store ex_buffered) = Inr (store ex_flushed)"
  by (simp add: commit_epoch_flush_def insert_epoch_blob_with_extents_def i64_or_err_def i64_try_from_def sql_insert_epoch_blob_def
     insert_extent_def sql_insert_chunk_def ex_flushed_def ex_buffered_def extent_row_def ex_epoch_def epoch_row_def result_simps
     node_ids_def node_row_of_def ex_file_def node_new_def chunk_check_def ex_base_def empty_db_def map_filter_simps)

lemma ex_buffered_sel [simp]: "files ex_buffered = [([''src''], [1, 2, 3])]" "dirs ex_buffered = [[], [''v''], [''v'', ''pending'']]" "tick ex_buffered = 8"
    "progress_log ex_buffered = []"
  by (simp_all add: ex_buffered_def)

lemma ex_tag_len: "length (ex_tag a k x) = 16"
  by (simp add: ex_tag_def)

lemma ex_flush: "flush_epoch_buffer (ex_env []) False (sqlcipher_store (ex_env [])) ex_key [''v'', ''pending''] 131072 ex_buffered = (Inr (), ex_flushed)"
  using ex_commit [unfolded ex_epoch_def] ex_entries
  by (simp add: flush_epoch_buffer_def flush_and_report_def flush_one_blob_def run_simps wrap_file_key_def generate_nonce_def
      generate_file_key_def width_simps two length_zero_pad ex_tag_len flip: ex_packed_def)
    (simp add: ex_flushed_def)

end
