(* ===== verification/Pipeline_Props.thy ===== *)
theory Pipeline_Props
  imports Example_Vault
begin

text \<open>
  The properties of the encryption and decryption pipeline, over an arbitrary \<open>MetadataStore\<close>, with
  witnesses on the small vault.
\<close>

section \<open>Encryption\<close>

text \<open>
  When no I/O call fails, \<open>encrypt_file\<close> returns chunk records for every source of fewer than
  \<open>2^32\<close> chunks.  It changes nothing but the blobs of these records, and when the random source does not
  repeat a UUID, record \<open>i\<close> describes a blob of \<open>chunk_size_bytes + 40\<close> bytes with a matching checksum
  that decrypts, for this file and index \<open>i\<close>, to the \<open>i\<close>-th piece of the source without image metadata,
  padded with zeros.
\<close>

theorem encrypt_file_correct:
  assumes "no_faults E" "aead_laws E" "aead_total E" "uuid_laws E" "reads_eight E" "length key = 32"
    and "chunk_size_is MS (store w) cs" "dir \<in> set (dirs w)" "file_at w source = Some bs" "addressable bs"
  shows "\<exists>rs w'. encrypt_file E pr source fid key MS dir w = (Inr rs, w') \<and>
     touches (blob_file dir ` set (map ck_blob_name rs)) w w' \<and>
     (fresh_draws E (tick w) (tick w') \<longrightarrow> file_stored E (blobs_in w' dir) key fid cs (strip_exif bs) rs)"
proof -
  obtain rs w' where e: "encrypt_file E pr source fid key MS dir w = (Inr rs, w')"
    using encrypt_file_ok [OF assms(1-3,6-8,10,9)] by blast
  from encrypt_file_Inr [OF e assms(5,2,4,6,7,9)] encrypt_file_distinct [OF e assms(4)] e show ?thesis by blast
qed

theorem encrypt_file_correct_witness:
  "\<exists>rs w'. encrypt_file (ex_env []) False [''src''] 7 ex_key (sqlcipher_store (ex_env [])) [''v'', ''pending''] ex_vault = (Inr rs, w') \<and>
     touches (blob_file [''v'', ''pending''] ` set (map ck_blob_name rs)) ex_vault w' \<and>
     (fresh_draws (ex_env []) (tick ex_vault) (tick w') \<longrightarrow>
        file_stored (ex_env []) (blobs_in w' [''v'', ''pending'']) ex_key 7 131072 (strip_exif [1, 2, 3]) rs)"
  by (rule encrypt_file_correct)
    (simp_all add: ex_laws ex_reads_eight ex_key_len ex_chunk_size addressable_def)

text \<open>
  (C19) However the operating system splits up the reads, the loop of \<open>read_chunk_plaintext\<close> terminates
  with the next \<open>n\<close> bytes of the source, or all that is left.
\<close>

theorem read_chunk_plaintext_exact:
  assumes "no_faults E"
  shows "\<exists>w'. read_chunk_plaintext E n rest [] w = (Inr (take n rest, drop n rest), w') \<and> touches {} w w'"
proof -
  obtain a b w' where r: "read_chunk_plaintext E n rest [] w = (Inr (a, b), w')"
    using read_chunk_plaintext_ok [OF assms, of n rest "[]" w] by auto
  then show ?thesis using read_chunk_plaintext_Inr [OF r] read_chunk_plaintext_touches [OF r] by auto
qed

theorem read_chunk_plaintext_exact_witness:
  "\<exists>w'. read_chunk_plaintext ((ex_env [])\<lparr>read_len := \<lambda>_. 1\<rparr>) 2 [1, 2, 3] [] ex_vault = (Inr ([1, 2], [3]), w') \<and> touches {} ex_vault w'"
  using read_chunk_plaintext_exact [of "(ex_env [])\<lparr>read_len := \<lambda>_. 1\<rparr>" 2 "[1, 2, 3]" ex_vault]
  by (simp add: no_faults_def)

text \<open>
  (C18) A failed \<open>encrypt_file\<close> leaves nothing behind: if a single I/O call fails, then afterwards the store
  is unchanged, no file is new or modified, and no file is gone unless it has the name of a blob that this
  call drew at random.
\<close>

theorem encrypt_failure_cleans_up:
  assumes "encrypt_file E pr source fid key MS dir w = (Inl e, w')"
    and "single_fault E" "aead_laws E" "aead_total E" "uuid_laws E" "length key = 32" "dir \<in> set (dirs w)"
    and "file_at w source = Some bs" "addressable bs"
  shows "store w' = store w \<and>
     (\<forall>p. file_at w' p = file_at w p \<or>
        file_at w' p = None \<and> (\<exists>t. tick w \<le> t \<and> t < tick w' \<and> p = blob_file dir (uuid_hyphenated E (draw_uuid E t 0))))"
proof -
  have t: "touches (blob_file dir ` names E (tick w) (tick w')) w w'"
    using encrypt_file_fresh [OF assms(1)] by (simp add: fresh_only_def)
  have "\<exists>t. tick w \<le> t \<and> t < tick w' \<and> p = blob_file dir (uuid_hyphenated E (draw_uuid E t 0))"
    if "file_at w' p \<noteq> file_at w p" for p
  proof -
    have "p \<in> blob_file dir ` names E (tick w) (tick w')" using touchesD(4) [OF t, of p] that by blast
    then show ?thesis by (auto simp: names_def)
  qed
  then show ?thesis using encrypt_file_Inl [OF assms] unfolding nothing_staged_def by blast
qed

lemma ex_encrypt_fails:
  "\<exists>e w'. encrypt_file (ex_faulty [9]) False [''src''] 7 ex_key (sqlcipher_store (ex_env [])) [''v'', ''pending''] ex_vault = (Inl e, w')"
proof -
  let ?E = "ex_faulty [9]"
  let ?w = "ex_vault\<lparr>tick := Suc (Suc (Suc (Suc (Suc 0))))\<rparr>"
  have m: "read_magic_bytes ?E [''src''] ex_vault = (Inr (zero_pad 8 [1, 2, 3]), next_tick (next_tick ex_vault))"
    by (simp add: read_magic_bytes_def run_simps ex_vault_def)
  have "\<exists>e w'. encrypt_loop ?E False 7 ex_key [''v'', ''pending''] 131072 (Suc (Suc (Suc 0))) [1, 2, 3] 0 0 [] ?w = (Inl e, w')"
    by (subst encrypt_loop.simps, subst read_chunk_plaintext.simps, subst read_chunk_plaintext.simps) (simp add: run_simps ex_vault_def)
  then obtain ns e w' where "encrypt_loop ?E False 7 ex_key [''v'', ''pending''] 131072 (Suc (Suc (Suc 0))) [1, 2, 3] 0 0 [] ?w = (Inl (ns, e), w')"
    by (metis surj_pair)
  then show ?thesis
    by (simp add: encrypt_file_def m is_image_magic_def is_jpeg_def is_png_def PNG_SIGNATURE_def zero_pad_def
        encrypt_file_inner_def ex_read_size run_simps split: prod.split sum.split)
qed

lemma ex_faulty_laws: "aead_laws (ex_faulty bad)" "aead_total (ex_faulty bad)" "uuid_laws (ex_faulty bad)" "single_fault (ex_faulty [n])"
  using ex_aead_laws [of "[]"] ex_aead_total [of "[]"] ex_uuid_laws [of "[]"]
  by (simp_all add: aead_laws_def aead_total_def uuid_laws_def ex_faulty_def single_fault_def)

theorem encrypt_failure_cleans_up_witness:
  "\<exists>e w'. encrypt_file (ex_faulty [9]) False [''src''] 7 ex_key (sqlcipher_store (ex_env [])) [''v'', ''pending''] ex_vault = (Inl e, w') \<and>
     store w' = store ex_vault \<and>
     (\<forall>p. file_at w' p = file_at ex_vault p \<or>
        file_at w' p = None \<and> (\<exists>t. tick ex_vault \<le> t \<and> t < tick w' \<and>
          p = blob_file [''v'', ''pending''] (uuid_hyphenated (ex_faulty [9]) (draw_uuid (ex_faulty [9]) t 0))))"
proof -
  obtain e w' where e: "encrypt_file (ex_faulty [9]) False [''src''] 7 ex_key (sqlcipher_store (ex_env [])) [''v'', ''pending''] ex_vault = (Inl e, w')"
    using ex_encrypt_fails by blast
  from encrypt_failure_cleans_up [OF e ex_faulty_laws(4,1-3) ex_key_len, of "[1, 2, 3]"] e show ?thesis
    by (auto simp: addressable_def)
qed


section \<open>Decryption\<close>

text \<open>
  (C11) Round trip through the staging directory: decrypting the records of a successful \<open>encrypt_file\<close>, in any
  order, succeeds and puts the source, without image metadata, at the destination, whether or not a file was
  there before; no other file changes, and no temporary file remains.
\<close>

theorem encrypt_decrypt_roundtrip:
  assumes "encrypt_file E pr source fid key MS (dir @ [''pending'']) w = (Inr rs, w1)"
    and "decrypt_file E pr' dest fid key (length (strip_exif bs)) chunks dir MS w1 = (r, w2)"
    and "mset chunks = mset rs" "file_at w source = Some bs" "addressable bs" "chunk_size_is MS (store w) cs"
    and "no_faults E" "aead_laws E" "uuid_laws E" "reads_eight E" "length key = 32" "fresh_draws E 0 (tick w2 + 2)"
    and "dest \<notin> set (dirs w)" "parent_dir dest \<in> set (dirs w)" "no_temp E dest dest"
  shows "r = Inr () \<and> file_at w2 dest = Some (strip_exif bs) \<and> store w2 = store w \<and>
     (\<forall>p. p \<noteq> dest \<longrightarrow> file_at w2 p = file_at w1 p \<or> file_at w2 p = None \<and> (\<exists>t. p = tmp_path E dest t))"
proof -
  note enc = encrypt_file_Inr [OF assms(1,10,8,9,11,6,4)]
  have t1: "tick w \<le> tick w1" by (rule touchesD(3) [OF enc(1)])
  have t2: "tick w1 \<le> tick w2" by (rule mono_progD [OF mono_decrypt_file assms(2)])
  have f1: "fresh_draws E (tick w) (tick w1)" using fresh_draws_sub [OF fresh_draws_le [OF assms(12)]] t2 by simp
  have f2: "fresh_draws E (tick w1) (tick w2 + 2)" using fresh_draws_sub [OF assms(12)] by simp
  have "file_stored E (blobs_in w1 (dir @ [''pending''])) key fid cs (strip_exif bs) rs"
    by (rule enc(2) [OF encrypt_file_distinct [OF assms(1,9) f1]])
  then have st: "file_stored E (blob_lookup w1 dir) key fid cs (strip_exif bs) rs"
    by (rule file_stored_mono) (rule blob_lookup_pending)
  have w1: "chunk_size_is MS (store w1) cs" "dest \<notin> set (dirs w1)" "parent_dir dest \<in> set (dirs w1)" "store w1 = store w"
    using touchesD(1,2) [OF enc(1)] assms(6,13,14) by simp_all
  have "addressable (strip_exif bs)" using assms(5) length_strip_exif [of bs] by (simp add: addressable_def)
  then have "length rs < 2 ^ 32" using file_stored_bounds(1) [OF st] chunk_size_range [OF w1(1)] by simp
  from decrypt_file_ok [OF assms(2,7,9) w1(1) st assms(3) this f2 w1(2,3) assms(15)] w1(4) show ?thesis by auto
qed

lemma ex_no_temp: "no_temp E dest [''out'']"
  by (simp add: no_temp_def tmp_path_def)

theorem encrypt_decrypt_roundtrip_witness:
  "\<exists>rs w1. encrypt_file (ex_env []) False [''src''] 7 ex_key (sqlcipher_store (ex_env [])) ([''v''] @ [''pending'']) ex_vault = (Inr rs, w1) \<and>
     (case decrypt_file (ex_env []) False [''out''] 7 ex_key 3 rs [''v''] (sqlcipher_store (ex_env [])) w1 of
        (r, w2) \<Rightarrow> r = Inr () \<and> file_at w2 [''out''] = Some [1, 2, 3])"
proof -
  have e: "encrypt_file (ex_env []) False [''src''] 7 ex_key (sqlcipher_store (ex_env [])) ([''v''] @ [''pending'']) ex_vault = (Inr [ex_record], ex_staged)"
    using ex_encrypted by simp
  have s: "strip_exif [1, 2, 3] = [1, 2, 3]" by (rule strip_exif_other) (simp add: is_image_magic_def is_jpeg_def is_png_def PNG_SIGNATURE_def)
  have d: "decrypt_file (ex_env []) False [''out''] 7 ex_key (length (strip_exif [1, 2, 3])) [ex_record] [''v''] (sqlcipher_store (ex_env [])) ex_staged = (Inr (), ex_out)"
    using ex_decrypted by (simp add: s numeral_3_eq_3)
  have "addressable [1, 2, 3]" by (simp add: addressable_def)
  moreover have "fresh_draws (ex_env []) 0 (tick ex_out + 2)" by (rule ex_fresh) (simp add: ex_out_def)
  ultimately show ?thesis
    using encrypt_decrypt_roundtrip [OF e d refl _ _ _ ex_no_faults ex_aead_laws ex_uuid_laws ex_reads_eight ex_key_len _ _ _ ex_no_temp, where cs = 131072]
      e ex_decrypted by (auto simp: s ex_chunk_size parent_dir_def)
qed

text \<open>
  (C15) Reading a range of a stored file is the same as reading the file and cutting the range out, byte for byte
  and for every range inside the file, although only the chunks that overlap the range are read; a range that is
  empty or leaves the file is rejected.
\<close>

theorem range_read_is_slice:
  assumes "no_faults E" "chunk_size_is MS (store w) cs" "file_stored E (blob_lookup w dir) key fid cs content rs"
    and "mset chunks = mset rs" "addressable content"
  shows "fst (decrypt_file_range_to_memory E fid key (length content) chunks dir MS a b w) =
     (if a \<le> b \<and> b < length content
      then rbind (fst (decrypt_file_to_memory E False fid key (length content) chunks dir MS w)) (\<lambda>bs. Inr (drop a (take (Suc b) bs)))
      else Inl (ConstraintViolation ''range is out of bounds for this file''))"
proof -
  have len: "length rs < 2 ^ 32" "length content < 2 ^ 63"
    using file_stored_bounds [OF assms(3,5)] chunk_size_range [OF assms(2)] by simp_all
  have "fst (decrypt_file_to_memory E False fid key (length content) chunks dir MS w) = Inr content"
    using decrypt_file_to_memory_ok [OF assms(1-4) len(1), of False] len(2) by force
  moreover have "fst (decrypt_file_range_to_memory E fid key (length content) chunks dir MS a b w) = Inr (drop a (take (Suc b) content))"
    if "a \<le> b" "b < length content"
    using decrypt_file_range_to_memory_ok [OF assms(1-4) len that] by force
  ultimately show ?thesis by (auto simp: decrypt_file_range_to_memory_def fail_def not_less not_le)
qed

lemma ex_staged_sel [simp]: "store ex_staged = ex_base" "dirs ex_staged = [[], [''v''], [''v'', ''pending'']]" "tick ex_staged = 12"
  by (simp_all add: ex_staged_def)

lemma ex_stored: "file_stored (ex_env []) (blob_lookup ex_staged [''v'']) ex_key 7 131072 [1, 2, 3] [ex_record]"
proof -
  have c: "chunks_of 131072 [1, 2, 3 :: byte] = [[1, 2, 3]]" by (simp add: chunks_of_step)
  have b: "blob_lookup ex_staged [''v''] (uuid_hyphenated (ex_env []) 180) = Some ex_blob"
    by (rule blob_lookup_pending) (simp add: ex_staged_def blob_file_def)
  show ?thesis
    by (simp add: file_stored_def c chunks_stored_Cons chunk_stored_def ex_record_def new_chunk_record_def b ex_blob_facts
        validate_blob_name_uuid_v4_def uuid_lawsD [OF ex_uuid_laws])
qed

theorem range_read_is_slice_witness:
  "fst (decrypt_file_range_to_memory (ex_env []) 7 ex_key 3 [ex_record] [''v''] (sqlcipher_store (ex_env [])) 1 2 ex_staged) =
     rbind (fst (decrypt_file_to_memory (ex_env []) False 7 ex_key 3 [ex_record] [''v''] (sqlcipher_store (ex_env [])) ex_staged))
       (\<lambda>bs. Inr (drop 1 (take (Suc 2) bs)))"
  using range_read_is_slice [OF ex_no_faults _ ex_stored refl, of "sqlcipher_store (ex_env [])" 1 2]
  by (simp add: ex_chunk_size addressable_def numeral_3_eq_3)

text \<open>
  (C16) A blob whose checksum does not match its record is never decrypted to the destination: \<open>decrypt_file\<close> fails with
  \<open>ChecksumMismatch\<close>, whatever the position of the chunk, and apart from the temporary file, which is removed,
  every file, the destination included, is as it was.
\<close>

theorem tampered_blob_rejected:
  assumes "no_faults E" "chunk_size_is MS (store w) cs" "j < length rs" "length rs < 2 ^ 32"
    and "length rs = div_ceil (length content) cs" "validate_sorted_chunks 0 cs rs = Inr ()"
    and "chunks_stored E (blob_lookup w dir) key fid cs 0 (take j (chunks_of cs content)) (take j rs)"
    and "blob_tampered E (blob_lookup w dir) cs (rs ! j)" "parent_dir dest \<in> set (dirs w)"
  shows "\<exists>w'. decrypt_file E pr dest fid key (length content) rs dir MS w = (Inl ChecksumMismatch, w') \<and>
     (\<forall>p. file_at w' p = (if p = tmp_path E dest (Suc (tick w)) then None else file_at w p))"
  by (rule decrypt_file_tampered_lemma [OF assms])

definition ex_bad_record :: chunk_record where
  "ex_bad_record = ex_record\<lparr>ck_blake3_checksum := replicate 32 (sum_list ex_blob + 1)\<rparr>"

theorem tampered_blob_rejected_witness:
  "\<exists>w'. decrypt_file (ex_env []) False [''out''] 7 ex_key (length [1, 2, 3 :: byte]) [ex_bad_record] [''v''] (sqlcipher_store (ex_env [])) ex_staged
       = (Inl ChecksumMismatch, w') \<and>
     (\<forall>p. file_at w' p = (if p = tmp_path (ex_env []) [''out''] (Suc (tick ex_staged)) then None else file_at ex_staged p))"
proof (rule tampered_blob_rejected [where j = 0 and cs = 131072])
  have b: "blob_lookup ex_staged [''v''] (uuid_hyphenated (ex_env []) 180) = Some ex_blob"
    by (rule blob_lookup_pending) (simp add: ex_staged_def blob_file_def)
  show "blob_tampered (ex_env []) (blob_lookup ex_staged [''v'']) 131072 ([ex_bad_record] ! 0)"
    by (simp add: blob_tampered_def ex_bad_record_def ex_record_def new_chunk_record_def b ex_blob_facts compute_checksum_def
        validate_blob_name_uuid_v4_def uuid_lawsD [OF ex_uuid_laws])
qed (simp_all add: ex_no_faults ex_chunk_size div_ceil_def parent_dir_def validate_sorted_chunks_Cons ex_bad_record_def ex_record_def
    new_chunk_record_def width_simps validate_size_padded_matches_chunk_size_def)

text \<open>A replacement that fails leaves the old file in its place, or complete under its backup name.\<close>

lemma replace_failure:
  assumes "replace_destination_with_temp E dest temp w = (Inl e, w')" "file_at w temp = Some new" "dest \<notin> set (dirs w)"
    and "temp \<noteq> dest" "tmp_path E dest (Suc (tick w)) \<noteq> temp" "tmp_path E dest (Suc (tick w)) \<noteq> dest"
    and "single_fault E" "parent_dir dest \<in> set (dirs w)"
  shows "file_at w' dest = file_at w dest \<or>
     file_at w dest \<noteq> None \<and> file_at w' dest = Some new \<and> file_at w' (tmp_path E dest (Suc (tick w))) = file_at w dest"
proof (cases "file_at w dest")
  case None
  then show ?thesis
    using assms unfolding replace_missing [OF None assms(3)]
    by (auto simp: with_err_def fs_rename_def fs_effect_def split: option.splits if_splits)
next
  case (Some old)
  note run = assms(1) [unfolded replace_destination_with_temp_def bind_def with_err_def temporary_destination_path_eq attempt_def]
  consider (f0) "os_fault E (tick w) \<noteq> None" | (f2) "os_fault E (tick w) = None" "os_fault E (tick w + 2) \<noteq> None"
    | (f3) "os_fault E (tick w) = None" "os_fault E (tick w + 2) = None" "os_fault E (tick w + 3) \<noteq> None"
    | (ok) "os_fault E (tick w) = None" "os_fault E (tick w + 2) = None" "os_fault E (tick w + 3) = None" by blast
  then show ?thesis
  proof cases
    case f0
    then show ?thesis using run Some by (auto simp: fs_exists_def fs_effect_def)
  next
    case f2
    then show ?thesis using run Some by (auto simp: fs_exists_def fs_rename_def fs_effect_def)
  next
    case f3
    have "os_fault E (tick w + 4) = None"
      using f3(3) assms(7) unfolding single_fault_def by fastforce
    with f3 show ?thesis using run Some assms(2-6,8)
      by (auto simp: fs_exists_def fs_rename_def fs_effect_def fail_def numeral_eq_Suc split: option.splits if_splits)
  next
    case ok
    then show ?thesis using run Some assms(2-6,8)
      by (auto simp: fs_exists_def fs_rename_def fs_remove_def fs_effect_def fail_def numeral_eq_Suc split: option.splits if_splits)
  qed
qed

text \<open>
  (C17) \<open>decrypt_file\<close> replaces the destination without losing a file, when at most one I/O call fails.  A call that
  succeeds leaves a complete output of exactly \<open>file_size\<close> bytes.  A call that fails leaves the destination as it was,
  with one exception: when the last step, the removal of the backup of the old file, fails, the destination has the
  complete output and the old contents are beside it under the backup name.  No file but the destination and temporary
  files next to it changes.
\<close>

theorem decrypt_file_atomic:
  assumes "decrypt_file E pr dest fid key fsz chunks dir MS w = (r, w')"
    and "uuid_laws E" "single_fault E" "fresh_draws E (tick w) (tick w' + 2)"
    and "dest \<notin> set (dirs w)" "parent_dir dest \<in> set (dirs w)" "no_temp E dest dest"
  shows "(r = Inr () \<longrightarrow> (\<exists>out. file_at w' dest = Some out \<and> length out = fsz)) \<and>
     (\<forall>e. r = Inl e \<longrightarrow> file_at w' dest = file_at w dest \<or>
        file_at w dest \<noteq> None \<and> (\<exists>out t. file_at w' dest = Some out \<and> length out = fsz \<and>
          file_at w' (tmp_path E dest t) = file_at w dest)) \<and>
     (\<forall>p. no_temp E dest p \<longrightarrow> p \<noteq> dest \<longrightarrow> file_at w' p = file_at w p) \<and> store w' = store w"
proof -
  let ?T = "tmp_path E dest (Suc (tick w))"
  have nd: "tmp_path E dest t \<noteq> dest" for t using assms(7) unfolding no_temp_def by metis
  show ?thesis
    using assms(1)
  proof (cases rule: decrypt_file_phases)
    case (early e)
    then show ?thesis using touchesD(1,4) [OF early(2)] not_sym [OF nd] by (auto simp: no_temp_def)
  next
    case (replace out w1 x w2)
    let ?B = "tmp_path E dest (Suc (tick w1))"
    have "draw_uuid E (Suc (tick w)) 0 \<noteq> draw_uuid E (Suc (tick w1)) 0"
    proof (rule fresh_drawsD [OF assms(4)])
      have "tick w1 \<le> tick w2" using replace_ticks [OF replace(5)] .
      then show "Suc (tick w1) < tick w' + 2" using touchesD(3) [OF replace(6)] by simp
    qed (use replace(2) in simp_all)
    then have BT: "?B \<noteq> ?T" using tmp_path_inj [OF assms(2), of dest "Suc (tick w)" "Suc (tick w1)"] by metis
    have d: "dest \<notin> set (dirs w1)" "parent_dir dest \<in> set (dirs w1)" using touchesD(2) [OF replace(1)] assms(5,6) by simp_all
    note o = replace_outcome [OF replace(5,3) d(1) nd BT nd]
    have dest: "file_at w' dest = file_at w2 dest" "file_at w1 dest = file_at w dest" "file_at w' ?B = file_at w2 ?B"
      using touchesD(4) [OF replace(6)] touchesD(4) [OF replace(1)] not_sym [OF nd] BT by auto
    have other: "file_at w' p = file_at w p" if "no_temp E dest p" "p \<noteq> dest" for p
      using touchesD(4) [OF replace(6), of p] touchesD(4) [OF o(1), of p] touchesD(4) [OF replace(1), of p] that
      by (auto simp: no_temp_def)
    have st: "store w' = store w" using touchesD(1) [OF replace(6)] touchesD(1) [OF o(1)] touchesD(1) [OF replace(1)] by simp
    have "file_at w' dest = file_at w dest \<or> file_at w dest \<noteq> None \<and> (\<exists>out t. file_at w' dest = Some out \<and> length out = fsz \<and>
        file_at w' (tmp_path E dest t) = file_at w dest)" if "x = Inl e" for e
      using replace_failure [OF replace(5) [unfolded that] replace(3) d(1) nd BT nd assms(3) d(2)] dest replace(4) by auto
    with replace(7) o(2) dest other st replace(4) show ?thesis by auto
  qed
qed

text \<open>The destination exists, and the rename of the new file over it fails.\<close>

definition ex_occupied :: "db world" where
  "ex_occupied = ex_staged\<lparr>files := AList.update [''out''] [9] (files ex_staged)\<rparr>"

lemma ex_faulty_more:
  "uuid_parse (ex_faulty bad) = uuid_parse (ex_env [])" "uuid_version (ex_faulty bad) = uuid_version (ex_env [])"
  "uuid_bytes (ex_faulty bad) = uuid_bytes (ex_env [])" "blake3 (ex_faulty bad) = blake3 (ex_env [])"
  "verify_checksum (ex_faulty bad) = verify_checksum (ex_env [])" "decrypt_chunk (ex_faulty bad) = decrypt_chunk (ex_env [])"
proof -
  have "build_chunk_aad (ex_faulty bad) = build_chunk_aad (ex_env [])" "aead_decrypt (ex_faulty bad) = aead_decrypt (ex_env [])"
    by (simp_all add: ex_faulty_def build_chunk_aad_def fun_eq_iff)
  then show "decrypt_chunk (ex_faulty bad) = decrypt_chunk (ex_env [])" by (intro ext) (simp only: decrypt_chunk_def)
qed (simp_all add: ex_faulty_def verify_checksum_def compute_checksum_def fun_eq_iff)

lemma ex_replace_fails:
  "decrypt_file (ex_faulty [24]) False [''out''] 7 ex_key 3 [ex_record] [''v''] (sqlcipher_store (ex_env [])) ex_occupied =
     (Inl (Io ''disk full''), ex_occupied\<lparr>tick := 27\<rparr>)"
proof -
  have "take 3 (zero_pad 131072 [1, 2, 3]) = [1, 2, 3]" "\<not> length (zero_pad 131072 [1, 2, 3]) < 3"
    by (simp_all add: take_zero_pad' length_zero_pad)
  then show ?thesis
    by (simp add: decrypt_simps run_simps ex_occupied_def ex_staged_def ex_record_def ex_read_size width_simps div_ceil_def ex_blob_facts
        ex_uuid_laws uuid_lawsD verify_checksum_ok ex_faulty_more)
qed

theorem decrypt_file_atomic_witness:
  "\<exists>e w'. decrypt_file (ex_faulty [24]) False [''out''] 7 ex_key 3 [ex_record] [''v''] (sqlcipher_store (ex_env [])) ex_occupied = (Inl e, w') \<and>
     file_at w' [''out''] = Some [9] \<and> store w' = store ex_occupied"
proof -
  obtain e w' where run: "decrypt_file (ex_faulty [24]) False [''out''] 7 ex_key 3 [ex_record] [''v''] (sqlcipher_store (ex_env [])) ex_occupied = (Inl e, w')"
    and w': "file_at w' [''out''] = Some [9]" "tick w' = 27"
    using ex_replace_fails by (simp add: ex_occupied_def)
  have "fresh_draws (ex_faulty [24]) (tick ex_occupied) (tick w' + 2)"
    using fresh_draws_sub [OF ex_fresh [of 29], of 12 "[]"] by (simp add: w'(2) ex_occupied_def fresh_draws_def ex_faulty_def)
  moreover have "no_temp (ex_faulty [24]) [''out''] [''out'']" by (rule ex_no_temp)
  ultimately show ?thesis
    using decrypt_file_atomic [OF run ex_faulty_laws(3,4)] run w'(1) by (auto simp: ex_occupied_def parent_dir_def)
qed

end
