(* ===== verification/Vault_Props.thy ===== *)
theory Vault_Props
  imports Example_Vault
begin

text \<open>
  The properties of the vault operations over the SQLCipher store: durability of uploads, the flush of the epoch
  buffer, and the refinement of the manifest interface.
\<close>

section \<open>The store refines the manifest interface\<close>

text \<open>
  (C13) The SQLCipher store implements the abstract manifest: with the database invariant and the abstraction
  functions for settings, nodes, chunk lists, epoch blobs and the buffer, every lookup answers what the
  abstraction says, an insertion of a file updates it at that file, staging adds one buffer entry, and the commit
  of a flush adds the epoch blob, gives each packed node its extent and empties the buffer, all preserving the
  invariant.
\<close>

theorem sqlcipher_refines_manifest:
  "manifest_store (sqlcipher_store E) (store_inv E) db_meta (db_node E) (db_chunks E) (db_epoch E) (db_buffer E)"
  by (rule sqlcipher_manifest_store)


section \<open>Durability\<close>

text \<open>The environment once I/O works again.\<close>

definition calm :: "env \<Rightarrow> env" where
  "calm E = E\<lparr>os_fault := \<lambda>_. None\<rparr>"

lemma calm_sel [simp]:
  "uuid_hyphenated (calm E) = uuid_hyphenated E" "uuid_parse (calm E) = uuid_parse E" "uuid_version (calm E) = uuid_version E"
  "uuid_bytes (calm E) = uuid_bytes E" "draw_uuid (calm E) = draw_uuid E" "aead_decrypt (calm E) = aead_decrypt E" "blake3 (calm E) = blake3 E" "no_faults (calm E)"
  by (simp_all add: calm_def no_faults_def)

lemma calm_crypto [simp]:
  "compute_checksum (calm E) = compute_checksum E" "decrypt_chunk (calm E) = decrypt_chunk E"
  "unwrap_file_key (calm E) = unwrap_file_key E" "validate_blob_name_uuid_v4 (calm E) = validate_blob_name_uuid_v4 E"
  by (simp_all add: fun_eq_iff compute_checksum_def decrypt_chunk_def build_chunk_aad_def unwrap_file_key_def validate_blob_name_uuid_v4_def Let_def
      split: option.split)

lemma calm_stored [simp]:
  "file_stored (calm E) = file_stored E" "extent_stored (calm E) = extent_stored E"
  by (simp_all add: fun_eq_iff file_stored_def chunks_stored_def chunk_stored_def extent_stored_def epoch_stored_def)

lemma calm_held [simp]:
  "sq.in_chunks F (calm E) = sq.in_chunks F E" "sq.in_epoch F (calm E) = sq.in_epoch F E"
  by (simp_all add: fun_eq_iff sq.in_chunks_def sq.in_epoch_def chunks_held_def)

lemma calm_run_inv: "sq.run_inv F (calm E) kek sd cs w M = sq.run_inv F E kek sd cs w M"
  by (simp add: sq.run_inv_def sq.held_def names_def)

lemma run_download:
  assumes "sq.run_inv F E kek (root @ [''pending'']) cs w M" "M n = Some content"
  shows "fst (download_file_to_memory (calm E) pr n (sqlcipher_store F) kek root w) =
     (if n \<in> ee_node_id ` set (db_buffer F (store w)) then Inl (EpochBufferNotFlushed n) else Inr content)"
proof (cases "n \<in> ee_node_id ` set (db_buffer F (store w))")
  case True
  then have "sq.in_buffer F (store w) n content"
    using sq.run_invD(6) [OF assms] unfolding sq.held_def sq.in_chunks_def by blast
  then show ?thesis using True sq.download_in_buffer [OF calm_sel(8) sq.run_invD(1) [OF assms(1)]] by simp
next
  case False
  then have "\<not> sq.in_buffer F (store w) n content" unfolding sq.in_buffer_def by blast
  then show ?thesis using False sq.download_held [of "calm E" F kek root cs w M n content pr] assms by (auto simp: calm_run_inv)
qed

text \<open>
  (C12) Durability.  Start from a vault with an empty epoch buffer and no epoch blobs and let any history of uploads,
  failed uploads and successful flushes happen, with I/O failing anywhere.  Then a later download into memory of any
  file uploaded on the way gives back exactly the bytes that were uploaded, without image metadata; only while the
  file still waits in the buffer does it fail, with \<open>EpochBufferNotFlushed\<close>.  The random source must not repeat a UUID.
\<close>

theorem uploads_are_durable:
  assumes "vault_run E (sqlcipher_store E) kek root w0 w M" "run_laws E kek" "store_inv E (store w0)"
    and "db_buffer E (store w0) = []" "\<forall>e. db_epoch E (store w0) e = None" "fresh_draws E 0 (tick w)" "M n = Some content"
  shows "fst (download_file_to_memory (calm E) pr n (sqlcipher_store E) kek root w) =
     (if n \<in> ee_node_id ` set (db_buffer E (store w)) then Inl (EpochBufferNotFlushed n) else Inr content)"
proof -
  obtain cs where "chunk_size_is (sqlcipher_store E) (store w0) cs" using sq.chunk_size_readable [OF assms(3)] by blast
  note I = sq.run_inv_run [OF assms(1-3) this assms(4) assms(5) [rule_format] assms(6)]
  show ?thesis by (rule run_download [OF I assms(7)])
qed

lemma ex_runs:
  "vault_run (ex_env []) (sqlcipher_store (ex_env [])) ex_key [''v''] ex_vault ex_buffered (Map.empty(7 \<mapsto> [1, 2, 3]))"
  "vault_run (ex_env []) (sqlcipher_store (ex_env [])) ex_key [''v''] ex_vault ex_flushed (Map.empty(7 \<mapsto> [1, 2, 3]))"
proof -
  let ?E = "ex_env []"
  have u: "upload_file ?E False [''src''] 7 None ''n'' 0 0 (sqlcipher_store ?E) ex_key ([''v''] @ [''pending'']) ex_vault = (Inr ex_file, ex_buffered)"
    using ex_upload by simp
  have s: "strip_exif [1, 2, 3] = [1, 2, 3]" by (rule strip_exif_other) (simp add: is_image_magic_def is_jpeg_def is_png_def PNG_SIGNATURE_def)
  have src: "file_at ex_vault [''src''] = Some [1, 2, 3]" "addressable [1, 2, 3]" by (simp_all add: addressable_def)
  show 1: "vault_run ?E (sqlcipher_store ?E) ex_key [''v''] ex_vault ex_buffered (Map.empty(7 \<mapsto> [1, 2, 3]))"
    using vault_run.upload [OF vault_run.start src u] unfolding s .
  have f: "flush_epoch_buffer ?E False (sqlcipher_store ?E) ex_key ([''v''] @ [''pending'']) 131072 ex_buffered = (Inr (), ex_flushed)"
    using ex_flush by simp
  have c: "chunk_size_is (sqlcipher_store ?E) (store ex_buffered) 131072"
    using ex_chunk_size [of ?E] by (simp add: chunk_size_is_def sqlcipher_get_meta db_meta_def ex_buffered_def)
  show "vault_run ?E (sqlcipher_store ?E) ex_key [''v''] ex_vault ex_flushed (Map.empty(7 \<mapsto> [1, 2, 3]))"
    by (rule vault_run.flush [OF 1 c _ _ f]) (simp add: ex_entries, simp)
qed

lemma ex_run_laws: "run_laws (ex_env []) ex_key"
  by (simp add: run_laws_def ex_laws ex_reads_eight ex_key_len)

lemma ex_vault_start: "store_inv (ex_env []) (store ex_vault)" "db_buffer (ex_env []) (store ex_vault) = []"
    "\<forall>e. db_epoch (ex_env []) (store ex_vault) e = None"
proof -
  show "store_inv (ex_env []) (store ex_vault)" by (simp add: ex_store_inv)
  show "db_buffer (ex_env []) (store ex_vault) = []"
    by (simp add: db_buffer_rows [OF ex_base_inv]) (simp add: ex_base_def empty_db_def)
  show "\<forall>e. db_epoch (ex_env []) (store ex_vault) e = None"
    by (simp add: db_epoch_def get_epoch_blob_def find_epoch_blob_def) (simp add: ex_base_def empty_db_def)
qed

lemma ex_flushed_buffer: "db_buffer (ex_env []) (store ex_flushed) = []"
  by (simp add: db_buffer_def get_epoch_buffer_entries_def ex_flushed_def)

theorem uploads_are_durable_witness:
  "fst (download_file_to_memory (calm (ex_env [])) False 7 (sqlcipher_store (ex_env [])) ex_key [''v''] ex_flushed) = Inr [1, 2, 3]"
proof -
  have "fresh_draws (ex_env []) 0 (tick ex_flushed)" by (rule ex_fresh) (simp add: ex_flushed_def)
  from uploads_are_durable [OF ex_runs(2) ex_run_laws ex_vault_start this, of 7 "[1, 2, 3]" False] show ?thesis
    by (simp add: ex_flushed_buffer)
qed

text \<open>
  (C14) A flush makes everything available: if, after such a history, \<open>flush_epoch_buffer\<close> succeeds, then no entry
  is left in the buffer and every file uploaded so far can be downloaded, whichever route its upload took and
  however the buffer was split into epoch blobs.
\<close>

theorem flush_makes_available:
  assumes "vault_run E (sqlcipher_store E) kek root w0 w M" "run_laws E kek" "store_inv E (store w0)"
    and "db_buffer E (store w0) = []" "\<forall>e. db_epoch E (store w0) e = None" "fresh_draws E 0 (tick w')"
    and "chunk_size_is (sqlcipher_store E) (store w) cs" "length (concat (map ee_plaintext (db_buffer E (store w)))) < 2 ^ 62"
    and "flush_epoch_buffer E pr (sqlcipher_store E) kek (root @ [''pending'']) cs w = (Inr (), w')"
  shows "db_buffer E (store w') = [] \<and>
     (\<forall>n content. M n = Some content \<longrightarrow>
        fst (download_file_to_memory (calm E) pr' n (sqlcipher_store E) kek root w') = Inr content)"
proof -
  obtain cs0 where "chunk_size_is (sqlcipher_store E) (store w0) cs0" using sq.chunk_size_readable [OF assms(3)] by blast
  note run = sq.run_inv_run [OF assms(1-3) this assms(4) assms(5) [rule_format]]
  have I: "sq.run_inv E E kek (root @ [''pending'']) cs0 w M"
    by (rule run [OF fresh_draws_le [OF assms(6) mono_progD [OF mono_flush_epoch_buffer assms(9)]]])
  have "cs = cs0" by (rule chunk_size_unique [OF assms(7) sq.run_invD(2) [OF I]])
  note fl = sq.run_inv_flush [OF I assms(2,6) assms(9) [unfolded this] assms(8)]
  show ?thesis using run_download [OF fl(1)] fl(2) by simp
qed

theorem flush_makes_available_witness:
  "fst (download_file_to_memory (calm (ex_env [])) False 7 (sqlcipher_store (ex_env [])) ex_key [''v''] ex_flushed) = Inr [1, 2, 3]"
proof -
  let ?E = "ex_env []"
  have f: "fresh_draws ?E 0 (tick ex_flushed)" by (rule ex_fresh) (simp add: ex_flushed_def)
  have c: "chunk_size_is (sqlcipher_store ?E) (store ex_buffered) 131072"
    using ex_chunk_size [of ?E] by (simp add: chunk_size_is_def sqlcipher_get_meta db_meta_def ex_buffered_def)
  have b: "length (concat (map ee_plaintext (db_buffer ?E (store ex_buffered)))) < 2 ^ 62" by (simp add: db_buffer_def ex_entries)
  have "flush_epoch_buffer ?E False (sqlcipher_store ?E) ex_key ([''v''] @ [''pending'']) 131072 ex_buffered = (Inr (), ex_flushed)"
    using ex_flush by simp
  from flush_makes_available [OF ex_runs(1) ex_run_laws ex_vault_start f c b this, of False] show ?thesis by simp
qed

end
