(* ===== verification/Vault_Deletion.thy ===== *)
theory Vault_Deletion
  imports Example_Vault
begin

text \<open>
  Deletion of files and directories, and the removal of orphaned blobs, over the SQLCipher store: the recursion of
  \<open>delete_directory\<close> ends and removes exactly the subtree, orphan cleanup removes exactly the unknown blobs, and deleting a
  file takes a shared epoch blob with it.
\<close>

section \<open>The recursion over directories\<close>

text \<open>Existing strict descendants of a node; the depth of the recursion is bounded by their number.\<close>

definition below :: "db \<Rightarrow> string \<Rightarrow> string set" where
  "below d i = {x \<in> set (node_ids d). (x, i) \<in> (parent_rel (t_nodes d))\<^sup>+}"

lemma finite_below [simp]: "finite (below d i)"
  by (rule finite_subset [of _ "set (node_ids d)"]) (auto simp: below_def)

lemma below_size: "card (below d i) \<le> length (t_nodes d)"
proof -
  have "below d i \<subseteq> set (node_ids d)" by (auto simp: below_def)
  then have "card (below d i) \<le> card (set (node_ids d))" by (simp add: card_mono)
  also have "\<dots> \<le> length (node_ids d)" by (rule card_length)
  finally show ?thesis by (simp add: node_ids_def)
qed

lemma parent_rel_mono: "set rows \<subseteq> set rows' \<Longrightarrow> parent_rel rows \<subseteq> parent_rel rows'"
  by (auto simp: parent_rel_def)

lemma below_mono: "set (t_nodes d') \<subseteq> set (t_nodes d) \<Longrightarrow> below d' i \<subseteq> below d i"
  using trancl_mono [OF _ parent_rel_mono] by (auto simp: below_def node_ids_def)

lemma below_child:
  assumes "acyclic (parent_rel (t_nodes d))" "(c, i) \<in> parent_rel (t_nodes d)"
  shows "card (below d c) < card (below d i)"
proof (rule psubset_card_mono)
  have c: "c \<in> below d i" using assms(2) by (auto simp: below_def node_ids_def parent_rel_def)
  have "c \<notin> below d c" using assms(1) by (auto simp: below_def acyclic_def)
  moreover have "below d c \<subseteq> below d i" using assms(2) by (auto simp: below_def)
  ultimately show "below d c \<subset> below d i" using c by blast
qed simp

lemma list_children_parent:
  assumes "uuid_laws E" "db_inv E d" "list_children E u d = Inr ns" "n \<in> set ns"
  shows "(uuid_hyphenated E (nd_node_id n), uuid_hyphenated E u) \<in> parent_rel (t_nodes d)"
proof -
  let ?rows = "sort_key nr_name (filter (\<lambda>r. nr_parent_id r = Some (uuid_hyphenated E u)) (t_nodes d))"
  have "list_all2 (\<lambda>r n. map_err from_rusqlite (read_node E r) = Inr n) ?rows ns"
    using assms(3) by (simp add: list_children_def rmap_eq_Inr)
  then obtain r where "r \<in> set ?rows" and n: "read_node E r = Inr n"
  proof -
    assume l: "list_all2 (\<lambda>r n. map_err from_rusqlite (read_node E r) = Inr n) ?rows ns"
      and *: "\<And>r. r \<in> set ?rows \<Longrightarrow> read_node E r = Inr n \<Longrightarrow> thesis"
    obtain j where j: "j < length ns" "ns ! j = n" using assms(4) by (metis in_set_conv_nth)
    have "map_err from_rusqlite (read_node E (?rows ! j)) = Inr (ns ! j)" using list_all2_nthD2 [OF l j(1)] .
    moreover have "?rows ! j \<in> set ?rows" using list_all2_lengthD [OF l] j(1) by (intro nth_mem) linarith
    ultimately show thesis using * j(2) by (simp only: map_err_eq_Inr)
  qed
  then have r: "r \<in> set (t_nodes d)" "nr_parent_id r = Some (uuid_hyphenated E u)" by simp_all
  have "canonical E (nr_node_id r)" using assms(2) r(1) by (simp add: db_inv_def nodes_inv_def node_row_ok_def)
  moreover have "uuid_parse E (nr_node_id r) = Some (nd_node_id n)"
    using n by (auto simp: read_node_def result_simps node_new_def)
  ultimately have "nr_node_id r = uuid_hyphenated E (nd_node_id n)" using assms(1) by (auto elim!: canonicalE)
  then show ?thesis using r by (auto simp: in_parent_rel)
qed

text \<open>Rows may only have gone below the roots \<open>V\<close>.\<close>

definition pruned :: "db \<Rightarrow> db \<Rightarrow> string set \<Rightarrow> bool" where
  "pruned d d' V \<longleftrightarrow> set (t_nodes d') \<subseteq> set (t_nodes d) \<and>
     (\<forall>r \<in> set (t_nodes d) - set (t_nodes d'). \<exists>v \<in> V. nr_node_id r \<in> descendants d v)"

lemma descendants_mono: "set (t_nodes d') \<subseteq> set (t_nodes d) \<Longrightarrow> descendants d' i \<subseteq> descendants d i"
  using rtrancl_mono [OF parent_rel_mono] by blast

lemma pruned_refl [simp]: "pruned d d V"
  by (simp add: pruned_def)

lemma pruned_trans: "pruned d1 d2 V \<Longrightarrow> pruned d2 d3 W \<Longrightarrow> pruned d1 d3 (V \<union> W)"
  unfolding pruned_def using descendants_mono [of d2 d1] by blast

lemma pruned_root: "pruned d d' V \<Longrightarrow> (\<And>v. v \<in> V \<Longrightarrow> v \<in> descendants d i) \<Longrightarrow> pruned d d' {i}"
  unfolding pruned_def by (auto intro: rtrancl_trans) (metis (no_types, lifting) DiffI rtrancl_trans)

lemma delete_node_pruned:
  assumes "delete_node F t u d = Inr d'" "store_inv F d"
  shows "store_inv F d'" "pruned d d' {uuid_hyphenated F u}"
  using delete_node_inv [OF assms(1)] assms by (auto simp: store_inv_def delete_node_eq_Inr pruned_def)

lemma mutate_delete:
  assumes "mutate E (ms_delete_node (sqlcipher_store F) u) w = (r, w')" "store_inv F (store w)"
  shows "store_inv F (store w')" "pruned (store w) (store w') {uuid_hyphenated F u}"
    and "r = Inr () \<Longrightarrow> \<exists>t. delete_node F t u (store w) = Inr (store w')"
proof -
  have "(store w' = store w \<and> r \<noteq> Inr ()) \<or> (\<exists>t. delete_node F t u (store w) = Inr (store w'))"
    using assms(1) by (auto simp: mutate_def split: option.splits sum.splits)
  then show "store_inv F (store w')" "pruned (store w) (store w') {uuid_hyphenated F u}"
      "r = Inr () \<Longrightarrow> \<exists>t. delete_node F t u (store w) = Inr (store w')"
    using delete_node_pruned assms(2) by auto
qed

lemma remove_all_store: "remove_all E ps w = (r, w') \<Longrightarrow> store w' = store w"
proof (induction ps arbitrary: w)
  case (Cons p ps)
  obtain x w1 where f: "fs_remove E p w = (x, w1)" by fastforce
  then have "remove_all E ps w1 = (r, w')" using Cons.prems by (simp add: bind_def attempt_def)
  from Cons.IH [OF this] touchesD(1) [OF touches_change(3) [OF f]] show ?case by simp
qed simp

lemma delete_file_pruned:
  assumes "delete_file E u (sqlcipher_store F) dir w = (r, w')" "store_inv F (store w)"
  shows "store_inv F (store w') \<and> pruned (store w) (store w') {uuid_hyphenated F u}"
proof -
  have q: "store v' = store v" if "query E g v = (x, v')" for g :: "db \<Rightarrow> storage_error + 'z" and x v v'
    using touchesD(1) [OF touches_query [OF that]] .
  have "store w' = store w \<or> (\<exists>v v1 x. store v = store w \<and> mutate E (ms_delete_node (sqlcipher_store F) u) v = (x, v1) \<and> store w' = store v1)"
    using assms(1) unfolding delete_file_def bind_def
    by (auto simp: lift_def fail_def split: prod.splits sum.splits if_splits dest!: q remove_all_store) metis+
  then show ?thesis using mutate_delete(1,2) assms(2) by (auto simp del: sqlcipher_store_sel) metis+
qed


lemma query_children:
  assumes "query E (ms_list_children (sqlcipher_store F) u) w = (r, w1)" "store_inv F (store w)"
  shows "store w1 = store w"
    and "r = Inr cs \<Longrightarrow> c \<in> set cs \<Longrightarrow> (uuid_hyphenated F (nd_node_id c), uuid_hyphenated F u) \<in> parent_rel (t_nodes (store w))"
proof -
  show "store w1 = store w" using touchesD(1) [OF touches_query [OF assms(1)]] .
  assume "r = Inr cs" "c \<in> set cs"
  then have "list_children F u (store w) = Inr cs"
    using assms(1) by (auto simp: query_def split: option.splits)
  from list_children_parent [OF _ _ this \<open>c \<in> set cs\<close>] assms(2)
  show "(uuid_hyphenated F (nd_node_id c), uuid_hyphenated F u) \<in> parent_rel (t_nodes (store w))"
    by (simp add: store_inv_def)
qed

text \<open>
  The postcondition of the recursion below the roots \<open>V\<close>, and the state from which the last row goes.  With more fuel
  than there are nodes below, the recursion ends and meets it.
\<close>

definition tree_pruned :: "env \<Rightarrow> string set \<Rightarrow> db world \<Rightarrow> db world \<Rightarrow> bool" where
  "tree_pruned F V w w' \<longleftrightarrow> store_inv F (store w') \<and> pruned (store w) (store w') V"

lemma tree_pruned_trans: "tree_pruned F V w1 w2 \<Longrightarrow> tree_pruned F V' w2 w3 \<Longrightarrow> tree_pruned F (V \<union> V') w1 w3"
  using pruned_trans by (auto simp: tree_pruned_def)

lemma tree_pruned_below: "tree_pruned F V w w' \<Longrightarrow> card (below (store w') i) \<le> card (below (store w) i)"
  by (simp add: card_mono below_mono tree_pruned_def pruned_def)

lemma delete_children_ends:
  assumes sub: "\<And>u w. store_inv F (store w) \<Longrightarrow> card (below (store w) (uuid_hyphenated F u)) < fuel \<Longrightarrow>
      \<exists>r w'. delete_subtree E (sqlcipher_store F) dir fuel u w = Some (r, w') \<and> tree_pruned F {uuid_hyphenated F u} w w'"
    and "store_inv F (store w)" "\<forall>c \<in> set cs. card (below (store w) (uuid_hyphenated F (nd_node_id c))) < fuel"
  shows "\<exists>r w'. delete_children E (sqlcipher_store F) dir fuel cs w = Some (r, w') \<and>
      tree_pruned F ((\<lambda>c. uuid_hyphenated F (nd_node_id c)) ` set cs) w w'"
  using assms(2,3)
proof (induction cs arbitrary: w)
  case Nil
  then show ?case by (simp add: ret_def tree_pruned_def)
next
  case (Cons c cs)
  let ?c = "uuid_hyphenated F (nd_node_id c)"
  obtain r1 w1 where one: "(if nd_node_type c = Directory then delete_subtree E (sqlcipher_store F) dir fuel (nd_node_id c) w
      else Some (delete_file E (nd_node_id c) (sqlcipher_store F) dir w)) = Some (r1, w1)" and p: "tree_pruned F {?c} w w1"
  proof (cases "nd_node_type c = Directory")
    case True
    then show ?thesis using sub [OF Cons.prems(1), of "nd_node_id c"] Cons.prems(2) that by auto
  next
    case False
    obtain r1 w1 where "delete_file E (nd_node_id c) (sqlcipher_store F) dir w = (r1, w1)" by fastforce
    with delete_file_pruned [OF this Cons.prems(1)] False that show ?thesis by (simp add: tree_pruned_def)
  qed
  show ?case
  proof (cases r1)
    case (Inl e)
    have "pruned (store w) (store w1) ((\<lambda>c. uuid_hyphenated F (nd_node_id c)) ` set (c # cs))"
      using p by (auto simp: tree_pruned_def pruned_def)
    then show ?thesis using one Inl p by (simp add: tree_pruned_def)
  next
    case (Inr x)
    have "\<forall>k \<in> set cs. card (below (store w1) (uuid_hyphenated F (nd_node_id k))) < fuel"
      using Cons.prems(2) tree_pruned_below [OF p] by (meson le_less_trans list.set_intros(2))
    from Cons.IH [OF _ this] obtain r w' where "delete_children E (sqlcipher_store F) dir fuel cs w1 = Some (r, w')"
        "tree_pruned F ((\<lambda>c. uuid_hyphenated F (nd_node_id c)) ` set cs) w1 w'"
      using p by (auto simp: tree_pruned_def)
    then show ?thesis using one Inr tree_pruned_trans [OF p] by auto
  qed
qed

lemma delete_subtree_ends:
  "store_inv F (store w) \<Longrightarrow> card (below (store w) (uuid_hyphenated F u)) < fuel \<Longrightarrow>
     \<exists>r w'. delete_subtree E (sqlcipher_store F) dir fuel u w = Some (r, w') \<and> tree_pruned F {uuid_hyphenated F u} w w' \<and>
       (r = Inr () \<longrightarrow> (\<exists>v t. tree_pruned F {uuid_hyphenated F u} w v \<and> delete_node F t u (store v) = Inr (store w')))"
proof (induction fuel arbitrary: u w)
  case (Suc fuel)
  let ?i = "uuid_hyphenated F u"
  obtain r1 w1 where q: "query E (ms_list_children (sqlcipher_store F) u) w = (r1, w1)" by fastforce
  note st = query_children(1) [OF q Suc.prems(1)]
  show ?case
  proof (cases r1)
    case (Inl e)
    then show ?thesis using q st Suc.prems(1) by (simp add: tree_pruned_def)
  next
    case (Inr cs)
    let ?C = "(\<lambda>c. uuid_hyphenated F (nd_node_id c)) ` set cs"
    have child: "(c, ?i) \<in> parent_rel (t_nodes (store w))" if "c \<in> ?C" for c
      using query_children(2) [OF q Suc.prems(1)] Inr that by blast
    have acyc: "acyclic (parent_rel (t_nodes (store w)))"
      using Suc.prems(1) by (simp add: store_inv_def db_inv_def nodes_inv_def)
    have "\<forall>c \<in> set cs. card (below (store w1) (uuid_hyphenated F (nd_node_id c))) < fuel"
      using below_child [OF acyc child] Suc.prems(2) st by fastforce
    from delete_children_ends [OF _ _ this, of E dir] Suc.IH obtain r2 w2
      where d: "delete_children E (sqlcipher_store F) dir fuel cs w1 = Some (r2, w2)" and p: "tree_pruned F ?C w1 w2"
      using Suc.prems(1) st by (metis (no_types, lifting))
    have p2: "tree_pruned F {?i} w w2"
      using p pruned_root [of "store w" "store w2" ?C ?i] child st by (auto simp: tree_pruned_def)
    show ?thesis
    proof (cases r2)
      case (Inl e)
      then show ?thesis using q d Inr p2 by simp
    next
      case [simp]: (Inr x)
      obtain r3 w3 where m: "mutate E (ms_delete_node (sqlcipher_store F) u) w2 = (r3, w3)" by fastforce
      have inv2: "store_inv F (store w2)" using p2 by (simp add: tree_pruned_def)
      from mutate_delete(1,2) [OF m inv2] have "tree_pruned F {?i} w2 w3" by (simp add: tree_pruned_def)
      with tree_pruned_trans [OF p2 this] mutate_delete(3) [OF m inv2] p2
      show ?thesis using q d \<open>r1 = Inr cs\<close> m by (simp del: sqlcipher_store_sel) blast
    qed
  qed
qed simp

text \<open>What is left of the subtree when the last row goes still hangs below it.\<close>

lemma kept_path:
  assumes "set (t_nodes d') \<subseteq> set (t_nodes d)" "db_inv E d" "db_inv E d'"
    and "(x, i) \<in> (parent_rel (t_nodes d))\<^sup>*" "x \<in> set (node_ids d')"
  shows "(x, i) \<in> (parent_rel (t_nodes d'))\<^sup>*"
  using assms(4,5)
proof (induction rule: converse_rtrancl_induct)
  case (step x y)
  obtain r where r: "r \<in> set (t_nodes d)" "nr_node_id r = x" "nr_parent_id r = Some y" using step.hyps(1) by (auto simp: in_parent_rel)
  obtain r' where r': "r' \<in> set (t_nodes d')" "nr_node_id r' = x" using step.prems by (auto simp: node_ids_def)
  have "inj_on nr_node_id (set (t_nodes d))" using assms(2) by (simp add: db_inv_def nodes_inv_def distinct_map)
  then have "r' = r" using r r' assms(1) by (meson inj_onD subsetD)
  then have e: "(x, y) \<in> parent_rel (t_nodes d')" using r(3) r' by (auto simp: in_parent_rel)
  have "parents_ok (t_nodes d')" using assms(3) by (simp add: db_inv_def nodes_inv_def)
  from parent_rel_closed [OF this e] have "y \<in> set (node_ids d')" by (simp add: node_ids_def)
  from step.IH [OF this] e show ?case by (rule converse_rtrancl_into_rtrancl [rotated])
qed simp

lemma subtree_gone:
  assumes "store_inv F (store w)" "tree_pruned F {uuid_hyphenated F u} w v" "delete_node F t u (store v) = Inr d'"
  shows "set (node_ids d') = set (node_ids (store w)) - descendants (store w) (uuid_hyphenated F u)"
proof -
  let ?i = "uuid_hyphenated F u"
  have sub: "set (t_nodes (store v)) \<subseteq> set (t_nodes (store w))"
    and gone: "\<And>r. r \<in> set (t_nodes (store w)) \<Longrightarrow> r \<notin> set (t_nodes (store v)) \<Longrightarrow> nr_node_id r \<in> descendants (store w) ?i"
    and inv: "db_inv F (store w)" "db_inv F (store v)"
    using assms(1,2) by (auto simp: tree_pruned_def pruned_def store_inv_def)
  have "x \<in> set (node_ids d') \<longleftrightarrow> x \<in> set (node_ids (store v)) \<and> x \<notin> descendants (store v) ?i" for x
    using assms(3) by (auto simp: delete_node_eq_Inr node_ids_def)
  moreover have "x \<in> descendants (store v) ?i \<longleftrightarrow> x \<in> descendants (store w) ?i" if "x \<in> set (node_ids (store v))" for x
    using kept_path [OF sub inv, of x ?i] descendants_mono [OF sub, of ?i] that by blast
  moreover have "x \<in> set (node_ids (store v)) \<longleftrightarrow> x \<in> set (node_ids (store w))" if "x \<notin> descendants (store w) ?i" for x
    using sub gone that by (auto simp: node_ids_def)
  moreover have "set (node_ids (store v)) \<subseteq> set (node_ids (store w))" using sub by (auto simp: node_ids_def)
  ultimately show ?thesis unfolding set_eq_iff Diff_iff by (metis (no_types, lifting) subsetD)
qed

section \<open>Deleting a directory\<close>

text \<open>
  (C22) \<open>delete_directory\<close> ends: the depth of its recursion is less than the number of nodes in the manifest, so fuel
  above that number always gives a result.  Whatever happens on the way, the manifest invariant holds afterwards and only nodes of the
  subtree are gone; and when the call succeeds, exactly the subtree is gone.
\<close>

theorem delete_directory_total:
  assumes "store_inv F (store w)" "length (t_nodes (store w)) < fuel"
  shows "\<exists>r w'. delete_directory E fuel u (sqlcipher_store F) dir w = Some (r, w') \<and> store_inv F (store w') \<and>
     set (t_nodes (store w')) \<subseteq> set (t_nodes (store w)) \<and>
     set (node_ids (store w)) - descendants (store w) (uuid_hyphenated F u) \<subseteq> set (node_ids (store w')) \<and>
     (r = Inr () \<longrightarrow> set (node_ids (store w')) = set (node_ids (store w)) - descendants (store w) (uuid_hyphenated F u))"
proof -
  obtain r1 w1 where q: "query E (ms_get_node (sqlcipher_store F) u) w = (r1, w1)" by fastforce
  have st [simp]: "store w1 = store w" using touchesD(1) [OF touches_query [OF q]] .
  have "card (below (store w1) (uuid_hyphenated F u)) < fuel" using le_less_trans [OF below_size assms(2)] by simp
  from delete_subtree_ends [OF _ this, of E dir] assms(1) obtain r w'
    where d: "delete_subtree E (sqlcipher_store F) dir fuel u w1 = Some (r, w')" and p: "tree_pruned F {uuid_hyphenated F u} w1 w'"
      and ok: "r = Inr () \<longrightarrow> (\<exists>v t. tree_pruned F {uuid_hyphenated F u} w1 v \<and> delete_node F t u (store v) = Inr (store w'))" by auto
  have kept: "set (t_nodes (store w')) \<subseteq> set (t_nodes (store w))"
      "set (node_ids (store w)) - descendants (store w) (uuid_hyphenated F u) \<subseteq> set (node_ids (store w'))"
    using p by (auto simp: tree_pruned_def pruned_def node_ids_def)
  have gone: "r = Inr () \<Longrightarrow> set (node_ids (store w')) = set (node_ids (store w)) - descendants (store w) (uuid_hyphenated F u)"
    using ok subtree_gone [of F w1 u] assms(1) by auto
  show ?thesis
    using q d p kept gone assms(1) by (auto simp: delete_directory_def tree_pruned_def split: sum.splits)
qed

theorem delete_directory_total_witness:
  "\<exists>r w'. delete_directory (ex_env []) 4 5 (sqlcipher_store (ex_env [])) [''v''] (ex_vault\<lparr>store := ex_tree\<rparr>) = Some (r, w')"
proof -
  have "store_inv (ex_env []) (store (ex_vault\<lparr>store := ex_tree\<rparr>))" using ex_tree_inv ex_uuid_laws by (simp add: store_inv_def)
  moreover have "length (t_nodes (store (ex_vault\<lparr>store := ex_tree\<rparr>))) < 4" by (simp add: ex_tree_def)
  ultimately show ?thesis using delete_directory_total [of "ex_env []" "ex_vault\<lparr>store := ex_tree\<rparr>" 4 "ex_env []" 5 "[''v'']"] by blast
qed


section \<open>Orphaned blobs\<close>

definition orphan :: "env \<Rightarrow> string set \<Rightarrow> path \<Rightarrow> bool" where
  "orphan E known p \<longleftrightarrow> (\<exists>u. blob_uuid E p = Some u \<and> uuid_hyphenated E u \<notin> known)"

text \<open>Between \<open>w\<close> and \<open>w'\<close> nothing happened but the removal of files in \<open>P\<close>.\<close>

definition sweeps :: "path set \<Rightarrow> 's world \<Rightarrow> 's world \<Rightarrow> bool" where
  "sweeps P w w' \<longleftrightarrow> touches P w w' \<and> (\<forall>p. file_at w' p = file_at w p \<or> file_at w' p = None)"

lemma sweeps_trans: "sweeps P w w' \<Longrightarrow> sweeps Q w' w'' \<Longrightarrow> P \<subseteq> R \<Longrightarrow> Q \<subseteq> R \<Longrightarrow> sweeps R w w''"
  unfolding sweeps_def using touches_trans by metis

lemma sweeps_touches: "touches {} w w' \<Longrightarrow> sweeps P w w'"
  by (auto simp: sweeps_def touches_def)

lemma sweeps_mono: "sweeps P w w' \<Longrightarrow> P \<subseteq> R \<Longrightarrow> sweeps R w w'"
  using touches_mono [of P w w' R] by (simp add: sweeps_def)

lemma sweeps_read: "touches {} w w1 \<Longrightarrow> sweeps P w1 w' \<Longrightarrow> sweeps P w w'"
  using sweeps_trans [OF sweeps_touches _ subset_refl subset_refl] by blast

lemma sweeps_gone: "sweeps P w w' \<Longrightarrow> file_at w p = None \<Longrightarrow> file_at w' p = None"
  unfolding sweeps_def by metis

lemma sweeps_remove:
  assumes "fs_remove E p w = (r, w')"
  shows "sweeps {p} w w'" and "r = Inr x \<Longrightarrow> file_at w' p = None"
    and "r = Inl e \<Longrightarrow> io_error_kind e = KindNotFound \<Longrightarrow> file_at w' p = None"
  using touches_change(3) [OF assms] assms
  by (auto simp: sweeps_def fs_remove_def fs_effect_def delete_conv' split: option.splits if_splits)

lemma cleanup_entries_sweeps:
  assumes "cleanup_entries E dir known ps n w = (r, w')"
  shows "sweeps {p \<in> set ps. orphan E known p} w w' \<and>
     (\<forall>m. r = Inr m \<longrightarrow> (\<forall>p \<in> set ps. orphan E known p \<longrightarrow> file_at w' p = None))"
  using assms
proof (induction ps arbitrary: n w)
  case Nil
  then show ?case
    by (auto simp: bind_def next_entry_def with_err_def split: prod.splits sum.splits dest: touches_read(4) intro!: sweeps_touches)
next
  case (Cons p ps)
  let ?X = "\<lambda>ps. {p \<in> set ps. orphan E known p}"
  let ?post = "\<lambda>ps w. sweeps (?X ps) w w' \<and> (\<forall>m. r = Inr m \<longrightarrow> (\<forall>p \<in> set ps. orphan E known p \<longrightarrow> file_at w' p = None))"
  have step: "?post (p # ps) w" if "sweeps ({p} \<inter> ?X [p]) w w1" "orphan E known p \<Longrightarrow> file_at w1 p = None" "?post ps w1" for w1
  proof -
    have "sweeps (?X (p # ps)) w w'" by (rule sweeps_trans [OF that(1)]) (use that(3) in auto)
    moreover have "orphan E known p \<Longrightarrow> file_at w' p = None" using sweeps_gone that by blast
    ultimately show ?thesis using that(3) by auto
  qed
  obtain r1 w1 where ne: "next_entry E dir w = (r1, w1)" by fastforce
  then have t1: "touches {} w w1" by (auto simp: next_entry_def with_err_def split: prod.splits dest: touches_read(4))
  show ?case
  proof (cases r1)
    case (Inl e)
    then show ?thesis using Cons.prems ne sweeps_touches [OF t1] by (auto simp: bind_def)
  next
    case (Inr x)
    obtain r2 w2 where f: "with_err (io_at p) (fs_is_file E p) w1 = (r2, w2)" by fastforce
    then have t2: "touches {} w1 w2" by (auto simp: with_err_def split: prod.splits dest: touches_read(6))
    note t = sweeps_trans [OF sweeps_touches [OF t1] sweeps_touches [OF t2] subset_refl subset_refl]
    show ?thesis
    proof (cases r2)
      case (Inl e)
      then show ?thesis using Cons.prems ne Inr f t by (auto simp: bind_def)
    next
      case r2: (Inr is_file)
      have isf: "is_file = (file_at w2 p \<noteq> None)"
        using f r2 by (auto simp: with_err_def fs_is_file_def fs_effect_def split: option.splits)
      show ?thesis
      proof (cases "\<not> is_file \<or> \<not> orphan E known p")
        case True
        then have "cleanup_entries E dir known ps n w2 = (r, w')"
          using Cons.prems ne Inr f r2 by (auto simp: bind_def orphan_def split: option.splits if_splits)
        from Cons.IH [OF this] show ?thesis using True isf by (intro step [OF t]) auto
      next
        case False
        then obtain u where u: "blob_uuid E p = Some u" "uuid_hyphenated E u \<notin> known" by (auto simp: orphan_def)
        obtain r3 w3 where rm: "fs_remove E p w2 = (r3, w3)" by fastforce
        have s3: "sweeps ({p} \<inter> ?X [p]) w w3"
          by (rule sweeps_trans [OF t sweeps_remove(1) [OF rm] subset_refl]) (use False in auto)
        have prog: "(case r3 of Inr _ \<Rightarrow> cleanup_entries E dir known ps (n + 1)
              | Inl error \<Rightarrow> if io_error_kind error = KindNotFound then cleanup_entries E dir known ps n
                  else fail (io_at p error)) w3 = (r, w')"
          using Cons.prems ne Inr f r2 rm False u by (simp add: bind_def attempt_def cong del: sum.case_cong_weak)
        show ?thesis
        proof (cases r3)
          case (Inr y)
          with prog have "cleanup_entries E dir known ps (n + 1) w3 = (r, w')" by simp
          from Cons.IH [OF this] sweeps_remove(2) [OF rm Inr] show ?thesis by (intro step [OF s3]) auto
        next
          case (Inl e)
          show ?thesis
          proof (cases "io_error_kind e = KindNotFound")
            case True
            with prog Inl have "cleanup_entries E dir known ps n w3 = (r, w')" by simp
            from Cons.IH [OF this] sweeps_remove(3) [OF rm Inl True] show ?thesis by (intro step [OF s3]) auto
          next
            case nf: False
            have "sweeps (?X (p # ps)) w w3"
              by (rule sweeps_mono [OF s3]) auto
            then show ?thesis using prog Inl nf by auto
          qed
        qed
      qed
    qed
  qed
qed

lemma cleanup_dir_sweeps:
  assumes "cleanup_orphaned_blobs_in_dir E dir known w = (r, w')"
  shows "sweeps {p. parent_dir p = dir \<and> orphan E known p} w w' \<and>
     (\<forall>m. r = Inr m \<longrightarrow> (\<forall>p. parent_dir p = dir \<and> p \<noteq> [] \<and> orphan E known p \<longrightarrow> file_at w' p = None))"
proof -
  obtain r1 w1 where rd: "fs_read_dir E dir w = (r1, w1)" by fastforce
  note t1 = touches_read(7) [OF rd]
  show ?thesis
  proof (cases r1)
    case (Inl e)
    then show ?thesis
      using assms rd sweeps_touches [OF t1] by (auto simp: cleanup_orphaned_blobs_in_dir_def bind_def with_err_def)
  next
    case (Inr ps)
    then have ce: "cleanup_entries E dir known ps 0 w1 = (r, w')"
      using assms rd by (simp add: cleanup_orphaned_blobs_in_dir_def bind_def with_err_def)
    have ps: "ps = filter (\<lambda>q. q \<noteq> [] \<and> parent_dir q = dir) (map fst (files w1) @ dirs w1)"
      using rd Inr by (auto simp: fs_read_dir_def fs_effect_def split: option.splits if_splits)
    note c = cleanup_entries_sweeps [OF ce]
    have "file_at w' p = None" if "parent_dir p = dir" "p \<noteq> []" "orphan E known p" "r = Inr m" for p m
    proof (cases "p \<in> set ps")
      case True
      then show ?thesis using c that by blast
    next
      case False
      then have "file_at w1 p = None" using that ps by (auto simp: map_of_eq_None_iff)
      then show ?thesis using sweeps_gone c by blast
    qed
    moreover have "sweeps {p. parent_dir p = dir \<and> orphan E known p} w w'"
      by (rule sweeps_mono [OF sweeps_read [OF t1 conjunct1 [OF c]]]) (auto simp: ps)
    ultimately show ?thesis by blast
  qed
qed

lemma cleanup_subdirs_sweeps:
  assumes "cleanup_subdirs E root known subs n w = (r, w')"
  shows "sweeps {p. (\<exists>s \<in> set subs. parent_dir p = root @ [s]) \<and> orphan E known p} w w' \<and>
     (\<forall>m. r = Inr m \<longrightarrow> (\<forall>p. (\<exists>s \<in> set subs. parent_dir p = root @ [s]) \<and> parent_dir p \<in> set (dirs w) \<and> orphan E known p \<longrightarrow>
        file_at w' p = None))"
  using assms
proof (induction subs arbitrary: n w)
  case Nil
  then show ?case by (auto simp: sweeps_touches)
next
  case (Cons s subs)
  let ?dir = "root @ [s]"
  let ?X = "\<lambda>subs. {p. (\<exists>s \<in> set subs. parent_dir p = root @ [s]) \<and> orphan E known p}"
  obtain r1 w1 where ex: "with_err (io_at ?dir) (fs_exists E ?dir) w = (r1, w1)" by fastforce
  then have t1: "touches {} w w1" by (auto simp: with_err_def split: prod.splits dest: touches_read(3))
  have d1: "dirs w1 = dirs w" using touchesD(2) [OF t1] .
  show ?case
  proof (cases r1)
    case (Inl e)
    then show ?thesis using Cons.prems ex sweeps_touches [OF t1] by (auto simp: bind_def Let_def)
  next
    case (Inr there)
    show ?thesis
    proof (cases there)
      case False
      then have cs: "cleanup_subdirs E root known subs n w1 = (r, w')" using Cons.prems ex Inr by (simp add: bind_def Let_def)
      have "?dir \<notin> set (dirs w)"
        using ex Inr False by (auto simp: with_err_def fs_exists_def fs_effect_def split: option.splits prod.splits)
      moreover have "sweeps (?X (s # subs)) w w'"
        by (rule sweeps_mono [OF sweeps_read [OF t1 conjunct1 [OF Cons.IH [OF cs]]]]) auto
      ultimately show ?thesis using Cons.IH [OF cs] d1 by auto
    next
      case True
      obtain r2 w2 where cd: "cleanup_orphaned_blobs_in_dir E ?dir known w1 = (r2, w2)" by fastforce
      note c = cleanup_dir_sweeps [OF cd]
      have s2: "sweeps (?X (s # subs)) w w2"
        by (rule sweeps_mono [OF sweeps_read [OF t1 conjunct1 [OF c]]]) auto
      show ?thesis
      proof (cases r2)
        case (Inl e)
        then show ?thesis using Cons.prems ex Inr True cd s2 by (auto simp: bind_def Let_def)
      next
        case r2: (Inr m)
        then have cs: "cleanup_subdirs E root known subs (n + m) w2 = (r, w')"
          using Cons.prems ex Inr True cd by (simp add: bind_def Let_def)
        have "dirs w2 = dirs w" using s2 touchesD(2) unfolding sweeps_def by blast
        moreover have "sweeps (?X (s # subs)) w w'"
          by (rule sweeps_trans [OF s2 conjunct1 [OF Cons.IH [OF cs]] subset_refl]) auto
        moreover have "file_at w' p = None" if "parent_dir p = ?dir" "orphan E known p" for p
          using c r2 that sweeps_gone [OF conjunct1 [OF Cons.IH [OF cs]]] by (cases "p = []") (auto simp: parent_dir_def)
        ultimately show ?thesis using Cons.IH [OF cs] by auto
      qed
    qed
  qed
qed

text \<open>
  (C23) Orphan cleanup never removes a live blob and misses no dead one.  Whatever fails on the way, the manifest is unchanged, and the only
  files gone are blobs in \<open>pending\<close> or \<open>cache\<close> whose UUID no chunk and no epoch blob of the manifest names; when the call succeeds,
  no such blob is left.  A name counts as a UUID when it parses as one of version 4 in any spelling, and the names of
  epoch blobs count as live: both are what the code does, against its design document and comment.
\<close>

theorem orphan_cleanup_exact:
  assumes "cleanup_orphaned_blobs E root w = (r, w')" "list_all_blob_names (store w) = Inr live"
  shows "store w' = store w \<and>
     (\<forall>p. file_at w' p = file_at w p \<or>
        file_at w' p = None \<and> parent_dir p \<in> {root @ [''pending''], root @ [''cache'']} \<and> orphan E live p) \<and>
     (\<forall>n p. r = Inr n \<longrightarrow> parent_dir p \<in> {root @ [''pending''], root @ [''cache'']} \<inter> set (dirs w) \<longrightarrow> orphan E live p \<longrightarrow>
        file_at w' p = None)"
proof -
  obtain r1 w1 where q: "query E list_all_blob_names w = (r1, w1)" by fastforce
  note t1 = touches_query [OF q]
  show ?thesis
  proof (cases r1)
    case (Inl e)
    then show ?thesis using assms(1) q t1 by (auto simp: cleanup_orphaned_blobs_def bind_def touches_def)
  next
    case (Inr known)
    then have "known = live" using q assms(2) by (auto simp: query_def split: option.splits)
    then have cs: "cleanup_subdirs E root live [''pending'', ''cache''] 0 w1 = (r, w')"
      using assms(1) q Inr by (simp add: cleanup_orphaned_blobs_def bind_def)
    note c = cleanup_subdirs_sweeps [OF cs]
    have t: "touches {p. parent_dir p \<in> {root @ [''pending''], root @ [''cache'']} \<and> orphan E live p} w w'"
      using sweeps_read [OF t1 conjunct1 [OF c]] by (auto simp: sweeps_def elim!: touches_mono)
    have "file_at w' p = file_at w p \<or> file_at w' p = None" for p
      using sweeps_read [OF t1 conjunct1 [OF c]] by (simp add: sweeps_def)
    moreover have "dirs w1 = dirs w" using touchesD(2) [OF t1] .
    ultimately show ?thesis using c t touchesD(1) [OF t] touchesD(4) [OF t] by auto
  qed
qed

text \<open>A vault with one blob in use and one orphan beside it.\<close>

definition ex_littered :: "db world" where
  "ex_littered = ex_flushed\<lparr>files := ([''v'', ''pending'', ''9.blob''], [1]) # files ex_flushed\<rparr>"

lemma ex_blob_uuid:
  "blob_uuid (ex_env []) [''v'', ''pending'', ''9.blob''] = Some 9"
  "blob_uuid (ex_env []) [''v'', ''pending'', ''190.blob''] = Some 190"
  "uuid_hyphenated (ex_env []) 9 = ''9''" "uuid_hyphenated (ex_env []) 190 = ''190''"
proof -
  have "split_ext ''9.blob'' = (''9'', Some ''blob'')" "split_ext ''190.blob'' = (''190'', Some ''blob'')"
      "parse_digits 0 ''9'' = Some 9" "parse_digits 0 ''190'' = Some 190" "show_nat 9 = ''9''" "show_nat 190 = ''190''"
    by code_simp+
  then show "blob_uuid (ex_env []) [''v'', ''pending'', ''9.blob''] = Some 9"
      "blob_uuid (ex_env []) [''v'', ''pending'', ''190.blob''] = Some 190"
      "uuid_hyphenated (ex_env []) 9 = ''9''" "uuid_hyphenated (ex_env []) 190 = ''190''"
    by (simp_all add: blob_uuid_def ex_uuid_text)
qed

lemma ex_littered_live: "list_all_blob_names (store ex_littered) = Inr {''190''}"
  by (simp add: list_all_blob_names_def ex_littered_def ex_flushed_def map_filter_simps extent_row_def epoch_row_def ex_epoch_def ex_blob_uuid)

lemma ex_cleanup: "\<exists>n w'. cleanup_orphaned_blobs (ex_env []) [''v''] ex_littered = (Inr n, w')"
  using ex_littered_live
  by (simp add: cleanup_orphaned_blobs_def run_simps cleanup_orphaned_blobs_in_dir_def next_entry_def ex_blob_uuid ex_littered_def ex_flushed_def fs_read_dir_def fs_is_file_def
    ex_buffered_def ex_vault_def cong del: option.case_cong_weak)

theorem orphan_cleanup_exact_witness:
  "\<exists>n w'. cleanup_orphaned_blobs (ex_env []) [''v''] ex_littered = (Inr n, w') \<and> file_at w' [''v'', ''pending'', ''9.blob''] = None"
proof -
  obtain n w' where c: "cleanup_orphaned_blobs (ex_env []) [''v''] ex_littered = (Inr n, w')" using ex_cleanup by blast
  have "orphan (ex_env []) {''190''} [''v'', ''pending'', ''9.blob'']" by (simp add: orphan_def ex_blob_uuid)
  moreover have "[''v'', ''pending''] \<in> set (dirs ex_littered)"
    by (simp add: ex_littered_def ex_flushed_def ex_buffered_def ex_vault_def)
  ultimately show ?thesis using orphan_cleanup_exact [OF c ex_littered_live] c by (auto simp: parent_dir_def)
qed

end
