(* ===== verification/Vault_Failures.thy ===== *)
theory Vault_Failures
  imports Example_Vault
begin

text \<open>
  What happens when an operation fails, and where the code falls short of what it means to do: failed uploads,
  interrupted flushes, short reads of the file header, and temporary files left behind.
\<close>

section \<open>Failed uploads\<close>

text \<open>
  (C20) A failed upload changes nothing: whichever I/O calls fail, and however many, when \<open>upload_file\<close> returns an
  error the store is what it was, and the only files that may differ are blobs that this very call named.
\<close>

theorem failed_upload_harmless:
  assumes "upload_file E pr source n parent name ct mt MS kek sd w = (Inl e, w')" "blake3_laws E"
  shows "store w' = store w \<and> dirs w' = dirs w \<and>
     (\<forall>p. file_at w' p \<noteq> file_at w p \<longrightarrow>
        (\<exists>t. tick w \<le> t \<and> t < tick w' \<and> p = blob_file sd (uuid_hyphenated E (draw_uuid E t 0))))"
proof -
  have t: "touches (blob_file sd ` names E (tick w) (tick w')) w w'"
    using upload_file_fails [OF assms] by (simp add: fresh_only_def)
  have "\<exists>t. tick w \<le> t \<and> t < tick w' \<and> p = blob_file sd (uuid_hyphenated E (draw_uuid E t 0))" if "file_at w' p \<noteq> file_at w p" for p
  proof -
    have "p \<in> blob_file sd ` names E (tick w) (tick w')" using touchesD(4) [OF t, of p] that by blast
    then show ?thesis by (auto simp: names_def)
  qed
  then show ?thesis using touchesD(1,2) [OF t] by blast
qed

lemma ex_base_meta: "map_of (t_meta ex_base) ''epoch_buffer_enabled'' = Some ''true''"
  by (simp add: ex_base_def)

lemma ex_upload_fails:
  "\<exists>e w'. upload_file (ex_faulty [7]) False [''src''] 7 None ''n'' 0 0 (sqlcipher_store (ex_env [])) ex_key [''v'', ''pending''] ex_vault = (Inl e, w')"
  by (simp add: upload_file_def run_simps ex_read_size decide_def upload_epoch_def strip_exif_if_image_def is_image_magic_def is_jpeg_def
      is_png_def PNG_SIGNATURE_def wrap_file_key_def generate_nonce_def two read_epoch_buffer_enabled_def sqlcipher_get_meta db_meta_def
      ex_base_meta)

theorem failed_upload_harmless_witness:
  "\<exists>e w'. upload_file (ex_faulty [7]) False [''src''] 7 None ''n'' 0 0 (sqlcipher_store (ex_env [])) ex_key [''v'', ''pending''] ex_vault = (Inl e, w') \<and>
     store w' = ex_base"
proof -
  obtain e w' where u: "upload_file (ex_faulty [7]) False [''src''] 7 None ''n'' 0 0 (sqlcipher_store (ex_env [])) ex_key [''v'', ''pending''] ex_vault = (Inl e, w')"
    using ex_upload_fails by blast
  have "blake3_laws (ex_faulty [7])" using ex_blake3_laws [of "[]"] by (simp add: blake3_laws_def ex_faulty_def)
  from failed_upload_harmless [OF u this] u show ?thesis by simp
qed


section \<open>An interrupted flush\<close>

text \<open>Programs that do not change the store, and programs that do not change it when they fail.\<close>

definition reads_store :: "('s, 'e, 'a) prog \<Rightarrow> bool" where
  "reads_store m \<longleftrightarrow> (\<forall>w r w'. m w = (r, w') \<longrightarrow> store w' = store w)"

definition fails_clean :: "('s, 'e, 'a) prog \<Rightarrow> bool" where
  "fails_clean m \<longleftrightarrow> (\<forall>w e w'. m w = (Inl e, w') \<longrightarrow> store w' = store w)"

named_theorems clean_progs

lemma fails_cleanD: "fails_clean m \<Longrightarrow> m w = (Inl e, w') \<Longrightarrow> store w' = store w"
  by (simp add: fails_clean_def)

lemma fails_clean_bind [clean_progs]: "reads_store m \<Longrightarrow> (\<And>a. fails_clean (f a)) \<Longrightarrow> fails_clean (bind m f)"
  unfolding fails_clean_def reads_store_def bind_Inl by metis

lemma fails_clean_mutate [clean_progs]: "fails_clean (mutate E f)"
  using mutate_Inl by (fastforce simp: fails_clean_def)

lemma reads_store_basic [clean_progs]:
  "reads_store (lift r)" "reads_store (draw f)" "reads_store (generate_file_key E)" "reads_store (wrap_file_key E fk n kek)"
  "reads_store (encrypt_chunk E p fk n i)" "reads_store (fs_write E q b)"
  by (auto simp: reads_store_def lift_def draw_def generate_file_key_def dest!: wrap_file_key_world encrypt_chunk_world touches_change(1) touchesD(1))

lemma reads_store_with_err [clean_progs]: "reads_store m \<Longrightarrow> reads_store (with_err f m)"
  by (auto simp: reads_store_def with_err_def split: prod.splits)

lemma flush_one_blob_clean: "fails_clean (flush_one_blob E es kek sd cs MS)"
  unfolding flush_one_blob_def Let_def by (cases "pack_entries es [] []") (simp, intro clean_progs)

lemma flush_and_report_Inl:
  assumes "flush_and_report E pr es kek sd cs MS fb tb w = (Inl e, w')"
  shows "store w' = store w"
proof (rule fails_cleanD [OF flush_one_blob_clean])
  show "flush_one_blob E es kek sd cs MS w = (Inl e, w')"
    using assms by (auto simp: flush_and_report_def Let_def bind_Inl progress_if_eq)
qed

text \<open>
  (C21) A flush that is interrupted between two epoch blobs loses data.  Two entries wait in the buffer and do not fit
  into one blob; the flush commits the blob of the first and then fails.  Since the commit of one blob deletes all rows of the
  buffer, the second entry is afterwards in no table: it has no chunk and is no longer buffered.
\<close>

theorem interrupted_flush_loses_entry:
  assumes "flush_epoch_buffer E pr (sqlcipher_store F) kek sd cs w = (Inl e, w')" "store_inv F (store w)"
    and "db_buffer F (store w) = [b1, b2]" "cs < ee_size_bytes b1 + ee_size_bytes b2"
    and "pending_entries (db_chunks F (store w)) (map entry_pair [b1, b2])" "store w' \<noteq> store w"
    and "aead_laws E" "blake3_laws E" "uuid_laws E" "length kek = 32" "cs \<le> 67108864"
  shows "db_buffer F (store w') = [] \<and> db_chunks F (store w') (ee_node_id b2) = [] \<and>
     db_node F (store w') = db_node F (store w)"
proof -
  let ?MS = "sqlcipher_store F"
  let ?tb = "ee_size_bytes b1 + ee_size_bytes b2"
  have ok: "os_fault E (tick w) = None"
    using assms(1,6) by (auto simp: flush_epoch_buffer_def bind_def query_def split: option.splits)
  have q: "query E (get_epoch_buffer_entries F) w = (Inr [b1, b2], next_tick w)"
    using sq.get_buffer_entries [OF assms(2)] assms(3) by (simp add: query_ok [OF ok])
  have loop: "bind (flush_and_report E pr [entry_pair b1] kek sd cs ?MS 0 ?tb)
      (flush_loop E pr kek sd cs ?MS ?tb [] [entry_pair b2] (ee_size_bytes b2)) (next_tick w) = (Inl e, w')"
    using assms(1,4) by (simp add: flush_epoch_buffer_def bind_def [of "query _ _"] q)
  obtain r1 w1 where r1: "flush_and_report E pr [entry_pair b1] kek sd cs ?MS 0 ?tb (next_tick w) = (r1, w1)" by fastforce
  show ?thesis
  proof (cases r1)
    case (Inl x)
    then have "w' = w1" using loop r1 by (simp add: bind_def)
    then show ?thesis using flush_and_report_Inl r1 Inl assms(6) by fastforce
  next
    case (Inr fb)
    then have r2: "flush_and_report E pr [entry_pair b2] kek sd cs ?MS fb ?tb w1 = (Inl e, w')"
      using loop r1 by (auto simp: bind_def split: prod.splits sum.splits)
    have "pending_entries (db_chunks F (store (next_tick w))) [entry_pair b1]"
      using assms(5) by (simp add: pending_entries_def)
    from sq.flush_and_report_Inr [OF r1 [unfolded Inr] _ _ assms(7-11) this] assms(2)
    have fl: "sq.flushed F E kek sd [entry_pair b1] (next_tick w) w1" by simp
    have "ee_node_id b2 \<notin> fst ` set [entry_pair b1]" "db_chunks F (store w) (ee_node_id b2) = []"
      using assms(5) by (auto simp: pending_entries_def)
    then show ?thesis using fl flush_and_report_Inl [OF r2] by (simp add: sq.flushed_def)
  qed
qed

text \<open>Two files, of 131072 bytes and of one byte, in the buffer.\<close>

definition ex_big :: bytes where
  "ex_big = replicate 131072 0"

definition ex_node_of :: "uuid \<Rightarrow> bytes \<Rightarrow> node" where
  "ex_node_of n bs = node_new n None File ''n'' 0 0 (length bs) (Some (replicate 72 0))"

definition ex_entry_row :: "nat \<Rightarrow> uuid \<Rightarrow> bytes \<Rightarrow> buffer_row" where
  "ex_entry_row t n bs = \<lparr>br_entry_id = uuid_hyphenated (ex_env []) (of_nat (100 + 10 * t)), br_node_id = uuid_hyphenated (ex_env []) n,
     br_plaintext = bs, br_size_bytes = int (length bs), br_queued_at = int t\<rparr>"

definition ex_one :: db where
  "ex_one = ex_base\<lparr>t_nodes := [node_row_of (ex_env []) (ex_node_of 5 ex_big) 131072], t_epoch_buffer := [ex_entry_row 0 5 ex_big]\<rparr>"

definition ex_two :: db where
  "ex_two = ex_base\<lparr>t_nodes := [node_row_of (ex_env []) (ex_node_of 5 ex_big) 131072, node_row_of (ex_env []) (ex_node_of 6 [1]) 1],
     t_epoch_buffer := [ex_entry_row 0 5 ex_big, ex_entry_row 1 6 [1]]\<rparr>"

lemma ex_big_len [simp]: "length ex_big = 131072"
  by (simp add: ex_big_def)

lemma ex_entry_ids: "uuid_hyphenated (ex_env []) 100 \<noteq> uuid_hyphenated (ex_env []) 110"
  by (simp add: uuid_hyphenated_inj [OF ex_uuid_laws])

lemma ex_two_built:
  "insert_file_node_and_stage_epoch_entry (ex_env []) 0 (ex_node_of 5 ex_big) ex_big ex_base = Inr ex_one"
  "insert_file_node_and_stage_epoch_entry (ex_env []) 1 (ex_node_of 6 [1]) [1] ex_one = Inr ex_two"
  using ex_entry_ids by (simp_all add: db_simps ex_node_of_def ex_one_def ex_two_def ex_entry_row_def)

lemma ex_two_inv: "store_inv (ex_env []) ex_two"
proof -
  have t: "typed_node (ex_node_of 5 ex_big)" "typed_node (ex_node_of 6 [1])" by (simp_all add: ex_node_of_def node_new_def typed_node_def)
  have "store_inv (ex_env []) ex_one" using sqlcipher_insert_staged [OF ex_store_inv t(1) ex_two_built(1)] by blast
  then show ?thesis using sqlcipher_insert_staged [OF _ t(2) ex_two_built(2)] by blast
qed

definition ex_entry :: "nat \<Rightarrow> uuid \<Rightarrow> bytes \<Rightarrow> epoch_buffer_entry" where
  "ex_entry t n bs = \<lparr>ee_entry_id = of_nat (100 + 10 * t), ee_node_id = n, ee_plaintext = bs, ee_size_bytes = length bs\<rparr>"

lemma ex_two_buffer: "db_buffer (ex_env []) ex_two = [ex_entry 0 5 ex_big, ex_entry 1 6 [1]]"
  by (simp add: db_buffer_def get_epoch_buffer_entries_def ex_two_def ex_entry_row_def read_buffer_row_def ex_entry_def width_simps
      uuid_lawsD [OF ex_uuid_laws])

lemma ex_two_chunks: "db_chunks (ex_env []) ex_two n = []"
  using db_chunks_rows [OF store_invD(2) [OF ex_two_inv], of n] by (simp add: ex_two_def ex_base_def empty_db_def)

definition ex_pair :: "db world" where
  "ex_pair = ex_vault\<lparr>store := ex_two\<rparr>"

definition ex_committed :: "epoch_blob_record \<Rightarrow> db" where
  "ex_committed rec = projr (commit_epoch_flush (ex_env []) 6 rec [(5, 0, 0, 131072)] ex_two)"

lemma ex_commits:
  assumes "eb_size_padded rec = 131112"
  shows "commit_epoch_flush (ex_env []) 6 rec [(5, 0, 0, 131072)] ex_two = Inr (ex_committed rec)" and "ex_committed rec \<noteq> ex_two"
  using assms by (simp_all add: ex_committed_def commit_epoch_flush_def insert_epoch_blob_with_extents_def i64_or_err_def i64_try_from_def
      sql_insert_epoch_blob_def insert_extent_def sql_insert_chunk_def ex_two_def epoch_row_def result_simps node_ids_def node_row_of_def
      ex_node_of_def node_new_def chunk_check_def ex_base_def empty_db_def map_filter_simps)

lemma ex_interrupted:
  "\<exists>e w'. flush_epoch_buffer (ex_faulty [11]) False (sqlcipher_store (ex_env [])) ex_key [''v'', ''pending''] 131072 ex_pair = (Inl e, w') \<and> store w' \<noteq> ex_two"
proof -
  have "get_epoch_buffer_entries (ex_env []) ex_two = Inr [ex_entry 0 5 ex_big, ex_entry 1 6 [1]]"
    by (simp add: get_epoch_buffer_entries_def ex_two_def ex_entry_row_def read_buffer_row_def ex_entry_def width_simps
        uuid_lawsD [OF ex_uuid_laws])
  then show ?thesis
    by (simp add: flush_epoch_buffer_def flush_and_report_def flush_one_blob_def run_simps wrap_file_key_def generate_nonce_def
        generate_file_key_def width_simps two length_zero_pad ex_tag_len ex_pair_def ex_entry_def ex_commits)
qed

theorem interrupted_flush_loses_entry_witness:
  "\<exists>e w'. flush_epoch_buffer (ex_faulty [11]) False (sqlcipher_store (ex_env [])) ex_key [''v'', ''pending''] 131072 ex_pair = (Inl e, w') \<and>
     db_buffer (ex_env []) (store w') = [] \<and> db_chunks (ex_env []) (store w') 6 = []"
proof -
  obtain e w' where f: "flush_epoch_buffer (ex_faulty [11]) False (sqlcipher_store (ex_env [])) ex_key [''v'', ''pending''] 131072 ex_pair = (Inl e, w')"
    and ne: "store w' \<noteq> store ex_pair" using ex_interrupted by (auto simp: ex_pair_def)
  have "pending_entries (db_chunks (ex_env []) (store ex_pair)) (map entry_pair [ex_entry 0 5 ex_big, ex_entry 1 6 [1]])"
    by (simp add: pending_entries_def ex_pair_def ex_two_chunks ex_entry_def)
  moreover have "aead_laws (ex_faulty [11])" "blake3_laws (ex_faulty [11])" "uuid_laws (ex_faulty [11])"
    using ex_aead_laws [of "[]"] ex_blake3_laws [of "[]"] ex_uuid_laws [of "[]"]
    by (simp_all add: aead_laws_def blake3_laws_def uuid_laws_def ex_faulty_def)
  ultimately show ?thesis
    using interrupted_flush_loses_entry [OF f, of "ex_entry 0 5 ex_big" "ex_entry 1 6 [1]"] f ne ex_two_inv ex_two_buffer ex_key_len
    by (auto simp: ex_pair_def ex_entry_def)
qed


section \<open>A short read of the header\<close>

lemma short_magic:
  assumes "is_image_magic bs"
  shows "\<not> is_image_magic (zero_pad 8 (take (Suc 0) bs))"
proof -
  obtain b r where "bs = b # r" using assms by (cases bs) (simp_all add: is_image_magic_def is_jpeg_def is_png_def PNG_SIGNATURE_def)
  moreover have "replicate 7 0 = [0, 0, 0, 0, 0, 0, 0 :: byte]" by (simp add: eval_nat_numeral)
  ultimately show ?thesis by (simp add: zero_pad_def is_image_magic_def is_jpeg_def is_png_def PNG_SIGNATURE_def)
qed

text \<open>
  The image check of \<open>encrypt_file\<close> relies on one \<open>read\<close> call delivering the first eight bytes.  When that call
  returns a single byte, which \<open>read\<close> may do, a JPEG or PNG is not recognised: the encryption succeeds and the
  stored contents are the unchanged source, image metadata included.
\<close>

theorem short_header_read_keeps_metadata:
  assumes "no_faults E" "aead_laws E" "aead_total E" "uuid_laws E" "length key = 32" "chunk_size_is MS (store w) cs"
    and "dir \<in> set (dirs w)" "file_at w source = Some bs" "addressable bs" "is_image_magic bs" "read_len E (Suc (tick w)) = 1"
  shows "\<exists>rs w'. encrypt_file E pr source fid key MS dir w = (Inr rs, w') \<and>
     (fresh_draws E (tick w) (tick w') \<longrightarrow> file_stored E (blobs_in w' dir) key fid cs bs rs)"
proof -
  obtain rs w' where e: "encrypt_file E pr source fid key MS dir w = (Inr rs, w')"
    using encrypt_file_ok [OF assms(1-3,5-7,9,8)] by blast
  let ?w2 = "next_tick (next_tick w)"
  have m: "read_magic_bytes E source w = (Inr (zero_pad 8 (take (Suc 0) bs)), ?w2)"
    using assms(1,8,11) by (simp add: read_magic_bytes_def bind_def fs_read_def reader_read_def fs_effect_def with_err_def Let_def ret_def)
  obtain x v where i: "encrypt_file_inner E pr source fid key MS dir ?w2 = (x, v)" by fastforce
  have "x = Inr rs \<and> v = w'"
    using e short_magic [OF assms(10)] i
    by (cases x) (auto simp: encrypt_file_def bind_def m attempt_def ret_def fail_def split: prod.splits sum.splits)
  then have i: "encrypt_file_inner E pr source fid key MS dir ?w2 = (Inr rs, w')" using i by simp
  have "chunk_size_is MS (store ?w2) cs" "file_at ?w2 source = Some bs" using assms(6,8) by simp_all
  from encrypt_file_inner_Inr(2) [OF i assms(2,4,5) this] encrypt_file_distinct [OF e assms(4)] e show ?thesis by blast
qed

theorem short_header_read_keeps_metadata_witness:
  "\<exists>rs w'. encrypt_file ((ex_env [])\<lparr>read_len := \<lambda>_. 1\<rparr>) False [''jpg''] 7 ex_key (sqlcipher_store (ex_env [])) [''v'', ''pending'']
       (ex_vault\<lparr>files := [([''jpg''], [0xFF, 0xD8, 0xFF, 0xE1, 0, 4, 9, 9, 0xFF, 0xD9])]\<rparr>) = (Inr rs, w') \<and>
     (fresh_draws ((ex_env [])\<lparr>read_len := \<lambda>_. 1\<rparr>) 0 (tick w') \<longrightarrow>
        file_stored ((ex_env [])\<lparr>read_len := \<lambda>_. 1\<rparr>) (blobs_in w' [''v'', ''pending'']) ex_key 7 131072
          [0xFF, 0xD8, 0xFF, 0xE1, 0, 4, 9, 9, 0xFF, 0xD9] rs)"
proof -
  let ?E = "(ex_env [])\<lparr>read_len := \<lambda>_. 1\<rparr>"
  let ?w = "ex_vault\<lparr>files := [([''jpg''], [0xFF, 0xD8, 0xFF, 0xE1, 0, 4, 9, 9, 0xFF, 0xD9])]\<rparr>"
  have "no_faults ?E" "aead_laws ?E" "aead_total ?E" "uuid_laws ?E"
    using ex_aead_laws [of "[]"] ex_aead_total [of "[]"] ex_uuid_laws [of "[]"]
    by (simp_all add: no_faults_def aead_laws_def aead_total_def uuid_laws_def)
  from short_header_read_keeps_metadata [OF this ex_key_len, where w = ?w and MS = "sqlcipher_store (ex_env [])" and cs = 131072
      and dir = "[''v'', ''pending'']" and source = "[''jpg'']" and pr = False and fid = 7]
  show ?thesis by (simp add: ex_chunk_size addressable_def is_image_magic_def is_jpeg_def)
qed


section \<open>A temporary file left behind\<close>

text \<open>
  Unlike \<open>decrypt_file\<close>, \<open>decrypt_epoch_file\<close> does not remove its temporary file when writing to it fails: after a
  write that stops after \<open>k\<close> bytes, the call reports the error and the first \<open>k\<close> bytes of the decrypted file remain
  next to the destination.
\<close>

theorem epoch_temp_file_remains:
  assumes "decrypt_epoch_blob_to_slice E c kek dir MS w = (Inr (decrypted, start, stop), w1)" "ck_byte_length c = Some n"
    and "parent_dir dest \<in> set (dirs w1)" "os_fault E (Suc (tick w1)) = None" "os_fault E (Suc (Suc (tick w1))) = Some (m, Some k)"
  shows "\<exists>w'. decrypt_epoch_file E pr dest c kek dir MS w = (Inl (Io m), w') \<and>
     file_at w' (tmp_path E dest (tick w1)) = Some (take k (drop start (take stop decrypted)))"
proof -
  have t: "temporary_destination_path E dest w1 = (Inr (tmp_path E dest (tick w1)), next_tick w1)" by (rule temporary_destination_path_eq)
  show ?thesis
    using assms(2-5) by (simp add: decrypt_epoch_file_def bind_def lift_def assms(1) t with_err_def fs_write_def fs_append_def Let_def
        update_conv')
qed

definition ex_torn :: env where
  "ex_torn = (ex_env [])\<lparr>os_fault := (\<lambda>n. if n = 20 then Some (''disk full'', Some 2) else None)\<rparr>"

definition ex_extent :: chunk_record where
  "ex_extent = \<lparr>ck_chunk_id = 240, ck_node_id = 7, ck_chunk_index = 0, ck_blob_name = uuid_hyphenated (ex_env []) 190,
     ck_size_padded = 131112, ck_blake3_checksum = compute_checksum (ex_env []) ex_packed, ck_epoch_blob_id = Some 190,
     ck_byte_offset = Some 0, ck_byte_length = Some 3\<rparr>"

lemma ex_torn_sel [simp]:
  "os_fault ex_torn n = (if n = 20 then Some (''disk full'', Some 2) else None)"
  "uuid_hyphenated ex_torn = uuid_hyphenated (ex_env [])"
  "compute_checksum ex_torn = compute_checksum (ex_env [])" "decrypt_chunk ex_torn = decrypt_chunk (ex_env [])"
  "unwrap_file_key ex_torn = unwrap_file_key (ex_env [])"
  by (simp_all add: fun_eq_iff ex_torn_def compute_checksum_def decrypt_chunk_def build_chunk_aad_def unwrap_file_key_def Let_def)

lemma ex_epoch_read: "get_epoch_blob (ex_env []) 190 (store ex_flushed) = Inr ex_epoch"
  by (simp add: get_epoch_blob_def find_epoch_blob_def ex_flushed_def epoch_row_def ex_epoch_def read_epoch_blob_def
      uuid_lawsD [OF ex_uuid_laws] width_simps compute_checksum_def)

lemma ex_epoch_keys:
  "unwrap_file_key (ex_env []) (eb_file_key_wrapped ex_epoch) 190 ex_key = Inr ex_key" "length (eb_file_key_wrapped ex_epoch) = WRAPPED_LEN"
  "decrypt_chunk (ex_env []) (VerifiedBlob ex_packed) ex_key 190 0 = Inr (zero_pad 131072 [1, 2, 3])"
  by (simp_all add: ex_epoch_def ex_packed_def unwrap_file_key_def crypto_lens ex_tag_len ex_key_len decrypt_chunk_layout)

lemma ex_slice:
  "\<exists>w1. decrypt_epoch_blob_to_slice ex_torn ex_extent ex_key [''v''] (sqlcipher_store (ex_env [])) ex_flushed
      = (Inr (zero_pad 131072 [1, 2, 3], 0, 3), w1) \<and> tick w1 = 18 \<and> dirs w1 = [[], [''v''], [''v'', ''pending'']]"
proof -
  have sel: "files ex_flushed = [([''src''], [1, 2, 3]), ([''v'', ''pending'', uuid_hyphenated (ex_env []) 190 @ ''.blob''], ex_packed)]"
    "dirs ex_flushed = [[], [''v''], [''v'', ''pending'']]" "tick ex_flushed = 15"
    by (simp_all add: ex_flushed_def)
  have v: "verify_checksum ex_torn ex_packed (eb_blake3_checksum ex_epoch) = Inr (VerifiedBlob ex_packed)"
    using verify_checksum_ok [of ex_torn ex_packed] by (simp add: ex_epoch_def)
  have ids: "eb_epoch_blob_id ex_epoch = 190" "eb_blob_name ex_epoch = uuid_hyphenated (ex_env []) 190" by (simp_all add: ex_epoch_def)
  show ?thesis
    by (simp add: decrypt_epoch_blob_to_slice_def ex_extent_def run_simps sel ex_epoch_read ids resolve_blob_path_def exists_or_false_def v
        ex_epoch_keys width_simps length_zero_pad two)
qed

theorem epoch_temp_file_remains_witness:
  "\<exists>w'. decrypt_epoch_file ex_torn False [''out''] ex_extent ex_key [''v''] (sqlcipher_store (ex_env [])) ex_flushed
       = (Inl (Io ''disk full''), w') \<and>
     file_at w' (tmp_path ex_torn [''out''] 18) = Some [1, 2]"
proof -
  obtain w1 where w1: "decrypt_epoch_blob_to_slice ex_torn ex_extent ex_key [''v''] (sqlcipher_store (ex_env [])) ex_flushed
      = (Inr (zero_pad 131072 [1, 2, 3], 0, 3), w1)" "tick w1 = 18" "dirs w1 = [[], [''v''], [''v'', ''pending'']]"
    using ex_slice by blast
  have "take 2 (drop 0 (take 3 (zero_pad 131072 [1, 2, 3]))) = [1, 2 :: byte]" by (simp add: zero_pad_def)
  then show ?thesis
    using epoch_temp_file_remains [OF w1(1), of 3 "[''out'']" "''disk full''" 2 False] w1(2,3)
    by (auto simp: ex_extent_def parent_dir_def)
qed

end
