(* ===== verification/File_Deletion.thy ===== *)
theory File_Deletion
  imports Vault_Deletion Vault_Failures
begin

text \<open>
  What a successful \<open>delete_file\<close> leaves: the manifest without the node and otherwise unchanged, the local directory
  without the blobs of its chunks, and that these include blobs other files still need.
\<close>

section \<open>The manifest after the deletion of a file\<close>

lemma file_has_no_children:
  assumes "db_inv F d" "r \<in> set (t_nodes d)" "nr_node_type r = ''file''"
  shows "descendants d (nr_node_id r) = {nr_node_id r}"
proof -
  have po: "parents_ok (t_nodes d)" and inj: "inj_on nr_node_id (set (t_nodes d))"
    using assms(1) by (auto simp: db_inv_def nodes_inv_def distinct_map)
  have "(x, nr_node_id r) \<notin> parent_rel (t_nodes d)" for x
  proof
    assume "(x, nr_node_id r) \<in> parent_rel (t_nodes d)"
    then obtain q where "q \<in> set (t_nodes d)" "nr_node_id q = nr_node_id r" "nr_node_type q = ''directory''"
      using po by (fastforce simp: parents_ok_def in_parent_rel)
    then show False using inj_onD [OF inj] assms(2,3) by fastforce
  qed
  then show ?thesis by (auto elim: rtranclE)
qed

lemma node_of_file:
  assumes "store_inv F d" "db_node F d u = Some n" "nd_node_type n \<noteq> Directory"
  shows "\<exists>r \<in> set (t_nodes d). nr_node_id r = uuid_hyphenated F u \<and> nr_node_type r = ''file''"
proof -
  obtain r where r: "sql_find_node (uuid_hyphenated F u) d = Some r" "read_node F r = Inr n"
    using assms(2) by (cases "sql_find_node (uuid_hyphenated F u) d") (auto simp: db_node_def get_node_def map_err_eq_Inr result_simps split: sum.splits)
  then have "r \<in> set (t_nodes d)" "nr_node_id r = uuid_hyphenated F u" by (auto simp: sql_find_node_def find_Some_iff)
  moreover have "node_row_ok F r" using assms(1) calculation(1) by (simp add: store_inv_def db_inv_def nodes_inv_def)
  then have "nr_node_type r = ''file''" using r(2) assms(3) by (cases "nd_node_type n") (auto simp: node_row_ok_def read_node_def result_simps node_new_def)
  ultimately show ?thesis by blast
qed

lemma delete_node_keeps:
  assumes "delete_node F t u d = Inr d'" "db_inv F d" "uuid_hyphenated F v \<notin> descendants d (uuid_hyphenated F u)"
  shows "db_node F d' v = db_node F d v" "db_chunks F d' v = db_chunks F d v"
proof -
  let ?g = "descendants d (uuid_hyphenated F u)"
  have inv': "db_inv F d'" by (rule delete_node_inv [OF assms(1,2)])
  have n: "t_nodes d' = filter (\<lambda>r. nr_node_id r \<notin> ?g) (t_nodes d)"
    and c: "t_chunks d' = filter (\<lambda>c. cr_node_id c \<notin> ?g) (t_chunks d)"
    and e: "t_epoch_blobs d' = filter (\<lambda>e. \<exists>c \<in> set (t_chunks d). cr_epoch_blob_id c = Some (er_epoch_blob_id e) \<and> cr_node_id c \<notin> ?g) (t_epoch_blobs d)"
    using assms(1) by (auto simp: delete_node_eq_Inr)
  have "find (\<lambda>r. nr_node_id r = x) (filter (\<lambda>r. nr_node_id r \<notin> ?g) rows) = find (\<lambda>r. nr_node_id r = x) rows" if "x \<notin> ?g" for x rows
    using that by (induction rows) auto
  then have "sql_find_node (uuid_hyphenated F v) d' = sql_find_node (uuid_hyphenated F v) d"
    using assms(3) by (simp add: sql_find_node_def n)
  then show "db_node F d' v = db_node F d v" by (simp add: db_node_def get_node_def)
  have rows: "rows_of F d' v = rows_of F d v"
    using assms(3) by (auto simp: c intro!: filter_cong)
  have "chunk_rec F d' r = chunk_rec F d r" if r: "r \<in> set (rows_of F d v)" for r
  proof -
    have "find_epoch_blob i d' = find_epoch_blob i d" if i: "cr_epoch_blob_id r = Some i" for i
    proof -
      let ?P = "\<lambda>e. \<exists>c \<in> set (t_chunks d). cr_epoch_blob_id c = Some (er_epoch_blob_id e) \<and> cr_node_id c \<notin> ?g"
      have "?P x" if "er_epoch_blob_id x = i" for x using r i assms(3) that by auto
      then have "find (\<lambda>e. er_epoch_blob_id e = i) (filter ?P es) = find (\<lambda>e. er_epoch_blob_id e = i) es" for es
        by (induction es) auto
      then show ?thesis by (simp add: find_epoch_blob_def e)
    qed
    then have "coalesce_blob d' r = coalesce_blob d r"
      by (cases "cr_epoch_blob_id r") (simp_all add: coalesce_blob_def split: option.split)
    then show ?thesis by (simp add: chunk_rec_def)
  qed
  then show "db_chunks F d' v = db_chunks F d v" by (simp add: db_chunks_rows [OF assms(2)] db_chunks_rows [OF inv'] rows)
qed

lemma delete_node_removes:
  assumes "delete_node F t u d = Inr d'"
  shows "db_node F d' u = None"
proof -
  have "t_nodes d' = filter (\<lambda>r. nr_node_id r \<notin> descendants d (uuid_hyphenated F u)) (t_nodes d)"
    using assms by (auto simp: delete_node_eq_Inr)
  then have "sql_find_node (uuid_hyphenated F u) d' = None" by (auto simp: sql_find_node_def find_None_iff)
  then show ?thesis by (simp add: db_node_def get_node_def)
qed

section \<open>The files after it\<close>

lemma remove_all_files:
  assumes "no_faults E" "remove_all E ps w = (r, w')"
  shows "file_at w' p = (if p \<in> set ps then None else file_at w p)"
  using assms(2)
proof (induction ps arbitrary: w)
  case (Cons q ps)
  obtain x w1 where f: "fs_remove E q w = (x, w1)" by fastforce
  then have "remove_all E ps w1 = (r, w')" using Cons.prems by (simp add: bind_def attempt_def)
  moreover have "file_at w1 p = (if p = q then None else file_at w p)"
    using f assms(1) by (auto simp: fs_remove_def fs_effect_def delete_conv' split: option.splits)
  ultimately show ?case using Cons.IH by auto
qed simp

lemma remove_all_dirs: "remove_all E ps w = (r, w') \<Longrightarrow> dirs w' = dirs w"
proof (induction ps arbitrary: w)
  case (Cons q ps)
  obtain x w1 where f: "fs_remove E q w = (x, w1)" by fastforce
  then have "remove_all E ps w1 = (r, w')" using Cons.prems by (simp add: bind_def attempt_def)
  with Cons.IH touchesD(2) [OF touches_change(3) [OF f]] show ?case by simp
qed simp

abbreviation local_blobs :: "env \<Rightarrow> path \<Rightarrow> db \<Rightarrow> uuid \<Rightarrow> path set" where
  "local_blobs F dir d u \<equiv> \<Union>c \<in> set (db_chunks F d u). set (blob_paths dir (ck_blob_name c))"

text \<open>
  The manifest without the file: its node, chunks, buffered bytes and shares are gone, and so are the epoch blobs that no
  chunk of another file names; the names of its blobs that nothing else needs are appended to the deletion queue.
\<close>

definition without_file :: "string \<Rightarrow> i64 \<Rightarrow> db \<Rightarrow> db" where
  "without_file i q d = d\<lparr>
     t_pending_deletions := fold (\<lambda>b. insert_or_ignore b q) (deleted_blob_names i d) (t_pending_deletions d),
     t_nodes := filter (\<lambda>r. nr_node_id r \<noteq> i) (t_nodes d), t_chunks := filter (\<lambda>c. cr_node_id c \<noteq> i) (t_chunks d),
     t_epoch_buffer := filter (\<lambda>b. br_node_id b \<noteq> i) (t_epoch_buffer d),
     t_shares := filter (\<lambda>s. sr_file_id s \<noteq> i) (t_shares d),
     t_epoch_blobs := filter (\<lambda>e. \<exists>c \<in> set (t_chunks d).
       cr_epoch_blob_id c = Some (er_epoch_blob_id e) \<and> cr_node_id c \<noteq> i) (t_epoch_blobs d)\<rparr>"

lemma delete_file_Inr:
  assumes "delete_file E u (sqlcipher_store F) dir w = (Inr (), w')" "store_inv F (store w)" "no_faults E"
  shows "db_node F (store w') u = None"
    and "\<And>v. v \<noteq> u \<Longrightarrow> db_node F (store w') v = db_node F (store w) v \<and> db_chunks F (store w') v = db_chunks F (store w) v"
    and "\<And>p. file_at w' p = (if p \<in> local_blobs F dir (store w) u then None else file_at w p)"
    and "\<exists>q. store w' = without_file (uuid_hyphenated F u) q (store w)" and "dirs w' = dirs w"
proof -
  have q1: "query E (ms_get_node (sqlcipher_store F) u) w = (get_node F u (store w), next_tick w)"
    and q2: "query E (ms_get_chunks (sqlcipher_store F) u) (next_tick w) = (Inr (db_chunks F (store w) u), next_tick (next_tick w))"
    using sq.get_chunks [OF assms(2)] assms(3) by (simp_all add: query_def)
  obtain n where n: "get_node F u (store w) = Inr n" "nd_node_type n \<noteq> Directory"
    using assms(1) q1 by (cases "get_node F u (store w)") (auto simp: delete_file_def bind_def [of "query _ _"] split: if_splits)
  let ?f = "\<lambda>chunk. rbind (validate_blob_name_uuid_v4 E (ck_blob_name chunk)) (\<lambda>_. Inr (blob_paths dir (ck_blob_name chunk)))"
  obtain pss where ps: "rmap ?f (db_chunks F (store w) u) = Inr pss"
    using assms(1) n q1 q2 by (cases "rmap ?f (db_chunks F (store w) u)") (auto simp: delete_file_def bind_def lift_def)
  have paths: "set (concat pss) = local_blobs F dir (store w) u"
  proof -
    have "rmap ?f cs = Inr pss' \<Longrightarrow> set (concat pss') = (\<Union>c \<in> set cs. set (blob_paths dir (ck_blob_name c)))" for cs pss'
      by (induction cs arbitrary: pss') (auto simp: result_simps simp del: set_concat)
    then show ?thesis using ps by blast
  qed
  let ?w2 = "next_tick (next_tick w)"
  obtain r3 w3 where m: "mutate E (ms_delete_node (sqlcipher_store F) u) ?w2 = (r3, w3)" by fastforce
  then have "(case r3 of Inl e \<Rightarrow> (Inl e, w3) | Inr _ \<Rightarrow> remove_all E (concat pss) w3) = (Inr (), w')"
    unfolding assms(1) [symmetric] using n q1 [unfolded n] q2 ps by (simp add: delete_file_def bind_def lift_def del: sqlcipher_store_sel cong del: sum.case_cong_weak)
  then have r3: "r3 = Inr ()" and rm: "remove_all E (concat pss) w3 = ((Inr () :: storage_error + unit), w')"
    by (auto split: sum.splits)
  obtain t where d: "delete_node F t u (store w) = Inr (store w3)"
    using mutate_delete(3) [OF m _ r3] assms(2) by auto
  have st: "store w' = store w3" using remove_all_store [OF rm] .
  show "db_node F (store w') u = None" using delete_node_removes [OF d] st by simp
  have inv: "db_inv F (store w)" and U: "uuid_laws F" using assms(2) by (simp_all add: store_inv_def)
  obtain r where "r \<in> set (t_nodes (store w))" "nr_node_id r = uuid_hyphenated F u" "nr_node_type r = ''file''"
    using node_of_file [OF assms(2) _ n(2), of u] n(1) by (auto simp: db_node_def)
  then have "descendants (store w) (uuid_hyphenated F u) = {uuid_hyphenated F u}"
    using file_has_no_children [OF inv] by metis
  note alone = this
  then show "db_node F (store w') v = db_node F (store w) v \<and> db_chunks F (store w') v = db_chunks F (store w) v" if "v \<noteq> u" for v
    using delete_node_keeps [OF d inv, of v] that st uuid_hyphenated_inj [OF U] by simp
  show "\<exists>q. store w' = without_file (uuid_hyphenated F u) q (store w)"
    using d [unfolded delete_node_eq_Inr alone] st by (auto simp: without_file_def)
  have "dirs w3 = dirs w" using m r3 by (auto simp: mutate_def split: option.splits sum.splits)
  with remove_all_dirs [OF rm] show "dirs w' = dirs w" by simp
  have "files w3 = files w" using m r3 by (auto simp: mutate_def split: option.splits sum.splits)
  then show "file_at w' p = (if p \<in> local_blobs F dir (store w) u then None else file_at w p)" for p
    using remove_all_files [OF assms(3) rm, of p] by (simp add: paths [symmetric] del: set_concat)
qed

section \<open>Properties\<close>

text \<open>
  (C24) A \<open>delete_file\<close> that succeeds, when no I/O call fails, removes the file and nothing else: the manifest is the one
  without its node, chunks, buffered bytes and shares and without the epoch blobs that only it needed, with the blobs
  nobody needs appended to the deletion queue, every row of other nodes and every other table as before; the blobs of its
  chunks are gone from \<open>pending\<close>, \<open>cache\<close> and the flat layout, and every other file and the directories are as before.  In
  particular other nodes read back with the same chunks.
\<close>

theorem delete_file_exact:
  assumes "delete_file E u (sqlcipher_store F) dir w = (Inr (), w')" "store_inv F (store w)" "no_faults E"
  shows "db_node F (store w') u = None \<and>
     (\<forall>v. v \<noteq> u \<longrightarrow> db_node F (store w') v = db_node F (store w) v \<and> db_chunks F (store w') v = db_chunks F (store w) v) \<and>
     (\<forall>p. file_at w' p = (if \<exists>c \<in> set (db_chunks F (store w) u). p \<in> set (blob_paths dir (ck_blob_name c)) then None else file_at w p)) \<and>
     (\<exists>q. store w' = without_file (uuid_hyphenated F u) q (store w)) \<and> dirs w' = dirs w"
  using delete_file_Inr [OF assms] by simp

text \<open>
  (C25) Deleting one file takes the local copy of a packed blob away from the files that share it.  When a chunk of another file has the same
  blob, that file keeps its chunk in the manifest, but afterwards none of the places a blob is looked up in has its bytes.
\<close>

theorem delete_file_takes_shared_blob:
  assumes "delete_file E u (sqlcipher_store F) dir w = (Inr (), w')" "store_inv F (store w)" "no_faults E"
    and "c \<in> set (db_chunks F (store w) u)" "k \<in> set (db_chunks F (store w) v)" "v \<noteq> u" "ck_blob_name k = ck_blob_name c"
  shows "k \<in> set (db_chunks F (store w') v) \<and> blob_lookup w' dir (ck_blob_name k) = None"
proof -
  have "p \<in> set (blob_paths dir (ck_blob_name c)) \<Longrightarrow> file_at w' p = None" for p
    using delete_file_Inr(3) [OF assms(1-3), of p] assms(4) by auto
  moreover have "blob_path w' dir (ck_blob_name c) \<in> set (blob_paths dir (ck_blob_name c))"
    by (simp add: blob_path_def blob_paths_def Let_def)
  ultimately have "blob_lookup w' dir (ck_blob_name k) = None" using assms(7) by (simp add: blob_lookup_def del: set_simps)
  with delete_file_Inr(2) [OF assms(1-3)] assms(5,6) show ?thesis by simp
qed

text \<open>A vault in which the files 5 and 6 are packed into one epoch blob.\<close>

definition ex_shared_db :: db where
  "ex_shared_db = ex_two\<lparr>t_epoch_blobs := [epoch_row (ex_env []) ex_epoch 131112],
     t_chunks := [extent_row (ex_env []) 14 ex_epoch (0, 5, 0, 0, 3), extent_row (ex_env []) 14 ex_epoch (1, 6, 0, 3, 1)], t_epoch_buffer := []\<rparr>"

lemma ex_shared_built: "commit_epoch_flush (ex_env []) 14 ex_epoch [(5, 0, 0, 3), (6, 0, 3, 1)] ex_two = Inr ex_shared_db"
  using ex_entry_ids
  by (simp add: ex_shared_db_def commit_epoch_flush_def insert_epoch_blob_with_extents_def i64_or_err_def i64_try_from_def ex_epoch_def
      sql_insert_epoch_blob_def insert_extent_def sql_insert_chunk_def ex_two_def epoch_row_def result_simps node_ids_def node_row_of_def
      ex_node_of_def node_new_def chunk_check_def ex_base_def empty_db_def map_filter_simps extent_row_def uuid_hyphenated_inj [OF ex_uuid_laws])

definition ex_shared :: "db world" where
  "ex_shared = ex_vault\<lparr>store := ex_shared_db, files := [([''v'', ''pending'', ''190.blob''], ex_packed)]\<rparr>"

lemma ex_shared_inv: "store_inv (ex_env []) ex_shared_db"
proof -
  have "typed_epoch_blob ex_epoch" "typed_extents [(5, 0, 0, 3), (6, 0, 3, 1)]"
    by (simp_all add: typed_epoch_blob_def typed_extents_def ex_epoch_def compute_checksum_def ex_tag_def)
  from sqlcipher_commit_flush [OF ex_two_inv this ex_shared_built] show ?thesis by blast
qed

lemma ex_parse_190: "uuid_parse (ex_env []) ''190'' = Some 190"
  using uuid_lawsD(1) [OF ex_uuid_laws, of "[]" 190] by (simp add: ex_blob_uuid)

lemma ex_shared_chunks:
  "\<exists>c. db_chunks (ex_env []) ex_shared_db 5 = [c] \<and> ck_blob_name c = ''190''"
  "\<exists>c. db_chunks (ex_env []) ex_shared_db 6 = [c] \<and> ck_blob_name c = ''190''"
  unfolding db_chunks_rows [OF store_invD(2) [OF ex_shared_inv]]
  by (simp_all add: ex_shared_db_def extent_row_def ex_epoch_def epoch_row_def ex_blob_uuid
      chunk_rec_def coalesce_blob_def find_epoch_blob_def read_chunk_def uuid_hyphenated_inj [OF ex_uuid_laws] width_simps result_simps
      uuid_lawsD [OF ex_uuid_laws] compute_checksum_def ex_parse_190)

lemma ex_shared_node: "get_node (ex_env []) 6 ex_shared_db = Inr (ex_node_of 6 [1])"
  by (simp add: get_node_def sql_find_node_def ex_shared_db_def ex_two_def node_row_of_def ex_node_of_def node_new_def read_node_def
      uuid_hyphenated_inj [OF ex_uuid_laws] uuid_lawsD [OF ex_uuid_laws] width_simps result_simps)

lemma ex_shared_deleted: "\<exists>d'. delete_node (ex_env []) 2 6 ex_shared_db = Inr d'"
  by (simp add: delete_node_eq_Inr unix_timestamp_now_def i64_try_from_def ex_shared_db_def ex_two_def node_ids_def node_row_of_def ex_node_of_def node_new_def)

lemma ex_shared_delete: "\<exists>w'. delete_file (ex_env []) 6 (sqlcipher_store (ex_env [])) [''v''] ex_shared = (Inr (), w')"
proof -
  obtain n c d' where n: "get_node (ex_env []) 6 ex_shared_db = Inr n" "nd_node_type n = File"
    and c: "db_chunks (ex_env []) ex_shared_db 6 = [c]" "ck_blob_name c = ''190''" and d: "delete_node (ex_env []) 2 6 ex_shared_db = Inr d'"
    using ex_shared_node ex_shared_chunks(2) ex_shared_deleted by (fastforce simp: ex_node_of_def node_new_def)
  have "get_chunks (ex_env []) 6 ex_shared_db = Inr [c]" using sq.get_chunks [OF ex_shared_inv, of 6] c by simp
  moreover have "validate_blob_name_uuid_v4 (ex_env []) ''190'' = Inr ()"
    using validate_blob_name_draw [OF ex_uuid_laws, of "[]" 9 0] by (simp add: ex_blob_uuid)
  ultimately show ?thesis
    using n c d by (simp add: delete_file_def run_simps ex_shared_def two blob_paths_def)
qed

theorem delete_file_exact_witness:
  "\<exists>w'. delete_file (ex_env []) 6 (sqlcipher_store (ex_env [])) [''v''] ex_shared = (Inr (), w') \<and> db_node (ex_env []) (store w') 6 = None"
proof -
  obtain w' where w': "delete_file (ex_env []) 6 (sqlcipher_store (ex_env [])) [''v''] ex_shared = (Inr (), w')" using ex_shared_delete by blast
  from delete_file_exact [OF w' _ ex_no_faults] w' ex_shared_inv show ?thesis by (auto simp: ex_shared_def)
qed

theorem delete_file_takes_shared_blob_witness:
  "\<exists>w' k. delete_file (ex_env []) 6 (sqlcipher_store (ex_env [])) [''v''] ex_shared = (Inr (), w') \<and>
     blob_lookup ex_shared [''v''] (ck_blob_name k) = Some ex_packed \<and> blob_lookup w' [''v''] (ck_blob_name k) = None \<and>
     k \<in> set (db_chunks (ex_env []) (store w') 5)"
proof -
  obtain w' where w': "delete_file (ex_env []) 6 (sqlcipher_store (ex_env [])) [''v''] ex_shared = (Inr (), w')" using ex_shared_delete by blast
  obtain c k where c: "db_chunks (ex_env []) ex_shared_db 6 = [c]" "ck_blob_name c = ''190''"
    and k: "db_chunks (ex_env []) ex_shared_db 5 = [k]" "ck_blob_name k = ''190''"
    using ex_shared_chunks by blast
  have "blob_lookup ex_shared [''v''] ''190'' = Some ex_packed" by (simp add: blob_lookup_def blob_path_def blob_file_def ex_shared_def)
  moreover have "k \<in> set (db_chunks (ex_env []) (store w') 5) \<and> blob_lookup w' [''v''] (ck_blob_name k) = None"
    using delete_file_takes_shared_blob [OF w' _ ex_no_faults, of c k 5] c k ex_shared_inv by (simp add: ex_shared_def)
  ultimately show ?thesis using w' k(2) by metis
qed

end
