(* ===== verification/Session.thy ===== *)
theory Session
  imports Storage_Types
begin

text \<open>
  \<open>auth/session/manager.rs\<close>, \<open>auth/session/keys.rs\<close>, \<open>auth/kdf.rs\<close> and \<open>auth/key_source.rs\<close>: the session manager.
  The shared fields of \<open>SessionManager\<close> are one record; every atomic access is a function on it, and the operations are
  programs over a world whose store is that record.  \<open>Instant::now()\<close> is the field \<open>sm_now\<close>, in milliseconds.
\<close>

section \<open>Errors and keys\<close>

datatype key_source_error = KeySourceNotFound | InvalidSize usize | IoFailed io_error

datatype auth_error =
    InvalidCredentials
  | KeyFileNotFound
  | MemoryLockFailed string
  | VaultHeaderInvalid
  | SessionAlreadyActive
  | SessionNotActive
  | InvalidRecoveryPhrase
  | NoRecoverySlot
  | KeySource key_source_error

record argon2_params =
  memory_cost_kib :: u32
  time_cost :: u32
  parallelism :: u32

record 'm session_keys =
  key_encryption_key :: bytes
  sqlcipher_key :: bytes
  manifest_key :: bytes
  metadata_store :: "'m option"

text \<open>
  What one call takes from outside: Argon2id (\<open>None\<close>: the parameters or the hash failed), the answers of the three
  \<open>mlock\<close> calls, whether the blocking task panicked, and the opening of the SQLCipher database with a key.
\<close>

record 'm auth_env =
  argon2id :: "argon2_params \<Rightarrow> bytes \<Rightarrow> bytes \<Rightarrow> bytes option"
  lock_memory :: "nat \<Rightarrow> string option"
  derive_panics :: bool
  open_store :: "path \<Rightarrow> bytes \<Rightarrow> storage_error + 'm"

definition derive_master_key :: "'m auth_env \<Rightarrow> bytes \<Rightarrow> bytes option \<Rightarrow> bytes \<Rightarrow> argon2_params \<Rightarrow> auth_error + bytes" where
  "derive_master_key A password key_file salt parameters =
     (let combined_input = password @ (case key_file of None \<Rightarrow> [] | Some bs \<Rightarrow> bs) in
      ok_or InvalidCredentials (argon2id A parameters combined_input salt))"

definition secure_bytes :: "'m auth_env \<Rightarrow> nat \<Rightarrow> auth_error + unit" where
  "secure_bytes A i = (case lock_memory A i of None \<Rightarrow> Inr () | Some m \<Rightarrow> Inl (MemoryLockFailed m))"

definition from_master_key_bytes :: "env \<Rightarrow> 'm auth_env \<Rightarrow> bytes \<Rightarrow> auth_error + 'm session_keys" where
  "from_master_key_bytes E A master_key =
     rbind (map_err (\<lambda>_. InvalidCredentials) (derive_vault_keys E master_key)) (\<lambda>vault_keys.
     rbind (secure_bytes A 0) (\<lambda>_. rbind (secure_bytes A 1) (\<lambda>_. rbind (secure_bytes A 2) (\<lambda>_.
     Inr \<lparr>key_encryption_key = vk_key_encryption_key vault_keys, sqlcipher_key = vk_sqlcipher_key vault_keys,
          manifest_key = vk_manifest_key vault_keys, metadata_store = None\<rparr>))))"

definition derive :: "env \<Rightarrow> 'm auth_env \<Rightarrow> bytes \<Rightarrow> bytes option \<Rightarrow> bytes \<Rightarrow> argon2_params \<Rightarrow> auth_error + 'm session_keys" where
  "derive E A password key_file salt parameters =
     rbind (derive_master_key A password key_file salt parameters) (from_master_key_bytes E A)"

definition derived_keys_are_initialized :: "'m session_keys \<Rightarrow> bool" where
  "derived_keys_are_initialized k =
     list_all (list_ex (\<lambda>b. b \<noteq> 0)) [key_encryption_key k, sqlcipher_key k, manifest_key k]"

text \<open>\<open>FileKeySource::read_key\<close>: open, \<open>metadata\<close>, \<open>read_exact\<close>.\<close>

definition fs_open :: "env \<Rightarrow> path \<Rightarrow> ('s, io_error, unit) prog" where
  "fs_open E p = fs_effect E (\<lambda>w. if file_at w p = None \<and> p \<notin> set (dirs w) then (Inl not_found, w) else (Inr (), w))"

definition read_key :: "env \<Rightarrow> path \<Rightarrow> ('s, key_source_error, bytes) prog" where
  "read_key E p =
     bind (with_err (\<lambda>e. if io_error_kind e = KindNotFound then KeySourceNotFound else IoFailed e) (fs_open E p)) (\<lambda>_.
     bind (with_err IoFailed (fs_is_file E p)) (\<lambda>is_file.
     if \<not> is_file then fail (IoFailed (IoError KindOther ''key path is not a regular file''))
     else bind get_world (\<lambda>w.
       let len = (case file_at w p of None \<Rightarrow> 0 | Some bs \<Rightarrow> length bs) in
       if len \<noteq> 32 then fail (InvalidSize len)
       else with_err IoFailed (fs_read E p))))"


section \<open>The shared state\<close>

datatype lifecycle_state = NoSession | Active | Expired

datatype session_event = TimeoutWarning nat | Locked

text \<open>
  Where the task \<open>run_timer\<close> stands: asleep until the warning or until the timeout, or past the timeout with the gate
  closed, with the operations drained, with \<open>rclone.conf\<close> taken, and with the keys dropped.
\<close>

datatype timer_task = SleepingToWarning nat | Sleeping nat | Fired | Drained | ConfTaken | KeysDropped

record 'm manager =
  sm_session :: "'m session_keys option"
  sm_lifecycle :: lifecycle_state
  sm_timeout :: nat
  sm_pre_warning :: nat
  sm_timer :: "timer_task option"
  operation_counter :: "32 word"
  gate_and_counter :: "32 word"
  failed_attempts :: "32 word"
  backoff_deadline :: "nat option"
  sm_events :: "session_event list"
  timer_deadline :: "nat option"
  sm_vault_id :: "string option"
  sm_db_path :: "path option"
  sm_conf_path :: "path option"
  sm_now :: nat

definition PRE_WARNING_SECONDS :: nat where
  "PRE_WARNING_SECONDS = 60"

definition GATE_CLOSED_FLAG :: "32 word" where
  "GATE_CLOSED_FLAG = 0x80000000"

definition COUNTER_MASK :: "32 word" where
  "COUNTER_MASK = 0x7FFFFFFF"

definition sat_inc :: "32 word \<Rightarrow> 32 word" where
  "sat_inc x = (if x = - 1 then - 1 else x + 1)"

definition sat_dec :: "32 word \<Rightarrow> 32 word" where
  "sat_dec x = (if x = 0 then 0 else x - 1)"

definition with_timeout :: "nat \<Rightarrow> nat \<Rightarrow> 'm manager" where
  "with_timeout timeout now =
     \<lparr>sm_session = None, sm_lifecycle = NoSession, sm_timeout = timeout, sm_pre_warning = PRE_WARNING_SECONDS * 1000,
      sm_timer = None, operation_counter = 0, gate_and_counter = GATE_CLOSED_FLAG, failed_attempts = 0,
      backoff_deadline = None, sm_events = [], timer_deadline = None, sm_vault_id = None, sm_db_path = None,
      sm_conf_path = None, sm_now = now\<rparr>"

section \<open>Atomic accesses\<close>

unbundle bit_operations_syntax

definition gate_closed :: "'m manager \<Rightarrow> bool" where
  "gate_closed m = (gate_and_counter m AND GATE_CLOSED_FLAG \<noteq> 0)"

definition close_gate :: "'m manager \<Rightarrow> 'm manager" where
  "close_gate m = m\<lparr>gate_and_counter := gate_and_counter m OR GATE_CLOSED_FLAG\<rparr>"

definition open_gate :: "'m manager \<Rightarrow> 'm manager" where
  "open_gate m = m\<lparr>gate_and_counter := gate_and_counter m AND NOT GATE_CLOSED_FLAG\<rparr>"

definition cancel_timer :: "'m manager \<Rightarrow> 'm manager" where
  "cancel_timer m = m\<lparr>sm_timer := None, timer_deadline := None\<rparr>"

text \<open>The task sleeps first until the warning when there is to be one; it counts from the moment it is spawned.\<close>

definition spawn_timer :: "'m manager \<Rightarrow> timer_task" where
  "spawn_timer m =
     (if 0 < sm_pre_warning m \<and> sm_pre_warning m < sm_timeout m
      then SleepingToWarning (sm_now m + (sm_timeout m - sm_pre_warning m))
      else Sleeping (sm_now m + sm_timeout m))"

definition restart_timer :: "'m manager \<Rightarrow> 'm manager" where
  "restart_timer m =
     (let m1 = cancel_timer m in
      m1\<lparr>timer_deadline := Some (sm_now m1 + sm_timeout m1), sm_timer := Some (spawn_timer m1)\<rparr>)"

definition send_event :: "session_event \<Rightarrow> 'm manager \<Rightarrow> 'm manager" where
  "send_event e m = m\<lparr>sm_events := sm_events m @ [e]\<rparr>"

text \<open>One step of \<open>run_timer\<close>; \<open>None\<close>: no timer, or it is waiting.\<close>

definition timer_step :: "'m manager \<Rightarrow> 'm manager option" where
  "timer_step m =
     (case sm_timer m of
        None \<Rightarrow> None
      | Some (SleepingToWarning t) \<Rightarrow>
          if sm_now m < t then None
          else Some ((send_event (TimeoutWarning PRE_WARNING_SECONDS) m)\<lparr>sm_timer := Some (Sleeping (sm_now m + sm_pre_warning m))\<rparr>)
      | Some (Sleeping t) \<Rightarrow> if sm_now m < t then None else Some ((close_gate m)\<lparr>sm_timer := Some Fired\<rparr>)
      | Some Fired \<Rightarrow> if operation_counter m = 0 then Some (m\<lparr>sm_timer := Some Drained\<rparr>) else None
      | Some Drained \<Rightarrow> Some (m\<lparr>sm_conf_path := None, sm_timer := Some ConfTaken\<rparr>)
      | Some ConfTaken \<Rightarrow> Some (m\<lparr>sm_session := None, sm_timer := Some KeysDropped\<rparr>)
      | Some KeysDropped \<Rightarrow>
          if sm_lifecycle m \<noteq> Active then Some (m\<lparr>sm_timer := None\<rparr>)
          else Some ((send_event Locked m)\<lparr>sm_lifecycle := Expired, sm_timer := None\<rparr>))"

text \<open>
  \<open>begin_operation\<close>, atomic access by atomic access: load, compare-and-exchange (a failure loads again), increment of the
  watch counter, second look at the gate.  The result says whether the guard will decrement the counter when it is dropped.
\<close>

datatype op_pc = OpBegin | OpLoaded "32 word" | OpSwapped | OpCounted | OpGuarded | OpUnguarded

definition op_step :: "op_pc \<Rightarrow> 'm manager \<Rightarrow> op_pc \<times> 'm manager" where
  "op_step pc m =
     (case pc of
        OpBegin \<Rightarrow> (if gate_closed m then OpUnguarded else OpLoaded (gate_and_counter m), m)
      | OpLoaded state \<Rightarrow>
          if gate_and_counter m = state then (OpSwapped, m\<lparr>gate_and_counter := sat_inc (state AND COUNTER_MASK)\<rparr>)
          else (OpBegin, m)
      | OpSwapped \<Rightarrow> (OpCounted, m\<lparr>operation_counter := sat_inc (operation_counter m)\<rparr>)
      | OpCounted \<Rightarrow>
          if gate_closed m then (OpUnguarded, m\<lparr>operation_counter := sat_dec (operation_counter m)\<rparr>)
          else (OpGuarded, m)
      | OpGuarded \<Rightarrow> (OpGuarded, m)
      | OpUnguarded \<Rightarrow> (OpUnguarded, m))"

definition drop_guard :: "op_pc \<Rightarrow> 'm manager \<Rightarrow> 'm manager" where
  "drop_guard pc m = (if pc = OpGuarded then m\<lparr>operation_counter := sat_dec (operation_counter m)\<rparr> else m)"

text \<open>The whole of \<open>begin_operation\<close> when no other task runs in between: the exchange succeeds at once.\<close>

definition begin_operation :: "'m manager \<Rightarrow> op_pc \<times> 'm manager" where
  "begin_operation m =
     (case op_step OpBegin m of
        (OpLoaded s, m1) \<Rightarrow>
          (case op_step (OpLoaded s) m1 of (pc2, m2) \<Rightarrow>
           case op_step pc2 m2 of (pc3, m3) \<Rightarrow> op_step pc3 m3)
      | r \<Rightarrow> r)"

text \<open>\<open>lock\<close> after its first test, access by access; \<open>None\<close>: it waits, or is done.\<close>

datatype lock_pc = LockEntered | LockClosed | LockCancelled | LockDrained | LockTaken | LockConfTaken | LockDropped | LockExpired
  | LockIdCleared | LockPathCleared

definition lock_step :: "lock_pc \<Rightarrow> 'm manager \<Rightarrow> (lock_pc option \<times> 'm manager) option" where
  "lock_step pc m =
     (case pc of
        LockEntered \<Rightarrow> Some (Some LockClosed, close_gate m)
      | LockClosed \<Rightarrow> Some (Some LockCancelled, cancel_timer m)
      | LockCancelled \<Rightarrow> if operation_counter m = 0 then Some (Some LockDrained, m) else None
      | LockDrained \<Rightarrow> Some (Some LockTaken, m\<lparr>sm_session := None\<rparr>)
      | LockTaken \<Rightarrow> Some (Some LockConfTaken, m\<lparr>sm_conf_path := None\<rparr>)
      | LockConfTaken \<Rightarrow> Some (Some LockDropped, m\<lparr>sm_session := None\<rparr>)
      | LockDropped \<Rightarrow> if sm_lifecycle m \<noteq> Active then Some (None, m) else Some (Some LockExpired, m\<lparr>sm_lifecycle := Expired\<rparr>)
      | LockExpired \<Rightarrow> Some (Some LockIdCleared, m\<lparr>sm_vault_id := None\<rparr>)
      | LockIdCleared \<Rightarrow> Some (Some LockPathCleared, m\<lparr>sm_db_path := None\<rparr>)
      | LockPathCleared \<Rightarrow> Some (None, send_event Locked m))"

text \<open>The writes with which \<open>authenticate\<close> and \<open>finalize_session_install\<close> end.\<close>

datatype 'm install_pc = InstallKeys "'m session_keys" string path | InstallActive string path | InstallGate string path
  | InstallId string path | InstallPath path | InstallTimer

fun install_step :: "'m install_pc \<Rightarrow> 'm manager \<Rightarrow> 'm install_pc option \<times> 'm manager" where
  "install_step (InstallKeys k i p) m = (Some (InstallActive i p), m\<lparr>sm_session := Some k\<rparr>)"
| "install_step (InstallActive i p) m = (Some (InstallGate i p), m\<lparr>sm_lifecycle := Active\<rparr>)"
| "install_step (InstallGate i p) m = (Some (InstallId i p), open_gate m)"
| "install_step (InstallId i p) m = (Some (InstallPath p), m\<lparr>sm_vault_id := Some i\<rparr>)"
| "install_step (InstallPath p) m = (Some InstallTimer, m\<lparr>sm_db_path := Some p\<rparr>)"
| "install_step InstallTimer m = (None, restart_timer m)"

definition install :: "'m session_keys \<Rightarrow> string \<Rightarrow> path \<Rightarrow> 'm manager \<Rightarrow> 'm manager" where
  "install k i p m =
     restart_timer ((open_gate (m\<lparr>sm_session := Some k, sm_lifecycle := Active\<rparr>))\<lparr>sm_vault_id := Some i, sm_db_path := Some p\<rparr>)"



section \<open>The session-lived configuration file\<close>

text \<open>\<open>OpenOptions::write\<close> without \<open>truncate\<close>, then \<open>write_all\<close> of \<open>n\<close> zeros.\<close>

definition fs_zero :: "env \<Rightarrow> path \<Rightarrow> nat \<Rightarrow> ('s, io_error, unit) prog" where
  "fs_zero E p n w =
     (let old = (case file_at w p of None \<Rightarrow> [] | Some bs \<Rightarrow> bs);
          put = (\<lambda>k. (next_tick w)\<lparr>files := AList.update p (replicate k 0 @ drop k old) (files w)\<rparr>) in
      case os_fault E (tick w) of
        None \<Rightarrow> (Inr (), put n)
      | Some (m, None) \<Rightarrow> (Inl (IoError KindOther m), next_tick w)
      | Some (m, Some k) \<Rightarrow> (Inl (IoError KindOther m), put (min k n)))"

definition destroy_session_rclone_conf :: "env \<Rightarrow> path \<Rightarrow> ('s, io_error, unit) prog" where
  "destroy_session_rclone_conf E p =
     bind (attempt (fs_len E p)) (\<lambda>metadata.
     case metadata of
       Inl error \<Rightarrow> if io_error_kind error = KindNotFound then ret () else fail error
     | Inr size_bytes \<Rightarrow>
         bind (fs_open E p) (\<lambda>_.
         bind (if 0 < size_bytes then fs_zero E p size_bytes else ret ()) (\<lambda>_.
         bind (fs_sync E) (\<lambda>_.
         bind (fs_sync E) (\<lambda>_.
         bind (attempt (fs_remove E p)) (\<lambda>removed.
         case removed of
           Inr _ \<Rightarrow> ret ()
         | Inl error \<Rightarrow> if io_error_kind error = KindNotFound then ret () else fail error))))))"

definition fs_remove_dir :: "env \<Rightarrow> path \<Rightarrow> ('s, io_error, unit) prog" where
  "fs_remove_dir E d = fs_effect E (\<lambda>w.
     if d \<notin> set (dirs w) then (Inl not_found, w)
     else if \<exists>q \<in> set (map fst (files w) @ dirs w). q \<noteq> [] \<and> parent_dir q = d
     then (Inl (IoError KindOther ''Directory not empty (os error 39)''), w)
     else (Inr (), w\<lparr>dirs := filter (\<lambda>q. q \<noteq> d) (dirs w)\<rparr>))"

text \<open>Takes the path and destroys the file and its directory; failures are logged only.\<close>

definition destroy_rclone_conf :: "env \<Rightarrow> 'm manager world \<Rightarrow> 'm manager world" where
  "destroy_rclone_conf E w =
     (case sm_conf_path (store w) of
        None \<Rightarrow> w
      | Some conf_path \<Rightarrow>
          snd (fs_remove_dir E (parent_dir conf_path)
                (snd (destroy_session_rclone_conf E conf_path (w\<lparr>store := (store w)\<lparr>sm_conf_path := None\<rparr>\<rparr>)))))"


section \<open>Ending a session\<close>

text \<open>\<open>lock\<close> without interference; \<open>None\<close>: it waits for operations that are still running.\<close>

definition lock :: "env \<Rightarrow> 'm manager world \<Rightarrow> 'm manager world option" where
  "lock E w =
     (let m = store w in
      if sm_lifecycle m \<noteq> Active then Some w
      else
        let m1 = cancel_timer (close_gate m) in
        if operation_counter m1 \<noteq> 0 then None
        else
          let w2 = destroy_rclone_conf E (w\<lparr>store := m1\<lparr>sm_session := None\<rparr>\<rparr>);
              m2 = (store w2)\<lparr>sm_session := None\<rparr> in
          if sm_lifecycle m2 \<noteq> Active then Some (w2\<lparr>store := m2\<rparr>)
          else Some (w2\<lparr>store := send_event Locked (m2\<lparr>sm_lifecycle := Expired, sm_vault_id := None, sm_db_path := None\<rparr>)\<rparr>))"

text \<open>The part of \<open>run_timer\<close> after the timeout.\<close>

definition timeout_lock :: "env \<Rightarrow> 'm manager world \<Rightarrow> 'm manager world option" where
  "timeout_lock E w =
     (let m1 = close_gate (store w) in
      if operation_counter m1 \<noteq> 0 then None
      else
        let w2 = destroy_rclone_conf E (w\<lparr>store := m1\<rparr>);
            m2 = (store w2)\<lparr>sm_session := None, sm_timer := None\<rparr> in
        if sm_lifecycle m2 \<noteq> Active then Some (w2\<lparr>store := m2\<rparr>)
        else Some (w2\<lparr>store := send_event Locked (m2\<lparr>sm_lifecycle := Expired\<rparr>)\<rparr>))"

definition reset_timer :: "'m manager \<Rightarrow> 'm manager" where
  "reset_timer m = (if sm_lifecycle m \<noteq> Active then m else restart_timer m)"

definition remaining_seconds :: "'m manager \<Rightarrow> nat option" where
  "remaining_seconds m =
     (if sm_lifecycle m \<noteq> Active then None
      else map_option (\<lambda>d. if sm_now m < d then (d - sm_now m) div 1000 else 0) (timer_deadline m))"

definition active_vault_id :: "'m manager \<Rightarrow> string option" where
  "active_vault_id m = sm_vault_id m"

definition get_metadata_store :: "'m manager \<Rightarrow> 'm option" where
  "get_metadata_store m = Option.bind (sm_session m) metadata_store"

definition replace_metadata_store :: "'m option \<Rightarrow> 'm manager \<Rightarrow> auth_error + 'm manager" where
  "replace_metadata_store st m =
     (case sm_session m of None \<Rightarrow> Inl SessionNotActive | Some k \<Rightarrow> Inr (m\<lparr>sm_session := Some (k\<lparr>metadata_store := st\<rparr>)\<rparr>))"

definition with_key_encryption_key :: "(bytes \<Rightarrow> 'r) \<Rightarrow> 'm manager \<Rightarrow> auth_error + 'r" where
  "with_key_encryption_key callback m = rbind (ok_or SessionNotActive (sm_session m)) (\<lambda>k. Inr (callback (key_encryption_key k)))"

definition with_sqlcipher_key :: "(bytes \<Rightarrow> 'r) \<Rightarrow> 'm manager \<Rightarrow> auth_error + 'r" where
  "with_sqlcipher_key callback m = rbind (ok_or SessionNotActive (sm_session m)) (\<lambda>k. Inr (callback (sqlcipher_key k)))"

definition with_manifest_key :: "(bytes \<Rightarrow> 'r) \<Rightarrow> 'm manager \<Rightarrow> auth_error + 'r" where
  "with_manifest_key callback m = rbind (ok_or SessionNotActive (sm_session m)) (\<lambda>k. Inr (callback (manifest_key k)))"


section \<open>Starting a session\<close>

definition update_manager :: "('m manager \<Rightarrow> 'm manager) \<Rightarrow> ('m manager, 'e, unit) prog" where
  "update_manager f w = (Inr (), w\<lparr>store := f (store w)\<rparr>)"

text \<open>The delay doubles with each attempt, up to 30 seconds; the shift distance is capped at 5.\<close>

definition record_failed_attempt :: "'m manager \<Rightarrow> 'm manager" where
  "record_failed_attempt m =
     (let attempts = failed_attempts m + 1;
          delay = min 30000 (1000 * 2 ^ min (unat (attempts - 1)) 5) in
      m\<lparr>failed_attempts := attempts, backoff_deadline := Some (sm_now m + delay)\<rparr>)"

definition sleep_until_deadline :: "'m manager \<Rightarrow> 'm manager" where
  "sleep_until_deadline m = (case backoff_deadline m of None \<Rightarrow> m | Some d \<Rightarrow> if sm_now m < d then m\<lparr>sm_now := d\<rparr> else m)"

definition clear_backoff :: "'m manager \<Rightarrow> 'm manager" where
  "clear_backoff m = m\<lparr>failed_attempts := 0, backoff_deadline := None\<rparr>"

definition failed :: "auth_error \<Rightarrow> ('m manager, auth_error, 'a) prog" where
  "failed e = bind (update_manager record_failed_attempt) (\<lambda>_. fail e)"

definition path_exists :: "env \<Rightarrow> path \<Rightarrow> ('s, 'e, bool) prog" where
  "path_exists E p = bind (attempt (fs_exists E p)) (\<lambda>r. ret (case r of Inl _ \<Rightarrow> False | Inr b \<Rightarrow> b))"

text \<open>The database is opened when it exists; what happens when opening fails differs between the callers.\<close>

definition open_metadata_store :: "env \<Rightarrow> 'm auth_env \<Rightarrow> path \<Rightarrow> bytes \<Rightarrow> ('m manager, auth_error, 'm option) prog \<Rightarrow>
    ('m manager, auth_error, 'm option) prog" where
  "open_metadata_store E A db_path key on_failure =
     bind (path_exists E db_path) (\<lambda>there.
     if \<not> there then ret None
     else case open_store A db_path key of Inl _ \<Rightarrow> on_failure | Inr st \<Rightarrow> ret (Some st))"

definition read_key_source :: "env \<Rightarrow> path option \<Rightarrow> ('m manager, auth_error, bytes option) prog" where
  "read_key_source E key_source =
     (case key_source of
        None \<Rightarrow> ret None
      | Some p \<Rightarrow>
          bind (attempt (read_key E p)) (\<lambda>r.
          case r of
            Inr bs \<Rightarrow> ret (Some bs)
          | Inl KeySourceNotFound \<Rightarrow> fail KeyFileNotFound
          | Inl (InvalidSize _) \<Rightarrow> fail KeyFileNotFound
          | Inl (IoFailed _) \<Rightarrow> failed InvalidCredentials))"

text \<open>Where the databases are; the platform gives the data directory.\<close>

definition default_vault_root :: "path \<Rightarrow> path" where
  "default_vault_root data_dir = data_dir @ [''arx-runa'', ''vaults'']"

definition vault_db_path :: "path \<Rightarrow> string \<Rightarrow> path" where
  "vault_db_path data_dir vault_id = default_vault_root data_dir @ [vault_id, ''vault.db'']"

text \<open>
  \<open>authenticate\<close> after the key file was read, and the whole of it; its argument \<open>db_path_of\<close> is \<open>vault_db_path\<close> of
  the data directory.
\<close>

definition derive_and_install ::
  "env \<Rightarrow> 'm auth_env \<Rightarrow> path \<Rightarrow> bytes \<Rightarrow> bytes \<Rightarrow> argon2_params \<Rightarrow> string \<Rightarrow> bytes option \<Rightarrow> ('m manager, auth_error, unit) prog" where
  "derive_and_install E A db_path password salt parameters vault_id key_file =
     (if derive_panics A then failed InvalidCredentials
      else case derive E A password key_file salt parameters of
        Inl (MemoryLockFailed m) \<Rightarrow> fail (MemoryLockFailed m)
      | Inl e \<Rightarrow> failed e
      | Inr derived \<Rightarrow>
          if \<not> derived_keys_are_initialized derived then failed InvalidCredentials
          else
            bind (update_manager clear_backoff) (\<lambda>_.
            bind (open_metadata_store E A db_path (sqlcipher_key derived) (failed InvalidCredentials)) (\<lambda>st.
            update_manager (install (derived\<lparr>metadata_store := st\<rparr>) vault_id db_path))))"

definition authenticate ::
  "env \<Rightarrow> 'm auth_env \<Rightarrow> (string \<Rightarrow> path) \<Rightarrow> bytes \<Rightarrow> path option \<Rightarrow> bytes \<Rightarrow> argon2_params \<Rightarrow> string \<Rightarrow>
     ('m manager, auth_error, unit) prog" where
  "authenticate E A db_path_of password key_source salt parameters vault_id =
     bind get_world (\<lambda>w.
     if sm_lifecycle (store w) = Active then fail SessionAlreadyActive
     else
       bind (update_manager sleep_until_deadline) (\<lambda>_.
       bind (read_key_source E key_source)
         (derive_and_install E A (db_path_of vault_id) password salt parameters vault_id)))"

text \<open>The two halves of a ceremony's install: the reservation before its side effects, the install after them.\<close>

definition reserve_session_install :: "('m manager, auth_error, unit) prog" where
  "reserve_session_install =
     bind get_world (\<lambda>w.
     if sm_lifecycle (store w) = Active then fail SessionAlreadyActive
     else update_manager sleep_until_deadline)"

definition finalize_session_install ::
  "env \<Rightarrow> 'm auth_env \<Rightarrow> 'm session_keys \<Rightarrow> string \<Rightarrow> path \<Rightarrow> ('m manager, auth_error, unit) prog" where
  "finalize_session_install E A keys vault_id db_path =
     (if \<not> derived_keys_are_initialized keys then fail InvalidCredentials
      else bind get_world (\<lambda>w.
      if sm_lifecycle (store w) = Active then fail SessionAlreadyActive
      else
        bind (open_metadata_store E A db_path (sqlcipher_key keys) (fail InvalidCredentials)) (\<lambda>st.
        update_manager (\<lambda>m. install (keys\<lparr>metadata_store := st\<rparr>) vault_id db_path (clear_backoff m)))))"

definition swap_active_session :: "env \<Rightarrow> 'm auth_env \<Rightarrow> 'm session_keys \<Rightarrow> string \<Rightarrow> ('m manager, auth_error, unit) prog" where
  "swap_active_session E A new_keys vault_id =
     (if \<not> derived_keys_are_initialized new_keys then fail InvalidCredentials
      else bind get_world (\<lambda>w.
      if sm_lifecycle (store w) \<noteq> Active then fail SessionNotActive
      else case sm_db_path (store w) of
        None \<Rightarrow> fail SessionNotActive
      | Some db_path \<Rightarrow>
          bind (open_metadata_store E A db_path (sqlcipher_key new_keys) (fail InvalidCredentials)) (\<lambda>st.
          update_manager (\<lambda>m. (restart_timer (m\<lparr>sm_session := Some (new_keys\<lparr>metadata_store := st\<rparr>)\<rparr>))\<lparr>sm_vault_id := Some vault_id\<rparr>))))"

end
