(* ===== verification/Session_Gate.thy ===== *)
theory Session_Gate
  imports Session
begin

text \<open>
  The gate between operations and the end of a session, under every interleaving of the atomic accesses of any number of
  operations and \<open>lock\<close> calls, the timer task, and one installing task (the authentication semaphore has one permit).
\<close>

section \<open>The tasks and their steps\<close>

record 'm sys =
  mgr :: "'m manager"
  ops :: "nat \<Rightarrow> op_pc option"
  locks :: "nat \<Rightarrow> lock_pc option"
  installer :: "'m install_pc option"

text \<open>
  An aborted timer takes no further step.  Fewer than \<open>2^31\<close> operations run at a time.
\<close>

inductive sys_step :: "'m sys \<Rightarrow> 'm sys \<Rightarrow> bool" where
  op_new: "ops s i = None \<Longrightarrow> card (dom (ops s)) < 2 ^ 31 \<Longrightarrow> sys_step s (s\<lparr>ops := (ops s)(i \<mapsto> OpBegin)\<rparr>)"
| op_run: "ops s i = Some pc \<Longrightarrow> op_step pc (mgr s) = (pc', m') \<Longrightarrow> sys_step s (s\<lparr>mgr := m', ops := (ops s)(i \<mapsto> pc')\<rparr>)"
| op_end: "ops s i = Some pc \<Longrightarrow> pc = OpGuarded \<or> pc = OpUnguarded \<Longrightarrow>
    sys_step s (s\<lparr>mgr := drop_guard pc (mgr s), ops := (ops s)(i := None)\<rparr>)"
| lock_new: "locks s j = None \<Longrightarrow> sm_lifecycle (mgr s) = Active \<Longrightarrow> sys_step s (s\<lparr>locks := (locks s)(j \<mapsto> LockEntered)\<rparr>)"
| lock_run: "locks s j = Some pc \<Longrightarrow> lock_step pc (mgr s) = Some (r, m') \<Longrightarrow> sys_step s (s\<lparr>mgr := m', locks := (locks s)(j := r)\<rparr>)"
| timer_run: "timer_step (mgr s) = Some m' \<Longrightarrow> sys_step s (s\<lparr>mgr := m'\<rparr>)"
| install_new: "installer s = None \<Longrightarrow> sm_lifecycle (mgr s) \<noteq> Active \<Longrightarrow> sys_step s (s\<lparr>installer := Some (InstallKeys k i p)\<rparr>)"
| install_run: "installer s = Some pc \<Longrightarrow> install_step pc (mgr s) = (r, m') \<Longrightarrow> sys_step s (s\<lparr>mgr := m', installer := r\<rparr>)"
| reset: "sys_step s (s\<lparr>mgr := reset_timer (mgr s)\<rparr>)"
| swap: "sm_lifecycle (mgr s) = Active \<Longrightarrow> sys_step s (s\<lparr>mgr := restart_timer ((mgr s)\<lparr>sm_session := Some k\<rparr>)\<rparr>)"
| attempt_fails: "sys_step s (s\<lparr>mgr := record_failed_attempt (mgr s)\<rparr>)"
| conf_set: "sys_step s (s\<lparr>mgr := (mgr s)\<lparr>sm_conf_path := Some p\<rparr>\<rparr>)"
| time_passes: "sys_step s (s\<lparr>mgr := (mgr s)\<lparr>sm_now := sm_now (mgr s) + d\<rparr>\<rparr>)"

definition sys_init :: "nat \<Rightarrow> nat \<Rightarrow> 'm sys" where
  "sys_init timeout now = \<lparr>mgr = with_timeout timeout now, ops = Map.empty, locks = Map.empty, installer = None\<rparr>"

text \<open>The timer is past its timeout; some task is ending the session.\<close>

fun past_timeout :: "timer_task option \<Rightarrow> bool" where
  "past_timeout (Some Fired) = True" | "past_timeout (Some Drained) = True" | "past_timeout (Some ConfTaken) = True"
| "past_timeout (Some KeysDropped) = True" | "past_timeout _ = False"

definition tearing_down :: "'m sys \<Rightarrow> bool" where
  "tearing_down s \<longleftrightarrow> (\<exists>j. locks s j \<noteq> None) \<or> past_timeout (sm_timer (mgr s))"

text \<open>The runs in which no session is installed while one is being ended.\<close>

inductive orderly :: "nat \<Rightarrow> nat \<Rightarrow> 'm sys \<Rightarrow> bool" for timeout now where
  start: "orderly timeout now (sys_init timeout now)"
| step: "orderly timeout now s \<Longrightarrow> sys_step s s' \<Longrightarrow> \<not> (installer s' \<noteq> None \<and> tearing_down s') \<Longrightarrow> orderly timeout now s'"


section \<open>The gate word\<close>

unbundle bit_operations_syntax

lemma flag_bit: "x AND GATE_CLOSED_FLAG = 0 \<longleftrightarrow> \<not> bit x 31"
proof -
  have f: "GATE_CLOSED_FLAG = 2 ^ 31" by (simp add: GATE_CLOSED_FLAG_def)
  show ?thesis unfolding f by (rule and_exp_eq_0_iff_not_bit)
qed

lemma gate_closed_bit: "gate_closed m \<longleftrightarrow> bit (gate_and_counter m) 31"
  by (simp add: gate_closed_def flag_bit)

lemma bit_flag: "bit GATE_CLOSED_FLAG n \<longleftrightarrow> n = 31"
proof -
  have f: "GATE_CLOSED_FLAG = 2 ^ 31" by (simp add: GATE_CLOSED_FLAG_def)
  show ?thesis unfolding f bit_exp_iff by auto
qed

lemma gate_closed_simps [simp]:
  "gate_closed (close_gate m)" "\<not> gate_closed (open_gate m)"
  by (simp_all add: gate_closed_bit close_gate_def open_gate_def bit_simps bit_flag)

lemma gate_closed_update [simp]:
  "gate_closed (m\<lparr>sm_session := a\<rparr>) = gate_closed m" "gate_closed (m\<lparr>sm_timer := b\<rparr>) = gate_closed m"
  "gate_closed (m\<lparr>sm_lifecycle := c\<rparr>) = gate_closed m" "gate_closed (m\<lparr>operation_counter := x\<rparr>) = gate_closed m"
  "gate_closed (m\<lparr>sm_conf_path := p\<rparr>) = gate_closed m" "gate_closed (m\<lparr>sm_vault_id := i\<rparr>) = gate_closed m"
  "gate_closed (m\<lparr>sm_db_path := q\<rparr>) = gate_closed m" "gate_closed (m\<lparr>sm_now := t\<rparr>) = gate_closed m"
  "gate_closed (send_event e m) = gate_closed m" "gate_closed (cancel_timer m) = gate_closed m"
  "gate_closed (restart_timer m) = gate_closed m" "gate_closed (record_failed_attempt m) = gate_closed m"
  "gate_closed (reset_timer m) = gate_closed m" "gate_closed (drop_guard pc m) = gate_closed m"
  by (simp_all add: gate_closed_def send_event_def cancel_timer_def restart_timer_def record_failed_attempt_def reset_timer_def drop_guard_def Let_def)

lemma keep_session [simp]:
  "sm_session (close_gate m) = sm_session m" "sm_session (open_gate m) = sm_session m"
  "sm_session (send_event e m) = sm_session m" "sm_session (cancel_timer m) = sm_session m"
  "sm_session (restart_timer m) = sm_session m" "sm_session (record_failed_attempt m) = sm_session m"
  "sm_session (reset_timer m) = sm_session m" "sm_session (drop_guard pc m) = sm_session m"
  by (simp_all add: close_gate_def open_gate_def send_event_def cancel_timer_def restart_timer_def record_failed_attempt_def reset_timer_def
      drop_guard_def Let_def)

lemma keep_counter [simp]:
  "operation_counter (close_gate m) = operation_counter m" "operation_counter (open_gate m) = operation_counter m"
  "operation_counter (send_event e m) = operation_counter m" "operation_counter (cancel_timer m) = operation_counter m"
  "operation_counter (restart_timer m) = operation_counter m" "operation_counter (record_failed_attempt m) = operation_counter m"
  "operation_counter (reset_timer m) = operation_counter m"
  by (simp_all add: close_gate_def open_gate_def send_event_def cancel_timer_def restart_timer_def record_failed_attempt_def reset_timer_def Let_def)

lemma keep_timer [simp]:
  "sm_timer (close_gate m) = sm_timer m" "sm_timer (open_gate m) = sm_timer m" "sm_timer (send_event e m) = sm_timer m"
  "sm_timer (cancel_timer m) = None" "sm_timer (record_failed_attempt m) = sm_timer m" "sm_timer (drop_guard pc m) = sm_timer m"
  "\<not> past_timeout (sm_timer (restart_timer m))"
  by (auto simp: close_gate_def open_gate_def send_event_def cancel_timer_def restart_timer_def record_failed_attempt_def reset_timer_def
      drop_guard_def spawn_timer_def Let_def split: if_splits)


section \<open>The invariant\<close>

definition counted :: "(nat \<Rightarrow> op_pc option) \<Rightarrow> nat set" where
  "counted f = {i. f i = Some OpCounted \<or> f i = Some OpGuarded}"

lemma counted_upd:
  "counted (f(i := x)) = (if x = Some OpCounted \<or> x = Some OpGuarded then insert i (counted f) else counted f - {i})"
  by (auto simp: counted_def)

text \<open>Some task that ends the session has closed the gate; has seen no operation running.\<close>

definition shut :: "'m sys \<Rightarrow> bool" where
  "shut s \<longleftrightarrow> (\<exists>j pc. locks s j = Some pc \<and> pc \<noteq> LockEntered) \<or> past_timeout (sm_timer (mgr s))"

fun drained_pc :: "lock_pc \<Rightarrow> bool" where
  "drained_pc LockEntered = False" | "drained_pc LockClosed = False" | "drained_pc LockCancelled = False" | "drained_pc _ = True"

definition drained :: "'m sys \<Rightarrow> bool" where
  "drained s \<longleftrightarrow> (\<exists>j pc. locks s j = Some pc \<and> drained_pc pc) \<or> sm_timer (mgr s) \<in> {Some Drained, Some ConfTaken, Some KeysDropped}"

lemma drained_shut: "drained s \<Longrightarrow> shut s"
proof -
  have "drained_pc pc \<Longrightarrow> pc \<noteq> LockEntered" for pc by (cases pc) simp_all
  then show "drained s \<Longrightarrow> shut s" by (auto simp: drained_def shut_def)
qed

fun keys_written :: "'m install_pc option \<Rightarrow> bool" where
  "keys_written (Some (InstallActive i p)) = True" | "keys_written (Some (InstallGate i p)) = True" | "keys_written _ = False"

definition gate_inv :: "'m sys \<Rightarrow> bool" where
  "gate_inv s \<longleftrightarrow>
     finite (dom (ops s)) \<and> card (dom (ops s)) \<le> 2 ^ 31 \<and> unat (operation_counter (mgr s)) = card (counted (ops s)) \<and>
     (\<forall>i w. ops s i = Some (OpLoaded w) \<longrightarrow> \<not> bit w 31) \<and>
     (shut s \<longrightarrow> gate_closed (mgr s)) \<and>
     (drained s \<or> sm_session (mgr s) = None \<longrightarrow> (\<forall>i. ops s i \<noteq> Some OpGuarded)) \<and>
     (sm_session (mgr s) = None \<longrightarrow> gate_closed (mgr s)) \<and>
     (keys_written (installer s) \<longrightarrow> sm_session (mgr s) \<noteq> None) \<and>
     \<not> (installer s \<noteq> None \<and> tearing_down s)"

lemma gate_inv_init: "gate_inv (sys_init timeout now)"
  by (simp add: gate_inv_def sys_init_def with_timeout_def counted_def shut_def drained_def tearing_down_def gate_closed_def GATE_CLOSED_FLAG_def)

text \<open>What the steps of an operation do to the shared state.\<close>

lemma op_step_keeps:
  assumes "op_step pc m = (pc', m')"
  shows "sm_session m' = sm_session m" "sm_timer m' = sm_timer m"
    and "\<forall>w. pc = OpLoaded w \<longrightarrow> \<not> bit w 31 \<Longrightarrow> gate_closed m \<Longrightarrow> gate_closed m'"
    and "pc' = OpGuarded \<Longrightarrow> pc = OpGuarded \<or> \<not> gate_closed m"
    and "pc' = OpLoaded v \<Longrightarrow> \<not> bit v 31"
  using assms by (auto simp: op_step_def gate_closed_bit split: op_pc.splits if_splits)

lemma op_step_counter:
  assumes "op_step pc m = (pc', m')" "f i = Some pc" "finite (dom f)" "card (dom f) \<le> 2 ^ 31"
    and c: "unat (operation_counter m) = card (counted f)"
  shows "unat (operation_counter m') = card (counted (f(i \<mapsto> pc')))"
proof -
  have sub: "counted f \<subseteq> dom f" by (auto simp: counted_def)
  have fin [simp]: "finite (counted f)" by (rule finite_subset [OF sub assms(3)])
  have "card (counted f) \<le> 2 ^ 31" using card_mono [OF assms(3) sub] assms(4) by simp
  then have small: "unat (operation_counter m) \<le> 2 ^ 31" using c by simp
  have inc: "unat (sat_inc (operation_counter m)) = Suc (card (counted f))"
    using small c by (auto simp: sat_inc_def unat_word_ariths unsigned_minus_1_eq_mask mask_eq_exp_minus_1)
  have dec: "i \<in> counted f \<Longrightarrow> unat (sat_dec (operation_counter m)) = card (counted f - {i})"
    using c by (auto simp: sat_dec_def unat_minus_one card_Diff_singleton)
  have mem: "i \<in> counted f \<longleftrightarrow> pc = OpCounted \<or> pc = OpGuarded" using assms(2) by (simp add: counted_def)
  show ?thesis
    using assms(1) c inc dec mem
    by (auto simp: op_step_def counted_upd insert_absorb split: op_pc.splits if_splits)
qed

lemma drop_guard_counter:
  assumes "f i = Some pc" "pc = OpGuarded \<or> pc = OpUnguarded" "finite (dom f)" "unat (operation_counter m) = card (counted f)"
  shows "unat (operation_counter (drop_guard pc m)) = card (counted (f(i := None)))"
proof -
  have "finite (counted f)" by (rule finite_subset [OF _ assms(3)]) (auto simp: counted_def)
  moreover have "i \<in> counted f \<longleftrightarrow> pc = OpGuarded" using assms(1,2) by (auto simp: counted_def)
  moreover have "operation_counter m = 0 \<longleftrightarrow> card (counted f) = 0" using assms(4) by (metis unat_eq_zero)
  ultimately show ?thesis using assms(2,4) by (auto simp: drop_guard_def counted_upd sat_dec_def unat_minus_one card_Diff_singleton)
qed

lemma card_dom_upd:
  "finite (dom f) \<Longrightarrow> card (dom (f(i := x))) \<le> (if f i = None \<and> x \<noteq> None then Suc (card (dom f)) else card (dom f))"
  by (cases x) (auto simp: insert_absorb domIff intro: card_Diff1_le)

text \<open>Steps of operations.\<close>

lemma gate_inv_op:
  assumes I: "gate_inv s" and st: "ops s i = Some pc" "op_step pc (mgr s) = (pc', m')"
  shows "gate_inv (s\<lparr>mgr := m', ops := (ops s)(i \<mapsto> pc')\<rparr>)"
proof -
  let ?s = "s\<lparr>mgr := m', ops := (ops s)(i \<mapsto> pc')\<rparr>"
  note k = op_step_keeps [OF st(2)]
  have L: "\<forall>w. pc = OpLoaded w \<longrightarrow> \<not> bit w 31" using I st(1) by (auto simp: gate_inv_def)
  have same: "shut ?s = shut s" "drained ?s = drained s" "tearing_down ?s = tearing_down s"
    by (simp_all add: shut_def drained_def tearing_down_def k)
  have d: "dom (ops ?s) = dom (ops s)" using st(1) by auto
  have c: "unat (operation_counter m') = card (counted ((ops s)(i \<mapsto> pc')))"
    by (rule op_step_counter [where f = "ops s" and i = i, OF st(2,1)]) (use I in \<open>auto simp: gate_inv_def\<close>)
  have g: "ops ?s j \<noteq> Some OpGuarded" if "drained s \<or> sm_session m' = None" for j
  proof -
    have "gate_closed (mgr s)" using I that k(1) drained_shut [of s] by (auto simp: gate_inv_def)
    moreover have "pc \<noteq> OpGuarded" using I that k(1) st(1) by (auto simp: gate_inv_def)
    ultimately have "pc' \<noteq> OpGuarded" using k(4) by blast
    then show ?thesis using I that k(1) by (auto simp: gate_inv_def)
  qed
  show ?thesis
    unfolding gate_inv_def same d using I c g k(1) k(3) [OF L] k(5)
    by (auto simp: gate_inv_def)
qed

lemma gate_inv_op_end:
  assumes I: "gate_inv s" and st: "ops s i = Some pc" "pc = OpGuarded \<or> pc = OpUnguarded"
  shows "gate_inv (s\<lparr>mgr := drop_guard pc (mgr s), ops := (ops s)(i := None)\<rparr>)"
proof -
  have f: "finite (dom (ops s))" using I by (simp add: gate_inv_def)
  have "card (dom ((ops s)(i := None))) \<le> card (dom (ops s))" using card_dom_upd [OF f, of i None] by simp
  then show ?thesis
    using I drop_guard_counter [where f = "ops s" and i = i, OF st f, of "mgr s"]
    by (auto simp: gate_inv_def shut_def drained_def tearing_down_def)
qed

lemma gate_inv_op_new:
  assumes I: "gate_inv s" and "ops s i = None" "card (dom (ops s)) < 2 ^ 31"
  shows "gate_inv (s\<lparr>ops := (ops s)(i \<mapsto> OpBegin)\<rparr>)"
proof -
  have f: "finite (dom (ops s))" using I by (simp add: gate_inv_def)
  have "card (dom ((ops s)(i \<mapsto> OpBegin))) \<le> 2 ^ 31" using card_dom_upd [OF f, of i "Some OpBegin"] assms(2,3) by simp
  moreover have "counted ((ops s)(i \<mapsto> OpBegin)) = counted (ops s)" using assms(2) by (auto simp: counted_def)
  ultimately show ?thesis using I f by (auto simp: gate_inv_def shut_def drained_def tearing_down_def)
qed

text \<open>Steps of \<open>lock\<close> and of the timer.\<close>

lemma lock_step_keeps:
  assumes "lock_step pc m = Some (r, m')"
  shows "operation_counter m' = operation_counter m"
    and "gate_closed m \<or> pc = LockEntered \<Longrightarrow> gate_closed m'"
    and "sm_timer m' = sm_timer m \<or> sm_timer m' = None"
    and "sm_session m' = sm_session m \<or> drained_pc pc"
    and "r = Some pc' \<Longrightarrow> drained_pc pc' \<Longrightarrow> drained_pc pc \<or> operation_counter m = 0"
  using assms by (auto simp: lock_step_def split: lock_pc.splits if_splits)

lemma counter_zero:
  assumes "gate_inv s" "operation_counter (mgr s) = 0"
  shows "ops s i \<noteq> Some OpGuarded"
proof -
  have "finite (counted (ops s))" by (rule finite_subset [of _ "dom (ops s)"]) (use assms(1) in \<open>auto simp: counted_def gate_inv_def\<close>)
  then have "counted (ops s) = {}" using assms by (auto simp: gate_inv_def)
  then show ?thesis by (auto simp: counted_def)
qed

lemma gate_inv_lock:
  assumes I: "gate_inv s" and st: "locks s j = Some pc" "lock_step pc (mgr s) = Some (r, m')"
  shows "gate_inv (s\<lparr>mgr := m', locks := (locks s)(j := r)\<rparr>)"
proof -
  let ?s = "s\<lparr>mgr := m', locks := (locks s)(j := r)\<rparr>"
  note k = lock_step_keeps [OF st(2)]
  have ins: "installer s = None" using I st(1) by (auto simp: gate_inv_def tearing_down_def)
  have g: "gate_closed m'" if "shut ?s \<or> sm_session m' = None"
  proof -
    have "shut s \<or> pc = LockEntered" using st(1) by (auto simp: shut_def)
    then show ?thesis using I k(2) by (auto simp: gate_inv_def)
  qed
  have n: "ops s i \<noteq> Some OpGuarded" if "drained ?s \<or> sm_session m' = None" for i
  proof (cases "drained s \<or> sm_session (mgr s) = None")
    case True
    then show ?thesis using I by (auto simp: gate_inv_def)
  next
    case False
    then have "\<not> drained_pc pc" using st(1) by (auto simp: drained_def)
    with that k False have "operation_counter (mgr s) = 0" by (auto simp: drained_def split: if_splits)
    then show ?thesis by (rule counter_zero [OF I])
  qed
  show ?thesis using I g n ins k(1) by (auto simp: gate_inv_def)
qed

lemma timer_step_keeps:
  assumes "timer_step m = Some m'"
  shows "operation_counter m' = operation_counter m"
    and "gate_closed m \<Longrightarrow> gate_closed m'" "past_timeout (sm_timer m') \<Longrightarrow> past_timeout (sm_timer m) \<or> gate_closed m'"
    and "sm_session m' = sm_session m \<or> sm_timer m = Some ConfTaken"
    and "sm_timer m' \<in> {Some Drained, Some ConfTaken, Some KeysDropped} \<Longrightarrow>
           sm_timer m \<in> {Some Drained, Some ConfTaken, Some KeysDropped} \<or> operation_counter m = 0"
  using assms by (auto simp: timer_step_def split: option.splits timer_task.splits if_splits)

lemma gate_inv_timer:
  assumes I: "gate_inv s" and st: "timer_step (mgr s) = Some m'" and ex: "\<not> (installer s \<noteq> None \<and> tearing_down (s\<lparr>mgr := m'\<rparr>))"
  shows "gate_inv (s\<lparr>mgr := m'\<rparr>)"
proof -
  let ?s = "s\<lparr>mgr := m'\<rparr>"
  note k = timer_step_keeps [OF st]
  have w: "keys_written (installer s) \<Longrightarrow> installer s \<noteq> None" by (cases "installer s") simp_all
  have sess: "sm_session m' = None \<Longrightarrow> sm_session (mgr s) = None \<or> drained s" using k(4) by (auto simp: drained_def)
  note past = drained_shut [of s]
  have g: "gate_closed m'" if "shut ?s \<or> sm_session m' = None"
    using that I k(2,3) sess past by (auto simp: gate_inv_def shut_def)
  have n: "ops s i \<noteq> Some OpGuarded" if "drained ?s \<or> sm_session m' = None" for i
  proof (cases "drained s \<or> sm_session (mgr s) = None")
    case True
    then show ?thesis using I by (auto simp: gate_inv_def)
  next
    case False
    with that k(5) sess have "operation_counter (mgr s) = 0" by (auto simp: drained_def)
    then show ?thesis by (rule counter_zero [OF I])
  qed
  have "keys_written (installer s) \<longrightarrow> sm_session m' \<noteq> None"
  proof (intro impI notI)
    assume kw: "keys_written (installer s)" and none: "sm_session m' = None"
    then have "drained s" using sess I by (auto simp: gate_inv_def)
    moreover have "\<not> tearing_down s" using I w [OF kw] by (auto simp: gate_inv_def)
    ultimately show False by (auto simp: drained_def tearing_down_def)
  qed
  then show ?thesis using I g n ex k(1) by (auto simp: gate_inv_def)
qed

lemma shut_tearing: "shut s \<Longrightarrow> tearing_down s"
  by (auto simp: shut_def tearing_down_def)

lemma gate_inv_install:
  assumes I: "gate_inv s" and st: "installer s = Some pc" "install_step pc (mgr s) = (r, m')"
  shows "gate_inv (s\<lparr>mgr := m', installer := r\<rparr>)"
proof -
  let ?s = "s\<lparr>mgr := m', installer := r\<rparr>"
  have nt: "\<not> tearing_down s" using I st(1) by (auto simp: gate_inv_def)
  have t: "sm_timer m' = sm_timer (mgr s) \<or> \<not> past_timeout (sm_timer m')"
    using st(2) by (cases pc) auto
  then have nt': "\<not> tearing_down ?s" using nt by (auto simp: tearing_down_def)
  have nd: "\<not> shut ?s" "\<not> drained ?s" using nt' shut_tearing drained_shut by blast+
  have c: "operation_counter m' = operation_counter (mgr s)" using st(2) by (cases pc) auto
  have s1: "sm_session m' = None \<Longrightarrow> sm_session (mgr s) = None \<and> (gate_closed (mgr s) \<longrightarrow> gate_closed m')"
    using st I by (cases pc) (auto simp: gate_inv_def)
  have kw: "keys_written r \<Longrightarrow> sm_session m' \<noteq> None" using st I by (cases pc) (auto simp: gate_inv_def)
  show ?thesis using I c nd nt' s1 kw by (auto simp: gate_inv_def)
qed

text \<open>The steps that leave gate, counter and the tasks alone.\<close>

lemma gate_inv_quiet:
  assumes I: "gate_inv s"
    and "operation_counter m' = operation_counter (mgr s)" "gate_closed m' = gate_closed (mgr s)"
    and "sm_session m' = None \<Longrightarrow> sm_session (mgr s) = None"
    and "sm_timer m' = sm_timer (mgr s) \<or> \<not> past_timeout (sm_timer m')"
  shows "gate_inv (s\<lparr>mgr := m'\<rparr>)"
proof -
  have "drained (s\<lparr>mgr := m'\<rparr>) \<Longrightarrow> drained s" using assms(5) by (auto simp: drained_def)
  moreover have "shut (s\<lparr>mgr := m'\<rparr>) \<Longrightarrow> shut s" using assms(5) by (auto simp: shut_def)
  moreover have "tearing_down (s\<lparr>mgr := m'\<rparr>) \<Longrightarrow> tearing_down s" using assms(5) by (auto simp: tearing_down_def)
  ultimately show ?thesis using assms(1-4) by (cases "sm_session m'") (auto simp: gate_inv_def)
qed

lemma gate_inv_step:
  assumes I: "gate_inv s" and "sys_step s s'" and ex: "\<not> (installer s' \<noteq> None \<and> tearing_down s')"
  shows "gate_inv s'"
  using assms(2)
proof cases
  case (op_new i)
  then show ?thesis using gate_inv_op_new [OF I] by simp
next
  case (op_run i pc pc' m')
  then show ?thesis using gate_inv_op [OF I] by simp
next
  case (op_end i pc)
  then show ?thesis using gate_inv_op_end [OF I] by simp
next
  case (lock_new j)
  have "shut s' \<Longrightarrow> shut s" "drained s' \<Longrightarrow> drained s" using lock_new by (auto simp: shut_def drained_def split: if_splits)
  then show ?thesis using I ex lock_new by (auto simp: gate_inv_def)
next
  case (lock_run j pc r m')
  then show ?thesis using gate_inv_lock [OF I] by simp
next
  case (timer_run m')
  then show ?thesis using gate_inv_timer [OF I] ex by simp
next
  case (install_new k i p)
  have "shut s' = shut s" "drained s' = drained s" using install_new by (auto simp: shut_def drained_def)
  then show ?thesis using I ex install_new by (auto simp: gate_inv_def)
next
  case (install_run pc r m')
  then show ?thesis using gate_inv_install [OF I] by simp
next
  case reset
  have "sm_timer (reset_timer (mgr s)) = sm_timer (mgr s) \<or> \<not> past_timeout (sm_timer (reset_timer (mgr s)))" by (simp add: reset_timer_def)
  then show ?thesis using gate_inv_quiet [OF I, of "reset_timer (mgr s)"] reset by simp
next
  case (swap k)
  then show ?thesis using gate_inv_quiet [OF I, of "restart_timer ((mgr s)\<lparr>sm_session := Some k\<rparr>)"] by simp
next
  case attempt_fails
  then show ?thesis using gate_inv_quiet [OF I, of "record_failed_attempt (mgr s)"] by simp
next
  case (conf_set p)
  then show ?thesis using gate_inv_quiet [OF I, of "(mgr s)\<lparr>sm_conf_path := Some p\<rparr>"] by simp
next
  case (time_passes d)
  then show ?thesis using gate_inv_quiet [OF I, of "(mgr s)\<lparr>sm_now := sm_now (mgr s) + d\<rparr>"] by simp
qed

lemma orderly_inv: "orderly timeout now s \<Longrightarrow> gate_inv s"
  by (induction rule: orderly.induct) (simp_all add: gate_inv_init gate_inv_step)

text \<open>Only an install opens the gate.\<close>

lemma closed_gate_stays:
  assumes "sys_step s s'" "gate_inv s" "installer s = None" "gate_closed (mgr s)"
  shows "gate_closed (mgr s')"
  using assms(1)
proof cases
  case (op_run i pc pc' m')
  have "\<forall>w. pc = OpLoaded w \<longrightarrow> \<not> bit w 31" using assms(2) op_run(2) by (auto simp: gate_inv_def)
  then show ?thesis using op_step_keeps(3) [OF op_run(3)] assms(4) op_run(1) by simp
next
  case (lock_run j pc r m')
  then show ?thesis using lock_step_keeps(2) [OF lock_run(3)] assms(4) by simp
next
  case (timer_run m')
  then show ?thesis using timer_step_keeps(2) [OF timer_run(2)] assms(4) by simp
qed (use assms(3,4) in simp_all)

end
