(* ===== verification/Session_Props.thy ===== *)
theory Session_Props
  imports Session_Gate Example_Env
begin

text \<open>
  Properties of the session manager: the gate protects running operations when installs and teardowns do not overlap, and three ways
  in which it does not; the outcome of \<open>authenticate\<close> and of the end of a session.
\<close>

section \<open>Concrete runs\<close>

datatype act = NewOp nat | RunOp nat | NewLock nat | RunLock nat | NewInstall | RunInstall

definition ex_keys :: "unit session_keys" where
  "ex_keys = \<lparr>key_encryption_key = [1], sqlcipher_key = [2], manifest_key = [3], metadata_store = None\<rparr>"

fun exec :: "act \<Rightarrow> unit sys \<Rightarrow> unit sys option" where
  "exec (NewOp i) s = (if ops s i = None \<and> card (dom (ops s)) < 2 ^ 31 then Some (s\<lparr>ops := (ops s)(i \<mapsto> OpBegin)\<rparr>) else None)"
| "exec (RunOp i) s = map_option (\<lambda>pc. let r = op_step pc (mgr s) in s\<lparr>mgr := snd r, ops := (ops s)(i \<mapsto> fst r)\<rparr>) (ops s i)"
| "exec (NewLock j) s = (if locks s j = None \<and> sm_lifecycle (mgr s) = Active then Some (s\<lparr>locks := (locks s)(j \<mapsto> LockEntered)\<rparr>) else None)"
| "exec (RunLock j) s = Option.bind (locks s j) (\<lambda>pc. map_option (\<lambda>r. s\<lparr>mgr := snd r, locks := (locks s)(j := fst r)\<rparr>) (lock_step pc (mgr s)))"
| "exec NewInstall s =
     (if installer s = None \<and> sm_lifecycle (mgr s) \<noteq> Active then Some (s\<lparr>installer := Some (InstallKeys ex_keys ''v'' [''db''])\<rparr>) else None)"
| "exec RunInstall s = map_option (\<lambda>pc. let r = install_step pc (mgr s) in s\<lparr>mgr := snd r, installer := fst r\<rparr>) (installer s)"

fun execs :: "act list \<Rightarrow> unit sys \<Rightarrow> unit sys option" where
  "execs [] s = Some s"
| "execs (a # as) s = Option.bind (exec a s) (execs as)"

lemma exec_step: "exec a s = Some s' \<Longrightarrow> sys_step s s'"
  by (cases a) (auto simp: Option.bind_eq_Some_conv Let_def split: if_splits intro: sys_step.intros)

lemma execs_steps: "execs as s = Some s' \<Longrightarrow> sys_step\<^sup>*\<^sup>* s s'"
proof (induction as arbitrary: s)
  case (Cons a as)
  then obtain s1 where "exec a s = Some s1" "execs as s1 = Some s'" by (auto simp: Option.bind_eq_Some_conv)
  then show ?case using Cons.IH exec_step converse_rtranclp_into_rtranclp by metis
qed simp

lemma execs_append: "execs (as @ bs) s = Option.bind (execs as s) (execs bs)"
  by (induction as arbitrary: s) (auto split: bind_splits)

text \<open>Runs without a \<open>lock\<close> and with the timer asleep are orderly.\<close>

lemma execs_orderly:
  assumes "execs as s = Some s'" "orderly t n s" "\<forall>a \<in> set as. \<forall>j. a \<noteq> NewLock j"
    and "\<forall>j. locks s j = None" "\<not> past_timeout (sm_timer (mgr s))"
  shows "orderly t n s'"
  using assms
proof (induction as arbitrary: s)
  case (Cons a as)
  then obtain s1 where e: "exec a s = Some s1" "execs as s1 = Some s'" by (auto simp: Option.bind_eq_Some_conv)
  have l: "\<forall>j. locks s1 j = None"
    using e(1) Cons.prems by (cases a) (auto simp: Option.bind_eq_Some_conv Let_def split: if_splits)
  have p: "\<not> past_timeout (sm_timer (mgr s1))"
  proof (cases a)
    case RunInstall
    then obtain pc where "mgr s1 = snd (install_step pc (mgr s))" using e(1) by (auto simp: Let_def)
    then show ?thesis using Cons.prems(5) by (cases pc) auto
  next
    case (RunOp i)
    then obtain pc where "mgr s1 = snd (op_step pc (mgr s))" using e(1) by (auto simp: Let_def)
    then show ?thesis using op_step_keeps(2) [OF surjective_pairing, of pc "mgr s"] Cons.prems(5) by simp
  qed (use e(1) Cons.prems in \<open>auto simp: Option.bind_eq_Some_conv split: if_splits\<close>)
  have "orderly t n s1" by (rule orderly.step [OF Cons.prems(2) exec_step [OF e(1)]]) (simp add: tearing_down_def l p)
  from Cons.IH [OF e(2) this _ l p] Cons.prems(3) show ?case by simp
qed simp

definition ex_session :: "unit manager" where
  "ex_session = restart_timer ((open_gate (with_timeout 900000 0))\<lparr>sm_session := Some ex_keys, sm_lifecycle := Active, sm_vault_id := Some ''v'', sm_db_path := Some [''db'']\<rparr>)"

definition ex_run :: "act list" where
  "ex_run = [NewInstall, RunInstall, RunInstall, RunInstall, RunInstall, RunInstall, RunInstall]"

lemma ex_installed: "execs ex_run (sys_init 900000 0) = Some \<lparr>mgr = ex_session, ops = Map.empty, locks = Map.empty, installer = None\<rparr>"
  by (simp add: ex_run_def sys_init_def with_timeout_def ex_session_def open_gate_def restart_timer_def cancel_timer_def
      Let_def spawn_timer_def)


section \<open>The gate\<close>

text \<open>
  (C26) Keys outlive the operations that use them.  However the accesses of operations, \<open>lock\<close> calls and the timer interleave, as long as
  no session is installed while another is being ended, the keys of a session are there whenever an operation holds a counting guard, and
  the gate is then still being waited for by everybody who is ending the session.
\<close>

theorem guarded_keys_resident:
  assumes "orderly timeout now s" "ops s i = Some OpGuarded"
  shows "sm_session (mgr s) \<noteq> None \<and> operation_counter (mgr s) \<noteq> 0 \<and> \<not> drained s"
  using orderly_inv [OF assms(1)] assms(2) counter_zero [of s i] by (auto simp: gate_inv_def)

lemma ex_guarded:
  "\<exists>s. execs (ex_run @ [NewOp 0, RunOp 0, RunOp 0, RunOp 0, RunOp 0]) (sys_init 900000 0) = Some s \<and> ops s 0 = Some OpGuarded"
  by (simp add: execs_append ex_installed op_step_def gate_closed_def ex_session_def with_timeout_def open_gate_def GATE_CLOSED_FLAG_def
      COUNTER_MASK_def sat_inc_def restart_timer_def cancel_timer_def Let_def)

theorem guarded_keys_resident_witness:
  "\<exists>s. orderly 900000 0 (s :: unit sys) \<and> ops s 0 = Some OpGuarded \<and> sm_session (mgr s) \<noteq> None"
proof -
  obtain s where s: "execs (ex_run @ [NewOp 0, RunOp 0, RunOp 0, RunOp 0, RunOp 0]) (sys_init 900000 0) = Some s" "ops s 0 = Some OpGuarded"
    using ex_guarded by blast
  have "orderly 900000 0 s"
    by (rule execs_orderly [OF s(1) orderly.start]) (simp_all add: ex_run_def sys_init_def with_timeout_def)
  with guarded_keys_resident [OF this s(2)] s(2) show ?thesis by blast
qed

text \<open>The session after a \<open>lock\<close>, while a second \<open>lock\<close> call is still on its way.\<close>

definition ex_torn :: "unit manager" where
  "ex_torn = (with_timeout 900000 0)\<lparr>sm_lifecycle := Expired, sm_events := [Locked]\<rparr>"

definition ex_race :: "act list" where
  "ex_race = [NewLock 0, NewLock 1, RunLock 0, RunLock 1, RunLock 0, RunLock 1, RunLock 1, RunLock 1, RunLock 1,
      RunLock 0, RunLock 0, RunLock 0, RunLock 0, RunLock 0, RunLock 0, RunLock 0, RunLock 0]"

lemma ex_raced:
  "\<exists>l. execs ex_race \<lparr>mgr = ex_session, ops = Map.empty, locks = Map.empty, installer = None\<rparr> =
      Some \<lparr>mgr = ex_torn, ops = Map.empty, locks = l, installer = None\<rparr> \<and> l 1 = Some LockConfTaken"
  by (simp add: ex_race_def lock_step_def ex_torn_def ex_session_def with_timeout_def open_gate_def close_gate_def GATE_CLOSED_FLAG_def
      restart_timer_def cancel_timer_def send_event_def spawn_timer_def Let_def)

lemma ex_reinstalled:
  "execs ex_run \<lparr>mgr = ex_torn, ops = Map.empty, locks = l, installer = None\<rparr> =
     Some \<lparr>mgr = ex_session\<lparr>sm_events := [Locked]\<rparr>, ops = Map.empty, locks = l, installer = None\<rparr>"
  by (simp add: ex_run_def ex_torn_def ex_session_def with_timeout_def open_gate_def restart_timer_def cancel_timer_def spawn_timer_def Let_def)

lemma ex_pulled:
  assumes "l 1 = Some LockConfTaken"
  shows "\<exists>s. execs [NewOp 0, RunOp 0, RunOp 0, RunOp 0, RunOp 0, RunLock 1]
      \<lparr>mgr = ex_session\<lparr>sm_events := [Locked]\<rparr>, ops = Map.empty, locks = l, installer = None\<rparr> = Some s \<and>
      ops s 0 = Some OpGuarded \<and> sm_session (mgr s) = None"
  using assms by (simp add: op_step_def lock_step_def gate_closed_def ex_session_def with_timeout_def open_gate_def GATE_CLOSED_FLAG_def
      COUNTER_MASK_def sat_inc_def restart_timer_def cancel_timer_def Let_def)

text \<open>
  (C27) The protection is lost when a session is installed while another is being ended.  Two \<open>lock\<close> calls both find the session active
  and both see no operation running; one completes, a new session is authenticated and an operation on it takes its guard; then the other
  \<open>lock\<close> call, which was still deleting the configuration file, drops the new keys under that operation.
\<close>

theorem lock_install_race:
  "\<exists>s. sys_step\<^sup>*\<^sup>* (sys_init 900000 0 :: unit sys) s \<and> ops s 0 = Some OpGuarded \<and> sm_session (mgr s) = None"
proof -
  obtain l where l: "execs ex_race \<lparr>mgr = ex_session, ops = Map.empty, locks = Map.empty, installer = None\<rparr> =
      Some \<lparr>mgr = ex_torn, ops = Map.empty, locks = l, installer = None\<rparr>" "l 1 = Some LockConfTaken"
    using ex_raced by blast
  obtain s where s: "execs [NewOp 0, RunOp 0, RunOp 0, RunOp 0, RunOp 0, RunLock 1]
      \<lparr>mgr = ex_session\<lparr>sm_events := [Locked]\<rparr>, ops = Map.empty, locks = l, installer = None\<rparr> = Some s"
      "ops s 0 = Some OpGuarded" "sm_session (mgr s) = None"
    using ex_pulled [where l = l, OF l(2)] by blast
  have "execs (ex_run @ ex_race @ ex_run @ [NewOp 0, RunOp 0, RunOp 0, RunOp 0, RunOp 0, RunLock 1]) (sys_init 900000 0) = Some s"
    by (simp only: execs_append ex_installed l(1) ex_reinstalled s(1) Option.bind.simps)
  from execs_steps [OF this] s(2,3) show ?thesis by blast
qed

text \<open>Runs in which no session is installed.\<close>

definition run_without_install :: "'m sys \<Rightarrow> 'm sys \<Rightarrow> bool" where
  "run_without_install = (\<lambda>a b. sys_step a b \<and> installer b = None)\<^sup>*\<^sup>*"

lemma begin_refused: "gate_closed m \<Longrightarrow> begin_operation m = (OpUnguarded, m)"
  by (simp add: begin_operation_def op_step_def)

lemma closed_gate_step_guarded:
  assumes "sys_step s s'" "gate_closed (mgr s)" "ops s' i = Some OpGuarded"
  shows "ops s i = Some OpGuarded"
  using assms
proof cases
  case (op_run j pc pc' m')
  then show ?thesis using op_step_keeps(4) [OF op_run(3)] assms(2,3) by (auto split: if_splits)
qed (auto split: if_splits)

text \<open>A closed gate stays closed, and nobody gets a guard.\<close>

lemma closed_gate_run:
  assumes "run_without_install s s'" "gate_inv s" "installer s = None" "gate_closed (mgr s)"
  shows "gate_closed (mgr s') \<and> (\<forall>i. ops s' i = Some OpGuarded \<longrightarrow> ops s i = Some OpGuarded)"
proof -
  have "gate_closed (mgr s') \<and> gate_inv s' \<and> installer s' = None \<and> (\<forall>i. ops s' i = Some OpGuarded \<longrightarrow> ops s i = Some OpGuarded)"
    using assms(1) unfolding run_without_install_def
  proof (induction rule: rtranclp_induct)
    case base
    then show ?case using assms(2-4) by simp
  next
    case (step a b)
    then have "gate_inv b" using gate_inv_step by blast
    moreover have "gate_closed (mgr b)" using closed_gate_stays step by blast
    ultimately show ?case using step closed_gate_step_guarded by blast
  qed
  then show ?thesis by blast
qed

text \<open>
  (C28) A command during a timeout disarms the gate.  In every orderly state of an active session in which the timeout has struck
  while an operation is running and no install is under way, the timer closes the gate and waits; \<open>reset_timer\<close>, the first statement
  of every command, then aborts the waiting task and leaves the gate closed.  The session stays active with its keys and a
  fresh timer, but in every state that follows without a new install the gate is closed, \<open>begin_operation\<close> is refused, and
  no operation holds a counting guard that did not hold one before.
\<close>

theorem reset_disarms_gate:
  assumes "orderly timeout now s" "installer s = None"
    and "sm_lifecycle (mgr s) = Active" "sm_timer (mgr s) = Some (Sleeping t)" "t \<le> sm_now (mgr s)" "operation_counter (mgr s) \<noteq> 0"
  shows "\<exists>m1 m2. timer_step (mgr s) = Some m1 \<and> timer_step m1 = None \<and> m2 = reset_timer m1 \<and>
      sys_step (s\<lparr>mgr := m1\<rparr>) (s\<lparr>mgr := m2\<rparr>) \<and> sm_lifecycle m2 = Active \<and> sm_session m2 = sm_session (mgr s) \<and>
      \<not> past_timeout (sm_timer m2) \<and>
      (\<forall>s'. run_without_install (s\<lparr>mgr := m2\<rparr>) s' \<longrightarrow> gate_closed (mgr s') \<and> begin_operation (mgr s') = (OpUnguarded, mgr s') \<and>
         (\<forall>i. ops s' i = Some OpGuarded \<longrightarrow> ops s i = Some OpGuarded))"
proof -
  let ?m1 = "(close_gate (mgr s))\<lparr>sm_timer := Some Fired\<rparr>"
  let ?m2 = "reset_timer ?m1"
  have a: "sm_lifecycle (close_gate (mgr s)) = Active" using assms(3) by (simp add: close_gate_def)
  have r: "?m2 = restart_timer ?m1" using a by (simp add: reset_timer_def)
  have step: "timer_step (mgr s) = Some ?m1" "timer_step ?m1 = None" using assms by (simp_all add: timer_step_def)
  have s1: "sys_step s (s\<lparr>mgr := ?m1\<rparr>)" by (rule sys_step.timer_run [OF step(1)])
  have s2: "sys_step (s\<lparr>mgr := ?m1\<rparr>) (s\<lparr>mgr := ?m2\<rparr>)" using sys_step.reset [of "s\<lparr>mgr := ?m1\<rparr>"] by simp
  have inv: "gate_inv (s\<lparr>mgr := ?m2\<rparr>)"
    using gate_inv_step [OF gate_inv_step [OF orderly_inv [OF assms(1)] s1] s2] assms(2) by simp
  have g: "gate_closed ?m2" by simp
  have "gate_closed (mgr s') \<and> begin_operation (mgr s') = (OpUnguarded, mgr s') \<and>
      (\<forall>i. ops s' i = Some OpGuarded \<longrightarrow> ops s i = Some OpGuarded)"
    if "run_without_install (s\<lparr>mgr := ?m2\<rparr>) s'" for s'
    using closed_gate_run [OF that inv] begin_refused assms(2) g by auto
  moreover have "sm_lifecycle ?m2 = Active" using a by (simp add: r restart_timer_def cancel_timer_def Let_def)
  ultimately show ?thesis using step s2
    by - (rule exI [of _ ?m1], rule exI [of _ ?m2], simp add: r)
qed

lemma ex_timed_out:
  "\<exists>s. execs (ex_run @ [NewOp 0, RunOp 0, RunOp 0, RunOp 0, RunOp 0]) (sys_init 900000 0) = Some s \<and> ops s 0 = Some OpGuarded \<and>
     installer s = None \<and> sm_lifecycle (mgr s) = Active \<and> (\<exists>t. sm_timer (mgr s) = Some (SleepingToWarning t)) \<and> operation_counter (mgr s) = 1"
  by (simp add: execs_append ex_installed op_step_def gate_closed_def ex_session_def with_timeout_def open_gate_def GATE_CLOSED_FLAG_def
      COUNTER_MASK_def sat_inc_def restart_timer_def cancel_timer_def Let_def spawn_timer_def PRE_WARNING_SECONDS_def)

theorem reset_disarms_gate_witness:
  "\<exists>s m2. orderly 900000 0 (s :: unit sys) \<and> ops s 0 = Some OpGuarded \<and> sm_lifecycle m2 = Active \<and>
     (\<forall>s'. run_without_install (s\<lparr>mgr := m2\<rparr>) s' \<longrightarrow> begin_operation (mgr s') = (OpUnguarded, mgr s'))"
proof -
  obtain s where s: "execs (ex_run @ [NewOp 0, RunOp 0, RunOp 0, RunOp 0, RunOp 0]) (sys_init 900000 0) = Some s" "ops s 0 = Some OpGuarded"
    "installer s = None" "sm_lifecycle (mgr s) = Active" "operation_counter (mgr s) = 1"
    and "\<exists>t. sm_timer (mgr s) = Some (SleepingToWarning t)"
    using ex_timed_out by blast
  then obtain t where t: "sm_timer (mgr s) = Some (SleepingToWarning t)" by blast
  let ?s1 = "s\<lparr>mgr := (mgr s)\<lparr>sm_now := sm_now (mgr s) + t\<rparr>\<rparr>"
  let ?m2 = "(send_event (TimeoutWarning PRE_WARNING_SECONDS) (mgr ?s1))\<lparr>sm_timer := Some (Sleeping (sm_now (mgr ?s1) + sm_pre_warning (mgr ?s1)))\<rparr>"
  let ?s2 = "?s1\<lparr>mgr := ?m2\<rparr>"
  let ?s3 = "?s2\<lparr>mgr := ?m2\<lparr>sm_now := sm_now ?m2 + sm_pre_warning (mgr ?s1)\<rparr>\<rparr>"
  have "orderly 900000 0 s"
    by (rule execs_orderly [OF s(1) orderly.start]) (simp_all add: ex_run_def sys_init_def with_timeout_def)
  then have "orderly 900000 0 ?s1" by (rule orderly.step [OF _ sys_step.time_passes]) (simp add: s(3))
  moreover have "timer_step (mgr ?s1) = Some ?m2" using t by (simp add: timer_step_def)
  then have "sys_step ?s1 ?s2" by (rule sys_step.timer_run)
  ultimately have "orderly 900000 0 ?s2" by (rule orderly.step) (simp add: s(3))
  then have "orderly 900000 0 ?s3"
    using orderly.step [OF _ sys_step.time_passes, of 900000 0 ?s2 "sm_pre_warning (mgr ?s1)"] s(3) by simp
  from reset_disarms_gate [OF this] s obtain m2 where "sm_lifecycle m2 = Active"
    "\<forall>s'. run_without_install (?s3\<lparr>mgr := m2\<rparr>) s' \<longrightarrow> begin_operation (mgr s') = (OpUnguarded, mgr s')"
    by (fastforce simp: send_event_def)
  with \<open>orderly 900000 0 ?s3\<close> s(2) show ?thesis by (intro exI [of _ ?s3]) auto
qed

unbundle bit_operations_syntax

lemma bit_31: "n < 2 ^ 32 \<Longrightarrow> bit (of_nat n :: 32 word) 31 \<longleftrightarrow> 2 ^ 31 \<le> n"
proof -
  assume n: "n < 2 ^ 32"
  have "bit (of_nat n :: 32 word) 31 \<longleftrightarrow> bit (unat (of_nat n :: 32 word)) 31" by (simp add: bit_unsigned_iff)
  also have "\<dots> \<longleftrightarrow> bit n 31" using n by (simp add: unsigned_of_nat take_bit_nat_eq_self)
  also have "\<dots> \<longleftrightarrow> odd (n div 2 ^ 31)" by (simp add: bit_iff_odd)
  also have "\<dots> \<longleftrightarrow> 2 ^ 31 \<le> n"
  proof (cases "2 ^ 31 \<le> n")
    case True
    then have "n div 2 ^ 31 = 1" using n by (intro div_nat_eqI) simp_all
    then show ?thesis using True by simp
  qed simp
  finally show ?thesis .
qed

lemma low_bits:
  assumes "n < 2 ^ 31"
  shows "\<not> bit (of_nat n :: 32 word) 31" "(of_nat n :: 32 word) AND COUNTER_MASK = of_nat n" "sat_inc (of_nat n :: 32 word) = of_nat (Suc n)"
proof -
  show "\<not> bit (of_nat n :: 32 word) 31" using assms by (simp add: bit_31)
  have m: "COUNTER_MASK = mask 31" by (simp add: COUNTER_MASK_def mask_numeral)
  have t: "take_bit 31 n = n" using assms by (simp add: take_bit_nat_eq_self)
  show "(of_nat n :: 32 word) AND COUNTER_MASK = of_nat n" unfolding m take_bit_eq_mask [symmetric] using t by (metis take_bit_of_nat)
  have "unat (of_nat n :: 32 word) = n" using assms by (simp add: unsigned_of_nat take_bit_nat_eq_self)
  then have "(of_nat n :: 32 word) \<noteq> - 1" using assms by (auto simp: unsigned_minus_1_eq_mask mask_eq_exp_minus_1)
  then show "sat_inc (of_nat n :: 32 word) = of_nat (Suc n)" by (simp add: sat_inc_def)
qed

lemma begin_operation_count:
  assumes "n < 2 ^ 31" "operation_counter m = 0"
  shows "begin_operation (m\<lparr>gate_and_counter := of_nat n\<rparr>) =
     (if Suc n < 2 ^ 31 then (OpGuarded, m\<lparr>gate_and_counter := of_nat (Suc n), operation_counter := 1\<rparr>)
      else (OpUnguarded, m\<lparr>gate_and_counter := of_nat (Suc n)\<rparr>))"
proof -
  have z: "m\<lparr>operation_counter := 0, gate_and_counter := x\<rparr> = m\<lparr>gate_and_counter := x\<rparr>" for x using assms(2) by (cases m) simp
  have "bit (of_nat (Suc n) :: 32 word) 31 \<longleftrightarrow> \<not> Suc n < 2 ^ 31" using assms(1) bit_31 [of "Suc n"] by (simp add: not_less del: of_nat_Suc)
  then have c: "gate_closed (m\<lparr>gate_and_counter := of_nat (Suc n), operation_counter := x\<rparr>) \<longleftrightarrow> \<not> Suc n < 2 ^ 31" for x
    by (simp add: gate_closed_bit)
  have o: "\<not> gate_closed (m\<lparr>gate_and_counter := of_nat n\<rparr>)" using low_bits(1) [OF assms(1)] by (simp add: gate_closed_bit)
  show ?thesis
    using o c assms(2) low_bits(2,3) [OF assms(1)]
    by (simp add: begin_operation_def op_step_def sat_inc_def sat_dec_def z del: of_nat_Suc)
qed

text \<open>An operation that begins and ends.\<close>

definition op_cycle :: "'m manager \<Rightarrow> 'm manager" where
  "op_cycle m = (case begin_operation m of (pc, m') \<Rightarrow> drop_guard pc m')"

lemma op_cycles:
  assumes "gate_and_counter m = 0" "operation_counter m = 0" "n \<le> 2 ^ 31"
  shows "(op_cycle ^^ n) m = m\<lparr>gate_and_counter := of_nat n\<rparr>"
  using assms(3)
proof (induction n)
  case 0
  then show ?case using assms(1) by (cases m) simp
next
  case (Suc n)
  then have ih: "(op_cycle ^^ n) m = m\<lparr>gate_and_counter := of_nat n\<rparr>" and n: "n < 2 ^ 31" by simp_all
  have z: "m\<lparr>gate_and_counter := x, operation_counter := 0\<rparr> = m\<lparr>gate_and_counter := x\<rparr>" for x using assms(2) by (cases m) simp
  have "op_cycle (m\<lparr>gate_and_counter := of_nat n\<rparr>) = m\<lparr>gate_and_counter := of_nat (Suc n)\<rparr>"
    unfolding op_cycle_def begin_operation_count [OF n assms(2)] by (simp add: drop_guard_def sat_dec_def z del: of_nat_Suc)
  then show ?case by (simp add: ih del: of_nat_Suc)
qed

text \<open>
  (C29) The lower bits of the gate word count the operations that ever began and are never counted down again: after \<open>n\<close> operations, each
  ended before the next begins, the word is \<open>n\<close>; every operation up to the \<open>2^31\<close>-th gets its guard, and that one carries into the flag
  and leaves the gate closed although nobody is ending the session.
\<close>

theorem gate_counter_overflows:
  assumes "gate_and_counter m = 0" "operation_counter m = 0"
  shows "(\<forall>n < 2 ^ 31 - 1. fst (begin_operation ((op_cycle ^^ n) m)) = OpGuarded) \<and>
     fst (begin_operation ((op_cycle ^^ (2 ^ 31 - 1)) m)) = OpUnguarded \<and> gate_closed ((op_cycle ^^ (2 ^ 31)) m)"
proof (intro conjI allI impI)
  show "fst (begin_operation ((op_cycle ^^ n) m)) = OpGuarded" if "n < 2 ^ 31 - 1" for n
    using that begin_operation_count [of n m] assms by (simp add: op_cycles)
  have "(2 ^ 31 - 1 :: nat) \<le> 2 ^ 31" "(2 ^ 31 - 1 :: nat) < 2 ^ 31" "\<not> Suc (2 ^ 31 - 1) < 2 ^ 31" by simp_all
  then show "fst (begin_operation ((op_cycle ^^ (2 ^ 31 - 1)) m)) = OpUnguarded"
    unfolding op_cycles [OF assms \<open>2 ^ 31 - 1 \<le> 2 ^ 31\<close>] begin_operation_count [OF \<open>2 ^ 31 - 1 < 2 ^ 31\<close> assms(2)] by auto
  show "gate_closed ((op_cycle ^^ (2 ^ 31)) m)"
    unfolding op_cycles [OF assms order_refl] gate_closed_bit using bit_31 [of "2 ^ 31"] by simp
qed

theorem gate_counter_overflows_witness:
  "gate_closed ((op_cycle ^^ (2 ^ 31)) ex_session)"
proof -
  have "gate_and_counter ex_session = 0" "operation_counter ex_session = 0"
    by (simp_all add: ex_session_def restart_timer_def cancel_timer_def with_timeout_def open_gate_def GATE_CLOSED_FLAG_def Let_def)
  from gate_counter_overflows [OF this] show ?thesis by blast
qed

end
