(* ===== verification/Session_Lifecycle.thy ===== *)
theory Session_Lifecycle
  imports Session_Props
begin

text \<open>
  The outcome of \<open>authenticate\<close> in every case, the backoff after a wrong password, and what is left of a session after \<open>lock\<close>
  and after the timeout.
\<close>

section \<open>authenticate\<close>

text \<open>Only the backoff and the clock changed.\<close>

definition only_backoff :: "'m manager \<Rightarrow> 'm manager \<Rightarrow> bool" where
  "only_backoff m m' \<longleftrightarrow> (\<exists>a b t. m' = m\<lparr>failed_attempts := a, backoff_deadline := b, sm_now := t\<rparr>)"



lemma only_backoff_lifecycle: "only_backoff m m' \<Longrightarrow> sm_lifecycle m' = sm_lifecycle m"
  by (auto simp: only_backoff_def)

lemma update_manager_eq [simp]: "update_manager f w = (r, w') \<longleftrightarrow> r = Inr () \<and> w' = w\<lparr>store := f (store w)\<rparr>"
  by (auto simp: update_manager_def)

lemma failed_eq [simp]: "failed e w = (r, w') \<longleftrightarrow> r = Inl e \<and> w' = w\<lparr>store := record_failed_attempt (store w)\<rparr>"
  by (auto simp: failed_def bind_def fail_def update_manager_def)










text \<open>The environment of an example: Argon2id is the sum of the bytes, the vault database refuses every key but one.\<close>

definition ex_auth :: "unit auth_env" where
  "ex_auth = \<lparr>argon2id = (\<lambda>ps input salt. Some (replicate 32 (sum_list input))), lock_memory = (\<lambda>_. None), derive_panics = False,
     open_store = (\<lambda>p k. if k = replicate 32 7 then Inr () else Inl NotFound)\<rparr>"

definition ex_locked :: "unit manager world" where
  "ex_locked = \<lparr>store = with_timeout 900000 0, files = [([''db''], [0])], dirs = [[]], tick = 0, progress_log = []\<rparr>"

definition ex_params :: argon2_params where
  "ex_params = \<lparr>memory_cost_kib = 65536, time_cost = 3, parallelism = 4\<rparr>"

lemma ex_auth_sel [simp]:
  "derive_panics ex_auth = False" "open_store ex_auth p k = (if k = replicate 32 7 then Inr () else Inl NotFound)"
  by (simp_all add: ex_auth_def)

lemma ex_derive: "derive (ex_env []) ex_auth [b] None [] ex_params =
    Inr \<lparr>key_encryption_key = replicate 32 b, sqlcipher_key = replicate 32 b, manifest_key = replicate 32 b, metadata_store = None\<rparr>"
  by (simp add: derive_def derive_master_key_def from_master_key_bytes_def derive_vault_keys_def expand_vault_key_into_def secure_bytes_def
      ok_or_def map_err_def ex_auth_def ex_env_def)



section \<open>The backoff\<close>

text \<open>
  (C31) The delay after wrong passwords does not grow.  A wrong password shows only when the database cannot be opened with the derived key,
  and by then the counter of failed attempts has been reset: however many attempts have failed before, the next one leaves the counter at 1
  and a delay of one second, not the documented 1, 2, 4, 8, 16, 30.
\<close>

theorem wrong_password_backoff:
  assumes "sm_lifecycle (store w) \<noteq> Active" "\<not> derive_panics A" "derive E A password None salt parameters = Inr k"
    and "derived_keys_are_initialized k" "open_store A (vdb vault_id) (sqlcipher_key k) = Inl e"
    and "os_fault E (tick w) = None" "file_at w (vdb vault_id) \<noteq> None"
  shows "\<exists>w'. authenticate E A vdb password None salt parameters vault_id w = (Inl InvalidCredentials, w') \<and>
     failed_attempts (store w') = 1 \<and> backoff_deadline (store w') = Some (sm_now (store w') + 1000)"
  using assms
  by (auto simp: authenticate_def derive_and_install_def bind_def get_world_def update_manager_def read_key_source_def ret_def
      open_metadata_store_def path_exists_def attempt_def fs_exists_def fs_effect_def clear_backoff_def record_failed_attempt_def Let_def
      failed_def fail_def)

definition ex_guessing :: "unit manager world" where
  "ex_guessing = ex_locked\<lparr>store := (with_timeout 900000 0)\<lparr>failed_attempts := 9, backoff_deadline := Some 30000\<rparr>\<rparr>"

theorem wrong_password_backoff_witness:
  "\<exists>w'. authenticate (ex_env []) ex_auth (\<lambda>i. [''db'']) [8] None [] ex_params ''v'' ex_guessing = (Inl InvalidCredentials, w') \<and>
     failed_attempts (store ex_guessing) = 9 \<and> failed_attempts (store w') = 1"
proof -
  have "\<exists>w'. authenticate (ex_env []) ex_auth (\<lambda>i. [''db'']) [8] None [] ex_params ''v'' ex_guessing = (Inl InvalidCredentials, w') \<and>
     failed_attempts (store w') = 1 \<and> backoff_deadline (store w') = Some (sm_now (store w') + 1000)"
    by (rule wrong_password_backoff [OF _ _ ex_derive])
      (simp_all add: ex_guessing_def ex_locked_def with_timeout_def ex_no_faults derived_keys_are_initialized_def list_ex_iff)
  then show ?thesis by (auto simp: ex_guessing_def ex_locked_def)
qed


section \<open>The end of a session\<close>

lemma fs_zero_world:
  "os_fault E (tick w) = None \<Longrightarrow> fs_zero E p n w = (Inr (), (next_tick w)\<lparr>files := AList.update p (replicate n 0 @ drop n (case file_at w p of None \<Rightarrow> [] | Some bs \<Rightarrow> bs)) (files w)\<rparr>)"
  by (simp add: fs_zero_def Let_def)

text \<open>Without I/O failures the file is gone, and no other file changed.\<close>

lemma destroy_session_rclone_conf_gone:
  assumes "no_faults E" "destroy_session_rclone_conf E p w = (r, w')" "p \<notin> set (dirs w)"
  shows "r = Inr () \<and> store w' = store w \<and> (\<forall>q. file_at w' q = (if q = p then None else file_at w q))"
proof (cases "file_at w p")
  case None
  then show ?thesis using assms by (auto simp: destroy_session_rclone_conf_def bind_def attempt_def fs_ok not_found_def)
next
  case (Some bs)
  have open_ok: "file_at v p \<noteq> None \<Longrightarrow> fs_open E p v = (Inr (), next_tick v)" for v :: "'a world"
    using assms(1) by (simp add: fs_open_def fs_effect_def)
  show ?thesis
    using assms Some
    by (auto simp: destroy_session_rclone_conf_def bind_def attempt_def fs_ok open_ok fs_zero_world ret_def update_conv' delete_conv'
        split: if_splits)
qed

lemma fs_remove_dir_files: "fs_remove_dir E d w = (r, w') \<Longrightarrow> store w' = store w \<and> files w' = files w"
  by (auto simp: fs_remove_dir_def fs_effect_def split: option.splits if_splits)

lemma destroy_rclone_conf_outcome:
  assumes "no_faults E" "\<forall>p. sm_conf_path (store w) = Some p \<longrightarrow> p \<notin> set (dirs w)"
  shows "store (destroy_rclone_conf E w) = (store w)\<lparr>sm_conf_path := None\<rparr>"
    and "file_at (destroy_rclone_conf E w) q = (if sm_conf_path (store w) = Some q then None else file_at w q)"
proof -
  have "store (destroy_rclone_conf E w) = (store w)\<lparr>sm_conf_path := None\<rparr> \<and>
      file_at (destroy_rclone_conf E w) q = (if sm_conf_path (store w) = Some q then None else file_at w q)"
  proof (cases "sm_conf_path (store w)")
    case None
    then have "(store w)\<lparr>sm_conf_path := None\<rparr> = store w" by (cases "store w") simp
    then show ?thesis using None by (simp add: destroy_rclone_conf_def)
  next
    case (Some p)
    let ?w1 = "w\<lparr>store := (store w)\<lparr>sm_conf_path := None\<rparr>\<rparr>"
    obtain r2 w2 where d: "destroy_session_rclone_conf E p ?w1 = (r2, w2)" by fastforce
    obtain r3 w3 where rd: "fs_remove_dir E (parent_dir p) w2 = (r3, w3)" by fastforce
    have "destroy_rclone_conf E w = w3" using Some d rd by (simp add: destroy_rclone_conf_def)
    then show ?thesis
      using destroy_session_rclone_conf_gone [OF assms(1) d] fs_remove_dir_files [OF rd] assms(2) Some by auto
  qed
  then show "store (destroy_rclone_conf E w) = (store w)\<lparr>sm_conf_path := None\<rparr>"
      "file_at (destroy_rclone_conf E w) q = (if sm_conf_path (store w) = Some q then None else file_at w q)" by blast+
qed

text \<open>
  (C32) \<open>lock\<close> and the timeout end a session completely, except that the timeout keeps the vault's name: when no operation is running, both
  drop the keys, expire the session, close the gate and remove the configuration file with the cloud credentials, and touch no other file;
  but only \<open>lock\<close> clears the vault id, so that after a timeout \<open>active_vault_id\<close> still names a vault.
\<close>

theorem session_ends:
  assumes "sm_lifecycle (store w) = Active" "operation_counter (store w) = 0" "no_faults E"
    and "\<forall>p. sm_conf_path (store w) = Some p \<longrightarrow> p \<notin> set (dirs w)"
  shows "\<exists>w'. (if user then lock E w else timeout_lock E w) = Some w' \<and>
     sm_session (store w') = None \<and> sm_lifecycle (store w') = Expired \<and> gate_closed (store w') \<and>
     sm_timer (store w') = None \<and> sm_conf_path (store w') = None \<and> sm_events (store w') = sm_events (store w) @ [Locked] \<and>
     (\<forall>q. file_at w' q = (if sm_conf_path (store w) = Some q then None else file_at w q)) \<and>
     active_vault_id (store w') = (if user then None else active_vault_id (store w))"
proof -
  let ?m = "if user then (cancel_timer (close_gate (store w)))\<lparr>sm_session := None\<rparr> else close_gate (store w)"
  let ?w1 = "w\<lparr>store := ?m\<rparr>"
  have conf: "sm_conf_path ?m = sm_conf_path (store w)" and active: "sm_lifecycle ?m = Active" and events: "sm_events ?m = sm_events (store w)"
    and vid: "sm_vault_id ?m = sm_vault_id (store w)"
    using assms(1) by (simp_all add: close_gate_def cancel_timer_def)
  have gate: "gate_closed ?m" by simp
  have "\<forall>p. sm_conf_path (store ?w1) = Some p \<longrightarrow> p \<notin> set (dirs ?w1)" using assms(4) conf by simp
  note d = destroy_rclone_conf_outcome [OF assms(3) this]
  have files: "file_at (destroy_rclone_conf E ?w1) q = (if sm_conf_path (store w) = Some q then None else file_at w q)" for q
    using d(2) conf by simp
  let ?w2 = "destroy_rclone_conf E ?w1"
  have st: "store ?w2 = ?m\<lparr>sm_conf_path := None\<rparr>" using d(1) by simp
  show ?thesis
  proof (cases user)
    case True
    then show ?thesis
      using st files active events assms(1,2) gate_closed_simps(1) [of "store w", unfolded gate_closed_def]
      by (simp add: lock_def Let_def send_event_def active_vault_id_def) (simp add: cancel_timer_def gate_closed_def)
  next
    case False
    then show ?thesis
      using st files active events vid assms(2) gate_closed_simps(1) [of "store w", unfolded gate_closed_def]
      by (simp add: timeout_lock_def Let_def send_event_def active_vault_id_def) (simp add: gate_closed_def)
  qed
qed

definition ex_running :: "unit manager world" where
  "ex_running = \<lparr>store = ex_session\<lparr>sm_conf_path := Some [''c'']\<rparr>, files = [([''c''], [1, 2]), ([''d''], [3])], dirs = [[]], tick = 0, progress_log = []\<rparr>"

theorem session_ends_witness:
  "\<exists>w'. timeout_lock (ex_env []) ex_running = Some w' \<and> file_at w' [''c''] = None \<and> sm_session (store w') = None \<and>
     active_vault_id (store w') = Some ''v''"
proof -
  have a: "sm_lifecycle (store ex_running) = Active" "operation_counter (store ex_running) = 0"
      "\<forall>p. sm_conf_path (store ex_running) = Some p \<longrightarrow> p \<notin> set (dirs ex_running)"
      "sm_conf_path (store ex_running) = Some [''c'']" "active_vault_id (store ex_running) = Some ''v''"
    by (simp_all add: ex_running_def ex_session_def restart_timer_def cancel_timer_def open_gate_def with_timeout_def active_vault_id_def Let_def)
  obtain w' where "timeout_lock (ex_env []) ex_running = Some w'" "sm_session (store w') = None"
      "\<forall>q. file_at w' q = (if sm_conf_path (store ex_running) = Some q then None else file_at ex_running q)"
      "active_vault_id (store w') = active_vault_id (store ex_running)"
    using session_ends [OF a(1,2) ex_no_faults a(3), of False] by (simp del: not_None_eq) blast
  then show ?thesis using a(4,5) by auto
qed

end
