(* ===== verification/Remote_Path.thy ===== *)
theory Remote_Path
  imports Storage_Types "HOL-Library.Sublist"
begin

text \<open>
  The checks on what is handed to the cloud backend: \<open>storage/cloud/remote_path.rs\<close> (remote paths and
  roots), \<open>endpoint.rs\<close> (endpoint descriptors), \<open>sync_config.rs\<close> and \<open>stderr_sanitiser.rs\<close>, with the
  error type of the transport (\<open>mod.rs\<close>).  Strings are lists of the Unicode characters up to U+00FF.
\<close>

section \<open>Errors of the transport\<close>

datatype transport_error =
    BlobNotFound
  | BucketNameTaken
  | AuthenticationFailed
  | Timeout
  | TransportIo io_error
  | RcloneProcessFailed int string
  | SharingNotSupported string
  | OtherTransport string

fun transport_error_text :: "transport_error \<Rightarrow> string" where
  "transport_error_text BlobNotFound = ''blob not found at remote path''"
| "transport_error_text BucketNameTaken = ''bucket name is already taken by another account''"
| "transport_error_text AuthenticationFailed = ''cloud transport authentication failed''"
| "transport_error_text Timeout = ''cloud transport operation timed out''"
| "transport_error_text (TransportIo e) = ''cloud transport local I/O error''"
| "transport_error_text (RcloneProcessFailed exit_code stderr_sanitised) =
     ''rclone process failed with exit code '' @ show_int exit_code"
| "transport_error_text (SharingNotSupported m) = ''sharing is not supported by this cloud provider: '' @ m"
| "transport_error_text (OtherTransport m) = ''cloud transport error: '' @ m"


section \<open>Characters and strings of the standard library\<close>

definition is_control :: "char \<Rightarrow> bool" where
  "is_control c = (let n = of_char c :: nat in n < 32 \<or> 127 \<le> n \<and> n < 160)"

definition is_whitespace :: "char \<Rightarrow> bool" where
  "is_whitespace c = (let n = of_char c :: nat in 9 \<le> n \<and> n \<le> 13 \<or> n = 32 \<or> n = 133 \<or> n = 160)"

definition is_ascii_alphabetic :: "char \<Rightarrow> bool" where
  "is_ascii_alphabetic c = (let n = of_char c :: nat in 65 \<le> n \<and> n \<le> 90 \<or> 97 \<le> n \<and> n \<le> 122)"

definition is_ascii_alphanumeric :: "char \<Rightarrow> bool" where
  "is_ascii_alphanumeric c = (is_ascii_alphabetic c \<or> (let n = of_char c :: nat in 48 \<le> n \<and> n \<le> 57))"

definition ascii_lower :: "char \<Rightarrow> char" where
  "ascii_lower c = (let n = of_char c :: nat in if 65 \<le> n \<and> n \<le> 90 then char_of (n + 32) else c)"

definition to_ascii_lowercase :: "string \<Rightarrow> string" where
  "to_ascii_lowercase s = map ascii_lower s"

definition trim :: "string \<Rightarrow> string" where
  "trim s = rev (dropWhile is_whitespace (rev (dropWhile is_whitespace s)))"

fun contains_str :: "string \<Rightarrow> string \<Rightarrow> bool" where
  "contains_str p [] = (p = [])"
| "contains_str p (c # s) = (prefix p (c # s) \<or> contains_str p s)"

definition strip_prefix :: "string \<Rightarrow> string \<Rightarrow> string option" where
  "strip_prefix p s = (if prefix p s then Some (drop (length p) s) else None)"

text \<open>\<open>str::lines\<close>: a final newline ends the last line, and \<open>\r\<close> before a newline is dropped.\<close>

function str_lines :: "string \<Rightarrow> string list" where
  "str_lines s =
     (if s = [] then []
      else let l = takeWhile (\<lambda>c. c \<noteq> CHR 0x0A) s; more_text = dropWhile (\<lambda>c. c \<noteq> CHR 0x0A) s in
           (if more_text \<noteq> [] \<and> l \<noteq> [] \<and> last l = CHR 0x0D then butlast l else l) # str_lines (tl more_text))"
  by pat_completeness auto
termination
proof (relation "measure length")
  fix s l m :: string assume "s \<noteq> []" and m: "m = dropWhile (\<lambda>c. c \<noteq> CHR 0x0A) s"
  from \<open>s \<noteq> []\<close> have "0 < length s" by simp
  moreover have "length m \<le> length s" unfolding m by (rule length_dropWhile_le)
  ultimately have "length m - 1 < length s" by arith
  then show "(tl m, s) \<in> measure length" by simp
qed simp

declare str_lines.simps [simp del]

fun join_with :: "string \<Rightarrow> string list \<Rightarrow> string" where
  "join_with sep [] = []"
| "join_with sep [s] = s"
| "join_with sep (s # t # ts) = s @ sep @ join_with sep (t # ts)"


section \<open>Remote paths\<close>

definition rejected :: "string \<Rightarrow> string \<Rightarrow> transport_error" where
  "rejected what reason = OtherTransport (what @ '' rejected: '' @ reason)"

text \<open>The expression \<open>^[a-zA-Z0-9._/-]+$\<close>.\<close>

definition allowlist_regex :: "string \<Rightarrow> bool" where
  "allowlist_regex s = (s \<noteq> [] \<and> list_all (\<lambda>c. is_ascii_alphanumeric c \<or> c \<in> set ''._/-'') s)"

text \<open>The expression \<open>^[a-zA-Z0-9][a-zA-Z0-9._-]*$\<close>.\<close>

definition remote_name_regex :: "string \<Rightarrow> bool" where
  "remote_name_regex s =
     (s \<noteq> [] \<and> is_ascii_alphanumeric (hd s) \<and> list_all (\<lambda>c. is_ascii_alphanumeric c \<or> c \<in> set ''._-'') (tl s))"

definition validate_remote_path :: "string \<Rightarrow> transport_error + string" where
  "validate_remote_path remote_path =
     (if remote_path = [] then Inl (rejected ''remote path'' ''path is empty'')
      else if prefix ''/'' remote_path then Inl (rejected ''remote path'' ''absolute paths are not allowed'')
      else if contains_str ''..'' remote_path then Inl (rejected ''remote path'' ''parent traversal is not allowed'')
      else if list_ex is_control remote_path then Inl (rejected ''remote path'' ''control characters are not allowed'')
      else if \<not> allowlist_regex remote_path then Inl (rejected ''remote path'' ''only [a-zA-Z0-9._/-] is allowed'')
      else Inr remote_path)"

definition validate_remote_prefix :: "string \<Rightarrow> transport_error + string" where
  "validate_remote_prefix remote_prefix =
     (if remote_prefix = [] then Inr remote_prefix else validate_remote_path remote_prefix)"

definition validate_remote_name :: "string \<Rightarrow> transport_error + string" where
  "validate_remote_name remote_name =
     (if remote_name = [] then Inl (rejected ''remote root'' ''remote_name is empty'')
      else if list_ex is_control remote_name
      then Inl (rejected ''remote root'' ''remote_name contains control characters'')
      else if \<not> remote_name_regex remote_name
      then Inl (rejected ''remote root'' ''remote_name must match [a-zA-Z0-9][a-zA-Z0-9._-]*'')
      else Inr remote_name)"

definition validate_remote_root_component :: "string \<Rightarrow> string \<Rightarrow> bool \<Rightarrow> transport_error + string" where
  "validate_remote_root_component label value allow_empty =
     (if value = [] \<and> allow_empty then Inr value
      else if value = [] then Inl (rejected ''remote root'' (label @ '' is empty''))
      else if list_ex is_control value
      then Inl (rejected ''remote root'' (label @ '' contains control characters''))
      else if hd value = CHR ''/'' \<or> last value = CHR ''/''
      then Inl (rejected ''remote root'' (label @ '' must not start or end with '' @ [CHR 0x27] @ ''/'' @ [CHR 0x27]))
      else if contains_str ''//'' value
      then Inl (rejected ''remote root'' (label @ '' must not contain empty path segments''))
      else if contains_str ''..'' value
      then Inl (rejected ''remote root'' (label @ '' must not contain parent traversal''))
      else if CHR '':'' \<in> set value
      then Inl (rejected ''remote root'' (label @ '' must not contain '' @ [CHR 0x27] @ '':'' @ [CHR 0x27]))
      else if CHR 0x5C \<in> set value
      then Inl (rejected ''remote root''
             (label @ '' must not contain '' @ [CHR 0x27, CHR 0x5C, CHR 0x5C, CHR 0x27]))
      else if \<not> allowlist_regex value
      then Inl (rejected ''remote root'' (label @ '' contains disallowed characters''))
      else Inr value)"

definition compose_remote_root :: "string \<Rightarrow> string \<Rightarrow> string \<Rightarrow> transport_error + string" where
  "compose_remote_root remote_name bucket path_prefix =
     rbind (validate_remote_name remote_name) (\<lambda>remote_name.
     rbind (validate_remote_root_component ''bucket'' bucket True) (\<lambda>bucket.
     rbind (validate_remote_root_component ''path_prefix'' path_prefix True) (\<lambda>path_prefix.
     let root_path = bucket;
         root_path = (if path_prefix = [] then root_path
                      else (if root_path = [] then root_path else root_path @ ''/'') @ path_prefix)
     in if root_path = [] then Inr (remote_name @ '':'') else Inr (remote_name @ '':'' @ root_path))))"

definition validate_local_path_prefix :: "string \<Rightarrow> transport_error + unit" where
  "validate_local_path_prefix p =
     (if p = [] then Inl (rejected ''local path_prefix'' ''path is empty'')
      else if list_ex is_control p then Inl (rejected ''local path_prefix'' ''path contains control characters'')
      else if contains_str ''..'' p
      then Inl (rejected ''local path_prefix'' ''path must not contain parent traversal (..)'')
      else if contains_str ''//'' p
      then Inl (rejected ''local path_prefix'' ''path must not contain empty path segments (//)'')
      else
        let path_after_drive =
              (if length p \<ge> 2 \<and> p ! 1 = CHR '':'' \<and> is_ascii_alphabetic (p ! 0) then drop 2 p else p)
        in if CHR '':'' \<in> set path_after_drive
           then Inl (rejected ''local path_prefix''
                  (''path must not contain '' @ [CHR 0x27] @ '':'' @ [CHR 0x27] @ '' except for a leading drive letter''))
           else Inr ())"


section \<open>Endpoints\<close>

record cloud_endpoint =
  cp_provider :: string
  cp_bucket :: string
  cp_region :: string
  cp_endpoint :: string
  cp_path_prefix :: string

definition extract_authority_host :: "string \<Rightarrow> transport_error + string" where
  "extract_authority_host authority =
     (if prefix ''['' authority then
        if CHR '']'' \<notin> set authority then Inl (rejected ''cloud endpoint'' ''invalid IPv6 host'')
        else Inr (tl (takeWhile (\<lambda>c. c \<noteq> CHR '']'') authority))
      else Inr (takeWhile (\<lambda>c. c \<noteq> CHR '':'') authority))"

definition is_local_development_host :: "string \<Rightarrow> bool" where
  "is_local_development_host host =
     (to_ascii_lowercase host = ''localhost'' \<or> host = ''::1'' \<or> prefix ''127.'' host)"

text \<open>The value of \<open>ARX_RUNA_ALLOW_LOCAL_DEV_HTTP_ENDPOINTS\<close> is the argument.\<close>

definition local_dev_http_override_enabled :: "string option \<Rightarrow> bool" where
  "local_dev_http_override_enabled var =
     (case var of None \<Rightarrow> False
      | Some value \<Rightarrow> to_ascii_lowercase (trim value) \<in> set [''1'', ''true'', ''yes'', ''on''])"

definition endpoint_scheme :: "string \<Rightarrow> (string \<times> string) option" where
  "endpoint_scheme endpoint =
     (case strip_prefix ''https://'' endpoint of
        Some r \<Rightarrow> Some (''https'', r)
      | None \<Rightarrow> map_option (\<lambda>r. (''http'', r)) (strip_prefix ''http://'' endpoint))"

definition validate_endpoint_url_with_policy :: "string \<Rightarrow> bool \<Rightarrow> transport_error + unit" where
  "validate_endpoint_url_with_policy endpoint http_override =
     (if endpoint = [] then Inr ()
      else if list_ex is_control endpoint
      then Inl (rejected ''cloud endpoint'' ''endpoint contains control characters'')
      else if CHR ''?'' \<in> set endpoint \<or> CHR ''#'' \<in> set endpoint
      then Inl (rejected ''cloud endpoint'' ''query and fragment are not allowed'')
      else
        rbind (ok_or (rejected ''cloud endpoint''
                 ''endpoint must start with https:// (or local-dev http:// with explicit opt-in)'')
                 (endpoint_scheme endpoint)) (\<lambda>(scheme, remaining).
        let authority = takeWhile (\<lambda>c. c \<noteq> CHR ''/'') remaining;
            path_part = dropWhile (\<lambda>c. c \<noteq> CHR ''/'') remaining in
        rbind (ensure (rejected ''cloud endpoint'' ''endpoint host is required'') (remaining \<noteq> [])) (\<lambda>_.
        rbind (ensure (rejected ''cloud endpoint'' ''endpoint host is required'') (authority \<noteq> [])) (\<lambda>_.
        rbind (ensure (rejected ''cloud endpoint'' ''userinfo is not allowed in endpoint'')
                 (CHR ''@'' \<notin> set authority)) (\<lambda>_.
        rbind (extract_authority_host authority) (\<lambda>authority_host.
        rbind (ensure (rejected ''cloud endpoint'' ''endpoint host is required'') (authority_host \<noteq> [])) (\<lambda>_.
        rbind (ensure (rejected ''cloud endpoint''
                 ''http:// is disabled by default; only local-development endpoints are allowed when ARX_RUNA_ALLOW_LOCAL_DEV_HTTP_ENDPOINTS=1'')
                 (scheme \<noteq> ''http'' \<or>
                  http_override \<and> is_local_development_host authority_host)) (\<lambda>_.
        ensure (rejected ''cloud endpoint'' ''endpoint path is not allowed'')
          (path_part = [] \<or> path_part = ''/'')))))))))"

definition validate_endpoint_url :: "string option \<Rightarrow> string \<Rightarrow> transport_error + unit" where
  "validate_endpoint_url var endpoint =
     validate_endpoint_url_with_policy endpoint (local_dev_http_override_enabled var)"

definition validate_endpoint :: "string option \<Rightarrow> cloud_endpoint \<Rightarrow> transport_error + unit" where
  "validate_endpoint var e =
     rbind (ensure (rejected ''cloud endpoint'' ''provider is required'') (trim (cp_provider e) \<noteq> [])) (\<lambda>_.
     rbind (ensure (rejected ''cloud endpoint'' ''bucket contains control characters'')
              (\<not> list_ex is_control (cp_bucket e))) (\<lambda>_.
     rbind (validate_remote_root_component ''bucket'' (cp_bucket e) True) (\<lambda>_.
     rbind (ensure (rejected ''cloud endpoint'' ''region contains control characters'')
              (\<not> list_ex is_control (cp_region e))) (\<lambda>_.
     rbind (validate_remote_root_component ''path_prefix'' (cp_path_prefix e) True) (\<lambda>_.
     validate_endpoint_url var (cp_endpoint e))))))"


section \<open>Synchronisation settings, and what is logged of rclone\<close>

record sync_config =
  max_concurrent :: u32
  operation_timeout_seconds :: u64

definition default_sync_config :: sync_config where
  "default_sync_config = \<lparr>max_concurrent = 4, operation_timeout_seconds = 300\<rparr>"

definition validate_sync_config :: "sync_config \<Rightarrow> transport_error + unit" where
  "validate_sync_config c =
     rbind (ensure (OtherTransport ''sync config invalid: max_concurrent must be in 1..=16'')
              (1 \<le> max_concurrent c \<and> max_concurrent c \<le> 16)) (\<lambda>_.
     ensure (OtherTransport ''sync config invalid: operation_timeout_seconds must be in 60..=3600'')
       (60 \<le> operation_timeout_seconds c \<and> operation_timeout_seconds c \<le> 3600))"

definition new_sync_config :: "u32 \<Rightarrow> u64 \<Rightarrow> transport_error + sync_config" where
  "new_sync_config concurrent seconds =
     (let config = \<lparr>max_concurrent = concurrent, operation_timeout_seconds = seconds\<rparr> in
      rbind (validate_sync_config config) (\<lambda>_. Inr config))"

definition SENSITIVE_KEYWORDS :: "string list" where
  "SENSITIVE_KEYWORDS = [''token'', ''key'', ''secret'', ''password'', ''credential'']"

definition sanitise_stderr :: "string \<Rightarrow> string" where
  "sanitise_stderr raw =
     (if raw = [] then []
      else let filtered = filter (\<lambda>line. \<not> list_ex (\<lambda>k. contains_str k (to_ascii_lowercase line)) SENSITIVE_KEYWORDS)
                            (str_lines raw)
           in if filtered = [] then ''<credentials scrubbed>'' else join_with [CHR 0x0A] filtered)"

end
