(* ===== verification/Cloud_Transport.thy ===== *)
theory Cloud_Transport
  imports Remote_Path Metadata_Store Sqlcipher_Sync
begin

text \<open>
  The trait \<open>CloudTransport\<close> of \<open>storage/cloud/mod.rs\<close> as a record of effects, what its users rely on
  as the locale \<open>cloud_transport\<close>, and the implementation \<open>MockCloudTransport\<close> of \<open>mock.rs\<close>, which
  interprets it.  The state of a program that talks to the cloud holds the manifest database and the
  state behind the transport.
\<close>

section \<open>The trait\<close>

record 'r site =
  manifest :: db
  remote :: 'r

type_synonym ('r, 'e, 'a) cloud_prog = "('r site, 'e, 'a) prog"

record 'r transport =
  ct_upload_blob :: "path \<Rightarrow> string \<Rightarrow> ('r, transport_error, unit) cloud_prog"
  ct_download_blob :: "string \<Rightarrow> path \<Rightarrow> ('r, transport_error, unit) cloud_prog"
  ct_delete_blob :: "string \<Rightarrow> ('r, transport_error, unit) cloud_prog"
  ct_list_blobs :: "string \<Rightarrow> ('r, transport_error, string list) cloud_prog"
  ct_is_configured :: bool
  ct_cleanup_session_artifacts :: "('r, transport_error, unit) cloud_prog"
  ct_ensure_container :: "('r, transport_error, unit) cloud_prog"
  ct_ensure_folder :: "string \<Rightarrow> ('r, transport_error, unit) cloud_prog"

text \<open>The default bodies of the trait.\<close>

definition default_is_configured :: bool where
  "default_is_configured = True"

definition default_cleanup_session_artifacts :: "('r, transport_error, unit) cloud_prog" where
  "default_cleanup_session_artifacts = ret ()"

definition default_ensure_container :: "('r, transport_error, unit) cloud_prog" where
  "default_ensure_container = ret ()"

definition default_ensure_folder :: "string \<Rightarrow> ('r, transport_error, unit) cloud_prog" where
  "default_ensure_folder remote_prefix = ret ()"

text \<open>A call on the manifest database.\<close>

definition db_query :: "env \<Rightarrow> (db \<Rightarrow> storage_error + 'a) \<Rightarrow> ('r, storage_error, 'a) cloud_prog" where
  "db_query E f = query E (\<lambda>s. f (manifest s))"

definition db_mutate :: "env \<Rightarrow> (nat \<Rightarrow> db \<Rightarrow> storage_error + db) \<Rightarrow> ('r, storage_error, unit) cloud_prog" where
  "db_mutate E f = mutate E (\<lambda>t s. rbind (f t (manifest s)) (\<lambda>d. Inr (s\<lparr>manifest := d\<rparr>)))"

text \<open>A mutation that also returns a value.\<close>

definition db_update :: "env \<Rightarrow> (db \<Rightarrow> storage_error + ('a \<times> db)) \<Rightarrow> ('r, storage_error, 'a) cloud_prog" where
  "db_update E f w =
     (case os_fault E (tick w) of
        Some (m, _) \<Rightarrow> (Inl (Database m), next_tick w)
      | None \<Rightarrow>
          (case f (manifest (store w)) of
             Inl e \<Rightarrow> (Inl e, next_tick w)
           | Inr (a, d) \<Rightarrow> (Inr a, (next_tick w)\<lparr>store := (store w)\<lparr>manifest := d\<rparr>\<rparr>)))"


section \<open>The laws\<close>

text \<open>
  \<open>remote_only X w w'\<close>: between \<open>w\<close> and \<open>w'\<close> only remote objects named in \<open>X\<close> changed, no local file did.
\<close>

definition remote_only :: "('r \<Rightarrow> string \<Rightarrow> bytes option) \<Rightarrow> string set \<Rightarrow> 'r site world \<Rightarrow> 'r site world \<Rightarrow> bool" where
  "remote_only objects X w w' \<longleftrightarrow>
     files w' = files w \<and> dirs w' = dirs w \<and> tick w \<le> tick w' \<and> manifest (store w') = manifest (store w) \<and>
     (\<forall>q. q \<notin> X \<longrightarrow> objects (remote (store w')) q = objects (remote (store w)) q)"

text \<open>
  Transfers copy whole objects and touch nothing else; a transfer that fails may leave its target in any
  state.  Nothing is promised about the download of an object that does not exist: some backends report
  success without creating the file.
\<close>

definition objects_at :: "('r \<Rightarrow> string \<Rightarrow> bytes option) \<Rightarrow> 'r site world \<Rightarrow> string \<Rightarrow> bytes option" where
  "objects_at objects w = objects (remote (store w))"

locale cloud_transport =
  fixes CT :: "'r transport"
    and objects :: "'r \<Rightarrow> string \<Rightarrow> bytes option"
  assumes upload: "ct_upload_blob CT p q w = (r, w') \<Longrightarrow> remote_only objects {q} w w'"
    and upload_ok: "ct_upload_blob CT p q w = (Inr u, w') \<Longrightarrow>
          \<exists>b. file_at w p = Some b \<and> objects_at objects w' q = Some b"
    and download: "ct_download_blob CT q p w = (r, w') \<Longrightarrow>
          dirs w' = dirs w \<and> tick w \<le> tick w' \<and> manifest (store w') = manifest (store w) \<and>
          objects_at objects w' = objects_at objects w \<and> (\<forall>p'. p' \<noteq> p \<longrightarrow> file_at w' p' = file_at w p')"
    and download_ok: "ct_download_blob CT q p w = (Inr u, w') \<Longrightarrow> objects_at objects w q = Some b \<Longrightarrow>
          file_at w' p = Some b"
    and delete: "ct_delete_blob CT q w = (r, w') \<Longrightarrow> remote_only objects {q} w w'"
    and delete_ok: "ct_delete_blob CT q w = (Inr u, w') \<Longrightarrow> objects_at objects w' q = None"
    and list_blobs: "ct_list_blobs CT x w = (r', w') \<Longrightarrow> remote_only objects {} w w'"
    and list_blobs_ok: "ct_list_blobs CT x w = (Inr names, w') \<Longrightarrow> n \<in> set names \<Longrightarrow>
          prefix x n \<and> objects_at objects w n \<noteq> None"
    and ensure_folder: "ct_ensure_folder CT x w = (r, w') \<Longrightarrow> remote_only objects {} w w'"

text \<open>A backend that reports a missing object only when the object is missing.\<close>

locale honest_transport = cloud_transport +
  assumes not_found: "ct_download_blob CT q p w = (Inl BlobNotFound, w') \<Longrightarrow> objects_at objects w q = None"

section \<open>The in-memory transport\<close>

text \<open>
  \<open>failure_paths\<close> holds the injected one-shot failures; the error kinds of the source mirror the
  errors of the transport one to one.
\<close>

record mock_cloud =
  mc_blobs :: "(string \<times> bytes) list"
  mc_failure_paths :: "(string \<times> transport_error) list"

definition mock_new :: mock_cloud where
  "mock_new = \<lparr>mc_blobs = [], mc_failure_paths = []\<rparr>"

definition set_remote :: "('r \<Rightarrow> 'r) \<Rightarrow> 'r site world \<Rightarrow> 'r site world" where
  "set_remote f w = w\<lparr>store := (store w)\<lparr>remote := f (remote (store w))\<rparr>\<rparr>"

definition inject_failure :: "string \<Rightarrow> transport_error \<Rightarrow> mock_cloud \<Rightarrow> mock_cloud" where
  "inject_failure p kind m = m\<lparr>mc_failure_paths := AList.update p kind (mc_failure_paths m)\<rparr>"

definition check_failure :: "string \<Rightarrow> (mock_cloud, transport_error, unit) cloud_prog" where
  "check_failure p w =
     (let maybe_kind = map_of (mc_failure_paths (remote (store w))) p;
          w' = set_remote (\<lambda>m. m\<lparr>mc_failure_paths := AList.delete p (mc_failure_paths m)\<rparr>) w
      in case maybe_kind of Some kind \<Rightarrow> (Inl kind, w') | None \<Rightarrow> (Inr (), w'))"

text \<open>The transfers ask for injected failures only in a build for tests; \<open>t\<close> says whether it is one.\<close>

definition guard_failure :: "bool \<Rightarrow> string \<Rightarrow> (mock_cloud, transport_error, unit) cloud_prog" where
  "guard_failure t p = (if t then check_failure p else ret ())"

definition mock_upload_blob :: "bool \<Rightarrow> env \<Rightarrow> path \<Rightarrow> string \<Rightarrow> (mock_cloud, transport_error, unit) cloud_prog" where
  "mock_upload_blob t E local_path remote_path =
     bind (guard_failure t remote_path) (\<lambda>_.
     bind (with_err TransportIo (fs_read E local_path)) (\<lambda>bs w.
     (Inr (), set_remote (\<lambda>m. m\<lparr>mc_blobs := AList.update remote_path bs (mc_blobs m)\<rparr>) w)))"

definition mock_download_blob :: "bool \<Rightarrow> env \<Rightarrow> string \<Rightarrow> path \<Rightarrow> (mock_cloud, transport_error, unit) cloud_prog" where
  "mock_download_blob t E remote_path local_path =
     bind (guard_failure t remote_path) (\<lambda>_.
     bind get_world (\<lambda>w.
     bind (lift (ok_or BlobNotFound (map_of (mc_blobs (remote (store w))) remote_path))) (\<lambda>bs.
     with_err TransportIo (fs_write E local_path bs))))"

definition mock_delete_blob :: "bool \<Rightarrow> string \<Rightarrow> (mock_cloud, transport_error, unit) cloud_prog" where
  "mock_delete_blob t remote_path =
     bind (guard_failure t remote_path) (\<lambda>_ w.
     (Inr (), set_remote (\<lambda>m. m\<lparr>mc_blobs := AList.delete remote_path (mc_blobs m)\<rparr>) w))"

definition mock_list_blobs :: "bool \<Rightarrow> string \<Rightarrow> (mock_cloud, transport_error, string list) cloud_prog" where
  "mock_list_blobs t remote_prefix =
     bind (guard_failure t remote_prefix) (\<lambda>_.
     bind get_world (\<lambda>w.
     ret (sort (filter (\<lambda>k. prefix remote_prefix k \<and> length k > length remote_prefix)
            (remdups (map fst (mc_blobs (remote (store w)))))))))"

definition mock_transport :: "bool \<Rightarrow> env \<Rightarrow> mock_cloud transport" where
  "mock_transport t E =
     \<lparr>ct_upload_blob = mock_upload_blob t E, ct_download_blob = mock_download_blob t E,
      ct_delete_blob = mock_delete_blob t, ct_list_blobs = mock_list_blobs t,
      ct_is_configured = default_is_configured, ct_cleanup_session_artifacts = ret (),
      ct_ensure_container = default_ensure_container, ct_ensure_folder = default_ensure_folder\<rparr>"

definition mock_objects :: "mock_cloud \<Rightarrow> string \<Rightarrow> bytes option" where
  "mock_objects m = map_of (mc_blobs m)"

lemma set_remote_simps [simp]:
  "store (set_remote f w) = (store w)\<lparr>remote := f (remote (store w))\<rparr>" "files (set_remote f w) = files w"
  "dirs (set_remote f w) = dirs w" "tick (set_remote f w) = tick w" "progress_log (set_remote f w) = progress_log w"
  by (simp_all add: set_remote_def)

lemma guard_failure_outcome:
  assumes "guard_failure t p w = (r, w')"
  shows "(\<exists>l. w' = set_remote (\<lambda>m. m\<lparr>mc_failure_paths := l\<rparr>) w) \<and> (\<not> t \<longrightarrow> r = Inr ())"
proof (cases t)
  case True
  with assms show ?thesis by (auto simp: guard_failure_def check_failure_def Let_def set_remote_def split: option.splits)
next
  case False
  with assms have "w' = set_remote (\<lambda>m. m\<lparr>mc_failure_paths := mc_failure_paths (remote (store w))\<rparr>) w" "r = Inr ()"
    by (simp_all add: guard_failure_def ret_def set_remote_def)
  then show ?thesis by blast
qed

lemma remote_only_refl [simp]: "remote_only objects X w w"
  by (simp add: remote_only_def)

lemma mock_upload_outcome:
  assumes "mock_upload_blob t E p q w = (r, w')"
  shows "remote_only mock_objects {q} w w' \<and>
    (is_ok r \<longrightarrow> (\<exists>b. file_at w p = Some b \<and> objects_at mock_objects w' q = Some b))"
  using assms
  by (auto simp: mock_upload_blob_def bind_def with_err_def fs_defs remote_only_def mock_objects_def objects_at_def
        map_of_update dest!: guard_failure_outcome split: prod.splits sum.splits option.splits)

lemma mock_download_outcome:
  assumes "mock_download_blob t E q p w = (r, w')"
  shows "dirs w' = dirs w \<and> tick w \<le> tick w' \<and> manifest (store w') = manifest (store w) \<and>
    objects_at mock_objects w' = objects_at mock_objects w \<and> (\<forall>p'. p' \<noteq> p \<longrightarrow> file_at w' p' = file_at w p') \<and>
    (is_ok r \<longrightarrow> file_at w' p = objects_at mock_objects w q) \<and>
    (r = Inl BlobNotFound \<longrightarrow> t \<or> objects_at mock_objects w q = None)"
proof -
  obtain r1 w1 where 1: "guard_failure t q w = (r1, w1)" by fastforce
  from guard_failure_outcome [OF 1] obtain l where w1: "w1 = set_remote (\<lambda>m. m\<lparr>mc_failure_paths := l\<rparr>) w" by blast
  have "\<not> t \<longrightarrow> r1 = Inr ()" using guard_failure_outcome [OF 1] by blast
  then show ?thesis
    using assms 1
    by (auto simp: w1 mock_download_blob_def bind_def with_err_def get_world_def lift_def fs_write_def mock_objects_def
          objects_at_def map_of_update result_simps split: sum.splits option.splits prod.splits if_splits)
qed

lemma mock_delete_outcome:
  assumes "mock_delete_blob t q w = (r, w')"
  shows "remote_only mock_objects {q} w w' \<and> (is_ok r \<longrightarrow> objects_at mock_objects w' q = None)"
  using assms
  by (auto simp: mock_delete_blob_def bind_def remote_only_def mock_objects_def objects_at_def map_of_delete
        dest!: guard_failure_outcome split: prod.splits sum.splits)

lemma mock_list_outcome:
  assumes "mock_list_blobs t x w = (r, w')"
  shows "remote_only mock_objects {} w w' \<and>
    (\<forall>names n. r = Inr names \<longrightarrow> n \<in> set names \<longrightarrow> prefix x n \<and> objects_at mock_objects w n \<noteq> None)"
  using assms
  by (auto simp: mock_list_blobs_def bind_def get_world_def remote_only_def mock_objects_def objects_at_def
        map_of_eq_None_iff dest!: guard_failure_outcome split: prod.splits sum.splits)

interpretation mock: cloud_transport "mock_transport t E" mock_objects
  by unfold_locales
    (auto simp: mock_transport_def default_ensure_folder_def dest: mock_upload_outcome mock_download_outcome
      mock_delete_outcome mock_list_outcome)

text \<open>In a build without test support no failure is injected.\<close>

interpretation plain_mock: honest_transport "mock_transport False E" mock_objects
  by unfold_locales (auto simp: mock_transport_def dest: mock_download_outcome)

end
