(* ===== verification/Vault_Header.thy ===== *)
theory Vault_Header
  imports Cloud_Transport
begin

text \<open>
  The plaintext vault header: \<open>storage/cloud/vault_header.rs\<close> (the types and the trust policy) and
  \<open>vault_header_io.rs\<close> (upload and download).  The \<open>base64\<close> and \<open>hex\<close> crates, \<open>serde_json\<close> and SQLCipher's
  file format are fields of the record \<open>cloud_env\<close>, with the random numbers and the order in which
  concurrent transfers complete.
\<close>

section \<open>Types\<close>

record argon2_parameters =
  ap_memory_cost :: u32
  ap_time_cost :: u32
  ap_parallelism :: u32

record recovery_slot =
  rs_method :: string
  rs_argon2_salt :: string
  rs_argon2_params :: argon2_parameters
  rs_wrapped_master_key :: string

record vault_header =
  vh_vault_id :: string
  vh_schema_version :: u32
  vh_tier :: nat
  vh_argon2_salt :: string
  vh_argon2_params :: argon2_parameters
  vh_key_file_blake3 :: "string option"
  vh_recovery_slots :: "recovery_slot list"
  vh_name :: "string option"

record trusted_anchor =
  ta_vault_id :: string
  ta_argon2_salt :: string
  ta_argon2_params :: argon2_parameters

datatype trust_policy = Bootstrap | ExistingDevice trusted_anchor

datatype vault_header_error =
    UnsupportedSchemaVersion u32
  | UnsupportedTier nat
  | KeyFileBlake3DecodeFailed
  | KeyFileBlake3WrongLength
  | SaltDecodeFailed
  | SaltWrongLength
  | Argon2ParamsBelowMinimum
  | RecoverySlotSaltDecodeFailed
  | RecoverySlotSaltWrongLength
  | RecoverySlotBlobDecodeFailed
  | RecoverySlotBlobWrongLength
  | RecoverySlotArgon2ParamsBelowMinimum
  | TrustedVaultIdMismatch
  | TrustedArgon2SaltMismatch
  | TrustedArgon2ParamsMismatch

fun vault_header_error_text :: "vault_header_error \<Rightarrow> string" where
  "vault_header_error_text (UnsupportedSchemaVersion v) = ''unsupported vault header schema version: '' @ show_nat v"
| "vault_header_error_text (UnsupportedTier t) = ''unsupported tier: '' @ show_nat t"
| "vault_header_error_text KeyFileBlake3DecodeFailed = ''key_file_blake3 failed hex decode''"
| "vault_header_error_text KeyFileBlake3WrongLength = ''key_file_blake3 must decode to 32 bytes''"
| "vault_header_error_text SaltDecodeFailed = ''argon2_salt failed base64 decode''"
| "vault_header_error_text SaltWrongLength = ''argon2_salt must decode to 32 bytes''"
| "vault_header_error_text Argon2ParamsBelowMinimum = ''argon2_params are below minimum floor values''"
| "vault_header_error_text RecoverySlotSaltDecodeFailed = ''recovery slot argon2_salt failed base64 decode''"
| "vault_header_error_text RecoverySlotSaltWrongLength = ''recovery slot argon2_salt must decode to 32 bytes''"
| "vault_header_error_text RecoverySlotBlobDecodeFailed = ''recovery slot wrapped_master_key failed base64 decode''"
| "vault_header_error_text RecoverySlotBlobWrongLength = ''recovery slot wrapped_master_key must decode to 72 bytes''"
| "vault_header_error_text RecoverySlotArgon2ParamsBelowMinimum =
     ''recovery slot argon2_params are below minimum floor values''"
| "vault_header_error_text TrustedVaultIdMismatch = ''vault_id does not match trusted local anchor''"
| "vault_header_error_text TrustedArgon2SaltMismatch = ''argon2_salt does not match trusted local anchor''"
| "vault_header_error_text TrustedArgon2ParamsMismatch = ''argon2_params do not match trusted local anchor''"

text \<open>
  \<open>draw_u64 t\<close> is the random number drawn at tick \<open>t\<close>, \<open>schedule t\<close> picks the transfer that completes at
  tick \<open>t\<close>, \<open>map_order\<close> is the order in which a \<open>HashMap\<close> is iterated.  \<open>sql_image k d\<close> is a database file with contents \<open>d\<close> under key \<open>k\<close>, \<open>sql_open\<close> reads one, and
  \<open>sql_check\<close> gives the answers of the two PRAGMA checks on it.
\<close>

record cloud_env =
  draw_u64 :: "nat \<Rightarrow> u64"
  schedule :: "nat \<Rightarrow> nat"
  base64_decode :: "string \<Rightarrow> bytes option"
  hex_decode :: "string \<Rightarrow> bytes option"
  header_to_json :: "vault_header \<Rightarrow> bytes option"
  header_from_json :: "bytes \<Rightarrow> vault_header option"
  live_open :: "bytes \<Rightarrow> storage_error + unit"
  sql_image :: "bytes \<Rightarrow> db \<Rightarrow> bytes"
  sql_open :: "bytes \<Rightarrow> bytes \<Rightarrow> storage_error + db"
  sql_check :: "bytes \<Rightarrow> string \<times> (string \<times> i64 \<times> string option \<times> i64) option"
  temp_name :: "nat \<Rightarrow> string"
  map_order :: "(string \<times> bytes) list \<Rightarrow> (string \<times> bytes) list"


section \<open>Validation\<close>

definition SCHEMA_VERSION :: u32 where "SCHEMA_VERSION = 1"

definition ARGON2_MIN_MEMORY_COST_KIB :: u32 where "ARGON2_MIN_MEMORY_COST_KIB = 19456"

definition ARGON2_MIN_TIME_COST :: u32 where "ARGON2_MIN_TIME_COST = 2"

definition ARGON2_MIN_PARALLELISM :: u32 where "ARGON2_MIN_PARALLELISM = 1"

definition validate_argon2_parameters :: "argon2_parameters \<Rightarrow> unit + unit" where
  "validate_argon2_parameters p =
     (if ap_memory_cost p < ARGON2_MIN_MEMORY_COST_KIB \<or> ap_time_cost p < ARGON2_MIN_TIME_COST \<or>
         ap_parallelism p < ARGON2_MIN_PARALLELISM
      then Inl () else Inr ())"

definition decode_exact :: "(string \<Rightarrow> bytes option) \<Rightarrow> 'e \<Rightarrow> 'e \<Rightarrow> nat \<Rightarrow> string \<Rightarrow> 'e + unit" where
  "decode_exact decode failed wrong_length n text =
     rbind (ok_or failed (decode text)) (\<lambda>bs. ensure wrong_length (length bs = n))"

definition validate_slot :: "cloud_env \<Rightarrow> recovery_slot \<Rightarrow> vault_header_error + unit" where
  "validate_slot C slot =
     rbind (decode_exact (base64_decode C) RecoverySlotSaltDecodeFailed RecoverySlotSaltWrongLength 32
              (rs_argon2_salt slot)) (\<lambda>_.
     decode_exact (base64_decode C) RecoverySlotBlobDecodeFailed RecoverySlotBlobWrongLength 72
       (rs_wrapped_master_key slot))"

definition validate_structure :: "cloud_env \<Rightarrow> vault_header \<Rightarrow> vault_header_error + unit" where
  "validate_structure C h =
     rbind (ensure (UnsupportedSchemaVersion (vh_schema_version h)) (vh_schema_version h = SCHEMA_VERSION)) (\<lambda>_.
     rbind (if vh_tier h = 1 \<or> vh_tier h = 2 then
              case vh_key_file_blake3 h of
                None \<Rightarrow> Inr ()
              | Some hex_digest \<Rightarrow>
                  decode_exact (hex_decode C) KeyFileBlake3DecodeFailed KeyFileBlake3WrongLength 32 hex_digest
            else Inl (UnsupportedTier (vh_tier h))) (\<lambda>_.
     rbind (decode_exact (base64_decode C) SaltDecodeFailed SaltWrongLength 32 (vh_argon2_salt h)) (\<lambda>_.
     rfold (\<lambda>slot _. validate_slot C slot) (vh_recovery_slots h) ())))"

definition validate_trust_policy :: "cloud_env \<Rightarrow> trust_policy \<Rightarrow> vault_header \<Rightarrow> vault_header_error + unit" where
  "validate_trust_policy C policy h =
     rbind (validate_structure C h) (\<lambda>_.
     rbind (map_err (\<lambda>_. Argon2ParamsBelowMinimum) (validate_argon2_parameters (vh_argon2_params h))) (\<lambda>_.
     rbind (rfold (\<lambda>slot _. map_err (\<lambda>_. RecoverySlotArgon2ParamsBelowMinimum)
                               (validate_argon2_parameters (rs_argon2_params slot))) (vh_recovery_slots h) ()) (\<lambda>_.
     case policy of
       Bootstrap \<Rightarrow> Inr ()
     | ExistingDevice anchor \<Rightarrow>
         if vh_vault_id h \<noteq> ta_vault_id anchor then Inl TrustedVaultIdMismatch
         else if vh_argon2_salt h \<noteq> ta_argon2_salt anchor then Inl TrustedArgon2SaltMismatch
         else if vh_argon2_params h \<noteq> ta_argon2_params anchor then Inl TrustedArgon2ParamsMismatch
         else Inr ())))"

definition validate_header :: "cloud_env \<Rightarrow> vault_header \<Rightarrow> vault_header_error + unit" where
  "validate_header C h = rbind (validate_structure C h) (\<lambda>_. validate_trust_policy C Bootstrap h)"


section \<open>Transfer\<close>

datatype header_sync_error =
    SerialiseFailed
  | HeaderStagingIo string
  | HeaderTransport transport_error
  | DeserialiseFailed
  | HeaderValidation vault_header_error

fun header_sync_error_text :: "header_sync_error \<Rightarrow> string" where
  "header_sync_error_text SerialiseFailed = ''vault header serialisation failed''"
| "header_sync_error_text (HeaderStagingIo m) = ''vault header staging I/O failed: '' @ m"
| "header_sync_error_text (HeaderTransport e) = ''vault header cloud transport failed: '' @ transport_error_text e"
| "header_sync_error_text DeserialiseFailed = ''vault header JSON decode failed''"
| "header_sync_error_text (HeaderValidation e) = ''vault header validation failed: '' @ vault_header_error_text e"

fun io_text :: "io_error \<Rightarrow> string" where
  "io_text (IoError k m) = m"

definition VAULT_HEADER_BLOB_NAME :: string where
  "VAULT_HEADER_BLOB_NAME = ''vault-header.json''"

definition VAULT_HEADER_UPLOAD_STAGING_FILE_NAME :: string where
  "VAULT_HEADER_UPLOAD_STAGING_FILE_NAME = ''pending-vault-header.json''"

definition VAULT_HEADER_DOWNLOAD_STAGING_FILE_NAME :: string where
  "VAULT_HEADER_DOWNLOAD_STAGING_FILE_NAME = ''pending-vault-header-download.json''"

text \<open>Three modules hold a copy of this function.\<close>

definition remove_file_if_present :: "env \<Rightarrow> path \<Rightarrow> ('s, io_error, unit) prog" where
  "remove_file_if_present E p =
     bind (attempt (fs_remove E p)) (\<lambda>r.
     case r of
       Inr _ \<Rightarrow> ret ()
     | Inl error \<Rightarrow> if io_error_kind error = KindNotFound then ret () else fail error)"

definition write_owner_only_staging_file :: "env \<Rightarrow> path \<Rightarrow> bytes \<Rightarrow> ('s, io_error, unit) prog" where
  "write_owner_only_staging_file E p bs =
     bind (fs_create_dir_all E (parent_dir p)) (\<lambda>_.
     bind (fs_write E p bs) (\<lambda>_.
     bind (fs_sync E) (\<lambda>_.
     fs_sync E)))"

definition cloud_header :: "vault_header \<Rightarrow> vault_header" where
  "cloud_header h = h\<lparr>vh_key_file_blake3 := None, vh_name := None\<rparr>"

definition upload_vault_header ::
  "env \<Rightarrow> cloud_env \<Rightarrow> 'r transport \<Rightarrow> vault_header \<Rightarrow> path \<Rightarrow> ('r, header_sync_error, unit) cloud_prog" where
  "upload_vault_header E C CT header staging_dir =
     bind (lift (ok_or SerialiseFailed (header_to_json C (cloud_header header)))) (\<lambda>json_bytes.
     let staging_path = staging_dir @ [VAULT_HEADER_UPLOAD_STAGING_FILE_NAME] in
     bind (attempt (write_owner_only_staging_file E staging_path json_bytes)) (\<lambda>written.
     case written of
       Inl error \<Rightarrow>
         bind (attempt (remove_file_if_present E staging_path)) (\<lambda>_.
         fail (HeaderStagingIo (io_text error)))
     | Inr _ \<Rightarrow>
         bind (with_err HeaderTransport (ct_upload_blob CT staging_path VAULT_HEADER_BLOB_NAME)) (\<lambda>_.
         bind (attempt (remove_file_if_present E staging_path)) (\<lambda>_.
         ret ()))))"

definition download_vault_header ::
  "env \<Rightarrow> cloud_env \<Rightarrow> 'r transport \<Rightarrow> path \<Rightarrow> trust_policy \<Rightarrow> ('r, header_sync_error, vault_header) cloud_prog" where
  "download_vault_header E C CT staging_dir policy =
     (let temp_path = staging_dir @ [VAULT_HEADER_DOWNLOAD_STAGING_FILE_NAME] in
      bind (attempt (ct_download_blob CT VAULT_HEADER_BLOB_NAME temp_path)) (\<lambda>downloaded.
      case downloaded of
        Inl error \<Rightarrow>
          bind (attempt (remove_file_if_present E temp_path)) (\<lambda>_.
          fail (HeaderTransport error))
      | Inr _ \<Rightarrow>
          bind (attempt (fs_read E temp_path)) (\<lambda>read_result.
          bind (attempt (remove_file_if_present E temp_path)) (\<lambda>_.
          bind (lift (map_err (\<lambda>e. HeaderStagingIo (io_text e)) read_result)) (\<lambda>bs.
          bind (lift (ok_or DeserialiseFailed (header_from_json C bs))) (\<lambda>header.
          bind (lift (map_err HeaderValidation (validate_trust_policy C policy header))) (\<lambda>_.
          ret header)))))))"


section \<open>Facts\<close>

lemma decode_exact_eq_Inr [result_simps]:
  "decode_exact f a b n s = Inr u \<longleftrightarrow> (\<exists>bs. f s = Some bs \<and> length bs = n)"
  by (auto simp: decode_exact_def result_simps)

text \<open>What the trust policy accepts.\<close>

lemma rfold_unit_eq_Inr: "rfold (\<lambda>x _. f x) xs () = Inr u \<longleftrightarrow> (\<forall>x \<in> set xs. f x = Inr ())"
  by (induction xs) (auto simp: result_simps)

definition argon2_floor :: "argon2_parameters \<Rightarrow> bool" where
  "argon2_floor p \<longleftrightarrow> 19456 \<le> ap_memory_cost p \<and> 2 \<le> ap_time_cost p \<and> 1 \<le> ap_parallelism p"

lemma validate_argon2_eq_Inr [result_simps]: "validate_argon2_parameters p = Inr u \<longleftrightarrow> argon2_floor p"
  by (auto simp: validate_argon2_parameters_def argon2_floor_def ARGON2_MIN_MEMORY_COST_KIB_def ARGON2_MIN_TIME_COST_def
      ARGON2_MIN_PARALLELISM_def)

lemma remove_file_if_present_outcome:
  assumes "remove_file_if_present E p w = (r, w')"
  shows "touches {p} w w' \<and> (is_ok r \<longrightarrow> file_at w' p = None)"
  using assms
  by (auto simp: remove_file_if_present_def bind_def attempt_def fs_defs touches_def map_of_delete not_found_def
      split: prod.splits sum.splits option.splits if_splits)

end
