(* ===== verification/Manifest_Backup.thy ===== *)
theory Manifest_Backup
  imports Vault_Header Schema Staging
begin

text \<open>
  \<open>storage/cloud/manifest_backup.rs\<close>: the encrypted copy of the manifest database in the cloud, its
  wire format, upload and download.  The database file is exported and read back through the fields
  \<open>sql_image\<close> and \<open>sql_open\<close> of the environment.
\<close>

section \<open>Errors\<close>

datatype manifest_backup_error =
    StagingIo string
  | Vacuum string
  | ExportRead string
  | CryptoFailed
  | BackupTransport transport_error
  | IntegrityCheckFailed
  | DbPersistIo string

fun manifest_backup_error_text :: "manifest_backup_error \<Rightarrow> string" where
  "manifest_backup_error_text (StagingIo m) = ''manifest-backup staging I/O failed: '' @ m"
| "manifest_backup_error_text (Vacuum m) = ''manifest export failed: '' @ m"
| "manifest_backup_error_text (ExportRead m) = ''manifest export read failed: '' @ m"
| "manifest_backup_error_text CryptoFailed = ''manifest-backup cryptographic operation failed''"
| "manifest_backup_error_text (BackupTransport e) =
     ''manifest-backup cloud transport failed: '' @ transport_error_text e"
| "manifest_backup_error_text IntegrityCheckFailed = ''manifest-backup integrity check failed''"
| "manifest_backup_error_text (DbPersistIo m) = ''manifest destination DB persist I/O failed: '' @ m"

fun storage_error_text :: "env \<Rightarrow> storage_error \<Rightarrow> string" where
  "storage_error_text E (Database m) = ''database operation failed: '' @ m"
| "storage_error_text E NotFound = ''record not found''"
| "storage_error_text E ChecksumMismatch = ''blob checksum mismatch''"
| "storage_error_text E DecryptionFailed = ''vault data could not be decrypted''"
| "storage_error_text E (Io m) = ''I/O operation failed: '' @ m"
| "storage_error_text E WrongKey = ''incorrect SQLCipher key for manifest database''"
| "storage_error_text E (ConstraintViolation m) = ''constraint violation: '' @ m"
| "storage_error_text E (EpochBufferNotFlushed u) =
     ''file '' @ uuid_hyphenated E u @ '' is pending epoch flush '' @ [CHR 0xE2, CHR 0x80, CHR 0x94] @
     '' call flush_epoch_buffer before downloading''"


section \<open>The wire format\<close>

definition encrypt_manifest_backup ::
  "env \<Rightarrow> bytes \<Rightarrow> bytes \<Rightarrow> uuid \<Rightarrow> ('s, crypto_error, bytes) prog" where
  "encrypt_manifest_backup E plaintext manifest_key vault_id =
     bind (generate_nonce E) (\<lambda>nonce.
     case aead_encrypt E manifest_key nonce (uuid_bytes E vault_id) plaintext of
       None \<Rightarrow> fail EncryptionFailed
     | Some (ciphertext, tag) \<Rightarrow> ret (nonce @ ciphertext @ tag))"

definition decrypt_manifest_backup :: "env \<Rightarrow> bytes \<Rightarrow> bytes \<Rightarrow> uuid \<Rightarrow> crypto_error + bytes" where
  "decrypt_manifest_backup E wire manifest_key vault_id =
     (if length wire < NONCE_LEN + TAG_LEN then Inl crypto_error.DecryptionFailed
      else
        let nonce = take NONCE_LEN wire;
            ciphertext = drop NONCE_LEN (take (length wire - TAG_LEN) wire);
            tag = drop (length wire - TAG_LEN) wire
        in ok_or crypto_error.DecryptionFailed
             (aead_decrypt E manifest_key nonce (uuid_bytes E vault_id) ciphertext tag))"


section \<open>Upload\<close>

definition MANIFEST_BACKUP_BLOB_NAME :: string where
  "MANIFEST_BACKUP_BLOB_NAME = ''manifest/manifest-backup.blob''"

definition MANIFEST_BACKUP_UPLOAD_STAGING_FILE_NAME :: string where
  "MANIFEST_BACKUP_UPLOAD_STAGING_FILE_NAME = ''manifest-backup-staging.blob''"

definition MANIFEST_BACKUP_DOWNLOAD_STAGING_FILE_NAME :: string where
  "MANIFEST_BACKUP_DOWNLOAD_STAGING_FILE_NAME = ''manifest-backup-download.blob''"

definition MANIFEST_EXPORT_FILE_NAME :: string where
  "MANIFEST_EXPORT_FILE_NAME = ''manifest-export.db''"

definition staging_io :: "io_error \<Rightarrow> manifest_backup_error" where
  "staging_io e = StagingIo (io_text e)"

definition db_persist_io :: "io_error \<Rightarrow> manifest_backup_error" where
  "db_persist_io e = DbPersistIo (io_text e)"

text \<open>
  \<open>VACUUM INTO\<close> writes the database that the state holds; the file permissions are set by a further
  effect.
\<close>

definition run_vacuum_into_export ::
  "env \<Rightarrow> cloud_env \<Rightarrow> bytes \<Rightarrow> path \<Rightarrow> ('r, manifest_backup_error, unit) cloud_prog" where
  "run_vacuum_into_export E C sqlcipher_key export_path =
     bind (with_err (\<lambda>e. Vacuum (storage_error_text E e)) (query E (\<lambda>_. live_open C sqlcipher_key))) (\<lambda>_.
     bind get_world (\<lambda>w.
     bind (with_err (\<lambda>e. Vacuum (io_text e)) (fs_write E export_path (sql_image C sqlcipher_key (manifest (store w))))) (\<lambda>_.
     with_err staging_io (fs_sync E))))"

definition upload_manifest_backup ::
  "env \<Rightarrow> cloud_env \<Rightarrow> 'r transport \<Rightarrow> bytes \<Rightarrow> bytes \<Rightarrow> uuid \<Rightarrow> path \<Rightarrow>
   ('r, manifest_backup_error, unit) cloud_prog" where
  "upload_manifest_backup E C CT sqlcipher_key manifest_key vault_id staging_dir =
     bind (with_err (\<lambda>e. StagingIo (storage_error_text E e)) (ensure_staging_directory E staging_dir)) (\<lambda>_.
     let export_path = staging_dir @ [MANIFEST_EXPORT_FILE_NAME];
         upload_staging_path = staging_dir @ [MANIFEST_BACKUP_UPLOAD_STAGING_FILE_NAME] in
     bind (with_err staging_io (remove_file_if_present E export_path)) (\<lambda>_.
     bind (run_vacuum_into_export E C sqlcipher_key export_path) (\<lambda>_.
     bind (attempt (fs_read E export_path)) (\<lambda>read_result.
     case read_result of
       Inl error \<Rightarrow>
         bind (attempt (remove_file_if_present E export_path)) (\<lambda>_. fail (ExportRead (io_text error)))
     | Inr plaintext \<Rightarrow>
         bind (with_err staging_io (remove_file_if_present E export_path)) (\<lambda>_.
         bind (with_err (\<lambda>_. CryptoFailed) (encrypt_manifest_backup E plaintext manifest_key vault_id)) (\<lambda>wire.
         bind (with_err (\<lambda>e. StagingIo (storage_error_text E e)) (write_owner_only E upload_staging_path wire)) (\<lambda>_.
         bind (attempt (ct_upload_blob CT upload_staging_path MANIFEST_BACKUP_BLOB_NAME)) (\<lambda>uploaded.
         bind (attempt (remove_file_if_present E upload_staging_path)) (\<lambda>_.
         case uploaded of
           Inl error \<Rightarrow> fail (BackupTransport error)
         | Inr _ \<Rightarrow> ret ())))))))))"


section \<open>Download\<close>

text \<open>Creating a temporary file under a fresh name, and \<open>persist_noclobber\<close>.\<close>

definition fs_create_temp :: "env \<Rightarrow> path \<Rightarrow> ('s, io_error, unit) prog" where
  "fs_create_temp E p = fs_effect E (\<lambda>w.
     if parent_dir p \<notin> set (dirs w) then (Inl not_found, w)
     else (Inr (), w\<lparr>files := AList.update p [] (files w)\<rparr>))"

definition fs_persist_noclobber :: "env \<Rightarrow> path \<Rightarrow> path \<Rightarrow> ('s, io_error, unit) prog" where
  "fs_persist_noclobber E p q = fs_effect E (\<lambda>w.
     if file_at w q \<noteq> None \<or> q \<in> set (dirs w)
     then (Inl (IoError KindOther ''File exists (os error 17)''), w)
     else case file_at w p of
       None \<Rightarrow> (Inl not_found, w)
     | Some b \<Rightarrow> (Inr (), w\<lparr>files := AList.update q b (AList.delete p (files w))\<rparr>))"

text \<open>A \<open>NamedTempFile\<close> that is dropped before it is persisted is removed.\<close>

definition persist_manifest_database_atomically ::
  "env \<Rightarrow> cloud_env \<Rightarrow> path \<Rightarrow> bytes \<Rightarrow> ('s, manifest_backup_error, unit) prog" where
  "persist_manifest_database_atomically E C destination_db_path plaintext =
     (if destination_db_path = [] then fail (DbPersistIo ''destination path has no parent'')
      else
        bind (draw (\<lambda>t. parent_dir destination_db_path @ [temp_name C t])) (\<lambda>temporary_file.
        bind (with_err db_persist_io (fs_create_temp E temporary_file)) (\<lambda>_.
        bind (attempt
          (bind (fs_append E temporary_file plaintext) (\<lambda>_.
           bind (fs_sync E) (\<lambda>_.
           bind (fs_sync E) (\<lambda>_.
           fs_persist_noclobber E temporary_file destination_db_path))))) (\<lambda>r.
        case r of
          Inr _ \<Rightarrow> ret ()
        | Inl e \<Rightarrow> bind (attempt (fs_remove E temporary_file)) (\<lambda>_. fail (db_persist_io e))))))"

definition verify_manifest_database_integrity ::
  "env \<Rightarrow> cloud_env \<Rightarrow> path \<Rightarrow> bytes \<Rightarrow> ('s, manifest_backup_error, unit) prog" where
  "verify_manifest_database_integrity E C destination_db_path sqlcipher_key =
     with_err (\<lambda>_. IntegrityCheckFailed)
      (bind (with_err from_io (fs_read E destination_db_path)) (\<lambda>image.
       bind (lift (sql_open C sqlcipher_key image)) (\<lambda>d.
       bind (lift (case sql_check C image of (integrity, fk) \<Rightarrow> validate_schema_integrity integrity fk)) (\<lambda>_.
       lift (validate_manifest_meta E d)))))"

definition download_manifest_backup ::
  "env \<Rightarrow> cloud_env \<Rightarrow> 'r transport \<Rightarrow> path \<Rightarrow> bytes \<Rightarrow> uuid \<Rightarrow> path \<Rightarrow> bytes \<Rightarrow>
   ('r, manifest_backup_error, unit) cloud_prog" where
  "download_manifest_backup E C CT staging_dir manifest_key vault_id destination_db_path sqlcipher_key =
     bind (with_err (\<lambda>e. StagingIo (storage_error_text E e)) (ensure_staging_directory E staging_dir)) (\<lambda>_.
     bind (with_err db_persist_io (fs_exists E destination_db_path)) (\<lambda>there.
     if there then fail (DbPersistIo ''destination exists'')
     else
       let download_staging_path = staging_dir @ [MANIFEST_BACKUP_DOWNLOAD_STAGING_FILE_NAME] in
       bind (with_err staging_io (remove_file_if_present E download_staging_path)) (\<lambda>_.
       bind (attempt (ct_download_blob CT MANIFEST_BACKUP_BLOB_NAME download_staging_path)) (\<lambda>downloaded.
       case downloaded of
         Inl error \<Rightarrow>
           bind (attempt (remove_file_if_present E download_staging_path)) (\<lambda>_. fail (BackupTransport error))
       | Inr _ \<Rightarrow>
           bind (with_err staging_io (fs_exists E download_staging_path)) (\<lambda>arrived.
           if \<not> arrived then fail (BackupTransport BlobNotFound)
           else
             bind (attempt (fs_read E download_staging_path)) (\<lambda>read_result.
             bind (attempt (remove_file_if_present E download_staging_path)) (\<lambda>_.
             bind (lift (map_err staging_io read_result)) (\<lambda>wire.
             bind (lift (map_err (\<lambda>_. CryptoFailed) (decrypt_manifest_backup E wire manifest_key vault_id))) (\<lambda>plaintext.
             if destination_db_path = [] then fail (DbPersistIo ''destination path has no parent'')
             else
               bind (with_err db_persist_io (fs_create_dir_all E (parent_dir destination_db_path))) (\<lambda>_.
               bind (persist_manifest_database_atomically E C destination_db_path plaintext) (\<lambda>_.
               bind (attempt (verify_manifest_database_integrity E C destination_db_path sqlcipher_key)) (\<lambda>integrity_result.
               case integrity_result of
                 Inr _ \<Rightarrow> ret ()
               | Inl _ \<Rightarrow>
                   bind (attempt (remove_file_if_present E destination_db_path)) (\<lambda>_.
                   fail IntegrityCheckFailed)))))))))))))"

end
