(* ===== verification/Blob_Transfers.thy ===== *)
theory Blob_Transfers
  imports Manifest_Backup Encrypt_File
begin

text \<open>
  \<open>storage/cloud/sync.rs\<close>, first part: errors, the random order of uploads, and the transfer of blobs.
  Transfers run concurrently in a pool; the environment's \<open>schedule\<close> picks the one that completes next, and a transfer is run as a
  whole when it completes (transfers of different blobs touch different local files and remote objects).
  The sampling loop of the shuffle may run for ever, so it returns an option: \<open>None\<close> is a run that does not end.
\<close>

section \<open>Errors and reports\<close>

record sync_conflict =
  sy_local_counter :: u64
  sy_cloud_counter :: u64
  sy_local_last_synced :: "i64 option"
  sy_cloud_last_synced :: "i64 option"

record push_report =
  pr_blobs_uploaded :: nat
  pr_uploaded_blob_names :: "string list"
  pr_snapshot_counter_after :: u64

record pull_report =
  pl_blobs_downloaded :: nat
  pl_blobs_skipped_present :: nat

record cloud_deletion_report =
  cd_vault_blobs_deleted :: nat
  cd_vault_blobs_failed :: "string list"
  cd_manifest_backup_deleted :: bool
  cd_vault_header_deleted :: bool

datatype sync_error =
    Conflict sync_conflict
  | CloudManifestUnreadable manifest_backup_error
  | PushUploadFailed transport_error "string list"
  | PushManifestBackupFailed manifest_backup_error
  | RollbackFailed manifest_backup_error storage_error
  | VaultHeaderUploadFailed header_sync_error
  | PullIncomplete "string list" "(string \<times> transport_error) list"
  | SyncTransport transport_error
  | SyncManifestBackup manifest_backup_error
  | SyncStorage storage_error
  | SyncIo io_error

fun sync_error_text :: "env \<Rightarrow> sync_error \<Rightarrow> string" where
  "sync_error_text E (Conflict c) = ''snapshot_counter conflict with cloud''"
| "sync_error_text E (CloudManifestUnreadable reason) =
     ''cloud manifest backup could not be decrypted or verified: '' @ manifest_backup_error_text reason"
| "sync_error_text E (PushUploadFailed first_error names) =
     ''push failed during blob upload: '' @ transport_error_text first_error"
| "sync_error_text E (PushManifestBackupFailed source) =
     ''push failed during manifest backup upload: '' @ manifest_backup_error_text source"
| "sync_error_text E (RollbackFailed manifest_error rollback_error) =
     ''snapshot_counter rollback failed after manifest-upload error''"
| "sync_error_text E (VaultHeaderUploadFailed source) =
     ''vault header upload failed: '' @ header_sync_error_text source"
| "sync_error_text E (PullIncomplete v t) = ''pull completed with failures''"
| "sync_error_text E (SyncTransport source) = ''cloud transport operation failed: '' @ transport_error_text source"
| "sync_error_text E (SyncManifestBackup source) =
     ''manifest backup operation failed: '' @ manifest_backup_error_text source"
| "sync_error_text E (SyncStorage source) = ''storage error: '' @ storage_error_text E source"
| "sync_error_text E (SyncIo e) = ''I/O error: '' @ io_text e"


section \<open>Programs that may not end\<close>

type_synonym ('r, 'e, 'a) sync_run = "'r site world \<Rightarrow> (('e + 'a) \<times> 'r site world) option"

definition ends :: "('r, 'e, 'a) cloud_prog \<Rightarrow> ('r, 'e, 'a) sync_run" where
  "ends m w = Some (m w)"

definition obind :: "('r, 'e, 'a) sync_run \<Rightarrow> ('a \<Rightarrow> ('r, 'e, 'b) sync_run) \<Rightarrow> ('r, 'e, 'b) sync_run" where
  "obind m f w =
     (case m w of
        None \<Rightarrow> None
      | Some (Inl e, w') \<Rightarrow> Some (Inl e, w')
      | Some (Inr a, w') \<Rightarrow> f a w')"


section \<open>The shuffle\<close>

definition u64_max :: u64 where
  "u64_max = 2 ^ 64 - 1"

definition zone_of :: "u64 \<Rightarrow> u64" where
  "zone_of bound = u64_max - u64_max mod bound"

definition rng_error :: "io_error \<Rightarrow> sync_error" where
  "rng_error e = SyncTransport (OtherTransport (''system RNG failure: '' @ io_text e))"

definition try_next_u64 :: "env \<Rightarrow> cloud_env \<Rightarrow> ('s, io_error, u64) prog" where
  "try_next_u64 E C w = fs_effect E (\<lambda>w'. (Inr (draw_u64 C (tick w)), w')) w"

partial_function (option) sample_loop :: "env \<Rightarrow> cloud_env \<Rightarrow> u64 \<Rightarrow> ('r, sync_error, nat) sync_run" where
  "sample_loop E C bound w =
     (case try_next_u64 E C w of
        (Inl e, w') \<Rightarrow> Some (Inl (rng_error e), w')
      | (Inr sample, w') \<Rightarrow>
          if sample < zone_of bound then Some (Inr (sample mod bound), w') else sample_loop E C bound w')"

definition unbiased_index :: "env \<Rightarrow> cloud_env \<Rightarrow> usize \<Rightarrow> ('r, sync_error, usize) sync_run" where
  "unbiased_index E C upper_exclusive =
     (if upper_exclusive = 0 then ends (ret 0) else sample_loop E C upper_exclusive)"

definition swap_items :: "nat \<Rightarrow> nat \<Rightarrow> 'a list \<Rightarrow> 'a list" where
  "swap_items i j xs = xs[i := xs ! j, j := xs ! i]"

text \<open>The loop over \<open>(1..items.len()).rev()\<close>.\<close>

fun shuffle_loop :: "env \<Rightarrow> cloud_env \<Rightarrow> nat \<Rightarrow> 'a list \<Rightarrow> ('r, sync_error, 'a list) sync_run" where
  "shuffle_loop E C 0 items = ends (ret items)"
| "shuffle_loop E C (Suc i) items =
     obind (unbiased_index E C (Suc i + 1)) (\<lambda>j. shuffle_loop E C i (swap_items (Suc i) j items))"

definition fisher_yates_shuffle_with_system_rng ::
  "env \<Rightarrow> cloud_env \<Rightarrow> 'a list \<Rightarrow> ('r, sync_error, 'a list) sync_run" where
  "fisher_yates_shuffle_with_system_rng E C items =
     (if length items < 2 then ends (ret items) else shuffle_loop E C (length items - 1) items)"


section \<open>Paths\<close>

definition pending_blob_path :: "path \<Rightarrow> string \<Rightarrow> path" where
  "pending_blob_path staging_dir blob_name = staging_dir @ [''pending'', blob_name @ ''.blob'']"

definition cache_blob_path :: "path \<Rightarrow> string \<Rightarrow> path" where
  "cache_blob_path staging_dir blob_name = staging_dir @ [''cache'', blob_name @ ''.blob'']"

definition build_blob_remote_path :: "env \<Rightarrow> string \<Rightarrow> sync_error + string" where
  "build_blob_remote_path E blob_name =
     (if CHR ''/'' \<in> set blob_name
      then rbind (map_err SyncTransport (validate_remote_path blob_name)) (\<lambda>_. Inr blob_name)
      else
        rbind (map_err SyncStorage (validate_blob_name_uuid_v4 E blob_name)) (\<lambda>_.
        let remote_path = ''vault/'' @ blob_name @ ''.blob'' in
        rbind (map_err SyncTransport (validate_remote_path remote_path)) (\<lambda>_. Inr remote_path)))"

definition validate_vault_blob_remote_path :: "env \<Rightarrow> string \<Rightarrow> sync_error + unit" where
  "validate_vault_blob_remote_path E p =
     rbind (map_err SyncTransport (validate_remote_path p)) (\<lambda>_.
     if \<not> prefix ''vault/'' p \<or> \<not> suffix ''.blob'' p
     then Inl (SyncTransport (OtherTransport ''invalid vault blob path''))
     else map_err SyncStorage (validate_blob_name_uuid_v4 E (drop 6 (take (length p - 5) p))))"

text \<open>The first conversion of a path error; the second keeps its text only.\<close>

definition path_error_for_upload :: "env \<Rightarrow> sync_error \<Rightarrow> transport_error" where
  "path_error_for_upload E error =
     (case error of SyncTransport source \<Rightarrow> source | _ \<Rightarrow> OtherTransport (sync_error_text E error))"


section \<open>Transfers of one blob\<close>

text \<open>\<open>File::open\<close> and a loop of \<open>read\<close> calls on a buffer of 8 KiB that feeds the hasher.\<close>

function hash_reader :: "env \<Rightarrow> bytes \<Rightarrow> bytes \<Rightarrow> ('s, io_error, bytes) prog" where
  "hash_reader E unread hashed w =
     (case reader_read E 8192 unread w of
        (Inl e, w1) \<Rightarrow> (Inl e, w1)
      | (Inr (buffer, unread1), w1) \<Rightarrow>
          if buffer = [] then (Inr (blake3 E hashed), w1) else hash_reader E unread1 (hashed @ buffer) w1)"
  by pat_completeness auto
termination
  by (relation "measure (\<lambda>(E, unread, hashed, w). length unread)") (auto dest!: reader_read_split [OF sym])

declare hash_reader.simps [simp del]

definition verify_blob_checksum :: "env \<Rightarrow> path \<Rightarrow> bytes \<Rightarrow> ('s, io_error, bool) prog" where
  "verify_blob_checksum E p expected_checksum =
     bind (fs_read E p) (\<lambda>contents.
     bind (hash_reader E contents []) (\<lambda>checksum.
     ret (checksum = expected_checksum)))"

text \<open>A transfer that times out is tried once more, after three seconds.\<close>

definition retry_on_timeout :: "('s, transport_error, unit) prog \<Rightarrow> ('s, transport_error, unit) prog" where
  "retry_on_timeout m =
     bind (attempt m) (\<lambda>r. if r = Inl Timeout then m else lift r)"

definition upload_blob_task ::
  "env \<Rightarrow> 'r transport \<Rightarrow> path \<Rightarrow> string \<Rightarrow> ('r, transport_error, string) cloud_prog" where
  "upload_blob_task E CT staging_dir blob_name =
     bind (lift (map_err (path_error_for_upload E) (build_blob_remote_path E blob_name))) (\<lambda>remote_path.
     let local_path = pending_blob_path staging_dir blob_name in
     bind (retry_on_timeout (ct_upload_blob CT local_path remote_path)) (\<lambda>_.
     bind (with_err TransportIo (remove_file_if_present E local_path)) (\<lambda>_.
     ret blob_name)))"

datatype download_task_error =
    Verification string
  | TransportFailure string transport_error

definition download_blob_task ::
  "env \<Rightarrow> 'r transport \<Rightarrow> path \<Rightarrow> sync_chunk_record \<Rightarrow> ('r, download_task_error, unit) cloud_prog" where
  "download_blob_task E CT staging_dir chunk =
     (let blob_name = sc_blob_name chunk; local_path = cache_blob_path staging_dir blob_name in
      bind (lift (map_err (\<lambda>error. TransportFailure blob_name (OtherTransport (sync_error_text E error)))
                    (build_blob_remote_path E blob_name))) (\<lambda>remote_path.
      bind (with_err (TransportFailure blob_name)
              (retry_on_timeout (ct_download_blob CT remote_path local_path))) (\<lambda>_.
      bind (with_err (\<lambda>error. TransportFailure blob_name (TransportIo error))
              (verify_blob_checksum E local_path (sc_blake3_checksum chunk))) (\<lambda>checksum_matches.
      if \<not> checksum_matches
      then bind (attempt (remove_file_if_present E local_path)) (\<lambda>_. fail (Verification blob_name))
      else ret ()))))"


section \<open>The pools\<close>

definition pick :: "cloud_env \<Rightarrow> 'r site world \<Rightarrow> 'a list \<Rightarrow> nat" where
  "pick C w in_flight = schedule C (tick w) mod length in_flight"

definition without :: "nat \<Rightarrow> 'a list \<Rightarrow> 'a list" where
  "without i xs = take i xs @ drop (Suc i) xs"

lemma pick_less: "xs \<noteq> [] \<Longrightarrow> pick C w xs < length xs"
  by (simp add: pick_def)

lemma length_without: "i < length xs \<Longrightarrow> length (without i xs) = length xs - 1"
  by (simp add: without_def)

lemma pool_measure:
  assumes "in_flight \<noteq> []"
  shows "length (without (pick C w in_flight) in_flight) < length in_flight"
    and "pending \<noteq> [] \<Longrightarrow> 2 * length (tl pending) + length (without (pick C w in_flight) in_flight @ [p]) <
           2 * length pending + length in_flight"
proof -
  have l: "length (without (pick C w in_flight) in_flight) = length in_flight - 1" "0 < length in_flight"
    using assms by (simp_all add: length_without pick_less)
  then show "length (without (pick C w in_flight) in_flight) < length in_flight" by simp
  show "2 * length (tl pending) + length (without (pick C w in_flight) in_flight @ [p]) <
      2 * length pending + length in_flight" if "pending \<noteq> []"
    using l that by (cases pending) auto
qed

text \<open>The loop over \<open>in_flight.next()\<close>; after the first error no further upload is started.\<close>

function upload_pool ::
  "env \<Rightarrow> cloud_env \<Rightarrow> 'r transport \<Rightarrow> path \<Rightarrow> string list \<Rightarrow> string list \<Rightarrow> string list \<Rightarrow> transport_error option \<Rightarrow>
   ('r, transport_error \<times> string list, string list) cloud_prog" where
  "upload_pool E C CT staging_dir pending in_flight successful_uploads first_error w =
     (if in_flight = [] then
        (case first_error of
           Some error \<Rightarrow> (Inl (error, successful_uploads), w)
         | None \<Rightarrow> (Inr successful_uploads, w))
      else
        let i = pick C w in_flight; others = without i in_flight in
        case upload_blob_task E CT staging_dir (in_flight ! i) w of
          (Inr blob_name, w1) \<Rightarrow>
            if first_error = None \<and> pending \<noteq> [] then
              upload_pool E C CT staging_dir (tl pending) (others @ [hd pending])
                (successful_uploads @ [blob_name]) first_error w1
            else upload_pool E C CT staging_dir pending others (successful_uploads @ [blob_name]) first_error w1
        | (Inl error, w1) \<Rightarrow>
            upload_pool E C CT staging_dir pending others successful_uploads
              (if first_error = None then Some error else first_error) w1)"
  by pat_completeness auto
termination
  by (relation "measure (\<lambda>(E, C, CT, dir, pending, in_flight, ok, err, w). 2 * length pending + length in_flight)")
    (use pool_measure in \<open>auto\<close>)

definition drive_blob_uploads ::
  "env \<Rightarrow> cloud_env \<Rightarrow> 'r transport \<Rightarrow> string list \<Rightarrow> path \<Rightarrow> usize \<Rightarrow>
   ('r, transport_error \<times> string list, string list) cloud_prog" where
  "drive_blob_uploads E C CT blobs staging_dir concurrent =
     (let concurrency_limit = max concurrent 1 in
      upload_pool E C CT staging_dir (drop concurrency_limit blobs) (take concurrency_limit blobs) [] None)"

text \<open>Downloads go on after a failure, and every failure is reported.\<close>

function download_pool ::
  "env \<Rightarrow> cloud_env \<Rightarrow> 'r transport \<Rightarrow> path \<Rightarrow> sync_chunk_record list \<Rightarrow> sync_chunk_record list \<Rightarrow> nat \<Rightarrow>
   string list \<Rightarrow> (string \<times> transport_error) list \<Rightarrow>
   ('r, string list \<times> (string \<times> transport_error) list, nat) cloud_prog" where
  "download_pool E C CT staging_dir pending in_flight downloaded verification_failures transport_failures w =
     (if in_flight = [] then
        (if verification_failures = [] \<and> transport_failures = [] then (Inr downloaded, w)
         else (Inl (verification_failures, transport_failures), w))
      else
        let i = pick C w in_flight; others = without i in_flight;
            (r, w1) = download_blob_task E CT staging_dir (in_flight ! i) w;
            (downloaded', verification_failures', transport_failures') =
              (case r of
                 Inr _ \<Rightarrow> (downloaded + 1, verification_failures, transport_failures)
               | Inl (Verification blob_name) \<Rightarrow> (downloaded, verification_failures @ [blob_name], transport_failures)
               | Inl (TransportFailure blob_name error) \<Rightarrow>
                   (downloaded, verification_failures, transport_failures @ [(blob_name, error)]))
        in if pending \<noteq> []
           then download_pool E C CT staging_dir (tl pending) (others @ [hd pending])
                  downloaded' verification_failures' transport_failures' w1
           else download_pool E C CT staging_dir pending others
                  downloaded' verification_failures' transport_failures' w1)"
  by pat_completeness auto
termination
  by (relation "measure (\<lambda>(E, C, CT, dir, pending, in_flight, n, v, t, w). 2 * length pending + length in_flight)")
    (use pool_measure in \<open>auto\<close>)

declare upload_pool.simps [simp del] download_pool.simps [simp del]

definition drive_blob_downloads ::
  "env \<Rightarrow> cloud_env \<Rightarrow> 'r transport \<Rightarrow> sync_chunk_record list \<Rightarrow> path \<Rightarrow> usize \<Rightarrow>
   ('r, string list \<times> (string \<times> transport_error) list, nat) cloud_prog" where
  "drive_blob_downloads E C CT chunks_to_fetch staging_dir concurrent =
     (let concurrency_limit = max concurrent 1 in
      download_pool E C CT staging_dir (drop concurrency_limit chunks_to_fetch)
        (take concurrency_limit chunks_to_fetch) 0 [] [])"

end
