(* ===== verification/Transfer_Lemmas.thy ===== *)
theory Transfer_Lemmas
  imports Blob_Transfers "HOL-Library.Multiset"
begin

text \<open>
  What the transfer of one blob and the pools do over any transport that satisfies the laws of
  \<open>cloud_transport\<close>: which local files and remote objects they touch, and where a blob is afterwards.
\<close>

section \<open>Paths\<close>

definition vault_object :: "string \<Rightarrow> string" where
  "vault_object b = ''vault/'' @ b @ ''.blob''"

definition plain_name :: "string \<Rightarrow> bool" where
  "plain_name b \<longleftrightarrow> CHR ''/'' \<notin> set b"

lemma vault_object_inj [simp]: "vault_object b = vault_object c \<longleftrightarrow> b = c"
  by (simp add: vault_object_def)

lemma pending_path_inj [simp]: "pending_blob_path d b = pending_blob_path d c \<longleftrightarrow> b = c"
  by (simp add: pending_blob_path_def)

lemma cache_path_inj [simp]: "cache_blob_path d b = cache_blob_path d c \<longleftrightarrow> b = c"
  by (simp add: cache_blob_path_def)

lemma pending_not_cache [simp]: "pending_blob_path d b \<noteq> cache_blob_path d c" "cache_blob_path d b \<noteq> pending_blob_path d c"
  by (simp_all add: pending_blob_path_def cache_blob_path_def)

lemma build_blob_remote_path_plain:
  "build_blob_remote_path E b = Inr q \<Longrightarrow> plain_name b \<Longrightarrow> q = vault_object b"
  by (auto simp: build_blob_remote_path_def plain_name_def vault_object_def result_simps Let_def)

text \<open>
  \<open>transfers objects P X w w'\<close>: between \<open>w\<close> and \<open>w'\<close> only local files in \<open>P\<close> and remote objects in \<open>X\<close> changed.
\<close>

definition transfers ::
  "('r \<Rightarrow> string \<Rightarrow> bytes option) \<Rightarrow> path set \<Rightarrow> string set \<Rightarrow> 'r site world \<Rightarrow> 'r site world \<Rightarrow> bool" where
  "transfers objects P X w w' \<longleftrightarrow>
     manifest (store w') = manifest (store w) \<and> dirs w' = dirs w \<and> tick w \<le> tick w' \<and>
     (\<forall>p. p \<notin> P \<longrightarrow> file_at w' p = file_at w p) \<and>
     (\<forall>q. q \<notin> X \<longrightarrow> objects_at objects w' q = objects_at objects w q)"

lemma transfersD:
  assumes "transfers objects P X w w'"
  shows "manifest (store w') = manifest (store w)" and "dirs w' = dirs w" and "tick w \<le> tick w'"
    and "p \<notin> P \<Longrightarrow> file_at w' p = file_at w p"
    and "q \<notin> X \<Longrightarrow> objects_at objects w' q = objects_at objects w q"
  using assms by (auto simp: transfers_def)

lemma transfers_refl [simp]: "transfers objects P X w w"
  by (simp add: transfers_def)

lemma transfers_trans:
  "transfers objects P X w w' \<Longrightarrow> transfers objects P' X' w' w'' \<Longrightarrow> P \<subseteq> R \<Longrightarrow> P' \<subseteq> R \<Longrightarrow> X \<subseteq> Y \<Longrightarrow> X' \<subseteq> Y \<Longrightarrow>
     transfers objects R Y w w''"
  unfolding transfers_def by (metis (no_types, lifting) order_trans subsetD)

lemma transfers_touches: "touches P w w' \<Longrightarrow> transfers objects P X w w'"
  by (auto simp: touches_def transfers_def objects_at_def)

lemma transfers_remote_only: "remote_only objects X w w' \<Longrightarrow> transfers objects P X w w'"
  by (auto simp: remote_only_def transfers_def objects_at_def)


section \<open>Reading and checking a file\<close>

lemma hash_reader_outcome:
  "hash_reader E unread hashed w = (r, w') \<Longrightarrow>
     touches {} w w' \<and> (\<forall>h. r = Inr h \<longrightarrow> h = blake3 E (hashed @ unread))"
proof (induction E unread hashed w arbitrary: r w' rule: hash_reader.induct)
  case (1 E unread hashed w)
  obtain r1 w1 where rd: "reader_read E 8192 unread w = (r1, w1)" by fastforce
  have t: "touches {} w w1" using touches_read(5) [OF rd] by simp
  have run: "(case (r1, w1) of (Inl e, w1) \<Rightarrow> (Inl e, w1)
      | (Inr (buffer, unread1), w1) \<Rightarrow>
          if buffer = [] then (Inr (blake3 E hashed), w1) else hash_reader E unread1 (hashed @ buffer) w1) = (r, w')"
    using "1.prems" unfolding hash_reader.simps [of E unread hashed w] rd .
  show ?case
  proof (cases r1)
    case (Inl e)
    with run t show ?thesis by auto
  next
    case (Inr br)
    obtain buffer unread1 where br: "br = (buffer, unread1)" by fastforce
    note split = reader_read_split [OF rd [unfolded Inr br]]
    show ?thesis
    proof (cases "buffer = []")
      case True
      have "unread = []" using rd True
        by (auto simp: Inr br reader_read_def fs_effect_def Let_def split: option.splits)
      with run t True show ?thesis by (auto simp: Inr br)
    next
      case False
      from run False have "hash_reader E unread1 (hashed @ buffer) w1 = (r, w')" by (simp add: Inr br)
      from "1.IH" [OF rd [symmetric] Inr br [symmetric] False this] split
      show ?thesis using touches_trans [OF t] by auto
    qed
  qed
qed

lemma verify_blob_checksum_outcome:
  assumes "verify_blob_checksum E p c w = (r, w')"
  shows "touches {} w w' \<and> (\<forall>b. r = Inr b \<longrightarrow> (\<exists>bs. file_at w p = Some bs \<and> b = (blake3 E bs = c)))"
proof -
  obtain r1 w1 where rd: "fs_read E p w = (r1, w1)" by fastforce
  have t: "touches {} w w1" using touches_read(1) [OF rd] by simp
  show ?thesis
  proof (cases r1)
    case (Inl e)
    with assms rd t show ?thesis by (auto simp: verify_blob_checksum_def bind_def)
  next
    case (Inr bs)
    have f: "file_at w p = Some bs" using rd Inr by (auto simp: fs_defs split: option.splits)
    obtain r2 w2 where h: "hash_reader E bs [] w1 = (r2, w2)" by fastforce
    from hash_reader_outcome [OF h] have t2: "touches {} w w2" and "\<forall>x. r2 = Inr x \<longrightarrow> x = blake3 E bs"
      using touches_trans [OF t] by auto
    with assms rd Inr h f show ?thesis
      by (auto simp: verify_blob_checksum_def bind_def ret_def split: sum.splits)
  qed
qed


section \<open>One blob\<close>

context cloud_transport
begin

lemma retry_upload:
  assumes "retry_on_timeout (ct_upload_blob CT p q) w = (r, w')"
  shows "remote_only objects {q} w w' \<and> (is_ok r \<longrightarrow> (\<exists>b. file_at w p = Some b \<and> objects_at objects w' q = Some b))"
proof -
  obtain r1 w1 where 1: "ct_upload_blob CT p q w = (r1, w1)" by fastforce
  note u1 = upload [OF 1]
  show ?thesis
  proof (cases "r1 = Inl Timeout")
    case True
    with assms 1 have 2: "ct_upload_blob CT p q w1 = (r, w')"
      by (simp add: retry_on_timeout_def bind_def attempt_def)
    have "remote_only objects {q} w w'" using u1 upload [OF 2] by (auto simp: remote_only_def)
    with 2 upload_ok [of p q w1 _ w'] u1 show ?thesis by (auto simp: is_ok_iff remote_only_def)
  next
    case False
    with assms 1 have "r = r1" "w' = w1" by (auto simp: retry_on_timeout_def bind_def attempt_def lift_def)
    with u1 upload_ok [of p q w _ w1] 1 show ?thesis by (auto simp: is_ok_iff)
  qed
qed

text \<open>An upload either moved the blob, or left it where it was, or copied it.\<close>

definition moved :: "path \<Rightarrow> string \<Rightarrow> 'r site world \<Rightarrow> 'r site world \<Rightarrow> bool" where
  "moved d b w w' \<longleftrightarrow>
     (\<exists>c. file_at w (pending_blob_path d b) = Some c \<and> objects_at objects w' (vault_object b) = Some c \<and>
          file_at w' (pending_blob_path d b) = None)"

definition kept :: "path \<Rightarrow> string \<Rightarrow> 'r site world \<Rightarrow> 'r site world \<Rightarrow> bool" where
  "kept d b w w' \<longleftrightarrow> file_at w' (pending_blob_path d b) = file_at w (pending_blob_path d b) \<or>
     (\<exists>c. file_at w (pending_blob_path d b) = Some c \<and> objects_at objects w' (vault_object b) = Some c)"

lemma moved_kept: "moved d b w w' \<Longrightarrow> kept d b w w'"
  by (auto simp: moved_def kept_def)

lemma upload_blob_task_outcome:
  assumes "upload_blob_task E CT d b w = (r, w')" "plain_name b"
  shows "transfers objects {pending_blob_path d b} {vault_object b} w w' \<and> kept d b w w' \<and>
    (\<forall>n. r = Inr n \<longrightarrow> n = b \<and> moved d b w w')"
proof (cases "build_blob_remote_path E b")
  case (Inl e)
  with assms(1) show ?thesis by (auto simp: upload_blob_task_def Let_def bind_def lift_def kept_def)
next
  case (Inr q)
  with assms(2) have q: "q = vault_object b" by (simp add: build_blob_remote_path_plain)
  let ?p = "pending_blob_path d b"
  obtain r1 w1 where 1: "retry_on_timeout (ct_upload_blob CT ?p q) w = (r1, w1)" by fastforce
  note u = retry_upload [OF 1]
  have t1: "transfers objects {?p} {q} w w1" using transfers_remote_only u by blast
  show ?thesis
  proof (cases r1)
    case r1: (Inl e)
    with assms(1) Inr 1 have "r = Inl e" "w' = w1" by (auto simp: upload_blob_task_def Let_def bind_def lift_def)
    with t1 u show ?thesis by (auto simp: q kept_def remote_only_def)
  next
    case r1: (Inr a)
    with u obtain c where c: "file_at w ?p = Some c" "objects_at objects w1 q = Some c" by auto
    obtain r2 w2 where 2: "remove_file_if_present E ?p w1 = (r2, w2)" by fastforce
    note rm = remove_file_if_present_outcome [OF 2]
    have o2: "objects_at objects w2 = objects_at objects w1" using rm by (auto simp: touches_def objects_at_def)
    have t2: "transfers objects {?p} {q} w w2"
      by (rule transfers_trans [OF t1 transfers_touches [of "{?p}" w1 w2 objects "{}"]]) (use rm in auto)
    have w': "w' = w2" "\<forall>n. r = Inr n \<longrightarrow> n = b \<and> is_ok r2"
      using assms(1) Inr 1 r1 2 by (auto simp: upload_blob_task_def Let_def bind_def lift_def with_err_def ret_def result_simps split: sum.splits)
    show ?thesis using t2 c rm w'(2) by (auto simp: q w'(1) kept_def moved_def o2)
  qed
qed

lemma retry_download:
  assumes "retry_on_timeout (ct_download_blob CT q p) w = (r, w')"
  shows "transfers objects {p} {} w w'"
proof -
  have t: "ct_download_blob CT q p v = (s, v') \<Longrightarrow> transfers objects {p} {} v v'" for v s v'
    using download [of q p v s v'] by (auto simp: transfers_def)
  obtain r1 w1 where 1: "ct_download_blob CT q p w = (r1, w1)" by fastforce
  with assms consider "w' = w1" | "ct_download_blob CT q p w1 = (r, w')"
    by (cases "r1 = Inl Timeout") (auto simp: retry_on_timeout_def bind_def attempt_def lift_def)
  then show ?thesis
  proof cases
    case 2
    from transfers_trans [OF t [OF 1] t [OF 2]] show ?thesis by simp
  qed (use t [OF 1] in simp)
qed

lemma download_blob_task_outcome:
  assumes "download_blob_task E CT d c w = (r, w')"
  shows "transfers objects {cache_blob_path d (sc_blob_name c)} {} w w' \<and>
    (is_ok r \<longrightarrow> (\<exists>bs. file_at w' (cache_blob_path d (sc_blob_name c)) = Some bs \<and> blake3 E bs = sc_blake3_checksum c))"
proof (cases "build_blob_remote_path E (sc_blob_name c)")
  case (Inl e)
  with assms(1) show ?thesis by (auto simp: download_blob_task_def Let_def bind_def lift_def)
next
  case (Inr q)
  let ?p = "cache_blob_path d (sc_blob_name c)"
  obtain r1 w1 where 1: "retry_on_timeout (ct_download_blob CT q ?p) w = (r1, w1)" by fastforce
  note t1 = retry_download [OF 1]
  show ?thesis
  proof (cases r1)
    case r1: (Inl e)
    with assms(1) Inr 1 have "\<not> is_ok r" "w' = w1" by (auto simp: download_blob_task_def Let_def bind_def lift_def with_err_def)
    with t1 show ?thesis by simp
  next
    case r1: (Inr a)
    obtain r2 w2 where 2: "verify_blob_checksum E ?p (sc_blake3_checksum c) w1 = (r2, w2)" by fastforce
    note v = verify_blob_checksum_outcome [OF 2]
    have t2: "transfers objects {?p} {} w w2"
      by (rule transfers_trans [OF t1 transfers_touches [of "{}" w1 w2 objects "{}"]]) (use v in auto)
    consider (good) "r2 = Inr True" "r = Inr ()" "w' = w2" | (err) "\<not> is_ok r" "w' = w2"
      | (bad) x where "\<not> is_ok r" "remove_file_if_present E ?p w2 = (x, w')"
      using assms(1) Inr 1 r1 2
      by (auto simp: download_blob_task_def Let_def bind_def lift_def with_err_def ret_def attempt_def fail_def result_simps
          split: sum.splits prod.splits if_splits)
    then show ?thesis
    proof cases
      case good
      with v t2 show ?thesis by (auto simp: touches_def)
    next
      case bad
      have "transfers objects {?p} {} w w'"
        by (rule transfers_trans [OF t2 transfers_touches [of "{?p}" w2 w' objects "{}"]])
          (use remove_file_if_present_outcome [OF bad(2)] in auto)
      with bad(1) show ?thesis by simp
    qed (use t2 in simp)
  qed
qed

end

end
