(* ===== verification/Pool_Lemmas.thy ===== *)
theory Pool_Lemmas
  imports Transfer_Lemmas
begin

text \<open>
  The upload and the download pool, for every order of completion: an induction over the loop in which
  each completed transfer touches the files of its own blob only.
\<close>

lemma mset_without:
  assumes "i < length xs"
  shows "mset xs = add_mset (xs ! i) (mset (without i xs))"
proof -
  have "xs = take i xs @ xs ! i # drop (Suc i) xs" using assms by (rule id_take_nth_drop)
  then have "mset xs = mset (take i xs @ xs ! i # drop (Suc i) xs)" by simp
  then show ?thesis by (simp add: without_def)
qed

lemma pool_next:
  assumes "i < length in_flight"
  shows "mset (in_flight @ pending) = add_mset (in_flight ! i) (mset (without i in_flight @ pending))"
    and "pending \<noteq> [] \<Longrightarrow> mset ((without i in_flight @ [hd pending]) @ tl pending) = mset (without i in_flight @ pending)"
  using assms by (auto simp: mset_without neq_Nil_conv)

lemma distinct_step:
  assumes "mset L = add_mset b (mset L')" "distinct (map f L)"
  shows "distinct (map f L')" and "f b \<notin> f ` set L'" and "set L = insert b (set L')"
proof -
  have m: "mset (map f L) = add_mset (f b) (mset (map f L'))" using assms(1) by simp
  then have "mset (map f L) = mset (f b # map f L')" by simp
  then have "distinct (f b # map f L')" using assms(2) mset_eq_imp_distinct_iff by blast
  then show "distinct (map f L')" "f b \<notin> f ` set L'" by auto
  show "set L = insert b (set L')" using assms(1) by (metis set_mset_add_mset_insert set_mset_mset)
qed

context cloud_transport
begin

text \<open>What became of the blobs in \<open>L\<close> when the pool ended with the result \<open>r\<close>.\<close>

definition uploads_end ::
  "path \<Rightarrow> string list \<Rightarrow> string list \<Rightarrow> transport_error option \<Rightarrow> 'r site world \<Rightarrow>
   (transport_error \<times> string list + string list) \<Rightarrow> 'r site world \<Rightarrow> bool" where
  "uploads_end d L ok err w r w' \<longleftrightarrow>
     transfers objects (pending_blob_path d ` set L) (vault_object ` set L) w w' \<and>
     (\<forall>b \<in> set L. kept d b w w') \<and>
     (case r of
        Inr names \<Rightarrow> err = None \<and> mset names = mset ok + mset L \<and> (\<forall>b \<in> set L. moved d b w w')
      | Inl (e, names) \<Rightarrow> (\<exists>fin. names = ok @ fin \<and> mset fin \<subseteq># mset L \<and> (\<forall>b \<in> set fin. moved d b w w')))"

lemma uploads_end_cong: "mset L = mset L' \<Longrightarrow> uploads_end d L ok err w r w' = uploads_end d L' ok err w r w'"
  using mset_eq_setD [of L L'] by (simp only: uploads_end_def)

lemma kept_later:
  assumes "transfers objects P X w w1" "transfers objects P' X' w1 w'"
    and "pending_blob_path d b \<notin> P'" "vault_object b \<notin> X'"
  shows "kept d b w w1 \<Longrightarrow> kept d b w w'" and "moved d b w w1 \<Longrightarrow> moved d b w w'"
  using transfersD [OF assms(2)] assms(3,4) by (auto simp: kept_def moved_def)

lemma kept_earlier:
  assumes "transfers objects P X w w1" "pending_blob_path d b \<notin> P"
  shows "kept d b w1 w' \<Longrightarrow> kept d b w w'" and "moved d b w1 w' \<Longrightarrow> moved d b w w'"
  using transfersD(4) [OF assms] by (auto simp: kept_def moved_def)

lemma uploads_step:
  assumes task: "upload_blob_task E CT d b w = (s, w1)" and "plain_name b" "distinct L"
    and L: "mset L = add_mset b (mset L')"
    and rest: "uploads_end d L' (if is_ok s then ok @ [b] else ok) err' w1 r w'"
    and err: "err' = (case s of Inr _ \<Rightarrow> err | Inl e \<Rightarrow> if err = None then Some e else err)"
  shows "uploads_end d L ok err w r w'"
proof -
  note t = upload_blob_task_outcome [OF task assms(2)]
  note sets = distinct_step [where f = id, unfolded list.map_id image_id id_apply, OF L assms(3)]
  have t1: "transfers objects {pending_blob_path d b} {vault_object b} w w1" using t by blast
  have t2: "transfers objects (pending_blob_path d ` set L') (vault_object ` set L') w1 w'"
    using rest by (simp add: uploads_end_def)
  have b: "pending_blob_path d b \<notin> pending_blob_path d ` set L'" "vault_object b \<notin> vault_object ` set L'"
    using sets(2) by auto
  have others: "\<And>c. c \<in> set L' \<Longrightarrow> pending_blob_path d c \<notin> {pending_blob_path d b}" using sets(2) by auto
  note later = kept_later [OF t1 t2 b]
  note earlier = kept_earlier [OF t1 others]
  have frame: "transfers objects (pending_blob_path d ` set L) (vault_object ` set L) w w'"
    by (rule transfers_trans [OF t1 t2]) (auto simp: sets(3))
  have kept: "\<forall>c \<in> set L. kept d c w w'"
    using rest later(1) t earlier(1) by (auto simp: sets(3) uploads_end_def)
  show ?thesis
  proof (cases r)
    case (Inr names)
    with rest have n: "err' = None" "mset names = mset (if is_ok s then ok @ [b] else ok) + mset L'"
      "\<forall>c \<in> set L'. moved d c w1 w'" by (auto simp: uploads_end_def)
    with err obtain x where s: "s = Inr x" by (cases s) (auto split: if_splits)
    with t have "moved d b w w1" by simp
    with n s err L frame kept later(2) earlier(2) show ?thesis
      by (auto simp: uploads_end_def Inr sets(3))
  next
    case (Inl en)
    obtain e names where en: "en = (e, names)" by fastforce
    with rest Inl obtain fin where d: "names = (if is_ok s then ok @ [b] else ok) @ fin" "mset fin \<subseteq># mset L'"
      "\<forall>c \<in> set fin. moved d c w1 w'" by (auto simp: uploads_end_def)
    have "set fin \<subseteq> set L'" using d(2) by (metis set_mset_mono set_mset_mset)
    with d(3) have dm: "\<forall>c \<in> set fin. moved d c w w'" using earlier(2) by blast
    show ?thesis
    proof (cases s)
      case (Inr x)
      with t have "moved d b w w'" using later(2) by simp
      with d dm Inr frame kept L show ?thesis
        by (auto simp: uploads_end_def Inl en intro!: exI [of _ "b # fin"])
    next
      case s: (Inl x)
      have "mset fin \<subseteq># mset L" using subset_mset.order_trans [OF d(2)] L by simp
      with d dm s frame kept show ?thesis by (auto simp: uploads_end_def Inl en)
    qed
  qed
qed

lemma upload_pool_outcome:
  assumes "upload_pool E C CT d pending in_flight ok err w = (r, w')" "distinct (in_flight @ pending)"
    and "\<forall>b \<in> set (in_flight @ pending). plain_name b" "in_flight \<noteq> [] \<or> err \<noteq> None \<or> pending = []"
  shows "uploads_end d (in_flight @ pending) ok err w r w'"
  using assms
proof (induction "2 * length pending + length in_flight" arbitrary: pending in_flight ok err w rule: less_induct)
  case less
  show ?case
  proof (cases "in_flight = []")
    case True
    with less.prems show ?thesis
      by (auto simp: upload_pool.simps [of E C CT d pending] uploads_end_def kept_def split: option.splits)
  next
    case False
    define i where "i = pick C w in_flight"
    define rest where "rest = without i in_flight"
    have i: "i < length in_flight" using False by (simp add: i_def pick_less)
    obtain s w1 where task: "upload_blob_task E CT d (in_flight ! i) w = (s, w1)" by fastforce
    note m = pool_next(1) [OF i, of pending, folded rest_def]
    have b: "plain_name (in_flight ! i)" using less.prems(3) i by auto
    have sub: "set rest \<subseteq> set in_flight" by (auto simp: rest_def without_def dest: in_set_takeD in_set_dropD)
    note dist = distinct_step(1) [where f = id, unfolded list.map_id, OF m less.prems(2)]
    note step = less.prems(1) [unfolded upload_pool.simps [of E C CT d pending in_flight], folded i_def]
    let ?ok = "if is_ok s then ok @ [in_flight ! i] else ok"
    let ?err = "case s of Inr _ \<Rightarrow> err | Inl e \<Rightarrow> if err = None then Some e else err"
    have out: "is_ok s \<Longrightarrow> s = Inr (in_flight ! i)"
      using upload_blob_task_outcome [OF task b] by (auto simp: is_ok_iff)
    have "uploads_end d (rest @ pending) ?ok ?err w1 r w'"
    proof (cases "is_ok s \<and> err = None \<and> pending \<noteq> []")
      case True
      then have go: "upload_pool E C CT d (tl pending) (rest @ [hd pending]) ?ok ?err w1 = (r, w')"
        using step False task out by (auto simp: Let_def rest_def)
      have e: "mset ((rest @ [hd pending]) @ tl pending) = mset (rest @ pending)"
        using pool_next(2) [OF i] True by (simp add: rest_def)
      have "uploads_end d ((rest @ [hd pending]) @ tl pending) ?ok ?err w1 r w'"
        by (rule less.hyps [OF _ go]) (use pool_measure(2) [OF False, of pending C w "hd pending"] True dist less.prems(3) sub in \<open>auto simp: rest_def i_def neq_Nil_conv\<close>)
      then show ?thesis by (simp only: uploads_end_cong [OF e])
    next
      case no: False
      then have go: "upload_pool E C CT d pending rest ?ok ?err w1 = (r, w')"
        using step False task out by (cases s) (auto simp: Let_def rest_def)
      show ?thesis
        by (rule less.hyps [OF _ go])
          (use pool_measure(1) [OF False] no dist less.prems(3) sub out in \<open>auto simp: rest_def i_def split: sum.splits\<close>)
    qed
    from uploads_step [OF task b less.prems(2) m this refl] show ?thesis .
  qed
qed


section \<open>Downloads\<close>

definition cached_good :: "env \<Rightarrow> path \<Rightarrow> sync_chunk_record \<Rightarrow> 'r site world \<Rightarrow> bool" where
  "cached_good E d c w \<longleftrightarrow>
     (\<exists>bs. file_at w (cache_blob_path d (sc_blob_name c)) = Some bs \<and> blake3 E bs = sc_blake3_checksum c)"

definition downloads_end ::
  "env \<Rightarrow> path \<Rightarrow> sync_chunk_record list \<Rightarrow> nat \<Rightarrow> string list \<Rightarrow> (string \<times> transport_error) list \<Rightarrow> 'r site world \<Rightarrow>
   (string list \<times> (string \<times> transport_error) list + nat) \<Rightarrow> 'r site world \<Rightarrow> bool" where
  "downloads_end E d L n v t w r w' \<longleftrightarrow>
     transfers objects ((\<lambda>c. cache_blob_path d (sc_blob_name c)) ` set L) {} w w' \<and>
     (case r of
        Inr m \<Rightarrow> v = [] \<and> t = [] \<and> m = n + size (mset L) \<and> (\<forall>c \<in> set L. cached_good E d c w')
      | Inl (v', t') \<Rightarrow> (\<exists>v2 t2. v' = v @ v2 \<and> t' = t @ t2 \<and>
          (\<forall>c \<in> set L. cached_good E d c w' \<or> sc_blob_name c \<in> set v2 \<union> fst ` set t2)))"

lemma downloads_end_cong: "mset L = mset L' \<Longrightarrow> downloads_end E d L n v t w r w' = downloads_end E d L' n v t w r w'"
  using mset_eq_setD [of L L'] by (simp only: downloads_end_def)

definition failed_names :: "download_task_error + unit \<Rightarrow> string list \<times> (string \<times> transport_error) list" where
  "failed_names s =
     (case s of Inr _ \<Rightarrow> ([], []) | Inl (Verification b) \<Rightarrow> ([b], []) | Inl (TransportFailure b e) \<Rightarrow> ([], [(b, e)]))"

lemma download_task_name:
  assumes "download_blob_task E CT d c w = (s, w1)" "\<not> is_ok s"
  shows "sc_blob_name c \<in> set (fst (failed_names s)) \<union> fst ` set (snd (failed_names s))"
  using assms
  by (auto simp: download_blob_task_def Let_def bind_def lift_def with_err_def ret_def fail_def attempt_def map_err_def failed_names_def
      split: sum.splits prod.splits if_splits)

lemma downloads_step:
  assumes task: "download_blob_task E CT d c w = (s, w1)" and "distinct (map sc_blob_name L)"
    and L: "mset L = add_mset c (mset L')"
    and rest: "downloads_end E d L' (if is_ok s then n + 1 else n) (v @ fst (failed_names s)) (t @ snd (failed_names s)) w1 r w'"
  shows "downloads_end E d L n v t w r w'"
proof -
  note o = download_blob_task_outcome [OF task]
  note sets = distinct_step [OF L assms(2)]
  let ?p = "\<lambda>c. cache_blob_path d (sc_blob_name c)"
  have t2: "transfers objects (?p ` set L') {} w1 w'" using rest by (simp add: downloads_end_def)
  have frame: "transfers objects (?p ` set L) {} w w'"
    by (rule transfers_trans [OF o [THEN conjunct1] t2]) (auto simp: sets(3))
  have "?p c \<notin> ?p ` set L'" using sets(2) by auto
  then have good: "is_ok s \<Longrightarrow> cached_good E d c w'"
    using o transfersD(4) [OF t2] by (simp add: cached_good_def)
  show ?thesis
  proof (cases r)
    case (Inr m)
    with rest have "is_ok s" "v = []" "t = []"
      by (auto simp: downloads_end_def failed_names_def split: sum.splits download_task_error.splits)
    with rest Inr frame good L show ?thesis by (auto simp: downloads_end_def sets(3))
  next
    case (Inl vt)
    obtain v' t' where vt: "vt = (v', t')" by fastforce
    with rest Inl obtain v2 t2 where r: "v' = v @ fst (failed_names s) @ v2" "t' = t @ snd (failed_names s) @ t2"
      "\<forall>c \<in> set L'. cached_good E d c w' \<or> sc_blob_name c \<in> set v2 \<union> fst ` set t2"
      by (auto simp: downloads_end_def)
    have "\<forall>x \<in> set L. cached_good E d x w' \<or>
        sc_blob_name x \<in> set (fst (failed_names s) @ v2) \<union> fst ` set (snd (failed_names s) @ t2)"
      using r(3) good download_task_name [OF task] by (auto simp: sets(3))
    with r(1,2) frame show ?thesis unfolding downloads_end_def Inl vt by auto
  qed
qed

lemma download_pool_outcome:
  assumes "download_pool E C CT d pending in_flight n v t w = (r, w')" "distinct (map sc_blob_name (in_flight @ pending))"
    and "in_flight \<noteq> [] \<or> pending = []"
  shows "downloads_end E d (in_flight @ pending) n v t w r w'"
  using assms
proof (induction "2 * length pending + length in_flight" arbitrary: pending in_flight n v t w rule: less_induct)
  case less
  show ?case
  proof (cases "in_flight = []")
    case True
    with less.prems show ?thesis
      by (auto simp: download_pool.simps [of E C CT d pending] downloads_end_def split: if_splits)
  next
    case False
    define i where "i = pick C w in_flight"
    define rest where "rest = without i in_flight"
    have i: "i < length in_flight" using False by (simp add: i_def pick_less)
    obtain s w1 where task: "download_blob_task E CT d (in_flight ! i) w = (s, w1)" by fastforce
    note m = pool_next(1) [OF i, of pending, folded rest_def]
    note dist = distinct_step(1) [OF m less.prems(2)]
    let ?n = "if is_ok s then n + 1 else n"
    let ?v = "v @ fst (failed_names s)"
    let ?t = "t @ snd (failed_names s)"
    have step: "(if pending \<noteq> [] then download_pool E C CT d (tl pending) (rest @ [hd pending]) ?n ?v ?t w1
        else download_pool E C CT d pending rest ?n ?v ?t w1) = (r, w')"
      using less.prems(1) False task unfolding download_pool.simps [of E C CT d pending in_flight] i_def [symmetric] rest_def
      by (auto simp: Let_def failed_names_def split: sum.splits download_task_error.splits)
    have "downloads_end E d (rest @ pending) ?n ?v ?t w1 r w'"
    proof (cases "pending = []")
      case True
      with step have go: "download_pool E C CT d pending rest ?n ?v ?t w1 = (r, w')" by simp
      show ?thesis
        by (rule less.hyps [OF _ go]) (use pool_measure(1) [OF False] dist True in \<open>auto simp: rest_def i_def\<close>)
    next
      case more: False
      with step have go: "download_pool E C CT d (tl pending) (rest @ [hd pending]) ?n ?v ?t w1 = (r, w')" by simp
      have e: "mset ((rest @ [hd pending]) @ tl pending) = mset (rest @ pending)"
        using pool_next(2) [OF i more] by (simp add: rest_def)
      have "downloads_end E d ((rest @ [hd pending]) @ tl pending) ?n ?v ?t w1 r w'"
        by (rule less.hyps [OF _ go])
          (use pool_measure(2) [OF False more, of C w "hd pending"] dist more in \<open>auto simp: rest_def i_def neq_Nil_conv\<close>)
      then show ?thesis by (simp only: downloads_end_cong [OF e])
    qed
    from downloads_step [OF task less.prems(2) m this] show ?thesis .
  qed
qed

end

end
