(* ===== verification/Cloud_Sync.thy ===== *)
theory Cloud_Sync
  imports Blob_Transfers
begin

text \<open>
  \<open>storage/cloud/sync.rs\<close>, second part: the snapshot state in the cloud, fetching the blobs of a file, the
  queue of deletions, push, pull and deletion of a vault.  The loop that drains the queue may run for
  ever when deletions keep being queued, so the flows that contain it return an option.  The durations
  in the reports are not modelled.
\<close>

section \<open>Metadata values\<close>

definition read_required_u64_meta :: "env \<Rightarrow> string \<Rightarrow> ('r, sync_error, u64) cloud_prog" where
  "read_required_u64_meta E key =
     bind (with_err SyncStorage (db_query E (get_meta key))) (\<lambda>v.
     bind (lift (ok_or (SyncStorage (Database (''missing manifest_meta key: '' @ key))) v)) (\<lambda>raw.
     lift (ok_or (SyncStorage (Database (''invalid '' @ key @ '': not an unsigned integer''))) (parse_u64 raw))))"

definition read_optional_i64_meta :: "env \<Rightarrow> string \<Rightarrow> ('r, sync_error, i64 option) cloud_prog" where
  "read_optional_i64_meta E key =
     bind (with_err SyncStorage (db_query E (get_meta key))) (\<lambda>raw. ret (Option.bind raw parse_i64))"

definition restore_last_synced_at :: "env \<Rightarrow> string option \<Rightarrow> ('r, storage_error, unit) cloud_prog" where
  "restore_last_synced_at E previous_last_synced_raw =
     (case previous_last_synced_raw of
        Some previous_value \<Rightarrow> db_mutate E (\<lambda>_. set_meta ''last_synced_at'' previous_value)
      | None \<Rightarrow> db_mutate E (\<lambda>_. clear_last_synced_at))"

definition now_unix_seconds :: "env \<Rightarrow> nat \<Rightarrow> i64" where
  "now_unix_seconds E t = (if clock E t < 0 then 0 else clock E t)"


section \<open>The snapshot state in the cloud\<close>

definition CONFLICT_PROBE_DB_FILE_NAME :: string where
  "CONFLICT_PROBE_DB_FILE_NAME = ''manifest-backup-conflict-probe.db''"

text \<open>\<open>open_sqlcipher\<close> and the two queries of \<open>read_snapshot_state_from_database\<close>.\<close>

definition read_cloud_snapshot_from_probe_db ::
  "env \<Rightarrow> cloud_env \<Rightarrow> path \<Rightarrow> bytes \<Rightarrow> ('s, sync_error, (u64 \<times> i64 option) option) prog" where
  "read_cloud_snapshot_from_probe_db E C probe_path sqlcipher_key =
     bind (with_err (\<lambda>e. SyncStorage (Database (storage_error_text E (from_io e)))) (fs_read E probe_path)) (\<lambda>image.
     bind (lift (map_err (\<lambda>e. SyncStorage (Database (storage_error_text E e))) (sql_open C sqlcipher_key image))) (\<lambda>d.
     bind (lift (map_err SyncStorage (read_snapshot_state d))) (\<lambda>state.
     ret (Some state))))"

definition read_cloud_snapshot_state ::
  "env \<Rightarrow> cloud_env \<Rightarrow> 'r transport \<Rightarrow> path \<Rightarrow> bytes \<Rightarrow> uuid \<Rightarrow> bytes \<Rightarrow>
   ('r, sync_error, (u64 \<times> i64 option) option) cloud_prog" where
  "read_cloud_snapshot_state E C CT staging_dir manifest_key vault_id sqlcipher_key =
     (let probe_path = staging_dir @ [CONFLICT_PROBE_DB_FILE_NAME] in
      bind (with_err SyncIo (remove_file_if_present E probe_path)) (\<lambda>_.
      bind (attempt (download_manifest_backup E C CT staging_dir manifest_key vault_id probe_path sqlcipher_key)) (\<lambda>download_result.
      bind (attempt
        (case download_result of
           Inr _ \<Rightarrow> read_cloud_snapshot_from_probe_db E C probe_path sqlcipher_key
         | Inl (BackupTransport BlobNotFound) \<Rightarrow> ret None
         | Inl CryptoFailed \<Rightarrow> fail (CloudManifestUnreadable CryptoFailed)
         | Inl IntegrityCheckFailed \<Rightarrow> fail (CloudManifestUnreadable IntegrityCheckFailed)
         | Inl source \<Rightarrow> fail (SyncManifestBackup source))) (\<lambda>state_result.
      bind (with_err SyncIo (remove_file_if_present E probe_path)) (\<lambda>_.
      lift state_result)))))"


section \<open>Fetching the blobs of one file\<close>

text \<open>The blob and checksum of each chunk; a name that is already there keeps its entry.\<close>

fun needed_blobs ::
  "env \<Rightarrow> db metadata_store \<Rightarrow> chunk_record list \<Rightarrow> (string \<times> bytes) list \<Rightarrow>
   ('r, sync_error, (string \<times> bytes) list) cloud_prog" where
  "needed_blobs E MS [] needed = ret needed"
| "needed_blobs E MS (chunk # chunks) needed =
     bind (case ck_epoch_blob_id chunk of
             Some epoch_id \<Rightarrow>
               bind (with_err SyncStorage (db_query E (ms_get_epoch_blob MS epoch_id))) (\<lambda>epoch.
               ret (eb_blob_name epoch, eb_blake3_checksum epoch))
           | None \<Rightarrow> ret (ck_blob_name chunk, ck_blake3_checksum chunk)) (\<lambda>(blob_name, checksum).
     needed_blobs E MS chunks (if blob_name \<in> set (map fst needed) then needed else needed @ [(blob_name, checksum)]))"

definition fetch_error :: "download_task_error \<Rightarrow> sync_error" where
  "fetch_error e =
     (case e of
        TransportFailure _ err \<Rightarrow> SyncTransport err
      | Verification name \<Rightarrow> SyncTransport (OtherTransport (''Blob checksum mismatch after download: '' @ name)))"

definition exists_either :: "env \<Rightarrow> path \<Rightarrow> path \<Rightarrow> ('s, io_error, bool) prog" where
  "exists_either E p q = bind (fs_exists E p) (\<lambda>b. if b then ret True else fs_exists E q)"

fun fetch_each ::
  "env \<Rightarrow> bool \<Rightarrow> 'r transport \<Rightarrow> path \<Rightarrow> u64 \<Rightarrow> (string \<times> bytes) list \<Rightarrow> u64 \<Rightarrow> ('r, sync_error, unit) cloud_prog" where
  "fetch_each E on_blob_downloaded CT staging_dir total_blobs [] done_count = ret ()"
| "fetch_each E on_blob_downloaded CT staging_dir total_blobs ((blob_name, checksum) # needed) done_count =
     bind (with_err SyncIo
             (exists_either E (pending_blob_path staging_dir blob_name) (cache_blob_path staging_dir blob_name))) (\<lambda>there.
     bind (if there then ret ()
           else with_err fetch_error
                  (download_blob_task E CT staging_dir \<lparr>sc_blob_name = blob_name, sc_blake3_checksum = checksum\<rparr>)) (\<lambda>_.
     bind (progress_if on_blob_downloaded (done_count + 1) total_blobs) (\<lambda>_.
     fetch_each E on_blob_downloaded CT staging_dir total_blobs needed (done_count + 1))))"

definition fetch_missing_file_blobs ::
  "env \<Rightarrow> cloud_env \<Rightarrow> bool \<Rightarrow> uuid \<Rightarrow> db metadata_store \<Rightarrow> path \<Rightarrow> 'r transport \<Rightarrow> ('r, sync_error, unit) cloud_prog" where
  "fetch_missing_file_blobs E C on_blob_downloaded node_id MS staging_dir CT =
     bind (with_err SyncStorage (db_query E (ms_get_chunks MS node_id))) (\<lambda>chunks.
     bind (needed_blobs E MS chunks []) (\<lambda>needed.
     fetch_each E on_blob_downloaded CT staging_dir (length needed) (map_order C needed) 0))"


section \<open>The queue of deletions\<close>

definition PENDING_DELETIONS_BATCH_LIMIT :: usize where
  "PENDING_DELETIONS_BATCH_LIMIT = 128"

text \<open>One batch: the number of rows completed.\<close>

fun drain_batch :: "env \<Rightarrow> 'r transport \<Rightarrow> string list \<Rightarrow> nat \<Rightarrow> ('r, sync_error, nat) cloud_prog" where
  "drain_batch E CT [] batch_completed = ret batch_completed"
| "drain_batch E CT (blob_name # names) batch_completed =
     (case build_blob_remote_path E blob_name of
        Inl error \<Rightarrow> drain_batch E CT names batch_completed
      | Inr remote_path \<Rightarrow>
          bind (attempt (ct_delete_blob CT remote_path)) (\<lambda>r.
          if r = Inr () \<or> r = Inl BlobNotFound then
            bind (with_err SyncStorage (db_mutate E (\<lambda>_. mark_deletion_complete blob_name))) (\<lambda>_.
            drain_batch E CT names (batch_completed + 1))
          else drain_batch E CT names batch_completed))"

partial_function (option) drain_loop :: "env \<Rightarrow> 'r transport \<Rightarrow> nat \<Rightarrow> ('r, sync_error, nat) sync_run" where
  "drain_loop E CT completed w =
     (case db_query E (list_pending_deletions PENDING_DELETIONS_BATCH_LIMIT) w of
        (Inl e, w1) \<Rightarrow> Some (Inl (SyncStorage e), w1)
      | (Inr pending, w1) \<Rightarrow>
          if pending = [] then Some (Inr completed, w1)
          else case drain_batch E CT pending 0 w1 of
            (Inl e, w2) \<Rightarrow> Some (Inl e, w2)
          | (Inr batch_completed, w2) \<Rightarrow>
              if batch_completed = 0 then Some (Inr completed, w2)
              else drain_loop E CT (completed + batch_completed) w2)"

definition drain_pending_deletions :: "env \<Rightarrow> 'r transport \<Rightarrow> ('r, sync_error, nat) sync_run" where
  "drain_pending_deletions E CT = drain_loop E CT 0"


section \<open>Push\<close>

fun staged_sync_blobs ::
  "env \<Rightarrow> path \<Rightarrow> sync_chunk_record list \<Rightarrow> string list \<Rightarrow> ('s, sync_error, string list) prog" where
  "staged_sync_blobs E staging_dir [] upload_blobs = ret upload_blobs"
| "staged_sync_blobs E staging_dir (chunk # chunks) upload_blobs =
     bind (lift (map_err SyncStorage (validate_blob_name_uuid_v4 E (sc_blob_name chunk)))) (\<lambda>_.
     bind (with_err SyncIo (fs_exists E (pending_blob_path staging_dir (sc_blob_name chunk)))) (\<lambda>there.
     staged_sync_blobs E staging_dir chunks (if there then upload_blobs @ [sc_blob_name chunk] else upload_blobs)))"

text \<open>The part of a push before the shuffle: the checks, and what is to be uploaded.\<close>

definition push_prepare ::
  "env \<Rightarrow> cloud_env \<Rightarrow> 'r transport \<Rightarrow> bytes \<Rightarrow> bytes \<Rightarrow> vault_header \<Rightarrow> path \<Rightarrow> sync_config \<Rightarrow>
   ('r, sync_error, uuid \<times> u64 \<times> string option \<times> string list) cloud_prog" where
  "push_prepare E C CT sqlcipher_key manifest_key vault_header staging_dir config =
     bind (lift (map_err SyncTransport (validate_sync_config config))) (\<lambda>_.
     bind (lift (ok_or (SyncStorage (Database ''invalid vault_id in vault header''))
                   (uuid_parse E (vh_vault_id vault_header)))) (\<lambda>vault_id.
     bind (read_required_u64_meta E ''snapshot_counter'') (\<lambda>local_counter.
     bind (read_optional_i64_meta E ''last_synced_at'') (\<lambda>local_last_synced.
     bind (with_err SyncStorage (db_query E (get_meta ''last_synced_at''))) (\<lambda>previous_last_synced_raw.
     bind (attempt (read_cloud_snapshot_state E C CT staging_dir manifest_key vault_id sqlcipher_key)) (\<lambda>read.
     bind (case read of
             Inr state \<Rightarrow> ret state
           | Inl (CloudManifestUnreadable _) \<Rightarrow> ret None
           | Inl other \<Rightarrow> fail other) (\<lambda>cloud_snapshot_state.
     bind (case cloud_snapshot_state of
             Some (snapshot_counter, cloud_last_synced) \<Rightarrow>
               if snapshot_counter > local_counter
               then fail (Conflict \<lparr>sy_local_counter = local_counter, sy_cloud_counter = snapshot_counter,
                            sy_local_last_synced = local_last_synced, sy_cloud_last_synced = cloud_last_synced\<rparr>)
               else ret ()
           | None \<Rightarrow> ret ()) (\<lambda>_.
     bind (with_err SyncStorage (db_query E (list_sync_chunks E))) (\<lambda>chunks.
     bind (staged_sync_blobs E staging_dir chunks []) (\<lambda>upload_blobs.
     ret (vault_id, local_counter, previous_last_synced_raw, upload_blobs)))))))))))"

definition report_sync :: "bool \<Rightarrow> nat \<Rightarrow> nat \<Rightarrow> ('s, 'e, unit) prog" where
  "report_sync progress a b = progress_if progress (a mod 2 ^ 32) (b mod 2 ^ 32)"

text \<open>The upload of the manifest, and what is undone when it fails.\<close>

definition push_manifest ::
  "env \<Rightarrow> cloud_env \<Rightarrow> 'r transport \<Rightarrow> bytes \<Rightarrow> bytes \<Rightarrow> uuid \<Rightarrow> path \<Rightarrow> u64 \<Rightarrow> string option \<Rightarrow>
   ('r, sync_error, u64) cloud_prog" where
  "push_manifest E C CT sqlcipher_key manifest_key vault_id staging_dir local_counter previous_last_synced_raw =
     bind (with_err SyncStorage (db_update E increment_snapshot_counter)) (\<lambda>new_counter.
     bind (with_err SyncStorage (db_mutate E (\<lambda>t. set_meta ''last_synced_at'' (show_int (now_unix_seconds E t))))) (\<lambda>_.
     bind (attempt (upload_manifest_backup E C CT sqlcipher_key manifest_key vault_id staging_dir)) (\<lambda>uploaded.
     case uploaded of
       Inr _ \<Rightarrow> ret new_counter
     | Inl source \<Rightarrow>
         bind (attempt (db_mutate E (\<lambda>_. rollback_snapshot_counter local_counter))) (\<lambda>rollback_result.
         bind (attempt (restore_last_synced_at E previous_last_synced_raw)) (\<lambda>restore_result.
         case (rollback_result, restore_result) of
           (Inr _, Inr _) \<Rightarrow> fail (PushManifestBackupFailed source)
         | (Inl rollback_error, _) \<Rightarrow> fail (RollbackFailed source rollback_error)
         | (_, Inl rollback_error) \<Rightarrow> fail (RollbackFailed source rollback_error))))))"

text \<open>The part between the shuffle and the queue of deletions.\<close>

definition push_transfer ::
  "env \<Rightarrow> cloud_env \<Rightarrow> 'r transport \<Rightarrow> bool \<Rightarrow> bytes \<Rightarrow> bytes \<Rightarrow> vault_header \<Rightarrow> path \<Rightarrow> sync_config \<Rightarrow>
   uuid \<Rightarrow> u64 \<Rightarrow> string option \<Rightarrow> string list \<Rightarrow> ('r, sync_error, push_report) cloud_prog" where
  "push_transfer E C CT progress sqlcipher_key manifest_key vault_header staging_dir config
     vault_id local_counter previous_last_synced_raw upload_blobs =
     (let total_upload_blobs = length upload_blobs in
     bind (if upload_blobs \<noteq> [] then with_err SyncTransport (ct_ensure_folder CT ''vault'') else ret ()) (\<lambda>_.
     bind (report_sync progress 0 total_upload_blobs) (\<lambda>_.
     bind (with_err (\<lambda>(first_error, successful_uploads). PushUploadFailed first_error successful_uploads)
             (drive_blob_uploads E C CT upload_blobs staging_dir (max_concurrent config))) (\<lambda>successful_uploads.
     bind (report_sync progress (length successful_uploads) total_upload_blobs) (\<lambda>_.
     bind (push_manifest E C CT sqlcipher_key manifest_key vault_id staging_dir local_counter
             previous_last_synced_raw) (\<lambda>new_counter.
     bind (with_err VaultHeaderUploadFailed (upload_vault_header E C CT vault_header staging_dir)) (\<lambda>_.
     ret \<lparr>pr_blobs_uploaded = length successful_uploads, pr_uploaded_blob_names = successful_uploads,
          pr_snapshot_counter_after = new_counter\<rparr>)))))))"

definition push_vault ::
  "env \<Rightarrow> cloud_env \<Rightarrow> 'r transport \<Rightarrow> bool \<Rightarrow> bytes \<Rightarrow> bytes \<Rightarrow> vault_header \<Rightarrow> path \<Rightarrow> sync_config \<Rightarrow>
   ('r, sync_error, push_report) sync_run" where
  "push_vault E C CT progress sqlcipher_key manifest_key vault_header staging_dir config =
     obind (ends (push_prepare E C CT sqlcipher_key manifest_key vault_header staging_dir config))
       (\<lambda>(vault_id, local_counter, previous_last_synced_raw, upload_blobs).
     obind (fisher_yates_shuffle_with_system_rng E C upload_blobs) (\<lambda>upload_blobs.
     obind (ends (push_transfer E C CT progress sqlcipher_key manifest_key vault_header staging_dir config
              vault_id local_counter previous_last_synced_raw upload_blobs)) (\<lambda>report.
     obind (drain_pending_deletions E CT) (\<lambda>_.
     ends (ret report)))))"


section \<open>Pull\<close>

text \<open>A blob in the cache counts when its checksum is right, else it is removed; then \<open>pending/\<close> is asked.\<close>

fun chunks_to_fetch ::
  "env \<Rightarrow> path \<Rightarrow> sync_chunk_record list \<Rightarrow> sync_chunk_record list \<Rightarrow> nat \<Rightarrow>
   ('s, sync_error, sync_chunk_record list \<times> nat) prog" where
  "chunks_to_fetch E staging_dir [] fetch skipped = ret (fetch, skipped)"
| "chunks_to_fetch E staging_dir (chunk # chunks) fetch skipped =
     bind (lift (map_err SyncStorage (validate_blob_name_uuid_v4 E (sc_blob_name chunk)))) (\<lambda>_.
     let cache_path = cache_blob_path staging_dir (sc_blob_name chunk);
         pending_path = pending_blob_path staging_dir (sc_blob_name chunk) in
     bind (with_err SyncIo (fs_exists E cache_path)) (\<lambda>cached.
     if cached then
       bind (with_err SyncIo (verify_blob_checksum E cache_path (sc_blake3_checksum chunk))) (\<lambda>good.
       if good then chunks_to_fetch E staging_dir chunks fetch (skipped + 1)
       else
         bind (with_err SyncIo (remove_file_if_present E cache_path)) (\<lambda>_.
         chunks_to_fetch E staging_dir chunks (fetch @ [chunk]) skipped))
     else
       bind (with_err SyncIo (fs_exists E pending_path)) (\<lambda>pending.
       bind (if pending then attempt (verify_blob_checksum E pending_path (sc_blake3_checksum chunk))
             else ret (Inr False)) (\<lambda>verified.
       if verified = Inr True then chunks_to_fetch E staging_dir chunks fetch (skipped + 1)
       else chunks_to_fetch E staging_dir chunks (fetch @ [chunk]) skipped))))"

definition pull_transfer ::
  "env \<Rightarrow> cloud_env \<Rightarrow> 'r transport \<Rightarrow> bool \<Rightarrow> path \<Rightarrow> sync_config \<Rightarrow> ('r, sync_error, pull_report) cloud_prog" where
  "pull_transfer E C CT progress staging_dir config =
     bind (lift (map_err SyncTransport (validate_sync_config config))) (\<lambda>_.
     bind (with_err SyncStorage (db_query E (list_sync_chunks E))) (\<lambda>chunks.
     bind (chunks_to_fetch E staging_dir chunks [] 0) (\<lambda>(fetch, blobs_skipped_present).
     bind (report_sync progress 0 (length fetch)) (\<lambda>_.
     bind (with_err (\<lambda>(verification_failures, transport_failures). PullIncomplete verification_failures transport_failures)
             (drive_blob_downloads E C CT fetch staging_dir (max_concurrent config))) (\<lambda>blobs_downloaded.
     bind (report_sync progress blobs_downloaded (length fetch)) (\<lambda>_.
     ret \<lparr>pl_blobs_downloaded = blobs_downloaded, pl_blobs_skipped_present = blobs_skipped_present\<rparr>))))))"

definition pull_vault ::
  "env \<Rightarrow> cloud_env \<Rightarrow> 'r transport \<Rightarrow> bool \<Rightarrow> path \<Rightarrow> sync_config \<Rightarrow> ('r, sync_error, pull_report) sync_run" where
  "pull_vault E C CT progress staging_dir config =
     obind (ends (pull_transfer E C CT progress staging_dir config)) (\<lambda>report.
     obind (drain_pending_deletions E CT) (\<lambda>_.
     ends (ret report)))"


section \<open>Deletion of the vault in the cloud\<close>

fun delete_listed ::
  "env \<Rightarrow> 'r transport \<Rightarrow> string list \<Rightarrow> nat \<Rightarrow> string list \<Rightarrow> ('r, sync_error, nat \<times> string list) cloud_prog" where
  "delete_listed E CT [] deleted failed = ret (deleted, failed)"
| "delete_listed E CT (blob_path # paths) deleted failed =
     (if \<not> is_ok (validate_vault_blob_remote_path E blob_path)
      then delete_listed E CT paths deleted (failed @ [blob_path])
      else
        bind (attempt (ct_delete_blob CT blob_path)) (\<lambda>r.
        case r of
          Inr _ \<Rightarrow> delete_listed E CT paths (deleted + 1) failed
        | Inl _ \<Rightarrow> delete_listed E CT paths deleted (failed @ [blob_path])))"

definition delete_vault_from_cloud :: "env \<Rightarrow> 'r transport \<Rightarrow> ('r, sync_error, cloud_deletion_report) cloud_prog" where
  "delete_vault_from_cloud E CT =
     bind (lift (map_err SyncTransport (validate_remote_path ''vault/''))) (\<lambda>_.
     bind (with_err SyncTransport (ct_list_blobs CT ''vault/'')) (\<lambda>blob_paths.
     bind (delete_listed E CT blob_paths 0 []) (\<lambda>(deleted, failed).
     bind (attempt (ct_delete_blob CT MANIFEST_BACKUP_BLOB_NAME)) (\<lambda>manifest_result.
     bind (attempt (ct_delete_blob CT VAULT_HEADER_BLOB_NAME)) (\<lambda>header_result.
     ret \<lparr>cd_vault_blobs_deleted = deleted, cd_vault_blobs_failed = failed,
          cd_manifest_backup_deleted = is_ok manifest_result, cd_vault_header_deleted = is_ok header_result\<rparr>)))))"

end
