(* ===== verification/Example_Cloud.thy ===== *)
theory Example_Cloud
  imports Blob_Transfers Example_Vault
begin

text \<open>
  A device and a cloud for the witnesses: the random numbers are small, transfers complete in turn, the
  decoders read a text as its bytes, a database image holds the key and stands for an empty manifest that was
  pushed five times.
\<close>

definition ex_ahead :: db where
  "ex_ahead = sql_update_meta ''snapshot_counter'' ''5'' ex_base"

definition ex_cloud :: cloud_env where
  "ex_cloud =
     \<lparr>draw_u64 = (\<lambda>t. 7 * t mod 1000), schedule = (\<lambda>t. t),
      base64_decode = (\<lambda>s. Some (map of_char s)), hex_decode = (\<lambda>s. Some (map of_char s)),
      header_to_json = (\<lambda>h. Some [1]), header_from_json = (\<lambda>b. None), live_open = (\<lambda>k. Inr ()),
      sql_image = (\<lambda>k d. k), sql_open = (\<lambda>k b. if b = k then Inr ex_ahead else Inl WrongKey),
      sql_check = (\<lambda>b. (''ok'', None)), temp_name = (\<lambda>t. ''t''), map_order = (\<lambda>l. l)\<rparr>"

lemma ex_cloud_sel [simp]:
  "draw_u64 ex_cloud t = 7 * t mod 1000" "schedule ex_cloud t = t" "live_open ex_cloud k = Inr ()"
  "sql_image ex_cloud k d = k" "sql_open ex_cloud k b = (if b = k then Inr ex_ahead else Inl WrongKey)"
  "sql_check ex_cloud b = (''ok'', None)" "header_to_json ex_cloud h = Some [1]" "map_order ex_cloud l = l" "temp_name ex_cloud t = ''t''"
  by (simp_all add: ex_cloud_def)

text \<open>A manifest with one blob in the cloud's keeping.\<close>

definition ex_listed :: db where
  "ex_listed = ex_base\<lparr>t_epoch_blobs :=
     [\<lparr>er_epoch_blob_id = ''7'', er_blob_name = ''7'', er_file_key_wrapped = [], er_size_padded = 1,
       er_blake3_checksum = replicate 32 9\<rparr>]\<rparr>"

text \<open>A device with two blobs that wait for upload.\<close>

definition ex_device :: "(string \<times> bytes) list \<Rightarrow> (string \<times> transport_error) list \<Rightarrow> db \<Rightarrow> mock_cloud site world" where
  "ex_device blobs failures d =
     \<lparr>store = \<lparr>manifest = d, remote = \<lparr>mc_blobs = blobs, mc_failure_paths = failures\<rparr>\<rparr>,
      files = [([''v'', ''pending'', ''7.blob''], [9]), ([''v'', ''pending'', ''8.blob''], [4, 5])],
      dirs = [[], [''v''], [''v'', ''pending''], [''v'', ''cache'']], tick = 0, progress_log = []\<rparr>"

lemma ex_device_sel [simp]:
  "store (ex_device bs fs d) = \<lparr>manifest = d, remote = \<lparr>mc_blobs = bs, mc_failure_paths = fs\<rparr>\<rparr>"
  "files (ex_device bs fs d) = [([''v'', ''pending'', ''7.blob''], [9]), ([''v'', ''pending'', ''8.blob''], [4, 5])]"
  "dirs (ex_device bs fs d) = [[], [''v''], [''v'', ''pending''], [''v'', ''cache'']]" "tick (ex_device bs fs d) = 0"
  by (simp_all add: ex_device_def)

lemma ex_show: "show_nat 5 = ''5''" "show_nat 7 = ''7''" "show_nat 8 = ''8''"
  by code_simp+

lemma ex_blob_names: "validate_blob_name_uuid_v4 (ex_env a) ''7'' = Inr ()" "validate_blob_name_uuid_v4 (ex_env a) ''8'' = Inr ()"
  by (simp_all add: validate_blob_name_uuid_v4_def ex_show ex_uuid_text digit_val_def)

lemma ex_remote_paths:
  "build_blob_remote_path (ex_env a) ''7'' = Inr ''vault/7.blob''" "build_blob_remote_path (ex_env a) ''8'' = Inr ''vault/8.blob''"
proof -
  have "validate_remote_path ''vault/7.blob'' = Inr ''vault/7.blob''" "validate_remote_path ''vault/8.blob'' = Inr ''vault/8.blob''"
    by code_simp+
  then show "build_blob_remote_path (ex_env a) ''7'' = Inr ''vault/7.blob''" "build_blob_remote_path (ex_env a) ''8'' = Inr ''vault/8.blob''"
    by (simp_all add: build_blob_remote_path_def ex_blob_names)
qed

text \<open>One upload that succeeds, one whose transfer is refused.\<close>

lemmas cloud_run_simps = run_simps guard_failure_def check_failure_def set_remote_def get_world_def mock_transport_def mock_upload_blob_def
  mock_download_blob_def mock_delete_blob_def retry_on_timeout_def remove_file_if_present_def ok_or_def

definition ex_uploaded :: "mock_cloud site world" where
  "ex_uploaded = (ex_device [(''vault/7.blob'', [9])] [] ex_base)
     \<lparr>files := [([''v'', ''pending'', ''8.blob''], [4, 5])], tick := 2\<rparr>"

lemma ex_upload_one:
  "upload_blob_task (ex_env []) (mock_transport True (ex_env [])) [''v''] ''7'' (ex_device [] [(''vault/8.blob'', OtherTransport ''refused'')] ex_base) =
     (Inr ''7'', ex_uploaded\<lparr>store := \<lparr>manifest = ex_base, remote = \<lparr>mc_blobs = [(''vault/7.blob'', [9])],
        mc_failure_paths = [(''vault/8.blob'', OtherTransport ''refused'')]\<rparr>\<rparr>\<rparr>)"
  by (simp add: upload_blob_task_def ex_remote_paths cloud_run_simps pending_blob_path_def ex_uploaded_def ex_device_def)

lemma ex_upload_refused:
  "upload_blob_task (ex_env []) (mock_transport True (ex_env [])) [''v''] ''8'' (ex_uploaded\<lparr>store := \<lparr>manifest = ex_base, remote = \<lparr>mc_blobs = [(''vault/7.blob'', [9])],
        mc_failure_paths = [(''vault/8.blob'', OtherTransport ''refused'')]\<rparr>\<rparr>\<rparr>) =
     (Inl (OtherTransport ''refused''), ex_uploaded)"
  by (simp add: upload_blob_task_def ex_remote_paths cloud_run_simps pending_blob_path_def ex_uploaded_def ex_device_def)

lemma ex_uploads:
  "drive_blob_uploads (ex_env []) ex_cloud (mock_transport True (ex_env [])) [''7'', ''8''] [''v''] 1
       (ex_device [] [(''vault/8.blob'', OtherTransport ''refused'')] ex_base) =
     (Inl (OtherTransport ''refused'', [''7'']), ex_uploaded)"
  unfolding drive_blob_uploads_def Let_def
  by (subst upload_pool.simps, simp add: pick_def without_def ex_upload_one Let_def, subst upload_pool.simps,
      simp add: pick_def without_def ex_upload_refused Let_def, subst upload_pool.simps, simp)

end
