(* ===== verification/Shuffle_Props.thy ===== *)
theory Shuffle_Props
  imports Blob_Transfers Example_Cloud
begin

text \<open>
  The random order of uploads: how many samples give each index, that the loops end when the random
  source does not reject for ever, and that the shuffle permutes.
\<close>

section \<open>Rejection sampling\<close>

lemma card_residue:
  fixes b q j :: nat
  assumes "j < b"
  shows "card {s. s < b * q \<and> s mod b = j} = q"
proof -
  have "bij_betw (\<lambda>k. b * k + j) {..<q} {s. s < b * q \<and> s mod b = j}"
  proof (rule bij_betw_byWitness [where f' = "\<lambda>s. s div b"])
    show "(\<lambda>k. b * k + j) ` {..<q} \<subseteq> {s. s < b * q \<and> s mod b = j}"
    proof clarsimp
      fix k assume "k < q"
      then have "b * (k + 1) \<le> b * q" by (intro mult_le_mono2) simp
      with assms show "b * k + j < b * q \<and> j mod b = j" by simp
    qed
    show "(\<lambda>s. s div b) ` {s. s < b * q \<and> s mod b = j} \<subseteq> {..<q}"
      by (auto simp: less_mult_imp_div_less mult.commute)
  qed (use assms in auto)
  from bij_betw_same_card [OF this] show ?thesis by simp
qed

lemma zone_eq: "zone_of b = b * (u64_max div b)"
  by (simp add: zone_of_def minus_mod_eq_mult_div)

lemma zone_large:
  assumes "0 < b" "b < 2 ^ 64"
  shows "2 ^ 63 \<le> zone_of b"
proof (cases "b \<le> 2 ^ 63")
  case True
  then have "u64_max mod b < 2 ^ 63" using assms(1) by (meson mod_less_divisor order_less_le_trans)
  then show ?thesis by (simp add: zone_of_def u64_max_def)
next
  case False
  have "1 \<le> u64_max div b"
    using assms by (simp add: Suc_le_eq div_greater_zero_iff u64_max_def)
  then have "b * 1 \<le> b * (u64_max div b)" by (rule mult_le_mono2)
  with False show ?thesis unfolding zone_eq by linarith
qed

lemma try_next_u64_cases:
  obtains e where "try_next_u64 E C w = (Inl e, next_tick w)" "os_fault E (tick w) \<noteq> None"
    | "try_next_u64 E C w = (Inr (draw_u64 C (tick w)), next_tick w)" "os_fault E (tick w) = None"
  by (cases "os_fault E (tick w)") (auto simp: try_next_u64_def fs_effect_def)

text \<open>A run of the loop only takes time, and what it returns is below the bound.\<close>

lemma sample_loop_outcome:
  assumes "sample_loop E C b w = Some (r, w')" "0 < b"
  shows "touches {} w w' \<and> (\<forall>j. r = Inr j \<longrightarrow> j < b) \<and> (no_faults E \<longrightarrow> is_ok r)"
proof -
  define P where "P E' b w x \<longleftrightarrow> 0 < b \<longrightarrow>
      touches {} w (snd x) \<and> (\<forall>j. fst x = Inr j \<longrightarrow> j < b) \<and> (no_faults E' \<longrightarrow> is_ok (fst x))"
    for E' b and w :: "'a site world" and x :: "(sync_error + nat) \<times> 'a site world"
  have "P E b w (r, w')"
  proof (rule sample_loop.raw_induct [where P = "\<lambda>E' _. P E'", OF _ assms(1)])
    fix f E' C' b' w' and x :: "(sync_error + nat) \<times> 'a site world"
    assume IH: "\<And>E C b w y. f E C b w = Some y \<Longrightarrow> P E b w y"
      and step: "(case try_next_u64 E' C' w' of
          (Inl e, w1) \<Rightarrow> Some (Inl (rng_error e), w1)
        | (Inr sample, w1) \<Rightarrow>
            if sample < zone_of b' then Some (Inr (sample mod b'), w1) else f E' C' b' w1) = Some x"
    show "P E' b' w' x"
    proof (cases rule: try_next_u64_cases [of E' C' w'])
      case 2
      show ?thesis
      proof (cases "draw_u64 C' (tick w') < zone_of b'")
        case True
        with step 2 show ?thesis by (auto simp: P_def)
      next
        case False
        with step 2 have "f E' C' b' (next_tick w') = Some x" by simp
        from IH [OF this] show ?thesis by (auto simp: P_def touches_def)
      qed
    qed (use step in \<open>auto simp: P_def\<close>)
  qed
  with assms(2) show ?thesis by (simp add: P_def)
qed

lemma sample_loop_ends:
  assumes "draw_u64 C (tick w + k) < 2 ^ 63" "0 < b" "b < 2 ^ 64"
  shows "sample_loop E C b w \<noteq> None"
  using assms(1)
proof (induction k arbitrary: w)
  case 0
  with zone_large [OF assms(2,3)] have "draw_u64 C (tick w) < zone_of b" by simp
  then show ?case
    by (cases rule: try_next_u64_cases [of E C w]) (subst sample_loop.simps, simp)+
next
  case (Suc k)
  then have "sample_loop E C b (next_tick w) \<noteq> None" by simp
  then show ?case
    by (cases rule: try_next_u64_cases [of E C w]) (subst sample_loop.simps, simp)+
qed


section \<open>The shuffle\<close>

lemma obind_eq_Some:
  "obind m f w = Some (r, w') \<longleftrightarrow>
     (\<exists>e. m w = Some (Inl e, w') \<and> r = Inl e) \<or> (\<exists>a w1. m w = Some (Inr a, w1) \<and> f a w1 = Some (r, w'))"
  by (auto simp: obind_def split: option.splits sum.splits)

lemma mset_swap_items: "i < length xs \<Longrightarrow> j < length xs \<Longrightarrow> mset (swap_items i j xs) = mset xs"
  by (simp add: swap_items_def mset_swap)

lemma unbiased_index_outcome:
  assumes "unbiased_index E C n w = Some (r, w')" "0 < n"
  shows "touches {} w w' \<and> (\<forall>j. r = Inr j \<longrightarrow> j < n) \<and> (no_faults E \<longrightarrow> is_ok r)"
  using sample_loop_outcome [of E C n w r w'] assms by (simp add: unbiased_index_def)

lemma shuffle_loop_outcome:
  assumes "shuffle_loop E C i xs w = Some (r, w')" "i < length xs \<or> i = 0"
  shows "touches {} w w' \<and> (\<forall>ys. r = Inr ys \<longrightarrow> mset ys = mset xs) \<and> (no_faults E \<longrightarrow> is_ok r)"
  using assms
proof (induction i arbitrary: xs w)
  case 0
  then show ?case by (auto simp: ends_def ret_def)
next
  case (Suc i)
  from Suc.prems(1) consider
      (failed) e where "unbiased_index E C (Suc i + 1) w = Some (Inl e, w')" "r = Inl e"
    | (drawn) j w1 where "unbiased_index E C (Suc i + 1) w = Some (Inr j, w1)"
        "shuffle_loop E C i (swap_items (Suc i) j xs) w1 = Some (r, w')"
    by (auto simp: obind_eq_Some)
  then show ?case
  proof cases
    case failed
    from unbiased_index_outcome [OF failed(1)] failed(2) show ?thesis by auto
  next
    case drawn
    from unbiased_index_outcome [OF drawn(1)] have j: "touches {} w w1" "j < Suc i + 1" by auto
    have l: "Suc i < length xs" using Suc.prems(2) by simp
    from Suc.IH [OF drawn(2)] l j(2) mset_swap_items [of "Suc i" xs j]
    show ?thesis using touches_trans [OF j(1)] by (auto simp: swap_items_def)
  qed
qed

lemma shuffle_loop_ends:
  assumes "\<forall>t. \<exists>k. draw_u64 C (t + k) < 2 ^ 63" "i + 1 < 2 ^ 64"
  shows "shuffle_loop E C i xs w \<noteq> None"
  using assms(2)
proof (induction i arbitrary: xs w)
  case (Suc i)
  obtain k where "draw_u64 C (tick w + k) < 2 ^ 63" using assms(1) by blast
  from sample_loop_ends [OF this, of "Suc i + 1" E] Suc.prems
  obtain r w1 where "sample_loop E C (Suc i + 1) w = Some (r, w1)" by auto
  then show ?case using Suc.IH Suc.prems by (auto simp: obind_def unbiased_index_def split: sum.splits)
qed (simp add: ends_def)

end
