(* ===== verification/Sync_Lemmas.thy ===== *)
theory Sync_Lemmas
  imports Pool_Lemmas Cloud_Sync Shuffle_Props
begin

text \<open>
  The flows over the pools: what a pull has when it ends, and what the queue of deletions and the
  upload of the manifest do to the database.
\<close>

section \<open>The blobs of a pull\<close>

definition good_at :: "env \<Rightarrow> path \<Rightarrow> bytes \<Rightarrow> 's world \<Rightarrow> bool" where
  "good_at E p checksum w \<longleftrightarrow> (\<exists>bs. file_at w p = Some bs \<and> blake3 E bs = checksum)"

text \<open>A blob is held when the right bytes are in the cache or wait for upload.\<close>

definition held :: "env \<Rightarrow> path \<Rightarrow> sync_chunk_record \<Rightarrow> 's world \<Rightarrow> bool" where
  "held E d c w \<longleftrightarrow> good_at E (cache_blob_path d (sc_blob_name c)) (sc_blake3_checksum c) w \<or>
     good_at E (pending_blob_path d (sc_blob_name c)) (sc_blake3_checksum c) w"

lemma good_at_touches: "touches P w w' \<Longrightarrow> p \<notin> P \<Longrightarrow> good_at E p k w' = good_at E p k w"
  by (auto simp: good_at_def touches_def)

lemma verify_good: "verify_blob_checksum E p k w = (Inr True, w') \<Longrightarrow> good_at E p k w"
  using verify_blob_checksum_outcome by (fastforce simp: good_at_def)

definition checked_ok ::
  "env \<Rightarrow> path \<Rightarrow> sync_chunk_record list \<Rightarrow> sync_chunk_record list \<Rightarrow> nat \<Rightarrow> 's world \<Rightarrow>
   sync_chunk_record list \<Rightarrow> nat \<Rightarrow> 's world \<Rightarrow> bool" where
  "checked_ok E d cs fetch skipped w fetch' skipped' w' \<longleftrightarrow>
     (\<exists>extra. fetch' = fetch @ extra \<and> subseq extra cs \<and> skipped' + length extra = skipped + length cs \<and>
        touches ((\<lambda>c. cache_blob_path d (sc_blob_name c)) ` set extra) w w' \<and>
        (\<forall>c \<in> set cs - set extra. held E d c w'))"

lemma checked_skip:
  assumes "touches {} w w1" "held E d c w" "distinct (map sc_blob_name (c # cs))"
    and "checked_ok E d cs fetch (skipped + 1) w1 fetch' skipped' w'"
  shows "checked_ok E d (c # cs) fetch skipped w fetch' skipped' w'"
proof -
  obtain extra where x: "fetch' = fetch @ extra" "subseq extra cs" "skipped' + length extra = skipped + 1 + length cs"
      "touches ((\<lambda>c. cache_blob_path d (sc_blob_name c)) ` set extra) w1 w'" "\<forall>c \<in> set cs - set extra. held E d c w'"
    using assms(4) by (auto simp: checked_ok_def)
  have sub: "set extra \<subseteq> set cs" using list_emb_set [OF x(2)] by auto
  have fresh: "cache_blob_path d (sc_blob_name c) \<notin> (\<lambda>c. cache_blob_path d (sc_blob_name c)) ` set extra"
      "pending_blob_path d (sc_blob_name c) \<notin> (\<lambda>c. cache_blob_path d (sc_blob_name c)) ` set extra"
    using sub assms(3) by auto
  have "held E d c w'"
    using assms(2) good_at_touches [OF x(4) fresh(1)] good_at_touches [OF x(4) fresh(2)] good_at_touches [OF assms(1)]
    by (simp add: held_def)
  then show ?thesis
    using x touches_trans [OF assms(1) x(4), of "(\<lambda>c. cache_blob_path d (sc_blob_name c)) ` set extra"]
    by (auto simp: checked_ok_def intro!: exI [of _ extra])
qed

lemma checked_fetch:
  assumes "touches {cache_blob_path d (sc_blob_name c)} w w1"
    and "checked_ok E d cs (fetch @ [c]) skipped w1 fetch' skipped' w'"
  shows "checked_ok E d (c # cs) fetch skipped w fetch' skipped' w'"
proof -
  obtain extra where x: "fetch' = fetch @ c # extra" "subseq extra cs" "skipped' + length extra = skipped + length cs"
      "touches ((\<lambda>c. cache_blob_path d (sc_blob_name c)) ` set extra) w1 w'" "\<forall>c \<in> set cs - set extra. held E d c w'"
    using assms(2) by (auto simp: checked_ok_def)
  have "touches ((\<lambda>c. cache_blob_path d (sc_blob_name c)) ` set (c # extra)) w w'"
    by (rule touches_trans [OF assms(1) x(4)]) auto
  with x show ?thesis by (auto simp: checked_ok_def intro!: exI [of _ "c # extra"])
qed

lemma chunks_to_fetch_outcome:
  assumes "chunks_to_fetch E d cs fetch skipped w = (Inr (fetch', skipped'), w')" "distinct (map sc_blob_name cs)"
  shows "checked_ok E d cs fetch skipped w fetch' skipped' w'"
  using assms
proof (induction cs arbitrary: fetch skipped w)
  case Nil
  then show ?case by (auto simp: checked_ok_def)
next
  case (Cons c cs)
  let ?c = "cache_blob_path d (sc_blob_name c)"
  let ?p = "pending_blob_path d (sc_blob_name c)"
  let ?k = "sc_blake3_checksum c"
  have dist: "distinct (map sc_blob_name cs)" using Cons.prems(2) by simp
  have valid: "validate_blob_name_uuid_v4 E (sc_blob_name c) = Inr ()"
    using Cons.prems(1) by (cases "validate_blob_name_uuid_v4 E (sc_blob_name c)") (auto simp: bind_Inr)
  obtain cached w1 where 1: "fs_exists E ?c w = (Inr cached, w1)"
    using Cons.prems(1) by (auto simp: bind_Inr Let_def valid)
  note t1 = touches_read(3) [OF 1]
  show ?case
  proof (cases cached)
    case True
    obtain good w2 where 2: "verify_blob_checksum E ?c ?k w1 = (Inr good, w2)"
      using Cons.prems(1) 1 True by (auto simp: bind_Inr Let_def valid)
    have t2: "touches {} w w2" using touches_trans [OF t1] verify_blob_checksum_outcome [OF 2] by blast
    show ?thesis
    proof (cases good)
      case True
      with 2 have "good_at E ?c ?k w1" by (simp add: verify_good)
      then have h: "held E d c w" using good_at_touches [OF t1] by (simp add: held_def)
      have "chunks_to_fetch E d cs fetch (skipped + 1) w2 = (Inr (fetch', skipped'), w')"
        using Cons.prems(1) 1 2 \<open>cached\<close> True by (auto simp: bind_Inr Let_def valid)
      from checked_skip [OF t2 h Cons.prems(2) Cons.IH [OF this dist]] show ?thesis .
    next
      case False
      obtain u w3 where 3: "remove_file_if_present E ?c w2 = (Inr u, w3)"
        and go: "chunks_to_fetch E d cs (fetch @ [c]) skipped w3 = (Inr (fetch', skipped'), w')"
        using Cons.prems(1) 1 2 \<open>cached\<close> False by (auto simp: bind_Inr Let_def valid)
      have "touches {?c} w w3"
        by (rule touches_trans [OF t2 remove_file_if_present_outcome [OF 3, THEN conjunct1]]) auto
      from checked_fetch [OF this Cons.IH [OF go dist]] show ?thesis .
    qed
  next
    case False
    obtain pending w2 where 2: "fs_exists E ?p w1 = (Inr pending, w2)"
      using Cons.prems(1) 1 False by (auto simp: bind_Inr Let_def valid)
    have t2: "touches {} w w2" using touches_trans [OF t1 touches_read(3) [OF 2]] by blast
    have e: "with_err SyncIo (fs_exists E ?c) w = (Inr False, w1)" "with_err SyncIo (fs_exists E ?p) w1 = (Inr pending, w2)"
      using 1 2 False by simp_all
    have "bind (if pending then attempt (verify_blob_checksum E ?p ?k) else ret (Inr False))
        (\<lambda>verified. if verified = Inr True then chunks_to_fetch E d cs fetch (skipped + 1)
                else chunks_to_fetch E d cs (fetch @ [c]) skipped) w2 = (Inr (fetch', skipped'), w')"
      using Cons.prems(1) False
      by (simp add: Let_def valid bind_step [where m = "lift (Inr ())" and w = w] 
          bind_step [where m = "with_err SyncIo (fs_exists E ?c)" and w = w, OF e(1)]
          bind_step [where m = "with_err SyncIo (fs_exists E ?p)" and w = w1, OF e(2)])
    then obtain verified w3 where
        3: "(if pending then attempt (verify_blob_checksum E ?p ?k) else ret (Inr False) :: (_, sync_error, _) prog) w2 = (Inr verified, w3)"
      and go: "(if verified = Inr True then chunks_to_fetch E d cs fetch (skipped + 1)
                else chunks_to_fetch E d cs (fetch @ [c]) skipped) w3 = (Inr (fetch', skipped'), w')"
      unfolding bind_Inr by blast
    have v: "touches {} w w3 \<and> (verified = Inr True \<longrightarrow> good_at E ?p ?k w2)"
    proof (cases pending)
      case True
      with 3 have vb: "verify_blob_checksum E ?p ?k w2 = (verified, w3)" by (auto simp: attempt_def split: prod.splits)
      have "touches {} w w3" by (rule touches_trans [OF t2 verify_blob_checksum_outcome [OF vb, THEN conjunct1]]) auto
      with vb show ?thesis by (auto dest: verify_good)
    qed (use 3 t2 in auto)
    show ?thesis
    proof (cases "verified = Inr True")
      case True
      with v good_at_touches [OF t2] have h: "held E d c w" by (simp add: held_def)
      from go True have "chunks_to_fetch E d cs fetch (skipped + 1) w3 = (Inr (fetch', skipped'), w')" by simp
      from checked_skip [OF v [THEN conjunct1] h Cons.prems(2) Cons.IH [OF this dist]] show ?thesis .
    next
      case no: False
      with go have go': "chunks_to_fetch E d cs (fetch @ [c]) skipped w3 = (Inr (fetch', skipped'), w')" by simp
      have "touches {?c} w w3" by (rule touches_mono [OF v [THEN conjunct1]]) simp
      from checked_fetch [OF this Cons.IH [OF go' dist]] show ?thesis .
    qed
  qed
qed


section \<open>The queue of deletions\<close>

definition dequeue :: "string set \<Rightarrow> db \<Rightarrow> db" where
  "dequeue D d = d\<lparr>t_pending_deletions := filter (\<lambda>(b, q). b \<notin> D) (t_pending_deletions d)\<rparr>"

lemma dequeue_empty [simp]: "dequeue {} d = d"
  by (simp add: dequeue_def)

lemma dequeue_dequeue [simp]: "dequeue D (dequeue D' d) = dequeue (D' \<union> D) d"
  by (auto simp: dequeue_def intro!: arg_cong [where f = "\<lambda>q. d\<lparr>t_pending_deletions := q\<rparr>"] filter_cong)

lemma mark_deletion_complete_eq: "mark_deletion_complete b d = Inr (dequeue {b} d)"
  by (simp add: mark_deletion_complete_def dequeue_def)

lemma queue_shrinks:
  assumes "b \<in> D" "b \<in> fst ` set (t_pending_deletions d)"
  shows "length (t_pending_deletions (dequeue D d)) < length (t_pending_deletions d)"
  unfolding dequeue_def using assms by (auto intro!: length_filter_less)

lemma list_pending_sub:
  assumes "list_pending_deletions n d = Inr queued"
  shows "set queued \<subseteq> fst ` set (t_pending_deletions d)"
  using assms by (force simp: list_pending_deletions_def result_simps dest!: in_set_takeD)

lemma db_query_eq: "db_query E f w = (case os_fault E (tick w) of None \<Rightarrow> (f (manifest (store w)), next_tick w)
    | Some (m, _) \<Rightarrow> (Inl (Database m), next_tick w))"
  by (simp add: db_query_def query_def)

lemma db_query_world: "db_query E f w = (r, w') \<Longrightarrow> w' = next_tick w"
  by (auto simp: db_query_eq split: option.splits)

lemma db_query_Inr: "db_query E f w = (Inr a, w') \<Longrightarrow> f (manifest (store w)) = Inr a"
  by (auto simp: db_query_eq split: option.splits)

lemma db_mutate_cases:
  assumes "db_mutate E f w = (r, w')"
  shows "(\<exists>e. r = Inl e) \<and> w' = next_tick w \<or>
    (\<exists>d. r = Inr () \<and> f (tick w) (manifest (store w)) = Inr d \<and>
       w' = (next_tick w)\<lparr>store := (store w)\<lparr>manifest := d\<rparr>\<rparr>)"
  using assms by (auto simp: db_mutate_def mutate_def result_simps split: option.splits sum.splits)

context cloud_transport
begin

text \<open>Draining takes rows off the queue and changes nothing else locally.\<close>

definition drained_to :: "string set \<Rightarrow> 'r site world \<Rightarrow> 'r site world \<Rightarrow> bool" where
  "drained_to D w w' \<longleftrightarrow>
     files w' = files w \<and> dirs w' = dirs w \<and> tick w \<le> tick w' \<and> manifest (store w') = dequeue D (manifest (store w)) \<and>
     D \<subseteq> fst ` set (t_pending_deletions (manifest (store w)))"

lemma drained_to_refl: "drained_to {} w w"
  by (simp add: drained_to_def)

lemma drained_to_trans:
  assumes "drained_to D w w1" "drained_to D' w1 w2"
  shows "drained_to (D \<union> D') w w2"
proof -
  have sub: "fst ` set (t_pending_deletions (dequeue D d)) \<subseteq> fst ` set (t_pending_deletions d)" for d
    by (auto simp: dequeue_def)
  have "D' \<subseteq> fst ` set (t_pending_deletions (manifest (store w)))"
    using assms by (intro order_trans [OF _ sub [of "manifest (store w)"]]) (simp add: drained_to_def)
  with assms show ?thesis by (simp add: drained_to_def)
qed

lemma drain_batch_outcome:
  assumes "drain_batch E CT queued k w = (r, w')" "set queued \<subseteq> N \<union> fst ` set (t_pending_deletions (manifest (store w)))"
  shows "\<exists>D. D \<subseteq> set queued \<and> files w' = files w \<and> dirs w' = dirs w \<and> tick w \<le> tick w' \<and>
    manifest (store w') = dequeue D (manifest (store w)) \<and> (\<forall>m. r = Inr m \<longrightarrow> k \<le> m \<and> (D = {} \<longrightarrow> m = k)) \<and>
    (\<forall>e. r = Inl e \<longrightarrow> (\<exists>x. e = SyncStorage x))"
  using assms(1)
proof (induction queued arbitrary: k w)
  case Nil
  then show ?case by auto
next
  case (Cons b queued)
  show ?case
  proof (cases "build_blob_remote_path E b")
    case (Inl e)
    with Cons.prems Cons.IH [of k w] show ?thesis by auto
  next
    case (Inr q)
    obtain r1 w1 where del: "ct_delete_blob CT q w = (r1, w1)" by fastforce
    note frame = delete [OF del, unfolded remote_only_def]
    show ?thesis
    proof (cases "r1 = Inr () \<or> r1 = Inl BlobNotFound")
      case False
      with Cons.prems Inr del have "drain_batch E CT queued k w1 = (r, w')" by (simp add: bind_def attempt_def)
      from Cons.IH [OF this] frame show ?thesis by auto
    next
      case True
      obtain r2 w2 where mark: "db_mutate E (\<lambda>_. mark_deletion_complete b) w1 = (r2, w2)" by fastforce
      show ?thesis
      proof (cases r2)
        case (Inl e)
        with Cons.prems \<open>build_blob_remote_path E b = Inr q\<close> del True mark
        have "r = Inl (SyncStorage e)" "w' = w2" by (auto simp: bind_def attempt_def with_err_def)
        with db_mutate_cases [OF mark] Inl frame show ?thesis by (auto intro!: exI [of _ "{}"])
      next
        case r2: (Inr u)
        with Cons.prems Inr del True mark have go: "drain_batch E CT queued (k + 1) w2 = (r, w')"
          by (auto simp: bind_def attempt_def with_err_def)
        from db_mutate_cases [OF mark] r2
        have w2: "w2 = (next_tick w1)\<lparr>store := (store w1)\<lparr>manifest := dequeue {b} (manifest (store w1))\<rparr>\<rparr>"
          by (auto simp: mark_deletion_complete_eq)
        from Cons.IH [OF go] obtain D where D: "D \<subseteq> set queued" "files w' = files w2" "dirs w' = dirs w2" "tick w2 \<le> tick w'"
            "manifest (store w') = dequeue D (manifest (store w2))" "\<forall>m. r = Inr m \<longrightarrow> k + 1 \<le> m" "\<forall>e. r = Inl e \<longrightarrow> (\<exists>x. e = SyncStorage x)" by blast
        with frame w2 show ?thesis by (auto intro!: exI [of _ "insert b D"])
      qed
    qed
  qed
qed

lemma drain_loop_ends:
  "\<exists>r w' D. drain_loop E CT n w = Some (r, w') \<and> drained_to D w w' \<and> (\<forall>e. r = Inl e \<longrightarrow> (\<exists>x. e = SyncStorage x))"
proof (induction "length (t_pending_deletions (manifest (store w)))" arbitrary: n w rule: less_induct)
  case less
  obtain r1 w1 where q: "db_query E (list_pending_deletions PENDING_DELETIONS_BATCH_LIMIT) w = (r1, w1)" by fastforce
  have w1: "w1 = next_tick w" using db_query_world [OF q] .
  have d1: "drained_to {} w w1" by (simp add: drained_to_def w1)
  show ?case
  proof (cases r1)
    case (Inl e)
    with q d1 show ?thesis by (subst drain_loop.simps) auto
  next
    case (Inr queued)
    note sub = list_pending_sub [OF db_query_Inr [OF q [unfolded Inr]]]
    show ?thesis
    proof (cases "queued = []")
      case True
      with q Inr d1 show ?thesis by (subst drain_loop.simps) auto
    next
      case False
      obtain r2 w2 where b: "drain_batch E CT queued 0 w1 = (r2, w2)" by fastforce
      from drain_batch_outcome [OF b, of "set queued"] obtain D where D: "D \<subseteq> set queued" "files w2 = files w1" "dirs w2 = dirs w1"
          "tick w1 \<le> tick w2" "manifest (store w2) = dequeue D (manifest (store w1))"
          "\<forall>m. r2 = Inr m \<longrightarrow> (D = {} \<longrightarrow> m = 0)" "\<forall>e. r2 = Inl e \<longrightarrow> (\<exists>x. e = SyncStorage x)" by auto
      have d2: "drained_to D w w2" using D sub by (auto simp: drained_to_def w1)
      show ?thesis
      proof (cases "is_ok r2 \<and> r2 \<noteq> Inr 0")
        case True
        then obtain m where m2: "r2 = Inr m" "m \<noteq> 0" by (auto simp: is_ok_iff)
        with D(6) obtain x where "x \<in> D" by blast
        note m = m2 this
        have "length (t_pending_deletions (manifest (store w2))) < length (t_pending_deletions (manifest (store w)))"
          using queue_shrinks [OF m(3), of "manifest (store w)"] m(3) D(1,5) sub by (simp add: w1) blast
        from less.hyps [OF this, of "n + m"] obtain r w' D' where
          "drain_loop E CT (n + m) w2 = Some (r, w')" "drained_to D' w2 w'" "\<forall>e. r = Inl e \<longrightarrow> (\<exists>x. e = SyncStorage x)" by blast
        with q Inr False b m(1,2) drained_to_trans [OF d2] show ?thesis by (subst drain_loop.simps) auto
      next
        case stop: False
        with q Inr False b d2 D(7) show ?thesis by (subst drain_loop.simps) (auto simp: is_ok_iff split: sum.splits)
      qed
    qed
  qed
qed

end

end
