(* ===== verification/Sync_Props.thy ===== *)
theory Sync_Props
  imports Sync_Lemmas
begin

text \<open>
  What the synchronisation promises over every transport that satisfies the laws of \<open>cloud_transport\<close> and
  every order in which transfers complete: no blob is lost by an upload, a pull is complete or says what
  is missing, and draining the queue of deletions ends.
\<close>

section \<open>Uploads\<close>

text \<open>
  Uploading blobs (C33), in any order of completion, with any concurrency and whatever fails: the local
  copy of each blob is as it was or the remote object has its contents; other files, other objects and
  the manifest are untouched.  On success every blob has been moved; on an error exactly the reported
  ones and possibly more are in the cloud.
\<close>

theorem uploads_never_lose_blobs:
  assumes "cloud_transport CT objects" "distinct blobs" "\<forall>b \<in> set blobs. CHR ''/'' \<notin> set b"
    and "drive_blob_uploads E C CT blobs d concurrent w = (r, w')"
  shows "manifest (store w') = manifest (store w) \<and>
    (\<forall>b \<in> set blobs. file_at w' (pending_blob_path d b) = file_at w (pending_blob_path d b) \<or>
       (\<exists>c. file_at w (pending_blob_path d b) = Some c \<and> objects_at objects w' (vault_object b) = Some c)) \<and>
    (\<forall>p. p \<notin> pending_blob_path d ` set blobs \<longrightarrow> file_at w' p = file_at w p) \<and>
    (\<forall>q. q \<notin> vault_object ` set blobs \<longrightarrow> objects_at objects w' q = objects_at objects w q) \<and>
    (let uploaded = (case r of Inr done_names \<Rightarrow> done_names | Inl (e, done_names) \<Rightarrow> done_names) in
     (is_ok r \<longrightarrow> mset uploaded = mset blobs) \<and> mset uploaded \<subseteq># mset blobs \<and>
     (\<forall>b \<in> set uploaded. \<exists>c. file_at w (pending_blob_path d b) = Some c \<and>
        objects_at objects w' (vault_object b) = Some c \<and> file_at w' (pending_blob_path d b) = None))"
proof -
  have plain: "\<forall>b \<in> set (take (max concurrent 1) blobs @ drop (max concurrent 1) blobs). plain_name b"
    using assms(3) by (simp add: plain_name_def)
  have start: "take (max concurrent 1) blobs \<noteq> [] \<or> (None :: transport_error option) \<noteq> None \<or> drop (max concurrent 1) blobs = []"
    by auto
  note pool = assms(4) [unfolded drive_blob_uploads_def Let_def]
  have "distinct (take (max concurrent 1) blobs @ drop (max concurrent 1) blobs)" using assms(2) by simp
  from cloud_transport.upload_pool_outcome [OF assms(1) pool this plain start]
  have fin: "cloud_transport.uploads_end objects d blobs [] None w r w'" by simp
  note fin = fin [unfolded cloud_transport.uploads_end_def [OF assms(1)] cloud_transport.kept_def [OF assms(1)]
      cloud_transport.moved_def [OF assms(1)]]
  show ?thesis
    using fin by (cases r) (auto simp: transfers_def dest: mset_subset_eqD mset_eq_setD)
qed

theorem uploads_never_lose_blobs_witness:
  "\<exists>r w'. drive_blob_uploads (ex_env []) ex_cloud (mock_transport True (ex_env [])) [''7'', ''8''] [''v''] 1
       (ex_device [] [(''vault/8.blob'', OtherTransport ''refused'')] ex_base) = (r, w') \<and> \<not> is_ok r \<and>
     objects_at mock_objects w' (vault_object ''7'') = Some [9] \<and>
     file_at w' (pending_blob_path [''v''] ''8'') = Some [4, 5]"
proof -
  have "distinct [''7'', ''8'']" "\<forall>b \<in> set [''7'', ''8'']. CHR ''/'' \<notin> set b" by simp_all
  from uploads_never_lose_blobs [OF mock.cloud_transport_axioms this ex_uploads]
  show ?thesis unfolding ex_uploads
    by (auto simp: Let_def pending_blob_path_def ex_uploaded_def objects_at_def mock_objects_def vault_object_def)
qed


section \<open>Pull\<close>

lemma ends_obind: "obind (ends m) f w = (case m w of (Inl e, w') \<Rightarrow> Some (Inl e, w') | (Inr a, w') \<Rightarrow> f a w')"
  by (simp add: obind_def ends_def)

lemma report_sync_world: "report_sync cb a b w = (r, w') \<Longrightarrow> touches {} w w'"
  unfolding report_sync_def by (rule touches_read(9))

lemma with_err_Inl: "with_err f m w = (Inl e, w') \<longleftrightarrow> (\<exists>x. m w = (Inl x, w') \<and> e = f x)"
  by (auto simp: with_err_def map_err_eq_Inl split: prod.splits)

lemma chunks_to_fetch_Inl:
  "chunks_to_fetch E d cs fetch skipped w = (Inl e, w') \<Longrightarrow> (\<exists>x. e = SyncStorage x) \<or> (\<exists>x. e = SyncIo x)"
proof (induction cs arbitrary: fetch skipped w)
  case (Cons c cs)
  then show ?case
    by (cases "validate_blob_name_uuid_v4 E (sc_blob_name c)")
      (auto simp: bind_Inl Let_def with_err_Inl attempt_Inr attempt_not_Inl split: if_splits)
qed simp

text \<open>The transfer part of a pull, from the end of the check of the local files on.\<close>

lemma pull_transfer_stages:
  assumes "pull_transfer E C CT progress d config w = (r, w')" "is_ok r \<or> (\<exists>v t. r = Inl (PullIncomplete v t))"
    and "list_sync_chunks E (manifest (store w)) = Inr cs"
  obtains fetch skipped w1 w2 s w3 where
    "chunks_to_fetch E d cs [] 0 (next_tick w) = (Inr (fetch, skipped), w1)"
    "drive_blob_downloads E C CT fetch d (max_concurrent config) w2 = (s, w3)" "touches {} w1 w2" "touches {} w3 w'"
    "r = (case s of Inl (v, t) \<Rightarrow> Inl (PullIncomplete v t)
                  | Inr n \<Rightarrow> Inr \<lparr>pl_blobs_downloaded = n, pl_blobs_skipped_present = skipped\<rparr>)"
proof -
  obtain q w0 where q: "db_query E (list_sync_chunks E) w = (q, w0)" by fastforce
  have w0: "w0 = next_tick w" and qcs: "\<And>x. q = Inr x \<Longrightarrow> x = cs"
    using db_query_world [OF q] db_query_Inr [of E "list_sync_chunks E" w _ w0] q assms(3) by auto
  have no_check: "chunks_to_fetch E d cs [] 0 v \<noteq> (Inl (PullIncomplete x y), v')" for v v' x y
    using chunks_to_fetch_Inl by fastforce
  have no_report: "report_sync progress a b v \<noteq> (Inl z, v')" for a b z and v v' :: "'a site world"
    by (auto simp: report_sync_def progress_if_def report_progress_def)
  have cfg: "validate_sync_config config = Inr ()"
    using assms(1,2) by (cases "validate_sync_config config") (auto simp: pull_transfer_def bind_def lift_def)
  show thesis
  proof (cases "is_ok r")
    case True
    then obtain rep where "r = Inr rep" by (auto simp: is_ok_iff)
    with assms(1) q qcs obtain fetch skipped w1 w2 n w3 where
      "chunks_to_fetch E d cs [] 0 w0 = (Inr (fetch, skipped), w1)"
      "report_sync progress 0 (length fetch) w1 = (Inr () :: sync_error + unit, w2)"
      "drive_blob_downloads E C CT fetch d (max_concurrent config) w2 = (Inr n, w3)"
      "report_sync progress n (length fetch) w3 = (Inr () :: sync_error + unit, w')"
      "rep = \<lparr>pl_blobs_downloaded = n, pl_blobs_skipped_present = skipped\<rparr>"
      by (auto simp: pull_transfer_def bind_Inr cfg)
    with \<open>r = Inr rep\<close> that [of fetch skipped w1 w2 "Inr n" w3] w0 show thesis by (auto dest!: report_sync_world)
  next
    case False
    with assms(2) obtain v t where r: "r = Inl (PullIncomplete v t)" by auto
    with assms(1) q qcs obtain fetch skipped w1 w2 where
      "chunks_to_fetch E d cs [] 0 w0 = (Inr (fetch, skipped), w1)"
      "report_sync progress 0 (length fetch) w1 = (Inr () :: sync_error + unit, w2)"
      "drive_blob_downloads E C CT fetch d (max_concurrent config) w2 = (Inl (v, t), w')"
      by (auto simp: pull_transfer_def bind_Inl with_err_Inl no_check no_report cfg)
    with r that [of fetch skipped w1 w2 "Inl (v, t)" w'] w0 show thesis by (auto dest!: report_sync_world)
  qed
qed

lemma pull_transfer_outcome:
  assumes "cloud_transport CT objects" "list_sync_chunks E (manifest (store w)) = Inr cs" "distinct (map sc_blob_name cs)"
    and "pull_transfer E C CT progress d config w = (r, w')"
  shows "(\<forall>rep. r = Inr rep \<longrightarrow> (\<forall>c \<in> set cs. held E d c w') \<and>
       pl_blobs_downloaded rep + pl_blobs_skipped_present rep = length cs) \<and>
    (\<forall>v t. r = Inl (PullIncomplete v t) \<longrightarrow> (\<forall>c \<in> set cs. held E d c w' \<or> sc_blob_name c \<in> set v \<union> fst ` set t)) \<and>
    (is_ok r \<or> (\<exists>v t. r = Inl (PullIncomplete v t)) \<longrightarrow> transfers objects (cache_blob_path d ` sc_blob_name ` set cs) {} w w')"
proof (cases "is_ok r \<or> (\<exists>v t. r = Inl (PullIncomplete v t))")
  case True
  from pull_transfer_stages [OF assms(4) this assms(2)] obtain fetch skipped w1 w2 s w3 where
    check: "chunks_to_fetch E d cs [] 0 (next_tick w) = (Inr (fetch, skipped), w1)" and
    down: "drive_blob_downloads E C CT fetch d (max_concurrent config) w2 = (s, w3)" and t2: "touches {} w1 w2" and t3: "touches {} w3 w'" and
    r: "r = (case s of Inl (v, t) \<Rightarrow> Inl (PullIncomplete v t)
                  | Inr n \<Rightarrow> Inr \<lparr>pl_blobs_downloaded = n, pl_blobs_skipped_present = skipped\<rparr>)" .
  from chunks_to_fetch_outcome [OF check assms(3)] have
    sub: "subseq fetch cs" and count: "skipped + length fetch = length cs" and
    held1: "\<forall>c \<in> set cs - set fetch. held E d c w1" and
    t1: "touches ((\<lambda>c. cache_blob_path d (sc_blob_name c)) ` set fetch) (next_tick w) w1" by (auto simp: checked_ok_def)
  have dist: "distinct (map sc_blob_name fetch)" using subseq_map [OF sub, of sc_blob_name] assms(3) by (auto simp: subseq_conv_nths intro: distinct_nthsI)
  have start: "take n fetch \<noteq> [] \<or> drop n fetch = []" if "0 < n" for n using that by auto
  have "cloud_transport.downloads_end objects E d fetch 0 [] [] w2 s w3"
    using cloud_transport.download_pool_outcome [OF assms(1) down [unfolded drive_blob_downloads_def Let_def]] dist start
    by (simp add: map_append [symmetric] del: map_append)
  note fin = this [unfolded cloud_transport.downloads_end_def [OF assms(1)] cloud_transport.cached_good_def [OF assms(1)]]
  let ?F = "(\<lambda>c. cache_blob_path d (sc_blob_name c)) ` set fetch"
  have keep: "p \<notin> ?F \<Longrightarrow> file_at w' p = file_at w1 p" for p
    using fin transfersD(4) [of objects ?F "{}" w2 w3 p] touchesD(4) [OF t2] touchesD(4) [OF t3] by simp
  have subset: "set fetch \<subseteq> set cs" using list_emb_set [OF sub] by blast
  have frame: "transfers objects (cache_blob_path d ` sc_blob_name ` set cs) {} w w'"
  proof -
    let ?P = "cache_blob_path d ` sc_blob_name ` set cs"
    have quiet: "touches Q v v' \<Longrightarrow> Q \<subseteq> ?P \<Longrightarrow> transfers objects ?P {} v v'" for Q v v'
      by (rule transfers_touches [OF touches_mono])
    have "transfers objects ?P {} w w1"
      by (rule transfers_trans [OF quiet [OF touches_next_tick [of "{}"]] quiet [OF t1]]) (use subset in auto)
    from transfers_trans [OF this quiet [OF t2]] have "transfers objects ?P {} w w2" by simp
    moreover have "transfers objects ?P {} w2 w3"
      by (rule transfers_trans [OF fin [THEN conjunct1] transfers_refl]) (use subset in auto)
    ultimately have "transfers objects ?P {} w w3" by (rule transfers_trans) auto
    from transfers_trans [OF this quiet [OF t3]] show ?thesis by simp
  qed
  have inj: "inj_on sc_blob_name (set cs)" using assms(3) by (simp add: distinct_map)
  have others: "\<forall>c \<in> set cs - set fetch. held E d c w'"
  proof
    fix c assume c: "c \<in> set cs - set fetch"
    have "cache_blob_path d (sc_blob_name c) \<notin> ?F"
      using c subset inj_onD [OF inj] by fastforce
    moreover have "pending_blob_path d (sc_blob_name c) \<notin> ?F" by auto
    ultimately show "held E d c w'" using held1 c keep by (simp add: held_def good_at_def)
  qed
  have fetched: "\<exists>bs. file_at w3 (cache_blob_path d (sc_blob_name c)) = Some bs \<and> blake3 E bs = sc_blake3_checksum c \<Longrightarrow>
      held E d c w'" for c using touchesD(4) [OF t3] by (auto simp: held_def good_at_def)
  show ?thesis
  proof (cases s)
    case (Inr n)
    with fin have "n = length fetch" "\<forall>c \<in> set fetch. held E d c w'" using fetched by auto
    with Inr r others count frame show ?thesis by auto
  next
    case (Inl vt)
    obtain v t where vt: "vt = (v, t)" by fastforce
    with fin Inl have "\<forall>c \<in> set fetch. held E d c w' \<or> sc_blob_name c \<in> set v \<union> fst ` set t" using fetched by auto
    with Inl vt r others frame show ?thesis by auto
  qed
qed (auto simp: is_ok_iff)

lemma drain_outcome:
  assumes "cloud_transport CT objects"
  obtains r w' D where "drain_pending_deletions E CT w = Some (r, w')" "files w' = files w"
    "manifest (store w') = dequeue D (manifest (store w))" "\<forall>e. r = Inl e \<longrightarrow> (\<exists>x. e = SyncStorage x)"
  using cloud_transport.drain_loop_ends [OF assms, of E 0 w]
  by (auto simp: drain_pending_deletions_def cloud_transport.drained_to_def [OF assms])

text \<open>
  A pull (C34) ends, over any transport and in any order of completion.  When it succeeds, every blob the manifest
  lists is on the device with the checksum of the manifest, in the cache or waiting for upload, and the
  report counts them all; when it reports failures, each missing blob is among the reported ones.  Only cached
  copies of listed blobs change, and of the manifest only the queue of deletions.
\<close>

theorem pull_vault_complete:
  assumes "cloud_transport CT objects" "list_sync_chunks E (manifest (store w)) = Inr cs" "distinct (map sc_blob_name cs)"
  shows "\<exists>r w'. pull_vault E C CT progress d config w = Some (r, w') \<and>
    (\<forall>rep. r = Inr rep \<longrightarrow> (\<forall>c \<in> set cs. held E d c w') \<and>
       pl_blobs_downloaded rep + pl_blobs_skipped_present rep = length cs \<and>
       (\<forall>p. p \<notin> cache_blob_path d ` sc_blob_name ` set cs \<longrightarrow> file_at w' p = file_at w p) \<and>
       (\<exists>D. manifest (store w') = dequeue D (manifest (store w)))) \<and>
    (\<forall>v t. r = Inl (PullIncomplete v t) \<longrightarrow>
       (\<forall>c \<in> set cs. held E d c w' \<or> sc_blob_name c \<in> set v \<union> fst ` set t) \<and> manifest (store w') = manifest (store w))"
proof -
  obtain r1 w1 where p: "pull_transfer E C CT progress d config w = (r1, w1)" by fastforce
  note out = pull_transfer_outcome [OF assms p]
  show ?thesis
  proof (cases r1)
    case (Inl e)
    with p out show ?thesis by (auto simp: pull_vault_def ends_obind dest: transfersD(1))
  next
    case (Inr rep)
    obtain r2 w2 D where dr: "drain_pending_deletions E CT w1 = Some (r2, w2)" "files w2 = files w1"
        "manifest (store w2) = dequeue D (manifest (store w1))" "\<forall>e. r2 = Inl e \<longrightarrow> (\<exists>x. e = SyncStorage x)"
      by (rule drain_outcome [OF assms(1)])
    have h: "held E d c w2 = held E d c w1" for c by (simp add: held_def good_at_def dr(2))
    from p Inr dr out h show ?thesis
      by (cases r2) (auto simp: pull_vault_def ends_obind obind_def ends_def ret_def transfers_def)
  qed
qed

definition ex_empty_cache :: "mock_cloud site world" where
  "ex_empty_cache = (ex_device [(''vault/7.blob'', [9])] [] ex_listed)\<lparr>files := []\<rparr>"

lemma ex_list: "list_sync_chunks (ex_env []) ex_listed = Inr [\<lparr>sc_blob_name = ''7'', sc_blake3_checksum = replicate 32 9\<rparr>]"
  by (simp add: list_sync_chunks_def ex_listed_def ex_base_def empty_db_def map_filter_simps)

abbreviation ex_chunk :: sync_chunk_record where
  "ex_chunk \<equiv> \<lparr>sc_blob_name = ''7'', sc_blake3_checksum = replicate 32 9\<rparr>"

definition ex_filled :: "nat \<Rightarrow> mock_cloud site world" where
  "ex_filled n = ex_empty_cache\<lparr>files := [([''v'', ''cache'', ''7.blob''], [9])], tick := n\<rparr>"

lemma ex_hash: "hash_reader (ex_env []) [9] [] w = (Inr (replicate 32 9), next_tick (next_tick w))"
  by (subst hash_reader.simps, simp add: run_simps, subst hash_reader.simps, simp add: run_simps)

lemma ex_download:
  "download_blob_task (ex_env []) (mock_transport True (ex_env [])) [''v''] ex_chunk (ex_empty_cache\<lparr>tick := n\<rparr>) = (Inr (), ex_filled (n + 4))"
  by (simp add: download_blob_task_def ex_remote_paths cloud_run_simps cache_blob_path_def ex_empty_cache_def ex_filled_def ex_device_def
      verify_blob_checksum_def ex_hash)

lemma ex_downloads:
  "drive_blob_downloads (ex_env []) ex_cloud (mock_transport True (ex_env [])) [ex_chunk] [''v''] 4 (ex_empty_cache\<lparr>tick := n\<rparr>) =
     (Inr 1, ex_filled (n + 4))"
  unfolding drive_blob_downloads_def Let_def
  by (subst download_pool.simps, simp add: pick_def without_def ex_download Let_def, subst download_pool.simps, simp)

lemma ex_check:
  "chunks_to_fetch (ex_env []) [''v''] [ex_chunk] [] 0 (ex_empty_cache\<lparr>tick := n\<rparr>) = (Inr ([ex_chunk], 0), ex_empty_cache\<lparr>tick := n + 2\<rparr>)"
  by (simp add: ex_blob_names run_simps cache_blob_path_def pending_blob_path_def ex_empty_cache_def ex_device_def)

lemma ex_drain: "drain_pending_deletions (ex_env []) CT (ex_filled n) = Some (Inr 0, ex_filled (n + 1))"
proof -
  have "list_pending_deletions PENDING_DELETIONS_BATCH_LIMIT (manifest (store (ex_filled n))) = Inr []"
    by (simp add: list_pending_deletions_def ex_filled_def ex_empty_cache_def ex_device_def ex_listed_def ex_base_def empty_db_def
        PENDING_DELETIONS_BATCH_LIMIT_def i64_or_err_def i64_try_from_def width_simps)
  then show ?thesis unfolding drain_pending_deletions_def
    by (subst drain_loop.simps) (simp add: db_query_eq ex_filled_def)
qed

lemma ex_pull:
  "pull_vault (ex_env []) ex_cloud (mock_transport True (ex_env [])) False [''v''] default_sync_config ex_empty_cache =
     Some (Inr \<lparr>pl_blobs_downloaded = 1, pl_blobs_skipped_present = 0\<rparr>, ex_filled 8)"
proof -
  have q: "db_query (ex_env []) (list_sync_chunks (ex_env [])) ex_empty_cache = (Inr [ex_chunk], ex_empty_cache\<lparr>tick := 1\<rparr>)"
    using ex_list by (simp add: db_query_eq ex_empty_cache_def ex_device_def)
  have "pull_transfer (ex_env []) ex_cloud (mock_transport True (ex_env [])) False [''v''] default_sync_config ex_empty_cache =
      (Inr \<lparr>pl_blobs_downloaded = 1, pl_blobs_skipped_present = 0\<rparr>, ex_filled 7)"
    by (simp add: pull_transfer_def q ex_check ex_downloads report_sync_def validate_sync_config_def default_sync_config_def
        bind_def with_err_def progress_if_def ret_def lift_def del: chunks_to_fetch.simps)
  then show ?thesis by (simp add: pull_vault_def ends_obind obind_def ex_drain ends_def ret_def)
qed

theorem pull_vault_complete_witness:
  "pull_vault (ex_env []) ex_cloud (mock_transport True (ex_env [])) False [''v''] default_sync_config ex_empty_cache =
     Some (Inr \<lparr>pl_blobs_downloaded = 1, pl_blobs_skipped_present = 0\<rparr>, ex_filled 8) \<and>
   held (ex_env []) [''v''] ex_chunk (ex_filled 8)"
proof -
  have "list_sync_chunks (ex_env []) (manifest (store ex_empty_cache)) = Inr [ex_chunk]" "distinct (map sc_blob_name [ex_chunk])"
    using ex_list by (simp_all add: ex_empty_cache_def)
  from pull_vault_complete [OF mock.cloud_transport_axioms [of True "ex_env []"] this, of ex_cloud False "[''v'']" default_sync_config]
  show ?thesis unfolding ex_pull by auto
qed

end
