(* ===== verification/Shuffle_Uniform.thy ===== *)
theory Shuffle_Uniform
  imports Shuffle_Props
begin

text \<open>
  The shuffle as a function of the samples it accepts.  A run takes, for every position from the last
  to the second, the first sample below the zone; its residue is the index of the swap.  The lists of
  indices correspond one to one to the permutations, and every index has equally many samples.
\<close>

section \<open>The samples a run accepts\<close>

text \<open>
  \<open>drawn C t i js\<close>: with the samples from time \<open>t\<close> on, \<open>js\<close> are the indices for the positions \<open>i\<close>, ..., 1: each is
  the residue of the first sample that is below the zone of its bound, and all samples before it are not.
\<close>

fun drawn :: "cloud_env \<Rightarrow> nat \<Rightarrow> nat \<Rightarrow> nat list \<Rightarrow> bool" where
  "drawn C t 0 js \<longleftrightarrow> js = []"
| "drawn C t (Suc i) [] \<longleftrightarrow> False"
| "drawn C t (Suc i) (j # js) \<longleftrightarrow>
     (\<exists>k. (\<forall>l < k. zone_of (i + 2) \<le> draw_u64 C (t + l)) \<and> draw_u64 C (t + k) < zone_of (i + 2) \<and>
        j = draw_u64 C (t + k) mod (i + 2) \<and> drawn C (t + k + 1) i js)"

fun swaps :: "nat \<Rightarrow> nat list \<Rightarrow> 'a list \<Rightarrow> 'a list" where
  "swaps (Suc i) (j # js) xs = swaps i js (swap_items (Suc i) j xs)"
| "swaps i js xs = xs"

text \<open>The lists of indices: at position \<open>i\<close> any index up to \<open>i\<close>.\<close>

fun index_choices :: "nat \<Rightarrow> nat list set" where
  "index_choices 0 = {[]}"
| "index_choices (Suc i) = {j # js | j js. j \<le> Suc i \<and> js \<in> index_choices i}"

lemma sample_loop_first:
  assumes "sample_loop E C b w = Some (Inr j, w')"
  shows "\<exists>k. (\<forall>l < k. zone_of b \<le> draw_u64 C (tick w + l)) \<and> draw_u64 C (tick w + k) < zone_of b \<and>
    j = draw_u64 C (tick w + k) mod b \<and> tick w' = tick w + k + 1"
proof -
  define P where "P C b w x \<longleftrightarrow> (\<forall>j. fst x = Inr j \<longrightarrow>
      (\<exists>k. (\<forall>l < k. zone_of b \<le> draw_u64 C (tick w + l)) \<and> draw_u64 C (tick w + k) < zone_of b \<and>
         j = draw_u64 C (tick w + k) mod b \<and> tick (snd x) = tick w + k + 1))"
    for C :: cloud_env and b and w :: "'a site world" and x :: "(sync_error + nat) \<times> 'a site world"
  have "P C b w (Inr j, w')"
  proof (rule sample_loop.raw_induct [where P = "\<lambda>_. P", OF _ assms])
    fix f E' C' b' w' and x :: "(sync_error + nat) \<times> 'a site world"
    assume IH: "\<And>E C b w y. f E C b w = Some y \<Longrightarrow> P C b w y"
      and step: "(case try_next_u64 E' C' w' of
          (Inl e, w1) \<Rightarrow> Some (Inl (rng_error e), w1)
        | (Inr sample, w1) \<Rightarrow>
            if sample < zone_of b' then Some (Inr (sample mod b'), w1) else f E' C' b' w1) = Some x"
    show "P C' b' w' x"
    proof (cases rule: try_next_u64_cases [of E' C' w'])
      case 2
      show ?thesis
      proof (cases "draw_u64 C' (tick w') < zone_of b'")
        case True
        with step 2 show ?thesis by (auto simp: P_def intro!: exI [of _ 0])
      next
        case False
        with step 2 have "f E' C' b' (next_tick w') = Some x" by simp
        from IH [OF this] show ?thesis unfolding P_def
        proof (intro allI impI)
          fix j assume p: "\<forall>j. fst x = Inr j \<longrightarrow> (\<exists>k. (\<forall>l < k. zone_of b' \<le> draw_u64 C' (tick (next_tick w') + l)) \<and>
              draw_u64 C' (tick (next_tick w') + k) < zone_of b' \<and> j = draw_u64 C' (tick (next_tick w') + k) mod b' \<and>
              tick (snd x) = tick (next_tick w') + k + 1)" and "fst x = Inr j"
          then obtain k where k: "\<forall>l < k. zone_of b' \<le> draw_u64 C' (tick w' + Suc l)" "draw_u64 C' (tick w' + Suc k) < zone_of b'"
              "j = draw_u64 C' (tick w' + Suc k) mod b'" "tick (snd x) = tick w' + Suc k + 1" by auto
          have "zone_of b' \<le> draw_u64 C' (tick w' + l)" if "l < Suc k" for l
            using k(1) False that by (cases l) auto
          with k show "\<exists>k. (\<forall>l < k. zone_of b' \<le> draw_u64 C' (tick w' + l)) \<and> draw_u64 C' (tick w' + k) < zone_of b' \<and>
              j = draw_u64 C' (tick w' + k) mod b' \<and> tick (snd x) = tick w' + k + 1"
            by (intro exI [of _ "Suc k"]) simp
        qed
      qed
    qed (use step in \<open>auto simp: P_def\<close>)
  qed
  then show ?thesis by (simp add: P_def)
qed

lemma shuffle_loop_drawn:
  assumes "shuffle_loop E C i xs w = Some (Inr ys, w')"
  shows "\<exists>js. drawn C (tick w) i js \<and> ys = swaps i js xs"
  using assms
proof (induction i arbitrary: xs w)
  case 0
  then show ?case by (auto simp: ends_def ret_def)
next
  case (Suc i)
  then obtain j w1 where 1: "unbiased_index E C (Suc i + 1) w = Some (Inr j, w1)"
    and 2: "shuffle_loop E C i (swap_items (Suc i) j xs) w1 = Some (Inr ys, w')"
    by (auto simp: obind_eq_Some)
  from 1 have "sample_loop E C (Suc i + 1) w = Some (Inr j, w1)" by (simp add: unbiased_index_def)
  from sample_loop_first [OF this] obtain k where
    k: "\<forall>l < k. zone_of (Suc i + 1) \<le> draw_u64 C (tick w + l)" "draw_u64 C (tick w + k) < zone_of (Suc i + 1)"
      "j = draw_u64 C (tick w + k) mod (Suc i + 1)" "tick w1 = tick w + k + 1" by blast
  from Suc.IH [OF 2] obtain js where "drawn C (tick w1) i js" "ys = swaps i js (swap_items (Suc i) j xs)" by blast
  with k show ?case by (intro exI [of _ "j # js"]) auto
qed

lemma drawn_choices: "drawn C t i js \<Longrightarrow> js \<in> index_choices i"
proof (induction i arbitrary: t js)
  case (Suc i)
  then obtain j js' k where "js = j # js'" "j = draw_u64 C (t + k) mod (i + 2)" "drawn C (t + k + 1) i js'"
    by (cases js) auto
  moreover have "draw_u64 C (t + k) mod (i + 2) < i + 2" by simp
  ultimately show ?case using Suc.IH by fastforce
qed simp


section \<open>Indices and permutations\<close>

lemma length_swap_items [simp]: "length (swap_items i j xs) = length xs"
  by (simp add: swap_items_def)

lemma nth_swap_items:
  assumes "i < length xs" "j < length xs"
  shows "swap_items i j xs ! k = (if k = j then xs ! i else if k = i then xs ! j else xs ! k)"
  using assms by (simp add: swap_items_def nth_list_update)

lemma swaps_above:
  assumes "js \<in> index_choices i" "i < length xs" "i < k"
  shows "swaps i js xs ! k = xs ! k"
  using assms
proof (induction i arbitrary: js xs)
  case (Suc i)
  then obtain j js' where "js = j # js'" "j \<le> Suc i" "js' \<in> index_choices i" by auto
  with Suc show ?case by (simp add: nth_swap_items)
qed simp

lemma swaps_inj:
  assumes "js \<in> index_choices i" "js' \<in> index_choices i" "i < length xs" "distinct xs" "swaps i js xs = swaps i js' xs"
  shows "js = js'"
  using assms
proof (induction i arbitrary: js js' xs)
  case (Suc i)
  then obtain j ks j' ks' where js: "js = j # ks" "j \<le> Suc i" "ks \<in> index_choices i"
    "js' = j' # ks'" "j' \<le> Suc i" "ks' \<in> index_choices i" by auto
  have at: "swaps i k (swap_items (Suc i) m xs) ! Suc i = xs ! m" if "k \<in> index_choices i" "m \<le> Suc i" for k m
    using that Suc.prems(3) by (simp add: swaps_above nth_swap_items)
  from at [OF js(3,2)] at [OF js(6,5)] Suc.prems(5) js have "xs ! j = xs ! j'" by simp
  with Suc.prems(3,4) js have j: "j = j'" by (simp add: nth_eq_iff_index_eq)
  have "distinct (swap_items (Suc i) j xs)"
    using Suc.prems(3,4) js(2) mset_swap_items [of "Suc i" xs j] mset_eq_imp_distinct_iff by fastforce
  with Suc.IH [OF js(3,6), of "swap_items (Suc i) j xs"] Suc.prems(3,5) js j show ?case by simp
qed simp

lemma swaps_onto:
  assumes "mset ys = mset xs" "distinct xs" "i < length xs" "\<forall>k. i < k \<and> k < length xs \<longrightarrow> ys ! k = xs ! k"
  shows "\<exists>js \<in> index_choices i. swaps i js xs = ys"
  using assms
proof (induction i arbitrary: xs)
  case 0
  have len: "length ys = length xs" using 0(1) by (rule mset_eq_length)
  obtain x r where x: "xs = x # r" using 0(3) by (cases xs) auto
  obtain y r' where y: "ys = y # r'" using len x by (cases ys) auto
  have "r' = r"
  proof (rule nth_equalityI)
    show "length r' = length r" using len x y by simp
    show "r' ! k = r ! k" if "k < length r'" for k
      using 0(4) [rule_format, of "Suc k"] that len by (simp add: x y)
  qed
  with 0(1) x y show ?case by simp
next
  case (Suc i)
  have len: "length ys = length xs" using Suc.prems(1) by (rule mset_eq_length)
  have dist: "distinct ys" using Suc.prems(1,2) mset_eq_imp_distinct_iff by blast
  have "ys ! Suc i \<in> set xs"
    using Suc.prems(1,3) len by (metis mset_eq_setD nth_mem)
  then obtain j where j: "j < length xs" "xs ! j = ys ! Suc i" by (auto simp: in_set_conv_nth)
  have "j \<le> Suc i"
  proof (rule ccontr)
    assume "\<not> j \<le> Suc i"
    with Suc.prems(4) j have "ys ! j = ys ! Suc i" by simp
    with dist j(1) Suc.prems(3) len \<open>\<not> j \<le> Suc i\<close> show False by (simp add: nth_eq_iff_index_eq)
  qed
  let ?xs = "swap_items (Suc i) j xs"
  have m: "mset ?xs = mset xs" using Suc.prems(3) j(1) by (simp add: mset_swap_items)
  have "\<forall>k. i < k \<and> k < length ?xs \<longrightarrow> ys ! k = ?xs ! k"
    using Suc.prems(3,4) j \<open>j \<le> Suc i\<close> by (auto simp: nth_swap_items)
  moreover have "mset ys = mset ?xs" "distinct ?xs" "i < length ?xs"
    using m Suc.prems mset_eq_imp_distinct_iff by auto
  ultimately obtain js where "js \<in> index_choices i" "swaps i js ?xs = ys" using Suc.IH by blast
  with \<open>j \<le> Suc i\<close> show ?case by (intro bexI [of _ "j # js"]) auto
qed

lemma mset_swaps: "js \<in> index_choices i \<Longrightarrow> i < length xs \<Longrightarrow> mset (swaps i js xs) = mset xs"
proof (induction i arbitrary: js xs)
  case (Suc i)
  then obtain j js' where "js = j # js'" "j \<le> Suc i" "js' \<in> index_choices i" by auto
  with Suc show ?case by (simp add: mset_swap_items)
qed simp

lemma swaps_bij:
  assumes "distinct xs" "i + 1 = length xs"
  shows "bij_betw (\<lambda>js. swaps i js xs) (index_choices i) {ys. mset ys = mset xs}"
  unfolding bij_betw_def
proof (intro conjI equalityI subsetI)
  have i: "i < length xs" using assms(2) by simp
  show "inj_on (\<lambda>js. swaps i js xs) (index_choices i)"
    using swaps_inj [OF _ _ i assms(1)] by (auto simp: inj_on_def)
  show "ys \<in> {ys. mset ys = mset xs}" if "ys \<in> (\<lambda>js. swaps i js xs) ` index_choices i" for ys
    using that mset_swaps [OF _ i] by auto
  show "ys \<in> (\<lambda>js. swaps i js xs) ` index_choices i" if "ys \<in> {ys. mset ys = mset xs}" for ys
    using swaps_onto [OF _ assms(1) i, of ys] that assms(2) by fastforce
qed

text \<open>
  The shuffle before an upload (C35) ends when the random source keeps giving numbers below \<open>2^63\<close>, changes
  nothing but the time, and without an I/O error does not fail.  Its result is a permutation, made by one
  swap per position from the last to the second, whose index is the residue of the first sample below
  the zone of its bound, all samples before it being rejected.  Every index below a bound is the residue of
  equally many of the accepted samples, and every permutation belongs to exactly one list of indices, so no
  order is preferred.
\<close>

theorem shuffle_unbiased_permutation:
  assumes "\<forall>t. \<exists>k. draw_u64 C (t + k) < 2 ^ 63" "length xs < 2 ^ 64"
  shows "\<exists>r w'. fisher_yates_shuffle_with_system_rng E C xs w = Some (r, w') \<and> touches {} w w' \<and>
     (no_faults E \<longrightarrow> is_ok r) \<and>
     (\<forall>ys. r = Inr ys \<longrightarrow> mset ys = mset xs \<and>
        (\<exists>js. drawn C (tick w) (length xs - 1) js \<and> js \<in> index_choices (length xs - 1) \<and>
           ys = swaps (length xs - 1) js xs)) \<and>
     (\<forall>b j. j < b \<longrightarrow> card {s. s < zone_of b \<and> s mod b = j} = u64_max div b) \<and>
     (distinct xs \<and> xs \<noteq> [] \<longrightarrow>
        bij_betw (\<lambda>js. swaps (length xs - 1) js xs) (index_choices (length xs - 1)) {ys. mset ys = mset xs})"
proof -
  have unbiased: "\<forall>b j. j < b \<longrightarrow> card {s. s < zone_of b \<and> s mod b = j} = u64_max div b"
    by (simp add: zone_eq card_residue)
  have bij: "distinct xs \<and> xs \<noteq> [] \<longrightarrow>
      bij_betw (\<lambda>js. swaps (length xs - 1) js xs) (index_choices (length xs - 1)) {ys. mset ys = mset xs}"
    using swaps_bij [of xs "length xs - 1"] by (simp add: Suc_leI)
  show ?thesis
  proof (cases "length xs < 2")
    case True
    then have none: "length xs - 1 = 0" by simp
    show ?thesis using True unbiased bij unfolding none
      by (simp add: fisher_yates_shuffle_with_system_rng_def ends_def ret_def)
  next
    case False
    with assms(2) have "length xs - 1 + 1 < 2 ^ 64" by simp
    from shuffle_loop_ends [OF assms(1) this] obtain r w' where
      run: "shuffle_loop E C (length xs - 1) xs w = Some (r, w')" by fastforce
    have "\<exists>js. drawn C (tick w) (length xs - 1) js \<and> js \<in> index_choices (length xs - 1) \<and> ys = swaps (length xs - 1) js xs"
      if "r = Inr ys" for ys
      using shuffle_loop_drawn [OF run [unfolded that]] drawn_choices by blast
    with shuffle_loop_outcome [OF run] run False unbiased bij show ?thesis
      by (auto simp: fisher_yates_shuffle_with_system_rng_def)
  qed
qed

theorem shuffle_unbiased_permutation_witness:
  "\<exists>ys w'. fisher_yates_shuffle_with_system_rng (ex_env []) ex_cloud [''7'', ''8'', ''9''] (ex_device [] [] ex_base) = Some (Inr ys, w') \<and>
     mset ys = mset [''7'', ''8'', ''9'']"
proof -
  have "\<forall>t. \<exists>k. draw_u64 ex_cloud (t + k) < 2 ^ 63"
    by (simp add: less_trans [OF mod_less_divisor])
  from shuffle_unbiased_permutation [OF this, of "[''7'', ''8'', ''9'']" "ex_env []" "ex_device [] [] ex_base"]
  show ?thesis using ex_no_faults by (fastforce simp: is_ok_iff)
qed

end
