(* ===== verification/Backup_Lemmas.thy ===== *)
theory Backup_Lemmas
  imports Sync_Lemmas
begin

text \<open>
  Programs that keep a relation between the world before and after, as a locale over the relation; then
  the encrypted copy of the manifest: what an upload puts in the cloud and what a download writes.
\<close>

section \<open>Programs that obey a relation\<close>

definition obeys :: "('s world \<Rightarrow> 's world \<Rightarrow> bool) \<Rightarrow> ('s, 'e, 'a) prog \<Rightarrow> bool" where
  "obeys R m \<longleftrightarrow> (\<forall>w r w'. m w = (r, w') \<longrightarrow> R w w')"

lemma obeysD: "obeys R m \<Longrightarrow> m w = (r, w') \<Longrightarrow> R w w'"
  by (simp add: obeys_def)

locale frame_relation =
  fixes R :: "'s world \<Rightarrow> 's world \<Rightarrow> bool"
  assumes same: "R w w"
    and chain: "R w w1 \<Longrightarrow> R w1 w2 \<Longrightarrow> R w w2"
    and local_effects: "store w' = store w \<Longrightarrow> R w w'"
begin

lemma obeys_bind:
  assumes "obeys R m" "\<And>a. obeys R (f a)"
  shows "obeys R (bind m f)"
  unfolding obeys_def
proof (intro allI impI)
  fix w r w' assume run: "bind m f w = (r, w')"
  obtain r1 w1 where 1: "m w = (r1, w1)" by fastforce
  show "R w w'"
  proof (cases r1)
    case (Inr a)
    with run 1 have "f a w1 = (r, w')" by (simp add: bind_def)
    from chain [OF obeysD [OF assms(1) 1] obeysD [OF assms(2) this]] show ?thesis .
  qed (use run 1 obeysD [OF assms(1) 1] in \<open>simp add: bind_def\<close>)
qed

lemma obeys_pure: "obeys R (ret a)" "obeys R (fail e)" "obeys R (lift r)" "obeys R get_world"
  by (auto simp: obeys_def get_world_def same)

lemma obeys_wrap: "obeys R m \<Longrightarrow> obeys R (with_err f m)" "obeys R m \<Longrightarrow> obeys R (attempt m)"
  by (auto simp: obeys_def with_err_def attempt_def split: prod.splits)

lemma obeys_touches: "(\<And>w r w'. m w = (r, w') \<Longrightarrow> touches P w w') \<Longrightarrow> obeys R m"
  unfolding obeys_def by (blast intro: local_effects dest: touchesD(1))

lemma obeys_files:
  "obeys R (fs_read E p)" "obeys R (fs_exists E p)" "obeys R (fs_sync E)" "obeys R (fs_write E p b)"
  "obeys R (fs_append E p b)" "obeys R (fs_remove E p)" "obeys R (query E g)" "obeys R (draw f)"
  "obeys R (remove_file_if_present E p)" "obeys R (verify_blob_checksum E p k)" "obeys R (progress_if cb x y)"
  by (rule obeys_touches, (erule touches_read touches_change touches_query)
      | rule obeys_touches, (drule remove_file_if_present_outcome verify_blob_checksum_outcome), blast)+

lemma obeys_branch:
  "(b \<Longrightarrow> obeys R m) \<Longrightarrow> (\<not> b \<Longrightarrow> obeys R n) \<Longrightarrow> obeys R (if b then m else n)"
  "(\<And>x. r = Inl x \<Longrightarrow> obeys R (f x)) \<Longrightarrow> (\<And>y. r = Inr y \<Longrightarrow> obeys R (g y)) \<Longrightarrow> obeys R (case r of Inl x \<Rightarrow> f x | Inr y \<Rightarrow> g y)"
  "(p0 = None \<Longrightarrow> obeys R k) \<Longrightarrow> (\<And>x. p0 = Some x \<Longrightarrow> obeys R (h x)) \<Longrightarrow> obeys R (case p0 of None \<Rightarrow> k | Some x \<Rightarrow> h x)"
  by (auto split: sum.splits option.splits)

lemma obeys_for_each: "(\<And>x. obeys R (f x)) \<Longrightarrow> obeys R (for_each f xs)"
  by (induction xs) (auto intro: obeys_pure obeys_bind)

lemma obeys_directories:
  "obeys R (fs_create_dir_all E p)" "obeys R (fs_create_temp E p)" "obeys R (fs_persist_noclobber E p q)"
  "obeys R (encrypt_manifest_backup E b k v)"
  by (auto simp: obeys_def fs_create_dir_all_def fs_create_temp_def fs_persist_noclobber_def fs_effect_def Let_def
      encrypt_manifest_backup_def generate_nonce_def bind_def draw_def ret_def fail_def
      intro!: local_effects split: option.splits if_splits)

lemmas obeys_rules = obeys_directories obeys_bind obeys_pure obeys_wrap obeys_files obeys_branch obeys_for_each

end

text \<open>The relation used below: the manifest database is the same.\<close>

definition same_manifest :: "'r site world \<Rightarrow> 'r site world \<Rightarrow> bool" where
  "same_manifest w w' \<longleftrightarrow> manifest (store w') = manifest (store w)"

interpretation db: frame_relation same_manifest
  by unfold_locales (auto simp: same_manifest_def)

text \<open>And: the objects in the cloud are the same.\<close>

definition same_objects :: "('r \<Rightarrow> string \<Rightarrow> bytes option) \<Rightarrow> 'r site world \<Rightarrow> 'r site world \<Rightarrow> bool" where
  "same_objects objects w w' \<longleftrightarrow> objects_at objects w' = objects_at objects w"

interpretation cloud: frame_relation "same_objects objects"
  by unfold_locales (auto simp: same_objects_def objects_at_def)

lemma obeys_transport:
  assumes "cloud_transport CT objects"
  shows "obeys same_manifest (ct_upload_blob CT p q)" "obeys same_manifest (ct_download_blob CT q p)"
    "obeys same_manifest (ct_delete_blob CT q)" "obeys same_manifest (ct_ensure_folder CT x)"
  using cloud_transport.upload [OF assms] cloud_transport.download [OF assms] cloud_transport.delete [OF assms]
    cloud_transport.ensure_folder [OF assms]
  unfolding obeys_def same_manifest_def remote_only_def by blast+

lemmas obeys_all = db.obeys_rules

lemma upload_manifest_backup_keeps:
  assumes "cloud_transport CT objects"
  shows "obeys same_manifest (upload_manifest_backup E C CT sk mk vid d)"
  unfolding upload_manifest_backup_def ensure_staging_directory_def run_vacuum_into_export_def write_owner_only_def Let_def
  by (intro obeys_all obeys_transport [OF assms])

lemma download_manifest_backup_keeps:
  assumes "cloud_transport CT objects"
  shows "obeys same_manifest (download_manifest_backup E C CT d mk vid dest sk)"
  unfolding download_manifest_backup_def ensure_staging_directory_def persist_manifest_database_atomically_def
    verify_manifest_database_integrity_def Let_def
  by (intro obeys_all obeys_transport [OF assms])

lemma upload_vault_header_keeps:
  assumes "cloud_transport CT objects"
  shows "obeys same_manifest (upload_vault_header E C CT h d)"
  unfolding upload_vault_header_def write_owner_only_staging_file_def Let_def
  by (intro obeys_all obeys_transport [OF assms])

lemma read_cloud_snapshot_state_keeps:
  assumes "cloud_transport CT objects"
  shows "obeys same_manifest (read_cloud_snapshot_state E C CT d mk vid sk)"
proof -
  have probe: "obeys same_manifest (read_cloud_snapshot_from_probe_db E C p sk)" for p
    unfolding read_cloud_snapshot_from_probe_db_def by (intro obeys_all)
  show ?thesis
    unfolding read_cloud_snapshot_state_def Let_def
    by (intro obeys_all download_manifest_backup_keeps [OF assms] probe)
      (auto split: sum.splits manifest_backup_error.splits transport_error.splits intro: obeys_all probe)
qed


section \<open>The encrypted copy\<close>

lemma encrypt_manifest_backup_Inr:
  assumes "encrypt_manifest_backup E p k v w = (Inr wire, w')"
  shows "w' = next_tick w \<and> (\<exists>c t. aead_encrypt E k (draw_nonce E (tick w)) (uuid_bytes E v) p = Some (c, t) \<and>
    wire = draw_nonce E (tick w) @ c @ t)"
  using assms
  by (auto simp: encrypt_manifest_backup_def generate_nonce_def bind_def draw_def ret_def fail_def split: option.splits)

text \<open>The parts of a wire blob.\<close>

lemma wire_parts:
  assumes "length n = 24" "length t = 16"
  shows "decrypt_manifest_backup E (n @ c @ t) k v = ok_or crypto_error.DecryptionFailed (aead_decrypt E k n (uuid_bytes E v) c t)"
  using assms by (simp add: decrypt_manifest_backup_def NONCE_LEN_def TAG_LEN_def Let_def)

lemma fs_write_Inr:
  "fs_write E p b w = (Inr u, w') \<Longrightarrow> w' = (next_tick w)\<lparr>files := AList.update p b (files w)\<rparr>"
  by (auto simp: fs_write_def split: option.splits if_splits prod.splits)

lemma fs_read_Inr: "fs_read E p w = (Inr b, w') \<Longrightarrow> file_at w p = Some b \<and> w' = next_tick w"
  by (auto simp: fs_defs split: option.splits)

lemma fs_sync_Inr: "fs_sync E w = (Inr u, w') \<Longrightarrow> w' = next_tick w"
  by (auto simp: fs_defs split: option.splits)

lemma export_content:
  assumes "run_vacuum_into_export E C sk p w = (Inr u, w')"
  shows "file_at w' p = Some (sql_image C sk (manifest (store w)))"
  using assms
  by (auto simp: run_vacuum_into_export_def bind_Inr get_world_def query_def map_of_update dest!: fs_write_Inr fs_sync_Inr
      split: option.splits)

lemma write_owner_only_Inr:
  assumes "write_owner_only E p b w = (Inr u, w')"
  shows "file_at w' p = Some b"
  using assms by (auto simp: write_owner_only_def bind_Inr map_of_update dest!: fs_write_Inr fs_sync_Inr)

text \<open>A branch that always fails does not return a value.\<close>

lemma recover_Inr:
  "(case r of Inl e \<Rightarrow> fail (f e) | Inr a \<Rightarrow> g a) w = (Inr b, w') \<longleftrightarrow> (\<exists>a. r = Inr a \<and> g a w = (Inr b, w'))"
  "(case r of Inl e \<Rightarrow> bind (m e) (\<lambda>_. fail (f e)) | Inr a \<Rightarrow> g a) w = (Inr b, w') \<longleftrightarrow> (\<exists>a. r = Inr a \<and> g a w = (Inr b, w'))"
  "(case r of Inr a \<Rightarrow> g a | Inl e \<Rightarrow> bind (m e) (\<lambda>_. fail e0)) w = (Inr b, w') \<longleftrightarrow> (\<exists>a. r = Inr a \<and> g a w = (Inr b, w'))"
  by (cases r; auto simp: bind_Inr)+

lemma same_manifestD:
  assumes "obeys same_manifest m" "m w = (r, w')"
  shows "manifest (store w') = manifest (store w)"
  using obeysD [OF assms] by (simp add: same_manifest_def)

lemma obeys_staging: "obeys same_manifest (ensure_staging_directory E d)" "obeys (same_objects objects) (ensure_staging_directory E d)"
  unfolding ensure_staging_directory_def by (intro obeys_all cloud.obeys_rules)+

lemma same_objectsD:
  assumes "obeys (same_objects objects) m" "m w = (r, w')"
  shows "objects_at objects w' = objects_at objects w"
  using obeysD [OF assms] by (simp add: same_objects_def)

lemma Inr_eq_map_err: "Inr a = map_err f r \<longleftrightarrow> r = Inr a"
  by (cases r) auto

text \<open>A finished upload leaves the encryption of the database image under the backup's name.\<close>

lemma upload_manifest_backup_Inr:
  assumes "cloud_transport CT objects" "aead_laws E" "length mk = 32"
    and "upload_manifest_backup E C CT sk mk vid d w = (Inr u, w')"
  obtains n c t where "length n = 24" "length t = 16"
    "aead_encrypt E mk n (uuid_bytes E vid) (sql_image C sk (manifest (store w))) = Some (c, t)"
    "objects_at objects w' MANIFEST_BACKUP_BLOB_NAME = Some (n @ c @ t)"
proof -
  let ?x = "d @ [MANIFEST_EXPORT_FILE_NAME]"
  let ?s = "d @ [MANIFEST_BACKUP_UPLOAD_STAGING_FILE_NAME]"
  obtain u1 w1 u2 w2 u3 w3 p w4 u5 w5 wire w6 u7 w7 u8 w8 x where
    1: "ensure_staging_directory E d w = (Inr u1, w1)" and
    2: "remove_file_if_present E ?x w1 = (Inr u2, w2)" and
    3: "run_vacuum_into_export E C sk ?x w2 = (Inr u3, w3)" and
    4: "fs_read E ?x w3 = (Inr p, w4)" and
    5: "remove_file_if_present E ?x w4 = (Inr u5, w5)" and
    6: "encrypt_manifest_backup E p mk vid w5 = (Inr wire, w6)" and
    7: "write_owner_only E ?s wire w6 = (Inr u7, w7)" and
    8: "ct_upload_blob CT ?s MANIFEST_BACKUP_BLOB_NAME w7 = (Inr u8, w8)" and
    9: "remove_file_if_present E ?s w8 = (x, w')"
    using assms(4) unfolding upload_manifest_backup_def Let_def
    by (auto simp: bind_Inr attempt_Inr recover_Inr)
  have m: "manifest (store w2) = manifest (store w)"
    using same_manifestD [OF obeys_staging(1) 1] same_manifestD [OF db.obeys_files(9) 2] by simp
  have p: "p = sql_image C sk (manifest (store w))"
    using export_content [OF 3] fs_read_Inr [OF 4] by (simp add: m)
  from encrypt_manifest_backup_Inr [OF 6] obtain c t where e:
    "aead_encrypt E mk (draw_nonce E (tick w5)) (uuid_bytes E vid) p = Some (c, t)" "wire = draw_nonce E (tick w5) @ c @ t"
    by blast
  have o8: "objects_at objects w8 MANIFEST_BACKUP_BLOB_NAME = Some wire"
    using cloud_transport.upload_ok [OF assms(1) 8] write_owner_only_Inr [OF 7] by auto
  have "objects_at objects w' = objects_at objects w8"
    using remove_file_if_present_outcome [OF 9] by (auto simp: objects_at_def touches_def)
  moreover have "length (draw_nonce E (tick w5)) = 24" by (rule aead_laws_draw(1) [OF assms(2)])
  moreover from this have "length t = 16" by (rule aead_lawsD(2) [OF assms(2,3) _ e(1)])
  ultimately show thesis using that [of "draw_nonce E (tick w5)" t c] o8 e p by simp
qed

lemma persist_Inr:
  assumes "persist_manifest_database_atomically E C dest p w = (Inr u, w')"
  shows "file_at w' dest = Some p"
proof -
  obtain tmp w1 w2 w3 w4 w5 where
    "fs_create_temp E tmp w1 = (Inr (), w2)" "fs_append E tmp p w2 = (Inr (), w3)"
    "fs_sync E w3 = (Inr (), w4)" "fs_sync E w4 = (Inr (), w5)" "fs_persist_noclobber E tmp dest w5 = (Inr (), w')"
    using assms unfolding persist_manifest_database_atomically_def
    by (auto simp: bind_Inr attempt_Inr recover_Inr split: if_splits)
  then show ?thesis
    by (auto simp: fs_create_temp_def fs_append_def fs_persist_noclobber_def fs_sync_def fs_effect_def map_of_update map_of_delete Let_def
        split: option.splits if_splits prod.splits)
qed

lemma verify_world:
  "verify_manifest_database_integrity E C p sk w = (r, w') \<Longrightarrow> touches {} w w'"
  unfolding verify_manifest_database_integrity_def
  by (auto simp: with_err_def bind_def lift_def dest: touches_read split: prod.splits sum.splits)

text \<open>A finished download has decrypted what the cloud held.\<close>

lemma download_manifest_backup_Inr:
  assumes "cloud_transport CT objects" "objects_at objects w MANIFEST_BACKUP_BLOB_NAME = Some wire"
    and "download_manifest_backup E C CT d mk vid dest sk w = (Inr u, w')"
  shows "\<exists>p. decrypt_manifest_backup E wire mk vid = Inr p \<and> file_at w' dest = Some p"
proof -
  let ?s = "d @ [MANIFEST_BACKUP_DOWNLOAD_STAGING_FILE_NAME]"
  obtain w1 w2 w3 w4 w5 wire' w6 x w7 p w8 w9 y where
    1: "ensure_staging_directory E d w = (Inr (), w1)" and
    2: "fs_exists E dest w1 = (Inr False, w2)" and
    3: "remove_file_if_present E ?s w2 = (Inr (), w3)" and
    4: "ct_download_blob CT MANIFEST_BACKUP_BLOB_NAME ?s w3 = (Inr (), w4)" and
    5: "fs_exists E ?s w4 = (Inr True, w5)" and
    6: "fs_read E ?s w5 = (Inr wire', w6)" and
    7: "remove_file_if_present E ?s w6 = (x, w7)" and
    8: "decrypt_manifest_backup E wire' mk vid = Inr p" and
    9: "fs_create_dir_all E (parent_dir dest) w7 = (Inr (), w8)" and
    10: "persist_manifest_database_atomically E C dest p w8 = (Inr (), w9)" and
    11: "verify_manifest_database_integrity E C dest sk w9 = (Inr y, w')"
    using assms(3) unfolding download_manifest_backup_def Let_def
    by (auto simp: bind_Inr attempt_Inr recover_Inr map_err_eq_Inr Inr_eq_map_err split: if_splits)
  have "objects_at objects w3 = objects_at objects w"
    using same_objectsD [OF obeys_staging(2) 1] same_objectsD [OF cloud.obeys_files(2) 2]
      same_objectsD [OF cloud.obeys_files(9) 3] by simp
  with cloud_transport.download_ok [OF assms(1) 4] assms(2) have "file_at w4 ?s = Some wire" by simp
  moreover have "file_at w5 ?s = file_at w4 ?s" using touches_read(3) [OF 5] by (rule touchesD(4)) simp
  ultimately have "wire' = wire" using fs_read_Inr [OF 6] by simp
  moreover have "file_at w' dest = Some p"
    using persist_Inr [OF 10] touchesD(4) [OF verify_world [OF 11]] by simp
  ultimately show ?thesis using 8 by blast
qed

end
