(* ===== verification/Read_Back.thy ===== *)
theory Read_Back
  imports Backup_Lemmas Sync_Props
begin

text \<open>Reading the manifest that the cloud holds: when the backend is honest and no call fails, it is read or the
  transfer is reported as failed.\<close>

definition misread :: "manifest_backup_error \<Rightarrow> bool" where
  "misread e \<longleftrightarrow> e = BackupTransport BlobNotFound \<or> e = CryptoFailed \<or> e = IntegrityCheckFailed"

lemma misread_simps [simp]:
  "\<not> misread (StagingIo m)" "\<not> misread (Vacuum m)" "\<not> misread (ExportRead m)" "\<not> misread (DbPersistIo m)"
  "misread CryptoFailed" "misread IntegrityCheckFailed" "misread (BackupTransport x) \<longleftrightarrow> x = BlobNotFound"
  "\<not> misread (staging_io i)" "\<not> misread (db_persist_io i)"
  by (simp_all add: misread_def staging_io_def db_persist_io_def)

text \<open>A run that fails with an error of a given kind.\<close>

definition fails_with :: "('e \<Rightarrow> bool) \<Rightarrow> ('s, 'e, 'a) prog \<Rightarrow> 's world \<Rightarrow> bool" where
  "fails_with P m w \<longleftrightarrow> (\<exists>e w'. m w = (Inl e, w') \<and> P e)"

lemma fails_with_simps [simp]:
  "fails_with P (with_err g m1) w \<longleftrightarrow> fails_with (\<lambda>x. P (g x)) m1 w" "\<not> fails_with P (attempt m2) w"
  "fails_with P (lift r) w \<longleftrightarrow> (\<exists>e. r = Inl e \<and> P e)" "fails_with P (fail e) w \<longleftrightarrow> P e"
  "\<not> fails_with P (draw h) w" "\<not> fails_with P (ret a) w" "\<not> fails_with (\<lambda>x. False) m3 w"
  by (auto simp: fails_with_def with_err_Inl attempt_not_Inl lift_def fail_def draw_def ret_def)

lemma fails_with_bind:
  "fails_with P (bind m f) w \<longleftrightarrow> fails_with P m w \<or> (\<exists>a w1. m w = (Inr a, w1) \<and> fails_with P (f a) w1)"
  unfolding fails_with_def bind_Inl by blast

lemma fails_with_recover:
  "fails_with P (case r of Inl x \<Rightarrow> bind (attempt (m x)) (\<lambda>_. fail (e x)) | Inr y \<Rightarrow> g y) w \<longleftrightarrow>
     (\<exists>x. r = Inl x \<and> P (e x)) \<or> (\<exists>y. r = Inr y \<and> fails_with P (g y) w)"
  by (cases r) (auto simp: fails_with_bind attempt_Inr)

lemma fails_with_if:
  "fails_with P (if b then m1 else m2) w \<longleftrightarrow> b \<and> fails_with P m1 w \<or> \<not> b \<and> fails_with P m2 w"
  by simp

lemmas fails_with_rules = fails_with_bind fails_with_recover fails_with_if map_err_eq_Inl

lemma misread_persist [simp]: "\<not> fails_with misread (persist_manifest_database_atomically E C dest p) w"
  by (auto simp: persist_manifest_database_atomically_def fails_with_rules split: sum.splits)

definition verifiable :: "env \<Rightarrow> cloud_env \<Rightarrow> bytes \<Rightarrow> bytes \<Rightarrow> db \<Rightarrow> bool" where
  "verifiable E C sk img d \<longleftrightarrow>
     sql_open C sk img = Inr d \<and> (case sql_check C img of (integrity, fk) \<Rightarrow> validate_schema_integrity integrity fk) = Inr () \<and>
     validate_manifest_meta E d = Inr ()"

lemma verify_ok:
  assumes "no_faults E" "file_at w p = Some img" "verifiable E C sk img d"
  shows "verify_manifest_database_integrity E C p sk w = (Inr (), next_tick w)"
  using assms by (auto simp: verify_manifest_database_integrity_def verifiable_def bind_def with_err_def lift_def fs_ok split: prod.splits)

lemma arrival:
  assumes "honest_transport CT objects" "objects_at objects w MANIFEST_BACKUP_BLOB_NAME = Some wire"
    and 1: "ensure_staging_directory E d w = (Inr u1, w1)" and 2: "fs_exists E dest w1 = (Inr there, w2)"
    and 3: "remove_file_if_present E s w2 = (Inr u3, w3)"
  shows "ct_download_blob CT MANIFEST_BACKUP_BLOB_NAME s w3 \<noteq> (Inl BlobNotFound, w4)"
    and "ct_download_blob CT MANIFEST_BACKUP_BLOB_NAME s w3 = (Inr u4, w4) \<Longrightarrow> fs_exists E s w4 = (Inr b, w5) \<Longrightarrow>
      b \<and> file_at w5 s = Some wire"
    and "ct_download_blob CT MANIFEST_BACKUP_BLOB_NAME s w3 = (Inr u4, w4) \<Longrightarrow> fs_exists E s w4 = (Inr b, w5) \<Longrightarrow>
      file_at w5 s = Some got \<Longrightarrow> got = wire"
proof -
  have o3: "objects_at objects w3 MANIFEST_BACKUP_BLOB_NAME = Some wire"
    using same_objectsD [OF obeys_staging(2) 1] same_objectsD [OF cloud.obeys_files(2) 2]
      same_objectsD [OF cloud.obeys_files(9) 3] assms(2) by simp
  with honest_transport.not_found [OF assms(1)] show "ct_download_blob CT MANIFEST_BACKUP_BLOB_NAME s w3 \<noteq> (Inl BlobNotFound, w4)"
    by fastforce
  assume 4: "ct_download_blob CT MANIFEST_BACKUP_BLOB_NAME s w3 = (Inr u4, w4)" and 5: "fs_exists E s w4 = (Inr b, w5)"
  have "file_at w4 s = Some wire"
    using cloud_transport.download_ok [OF honest_transport.axioms(1) [OF assms(1)] 4 o3] .
  then show there: "b \<and> file_at w5 s = Some wire"
    using 5 by (auto simp: fs_exists_def fs_effect_def split: option.splits)
  then show "file_at w5 s = Some got \<Longrightarrow> got = wire" by simp
qed

lemma download_not_misread:
  assumes "honest_transport CT objects" "no_faults E"
    and "objects_at objects w MANIFEST_BACKUP_BLOB_NAME = Some wire" "decrypt_manifest_backup E wire mk vid = Inr p"
    and "verifiable E C sk p d0"
  shows "\<not> fails_with misread (download_manifest_backup E C CT d mk vid dest sk) w"
proof
  assume "fails_with misread (download_manifest_backup E C CT d mk vid dest sk) w"
  moreover have "verify_manifest_database_integrity E C dest sk v' \<noteq> (Inl x, v'')"
    if "persist_manifest_database_atomically E C dest p v = (Inr (), v')" for v v' v'' x
    using verify_ok [OF assms(2) persist_Inr [OF that] assms(5)] by simp
  ultimately show False
    unfolding download_manifest_backup_def Let_def
    using arrival(1) [OF assms(1,3)] assms(4)
    by (auto simp: fails_with_rules attempt_Inr Inr_eq_map_err
        dest!: fs_read_Inr dest: arrival(2) [OF assms(1,3)])
      (frule (5) arrival(3) [OF assms(1,3)], simp, blast)
qed

text \<open>The check before a push then sees the counter of the cloud, or fails.\<close>

lemma read_probe:
  assumes "no_faults E" "file_at w q = Some p" "sql_open C sk p = Inr d0" "read_snapshot_state d0 = Inr state"
  shows "read_cloud_snapshot_from_probe_db E C q sk w = (Inr (Some state), next_tick w)"
  using assms by (simp add: read_cloud_snapshot_from_probe_db_def bind_def with_err_def lift_def ret_def fs_ok)

lemma read_cloud_snapshot_reads:
  assumes "honest_transport CT objects" "no_faults E"
    and "objects_at objects w MANIFEST_BACKUP_BLOB_NAME = Some wire" "decrypt_manifest_backup E wire mk vid = Inr p"
    and "verifiable E C sk p d0" "read_snapshot_state d0 = Inr state"
    and "read_cloud_snapshot_state E C CT d mk vid sk w = (r, w')"
  shows "r = Inr (Some state) \<or> (\<exists>e. r = Inl e \<and> (\<forall>m. e \<noteq> CloudManifestUnreadable m))"
proof -
  let ?q = "d @ [CONFLICT_PROBE_DB_FILE_NAME]"
  note run = assms(7) [unfolded read_cloud_snapshot_state_def Let_def]
  obtain r1 w1 where 1: "remove_file_if_present E ?q w = (r1, w1)" by fastforce
  obtain r2 w2 where 2: "download_manifest_backup E C CT d mk vid ?q sk w1 = (r2, w2)" by fastforce
  have o1: "objects_at objects w1 MANIFEST_BACKUP_BLOB_NAME = Some wire"
    using same_objectsD [OF cloud.obeys_files(9) 1] assms(3) by simp
  show ?thesis
  proof (cases r2)
    case (Inr u)
    from download_manifest_backup_Inr [OF honest_transport.axioms(1) [OF assms(1)] o1 2 [unfolded Inr]] assms(4)
    have "file_at w2 ?q = Some p" by auto
    from read_probe [OF assms(2) this _ assms(6)] assms(5)
    have probe: "read_cloud_snapshot_from_probe_db E C ?q sk w2 = (Inr (Some state), next_tick w2)" by (simp add: verifiable_def)
    obtain r3 w3 where 3: "remove_file_if_present E ?q (next_tick w2) = (r3, w3)" by fastforce
    show ?thesis using run 1 2 Inr probe 3 by (cases r1; cases r3) (auto simp: bind_def with_err_def attempt_def lift_def)
  next
    case (Inl e)
    have "\<not> misread e"
      using download_not_misread [OF assms(1,2) o1 assms(4,5)] 2 Inl by (auto simp: fails_with_def)
    then show ?thesis using run 1 2 Inl
      by (cases r1) (auto simp: misread_def bind_def with_err_def attempt_def lift_def fail_def ret_def map_err_eq_Inl
          split: prod.splits sum.splits manifest_backup_error.splits transport_error.splits)
  qed
qed

end
