(* ===== verification/Push_Lemmas.thy ===== *)
theory Push_Lemmas
  imports Read_Back
begin

text \<open>
  The stages of a push: what is read before it, what is uploaded, and what the counter and the time of the last
  synchronisation are after each way it can end.
\<close>

section \<open>Calls on the manifest\<close>

lemma db_update_Inr:
  "db_update E f w = (Inr a, w') \<longleftrightarrow>
     (\<exists>d. os_fault E (tick w) = None \<and> f (manifest (store w)) = Inr (a, d) \<and>
        w' = (next_tick w)\<lparr>store := (store w)\<lparr>manifest := d\<rparr>\<rparr>)"
  by (auto simp: db_update_def split: option.splits sum.splits)

lemma db_update_Inl: "db_update E f w = (Inl e, w') \<Longrightarrow> w' = next_tick w"
  by (auto simp: db_update_def split: option.splits sum.splits)

lemma db_mutate_Inr:
  "db_mutate E f w = (Inr u, w') \<longleftrightarrow>
     (\<exists>d. os_fault E (tick w) = None \<and> f (tick w) (manifest (store w)) = Inr d \<and>
        w' = (next_tick w)\<lparr>store := (store w)\<lparr>manifest := d\<rparr>\<rparr>)"
  by (auto simp: db_mutate_def mutate_def result_simps split: option.splits sum.splits)

lemma db_mutate_Inl: "db_mutate E f w = (Inl e, w') \<Longrightarrow> w' = next_tick w"
  using db_mutate_cases [of E f w "Inl e" w'] by auto

lemma obeys_db_query: "obeys same_manifest (db_query E f)" "obeys (same_objects objects) (db_query E f)"
  by (auto simp: obeys_def same_manifest_def same_objects_def objects_at_def dest!: db_query_world)

lemma obeys_meta:
  "obeys same_manifest (read_required_u64_meta E k)" "obeys same_manifest (read_optional_i64_meta E k)"
  "obeys (same_objects objects) (read_required_u64_meta E k)" "obeys (same_objects objects) (read_optional_i64_meta E k)"
  unfolding read_required_u64_meta_def read_optional_i64_meta_def
  by (intro db.obeys_rules cloud.obeys_rules obeys_db_query)+

lemma staged_sync_blobs_keeps:
  "obeys same_manifest (staged_sync_blobs E d cs ns)" "obeys (same_objects objects) (staged_sync_blobs E d cs ns)"
  by (induction cs arbitrary: ns) (auto intro!: db.obeys_rules cloud.obeys_rules)

lemma obeys_download_objects:
  assumes "cloud_transport CT objects"
  shows "obeys (same_objects objects) (ct_download_blob CT q p)" "obeys (same_objects objects) (ct_ensure_folder CT x)"
  using cloud_transport.download [OF assms] cloud_transport.ensure_folder [OF assms]
  unfolding obeys_def same_objects_def remote_only_def objects_at_def by (blast, force)

lemma read_cloud_snapshot_state_objects:
  assumes "cloud_transport CT objects"
  shows "obeys (same_objects objects) (read_cloud_snapshot_state E C CT d mk vid sk)"
proof -
  have probe: "obeys (same_objects objects) (read_cloud_snapshot_from_probe_db E C p sk)" for p
    unfolding read_cloud_snapshot_from_probe_db_def by (intro cloud.obeys_rules)
  have "obeys (same_objects objects) (download_manifest_backup E C CT d mk vid p sk)" for p
    unfolding download_manifest_backup_def ensure_staging_directory_def persist_manifest_database_atomically_def
      verify_manifest_database_integrity_def Let_def
    by (intro cloud.obeys_rules obeys_download_objects [OF assms])
  then show ?thesis
    unfolding read_cloud_snapshot_state_def Let_def
    by (intro cloud.obeys_rules probe)
      (auto split: sum.splits manifest_backup_error.splits transport_error.splits intro: cloud.obeys_rules probe)
qed


section \<open>Before the upload\<close>

lemma push_prepare_keeps:
  assumes "cloud_transport CT objects"
  shows "obeys same_manifest (push_prepare E C CT sk mk h d config)"
    and "obeys (same_objects objects) (push_prepare E C CT sk mk h d config)"
proof -
  note parts = obeys_meta obeys_db_query staged_sync_blobs_keeps
  show "obeys same_manifest (push_prepare E C CT sk mk h d config)"
    unfolding push_prepare_def
    by (intro db.obeys_rules parts read_cloud_snapshot_state_keeps [OF assms])
      (auto split: sum.splits sync_error.splits option.splits intro: db.obeys_rules)
  show "obeys (same_objects objects) (push_prepare E C CT sk mk h d config)"
    unfolding push_prepare_def
    by (intro cloud.obeys_rules parts read_cloud_snapshot_state_objects [OF assms])
      (auto split: sum.splits sync_error.splits option.splits intro: cloud.obeys_rules)
qed

lemma Inr_eq_ok_or: "Inr a = ok_or e q \<longleftrightarrow> q = Some a"
  by (cases q) auto

lemma read_counter_Inr:
  assumes "read_required_u64_meta E ''snapshot_counter'' w = (Inr n, w')"
  shows "read_snapshot_counter (manifest (store w)) = Inr n"
  using assms by (auto simp: read_required_u64_meta_def bind_Inr read_snapshot_counter_def get_meta_def result_simps Inr_eq_ok_or dest!: db_query_Inr)

text \<open>An error of the device or the transport, not one of the outcomes a push names.\<close>

fun plain_error :: "sync_error \<Rightarrow> bool" where
  "plain_error (SyncStorage e) = True"
| "plain_error (SyncIo e) = True"
| "plain_error (SyncTransport e) = True"
| "plain_error (SyncManifestBackup e) = True"
| "plain_error (CloudManifestUnreadable e) = True"
| "plain_error _ = False"

abbreviation named_failure :: "('s, sync_error, 'a) prog \<Rightarrow> 's world \<Rightarrow> bool" where
  "named_failure \<equiv> fails_with (\<lambda>e. \<not> plain_error e)"

lemma push_prepare_Inr:
  assumes "cloud_transport CT objects"
    and "push_prepare E C CT sk mk h d config w = (Inr (vid, n, raw, blobs), w')"
  shows "uuid_parse E (vh_vault_id h) = Some vid \<and> read_snapshot_counter (manifest (store w)) = Inr n \<and>
    raw = map_of (t_meta (manifest (store w))) ''last_synced_at''"
proof -
  from assms(2) obtain w1 w2 x w3 where
    vid: "uuid_parse E (vh_vault_id h) = Some vid" and
    1: "read_required_u64_meta E ''snapshot_counter'' w = (Inr n, w1)" and
    2: "read_optional_i64_meta E ''last_synced_at'' w1 = (Inr x, w2)" and
    3: "db_query E (get_meta ''last_synced_at'') w2 = (Inr raw, w3)"
    unfolding push_prepare_def by (auto simp: bind_Inr Inr_eq_ok_or Inr_eq_map_err)
  have "manifest (store w2) = manifest (store w)"
    using same_manifestD [OF obeys_meta(1) 1] same_manifestD [OF obeys_meta(2) 2] by simp
  with db_query_Inr [OF 3] read_counter_Inr [OF 1] vid show ?thesis by (simp add: get_meta_def)
qed

text \<open>What is uploaded is listed.\<close>

lemma staged_length: "staged_sync_blobs E d cs acc w = (Inr bs, w') \<Longrightarrow> length bs \<le> length acc + length cs"
  by (induction cs arbitrary: acc w) (fastforce simp: bind_Inr ret_def split: if_splits)+

lemma staged_valid:
  "staged_sync_blobs E d cs acc w = (Inr bs, w') \<Longrightarrow> b \<in> set bs \<Longrightarrow>
     b \<in> set acc \<or> validate_blob_name_uuid_v4 E b = Inr ()"
  by (induction cs arbitrary: acc w) (fastforce simp: bind_Inr ret_def Inr_eq_map_err split: if_splits)+

lemma check_world:
  "(case rd of Inr s \<Rightarrow> ret s | Inl (CloudManifestUnreadable _) \<Rightarrow> ret None | Inl other \<Rightarrow> fail other) w = (Inr st, w') \<Longrightarrow> w' = w"
  "(case st of Some (c, l) \<Rightarrow> if c > n then fail (g c l) else ret () | None \<Rightarrow> ret ()) w = (Inr u, w') \<Longrightarrow> w' = w"
  by (auto simp: ret_def fail_def split: sum.splits sync_error.splits option.splits if_splits)

lemma push_prepare_blobs:
  assumes "cloud_transport CT objects"
    and "push_prepare E C CT sk mk h d config w = (Inr (vid, n, raw, blobs), w')"
  shows "(\<exists>cs. list_sync_chunks E (manifest (store w)) = Inr cs \<and> length blobs \<le> length cs) \<and>
    (\<forall>b \<in> set blobs. validate_blob_name_uuid_v4 E b = Inr ())"
proof -
  from assms(2) obtain w1 w2 x w3 rd w4 cs w5 where
    1: "read_required_u64_meta E ''snapshot_counter'' w = (Inr n, w1)" and
    2: "read_optional_i64_meta E ''last_synced_at'' w1 = (Inr x, w2)" and
    3: "db_query E (get_meta ''last_synced_at'') w2 = (Inr raw, w3)" and
    4: "read_cloud_snapshot_state E C CT d mk vid sk w3 = (rd, w4)" and
    5: "db_query E (list_sync_chunks E) w4 = (Inr cs, w5)" and 6: "staged_sync_blobs E d cs [] w5 = (Inr blobs, w')"
    unfolding push_prepare_def
    by (auto simp: bind_Inr Inr_eq_ok_or Inr_eq_map_err attempt_Inr dest!: check_world)
  have "manifest (store w4) = manifest (store w)"
    using same_manifestD [OF obeys_meta(1) 1] same_manifestD [OF obeys_meta(2) 2] same_manifestD [OF obeys_db_query(1) 3]
      same_manifestD [OF read_cloud_snapshot_state_keeps [OF assms(1)] 4] by simp
  with db_query_Inr [OF 5] staged_length [OF 6] staged_valid [OF 6] show ?thesis by auto
qed

lemma plain_meta [simp]:
  "\<not> named_failure (read_required_u64_meta E k) w" "\<not> named_failure (read_optional_i64_meta E k) w"
  by (auto simp: read_required_u64_meta_def read_optional_i64_meta_def fails_with_rules ok_or_eq_Inl)

lemma plain_staged [simp]: "\<not> named_failure (staged_sync_blobs E d cs ns) w"
  by (induction cs arbitrary: ns w) (auto simp: fails_with_rules)

lemma plain_snapshot: "\<not> named_failure (read_cloud_snapshot_state E C CT d mk vid sk) w"
proof -
  have probe: "\<not> named_failure (read_cloud_snapshot_from_probe_db E C p sk) w" for p w
    by (auto simp: read_cloud_snapshot_from_probe_db_def fails_with_rules)
  have state: "plain_error e" if
     "(case r of Inr _ \<Rightarrow> read_cloud_snapshot_from_probe_db E C p sk
         | Inl (BackupTransport BlobNotFound) \<Rightarrow> ret None
         | Inl CryptoFailed \<Rightarrow> fail (CloudManifestUnreadable CryptoFailed)
         | Inl IntegrityCheckFailed \<Rightarrow> fail (CloudManifestUnreadable IntegrityCheckFailed)
         | Inl source \<Rightarrow> fail (SyncManifestBackup source)) w = (Inl e, w')" for r p w e w'
    using that probe [of p w]
    by (auto simp: fails_with_def fail_def ret_def split: sum.splits manifest_backup_error.splits transport_error.splits)
  show ?thesis
    unfolding read_cloud_snapshot_state_def Let_def
    by (auto simp: fails_with_rules attempt_Inr dest!: state)
qed

lemma plain_snapshot_error: "read_cloud_snapshot_state E C CT d mk vid sk w = (Inl e, w') \<Longrightarrow> plain_error e"
  using plain_snapshot unfolding fails_with_def by blast

definition unexplained :: "u64 \<Rightarrow> sync_error \<Rightarrow> bool" where
  "unexplained n e \<longleftrightarrow> \<not> plain_error e \<and> \<not> (\<exists>c. e = Conflict c \<and> sy_local_counter c = n \<and> n < sy_cloud_counter c)"

lemma unexplained_simps [simp]:
  "\<not> unexplained n (SyncStorage a)" "\<not> unexplained n (SyncIo b)" "\<not> unexplained n (SyncTransport c)"
  "unexplained n (Conflict k) \<longleftrightarrow> sy_local_counter k \<noteq> n \<or> sy_cloud_counter k \<le> n"
  "plain_error e \<Longrightarrow> \<not> unexplained n e" "\<not> named_failure m v \<Longrightarrow> \<not> fails_with (unexplained n) m v"
  by (auto simp: unexplained_def fails_with_def)

lemma plain_not_unexplained:
  "plain_error x \<Longrightarrow> \<not> fails_with (unexplained n) (case x of CloudManifestUnreadable _ \<Rightarrow> ret None | other \<Rightarrow> fail other) w"
  by (cases x) simp_all

text \<open>A push refused before the upload was in conflict, or failed on the way.\<close>

lemma push_prepare_Inl:
  assumes "cloud_transport CT objects" "push_prepare E C CT sk mk h d config w = (Inl e, w')" "\<not> plain_error e"
    and "read_snapshot_counter (manifest (store w)) = Inr n"
  shows "\<exists>c. e = Conflict c \<and> sy_local_counter c = n \<and> n < sy_cloud_counter c"
proof -
  have "\<not> fails_with (unexplained n) (push_prepare E C CT sk mk h d config) w"
    unfolding push_prepare_def using assms(4)
    by (auto simp: fails_with_rules ok_or_eq_Inl attempt_Inr plain_not_unexplained
        dest!: plain_snapshot_error read_counter_Inr split: sum.splits option.splits)
  then show ?thesis using assms(2,3) by (auto simp: fails_with_def unexplained_def)
qed


section \<open>The counter and the manifest\<close>

text \<open>The manifest that a push uploads, and the one that is left when the upload failed.\<close>

definition published :: "env \<Rightarrow> nat \<Rightarrow> u64 \<Rightarrow> db \<Rightarrow> db" where
  "published E t n d =
     (let d1 = sql_update_meta ''snapshot_counter'' (show_nat (n + 1)) d in
      d1\<lparr>t_meta := AList.update ''last_synced_at'' (show_int (now_unix_seconds E t)) (t_meta d1)\<rparr>)"

definition restored :: "u64 \<Rightarrow> db \<Rightarrow> db \<Rightarrow> bool" where
  "restored n d d' \<longleftrightarrow> read_snapshot_counter d' = Inr n \<and> d' = d\<lparr>t_meta := t_meta d'\<rparr> \<and>
     (\<forall>k. k \<noteq> ''snapshot_counter'' \<longrightarrow> map_of (t_meta d') k = map_of (t_meta d) k)"

text \<open>Only the counter and the time of the last synchronisation may differ.\<close>

definition only_sync_settings :: "db \<Rightarrow> db \<Rightarrow> bool" where
  "only_sync_settings d d' \<longleftrightarrow> d' = d\<lparr>t_meta := t_meta d'\<rparr> \<and>
     (\<forall>k. k \<noteq> ''snapshot_counter'' \<and> k \<noteq> ''last_synced_at'' \<longrightarrow> map_of (t_meta d') k = map_of (t_meta d) k)"

lemma only_sync_settings_trans:
  assumes "only_sync_settings d d'" "only_sync_settings d' d''"
  shows "only_sync_settings d d''"
proof -
  have 1: "d' = d\<lparr>t_meta := t_meta d'\<rparr>" and 2: "d'' = d'\<lparr>t_meta := t_meta d''\<rparr>"
    using assms by (auto simp: only_sync_settings_def)
  have "d'' = d\<lparr>t_meta := t_meta d''\<rparr>" by (subst 2, subst 1) simp
  with assms show ?thesis by (auto simp: only_sync_settings_def)
qed

lemma read_snapshot_counter_cong:
  "map_of (t_meta d') ''snapshot_counter'' = map_of (t_meta d) ''snapshot_counter'' \<Longrightarrow> read_snapshot_counter d' = read_snapshot_counter d"
  by (simp add: read_snapshot_counter_def)

lemma increment_Inr:
  assumes "increment_snapshot_counter d = Inr (c, d')" "read_snapshot_counter d = Inr n"
  shows "c = n + 1 \<and> n + 1 < 2 ^ 64 \<and> d' = sql_update_meta ''snapshot_counter'' (show_nat (n + 1)) d"
  using assms by (auto simp: increment_snapshot_counter_def result_simps checked_add_u64_def split: if_splits)

lemma set_last_synced: "set_meta ''last_synced_at'' v d = Inr (d\<lparr>t_meta := AList.update ''last_synced_at'' v (t_meta d)\<rparr>)"
  by (simp add: set_meta_def is_immutable_manifest_meta_key_def IMMUTABLE_MANIFEST_META_KEYS_def)

lemma only_sync_settings_steps:
  "only_sync_settings d d" "only_sync_settings d (published E t n d)"
  "rollback_snapshot_counter m d = Inr d' \<Longrightarrow> only_sync_settings d d'"
  "set_meta ''last_synced_at'' v d = Inr d' \<Longrightarrow> only_sync_settings d d'"
  "clear_last_synced_at d = Inr d' \<Longrightarrow> only_sync_settings d d'"
  by (auto simp: only_sync_settings_def published_def Let_def sql_update_meta_def map_of_update_where map_of_update map_of_delete
      rollback_snapshot_counter_def set_last_synced clear_last_synced_at_def result_simps split: if_splits)

lemma counter_published:
  assumes "read_snapshot_counter d = Inr n" "n + 1 < 2 ^ 64"
  shows "read_snapshot_counter (published E t n d) = Inr (n + 1)"
proof -
  have "read_snapshot_counter (published E t n d) = read_snapshot_counter (sql_update_meta ''snapshot_counter'' (show_nat (n + 1)) d)"
    by (rule read_snapshot_counter_cong) (simp add: published_def Let_def map_of_update)
  with read_snapshot_counter_update [OF assms(2,1)] show ?thesis by simp
qed

text \<open>The rollback and the restored time give back the manifest as it was.\<close>

lemma restored_published:
  assumes "read_snapshot_counter d = Inr n" "n + 1 < 2 ^ 64" "rollback_snapshot_counter n (published E t n d) = Inr d1"
    and "(case map_of (t_meta d) ''last_synced_at'' of Some v \<Rightarrow> set_meta ''last_synced_at'' v d1 | None \<Rightarrow> clear_last_synced_at d1) = Inr d2"
  shows "restored n d d2"
proof -
  have d1: "d1 = sql_update_meta ''snapshot_counter'' (show_nat n) (published E t n d)"
    using assms(3) by (auto simp: rollback_snapshot_counter_def result_simps split: if_splits)
  have "n < 2 ^ 64" using assms(2) by simp
  from read_snapshot_counter_update [OF this counter_published [OF assms(1,2)]]
  have "read_snapshot_counter d1 = Inr n" by (simp add: d1)
  moreover have "read_snapshot_counter d2 = read_snapshot_counter d1"
    using assms(4) by (intro read_snapshot_counter_cong)
      (auto simp: set_last_synced clear_last_synced_at_def map_of_update map_of_delete split: option.splits)
  moreover have "map_of (t_meta d2) k = map_of (t_meta d) k" if "k \<noteq> ''snapshot_counter''" for k
    using assms(4) that
    by (auto simp: set_last_synced clear_last_synced_at_def map_of_update map_of_delete d1 map_of_sql_update_meta published_def Let_def
        split: option.splits)
  moreover have "d2 = d\<lparr>t_meta := t_meta d2\<rparr>"
    using assms(4) by (auto simp: set_last_synced clear_last_synced_at_def d1 published_def sql_update_meta_def Let_def split: option.splits)
  ultimately show ?thesis by (simp add: restored_def)
qed

definition in_backup :: "env \<Rightarrow> ('r \<Rightarrow> string \<Rightarrow> bytes option) \<Rightarrow> bytes \<Rightarrow> uuid \<Rightarrow> 'r site world \<Rightarrow> bytes \<Rightarrow> bool" where
  "in_backup E objects mk vid w p \<longleftrightarrow>
     (\<exists>wire. objects_at objects w MANIFEST_BACKUP_BLOB_NAME = Some wire \<and> decrypt_manifest_backup E wire mk vid = Inr p)"

lemma upload_in_backup:
  assumes "cloud_transport CT objects" "aead_laws E" "length mk = 32"
    and "upload_manifest_backup E C CT sk mk vid d w = (Inr u, w')"
  shows "in_backup E objects mk vid w' (sql_image C sk (manifest (store w)))"
proof -
  obtain n c t where "length n = 24" "length t = 16"
    "aead_encrypt E mk n (uuid_bytes E vid) (sql_image C sk (manifest (store w))) = Some (c, t)"
    "objects_at objects w' MANIFEST_BACKUP_BLOB_NAME = Some (n @ c @ t)"
    by (rule upload_manifest_backup_Inr [OF assms])
  then show ?thesis
    using aead_lawsD(3) [OF assms(2,3)] by (simp add: in_backup_def wire_parts)
qed

lemma push_manifest_start:
  assumes "read_snapshot_counter (manifest (store w)) = Inr n"
    and "push_manifest E C CT sk mk vid d n raw w = (r, w')"
  obtains (early) e where "r = Inl (SyncStorage e)" "remote (store w') = remote (store w)" "manifest (store w') = manifest (store w) \<or>
       os_fault E (Suc (tick w)) \<noteq> None \<and> manifest (store w') = sql_update_meta ''snapshot_counter'' (show_nat (n + 1)) (manifest (store w))"
  | (bumped) w2 r3 w3 where "n + 1 < 2 ^ 64" "manifest (store w2) = published E (Suc (tick w)) n (manifest (store w))"
      "upload_manifest_backup E C CT sk mk vid d w2 = (r3, w3)"
      "(case r3 of
       Inr _ \<Rightarrow> ret (Suc n)
     | Inl source \<Rightarrow>
         bind (attempt (db_mutate E (\<lambda>_. rollback_snapshot_counter n))) (\<lambda>rollback_result.
         bind (attempt (restore_last_synced_at E raw)) (\<lambda>restore_result.
         case (rollback_result, restore_result) of
           (Inr _, Inr _) \<Rightarrow> fail (PushManifestBackupFailed source)
         | (Inl rollback_error, _) \<Rightarrow> fail (RollbackFailed source rollback_error)
         | (_, Inl rollback_error) \<Rightarrow> fail (RollbackFailed source rollback_error)))) w3 = (r, w')"
proof -
  obtain r1 w1 where 1: "db_update E increment_snapshot_counter w = (r1, w1)" by fastforce
  show thesis
  proof (cases r1)
    case (Inl e)
    with 1 assms(2) db_update_Inl [of E increment_snapshot_counter w e w1] show thesis
      by (intro early [of e]) (auto simp: push_manifest_def bind_def with_err_def)
  next
    case (Inr c)
    from 1 [unfolded Inr db_update_Inr] obtain d1 where d1: "increment_snapshot_counter (manifest (store w)) = Inr (c, d1)"
      "w1 = (next_tick w)\<lparr>store := (store w)\<lparr>manifest := d1\<rparr>\<rparr>" by blast
    note inc = increment_Inr [OF d1(1) assms(1)]
    obtain r2 w2 where 2: "db_mutate E (\<lambda>t. set_meta ''last_synced_at'' (show_int (now_unix_seconds E t))) w1 = (r2, w2)" by fastforce
    show thesis
    proof (cases r2)
      case (Inl e)
      then have "os_fault E (tick w1) \<noteq> None"
        using 2 by (auto simp: db_mutate_def mutate_def set_last_synced split: option.splits)
      moreover have "w2 = next_tick w1" using db_mutate_Inl 2 Inl by blast
      ultimately show thesis using assms(2) 1 2 Inl \<open>r1 = Inr c\<close> d1 inc
        by (intro early [of e]) (auto simp: push_manifest_def bind_def with_err_def)
    next
      case (Inr u)
      from 2 [unfolded Inr db_mutate_Inr] have m2: "manifest (store w2) = published E (Suc (tick w)) n (manifest (store w))"
        using d1 inc by (auto simp: set_last_synced published_def Let_def)
      obtain r3 w3 where 3: "upload_manifest_backup E C CT sk mk vid d w2 = (r3, w3)" by fastforce
      from m2 3 show thesis using assms(2) 1 2 Inr \<open>r1 = Inr c\<close> inc
        by (intro bumped [of w2 r3 w3]) (auto simp: push_manifest_def bind_def with_err_def attempt_def)
    qed
  qed
qed

lemma push_manifest_outcome:
  assumes "cloud_transport CT objects" "aead_laws E" "length mk = 32"
    and "read_snapshot_counter (manifest (store w)) = Inr n" "raw = map_of (t_meta (manifest (store w))) ''last_synced_at''"
    and "push_manifest E C CT sk mk vid d n raw w = (r, w')"
  shows "(\<forall>c. r = Inr c \<longrightarrow> c = n + 1 \<and> n + 1 < 2 ^ 64 \<and> (\<exists>t. manifest (store w') = published E t n (manifest (store w))) \<and>
      in_backup E objects mk vid w' (sql_image C sk (manifest (store w')))) \<and>
    (\<forall>e. r = Inl (PushManifestBackupFailed e) \<longrightarrow> restored n (manifest (store w)) (manifest (store w'))) \<and>
    (\<forall>x y. r = Inl (RollbackFailed x y) \<longrightarrow> only_sync_settings (manifest (store w)) (manifest (store w'))) \<and>
    (\<forall>x. r = Inl (SyncStorage x) \<longrightarrow> remote (store w') = remote (store w) \<and> (manifest (store w') = manifest (store w) \<or>
       manifest (store w') = sql_update_meta ''snapshot_counter'' (show_nat (n + 1)) (manifest (store w)))) \<and>
    (\<forall>e. r = Inl e \<longrightarrow> (\<exists>x. e = SyncStorage x) \<or> (\<exists>x. e = PushManifestBackupFailed x) \<or> (\<exists>x y. e = RollbackFailed x y))"
  using assms(4,6)
proof (cases rule: push_manifest_start)
  case (early e)
  then show ?thesis by auto
next
  case (bumped w2 r3 w3)
  have m3: "manifest (store w3) = manifest (store w2)"
    using same_manifestD [OF upload_manifest_backup_keeps [OF assms(1)] bumped(3)] .
  show ?thesis
  proof (cases r3)
    case (Inr u)
    with bumped(4) have "r = Inr (n + 1)" "w' = w3" by (simp_all add: ret_def)
    with upload_in_backup [OF assms(1-3) bumped(3) [unfolded Inr]] bumped(1,2) m3 show ?thesis by auto
  next
    case (Inl e)
    obtain r4 w4 where 4: "db_mutate E (\<lambda>_. rollback_snapshot_counter n) w3 = (r4, w4)" by fastforce
    obtain r5 w5 where 5: "restore_last_synced_at E raw w4 = (r5, w5)" by fastforce
    have fin: "w' = w5" "r = (case (r4, r5) of (Inr _, Inr _) \<Rightarrow> Inl (PushManifestBackupFailed e)
        | (Inl x, _) \<Rightarrow> Inl (RollbackFailed e x) | (_, Inl x) \<Rightarrow> Inl (RollbackFailed e x))"
      using bumped(4) Inl 4 5 by (auto simp: bind_def attempt_def fail_def split: sum.splits)
    have "restored n (manifest (store w)) (manifest (store w5))" if "r4 = Inr ()" "r5 = Inr ()"
    proof (rule restored_published [OF assms(4) bumped(1)])
      from 4 that(1) show "rollback_snapshot_counter n (published E (Suc (tick w)) n (manifest (store w))) = Inr (manifest (store w4))"
        by (auto simp: db_mutate_Inr m3 bumped(2))
      from 5 that(2) show "(case map_of (t_meta (manifest (store w))) ''last_synced_at'' of
          None \<Rightarrow> clear_last_synced_at (manifest (store w4)) | Some v \<Rightarrow> set_meta ''last_synced_at'' v (manifest (store w4))) = Inr (manifest (store w5))"
        by (auto simp: restore_last_synced_at_def db_mutate_Inr assms(5) split: option.splits)
    qed
    moreover have "only_sync_settings (manifest (store w)) (manifest (store w'))"
    proof -
      have "only_sync_settings (manifest (store w)) (manifest (store w3))"
        by (simp add: m3 bumped(2) only_sync_settings_steps(2))
      moreover have "only_sync_settings (manifest (store w3)) (manifest (store w4))"
        using 4 only_sync_settings_steps(1,3) by (cases r4) (auto simp: db_mutate_Inr dest!: db_mutate_Inl)
      moreover have "only_sync_settings (manifest (store w4)) (manifest (store w5))"
        using 5 only_sync_settings_steps(1,4,5) unfolding restore_last_synced_at_def
        by (cases r5; cases raw) (auto simp: db_mutate_Inr dest!: db_mutate_Inl)
      ultimately show ?thesis using fin(1) only_sync_settings_trans by blast
    qed
    ultimately show ?thesis using fin by (auto split: sum.splits)
  qed
qed


section \<open>Draining touches the queued objects only\<close>

definition unqueued :: "env \<Rightarrow> string \<Rightarrow> string set \<Rightarrow> bool" where
  "unqueued E q B \<longleftrightarrow> (\<forall>b \<in> B. build_blob_remote_path E b \<noteq> Inr q)"

lemma drain_batch_objects:
  assumes "cloud_transport CT objects" "drain_batch E CT queued k w = (r, w')" "unqueued E q (set queued)"
  shows "objects_at objects w' q = objects_at objects w q"
  using assms(2,3)
proof (induction queued arbitrary: k w)
  case (Cons b queued)
  from Cons.prems(2) have rest: "unqueued E q (set queued)" by (simp add: unqueued_def)
  show ?case
  proof (cases "build_blob_remote_path E b")
    case (Inl e)
    with Cons.prems(1) Cons.IH [OF _ rest] show ?thesis by auto
  next
    case (Inr p)
    obtain r1 w1 where del: "ct_delete_blob CT p w = (r1, w1)" by fastforce
    have "p \<noteq> q" using Inr Cons.prems(2) by (auto simp: unqueued_def)
    with cloud_transport.delete [OF assms(1) del] have 1: "objects_at objects w1 q = objects_at objects w q"
      by (simp add: remote_only_def objects_at_def)
    obtain r2 w2 where mark: "db_mutate E (\<lambda>_. mark_deletion_complete b) w1 = (r2, w2)" by fastforce
    have 2: "objects_at objects w2 = objects_at objects w1"
      using db_mutate_cases [OF mark] by (auto simp: objects_at_def)
    show ?thesis
    proof (cases "r1 = Inr () \<or> r1 = Inl BlobNotFound")
      case True
      with Cons.prems(1) Inr del mark show ?thesis using Cons.IH [OF _ rest, of "k + 1" w2] 1 2
        by (cases r2) (auto simp: bind_def attempt_def with_err_def)
    next
      case False
      with Cons.prems(1) Inr del have "drain_batch E CT queued k w1 = (r, w')" by (simp add: bind_def attempt_def)
      from Cons.IH [OF this rest] 1 show ?thesis by simp
    qed
  qed
qed simp

lemma drain_loop_objects:
  assumes "drain_loop E CT n w = Some (r, w')" "cloud_transport CT objects"
    and "unqueued E q (fst ` set (t_pending_deletions (manifest (store w))))"
  shows "objects_at objects w' q = objects_at objects w q"
proof -
  define P where "P E' CT' (n :: nat) w x \<longleftrightarrow> cloud_transport CT' objects \<longrightarrow>
      unqueued E' q (fst ` set (t_pending_deletions (manifest (store w)))) \<longrightarrow>
      objects_at objects (snd x) q = objects_at objects w q"
    for E' CT' n and w :: "'a site world" and x :: "(sync_error + nat) \<times> 'a site world"
  have "P E CT n w (r, w')"
  proof (rule drain_loop.raw_induct [where P = P, OF _ assms(1)])
    fix f E' CT' n' w0 and x :: "(sync_error + nat) \<times> 'a site world"
    assume IH: "\<And>E CT n w y. f E CT n w = Some y \<Longrightarrow> P E CT n w y"
      and step: "(case db_query E' (list_pending_deletions PENDING_DELETIONS_BATCH_LIMIT) w0 of
        (Inl e, w1) \<Rightarrow> Some (Inl (SyncStorage e), w1)
      | (Inr pending, w1) \<Rightarrow>
          if pending = [] then Some (Inr n', w1)
          else case drain_batch E' CT' pending 0 w1 of
            (Inl e, w2) \<Rightarrow> Some (Inl e, w2)
          | (Inr batch_completed, w2) \<Rightarrow>
              if batch_completed = 0 then Some (Inr n', w2)
              else f E' CT' (n' + batch_completed) w2) = Some x"
    obtain r1 w1 where 1: "db_query E' (list_pending_deletions PENDING_DELETIONS_BATCH_LIMIT) w0 = (r1, w1)" by fastforce
    have w1: "w1 = next_tick w0" by (rule db_query_world [OF 1])
    show "P E' CT' n' w0 x"
    proof (cases r1)
      case (Inr pending)
      obtain r2 w2 where 2: "drain_batch E' CT' pending 0 w1 = (r2, w2)" by fastforce
      note sub = list_pending_sub [OF db_query_Inr [OF 1 [unfolded Inr]]]
      show ?thesis unfolding P_def
      proof (intro impI)
        assume ct: "cloud_transport CT' objects"
          and free: "unqueued E' q (fst ` set (t_pending_deletions (manifest (store w0))))"
        have "unqueued E' q (set pending)" using free sub by (auto simp: unqueued_def)
        note o2 = drain_batch_objects [OF ct 2 this]
        from cloud_transport.drain_batch_outcome [OF ct 2, of "set pending"] obtain D where
          "manifest (store w2) = dequeue D (manifest (store w1))" by auto
        then have "unqueued E' q (fst ` set (t_pending_deletions (manifest (store w2))))"
          using free by (force simp: unqueued_def dequeue_def w1)
        then show "objects_at objects (snd x) q = objects_at objects w0 q"
          using step o2 ct IH [of E' CT' _ w2]
          by (cases r2) (auto simp: 1 [unfolded w1] Inr 2 [unfolded w1] w1 P_def objects_at_def split: if_splits)
      qed
    qed (use step 1 w1 in \<open>auto simp: P_def objects_at_def\<close>)
  qed
  with assms(2,3) show ?thesis by (simp add: P_def)
qed


section \<open>The stages after the check\<close>

lemma retry_keeps: "obeys R m \<Longrightarrow> frame_relation R \<Longrightarrow> obeys R (retry_on_timeout m)"
  unfolding retry_on_timeout_def by (intro frame_relation.obeys_rules) auto

lemma upload_blob_task_keeps:
  assumes "cloud_transport CT objects"
  shows "obeys same_manifest (upload_blob_task E CT d b)"
  unfolding upload_blob_task_def Let_def
  by (intro obeys_all retry_keeps obeys_transport [OF assms] db.frame_relation_axioms)

text \<open>What every transfer keeps, the pool keeps.\<close>

lemma upload_pool_obeys:
  assumes "upload_pool E C CT d pending in_flight ok err w = (r, w')" "frame_relation R"
    and "\<forall>b \<in> set pending \<union> set in_flight. obeys R (upload_blob_task E CT d b)"
  shows "R w w'"
  using assms(1,3)
proof (induction "2 * length pending + length in_flight" arbitrary: pending in_flight ok err w rule: less_induct)
  case less
  show ?case
  proof (cases "in_flight = []")
    case True
    with less.prems(1) show ?thesis
      using frame_relation.same [OF assms(2)] by (auto simp: upload_pool.simps [of E C CT d pending] split: option.splits)
  next
    case False
    define i where "i = pick C w in_flight"
    have i: "i < length in_flight" using pick_less [OF False] by (simp add: i_def)
    obtain s w1 where task: "upload_blob_task E CT d (in_flight ! i) w = (s, w1)" by fastforce
    have "obeys R (upload_blob_task E CT d (in_flight ! i))" using less.prems(2) i by simp
    then have m1: "R w w1" using task obeysD by blast
    have others: "set (without i in_flight) \<subseteq> set in_flight"
      by (auto simp: without_def dest: in_set_takeD in_set_dropD)
    note step = less.prems(1) [unfolded upload_pool.simps [of E C CT d pending in_flight], folded i_def]
    show ?thesis
    proof (cases "is_ok s \<and> err = None \<and> pending \<noteq> []")
      case True
      then obtain ok' where "upload_pool E C CT d (tl pending) (without i in_flight @ [hd pending]) ok' err w1 = (r, w')"
        using step False task by (auto simp: Let_def is_ok_iff)
      moreover have "\<forall>b \<in> set (tl pending) \<union> set (without i in_flight @ [hd pending]). obeys R (upload_blob_task E CT d b)"
        using less.prems(2) others True by (auto dest: list.set_sel)
      ultimately have "R w1 w'"
        using less.hyps [of "tl pending" "without i in_flight @ [hd pending]"] pool_measure(2) [OF False, of pending C w "hd pending"] True
        by (simp add: i_def)
      with m1 show ?thesis using frame_relation.chain [OF assms(2)] by blast
    next
      case no: False
      then obtain ok' err' where "upload_pool E C CT d pending (without i in_flight) ok' err' w1 = (r, w')"
        using step False task by (cases s) (auto simp: Let_def)
      moreover have "\<forall>b \<in> set pending \<union> set (without i in_flight). obeys R (upload_blob_task E CT d b)"
        using less.prems(2) others by auto
      ultimately have "R w1 w'"
        using less.hyps [of pending "without i in_flight"] pool_measure(1) [OF False, where C = C and w = w] by (simp add: i_def)
      with m1 show ?thesis using frame_relation.chain [OF assms(2)] by blast
    qed
  qed
qed

lemma drive_blob_uploads_obeys:
  assumes "frame_relation R" "\<forall>b \<in> set bs. obeys R (upload_blob_task E CT d b)"
  shows "obeys R (drive_blob_uploads E C CT bs d k)"
  unfolding obeys_def
proof (intro allI impI)
  fix w r w' assume "drive_blob_uploads E C CT bs d k w = (r, w')"
  then show "R w w'"
    using assms(2) unfolding drive_blob_uploads_def Let_def
    by (elim upload_pool_obeys [OF _ assms(1)]) (auto dest: in_set_takeD in_set_dropD)
qed

lemma drive_blob_uploads_manifest:
  assumes "cloud_transport CT objects"
  shows "obeys same_manifest (drive_blob_uploads E C CT bs d k)"
  using upload_blob_task_keeps [OF assms] by (auto intro: drive_blob_uploads_obeys db.frame_relation_axioms)

text \<open>The relation that one object is the same.\<close>

definition same_object :: "('r \<Rightarrow> string \<Rightarrow> bytes option) \<Rightarrow> string \<Rightarrow> 'r site world \<Rightarrow> 'r site world \<Rightarrow> bool" where
  "same_object objects q w w' \<longleftrightarrow> objects_at objects w' q = objects_at objects w q"

interpretation slot: frame_relation "same_object objects q"
  by unfold_locales (auto simp: same_object_def objects_at_def)

lemma upload_blob_task_slot:
  assumes "cloud_transport CT objects" "build_blob_remote_path E b \<noteq> Inr q"
  shows "obeys (same_object objects q) (upload_blob_task E CT d b)"
proof (cases "build_blob_remote_path E b")
  case (Inl e)
  then show ?thesis
    by (auto simp: upload_blob_task_def bind_def lift_def obeys_def same_object_def)
next
  case (Inr p)
  with assms(2) have "obeys (same_object objects q) (ct_upload_blob CT f p)" for f
    using cloud_transport.upload [OF assms(1)]
    by (fastforce simp: obeys_def same_object_def remote_only_def objects_at_def)
  then have "obeys (same_object objects q)
      (bind (retry_on_timeout (ct_upload_blob CT f p)) (\<lambda>_.
       bind (with_err TransportIo (remove_file_if_present E f)) (\<lambda>_. ret b)))" for f
    by (intro slot.obeys_rules retry_keeps slot.frame_relation_axioms)
  with Inr show ?thesis
    by (simp add: upload_blob_task_def Let_def obeys_def bind_def [where m = "lift x" for x] lift_def)
qed

text \<open>A blob with a valid name is not stored where the backup is.\<close>

lemma valid_name_path:
  assumes "uuid_laws E" "validate_blob_name_uuid_v4 E b = Inr ()"
  shows "build_blob_remote_path E b \<noteq> Inr MANIFEST_BACKUP_BLOB_NAME"
proof -
  obtain u where "uuid_hyphenated E u = b" using assms(2) by (auto simp: validate_blob_name_ok)
  then have "CHR ''/'' \<notin> set b" using uuid_lawsD(5) [OF assms(1)] by auto
  then show ?thesis
    by (auto simp: build_blob_remote_path_def Let_def result_simps MANIFEST_BACKUP_BLOB_NAME_def)
qed

lemma drive_blob_uploads_slot:
  assumes "cloud_transport CT objects" "uuid_laws E" "\<forall>b \<in> set bs. validate_blob_name_uuid_v4 E b = Inr ()"
  shows "obeys (same_object objects MANIFEST_BACKUP_BLOB_NAME) (drive_blob_uploads E C CT bs d k)"
  using assms(3) valid_name_path [OF assms(2)]
  by (intro drive_blob_uploads_obeys slot.frame_relation_axioms) (blast intro: upload_blob_task_slot [OF assms(1)])

lemma upload_vault_header_slot:
  assumes "cloud_transport CT objects" "q \<noteq> VAULT_HEADER_BLOB_NAME"
  shows "obeys (same_object objects q) (upload_vault_header E C CT h d)"
proof -
  have "obeys (same_object objects q) (ct_upload_blob CT p VAULT_HEADER_BLOB_NAME)" for p
    using cloud_transport.upload [OF assms(1)] assms(2)
    by (fastforce simp: obeys_def same_object_def remote_only_def objects_at_def)
  then show ?thesis
    unfolding upload_vault_header_def write_owner_only_staging_file_def Let_def by (intro slot.obeys_rules)
qed

lemma in_backup_slot:
  assumes "same_object objects MANIFEST_BACKUP_BLOB_NAME w w'"
  shows "in_backup E objects mk vid w' p = in_backup E objects mk vid w p"
  using assms by (simp add: in_backup_def same_object_def)

definition pushed :: "env \<Rightarrow> cloud_env \<Rightarrow> ('r \<Rightarrow> string \<Rightarrow> bytes option) \<Rightarrow> bytes \<Rightarrow> bytes \<Rightarrow> uuid \<Rightarrow> u64 \<Rightarrow> db \<Rightarrow> 'r site world \<Rightarrow> bool" where
  "pushed E C objects sk mk vid n d w' \<longleftrightarrow> n + 1 < 2 ^ 64 \<and>
     (\<exists>t. manifest (store w') = published E t n d) \<and> in_backup E objects mk vid w' (sql_image C sk (manifest (store w')))"

definition named :: "env \<Rightarrow> string list \<Rightarrow> bool" where
  "named E bs \<longleftrightarrow> uuid_laws E \<and> (\<forall>b \<in> set bs. validate_blob_name_uuid_v4 E b = Inr ())"

text \<open>
  Everything before the upload of the manifest leaves the database and the backup in the cloud alone and fails in its
  own way.
\<close>

lemma push_transfer_stages:
  assumes "cloud_transport CT objects" "push_transfer E C CT progress sk mk h d config vid n raw bs w = (r, w')"
  obtains (refused) e where "r = Inl e" "manifest (store w') = manifest (store w)" "plain_error e \<or> (\<exists>x y. e = PushUploadFailed x y)"
      "named E bs \<longrightarrow> same_object objects MANIFEST_BACKUP_BLOB_NAME w w'"
  | (unpublished) w4 e where "manifest (store w4) = manifest (store w)" "named E bs \<longrightarrow> same_object objects MANIFEST_BACKUP_BLOB_NAME w w4" "push_manifest E C CT sk mk vid d n raw w4 = (Inl e, w')" "r = Inl e"
  | (headless) w4 c w5 e where "manifest (store w4) = manifest (store w)" "push_manifest E C CT sk mk vid d n raw w4 = (Inr c, w5)"
      "upload_vault_header E C CT h d w5 = (Inl e, w')" "r = Inl (VaultHeaderUploadFailed e)"
  | (finished) w4 c w5 rep where "manifest (store w4) = manifest (store w)" "push_manifest E C CT sk mk vid d n raw w4 = (Inr c, w5)"
      "upload_vault_header E C CT h d w5 = (Inr (), w')" "r = Inr rep" "pr_snapshot_counter_after rep = c"
proof -
  obtain r1 w1 where 1: "(if bs \<noteq> [] then with_err SyncTransport (ct_ensure_folder CT ''vault'') else ret ()) w = (r1, w1)" by fastforce
  have k1: "manifest (store w1) = manifest (store w)"
    using 1 same_manifestD [OF obeys_transport(4) [OF assms(1)]] by (auto simp: with_err_def split: if_splits prod.splits)
  have s1: "same_object objects MANIFEST_BACKUP_BLOB_NAME w w1"
    using 1 cloud_transport.ensure_folder [OF assms(1)]
    by (auto simp: with_err_def same_object_def remote_only_def objects_at_def split: if_splits prod.splits)
  have report: "\<exists>v'. (report_sync progress a b :: ('a site, sync_error, unit) prog) v = (Inr (), v') \<and> store v' = store v" for a b v
    by (simp add: report_sync_def progress_if_eq)
  show thesis
  proof (cases r1)
    case (Inl e)
    then have "r = Inl e" "w' = w1" "plain_error e" using assms(2) 1 by (auto simp: push_transfer_def Let_def bind_def with_err_Inl split: if_splits)
    with k1 s1 show thesis by (intro refused) auto
  next
    case (Inr u)
    obtain w2 where 2: "report_sync progress 0 (length bs) w1 = (Inr () :: sync_error + unit, w2)" "store w2 = store w1"
      using report by blast
    obtain r3 w3 where 3: "drive_blob_uploads E C CT bs d (max_concurrent config) w2 = (r3, w3)" by fastforce
    note k3 = same_manifestD [OF drive_blob_uploads_manifest [OF assms(1)] 3]
    have "named E bs \<longrightarrow> same_object objects MANIFEST_BACKUP_BLOB_NAME w2 w3"
      using obeysD [OF drive_blob_uploads_slot [OF assms(1)] 3] by (simp add: named_def)
    with s1 2(2) have s3: "named E bs \<longrightarrow> same_object objects MANIFEST_BACKUP_BLOB_NAME w w3"
      by (auto simp: same_object_def objects_at_def)
    show thesis
    proof (cases r3)
      case (Inl e)
      then obtain x y where "r = Inl (PushUploadFailed x y)" "w' = w3"
        using assms(2) 1 \<open>r1 = Inr u\<close> 2(1) 3 by (auto simp: push_transfer_def Let_def bind_def with_err_def split: prod.splits)
      with k1 2(2) k3 s3 show thesis by (intro refused [of "PushUploadFailed x y"]) auto
    next
      case (Inr done_names)
      obtain w4 where 4: "report_sync progress (length done_names) (length bs) w3 = (Inr () :: sync_error + unit, w4)"
          "store w4 = store w3" using report by blast
      have k4: "manifest (store w4) = manifest (store w)" "named E bs \<longrightarrow> same_object objects MANIFEST_BACKUP_BLOB_NAME w w4"
        using k1 2(2) k3 4(2) s3 by (simp_all add: same_object_def objects_at_def)
      obtain r5 w5 where 5: "push_manifest E C CT sk mk vid d n raw w4 = (r5, w5)" by fastforce
      obtain r6 w6 where 6: "upload_vault_header E C CT h d w5 = (r6, w6)" by fastforce
      note run = assms(2) [unfolded push_transfer_def Let_def] 1 \<open>r1 = Inr u\<close> 2(1) 3 Inr 4(1) 5 6
      show thesis
      proof (cases r5)
        case (Inl e)
        with run have "r = Inl e" "w' = w5" by (auto simp: bind_def with_err_def)
        with k4 5 Inl show thesis by (intro unpublished) auto
      next
        case c: (Inr c)
        show thesis
        proof (cases r6)
          case (Inl e)
          with run c have "r = Inl (VaultHeaderUploadFailed e)" "w' = w6" by (auto simp: bind_def with_err_def)
          with k4 5 6 c Inl show thesis by (intro headless) auto
        next
          case (Inr v)
          with run c have "w' = w6" "\<exists>rep. r = Inr rep \<and> pr_snapshot_counter_after rep = c" by (auto simp: bind_def with_err_def ret_def)
          with k4 5 6 c Inr finished show thesis by auto
        qed
      qed
    qed
  qed
qed

lemma header_kept:
  assumes "cloud_transport CT objects" "upload_vault_header E C CT h d w = (r, w')"
  shows "manifest (store w') = manifest (store w)" "in_backup E objects mk vid w' p = in_backup E objects mk vid w p"
proof -
  show "manifest (store w') = manifest (store w)"
    using same_manifestD [OF upload_vault_header_keeps [OF assms(1)] assms(2)] .
  show "in_backup E objects mk vid w' p = in_backup E objects mk vid w p"
    by (rule in_backup_slot [OF obeysD [OF upload_vault_header_slot [OF assms(1)] assms(2)]])
      (simp add: MANIFEST_BACKUP_BLOB_NAME_def VAULT_HEADER_BLOB_NAME_def)
qed

lemma push_transfer_outcome:
  assumes "cloud_transport CT objects" "aead_laws E" "length mk = 32"
    and "read_snapshot_counter (manifest (store w)) = Inr n" "raw = map_of (t_meta (manifest (store w))) ''last_synced_at''"
    and "push_transfer E C CT progress sk mk h d config vid n raw bs w = (r, w')"
  shows "(\<forall>rep. r = Inr rep \<longrightarrow> pr_snapshot_counter_after rep = n + 1 \<and> pushed E C objects sk mk vid n (manifest (store w)) w') \<and>
    (\<forall>e. r = Inl e \<longrightarrow> (case e of
       PushManifestBackupFailed x \<Rightarrow> restored n (manifest (store w)) (manifest (store w'))
     | RollbackFailed x y \<Rightarrow> only_sync_settings (manifest (store w)) (manifest (store w'))
     | VaultHeaderUploadFailed x \<Rightarrow> pushed E C objects sk mk vid n (manifest (store w)) w'
     | Conflict c \<Rightarrow> False
     | x \<Rightarrow> (named E bs \<longrightarrow> same_object objects MANIFEST_BACKUP_BLOB_NAME w w') \<and> (manifest (store w') = manifest (store w) \<or>
         (\<exists>y. e = SyncStorage y) \<and>
         manifest (store w') = sql_update_meta ''snapshot_counter'' (show_nat (n + 1)) (manifest (store w)))))"
  using assms(1,6)
proof (cases rule: push_transfer_stages)
  case (refused e)
  then show ?thesis by (cases e) auto
next
  case (unpublished w4 e)
  note out = push_manifest_outcome [OF assms(1-3) _ _ unpublished(3)]
  have "same_object objects MANIFEST_BACKUP_BLOB_NAME w4 w'" if "remote (store w') = remote (store w4)"
    using that by (simp add: same_object_def objects_at_def)
  with out assms(4,5) unpublished show ?thesis
    by (auto simp: same_object_def)
next
  case (headless w4 c w5 e)
  note out = push_manifest_outcome [OF assms(1-3) _ _ headless(2)]
  with headless assms(4,5) header_kept [OF assms(1) headless(3)] show ?thesis by (auto simp: pushed_def)
next
  case (finished w4 c w5 rep)
  note out = push_manifest_outcome [OF assms(1-3) _ _ finished(2)]
  with finished assms(4,5) header_kept [OF assms(1) finished(3)] show ?thesis by (auto simp: pushed_def)
qed

end
