(* ===== verification/Push_Props.thy ===== *)
theory Push_Props
  imports Push_Lemmas
begin

text \<open>
  What a push promises over every transport that satisfies the laws of \<open>cloud_transport\<close>: what is published, what is
  undone after a failure, and that a device behind the cloud does not overwrite it.
\<close>

section \<open>How a push ends\<close>

lemma sample_loop_Inl:
  assumes "sample_loop E C b w = Some (Inl e, w')"
  shows "plain_error e"
proof -
  define P where "P x \<longleftrightarrow> (\<forall>e. fst x = Inl e \<longrightarrow> plain_error e)" for x :: "(sync_error + nat) \<times> 'a site world"
  have "P (Inl e, w')"
  proof (rule sample_loop.raw_induct [where P = "\<lambda>_ _ _ _. P", OF _ assms])
    fix f E' C' b' w' and x :: "(sync_error + nat) \<times> 'a site world"
    assume IH: "\<And>E C b w y. f E C b w = Some y \<Longrightarrow> P y"
      and step: "(case try_next_u64 E' C' w' of
          (Inl e, w1) \<Rightarrow> Some (Inl (rng_error e), w1)
        | (Inr sample, w1) \<Rightarrow>
            if sample < zone_of b' then Some (Inr (sample mod b'), w1) else f E' C' b' w1) = Some x"
    then show "P x"
      by (cases rule: try_next_u64_cases [of E' C' w']) (auto simp: P_def rng_error_def split: if_splits dest: IH)
  qed
  then show ?thesis by (simp add: P_def)
qed

lemma shuffle_loop_Inl: "shuffle_loop E C i xs w = Some (Inl e, w') \<Longrightarrow> plain_error e"
  by (induction i arbitrary: xs w)
    (auto simp: ends_def ret_def obind_eq_Some unbiased_index_def dest: sample_loop_Inl split: if_splits)

lemma shuffle_outcome:
  assumes "fisher_yates_shuffle_with_system_rng E C xs w = Some (r, w')"
  shows "store w' = store w \<and> (\<forall>e. r = Inl e \<longrightarrow> plain_error e) \<and> (\<forall>ys. r = Inr ys \<longrightarrow> set ys = set xs)"
proof (cases "length xs < 2")
  case True
  with assms show ?thesis by (auto simp: fisher_yates_shuffle_with_system_rng_def ends_def ret_def)
next
  case False
  with assms have run: "shuffle_loop E C (length xs - 1) xs w = Some (r, w')"
    by (simp add: fisher_yates_shuffle_with_system_rng_def)
  from shuffle_loop_outcome [OF run] False have "touches {} w w'" "\<forall>ys. r = Inr ys \<longrightarrow> mset ys = mset xs" by auto
  moreover from this(2) have "\<forall>ys. r = Inr ys \<longrightarrow> set ys = set xs" by (auto dest: mset_eq_setD)
  ultimately show ?thesis using touchesD(1) shuffle_loop_Inl run by blast
qed

lemma push_vault_stages:
  assumes "push_vault E C CT progress sk mk h d config w = Some (r, w')"
  obtains (refused) e where "push_prepare E C CT sk mk h d config w = (Inl e, w')" "r = Inl e"
  | (unshuffled) vid n raw bs w1 e where "push_prepare E C CT sk mk h d config w = (Inr (vid, n, raw, bs), w1)"
      "store w' = store w1" "r = Inl e" "plain_error e"
  | (failed) vid n raw bs w1 bs' w2 e where "push_prepare E C CT sk mk h d config w = (Inr (vid, n, raw, bs), w1)"
      "store w2 = store w1" "set bs' = set bs" "push_transfer E C CT progress sk mk h d config vid n raw bs' w2 = (Inl e, w')" "r = Inl e"
  | (drained) vid n raw bs w1 bs' w2 rep w3 s where "push_prepare E C CT sk mk h d config w = (Inr (vid, n, raw, bs), w1)"
      "store w2 = store w1" "set bs' = set bs" "push_transfer E C CT progress sk mk h d config vid n raw bs' w2 = (Inr rep, w3)"
      "drain_pending_deletions E CT w3 = Some (s, w')" "r = (case s of Inl e \<Rightarrow> Inl e | Inr _ \<Rightarrow> Inr rep)"
proof -
  obtain r1 w1 where 1: "push_prepare E C CT sk mk h d config w = (r1, w1)" by fastforce
  show thesis
  proof (cases r1)
    case (Inl e)
    with assms 1 show thesis by (intro refused) (auto simp: push_vault_def ends_obind)
  next
    case (Inr a)
    obtain vid n raw bs where a: "a = (vid, n, raw, bs)" by (cases a) auto
    have "push_vault E C CT progress sk mk h d config w =
        obind (fisher_yates_shuffle_with_system_rng E C bs)
          (\<lambda>bs'. obind (ends (push_transfer E C CT progress sk mk h d config vid n raw bs')) (\<lambda>report.
             obind (drain_pending_deletions E CT) (\<lambda>_. ends (ret report)))) w1"
      unfolding push_vault_def by (subst ends_obind) (simp add: 1 Inr a)
    note run = assms [unfolded this]
    from run obtain r2 w2 where 2: "fisher_yates_shuffle_with_system_rng E C bs w1 = Some (r2, w2)"
      by (auto simp: obind_def [of "fisher_yates_shuffle_with_system_rng E C bs"] split: option.splits)
    note sh = shuffle_outcome [OF 2]
    show thesis
    proof (cases r2)
      case (Inl e)
      with run 1 \<open>r1 = Inr a\<close> a 2 sh show thesis
        by (intro unshuffled) (auto simp: obind_def [of "fisher_yates_shuffle_with_system_rng E C bs"])
    next
      case bs': (Inr bs')
      obtain r3 w3 where 3: "push_transfer E C CT progress sk mk h d config vid n raw bs' w2 = (r3, w3)" by fastforce
      have run3: "(case r3 of Inl e \<Rightarrow> Some (Inl e, w3)
          | Inr rep \<Rightarrow> obind (drain_pending_deletions E CT) (\<lambda>_. ends (ret rep)) w3) = Some (r, w')"
        using run 2 bs' 3 by (simp add: obind_def [of "fisher_yates_shuffle_with_system_rng E C bs"] ends_obind split: sum.splits)
      show thesis
      proof (cases r3)
        case (Inl e)
        with run3 1 \<open>r1 = Inr a\<close> a bs' 3 sh show thesis by (intro failed [of vid n raw bs w1 w2 bs' e]) auto
      next
        case (Inr rep)
        with run3 obtain s where "drain_pending_deletions E CT w3 = Some (s, w')"
            "r = (case s of Inl e \<Rightarrow> Inl e | Inr _ \<Rightarrow> Inr rep)"
          by (auto simp: obind_def ends_def ret_def split: option.splits sum.splits)
        with 1 \<open>r1 = Inr a\<close> a bs' 3 Inr sh show thesis by (intro drained [of vid n raw bs w1 w2 bs' rep w3 s]) auto
      qed
    qed
  qed
qed

lemma drain_keeps_slot:
  assumes "cloud_transport CT objects" "drain_pending_deletions E CT w = Some (s, w')"
  obtains D where "manifest (store w') = dequeue D (manifest (store w))" "\<forall>e. s = Inl e \<longrightarrow> plain_error e"
    "unqueued E q (fst ` set (t_pending_deletions (manifest (store w)))) \<longrightarrow> same_object objects q w w'"
proof -
  obtain r v D where d: "drain_pending_deletions E CT w = Some (r, v)" "manifest (store v) = dequeue D (manifest (store w))"
      "\<forall>e. r = Inl e \<longrightarrow> (\<exists>x. e = SyncStorage x)"
    by (rule drain_outcome [OF assms(1)])
  with assms(2) have eq: "r = s" "v = w'" by simp_all
  show thesis
  proof (rule that)
    show "manifest (store w') = dequeue D (manifest (store w))" "\<forall>e. s = Inl e \<longrightarrow> plain_error e"
      using d(2,3) eq by auto
    show "unqueued E q (fst ` set (t_pending_deletions (manifest (store w)))) \<longrightarrow> same_object objects q w w'"
      using drain_loop_objects [OF assms(2) [unfolded drain_pending_deletions_def] assms(1)] by (simp add: same_object_def)
  qed
qed

lemma queue_published: "t_pending_deletions (published E t n d) = t_pending_deletions d"
  by (simp add: published_def Let_def sql_update_meta_def)

text \<open>A push ends when the random source does not reject for ever.\<close>

lemma push_vault_ends:
  assumes "cloud_transport CT objects" "\<forall>t. \<exists>k. draw_u64 C (t + k) < 2 ^ 63"
    and "\<forall>cs. list_sync_chunks E (manifest (store w)) = Inr cs \<longrightarrow> length cs < 2 ^ 64"
  obtains r w' where "push_vault E C CT progress sk mk h d config w = Some (r, w')"
proof (cases "push_vault E C CT progress sk mk h d config w")
  case None
  obtain r1 w1 where 1: "push_prepare E C CT sk mk h d config w = (r1, w1)" by fastforce
  show thesis
  proof (cases r1)
    case (Inl e)
    with None 1 show thesis by (simp add: push_vault_def ends_obind)
  next
    case (Inr a)
    obtain vid n raw bs where a: "a = (vid, n, raw, bs)" by (cases a) auto
    from push_prepare_blobs [OF assms(1) 1 [unfolded Inr a]] obtain cs where
      "list_sync_chunks E (manifest (store w)) = Inr cs" "length bs \<le> length cs" by blast
    with assms(3) have "length bs - 1 + 1 < 2 ^ 64" by (auto intro: le_less_trans)
    from shuffle_loop_ends [OF assms(2) this] have "fisher_yates_shuffle_with_system_rng E C bs w1 \<noteq> None"
      by (auto simp: fisher_yates_shuffle_with_system_rng_def ends_def)
    moreover have "drain_pending_deletions E CT v = None \<Longrightarrow> False" for v
      using drain_outcome [OF assms(1), of E v] by (metis option.distinct(1))
    ultimately show thesis using None 1 Inr a
      by (auto simp: push_vault_def ends_obind obind_def ends_def split: prod.splits sum.splits option.splits)
  qed
qed (use that in auto)

text \<open>
  What a push can have done.  \<open>untouched\<close>: neither the manifest on the device nor the backup in the cloud changed.
  \<open>raised\<close>: only the counter on the device went up, and the cloud has the old backup.  \<open>publication\<close>: the counter
  went up by one, the time of the synchronisation was set, some queued deletions are done, and, unless it is itself
  queued for deletion, the backup in the cloud decrypts to the image of exactly this manifest.
\<close>

definition untouched :: "('r \<Rightarrow> string \<Rightarrow> bytes option) \<Rightarrow> 'r site world \<Rightarrow> 'r site world \<Rightarrow> bool" where
  "untouched objects w w' \<longleftrightarrow>
     manifest (store w') = manifest (store w) \<and> same_object objects MANIFEST_BACKUP_BLOB_NAME w w'"

definition raised :: "('r \<Rightarrow> string \<Rightarrow> bytes option) \<Rightarrow> u64 \<Rightarrow> 'r site world \<Rightarrow> 'r site world \<Rightarrow> bool" where
  "raised objects n w w' \<longleftrightarrow>
     manifest (store w') = sql_update_meta ''snapshot_counter'' (show_nat (n + 1)) (manifest (store w)) \<and>
     same_object objects MANIFEST_BACKUP_BLOB_NAME w w'"

definition publication ::
  "env \<Rightarrow> cloud_env \<Rightarrow> ('r \<Rightarrow> string \<Rightarrow> bytes option) \<Rightarrow> bytes \<Rightarrow> bytes \<Rightarrow> vault_header \<Rightarrow> u64 \<Rightarrow> 'r site world \<Rightarrow>
   'r site world \<Rightarrow> bool" where
  "publication E C objects sk mk h n w w' \<longleftrightarrow>
     (\<exists>t D vid. uuid_parse E (vh_vault_id h) = Some vid \<and>
        manifest (store w') = dequeue D (published E t n (manifest (store w))) \<and>
        read_snapshot_counter (manifest (store w')) = Inr (n + 1) \<and>
        (unqueued E MANIFEST_BACKUP_BLOB_NAME (fst ` set (t_pending_deletions (manifest (store w)))) \<longrightarrow>
           in_backup E objects mk vid w' (sql_image C sk (published E t n (manifest (store w))))))"

text \<open>The contract of a push from counter \<open>n\<close>: what holds after each way it may end.\<close>

definition push_contract ::
  "env \<Rightarrow> cloud_env \<Rightarrow> ('r \<Rightarrow> string \<Rightarrow> bytes option) \<Rightarrow> bytes \<Rightarrow> bytes \<Rightarrow> vault_header \<Rightarrow> u64 \<Rightarrow> 'r site world \<Rightarrow>
   sync_error + push_report \<Rightarrow> 'r site world \<Rightarrow> bool" where
  "push_contract E C objects sk mk h n w r w' \<longleftrightarrow>
    (case r of
       Inr rep \<Rightarrow> pr_snapshot_counter_after rep = n + 1 \<and> publication E C objects sk mk h n w w'
     | Inl (Conflict c) \<Rightarrow> sy_local_counter c = n \<and> n < sy_cloud_counter c \<and>
         manifest (store w') = manifest (store w) \<and> objects_at objects w' = objects_at objects w
     | Inl (PushManifestBackupFailed e) \<Rightarrow> restored n (manifest (store w)) (manifest (store w'))
     | Inl (RollbackFailed e e') \<Rightarrow> only_sync_settings (manifest (store w)) (manifest (store w'))
     | Inl (VaultHeaderUploadFailed e) \<Rightarrow> publication E C objects sk mk h n w w'
     | Inl (SyncStorage e) \<Rightarrow> untouched objects w w' \<or> raised objects n w w' \<or> publication E C objects sk mk h n w w'
     | Inl _ \<Rightarrow> untouched objects w w')"

lemma counter_dequeue [simp]: "read_snapshot_counter (dequeue D d) = read_snapshot_counter d"
  by (rule read_snapshot_counter_cong) (simp add: dequeue_def)

lemma pushed_publication:
  assumes "pushed E C objects sk mk vid n (manifest (store w)) w'" "uuid_parse E (vh_vault_id h) = Some vid"
    and "read_snapshot_counter (manifest (store w)) = Inr n"
  shows "publication E C objects sk mk h n w w'"
proof -
  obtain t where t: "n + 1 < 2 ^ 64" "manifest (store w') = published E t n (manifest (store w))"
      "in_backup E objects mk vid w' (sql_image C sk (manifest (store w')))" using assms(1) by (auto simp: pushed_def)
  with assms(2) counter_published [OF assms(3) t(1)] show ?thesis
    unfolding publication_def by (intro exI [of _ t] exI [of _ "{}"] exI [of _ vid]) simp
qed

lemma drain_Inl:
  assumes "cloud_transport CT objects" "drain_pending_deletions E CT w = Some (Inl e, w')"
  shows "\<exists>x. e = SyncStorage x"
  using drain_outcome [OF assms(1), of E w] assms(2) by (metis option.inject prod.inject)

lemma push_vault_run:
  assumes "cloud_transport CT objects" "aead_laws E" "uuid_laws E" "length mk = 32"
    and "read_snapshot_counter (manifest (store w)) = Inr n"
    and "push_vault E C CT progress sk mk h d config w = Some (r, w')"
  shows "push_contract E C objects sk mk h n w r w'"
  using assms(6)
proof (cases rule: push_vault_stages)
  case (refused e)
  note same = same_manifestD [OF push_prepare_keeps(1) [OF assms(1)] refused(1)]
    same_objectsD [OF push_prepare_keeps(2) [OF assms(1)] refused(1)]
  then have un: "untouched objects w w'" by (simp add: untouched_def same_object_def)
  show ?thesis
  proof (cases "plain_error e")
    case False
    with push_prepare_Inl [OF assms(1) refused(1) _ assms(5)] same refused(2) show ?thesis by (auto simp: push_contract_def)
  qed (use refused(2) un in \<open>cases e, auto simp: push_contract_def\<close>)
next
  case (unshuffled vid m raw bs w1 e)
  have "untouched objects w w'"
    using same_manifestD [OF push_prepare_keeps(1) [OF assms(1)] unshuffled(1)] unshuffled(2)
      same_objectsD [OF push_prepare_keeps(2) [OF assms(1)] unshuffled(1)]
    by (simp add: untouched_def same_object_def objects_at_def)
  with unshuffled show ?thesis by (cases e) (auto simp: push_contract_def)
next
  case (failed vid m raw bs w1 bs' w2 e)
  note prep = push_prepare_Inr [OF assms(1) failed(1)]
    same_manifestD [OF push_prepare_keeps(1) [OF assms(1)] failed(1)]
  have m: "m = n" "manifest (store w2) = manifest (store w)" using prep assms(5) failed(2) by auto
  have here: "same_object objects MANIFEST_BACKUP_BLOB_NAME w w2"
    using same_objectsD [OF push_prepare_keeps(2) [OF assms(1)] failed(1)] failed(2)
    by (simp add: same_object_def objects_at_def)
  have names: "named E bs'" using push_prepare_blobs [OF assms(1) failed(1)] failed(3) assms(3) by (simp add: named_def)
  from push_transfer_outcome [OF assms(1,2,4) _ _ failed(4) [unfolded m(1)]] prep m assms(5) names here failed(5)
  show ?thesis
    by (cases e) (auto simp: push_contract_def untouched_def raised_def same_object_def intro!: pushed_publication)
next
  case (drained vid m raw bs w1 bs' w2 rep w3 s)
  note prep = push_prepare_Inr [OF assms(1) drained(1)]
    same_manifestD [OF push_prepare_keeps(1) [OF assms(1)] drained(1)]
  have m: "m = n" "manifest (store w2) = manifest (store w)" using prep assms(5) drained(2) by auto
  from m prep push_transfer_outcome [OF assms(1,2,4) _ _ drained(4) [unfolded m(1)]] assms(5)
  have out: "pr_snapshot_counter_after rep = n + 1" "pushed E C objects sk mk vid n (manifest (store w)) w3" by auto
  then obtain t where t: "n + 1 < 2 ^ 64" "manifest (store w3) = published E t n (manifest (store w))"
      "in_backup E objects mk vid w3 (sql_image C sk (manifest (store w3)))" by (auto simp: pushed_def)
  obtain D where D: "manifest (store w') = dequeue D (manifest (store w3))" "\<forall>e. s = Inl e \<longrightarrow> plain_error e"
      "unqueued E MANIFEST_BACKUP_BLOB_NAME (fst ` set (t_pending_deletions (manifest (store w3)))) \<longrightarrow>
         same_object objects MANIFEST_BACKUP_BLOB_NAME w3 w'"
    by (rule drain_keeps_slot [OF assms(1) drained(5), of MANIFEST_BACKUP_BLOB_NAME])
  have "unqueued E MANIFEST_BACKUP_BLOB_NAME (fst ` set (t_pending_deletions (manifest (store w)))) \<longrightarrow>
     in_backup E objects mk vid w' (sql_image C sk (published E t n (manifest (store w))))"
    using D(3) t(2,3) by (auto simp: queue_published in_backup_slot [of objects w3 w'])
  then have "publication E C objects sk mk h n w w'"
    unfolding publication_def using prep D(1) t(2) counter_published [OF assms(5) t(1)] by auto
  moreover have "\<exists>x. e = SyncStorage x" if "s = Inl e" for e
    using drain_Inl [OF assms(1)] drained(5) that by blast
  ultimately show ?thesis using drained(6) out(1)
    by (cases s) (fastforce simp: push_contract_def)+
qed


text \<open>
  A push (C36) ends, over any transport and in any order of completion, and keeps its contract.  On success, and when
  only the upload of the header failed, the manifest is published with the counter one up.  A conflict is reported
  only when the cloud is ahead, never when it is behind, and then neither the device's manifest nor any object in the
  cloud has changed.  After a failed upload of the manifest the counter and the time of the last synchronisation are
  as they were; when that rollback fails too, nothing else in the manifest has changed.  After an error of the local
  database the push is in one of three states: nothing published and nothing changed, nothing published but the
  counter raised, or published.  After every other error, such as a failed upload of a blob, the manifest on the device
  and the backup in the cloud are as before.
\<close>

theorem push_vault_outcomes:
  assumes "cloud_transport CT objects" "aead_laws E" "uuid_laws E" "length mk = 32"
    and "read_snapshot_counter (manifest (store w)) = Inr n"
    and "\<forall>t. \<exists>k. draw_u64 C (t + k) < 2 ^ 63"
    and "\<forall>cs. list_sync_chunks E (manifest (store w)) = Inr cs \<longrightarrow> length cs < 2 ^ 64"
  shows "\<exists>r w'. push_vault E C CT progress sk mk h d config w = Some (r, w') \<and> push_contract E C objects sk mk h n w r w'"
proof -
  obtain r w' where "push_vault E C CT progress sk mk h d config w = Some (r, w')"
    by (rule push_vault_ends [OF assms(1,6,7)])
  with push_vault_run [OF assms(1-5)] show ?thesis by blast
qed


section \<open>A device behind the cloud\<close>

definition misreported :: "u64 \<Rightarrow> u64 \<Rightarrow> sync_error \<Rightarrow> bool" where
  "misreported m n e \<longleftrightarrow> (\<exists>c. e = Conflict c \<and> (sy_local_counter c \<noteq> m \<or> sy_cloud_counter c \<noteq> n))"

lemma misreported_simps [simp]:
  "\<not> misreported m n (SyncStorage a)" "\<not> misreported m n (SyncIo b)" "\<not> misreported m n (SyncTransport x)"
  "misreported m n (Conflict k) \<longleftrightarrow> sy_local_counter k \<noteq> m \<or> sy_cloud_counter k \<noteq> n"
  "plain_error e \<Longrightarrow> \<not> misreported m n e" "\<not> named_failure f v \<Longrightarrow> \<not> fails_with (misreported m n) f v"
  by (auto simp: misreported_def fails_with_def)

lemma snapshot_state_counter:
  "read_snapshot_counter d = Inr n \<Longrightarrow> \<exists>l. read_snapshot_state d = Inr (n, l)"
  by (auto simp: read_snapshot_counter_def read_snapshot_state_def result_simps)

lemma readable_or_fail:
  "plain_error e \<Longrightarrow> \<forall>x. e \<noteq> CloudManifestUnreadable x \<Longrightarrow>
     (case e of CloudManifestUnreadable _ \<Rightarrow> ret None | other \<Rightarrow> fail other) = fail e"
  by (cases e) auto

lemma push_prepare_stale:
  assumes "honest_transport CT objects" "no_faults E" "uuid_parse E (vh_vault_id h) = Some vid"
    and "in_backup E objects mk vid w p" "verifiable E C sk p d0" "read_snapshot_counter d0 = Inr n"
    and "read_snapshot_counter (manifest (store w)) = Inr m" "m < n"
    and "push_prepare E C CT sk mk h d config w = (r, w')"
  shows "\<exists>e. r = Inl e \<and> \<not> misreported m n e"
proof -
  obtain wire where wire: "objects_at objects w MANIFEST_BACKUP_BLOB_NAME = Some wire" "decrypt_manifest_backup E wire mk vid = Inr p"
    using assms(4) by (auto simp: in_backup_def)
  obtain l where l: "read_snapshot_state d0 = Inr (n, l)" using snapshot_state_counter [OF assms(6)] by blast
  have seen: "a = m \<and> (rd = Inr (Some (n, l)) \<or> (\<exists>e. rd = Inl e \<and> plain_error e \<and> (\<forall>x. e \<noteq> CloudManifestUnreadable x)))"
    if "read_required_u64_meta E ''snapshot_counter'' w = (Inr a, w1)" "read_optional_i64_meta E ''last_synced_at'' w1 = (Inr b, w2)"
      "db_query E (get_meta ''last_synced_at'') w2 = (Inr c, w3)" "read_cloud_snapshot_state E C CT d mk vid sk w3 = (rd, w4)"
    for a w1 b w2 c w3 rd w4
  proof -
    have "objects_at objects w3 MANIFEST_BACKUP_BLOB_NAME = Some wire"
      using same_objectsD [OF obeys_meta(3) that(1)] same_objectsD [OF obeys_meta(4) that(2)]
        same_objectsD [OF obeys_db_query(2) that(3)] wire(1) by simp
    from read_cloud_snapshot_reads [OF assms(1,2) this wire(2) assms(5) l that(4)] plain_snapshot_error that(4)
      read_counter_Inr [OF that(1)] assms(7)
    show ?thesis by fastforce
  qed
  have "\<not> is_ok r"
  proof
    assume "is_ok r"
    then obtain x where "r = Inr x" by (auto simp: is_ok_iff)
    with assms(9) show False
      unfolding push_prepare_def
      using assms(3,8)
      by (auto simp: bind_Inr Inr_eq_ok_or Inr_eq_map_err attempt_Inr readable_or_fail dest!: seen)
  qed
  moreover have "\<not> fails_with (misreported m n) (push_prepare E C CT sk mk h d config) w"
    unfolding push_prepare_def using assms(3,8)
    by (auto simp: fails_with_rules ok_or_eq_Inl attempt_Inr Inr_eq_ok_or readable_or_fail dest!: seen)
  ultimately show ?thesis using assms(9) by (cases r) (auto simp: fails_with_def)
qed

text \<open>
  Over a backend that reports a missing object only when it is missing, when no local call fails and the backup in the
  cloud decrypts and verifies on this device (C37), a device whose counter is behind the one in that backup does not
  overwrite it: its push is refused before anything is changed, on the device's manifest or in the cloud, and a
  reported conflict names the two counters.
\<close>

theorem stale_push_refused:
  assumes "honest_transport CT objects" "no_faults E" "uuid_parse E (vh_vault_id h) = Some vid"
    and "in_backup E objects mk vid w p" "verifiable E C sk p d0" "read_snapshot_counter d0 = Inr n"
    and "read_snapshot_counter (manifest (store w)) = Inr m" "m < n"
  shows "\<exists>e w'. push_vault E C CT progress sk mk h d config w = Some (Inl e, w') \<and>
     manifest (store w') = manifest (store w) \<and> objects_at objects w' = objects_at objects w \<and>
     (\<forall>c. e = Conflict c \<longrightarrow> sy_local_counter c = m \<and> sy_cloud_counter c = n)"
proof -
  have ct: "cloud_transport CT objects" using assms(1) by (rule honest_transport.axioms)
  obtain r w' where 1: "push_prepare E C CT sk mk h d config w = (r, w')" by fastforce
  from push_prepare_stale [OF assms 1] obtain e where e: "r = Inl e" "\<not> misreported m n e" by blast
  have "push_vault E C CT progress sk mk h d config w = Some (Inl e, w')"
    unfolding push_vault_def by (subst ends_obind) (simp add: 1 e(1))
  with e same_manifestD [OF push_prepare_keeps(1) [OF ct] 1] same_objectsD [OF push_prepare_keeps(2) [OF ct] 1]
  show ?thesis by (auto simp: misreported_def)
qed


section \<open>A backup that cannot be verified\<close>

lemma verify_Inr:
  assumes "verify_manifest_database_integrity E C p sk w = (Inr u, w')" "file_at w p = Some img"
  shows "\<exists>d. verifiable E C sk img d"
  using assms
  by (cases "sql_check C img")
    (auto simp: verify_manifest_database_integrity_def verifiable_def bind_Inr Inr_eq_map_err dest!: fs_read_Inr, metis)

lemma download_verified:
  assumes "cloud_transport CT objects" "in_backup E objects mk vid w p"
    and "download_manifest_backup E C CT d mk vid dest sk w = (Inr u, w')"
  shows "\<exists>d0. verifiable E C sk p d0"
proof -
  obtain q v v' x where
    1: "persist_manifest_database_atomically E C dest q v = (Inr (), v')" and
    2: "verify_manifest_database_integrity E C dest sk v' = (Inr x, w')"
    using assms(3) unfolding download_manifest_backup_def Let_def
    by (auto simp: bind_Inr attempt_Inr recover_Inr map_err_eq_Inr Inr_eq_map_err split: if_splits)
  have q: "file_at v' dest = Some q" by (rule persist_Inr [OF 1])
  moreover have "file_at w' dest = file_at v' dest" using touchesD(4) [OF verify_world [OF 2]] by simp
  moreover have "file_at w' dest = Some p"
    using assms(2) download_manifest_backup_Inr [OF assms(1) _ assms(3)] by (auto simp: in_backup_def)
  ultimately show ?thesis using verify_Inr [OF 2] by auto
qed

definition is_conflict :: "sync_error \<Rightarrow> bool" where
  "is_conflict e \<longleftrightarrow> (\<exists>c. e = Conflict c)"

lemma is_conflict_simps [simp]:
  "\<not> is_conflict (SyncStorage a)" "\<not> is_conflict (SyncIo b)" "\<not> is_conflict (SyncTransport x)" "is_conflict (Conflict c)"
  "plain_error e \<Longrightarrow> \<not> is_conflict e" "\<not> named_failure f v \<Longrightarrow> \<not> fails_with is_conflict f v"
  by (auto simp: is_conflict_def fails_with_def)

lemma plain_not_conflict:
  "plain_error x \<Longrightarrow> \<not> fails_with is_conflict (case x of CloudManifestUnreadable _ \<Rightarrow> ret None | other \<Rightarrow> fail other) w"
  by (cases x) simp_all

lemma recovered_none:
  "(case e of CloudManifestUnreadable _ \<Rightarrow> ret None | other \<Rightarrow> fail other) w = (Inr st, w') \<Longrightarrow> st = None \<and> w' = w"
  by (cases e) (auto simp: ret_def fail_def)

lemma unread_state:
  "(case Inl e of Inr _ \<Rightarrow> m
     | Inl (BackupTransport BlobNotFound) \<Rightarrow> ret None
     | Inl CryptoFailed \<Rightarrow> fail (CloudManifestUnreadable CryptoFailed)
     | Inl IntegrityCheckFailed \<Rightarrow> fail (CloudManifestUnreadable IntegrityCheckFailed)
     | Inl source \<Rightarrow> fail (SyncManifestBackup source)) w = (Inr x, w') \<Longrightarrow> x = None"
  by (auto simp: ret_def fail_def split: manifest_backup_error.splits transport_error.splits)

lemma unverifiable_snapshot:
  assumes "cloud_transport CT objects" "in_backup E objects mk vid w p" "\<forall>d0. \<not> verifiable E C sk p d0"
    and "read_cloud_snapshot_state E C CT d mk vid sk w = (r, w')"
  shows "r = Inr None \<or> (\<exists>e. r = Inl e \<and> plain_error e)"
proof (cases r)
  case (Inl e)
  with assms(4) plain_snapshot_error show ?thesis by blast
next
  case (Inr x)
  let ?q = "d @ [CONFLICT_PROBE_DB_FILE_NAME]"
  obtain w1 r2 w2 where 1: "remove_file_if_present E ?q w = (Inr (), w1)" and
    2: "download_manifest_backup E C CT d mk vid ?q sk w1 = (r2, w2)" and
    3: "\<exists>w3. (case r2 of Inr _ \<Rightarrow> read_cloud_snapshot_from_probe_db E C ?q sk
         | Inl (BackupTransport BlobNotFound) \<Rightarrow> ret None
         | Inl CryptoFailed \<Rightarrow> fail (CloudManifestUnreadable CryptoFailed)
         | Inl IntegrityCheckFailed \<Rightarrow> fail (CloudManifestUnreadable IntegrityCheckFailed)
         | Inl source \<Rightarrow> fail (SyncManifestBackup source)) w2 = (Inr x, w3)"
    using assms(4) Inr unfolding read_cloud_snapshot_state_def Let_def by (simp add: bind_Inr attempt_Inr) blast
  have "same_object objects MANIFEST_BACKUP_BLOB_NAME w w1" by (rule obeysD [OF slot.obeys_files(9) 1])
  then have "in_backup E objects mk vid w1 p" using assms(2) in_backup_slot by blast
  from download_verified [OF assms(1) this] 2 assms(3) obtain e where "r2 = Inl e" by (cases r2) blast+
  with 3 unread_state Inr show ?thesis by blast
qed

lemma push_manifest_no_conflict: "push_manifest E C CT sk mk vid d n raw w = (Inl e, w') \<Longrightarrow> e \<noteq> Conflict c"
proof -
  have "\<not> fails_with is_conflict (push_manifest E C CT sk mk vid d n raw) w"
    unfolding push_manifest_def
    by (auto simp: fails_with_rules is_conflict_def split: sum.splits)
  then show "push_manifest E C CT sk mk vid d n raw w = (Inl e, w') \<Longrightarrow> e \<noteq> Conflict c"
    unfolding fails_with_def is_conflict_def by blast
qed

lemma unverifiable_no_conflict:
  assumes "cloud_transport CT objects" "uuid_parse E (vh_vault_id h) = Some vid" "in_backup E objects mk vid w p"
    and "\<forall>d0. \<not> verifiable E C sk p d0"
  shows "\<not> fails_with is_conflict (push_prepare E C CT sk mk h d config) w"
proof -
  have seen: "rd = Inr None \<or> (\<exists>e. rd = Inl e \<and> plain_error e)"
    if "read_required_u64_meta E ''snapshot_counter'' w = (Inr a, w1)" "read_optional_i64_meta E ''last_synced_at'' w1 = (Inr b, w2)"
      "db_query E (get_meta ''last_synced_at'') w2 = (Inr c, w3)" "read_cloud_snapshot_state E C CT d mk vid sk w3 = (rd, w4)"
    for a w1 b w2 c w3 rd w4
  proof -
    have "same_object objects MANIFEST_BACKUP_BLOB_NAME w w3"
      using same_objectsD [OF obeys_meta(3) that(1)] same_objectsD [OF obeys_meta(4) that(2)]
        same_objectsD [OF obeys_db_query(2) that(3)] by (simp add: same_object_def)
    with assms(3) in_backup_slot have "in_backup E objects mk vid w3 p" by blast
    from unverifiable_snapshot [OF assms(1) this assms(4) that(4)] show ?thesis .
  qed
  show ?thesis
    unfolding push_prepare_def using assms(2)
    by (auto simp: fails_with_rules ok_or_eq_Inl attempt_Inr Inr_eq_ok_or plain_not_conflict dest!: seen recovered_none)
qed

lemma unverifiable_no_conflict_reported:
  assumes "cloud_transport CT objects" "uuid_parse E (vh_vault_id h) = Some vid" "in_backup E objects mk vid w p"
    and "\<forall>d0. \<not> verifiable E C sk p d0" "push_vault E C CT progress sk mk h d config w = Some (r, w')"
  shows "r \<noteq> Inl (Conflict c)"
proof
  assume r: "r = Inl (Conflict c)"
  from assms(5) show False
  proof (cases rule: push_vault_stages)
    case (refused e)
    with unverifiable_no_conflict [OF assms(1-4)] r show False unfolding fails_with_def is_conflict_def by blast
  next
    case (unshuffled vid' n raw bs w1 e)
    with r show False by auto
  next
    case (failed vid' n raw bs w1 bs' w2 e)
    from assms(1) failed(4) have "e \<noteq> Conflict c"
    proof (cases rule: push_transfer_stages)
      case (refused e')
      then show ?thesis by auto
    next
      case (unpublished w4 e')
      with push_manifest_no_conflict [OF unpublished(3)] show ?thesis by simp
    qed simp_all
    with failed(5) r show False by simp
  next
    case (drained vid' n raw bs w1 bs' w2 rep w3 s)
    have "\<forall>e. s = Inl e \<longrightarrow> plain_error e" by (rule drain_keeps_slot [OF assms(1) drained(5)]) blast
    with drained(6) r show False by (auto split: sum.splits)
  qed
qed

text \<open>
  A device that cannot verify the backup in the cloud (C38) reports no conflict, whatever the counter in that backup
  is, and a push that succeeds overwrites it: the cloud's backup then decrypts to the image of the device's own
  manifest, with the device's counter plus one, even when the old backup was ahead.  The comments take such a backup
  for one made under an older key, but every failure of the check on a backup that decrypts with the current key has
  the same effect, such as the schema version of a newer program.  The witness is a push to a cloud at counter 5 by a
  device at counter 0, which succeeds and leaves the cloud at counter 1.
\<close>

theorem unverifiable_backup_ignored:
  assumes "cloud_transport CT objects" "aead_laws E" "uuid_laws E" "length mk = 32"
    and "uuid_parse E (vh_vault_id h) = Some vid" "in_backup E objects mk vid w p" "\<forall>d0. \<not> verifiable E C sk p d0"
    and "read_snapshot_counter (manifest (store w)) = Inr n"
    and "push_vault E C CT progress sk mk h d config w = Some (r, w')"
  shows "(\<forall>c. r \<noteq> Inl (Conflict c)) \<and>
     (is_ok r \<and> unqueued E MANIFEST_BACKUP_BLOB_NAME (fst ` set (t_pending_deletions (manifest (store w)))) \<longrightarrow>
        (\<exists>d'. in_backup E objects mk vid w' (sql_image C sk d') \<and> read_snapshot_counter d' = Inr (n + 1) \<and>
           t_nodes d' = t_nodes (manifest (store w)) \<and> t_chunks d' = t_chunks (manifest (store w))))"
proof (intro conjI impI allI)
  show "r \<noteq> Inl (Conflict c)" for c by (rule unverifiable_no_conflict_reported [OF assms(1,5-7,9)])
  assume ok: "is_ok r \<and> unqueued E MANIFEST_BACKUP_BLOB_NAME (fst ` set (t_pending_deletions (manifest (store w))))"
  then obtain rep where "r = Inr rep" by (auto simp: is_ok_iff)
  with push_vault_run [OF assms(1-4,8,9)] have "publication E C objects sk mk h n w w'" by (simp add: push_contract_def)
  with ok assms(5) obtain t D where "read_snapshot_counter (dequeue D (published E t n (manifest (store w)))) = Inr (n + 1)"
      "in_backup E objects mk vid w' (sql_image C sk (published E t n (manifest (store w))))"
    by (auto simp: publication_def)
  then show "\<exists>d'. in_backup E objects mk vid w' (sql_image C sk d') \<and> read_snapshot_counter d' = Inr (n + 1) \<and>
      t_nodes d' = t_nodes (manifest (store w)) \<and> t_chunks d' = t_chunks (manifest (store w))"
    by (intro exI [of _ "published E t n (manifest (store w))"]) (simp add: published_def Let_def sql_update_meta_def)
qed


section \<open>The backup read back, and an interrupted push\<close>

text \<open>
  The backup of the manifest (C39), uploaded and later downloaded with the same manifest key while the object in the
  cloud is the same: a download that succeeds for the vault it was made for leaves exactly the exported database image
  in the destination, and one that succeeds for another vault exhibits a forgery against the cipher.
\<close>

theorem manifest_backup_roundtrip:
  assumes "cloud_transport CT objects" "aead_laws E" "uuid_laws E" "length mk = 32"
    and "upload_manifest_backup E C CT sk mk vid d w = (Inr (), w1)"
    and "objects_at objects w2 MANIFEST_BACKUP_BLOB_NAME = objects_at objects w1 MANIFEST_BACKUP_BLOB_NAME"
    and "download_manifest_backup E C CT d' mk vid' dest sk' w2 = (Inr (), w3)"
  shows "vid' = vid \<and> file_at w3 dest = Some (sql_image C sk (manifest (store w))) \<or>
     (\<exists>n c t. objects_at objects w1 MANIFEST_BACKUP_BLOB_NAME = Some (n @ c @ t) \<and>
        aead_forgery E mk n c t (uuid_bytes E vid) (uuid_bytes E vid'))"
proof -
  obtain n c t where up: "length n = 24" "length t = 16"
    "aead_encrypt E mk n (uuid_bytes E vid) (sql_image C sk (manifest (store w))) = Some (c, t)"
    "objects_at objects w1 MANIFEST_BACKUP_BLOB_NAME = Some (n @ c @ t)"
    by (rule upload_manifest_backup_Inr [OF assms(1,2,4,5)])
  from download_manifest_backup_Inr [OF assms(1) _ assms(7)] up(4) assms(6) obtain p where
    p: "aead_decrypt E mk n (uuid_bytes E vid') c t = Some p" "file_at w3 dest = Some p"
    by (auto simp: wire_parts [OF up(1,2)] ok_or_eq_Inr)
  show ?thesis
  proof (cases "vid' = vid")
    case True
    with aead_lawsD(3) [OF assms(2,4) up(1,3)] p show ?thesis by simp
  next
    case False
    then have "uuid_bytes E vid' \<noteq> uuid_bytes E vid" using uuid_lawsD(3) [OF assms(3)] by auto
    with up(3,4) p(1) show ?thesis unfolding aead_forgery_def by blast
  qed
qed

text \<open>
  An I/O error between the increment of the snapshot counter and the upload (C40) ends the push with the counter already
  raised and nothing in the cloud: the rollback is only for a failed upload.  The device then counts as one ahead, so
  a manifest that another device publishes with that number is not seen as a conflict.
\<close>

theorem interrupted_push_keeps_counter:
  assumes "read_snapshot_counter (manifest (store w)) = Inr n" "n + 1 < 2 ^ 64"
    and "os_fault E (tick w) = None" "os_fault E (Suc (tick w)) = Some (m, k)"
  shows "\<exists>w'. push_manifest E C CT sk mk vid d n raw w = (Inl (SyncStorage (Database m)), w') \<and>
     read_snapshot_counter (manifest (store w')) = Inr (n + 1) \<and> remote (store w') = remote (store w)"
proof -
  let ?d = "sql_update_meta ''snapshot_counter'' (show_nat (n + 1)) (manifest (store w))"
  let ?w1 = "(next_tick w)\<lparr>store := (store w)\<lparr>manifest := ?d\<rparr>\<rparr>"
  have "increment_snapshot_counter (manifest (store w)) = Inr (n + 1, ?d)"
    using assms(1,2) by (simp add: increment_snapshot_counter_def checked_add_u64_def)
  then have "db_update E increment_snapshot_counter w = (Inr (n + 1), ?w1)" using assms(3) by (simp add: db_update_def)
  moreover have "db_mutate E g ?w1 = (Inl (Database m), next_tick ?w1)" for g
    using assms(4) by (simp add: db_mutate_def mutate_def)
  ultimately have "push_manifest E C CT sk mk vid d n raw w = (Inl (SyncStorage (Database m)), next_tick ?w1)"
    by (simp add: push_manifest_def bind_def with_err_def)
  with read_snapshot_counter_update [OF assms(2,1)] show ?thesis by simp
qed

end
