(* ===== verification/Push_Example.thy ===== *)
theory Push_Example
  imports Push_Props
begin

text \<open>A first push to an empty cloud, and a push that finds the cloud ahead: the witnesses for \<open>Push_Props\<close>.\<close>

definition ex_at :: "(string \<times> bytes) list \<Rightarrow> db \<Rightarrow> nat \<Rightarrow> (path \<times> bytes) list \<Rightarrow> mock_cloud site world" where
  "ex_at bs d n fs = (ex_device bs [] d)\<lparr>files := fs, tick := n\<rparr>"

definition ex_header :: vault_header where
  "ex_header = \<lparr>vh_vault_id = ''1'', vh_schema_version = 1, vh_tier = 1, vh_argon2_salt = [],
     vh_argon2_params = \<lparr>ap_memory_cost = 65536, ap_time_cost = 3, ap_parallelism = 4\<rparr>,
     vh_key_file_blake3 = None, vh_recovery_slots = [], vh_name = None\<rparr>"

abbreviation "ex_ct a \<equiv> mock_transport True (ex_env a)"

text \<open>The calls a push makes, on such a device.\<close>

lemma ex_calls:
  "fs_read (ex_env a) p (ex_at bs d n fs) = (case map_of fs p of None \<Rightarrow> (Inl not_found, ex_at bs d (Suc n) fs) | Some b \<Rightarrow> (Inr b, ex_at bs d (Suc n) fs))"
  "fs_exists (ex_env a) p (ex_at bs d n fs) =
     (Inr (map_of fs p \<noteq> None \<or> p \<in> {[], [''v''], [''v'', ''pending''], [''v'', ''cache'']}), ex_at bs d (Suc n) fs)"
  "fs_sync (ex_env a) (ex_at bs d n fs) = (Inr (), ex_at bs d (Suc n) fs)"
  "fs_write (ex_env a) [''v'', x] b (ex_at bs d n fs) = (Inr (), ex_at bs d (Suc n) (AList.update [''v'', x] b fs))"
  "fs_create_dir_all (ex_env a) [''v''] (ex_at bs d n []) = (Inr (), ex_at bs d (Suc n) [])"
  "fs_create_dir_all (ex_env a) [''v'', ''pending''] (ex_at bs d n []) = (Inr (), ex_at bs d (Suc n) [])"
  "fs_create_dir_all (ex_env a) [''v'', ''cache''] (ex_at bs d n []) = (Inr (), ex_at bs d (Suc n) [])"
  "db_query (ex_env a) f (ex_at bs d n fs) = (f d, ex_at bs d (Suc n) fs)"
  "query (ex_env a) g (ex_at bs d n fs) = (g (store (ex_at bs d n fs)), ex_at bs d (Suc n) fs)"
  "generate_nonce (ex_env a) (ex_at bs d n fs) = (Inr (replicate 24 (of_nat n)), ex_at bs d (Suc n) fs)"
  "ct_ensure_folder (mock_transport t (ex_env a)) x (ex_at bs d n fs) = (Inr (), ex_at bs d n fs)"
  by (simp_all add: run_simps fs_create_dir_all_def ex_at_def ex_device_def db_query_eq
      generate_nonce_def mock_transport_def default_ensure_folder_def split: option.split)

lemma ex_remove: "remove_file_if_present (ex_env a) p (ex_at bs d n fs) = (Inr (), ex_at bs d (Suc n) (AList.delete p fs))"
proof (cases "map_of fs p")
  case None
  then have "AList.delete p fs = fs" by (simp add: map_of_eq_None_iff)
  with None show ?thesis by (simp add: remove_file_if_present_def run_simps ex_at_def ex_device_def not_found_def)
qed (simp add: remove_file_if_present_def run_simps ex_at_def ex_device_def)

lemma ex_transport:
  "map_of fs p = Some b \<Longrightarrow> ct_upload_blob (mock_transport t (ex_env a)) p q (ex_at bs d n fs) = (Inr (), ex_at (AList.update q b bs) d (Suc n) fs)"
  "map_of bs q = None \<Longrightarrow> ct_download_blob (mock_transport t (ex_env a)) q p (ex_at bs d n fs) = (Inl BlobNotFound, ex_at bs d n fs)"
  "map_of bs q = Some b \<Longrightarrow> ct_download_blob (mock_transport t (ex_env a)) q [''v'', x] (ex_at bs d n fs) =
     (Inr (), ex_at bs d (Suc n) (AList.update [''v'', x] b fs))"
  by (simp_all add: cloud_run_simps ex_at_def ex_device_def)

lemmas ex_run = bind_def with_err_def attempt_def Let_def lift_def fail_def ret_def get_world_def ex_calls ex_remove ex_transport
  ensure_staging_directory_def write_owner_only_def write_owner_only_staging_file_def parent_dir_def
  MANIFEST_BACKUP_UPLOAD_STAGING_FILE_NAME_def MANIFEST_BACKUP_DOWNLOAD_STAGING_FILE_NAME_def MANIFEST_EXPORT_FILE_NAME_def
  CONFLICT_PROBE_DB_FILE_NAME_def VAULT_HEADER_UPLOAD_STAGING_FILE_NAME_def

lemma ex_meta: "get_meta ''snapshot_counter'' ex_base = Inr (Some ''0'')" "get_meta ''last_synced_at'' ex_base = Inr None"
    "parse_u64 ''0'' = Some 0" "list_sync_chunks (ex_env a) ex_base = Inr []" "uuid_parse (ex_env a) ''1'' = Some 1"
  by (simp_all add: get_meta_def ex_base_def empty_db_def list_sync_chunks_def map_filter_simps ex_uuid_text digit_val_def parse_u64_def)

lemma ex_first_state:
  "read_cloud_snapshot_state (ex_env a) ex_cloud (ex_ct a) [''v''] mk vid sk (ex_at [] d 13 []) = (Inr None, ex_at [] d 21 [])"
  by (simp add: read_cloud_snapshot_state_def download_manifest_backup_def ex_run)

lemma ex_prepared_from:
  assumes "read_cloud_snapshot_state (ex_env a) C (ex_ct a) [''v''] ex_key 1 ex_key (ex_at bs ex_base 13 []) = (r, ex_at bs ex_base n [])"
    and "r = Inr None \<or> (\<exists>e. r = Inl (CloudManifestUnreadable e))"
  shows "push_prepare (ex_env a) C (ex_ct a) ex_key ex_key ex_header [''v''] default_sync_config (ex_at bs ex_base 10 []) =
     (Inr (1, 0, None, []), ex_at bs ex_base (Suc n) [])"
  using assms by (auto simp: push_prepare_def validate_sync_config_def default_sync_config_def read_required_u64_meta_def read_optional_i64_meta_def
      ex_run ex_meta ex_header_def)

lemma ex_prepared:
  "push_prepare (ex_env a) ex_cloud (ex_ct a) ex_key ex_key ex_header [''v''] default_sync_config (ex_at [] ex_base 10 []) =
     (Inr (1, 0, None, []), ex_at [] ex_base 22 [])"
  by (simp add: push_prepare_def validate_sync_config_def default_sync_config_def read_required_u64_meta_def read_optional_i64_meta_def
      ex_run ex_meta ex_first_state ex_header_def)

definition ex_wire :: "nat \<Rightarrow> bytes \<Rightarrow> bytes \<Rightarrow> uuid \<Rightarrow> bytes" where
  "ex_wire t sk mk vid = replicate 24 (of_nat t) @ sk @ ex_tag [] mk (uuid_bytes (ex_env []) vid)"

lemma ex_store: "store (ex_at bs d n fs) = \<lparr>manifest = d, remote = \<lparr>mc_blobs = bs, mc_failure_paths = []\<rparr>\<rparr>"
  by (simp add: ex_at_def ex_device_def)

lemma ex_backup_upload:
  "\<exists>t m. upload_manifest_backup (ex_env a) C (ex_ct a) sk mk vid [''v''] (ex_at bs d n []) =
     (Inr (), ex_at (AList.update MANIFEST_BACKUP_BLOB_NAME (replicate 24 (of_nat t) @ sql_image C sk d @ ex_tag a mk (uuid_bytes (ex_env a) vid)) bs) d m [])"
  if "live_open C sk = Inr ()" for C
  unfolding upload_manifest_backup_def run_vacuum_into_export_def encrypt_manifest_backup_def
  using that by (simp add: ex_run ex_store del: of_nat_Suc) (intro exI, rule refl)

lemma ex_header_upload:
  "header_to_json C (cloud_header h) = Some j \<Longrightarrow>
     \<exists>m. upload_vault_header (ex_env a) C (ex_ct a) h [''v''] (ex_at bs d n []) = (Inr (), ex_at (AList.update VAULT_HEADER_BLOB_NAME j bs) d m [])"
  unfolding upload_vault_header_def by (simp add: ex_run) (intro exI, rule refl)

lemma ex_changes:
  "f d = Inr (x, d') \<Longrightarrow> db_update (ex_env a) f (ex_at bs d n fs) = (Inr x, ex_at bs d' (Suc n) fs)"
  "g n d = Inr d' \<Longrightarrow> db_mutate (ex_env a) g (ex_at bs d n fs) = (Inr (), ex_at bs d' (Suc n) fs)"
  by (simp_all add: db_update_def db_mutate_def mutate_def ex_at_def ex_device_def next_tick_def)

definition ex_pushed :: "nat \<Rightarrow> db" where
  "ex_pushed n = published (ex_env []) n 0 ex_base"

lemma ex_push_manifest:
  assumes "live_open C ex_key = Inr ()"
  shows "\<exists>t m. push_manifest (ex_env a) C (ex_ct a) ex_key ex_key 1 [''v''] 0 None (ex_at bs ex_base n []) =
     (Inr 1, ex_at (AList.update MANIFEST_BACKUP_BLOB_NAME
       (replicate 24 (of_nat t) @ sql_image C ex_key (ex_pushed (Suc n)) @ ex_tag a ex_key (uuid_bytes (ex_env a) 1)) bs) (ex_pushed (Suc n)) m [])"
proof -
  have "increment_snapshot_counter ex_base = Inr (1, sql_update_meta ''snapshot_counter'' (show_nat 1) ex_base)"
    by (simp add: increment_snapshot_counter_def read_snapshot_counter_def ex_base_def parse_u64_def digit_val_def checked_add_u64_def)
  note 1 = ex_changes(1) [where f = increment_snapshot_counter, OF this, where bs = bs and n = n and fs = "[]"]
  have "set_meta ''last_synced_at'' (show_int (now_unix_seconds (ex_env a) (Suc n))) (sql_update_meta ''snapshot_counter'' (show_nat 1) ex_base) =
      Inr (ex_pushed (Suc n))" by (simp add: set_last_synced ex_pushed_def published_def Let_def now_unix_seconds_def)
  note 2 = ex_changes(2) [where g = "\<lambda>t. set_meta ''last_synced_at'' (show_int (now_unix_seconds (ex_env a) t))", OF this, where bs = bs and fs = "[]"]
  obtain t m where 3: "upload_manifest_backup (ex_env a) C (ex_ct a) ex_key ex_key 1 [''v''] (ex_at bs (ex_pushed (Suc n)) (Suc (Suc n)) []) =
     (Inr (), ex_at (AList.update MANIFEST_BACKUP_BLOB_NAME
       (replicate 24 (of_nat t) @ sql_image C ex_key (ex_pushed (Suc n)) @ ex_tag a ex_key (uuid_bytes (ex_env a) 1)) bs) (ex_pushed (Suc n)) m [])"
    using ex_backup_upload [OF assms] by blast
  show ?thesis using 1 2 3 by (simp add: push_manifest_def bind_def with_err_def attempt_def ret_def) blast
qed

lemma ex_drained: "drain_pending_deletions (ex_env a) CT (ex_at bs (ex_pushed k) n fs) = Some (Inr 0, ex_at bs (ex_pushed k) (Suc n) fs)"
proof -
  have "list_pending_deletions PENDING_DELETIONS_BATCH_LIMIT (ex_pushed k) = Inr []"
    by (simp add: list_pending_deletions_def ex_pushed_def queue_published ex_base_def empty_db_def
        PENDING_DELETIONS_BATCH_LIMIT_def i64_or_err_def i64_try_from_def width_simps)
  then show ?thesis unfolding drain_pending_deletions_def
    by (subst drain_loop.simps) (simp add: ex_calls)
qed

text \<open>From the end of the check on, the push of a device without blobs succeeds.\<close>

lemma ex_push:
  assumes "live_open C ex_key = Inr ()" "header_to_json C (cloud_header ex_header) = Some j"
    and "push_prepare (ex_env a) C (ex_ct a) ex_key ex_key ex_header [''v''] default_sync_config w = (Inr (1, 0, None, []), ex_at bs ex_base n [])"
  shows "\<exists>t m. push_vault (ex_env a) C (ex_ct a) False ex_key ex_key ex_header [''v''] default_sync_config w =
     Some (Inr \<lparr>pr_blobs_uploaded = 0, pr_uploaded_blob_names = [], pr_snapshot_counter_after = 1\<rparr>,
       ex_at (AList.update VAULT_HEADER_BLOB_NAME j (AList.update MANIFEST_BACKUP_BLOB_NAME
       (replicate 24 (of_nat t) @ sql_image C ex_key (ex_pushed (Suc n)) @ ex_tag a ex_key (uuid_bytes (ex_env a) 1)) bs)) (ex_pushed (Suc n)) m [])"
proof -
  obtain t m where 1: "push_manifest (ex_env a) C (ex_ct a) ex_key ex_key 1 [''v''] 0 None (ex_at bs ex_base n []) =
     (Inr 1, ex_at (AList.update MANIFEST_BACKUP_BLOB_NAME
       (replicate 24 (of_nat t) @ sql_image C ex_key (ex_pushed (Suc n)) @ ex_tag a ex_key (uuid_bytes (ex_env a) 1)) bs) (ex_pushed (Suc n)) m [])"
    (is "_ = (_, ex_at ?bs _ _ _)") using ex_push_manifest [OF assms(1)] by blast
  obtain k where 2: "upload_vault_header (ex_env a) C (ex_ct a) ex_header [''v''] (ex_at ?bs (ex_pushed (Suc n)) m []) =
      (Inr (), ex_at (AList.update VAULT_HEADER_BLOB_NAME j ?bs) (ex_pushed (Suc n)) k [])"
    using ex_header_upload [OF assms(2)] by blast
  have "push_transfer (ex_env a) C (ex_ct a) False ex_key ex_key ex_header [''v''] default_sync_config 1 0 None [] (ex_at bs ex_base n []) =
     (Inr \<lparr>pr_blobs_uploaded = 0, pr_uploaded_blob_names = [], pr_snapshot_counter_after = 1\<rparr>,
       ex_at (AList.update VAULT_HEADER_BLOB_NAME j ?bs) (ex_pushed (Suc n)) k [])"
    using 1 2 by (simp add: push_transfer_def bind_def with_err_def ret_def report_sync_def progress_if_def drive_blob_uploads_def upload_pool.simps)
  then have "push_vault (ex_env a) C (ex_ct a) False ex_key ex_key ex_header [''v''] default_sync_config w =
     Some (Inr \<lparr>pr_blobs_uploaded = 0, pr_uploaded_blob_names = [], pr_snapshot_counter_after = 1\<rparr>,
       ex_at (AList.update VAULT_HEADER_BLOB_NAME j ?bs) (ex_pushed (Suc n)) (Suc k) [])"
    by (simp add: push_vault_def ends_obind assms(3) obind_def fisher_yates_shuffle_with_system_rng_def ends_def ret_def ex_drained)
  then show ?thesis by blast
qed

theorem push_vault_outcomes_witness:
  "\<exists>r w'. push_vault (ex_env []) ex_cloud (ex_ct []) False ex_key ex_key ex_header [''v''] default_sync_config (ex_at [] ex_base 10 []) = Some (r, w') \<and>
     push_contract (ex_env []) ex_cloud mock_objects ex_key ex_key ex_header 0 (ex_at [] ex_base 10 []) r w' \<and> is_ok r"
proof -
  have "read_snapshot_counter (manifest (store (ex_at [] ex_base 10 []))) = Inr 0"
    by (simp add: ex_store read_snapshot_counter_def ex_base_def parse_u64_def digit_val_def)
  moreover have "\<forall>t. \<exists>k. draw_u64 ex_cloud (t + k) < 2 ^ 63" by (simp add: less_trans [OF mod_less_divisor])
  moreover have "\<forall>cs. list_sync_chunks (ex_env []) (manifest (store (ex_at [] ex_base 10 []))) = Inr cs \<longrightarrow> length cs < 2 ^ 64"
    by (simp add: ex_store ex_meta)
  ultimately have "\<exists>r w'. push_vault (ex_env []) ex_cloud (ex_ct []) False ex_key ex_key ex_header [''v''] default_sync_config (ex_at [] ex_base 10 []) = Some (r, w') \<and>
     push_contract (ex_env []) ex_cloud mock_objects ex_key ex_key ex_header 0 (ex_at [] ex_base 10 []) r w'"
    by (rule push_vault_outcomes [OF mock.cloud_transport_axioms ex_aead_laws ex_uuid_laws ex_key_len])
  with ex_push [OF _ _ ex_prepared, where j = "[1]" and a = "[]"] show ?thesis by auto
qed

text \<open>The cloud holds a backup at counter 5; the device is at 0.\<close>

theorem stale_push_refused_witness:
  "\<exists>e w'. push_vault (ex_env []) ex_cloud (mock_transport False (ex_env [])) False ex_key ex_key ex_header [''v''] default_sync_config
       (ex_at [(MANIFEST_BACKUP_BLOB_NAME, ex_wire 3 ex_key ex_key 1)] ex_base 10 []) = Some (Inl e, w') \<and>
     manifest (store w') = ex_base"
proof -
  let ?w = "ex_at [(MANIFEST_BACKUP_BLOB_NAME, ex_wire 3 ex_key ex_key 1)] ex_base 10 []"
  have held: "in_backup (ex_env []) mock_objects ex_key 1 ?w ex_key"
    by (simp add: in_backup_def objects_at_def mock_objects_def ex_store ex_wire_def wire_parts ex_tag_def)
  have ok: "verifiable (ex_env []) ex_cloud ex_key ex_key ex_ahead"
  proof -
    have "validate_manifest_meta (ex_env []) ex_base = Inr ()" using ex_base_inv by (simp add: db_inv_def meta_inv_def)
    from validate_after_counter_update [OF this, of 5] show ?thesis
      by (simp add: verifiable_def validate_schema_integrity_def ex_ahead_def ex_show)
  qed
  have vid: "uuid_parse (ex_env []) (vh_vault_id ex_header) = Some 1" by (simp add: ex_header_def ex_meta)
  have counters: "read_snapshot_counter ex_ahead = Inr 5" "read_snapshot_counter (manifest (store ?w)) = Inr 0" "(0 :: nat) < 5"
    by (simp_all add: ex_store read_snapshot_counter_def ex_ahead_def map_of_sql_update_meta ex_base_def parse_u64_def digit_val_def)
  obtain e w' where "push_vault (ex_env []) ex_cloud (mock_transport False (ex_env [])) False ex_key ex_key ex_header [''v''] default_sync_config ?w =
      Some (Inl e, w')" "manifest (store w') = manifest (store ?w)"
    using stale_push_refused [OF plain_mock.honest_transport_axioms [of "ex_env []"] ex_no_faults vid held ok counters, of False "[''v'']" default_sync_config] by blast
  then show ?thesis by (simp add: ex_store)
qed


section \<open>A backup of a newer program\<close>

definition ex_newer :: db where
  "ex_newer = ex_ahead\<lparr>t_meta := AList.update ''schema_version'' ''11'' (t_meta ex_ahead)\<rparr>"

text \<open>An image ends with a byte that tells the programs apart.\<close>

definition ex_old_cloud :: cloud_env where
  "ex_old_cloud = ex_cloud\<lparr>sql_image := (\<lambda>k d. k @ [0]), sql_open := (\<lambda>k b. if b = k @ [1] then Inr ex_newer else Inl WrongKey),
     temp_name := (\<lambda>t. ''t'')\<rparr>"

lemma ex_old_sel [simp]:
  "sql_image ex_old_cloud k d = k @ [0]" "sql_open ex_old_cloud k b = (if b = k @ [1] then Inr ex_newer else Inl WrongKey)"
  "temp_name ex_old_cloud t = ''t''" "sql_check ex_old_cloud b = (''ok'', None)" "live_open ex_old_cloud k = Inr ()"
  "header_to_json ex_old_cloud h = Some [1]"
  by (simp_all add: ex_old_cloud_def)

definition ex_newer_wire :: bytes where
  "ex_newer_wire = replicate 24 3 @ (ex_key @ [1]) @ ex_tag [] ex_key (uuid_bytes (ex_env []) 1)"

lemma ex_files:
  "fs_create_temp (ex_env a) [''v'', x] (ex_at bs d n fs) = (Inr (), ex_at bs d (Suc n) (AList.update [''v'', x] [] fs))"
  "map_of fs p = Some c \<Longrightarrow> fs_append (ex_env a) p b (ex_at bs d n fs) = (Inr (), ex_at bs d (Suc n) (AList.update p (c @ b) fs))"
  "map_of fs p = Some b \<Longrightarrow> map_of fs [''v'', x] = None \<Longrightarrow> x \<noteq> ''pending'' \<Longrightarrow> x \<noteq> ''cache'' \<Longrightarrow>
     fs_persist_noclobber (ex_env a) p [''v'', x] (ex_at bs d n fs) = (Inr (), ex_at bs d (Suc n) (AList.update [''v'', x] b (AList.delete p fs)))"
  "draw f (ex_at bs d n fs) = (Inr (f n), ex_at bs d (Suc n) fs)"
  by (simp_all add: run_simps fs_create_temp_def fs_persist_noclobber_def ex_at_def ex_device_def)

lemma ex_newer_unverifiable: "\<not> verifiable (ex_env []) ex_old_cloud ex_key (ex_key @ [1]) d0"
  by (auto simp: verifiable_def validate_manifest_meta_eq_Inr ex_newer_def map_of_update SCHEMA_VERSIONS_def)

lemma ex_decrypts:
  "decrypt_manifest_backup (ex_env a) (replicate 24 x @ p @ ex_tag a ex_key (uuid_bytes (ex_env a) 1)) ex_key 1 = Inr p"
  by (subst wire_parts) (simp_all add: ex_tag_len)

lemma ex_newer_decrypts: "decrypt_manifest_backup (ex_env []) ex_newer_wire ex_key 1 = Inr (ex_key @ [1])"
  unfolding ex_newer_wire_def by (rule ex_decrypts)

lemma ex_newer_state:
  "\<exists>e. read_cloud_snapshot_state (ex_env []) ex_old_cloud (ex_ct []) [''v''] ex_key 1 ex_key
      (ex_at [(MANIFEST_BACKUP_BLOB_NAME, ex_newer_wire)] ex_base 13 []) =
     (Inl (CloudManifestUnreadable e), ex_at [(MANIFEST_BACKUP_BLOB_NAME, ex_newer_wire)] ex_base 33 [])"
proof -
  have bad: "verify_manifest_database_integrity (ex_env []) ex_old_cloud p ex_key (ex_at bs d n fs) =
      (Inl IntegrityCheckFailed, ex_at bs d (Suc n) fs)" if "map_of fs p = Some (ex_key @ [1])" for p bs d n fs
  proof -
    have "validate_manifest_meta (ex_env []) ex_newer \<noteq> Inr ()"
      by (simp add: validate_manifest_meta_eq_Inr ex_newer_def map_of_update SCHEMA_VERSIONS_def)
    then show ?thesis using that
      by (cases "validate_manifest_meta (ex_env []) ex_newer")
        (auto simp: verify_manifest_database_integrity_def ex_run validate_schema_integrity_def)
  qed
  show ?thesis
    by (simp add: read_cloud_snapshot_state_def download_manifest_backup_def persist_manifest_database_atomically_def ex_run ex_files ex_newer_decrypts bad)
qed

theorem unverifiable_backup_ignored_witness:
  "\<exists>r w' w0. w0 = ex_at [(MANIFEST_BACKUP_BLOB_NAME, ex_newer_wire)] ex_base 10 [] \<and>
     in_backup (ex_env []) mock_objects ex_key 1 w0 (ex_key @ [1]) \<and> read_snapshot_counter ex_newer = Inr 5 \<and>
     push_vault (ex_env []) ex_old_cloud (ex_ct []) False ex_key ex_key ex_header [''v''] default_sync_config w0 = Some (r, w') \<and>
     (\<forall>c. r \<noteq> Inl (Conflict c)) \<and> is_ok r \<and> read_snapshot_counter (manifest (store w')) = Inr 1 \<and>
     in_backup (ex_env []) mock_objects ex_key 1 w' (sql_image ex_old_cloud ex_key (manifest (store w')))"
proof -
  let ?w = "ex_at [(MANIFEST_BACKUP_BLOB_NAME, ex_newer_wire)] ex_base 10 []"
  have held: "in_backup (ex_env []) mock_objects ex_key 1 ?w (ex_key @ [1])"
    by (simp add: in_backup_def objects_at_def mock_objects_def ex_store ex_newer_decrypts)
  have vid: "uuid_parse (ex_env []) (vh_vault_id ex_header) = Some 1" by (simp add: ex_header_def ex_meta)
  have counter: "read_snapshot_counter ex_newer = Inr 5" "read_snapshot_counter ex_base = Inr 0"
    by (simp_all add: read_snapshot_counter_def ex_newer_def ex_ahead_def map_of_update map_of_sql_update_meta ex_base_def parse_u64_def digit_val_def)
  obtain e where "read_cloud_snapshot_state (ex_env []) ex_old_cloud (ex_ct []) [''v''] ex_key 1 ex_key
      (ex_at [(MANIFEST_BACKUP_BLOB_NAME, ex_newer_wire)] ex_base 13 []) =
     (Inl (CloudManifestUnreadable e), ex_at [(MANIFEST_BACKUP_BLOB_NAME, ex_newer_wire)] ex_base 33 [])" using ex_newer_state by blast
  from ex_push [OF _ _ ex_prepared_from [OF this], where j = "[1]"] obtain r t m where run:
    "push_vault (ex_env []) ex_old_cloud (ex_ct []) False ex_key ex_key ex_header [''v''] default_sync_config ?w =
     Some (r, ex_at (AList.update VAULT_HEADER_BLOB_NAME [1] (AList.update MANIFEST_BACKUP_BLOB_NAME
       (replicate 24 (of_nat t) @ (ex_key @ [0]) @ ex_tag [] ex_key (uuid_bytes (ex_env []) 1)) [(MANIFEST_BACKUP_BLOB_NAME, ex_newer_wire)])) (ex_pushed 35) m [])"
    "is_ok r" by auto
  moreover have "read_snapshot_counter (manifest (store ?w)) = Inr 0" by (simp add: ex_store counter(2))
  note ignored = unverifiable_backup_ignored [OF mock.cloud_transport_axioms ex_aead_laws ex_uuid_laws ex_key_len vid held _ this run(1)]
  moreover have "unqueued (ex_env []) MANIFEST_BACKUP_BLOB_NAME (fst ` set (t_pending_deletions (manifest (store ?w))))"
    by (simp add: unqueued_def ex_store ex_base_def empty_db_def)
  ultimately have "\<forall>c. r \<noteq> Inl (Conflict c)" "\<exists>d'. in_backup (ex_env []) mock_objects ex_key 1
      (ex_at (AList.update VAULT_HEADER_BLOB_NAME [1] (AList.update MANIFEST_BACKUP_BLOB_NAME
       (replicate 24 (of_nat t) @ (ex_key @ [0]) @ ex_tag [] ex_key (uuid_bytes (ex_env []) 1)) [(MANIFEST_BACKUP_BLOB_NAME, ex_newer_wire)])) (ex_pushed 35) m [])
      (sql_image ex_old_cloud ex_key d')"
    using ex_newer_unverifiable by blast+
  moreover have "read_snapshot_counter (ex_pushed 35) = Inr 1"
    using counter_published [OF counter(2), of "ex_env []" 35] by (simp add: ex_pushed_def)
  ultimately show ?thesis using held counter run by (auto simp: ex_store)
qed


section \<open>The backup read back, and an interrupted push\<close>

lemma ex_verified:
  "map_of fs p = Some ex_key \<Longrightarrow> verify_manifest_database_integrity (ex_env a) ex_cloud p ex_key (ex_at bs d n fs) = (Inr (), ex_at bs d (Suc n) fs)"
proof -
  have "validate_manifest_meta (ex_env a) ex_ahead = Inr ()"
    by (simp add: validate_manifest_meta_eq_Inr ex_ahead_def map_of_sql_update_meta ex_base_def SCHEMA_VERSIONS_def ex_uuid_text parse_u64_def digit_val_def
       parse_chunk_size_bytes_def)
  moreover assume "map_of fs p = Some ex_key"
  ultimately show ?thesis
    by (simp add: verify_manifest_database_integrity_def ex_run validate_schema_integrity_def)
qed

theorem interrupted_push_keeps_counter_witness:
  "\<exists>w'. push_manifest (ex_faulty [1]) ex_cloud (mock_transport True (ex_faulty [1])) ex_key ex_key 1 [''v''] 0 None (ex_device [] [] ex_base) = (Inl (SyncStorage (Database ''disk full'')), w') \<and>
     read_snapshot_counter (manifest (store w')) = Inr 1 \<and> remote (store w') = mock_new"
proof -
  have "read_snapshot_counter (manifest (store (ex_device [] [] ex_base))) = Inr 0"
    by (simp add: read_snapshot_counter_def ex_base_def parse_u64_def digit_val_def)
  from interrupted_push_keeps_counter [OF this, of "ex_faulty [1]" "''disk full''" None ex_cloud] show ?thesis
    by (fastforce simp: mock_new_def)
qed

lemma ex_backup_download:
  "\<exists>w'. download_manifest_backup (ex_env a) ex_cloud (ex_ct a) [''v''] ex_key 1 [''v'', ''n''] ex_key
      (ex_at [(MANIFEST_BACKUP_BLOB_NAME, replicate 24 x @ ex_key @ ex_tag a ex_key (uuid_bytes (ex_env a) 1))] d 50 []) = (Inr (), w')"
  by (simp add: download_manifest_backup_def persist_manifest_database_atomically_def ex_run ex_files ex_decrypts ex_verified)

theorem manifest_backup_roundtrip_witness:
  "\<exists>w1 w3. upload_manifest_backup (ex_env (ex_uuid_bytes 1)) ex_cloud (ex_ct (ex_uuid_bytes 1)) ex_key ex_key 1 [''v''] (ex_at [] ex_base 10 []) = (Inr (), w1) \<and>
     download_manifest_backup (ex_env (ex_uuid_bytes 1)) ex_cloud (ex_ct (ex_uuid_bytes 1)) [''v''] ex_key 1 [''v'', ''n''] ex_key (w1\<lparr>tick := 50\<rparr>) = (Inr (), w3) \<and>
     file_at w3 [''v'', ''n''] = Some ex_key"
proof -
  let ?a = "ex_uuid_bytes 1"
  obtain t m where 1: "upload_manifest_backup (ex_env ?a) ex_cloud (ex_ct ?a) ex_key ex_key 1 [''v''] (ex_at [] ex_base 10 []) =
     (Inr (), ex_at [(MANIFEST_BACKUP_BLOB_NAME, replicate 24 (of_nat t) @ ex_key @ ex_tag ?a ex_key (uuid_bytes (ex_env ?a) 1))] ex_base m [])"
    (is "_ = (_, ?w1)") using ex_backup_upload [of ex_cloud ex_key ?a ex_key 1 "[]" ex_base 10] by auto
  have late: "?w1\<lparr>tick := 50\<rparr> = ex_at [(MANIFEST_BACKUP_BLOB_NAME, replicate 24 (of_nat t) @ ex_key @ ex_tag ?a ex_key (uuid_bytes (ex_env ?a) 1))] ex_base 50 []"
    by (simp add: ex_at_def)
  obtain w3 where 2: "download_manifest_backup (ex_env ?a) ex_cloud (ex_ct ?a) [''v''] ex_key 1 [''v'', ''n''] ex_key (?w1\<lparr>tick := 50\<rparr>) = (Inr (), w3)"
    unfolding late using ex_backup_download by blast
  have same: "objects_at mock_objects (?w1\<lparr>tick := 50\<rparr>) MANIFEST_BACKUP_BLOB_NAME = objects_at mock_objects ?w1 MANIFEST_BACKUP_BLOB_NAME"
    by (simp add: objects_at_def)
  from manifest_backup_roundtrip [OF mock.cloud_transport_axioms ex_aead_laws ex_uuid_laws ex_key_len 1 same 2]
  show ?thesis using 1 2 by (auto simp: aead_forgery_def)
qed

end
