(* ===== verification/Share_Crypto.thy ===== *)
theory Share_Crypto
  imports Crypto "HOL-Library.Sublist"
begin

text \<open>
  The envelope of a share package: \<open>sharing/hpke.rs\<close> (HPKE in Base mode over X25519 and HKDF-SHA256) and
  \<open>sharing/ctx_aead.rs\<close> (XChaCha20 with a BLAKE3 commitment in place of the Poly1305 tag), the errors of
  \<open>sharing/error.rs\<close> and the fingerprint of \<open>identity.rs\<close>.  The curve, HKDF, SHA-256 and the key stream are
  fields of the record \<open>share_crypto\<close>.
\<close>

unbundle bit_operations_syntax

section \<open>Errors\<close>

text \<open>
  \<open>Panicked\<close> is not an error of the source: it is the value of a call that unwinds with a panic, which no
  caller catches.
\<close>

datatype sharing_error =
    IdentityMissing
  | ContactNotFound
  | ContactConstraintViolation string
  | InvalidPublicKeyLength usize
  | InvalidContactId string
  | EmptyDisplayName
  | Backend string
  | PackageAuthenticationFailed
  | MalformedSharePackage string
  | InvalidJsonPayload string
  | InvalidFileKeyLength usize
  | InvalidSenderPublicKeyLength usize
  | ReceivedShareNotFound
  | CloudOperation string
  | NotSupported string
  | RevocationPartial usize
  | ShareNotFound
  | ShareAlreadyRevoked
  | InvalidSharePackage
  | Panicked string


section \<open>Third-party code\<close>

text \<open>
  \<open>x25519_public\<close> and \<open>x25519_dh\<close> are the curve operations of \<open>x25519-dalek\<close>, \<open>hkdf_extract salt ikm\<close> and
  \<open>hkdf_expand prk info n\<close> the two halves of HKDF-SHA256, \<open>xchacha20_stream key nonce i\<close> is byte \<open>i\<close> of the key
  stream, and \<open>draw_secret t\<close> the random secret drawn at tick \<open>t\<close>.
\<close>

record share_crypto =
  x25519_public :: "bytes \<Rightarrow> bytes"
  x25519_dh :: "bytes \<Rightarrow> bytes \<Rightarrow> bytes"
  hkdf_extract :: "bytes \<Rightarrow> bytes \<Rightarrow> bytes"
  hkdf_expand :: "bytes \<Rightarrow> bytes \<Rightarrow> nat \<Rightarrow> bytes option"
  xchacha20_stream :: "bytes \<Rightarrow> bytes \<Rightarrow> nat \<Rightarrow> byte"
  sha256 :: "bytes \<Rightarrow> bytes"
  draw_secret :: "nat \<Rightarrow> bytes"

text \<open>Diffie-Hellman agreement; public keys have 32 bytes.\<close>

definition x25519_laws :: "'z share_crypto_scheme \<Rightarrow> bool" where
  "x25519_laws X \<longleftrightarrow>
     (\<forall>a b. x25519_dh X a (x25519_public X b) = x25519_dh X b (x25519_public X a)) \<and>
     (\<forall>a. length (x25519_public X a) = 32)"

text \<open>HKDF-SHA256 gives as many bytes as it is asked for.\<close>

definition hkdf_laws :: "'z share_crypto_scheme \<Rightarrow> bool" where
  "hkdf_laws X \<longleftrightarrow> (\<forall>prk info n out. hkdf_expand X prk info n = Some out \<longrightarrow> length out = n)"

text \<open>XChaCha20-Poly1305 uses the first block of the key stream for its tag and the rest as a one-time pad.\<close>

definition stream_laws :: "env \<Rightarrow> 'z share_crypto_scheme \<Rightarrow> bool" where
  "stream_laws E X \<longleftrightarrow>
     (\<forall>k n a p c t. length k = 32 \<longrightarrow> length n = 24 \<longrightarrow> aead_encrypt E k n a p = Some (c, t) \<longrightarrow>
        c = map2 (XOR) p (map (xchacha20_stream X k n) [64..<64 + length p]))"


section \<open>The committing cipher\<close>

definition CTX_DOMAIN_LABEL :: bytes where "CTX_DOMAIN_LABEL = ascii ''arx-runa-ctx-v1''"

definition CTX_TAG_LEN :: usize where "CTX_TAG_LEN = 32"

definition compute_commitment :: "env \<Rightarrow> bytes \<Rightarrow> bytes \<Rightarrow> bytes \<Rightarrow> bytes" where
  "compute_commitment E key nonce ciphertext = blake3 E (CTX_DOMAIN_LABEL @ key @ nonce @ ciphertext)"

text \<open>The buffer that is encrypted in place is returned next to the tag.\<close>

definition ctx_seal :: "env \<Rightarrow> bytes \<Rightarrow> bytes \<Rightarrow> bytes \<Rightarrow> sharing_error + bytes \<times> bytes" where
  "ctx_seal E key nonce plaintext =
     (case aead_encrypt E key nonce [] plaintext of
        None \<Rightarrow> Inl PackageAuthenticationFailed
      | Some (ciphertext, poly1305_tag) \<Rightarrow> Inr (ciphertext, compute_commitment E key nonce ciphertext))"

definition apply_keystream :: "'z share_crypto_scheme \<Rightarrow> bytes \<Rightarrow> bytes \<Rightarrow> nat \<Rightarrow> bytes \<Rightarrow> bytes" where
  "apply_keystream X key nonce start buffer =
     map2 (XOR) buffer (map (xchacha20_stream X key nonce) [start..<start + length buffer])"

definition ctx_open :: "env \<Rightarrow> 'z share_crypto_scheme \<Rightarrow> bytes \<Rightarrow> bytes \<Rightarrow> bytes \<Rightarrow> bytes \<Rightarrow> sharing_error + bytes" where
  "ctx_open E X key nonce ciphertext claimed_tag =
     (let expected_tag = compute_commitment E key nonce ciphertext in
      if expected_tag = claimed_tag then Inr (apply_keystream X key nonce 64 ciphertext)
      else Inl PackageAuthenticationFailed)"

lemma xor_keystream_twice: "length ks = length p \<Longrightarrow> map2 (XOR) (map2 (XOR) p ks) ks = (p :: bytes)"
  by (rule nth_equalityI) (simp_all add: xor.assoc)

lemma length_apply_keystream [simp]: "length (apply_keystream X k n i b) = length b"
  by (simp add: apply_keystream_def)

lemma ctx_open_seal:
  assumes "stream_laws E X" "length k = 32" "length n = 24" "ctx_seal E k n p = Inr (c, t)"
  shows "ctx_open E X k n c t = Inr p" "length c = length p"
proof -
  obtain t0 where e: "aead_encrypt E k n [] p = Some (c, t0)" and t: "t = compute_commitment E k n c"
    using assms(4) by (auto simp: ctx_seal_def split: option.splits)
  let ?ks = "map (xchacha20_stream X k n) [64..<64 + length p]"
  have c: "c = map2 (XOR) p ?ks" using assms(1-3) e unfolding stream_laws_def by blast
  then show len: "length c = length p" by simp
  have "apply_keystream X k n 64 c = map2 (XOR) (map2 (XOR) p ?ks) ?ks"
    unfolding apply_keystream_def len by (subst c) (rule refl)
  also have "\<dots> = p" by (rule xor_keystream_twice) simp
  finally show "ctx_open E X k n c t = Inr p" by (simp add: ctx_open_def t)
qed


section \<open>HPKE\<close>

definition HPKE_SHARE_INFO :: bytes where "HPKE_SHARE_INFO = ascii ''arx-runa-share''"

definition VERSION_LABEL :: bytes where "VERSION_LABEL = ascii ''HPKE-v1''"

definition KEM_SUITE_ID :: bytes where "KEM_SUITE_ID = ascii ''KEM'' @ [0x00, 0x20]"

definition SUITE_ID :: bytes where "SUITE_ID = ascii ''HPKE'' @ [0x00, 0x20, 0x00, 0x01, 0x00, 0x03]"

definition ENC_LEN :: usize where "ENC_LEN = 32"

definition MIN_WIRE_LEN :: usize where "MIN_WIRE_LEN = ENC_LEN + CTX_TAG_LEN"

text \<open>\<open>u16::to_be_bytes\<close> of a length, after the cast to 16 bits.\<close>

definition be_bytes_u16 :: "nat \<Rightarrow> bytes" where
  "be_bytes_u16 n = [of_nat (n div 256 mod 256), of_nat (n mod 256)]"

definition labeled_extract :: "'z share_crypto_scheme \<Rightarrow> bytes \<Rightarrow> bytes \<Rightarrow> bytes \<Rightarrow> bytes \<Rightarrow> bytes" where
  "labeled_extract X suite_id salt label ikm = hkdf_extract X salt (VERSION_LABEL @ suite_id @ label @ ikm)"

definition labeled_expand :: "'z share_crypto_scheme \<Rightarrow> bytes \<Rightarrow> bytes \<Rightarrow> bytes \<Rightarrow> bytes \<Rightarrow> nat \<Rightarrow> sharing_error + bytes" where
  "labeled_expand X prk suite_id label info output_len =
     ok_or (Backend ''HKDF expand length exceeded'')
       (hkdf_expand X prk (be_bytes_u16 output_len @ VERSION_LABEL @ suite_id @ label @ info) output_len)"

definition extract_and_expand :: "'z share_crypto_scheme \<Rightarrow> bytes \<Rightarrow> bytes \<Rightarrow> sharing_error + bytes" where
  "extract_and_expand X diffie_hellman_bytes kem_context =
     (let eae_prk = labeled_extract X KEM_SUITE_ID [] (ascii ''eae_prk'') diffie_hellman_bytes in
      labeled_expand X eae_prk KEM_SUITE_ID (ascii ''shared_secret'') kem_context 32)"

definition kem_encap :: "'z share_crypto_scheme \<Rightarrow> bytes \<Rightarrow> ('s, sharing_error, bytes \<times> bytes) prog" where
  "kem_encap X recipient_public_key =
     bind (draw (draw_secret X)) (\<lambda>ephemeral_secret.
     let ephemeral_public_key = x25519_public X ephemeral_secret;
         diffie_hellman = x25519_dh X ephemeral_secret recipient_public_key in
     if diffie_hellman = replicate 32 0 then fail PackageAuthenticationFailed
     else
       let enc = ephemeral_public_key;
           kem_context = enc @ recipient_public_key in
       bind (lift (extract_and_expand X diffie_hellman kem_context)) (\<lambda>shared_secret.
       ret (shared_secret, enc)))"

definition kem_decap :: "'z share_crypto_scheme \<Rightarrow> bytes \<Rightarrow> bytes \<Rightarrow> sharing_error + bytes" where
  "kem_decap X recipient_private_key_bytes enc =
     (let recipient_public_key = x25519_public X recipient_private_key_bytes;
          diffie_hellman = x25519_dh X recipient_private_key_bytes enc in
      if diffie_hellman = replicate 32 0 then Inl PackageAuthenticationFailed
      else
        let kem_context = enc @ recipient_public_key in
        extract_and_expand X diffie_hellman kem_context)"

definition key_schedule :: "'z share_crypto_scheme \<Rightarrow> bytes \<Rightarrow> sharing_error + bytes \<times> bytes" where
  "key_schedule X shared_secret =
     (let psk_id_hash = labeled_extract X SUITE_ID [] (ascii ''psk_id_hash'') [];
          info_hash = labeled_extract X SUITE_ID [] (ascii ''info_hash'') HPKE_SHARE_INFO;
          key_schedule_context = 0x00 # psk_id_hash @ info_hash;
          secret = labeled_extract X SUITE_ID shared_secret (ascii ''secret'') [] in
      rbind (labeled_expand X secret SUITE_ID (ascii ''key'') key_schedule_context KEY_LEN) (\<lambda>key.
      rbind (labeled_expand X secret SUITE_ID (ascii ''base_nonce'') key_schedule_context NONCE_LEN) (\<lambda>base_nonce.
      Inr (key, base_nonce))))"

text \<open>\<open>hpke::seal\<close> and \<open>hpke::open\<close>.\<close>

definition seal :: "env \<Rightarrow> 'z share_crypto_scheme \<Rightarrow> bytes \<Rightarrow> bytes \<Rightarrow> ('s, sharing_error, bytes) prog" where
  "seal E X recipient_public_key plaintext =
     bind (kem_encap X recipient_public_key) (\<lambda>(shared_secret, enc).
     bind (lift (key_schedule X shared_secret)) (\<lambda>(key, base_nonce).
     bind (lift (ctx_seal E key base_nonce plaintext)) (\<lambda>(buffer, tag).
     ret (enc @ buffer @ tag))))"

definition open_package :: "env \<Rightarrow> 'z share_crypto_scheme \<Rightarrow> bytes \<Rightarrow> bytes \<Rightarrow> sharing_error + bytes" where
  "open_package E X recipient_private_key_bytes wire =
     (if length wire < MIN_WIRE_LEN then Inl (MalformedSharePackage ''wire length < 64'')
      else
        let enc = take ENC_LEN wire;
            tag = drop (length wire - CTX_TAG_LEN) wire;
            ciphertext = drop ENC_LEN (take (length wire - CTX_TAG_LEN) wire) in
        rbind (kem_decap X recipient_private_key_bytes enc) (\<lambda>shared_secret.
        rbind (key_schedule X shared_secret) (\<lambda>(key, base_nonce).
        ctx_open E X key base_nonce ciphertext tag)))"


section \<open>Identity\<close>

definition compute_fingerprint :: "'z share_crypto_scheme \<Rightarrow> bytes \<Rightarrow> bytes" where
  "compute_fingerprint X public_key = take 8 (sha256 X public_key)"


section \<open>What the envelope keeps\<close>

lemma key_schedule_Inr:
  assumes "hkdf_laws X" "key_schedule X s = Inr (k, n)"
  shows "length k = 32" "length n = 24"
  using assms by (auto simp: key_schedule_def labeled_expand_def hkdf_laws_def crypto_lens result_simps Let_def)

lemma kem_agreement:
  assumes "x25519_laws X" "kem_encap X (x25519_public X sk) w = (Inr (s, enc), w')"
  shows "kem_decap X sk enc = Inr s" "length enc = 32" "w' = next_tick w"
proof -
  let ?e = "draw_secret X (tick w)"
  have dh: "x25519_dh X sk (x25519_public X ?e) = x25519_dh X ?e (x25519_public X sk)"
    and len: "length (x25519_public X ?e) = 32" using assms(1) unfolding x25519_laws_def by blast+
  have enc: "enc = x25519_public X ?e" and nz: "x25519_dh X ?e (x25519_public X sk) \<noteq> replicate 32 0"
    and s: "extract_and_expand X (x25519_dh X ?e (x25519_public X sk)) (enc @ x25519_public X sk) = Inr s"
    and w': "w' = next_tick w"
    using assms(2) by (auto simp: kem_encap_def bind_Inr draw_def Let_def split: if_splits)
  show "kem_decap X sk enc = Inr s" using nz s by (simp add: kem_decap_def enc dh)
  show "length enc = 32" by (simp add: enc len)
  show "w' = next_tick w" by (rule w')
qed

lemma open_seal:
  assumes "x25519_laws X" "hkdf_laws X" "stream_laws E X" "blake3_laws E"
    and "seal E X (x25519_public X sk) p w = (Inr wire, w')"
  shows "open_package E X sk wire = Inr p" "length wire = length p + 64" "w' = next_tick w"
proof -
  obtain s enc w1 k n c t where kem: "kem_encap X (x25519_public X sk) w = (Inr (s, enc), w1)"
    and ks: "key_schedule X s = Inr (k, n)" and ctx: "ctx_seal E k n p = Inr (c, t)" and wire: "wire = enc @ c @ t" "w' = w1"
    using assms(5) by (fastforce simp: seal_def bind_Inr dest: sym)
  note kem' = kem_agreement [OF assms(1) kem] and kn = key_schedule_Inr [OF assms(2) ks]
  note ctx' = ctx_open_seal [OF assms(3) kn ctx]
  have t: "length t = 32" using ctx assms(4) by (auto simp: ctx_seal_def compute_commitment_def blake3_laws_def split: option.splits)
  show "open_package E X sk wire = Inr p"
    using kem' ks ctx' t by (simp add: open_package_def wire MIN_WIRE_LEN_def ENC_LEN_def CTX_TAG_LEN_def)
  show "length wire = length p + 64" using kem'(2) ctx'(2) t by (simp add: wire)
  show "w' = next_tick w" using kem'(3) wire(2) by simp
qed

lemma open_package_Inr:
  assumes "hkdf_laws X" "open_package E X sk wire = Inr p"
  obtains k n c where "length k = 32" "length n = 24" "length wire = length c + 64" "p = apply_keystream X k n 64 c"
    "c = drop 32 (take (length wire - 32) wire)"
    "blake3 E (CTX_DOMAIN_LABEL @ k @ n @ c) = drop (length wire - 32) wire"
proof -
  let ?c = "drop 32 (take (length wire - 32) wire)"
  have long: "64 \<le> length wire" using assms(2) by (auto simp: open_package_def MIN_WIRE_LEN_def ENC_LEN_def CTX_TAG_LEN_def split: if_splits)
  obtain s k n where ks: "key_schedule X s = Inr (k, n)"
      and o: "ctx_open E X k n ?c (drop (length wire - 32) wire) = Inr p"
    using assms(2) by (auto simp: open_package_def MIN_WIRE_LEN_def ENC_LEN_def CTX_TAG_LEN_def Let_def result_simps split: if_splits)
  note kn = key_schedule_Inr [OF assms(1) ks]
  show thesis
    using kn o long by (intro that [of k n ?c]) (auto simp: ctx_open_def compute_commitment_def Let_def split: if_splits)
qed


section \<open>Properties\<close>

text \<open>
  A package sealed for a public key is 64 bytes longer than its contents and opens under the private key
  to exactly these contents; a wire shorter than 64 bytes is malformed whatever the key.
\<close>

theorem share_package_roundtrip:
  assumes "x25519_laws X" "hkdf_laws X" "stream_laws E X" "blake3_laws E"
    and "seal E X (x25519_public X sk) contents w = (Inr wire, w')"
  shows "open_package E X sk wire = Inr contents \<and> length wire = length contents + 64 \<and>
    (\<forall>n < 64. open_package E X sk (take n wire) = Inl (MalformedSharePackage ''wire length < 64''))"
  using open_seal [OF assms] by (simp add: open_package_def MIN_WIRE_LEN_def ENC_LEN_def CTX_TAG_LEN_def)

text \<open>
  A package commits its sender to one message: two private keys that both open a wire see the same contents,
  unless the two inputs of the commitment are a collision of BLAKE3.  This is what the cipher's own tag does
  not give.
\<close>

theorem share_package_commits:
  assumes "hkdf_laws X" "open_package E X sk wire = Inr p" "open_package E X sk' wire = Inr p'"
  shows "p = p' \<or> (\<exists>x y. x \<noteq> y \<and> length x = length y \<and> prefix CTX_DOMAIN_LABEL x \<and> prefix CTX_DOMAIN_LABEL y \<and>
     blake3 E x = blake3 E y \<and> blake3 E x = drop (length wire - 32) wire)"
proof -
  obtain k n c where 1: "length k = 32" "length n = 24" "p = apply_keystream X k n 64 c"
      "c = drop 32 (take (length wire - 32) wire)" "blake3 E (CTX_DOMAIN_LABEL @ k @ n @ c) = drop (length wire - 32) wire"
    by (rule open_package_Inr [OF assms(1,2)])
  obtain k' n' c' where 2: "length k' = 32" "length n' = 24" "p' = apply_keystream X k' n' 64 c'"
      "c' = drop 32 (take (length wire - 32) wire)" "blake3 E (CTX_DOMAIN_LABEL @ k' @ n' @ c') = drop (length wire - 32) wire"
    by (rule open_package_Inr [OF assms(1,3)])
  have c: "c' = c" using 1 2 by simp
  show ?thesis
  proof (cases "k = k' \<and> n = n'")
    case True
    then show ?thesis using 1 2 c by simp
  next
    case False
    then have "CTX_DOMAIN_LABEL @ k @ n @ c \<noteq> CTX_DOMAIN_LABEL @ k' @ n' @ c" using 1 2 by auto
    moreover have "length (CTX_DOMAIN_LABEL @ k @ n @ c) = length (CTX_DOMAIN_LABEL @ k' @ n' @ c)" using 1 2 by simp
    ultimately show ?thesis using 1(5) 2(5) c by (metis prefixI)
  qed
qed


section \<open>A concrete curve\<close>

text \<open>Keys of one significant byte under addition, and a key stream of zeros, to match the cipher of \<open>ex_env\<close>.\<close>

definition ex_crypto :: share_crypto where
  "ex_crypto =
     \<lparr>x25519_public = (\<lambda>a. replicate 32 (sum_list a)), x25519_dh = (\<lambda>a p. replicate 32 (sum_list a + hd p)),
      hkdf_extract = (\<lambda>s i. replicate 32 1), hkdf_expand = (\<lambda>p i n. Some (replicate n 0)),
      xchacha20_stream = (\<lambda>k n i. 0), sha256 = (\<lambda>b. replicate 32 (sum_list b)), draw_secret = (\<lambda>t. [of_nat t])\<rparr>"

lemma map2_const: "length ys = length xs \<Longrightarrow> (\<forall>y \<in> set ys. y = 0) \<Longrightarrow> map2 (XOR) xs ys = (xs :: bytes)"
proof (rule nth_equalityI)
  show "map2 (XOR) xs ys ! i = xs ! i" if "length ys = length xs" "\<forall>y \<in> set ys. y = 0" "i < length (map2 (XOR) xs ys)" for i
  proof -
    have "ys ! i \<in> set ys" using that by simp
    then have "ys ! i = 0" using that(2) by blast
    then show ?thesis using that(1,3) by simp
  qed
qed simp

lemma ex_x25519_laws: "x25519_laws ex_crypto"
  by (simp add: x25519_laws_def ex_crypto_def add.commute)

lemma ex_hkdf_laws: "hkdf_laws ex_crypto"
  by (auto simp: hkdf_laws_def ex_crypto_def)

lemma ex_stream_laws: "stream_laws (ex_env a) ex_crypto"
  unfolding stream_laws_def by (auto simp: ex_env_def ex_crypto_def map2_const)

lemmas ex_share_laws = ex_x25519_laws ex_hkdf_laws ex_stream_laws ex_blake3_laws

lemma ex_seal:
  "\<exists>t wire. seal (ex_env a) ex_crypto (x25519_public ex_crypto [5]) p (ex_world\<lparr>tick := 3\<rparr>) = (Inr wire, t)"
  by (simp add: seal_def kem_encap_def bind_def draw_def lift_def ret_def fail_def Let_def extract_and_expand_def labeled_expand_def
      key_schedule_def ctx_seal_def ex_env_def ex_crypto_def ex_world_def)

theorem share_package_roundtrip_witness:
  "\<exists>wire. open_package (ex_env []) ex_crypto [5] wire = Inr [7, 8] \<and> length wire = 66"
proof -
  obtain t wire where "seal (ex_env []) ex_crypto (x25519_public ex_crypto [5]) [7, 8] (ex_world\<lparr>tick := 3\<rparr>) = (Inr wire, t)"
    using ex_seal by blast
  from share_package_roundtrip [OF ex_share_laws this] show ?thesis by auto
qed

theorem share_package_commits_witness:
  "\<exists>wire. open_package (ex_env []) ex_crypto [5] wire = Inr [7, 8] \<and>
     ([7, 8 :: byte] = [7, 8] \<or> (\<exists>x y. x \<noteq> y \<and> blake3 (ex_env []) x = blake3 (ex_env []) y))"
proof -
  obtain t wire where "seal (ex_env []) ex_crypto (x25519_public ex_crypto [5]) [7, 8] (ex_world\<lparr>tick := 3\<rparr>) = (Inr wire, t)"
    using ex_seal by blast
  note o = open_seal(1) [OF ex_share_laws this]
  with share_package_commits [OF ex_hkdf_laws o o] show ?thesis by blast
qed

end
