(* ===== verification/Sharing_Store.thy ===== *)
theory Sharing_Store
  imports Share_Crypto Cloud_Transport
begin

text \<open>
  \<open>sharing/store.rs\<close> (the records), \<open>sharing/types\<close> (the identifier and the name of a contact) and
  \<open>storage/sharing.rs\<close> (\<open>impl SharingStore for SqlCipherMetadataStore\<close>): contacts, received shares, outgoing
  shares and the snapshots of shared files.  A call is one effect on the manifest database, followed by the
  conversion of the rows it returned.  The JSON and base64 codecs are fields of \<open>share_env\<close>.
\<close>

section \<open>JSON\<close>

text \<open>\<open>serde_json::Value\<close>; a number is an integer or the text of a float.\<close>

datatype json =
    JNull
  | JBool bool
  | JInt int
  | JFloat string
  | JString string
  | JArray "json list"
  | JObject "(string \<times> json) list"

text \<open>\<open>Value::get\<close>, \<open>as_str\<close>, \<open>as_bool\<close>, \<open>as_u64\<close>, \<open>as_i64\<close>.\<close>

fun json_get :: "string \<Rightarrow> json \<Rightarrow> json option" where
  "json_get k (JObject kvs) = map_of kvs k"
| "json_get k _ = None"

fun as_str :: "json \<Rightarrow> string option" where
  "as_str (JString s) = Some s"
| "as_str _ = None"

fun as_bool :: "json \<Rightarrow> bool option" where
  "as_bool (JBool b) = Some b"
| "as_bool _ = None"

fun as_u64 :: "json \<Rightarrow> u64 option" where
  "as_u64 (JInt i) = u64_try_from_i64 i"
| "as_u64 _ = None"

fun as_i64 :: "json \<Rightarrow> i64 option" where
  "as_i64 (JInt i) = (if i < 2 ^ 63 then Some i else None)"
| "as_i64 _ = None"

text \<open>\<open>value[k] = x\<close>: a null becomes an object, any other value that is no object is a panic.\<close>

fun json_set :: "string \<Rightarrow> json \<Rightarrow> json \<Rightarrow> sharing_error + json" where
  "json_set k x (JObject kvs) = Inr (JObject (AList.update k x kvs))"
| "json_set k x JNull = Inr (JObject [(k, x)])"
| "json_set k x _ = Inl (Panicked (''cannot access key '' @ k @ '' in JSON value''))"


section \<open>Records\<close>

record contact =
  co_contact_id :: uuid
  co_display_name :: string
  co_email :: "string option"
  co_public_key :: bytes
  co_created_at :: i64

record received_share =
  rv_share_id :: string
  rv_sender_contact_id :: "uuid option"
  rv_sender_public_key :: bytes
  rv_file_id :: string
  rv_file_name :: string
  rv_file_key_wrapped :: bytes
  rv_chunk_count :: u32
  rv_chunk_size :: u32
  rv_chunk_uuids :: "string list"
  rv_cloud_endpoint :: json
  rv_expires_at :: "i64 option"
  rv_imported_at :: i64

record share_record =
  sh_share_id :: string
  sh_file_id :: string
  sh_contact_id :: uuid
  sh_file_share_id :: string
  sh_cloud_path :: string
  sh_created_at :: i64
  sh_expires_at :: "i64 option"
  sh_revoked_at :: "i64 option"
  sh_download_key_id :: "string option"
  sh_download_folder_id :: "string option"
  sh_receipt_requested :: bool
  sh_receipt_received_at :: "i64 option"

record file_share_snapshot =
  sn_file_share_id :: string
  sn_share_file_id :: string
  sn_share_file_key_wrapped :: bytes
  sn_chunk_uuids :: "string list"
  sn_chunk_size :: u32
  sn_file_size :: u64
  sn_file_name :: string
  sn_created_at :: i64

text \<open>\<open>SharePackagePayload\<close> of \<open>packages.rs\<close>, which the JSON codec below reads and writes.\<close>

record share_package_payload =
  pl_share_id :: string
  pl_file_id :: string
  pl_file_name :: string
  pl_chunk_count :: u32
  pl_chunk_size :: u32
  pl_chunk_uuids :: "string list"
  pl_file_key :: string
  pl_sender_public_key :: string
  pl_cloud_endpoint :: json
  pl_file_size :: u64
  pl_expires_at :: "i64 option"

text \<open>
  \<open>serde_json\<close> on the three types that are stored or sent and on values, and \<open>base64\<close>; an error is its
  message.
\<close>

record share_env = share_crypto +
  strings_to_json :: "string list \<Rightarrow> string + string"
  strings_from_json :: "string \<Rightarrow> string + string list"
  value_to_json :: "json \<Rightarrow> string + string"
  value_from_json :: "string \<Rightarrow> string + json"
  payload_to_json :: "share_package_payload \<Rightarrow> string + bytes"
  payload_from_json :: "bytes \<Rightarrow> string + share_package_payload"
  value_from_bytes :: "bytes \<Rightarrow> json option"
  base64_encode :: "bytes \<Rightarrow> string"
  base64_bytes :: "string \<Rightarrow> bytes option"

text \<open>What was written is valid JSON and is read back.\<close>

definition json_laws :: "env \<Rightarrow> share_env \<Rightarrow> bool" where
  "json_laws E S \<longleftrightarrow>
     (\<forall>xs t. strings_to_json S xs = Inr t \<longrightarrow> json_valid E t \<and> strings_from_json S t = Inr xs) \<and>
     (\<forall>j t. value_to_json S j = Inr t \<longrightarrow> json_valid E t \<and> value_from_json S t = Inr j) \<and>
     (\<forall>p b. payload_to_json S p = Inr b \<longrightarrow> payload_from_json S b = Inr p) \<and>
     (\<forall>b. base64_bytes S (base64_encode S b) = Some b)"


section \<open>Contact identifiers and names\<close>

text \<open>\<open>Variant::RFC4122\<close> is the pattern 10 in the top bits of byte 8.\<close>

definition is_uuid_v4 :: "env \<Rightarrow> uuid \<Rightarrow> bool" where
  "is_uuid_v4 E u = (uuid_bytes E u ! 8 AND 0xC0 = 0x80 \<and> uuid_version E u = 4)"

definition display_name_new :: "string \<Rightarrow> sharing_error + string" where
  "display_name_new v =
     (let trimmed = trim v in
      if trimmed = [] then Inl EmptyDisplayName else Inr trimmed)"

definition map_contact_row :: "env \<Rightarrow> contact_row \<Rightarrow> sharing_error + contact" where
  "map_contact_row E r =
     rbind (ok_or (InvalidContactId (ct_contact_id r)) (uuid_parse E (ct_contact_id r))) (\<lambda>parsed_contact_id.
     if \<not> is_uuid_v4 E parsed_contact_id then Inl (InvalidContactId (ct_contact_id r))
     else
       rbind (ensure (InvalidPublicKeyLength (length (ct_public_key r))) (length (ct_public_key r) = 32)) (\<lambda>_.
       rbind (display_name_new (ct_display_name r)) (\<lambda>display_name.
       Inr \<lparr>co_contact_id = parsed_contact_id, co_display_name = display_name, co_email = ct_email r,
            co_public_key = ct_public_key r, co_created_at = ct_created_at r\<rparr>)))"


section \<open>Errors\<close>

definition backend_failure :: sharing_error where
  "backend_failure = Backend ''storage backend failure''"

fun map_storage_error :: "storage_error \<Rightarrow> sharing_error" where
  "map_storage_error NotFound = ContactNotFound"
| "map_storage_error (ConstraintViolation message) = ContactConstraintViolation message"
| "map_storage_error _ = backend_failure"

fun map_received_share_error :: "storage_error \<Rightarrow> sharing_error" where
  "map_received_share_error NotFound = ReceivedShareNotFound"
| "map_received_share_error (ConstraintViolation message) = ContactConstraintViolation message"
| "map_received_share_error _ = backend_failure"

fun map_share_error :: "storage_error \<Rightarrow> sharing_error" where
  "map_share_error NotFound = ShareNotFound"
| "map_share_error (ConstraintViolation message) = ContactConstraintViolation message"
| "map_share_error _ = backend_failure"

fun map_revoke_error :: "storage_error \<Rightarrow> sharing_error" where
  "map_revoke_error NotFound = ShareNotFound"
| "map_revoke_error (ConstraintViolation _) = ShareAlreadyRevoked"
| "map_revoke_error _ = backend_failure"


section \<open>Identity and contacts\<close>

definition sql_own_public_key :: "db \<Rightarrow> bytes option" where
  "sql_own_public_key d = map_option id_public_key (find (\<lambda>r. id_id r = 1) (t_vault_identity d))"

definition get_own_public_key :: "env \<Rightarrow> ('r, sharing_error, bytes) cloud_prog" where
  "get_own_public_key E =
     bind (with_err map_storage_error (db_query E (\<lambda>d. Inr (sql_own_public_key d)))) (\<lambda>row.
     bind (lift (ok_or IdentityMissing row)) (\<lambda>public_key_blob.
     bind (lift (ensure (InvalidPublicKeyLength (length public_key_blob)) (length public_key_blob = 32))) (\<lambda>_.
     ret public_key_blob)))"

definition sql_insert_contact :: "contact_row \<Rightarrow> db \<Rightarrow> storage_error + db" where
  "sql_insert_contact r d =
     (if ct_contact_id r \<in> set (map ct_contact_id (t_contacts d))
      then Inl (constraint_failed ''UNIQUE constraint failed: contacts.contact_id'')
      else Inr (d\<lparr>t_contacts := t_contacts d @ [r]\<rparr>))"

definition contact_row_of :: "env \<Rightarrow> contact \<Rightarrow> contact_row" where
  "contact_row_of E c =
     \<lparr>ct_contact_id = uuid_hyphenated E (co_contact_id c), ct_display_name = co_display_name c, ct_email = co_email c,
      ct_public_key = co_public_key c, ct_created_at = co_created_at c\<rparr>"

definition insert_contact :: "env \<Rightarrow> contact \<Rightarrow> ('r, sharing_error, unit) cloud_prog" where
  "insert_contact E c =
     (if \<not> is_uuid_v4 E (co_contact_id c) then fail (InvalidContactId (uuid_hyphenated E (co_contact_id c)))
      else with_err map_storage_error (db_mutate E (\<lambda>_. sql_insert_contact (contact_row_of E c))))"

definition get_contact :: "env \<Rightarrow> uuid \<Rightarrow> ('r, sharing_error, contact) cloud_prog" where
  "get_contact E contact_id =
     (if \<not> is_uuid_v4 E contact_id then fail (InvalidContactId (uuid_hyphenated E contact_id))
      else
        bind (with_err map_storage_error (db_query E (\<lambda>d.
          ok_or NotFound (find (\<lambda>r. ct_contact_id r = uuid_hyphenated E contact_id) (t_contacts d))))) (\<lambda>row.
        lift (map_contact_row E row)))"

definition list_contacts :: "env \<Rightarrow> ('r, sharing_error, contact list) cloud_prog" where
  "list_contacts E =
     bind (with_err map_storage_error (db_query E (\<lambda>d.
       Inr (sort_key (\<lambda>r. (ct_display_name r, ct_contact_id r)) (t_contacts d))))) (\<lambda>rows.
     lift (rmap (map_contact_row E) rows))"

text \<open>
  \<open>DELETE FROM contacts\<close>: the foreign keys of \<open>shares\<close> and \<open>received_shares\<close> have no cascade, so that a contact
  that is still referenced stays.
\<close>

definition sql_delete_contact :: "string \<Rightarrow> db \<Rightarrow> storage_error + db" where
  "sql_delete_contact i d =
     (if i \<notin> set (map ct_contact_id (t_contacts d)) then Inl NotFound
      else if i \<in> set (map sr_contact_id (t_shares d)) \<or> Some i \<in> set (map rr_sender_contact_id (t_received_shares d))
      then Inl (constraint_failed ''FOREIGN KEY constraint failed'')
      else Inr (d\<lparr>t_contacts := filter (\<lambda>r. ct_contact_id r \<noteq> i) (t_contacts d)\<rparr>))"

definition delete_contact :: "env \<Rightarrow> uuid \<Rightarrow> ('r, sharing_error, unit) cloud_prog" where
  "delete_contact E contact_id =
     (if \<not> is_uuid_v4 E contact_id then fail (InvalidContactId (uuid_hyphenated E contact_id))
      else with_err map_storage_error (db_mutate E (\<lambda>_. sql_delete_contact (uuid_hyphenated E contact_id))))"


section \<open>Received shares\<close>

definition is_uuid_v4_string :: "env \<Rightarrow> string \<Rightarrow> bool" where
  "is_uuid_v4_string E v = (case uuid_parse E v of None \<Rightarrow> False | Some u \<Rightarrow> uuid_version E u = 4)"

definition sql_insert_received_share :: "env \<Rightarrow> received_share_row \<Rightarrow> db \<Rightarrow> storage_error + db" where
  "sql_insert_received_share E r d =
     (if rr_share_id r \<in> set (map rr_share_id (t_received_shares d))
      then Inl (constraint_failed ''UNIQUE constraint failed: received_shares.share_id'')
      else if \<not> json_valid E (rr_chunk_uuids r)
      then Inl (constraint_failed ''CHECK constraint failed: json_valid(chunk_uuids)'')
      else if \<not> json_valid E (rr_cloud_endpoint r)
      then Inl (constraint_failed ''CHECK constraint failed: json_valid(cloud_endpoint)'')
      else if \<not> (case rr_sender_contact_id r of None \<Rightarrow> True | Some c \<Rightarrow> c \<in> set (map ct_contact_id (t_contacts d)))
      then Inl (constraint_failed ''FOREIGN KEY constraint failed'')
      else Inr (d\<lparr>t_received_shares := t_received_shares d @ [r]\<rparr>))"

definition insert_received_share ::
  "env \<Rightarrow> share_env \<Rightarrow> received_share \<Rightarrow> ('r, sharing_error, unit) cloud_prog" where
  "insert_received_share E S row =
     (if \<not> is_uuid_v4_string E (rv_share_id row)
      then fail (InvalidJsonPayload (''share_id is not UUID v4: '' @ rv_share_id row))
      else
        bind (lift (map_err InvalidJsonPayload (strings_to_json S (rv_chunk_uuids row)))) (\<lambda>chunk_uuids_json.
        bind (lift (map_err InvalidJsonPayload (value_to_json S (rv_cloud_endpoint row)))) (\<lambda>cloud_endpoint_json.
        with_err map_storage_error (db_mutate E (\<lambda>_. sql_insert_received_share E
          \<lparr>rr_share_id = rv_share_id row,
           rr_sender_contact_id = map_option (uuid_hyphenated E) (rv_sender_contact_id row),
           rr_sender_public_key = rv_sender_public_key row, rr_file_id = rv_file_id row,
           rr_file_name = rv_file_name row, rr_file_key_wrapped = rv_file_key_wrapped row,
           rr_chunk_count = int (rv_chunk_count row), rr_chunk_size = int (rv_chunk_size row),
           rr_chunk_uuids = chunk_uuids_json, rr_cloud_endpoint = cloud_endpoint_json,
           rr_expires_at = rv_expires_at row, rr_imported_at = rv_imported_at row\<rparr>)))))"

text \<open>The casts \<open>as u32\<close> and \<open>as u64\<close> of an \<open>i64\<close>, and \<open>as i64\<close> of a \<open>u64\<close>, keep the low bits.\<close>

definition i64_as_u32 :: "i64 \<Rightarrow> u32" where
  [width_simps]: "i64_as_u32 i = nat (i mod 2 ^ 32)"

definition i64_as_u64 :: "i64 \<Rightarrow> u64" where
  [width_simps]: "i64_as_u64 i = nat (i mod 2 ^ 64)"

definition u64_as_i64 :: "u64 \<Rightarrow> i64" where
  [width_simps]: "u64_as_i64 n = (if n < 2 ^ 63 then int n else int n - 2 ^ 64)"

definition parse_received_share_row ::
  "env \<Rightarrow> share_env \<Rightarrow> received_share_row \<Rightarrow> sharing_error + received_share" where
  "parse_received_share_row E S r =
     rbind (case rr_sender_contact_id r of
              None \<Rightarrow> Inr None
            | Some txt \<Rightarrow> rbind (ok_or (InvalidContactId txt) (uuid_parse E txt)) (\<lambda>u. Inr (Some u))) (\<lambda>sender_contact_id.
     rbind (ensure (InvalidPublicKeyLength (length (rr_sender_public_key r))) (length (rr_sender_public_key r) = 32)) (\<lambda>_.
     rbind (ensure (Backend ''file_key_wrapped is not 72 bytes'') (length (rr_file_key_wrapped r) = 72)) (\<lambda>_.
     rbind (map_err InvalidJsonPayload (strings_from_json S (rr_chunk_uuids r))) (\<lambda>chunk_uuids.
     rbind (map_err InvalidJsonPayload (value_from_json S (rr_cloud_endpoint r))) (\<lambda>cloud_endpoint.
     Inr \<lparr>rv_share_id = rr_share_id r, rv_sender_contact_id = sender_contact_id,
          rv_sender_public_key = rr_sender_public_key r, rv_file_id = rr_file_id r, rv_file_name = rr_file_name r,
          rv_file_key_wrapped = rr_file_key_wrapped r, rv_chunk_count = i64_as_u32 (rr_chunk_count r),
          rv_chunk_size = i64_as_u32 (rr_chunk_size r), rv_chunk_uuids = chunk_uuids,
          rv_cloud_endpoint = cloud_endpoint, rv_expires_at = rr_expires_at r, rv_imported_at = rr_imported_at r\<rparr>)))))"

definition get_received_share ::
  "env \<Rightarrow> share_env \<Rightarrow> string \<Rightarrow> ('r, sharing_error, received_share) cloud_prog" where
  "get_received_share E S share_id =
     bind (with_err map_received_share_error (db_query E (\<lambda>d.
       ok_or NotFound (find (\<lambda>r. rr_share_id r = share_id) (t_received_shares d))))) (\<lambda>row.
     lift (parse_received_share_row E S row))"

definition list_received_shares ::
  "env \<Rightarrow> share_env \<Rightarrow> ('r, sharing_error, received_share list) cloud_prog" where
  "list_received_shares E S =
     bind (with_err map_received_share_error (db_query E (\<lambda>d.
       Inr (sort_key (\<lambda>r. (- rr_imported_at r, rr_share_id r)) (t_received_shares d))))) (\<lambda>rows.
     lift (rmap (parse_received_share_row E S) rows))"


section \<open>Outgoing shares\<close>

definition sql_insert_share :: "share_row \<Rightarrow> db \<Rightarrow> storage_error + db" where
  "sql_insert_share r d =
     (if sr_share_id r \<in> set (map sr_share_id (t_shares d))
      then Inl (constraint_failed ''UNIQUE constraint failed: shares.share_id'')
      else if sr_file_id r \<notin> set (node_ids d) \<or> sr_contact_id r \<notin> set (map ct_contact_id (t_contacts d))
      then Inl (constraint_failed ''FOREIGN KEY constraint failed'')
      else Inr (d\<lparr>t_shares := t_shares d @ [r]\<rparr>))"

definition share_row_of :: "env \<Rightarrow> share_record \<Rightarrow> share_row" where
  "share_row_of E s =
     \<lparr>sr_share_id = sh_share_id s, sr_file_id = sh_file_id s, sr_contact_id = uuid_hyphenated E (sh_contact_id s),
      sr_file_share_id = sh_file_share_id s, sr_cloud_path = sh_cloud_path s, sr_created_at = sh_created_at s,
      sr_expires_at = sh_expires_at s, sr_revoked_at = sh_revoked_at s, sr_download_key_id = sh_download_key_id s,
      sr_receipt_requested = (if sh_receipt_requested s then 1 else 0),
      sr_receipt_received_at = sh_receipt_received_at s, sr_import_receipt_received_at = None,
      sr_download_folder_id = sh_download_folder_id s\<rparr>"

definition insert_share :: "env \<Rightarrow> share_record \<Rightarrow> ('r, sharing_error, unit) cloud_prog" where
  "insert_share E share = with_err map_share_error (db_mutate E (\<lambda>_. sql_insert_share (share_row_of E share)))"

definition parse_share_row :: "env \<Rightarrow> share_row \<Rightarrow> sharing_error + share_record" where
  "parse_share_row E r =
     rbind (ok_or (InvalidContactId (sr_contact_id r)) (uuid_parse E (sr_contact_id r))) (\<lambda>contact_uuid.
     Inr \<lparr>sh_share_id = sr_share_id r, sh_file_id = sr_file_id r, sh_contact_id = contact_uuid,
          sh_file_share_id = sr_file_share_id r, sh_cloud_path = sr_cloud_path r, sh_created_at = sr_created_at r,
          sh_expires_at = sr_expires_at r, sh_revoked_at = sr_revoked_at r,
          sh_download_key_id = sr_download_key_id r, sh_download_folder_id = sr_download_folder_id r,
          sh_receipt_requested = (sr_receipt_requested r \<noteq> 0), sh_receipt_received_at = sr_receipt_received_at r\<rparr>)"

definition get_share :: "env \<Rightarrow> string \<Rightarrow> ('r, sharing_error, share_record) cloud_prog" where
  "get_share E share_id =
     bind (with_err map_share_error (db_query E (\<lambda>d.
       ok_or NotFound (find (\<lambda>r. sr_share_id r = share_id) (t_shares d))))) (\<lambda>row.
     lift (parse_share_row E row))"

text \<open>The three lists differ in their \<open>WHERE\<close> clause.\<close>

definition select_shares :: "(share_row \<Rightarrow> bool) \<Rightarrow> db \<Rightarrow> share_row list" where
  "select_shares P d = sort_key (\<lambda>r. (sr_created_at r, sr_share_id r)) (filter P (t_shares d))"

definition list_shares_where :: "env \<Rightarrow> (share_row \<Rightarrow> bool) \<Rightarrow> ('r, sharing_error, share_record list) cloud_prog" where
  "list_shares_where E P =
     bind (with_err map_share_error (db_query E (\<lambda>d. Inr (select_shares P d)))) (\<lambda>rows.
     lift (rmap (parse_share_row E) rows))"

definition list_shares_by_file :: "env \<Rightarrow> string \<Rightarrow> ('r, sharing_error, share_record list) cloud_prog" where
  "list_shares_by_file E file_id = list_shares_where E (\<lambda>r. sr_file_id r = file_id)"

definition list_active_shares_by_file :: "env \<Rightarrow> string \<Rightarrow> ('r, sharing_error, share_record list) cloud_prog" where
  "list_active_shares_by_file E file_id =
     list_shares_where E (\<lambda>r. sr_file_id r = file_id \<and> sr_revoked_at r = None)"

definition list_active_shares_by_file_share_id ::
  "env \<Rightarrow> string \<Rightarrow> ('r, sharing_error, share_record list) cloud_prog" where
  "list_active_shares_by_file_share_id E file_share_id =
     list_shares_where E (\<lambda>r. sr_file_share_id r = file_share_id \<and> sr_revoked_at r = None)"

definition sql_set_revoked :: "string \<Rightarrow> i64 \<Rightarrow> db \<Rightarrow> storage_error + db" where
  "sql_set_revoked share_id revoked_at d =
     (case find (\<lambda>r. sr_share_id r = share_id) (t_shares d) of
        None \<Rightarrow> Inl NotFound
      | Some r \<Rightarrow>
          if sr_revoked_at r \<noteq> None then Inl (ConstraintViolation ''share already revoked'')
          else Inr (d\<lparr>t_shares := map (\<lambda>r. if sr_share_id r = share_id then r\<lparr>sr_revoked_at := Some revoked_at\<rparr> else r)
                                    (t_shares d)\<rparr>))"

definition set_share_revoked_at :: "env \<Rightarrow> string \<Rightarrow> i64 \<Rightarrow> ('r, sharing_error, unit) cloud_prog" where
  "set_share_revoked_at E share_id revoked_at =
     with_err map_revoke_error (db_mutate E (\<lambda>_. sql_set_revoked share_id revoked_at))"


section \<open>Snapshots of shared files\<close>

definition sql_insert_file_share :: "env \<Rightarrow> file_share_row \<Rightarrow> db \<Rightarrow> storage_error + db" where
  "sql_insert_file_share E r d =
     (if fr_file_share_id r \<in> set (map fr_file_share_id (t_file_shares d))
      then Inl (constraint_failed ''UNIQUE constraint failed: file_shares.file_share_id'')
      else if \<not> json_valid E (fr_chunk_uuids r)
      then Inl (constraint_failed ''CHECK constraint failed: json_valid(chunk_uuids)'')
      else Inr (d\<lparr>t_file_shares := t_file_shares d @ [r]\<rparr>))"

definition insert_file_share ::
  "env \<Rightarrow> share_env \<Rightarrow> file_share_snapshot \<Rightarrow> ('r, sharing_error, unit) cloud_prog" where
  "insert_file_share E S snapshot =
     bind (lift (map_err InvalidJsonPayload (strings_to_json S (sn_chunk_uuids snapshot)))) (\<lambda>chunk_uuids_json.
     with_err map_storage_error (db_mutate E (\<lambda>_. sql_insert_file_share E
       \<lparr>fr_file_share_id = sn_file_share_id snapshot, fr_share_file_id = sn_share_file_id snapshot,
        fr_share_file_key_wrapped = sn_share_file_key_wrapped snapshot, fr_chunk_uuids = chunk_uuids_json,
        fr_chunk_size = int (sn_chunk_size snapshot), fr_file_size = u64_as_i64 (sn_file_size snapshot),
        fr_file_name = sn_file_name snapshot, fr_created_at = sn_created_at snapshot\<rparr>)))"

definition parse_file_share_row ::
  "share_env \<Rightarrow> file_share_row \<Rightarrow> sharing_error + file_share_snapshot" where
  "parse_file_share_row S r =
     rbind (ensure (Backend (''file_shares wrapped key is not 72 bytes: got '' @ show_nat (length (fr_share_file_key_wrapped r))))
              (length (fr_share_file_key_wrapped r) = 72)) (\<lambda>_.
     rbind (map_err InvalidJsonPayload (strings_from_json S (fr_chunk_uuids r))) (\<lambda>chunk_uuids.
     Inr \<lparr>sn_file_share_id = fr_file_share_id r, sn_share_file_id = fr_share_file_id r,
          sn_share_file_key_wrapped = fr_share_file_key_wrapped r, sn_chunk_uuids = chunk_uuids,
          sn_chunk_size = i64_as_u32 (fr_chunk_size r), sn_file_size = i64_as_u64 (fr_file_size r),
          sn_file_name = fr_file_name r, sn_created_at = fr_created_at r\<rparr>))"

definition get_file_share ::
  "env \<Rightarrow> share_env \<Rightarrow> string \<Rightarrow> ('r, sharing_error, file_share_snapshot option) cloud_prog" where
  "get_file_share E S file_share_id =
     bind (with_err map_storage_error (db_query E (\<lambda>d.
       Inr (find (\<lambda>r. fr_file_share_id r = file_share_id) (t_file_shares d))))) (\<lambda>row.
     case row of
       None \<Rightarrow> ret None
     | Some r \<Rightarrow> bind (lift (parse_file_share_row S r)) (\<lambda>s. ret (Some s)))"

definition delete_file_share :: "env \<Rightarrow> string \<Rightarrow> ('r, sharing_error, unit) cloud_prog" where
  "delete_file_share E file_share_id =
     with_err map_storage_error (db_mutate E (\<lambda>_ d.
       Inr (d\<lparr>t_file_shares := filter (\<lambda>r. fr_file_share_id r \<noteq> file_share_id) (t_file_shares d)\<rparr>)))"

end
