(* ===== verification/Share_Packages.thy ===== *)
theory Share_Packages
  imports Sharing_Store
begin

text \<open>
  \<open>sharing/packages.rs\<close>: a share package is the JSON payload with the key and the layout of a shared file, sealed for
  its recipient; the import opens it, checks it, wraps the key for this vault and stores a row.
\<close>

section \<open>Creation\<close>

definition create_share_package ::
  "env \<Rightarrow> share_env \<Rightarrow> bytes \<Rightarrow> i64 option \<Rightarrow> json \<Rightarrow> file_share_snapshot \<Rightarrow> bytes \<Rightarrow> ('r, sharing_error, bytes) cloud_prog" where
  "create_share_package E S recipient_public_key expires_at cloud_endpoint snapshot share_file_key =
     bind (get_own_public_key E) (\<lambda>owner_public_key.
     bind (draw (\<lambda>t. uuid_hyphenated E (draw_uuid E t 0))) (\<lambda>share_id.
     let payload = \<lparr>pl_share_id = share_id, pl_file_id = sn_share_file_id snapshot, pl_file_name = sn_file_name snapshot,
           pl_chunk_count = length (sn_chunk_uuids snapshot) mod 2 ^ 32, pl_chunk_size = sn_chunk_size snapshot,
           pl_chunk_uuids = sn_chunk_uuids snapshot, pl_file_key = base64_encode S share_file_key,
           pl_sender_public_key = base64_encode S owner_public_key, pl_cloud_endpoint = cloud_endpoint,
           pl_file_size = sn_file_size snapshot, pl_expires_at = expires_at\<rparr> in
     bind (lift (map_err InvalidJsonPayload (payload_to_json S payload))) (\<lambda>plaintext.
     seal E S recipient_public_key plaintext)))"


section \<open>Import\<close>

fun validate_chunk_uuids :: "env \<Rightarrow> nat \<Rightarrow> string list \<Rightarrow> sharing_error + unit" where
  "validate_chunk_uuids E index [] = Inr ()"
| "validate_chunk_uuids E index (uuid_string # rest) =
     rbind (ok_or (InvalidJsonPayload (''chunk_uuids['' @ show_nat index @ ''] is not a valid UUID'')) (uuid_parse E uuid_string)) (\<lambda>parsed.
     if uuid_version E parsed \<noteq> 4 then Inl (InvalidJsonPayload (''chunk_uuids['' @ show_nat index @ ''] is not UUID v4''))
     else validate_chunk_uuids E (index + 1) rest)"

definition validate_payload :: "env \<Rightarrow> share_package_payload \<Rightarrow> sharing_error + unit" where
  "validate_payload E payload =
     (if pl_share_id payload = [] then Inl (InvalidJsonPayload ''share_id is empty'')
      else if pl_file_id payload = [] then Inl (InvalidJsonPayload ''file_id is empty'')
      else if pl_file_name payload = [] then Inl (InvalidJsonPayload ''file_name is empty'')
      else if pl_chunk_count payload \<noteq> length (pl_chunk_uuids payload)
      then Inl (InvalidJsonPayload (''chunk_count ('' @ show_nat (pl_chunk_count payload) @
                  '') does not match chunk_uuids length ('' @ show_nat (length (pl_chunk_uuids payload)) @ '')''))
      else validate_chunk_uuids E 0 (pl_chunk_uuids payload))"

definition decode_file_key :: "share_env \<Rightarrow> string \<Rightarrow> sharing_error + bytes" where
  "decode_file_key S encoded =
     rbind (ok_or (InvalidJsonPayload ''file_key is not valid base64'') (base64_bytes S encoded)) (\<lambda>decoded.
     if length decoded \<noteq> 32 then Inl (InvalidFileKeyLength (length decoded)) else Inr decoded)"

definition decode_sender_public_key :: "share_env \<Rightarrow> string \<Rightarrow> sharing_error + bytes" where
  "decode_sender_public_key S encoded =
     rbind (ok_or (InvalidJsonPayload ''sender_public_key is not valid base64'') (base64_bytes S encoded)) (\<lambda>decoded.
     if length decoded \<noteq> 32 then Inl (InvalidSenderPublicKeyLength (length decoded)) else Inr decoded)"

definition import_share_package ::
  "env \<Rightarrow> share_env \<Rightarrow> bytes \<Rightarrow> bytes \<Rightarrow> bytes \<Rightarrow> i64 \<Rightarrow> ('r, sharing_error, received_share) cloud_prog" where
  "import_share_package E S wire recipient_private_key_bytes key_encryption_key now =
     bind (lift (open_package E S recipient_private_key_bytes wire)) (\<lambda>plaintext.
     bind (lift (map_err InvalidJsonPayload (payload_from_json S plaintext))) (\<lambda>payload.
     bind (lift (validate_payload E payload)) (\<lambda>_.
     bind (lift (decode_file_key S (pl_file_key payload))) (\<lambda>file_key.
     bind (lift (decode_sender_public_key S (pl_sender_public_key payload))) (\<lambda>sender_public_key.
     bind (lift (ok_or (InvalidJsonPayload ''invalid file_id'') (uuid_parse E (pl_file_id payload)))) (\<lambda>share_file_id.
     bind (with_err (\<lambda>_. Backend ''file key wrap failed'') (wrap_file_key E file_key share_file_id key_encryption_key)) (\<lambda>wrapped.
     bind (lift (if 0 < pl_file_size payload
                 then json_set ''_file_size'' (JInt (int (pl_file_size payload))) (pl_cloud_endpoint payload)
                 else Inr (pl_cloud_endpoint payload))) (\<lambda>cloud_endpoint.
     let row = \<lparr>rv_share_id = pl_share_id payload, rv_sender_contact_id = None, rv_sender_public_key = sender_public_key,
           rv_file_id = pl_file_id payload, rv_file_name = pl_file_name payload, rv_file_key_wrapped = wrapped,
           rv_chunk_count = pl_chunk_count payload, rv_chunk_size = pl_chunk_size payload,
           rv_chunk_uuids = pl_chunk_uuids payload, rv_cloud_endpoint = cloud_endpoint,
           rv_expires_at = pl_expires_at payload, rv_imported_at = now\<rparr> in
     bind (insert_received_share E S row) (\<lambda>_.
     ret row)))))))))"

end
