(* ===== verification/Share_Cloud.thy ===== *)
theory Share_Cloud
  imports Share_Packages Manifest_Backup Vault_Ops Staging
begin

text \<open>
  \<open>sharing/cloud.rs\<close> and \<open>sharing/revocation.rs\<close>: a file is shared by decrypting it from the vault and encrypting it
  again, under a key of its own, into blobs below \<open>shared/\<close>; a received share is fetched from there; a revocation
  deletes the blobs with the last active share.  \<open>generate_share_credentials\<close> of the cloud trait, which only this
  module calls, is passed next to the transport, and so is the constructor of the transports that are scoped to one
  share (\<open>RcloneTransport::new_for_share_download\<close>).
\<close>

section \<open>Blobs of the vault\<close>

text \<open>\<open>Path::exists\<close>: an error counts as absence.\<close>

definition path_exists :: "env \<Rightarrow> path \<Rightarrow> ('s, 'e, bool) prog" where
  "path_exists E p = bind (attempt (fs_exists E p)) (\<lambda>r. ret (case r of Inl _ \<Rightarrow> False | Inr b \<Rightarrow> b))"

definition any_exists :: "env \<Rightarrow> path \<Rightarrow> path \<Rightarrow> path \<Rightarrow> ('s, 'e, bool) prog" where
  "any_exists E flat pending cache =
     bind (path_exists E flat) (\<lambda>a.
     if a then ret True
     else bind (path_exists E pending) (\<lambda>b.
          if b then ret True else path_exists E cache))"

fun ensure_vault_blobs_local ::
  "env \<Rightarrow> 'r transport \<Rightarrow> path \<Rightarrow> chunk_record list \<Rightarrow> string list \<Rightarrow> ('r, sharing_error, unit) cloud_prog" where
  "ensure_vault_blobs_local E CT staging_directory [] seen = ret ()"
| "ensure_vault_blobs_local E CT staging_directory (chunk # rest) seen =
     (let name = ck_blob_name chunk in
      if name \<in> set seen then ensure_vault_blobs_local E CT staging_directory rest seen
      else
        let flat = blob_file staging_directory name;
            pending = blob_file (staging_directory @ [''pending'']) name;
            cache = blob_file (staging_directory @ [''cache'']) name in
        bind (any_exists E flat pending cache) (\<lambda>there.
        if there then ensure_vault_blobs_local E CT staging_directory rest (seen @ [name])
        else
          bind (with_err (\<lambda>e. CloudOperation (''vault blob fetch failed ('' @ name @ ''): '' @ transport_error_text e))
                 (ct_download_blob CT (''vault/'' @ name @ ''.blob'') flat)) (\<lambda>_.
          ensure_vault_blobs_local E CT staging_directory rest (seen @ [name]))))"


section \<open>A new shared file\<close>

definition parse_u32 :: "string \<Rightarrow> u32 option" where
  "parse_u32 s = (case parse_u64 s of None \<Rightarrow> None | Some n \<Rightarrow> if n < 2 ^ 32 then Some n else None)"

text \<open>The plaintext of a file of the vault, from its own blobs or from an epoch blob.\<close>

definition vault_plaintext ::
  "env \<Rightarrow> uuid \<Rightarrow> node \<Rightarrow> chunk_record list \<Rightarrow> bytes \<Rightarrow> path \<Rightarrow> 's metadata_store \<Rightarrow> ('s, sharing_error, bytes) prog" where
  "vault_plaintext E file_id node chunks key_encryption_key staging_directory MS =
     (if ck_epoch_blob_id (chunks ! 0) \<noteq> None
      then with_err (\<lambda>e. Backend (storage_error_text E e))
             (decrypt_epoch_file_to_memory E False (chunks ! 0) key_encryption_key staging_directory MS)
      else
        bind (lift (ok_or (Backend ''file node has no wrapped key'') (nd_file_key_wrapped node))) (\<lambda>wrapped.
        bind (lift (map_err (\<lambda>_. Backend ''file key unwrap failed'') (unwrap_file_key E wrapped file_id key_encryption_key))) (\<lambda>file_key.
        with_err (\<lambda>e. Backend (storage_error_text E e))
          (decrypt_file_to_memory E False file_id file_key (nd_size_bytes node) chunks staging_directory MS))))"

text \<open>Removal of the blobs uploaded so far, each on a best-effort basis.\<close>

fun delete_uploaded :: "'r transport \<Rightarrow> string list \<Rightarrow> ('r, 'e, unit) cloud_prog" where
  "delete_uploaded CT [] = ret ()"
| "delete_uploaded CT (q # rest) = bind (attempt (ct_delete_blob CT q)) (\<lambda>_. delete_uploaded CT rest)"

fun io_error_text :: "io_error \<Rightarrow> string" where
  "io_error_text (IoError k m) = m"

definition shared_path :: "string \<Rightarrow> string \<Rightarrow> string" where
  "shared_path file_share_id blob_name = ''shared/'' @ file_share_id @ ''/'' @ blob_name @ ''.blob''"

text \<open>One round of the loop: chunk \<open>index\<close> is padded, encrypted, written, uploaded and removed again.\<close>

definition share_chunk ::
  "env \<Rightarrow> 'r transport \<Rightarrow> path \<Rightarrow> string \<Rightarrow> bytes \<Rightarrow> uuid \<Rightarrow> usize \<Rightarrow> bytes \<Rightarrow> string list \<Rightarrow> nat
     \<Rightarrow> ('r, sharing_error, string) cloud_prog" where
  "share_chunk E CT staging_directory file_share_id share_file_key share_file_id chunk_size plaintext uploaded index =
     (let start = index * chunk_size;
          stop = min ((index + 1) * chunk_size) (length plaintext);
          padded = zero_pad chunk_size (drop start (take stop plaintext)) in
      bind (with_err (\<lambda>e. Backend (crypto_error_text e)) (encrypt_chunk E padded share_file_key share_file_id (index mod 2 ^ 32))) (\<lambda>blob.
      bind (draw (\<lambda>t. uuid_hyphenated E (draw_uuid E t 0))) (\<lambda>blob_name.
      let local_path = staging_directory @ [''shared-copy-'' @ blob_name @ ''.blob''];
          remote_path = shared_path file_share_id blob_name in
      bind (attempt (fs_write E local_path blob)) (\<lambda>written.
      case written of
        Inl error \<Rightarrow>
          bind (attempt (fs_remove E local_path)) (\<lambda>_.
          bind (delete_uploaded CT uploaded) (\<lambda>_.
          fail (CloudOperation (''share blob staging write failed (chunk '' @ show_nat index @ ''): '' @ io_error_text error))))
      | Inr _ \<Rightarrow>
          bind (attempt (ct_upload_blob CT local_path remote_path)) (\<lambda>sent.
          case sent of
            Inl error \<Rightarrow>
              bind (attempt (fs_remove E local_path)) (\<lambda>_.
              bind (delete_uploaded CT uploaded) (\<lambda>_.
              fail (CloudOperation (''share blob upload failed (chunk '' @ show_nat index @ ''): '' @ transport_error_text error))))
          | Inr _ \<Rightarrow>
              bind (attempt (fs_remove E local_path)) (\<lambda>_.
              ret blob_name))))))"

fun share_chunks ::
  "env \<Rightarrow> 'r transport \<Rightarrow> path \<Rightarrow> string \<Rightarrow> bytes \<Rightarrow> uuid \<Rightarrow> usize \<Rightarrow> bytes \<Rightarrow> string list \<Rightarrow> nat list
     \<Rightarrow> ('r, sharing_error, string list) cloud_prog" where
  "share_chunks E CT staging_directory file_share_id share_file_key share_file_id chunk_size plaintext chunk_uuids [] = ret chunk_uuids"
| "share_chunks E CT staging_directory file_share_id share_file_key share_file_id chunk_size plaintext chunk_uuids (index # rest) =
     bind (share_chunk E CT staging_directory file_share_id share_file_key share_file_id chunk_size plaintext
             (map (shared_path file_share_id) chunk_uuids) index) (\<lambda>blob_name.
     share_chunks E CT staging_directory file_share_id share_file_key share_file_id chunk_size plaintext (chunk_uuids @ [blob_name]) rest)"

definition share_chunk_count :: "bytes \<Rightarrow> usize \<Rightarrow> sharing_error + usize" where
  "share_chunk_count plaintext chunk_size =
     (if plaintext = [] then Inr 1
      else if chunk_size = 0 then Inl (Panicked ''attempt to divide by zero'')
      else Inr (div_ceil (length plaintext) chunk_size))"

definition build_new_file_share ::
  "env \<Rightarrow> 'r transport \<Rightarrow> 'r site metadata_store \<Rightarrow> uuid \<Rightarrow> string \<Rightarrow> i64 \<Rightarrow> bytes \<Rightarrow> path
     \<Rightarrow> ('r, sharing_error, file_share_snapshot \<times> bytes) cloud_prog" where
  "build_new_file_share E CT MS file_id file_share_id now key_encryption_key staging_directory =
     bind (with_err (\<lambda>_. Backend ''file not found'') (query E (ms_get_node MS file_id))) (\<lambda>node.
     if nd_node_type node \<noteq> File then fail (Backend ''node is not a file'')
     else
       bind (with_err (\<lambda>e. Backend (storage_error_text E e)) (query E (ms_get_chunks MS file_id))) (\<lambda>unsorted.
       let chunks = sort_key ck_chunk_index unsorted in
       if chunks = [] then fail (Backend ''file has no chunks'')
       else
         bind (with_err (\<lambda>_. Backend ''manifest meta lookup failed'') (query E (ms_get_meta MS ''chunk_size_bytes''))) (\<lambda>v.
         bind (lift (ok_or (Backend ''chunk_size_bytes not set'') v)) (\<lambda>chunk_size_text.
         bind (lift (ok_or (Backend ''chunk_size_bytes is not a valid u32'') (parse_u32 chunk_size_text))) (\<lambda>chunk_size.
         bind (ensure_vault_blobs_local E CT staging_directory chunks []) (\<lambda>_.
         bind (vault_plaintext E file_id node chunks key_encryption_key staging_directory MS) (\<lambda>plaintext.
         let file_size = length plaintext in
         bind (generate_file_key E) (\<lambda>share_file_key.
         bind (draw (\<lambda>t. draw_uuid E t 0)) (\<lambda>share_file_uuid.
         bind (lift (share_chunk_count plaintext chunk_size)) (\<lambda>chunk_count.
         bind (share_chunks E CT staging_directory file_share_id share_file_key share_file_uuid chunk_size plaintext [] [0..<chunk_count]) (\<lambda>chunk_uuids.
         bind (with_err (\<lambda>_. Backend ''share file key wrap failed'') (wrap_file_key E share_file_key share_file_uuid key_encryption_key)) (\<lambda>wrapped.
         ret (\<lparr>sn_file_share_id = file_share_id, sn_share_file_id = uuid_hyphenated E share_file_uuid,
               sn_share_file_key_wrapped = wrapped, sn_chunk_uuids = chunk_uuids, sn_chunk_size = chunk_size,
               sn_file_size = file_size, sn_file_name = nd_name node, sn_created_at = now\<rparr>, share_file_key)))))))))))))"


section \<open>Creation of a share\<close>

record create_share_output =
  so_share_id :: string
  so_wire_bytes :: bytes

definition ttl_of :: "i64 option \<Rightarrow> i64 \<Rightarrow> u32" where
  "ttl_of expires_at now =
     (case expires_at of
        Some e \<Rightarrow> nat (min (7 * 24 * 3600) (max 60 (max (- (2 ^ 63)) (min (2 ^ 63 - 1) (e - now)))))
      | None \<Rightarrow> 7 * 24 * 3600)"

text \<open>The snapshot of an active share of the file is used again; otherwise a new one is built and stored.\<close>

definition share_snapshot ::
  "env \<Rightarrow> share_env \<Rightarrow> 'r transport \<Rightarrow> 'r site metadata_store \<Rightarrow> uuid \<Rightarrow> i64 \<Rightarrow> bytes \<Rightarrow> path
     \<Rightarrow> ('r, sharing_error, string \<times> file_share_snapshot \<times> bytes) cloud_prog" where
  "share_snapshot E S CT MS file_id now key_encryption_key staging_directory =
     bind (list_active_shares_by_file E (uuid_hyphenated E file_id)) (\<lambda>active_shares.
     case active_shares of
       first # _ \<Rightarrow>
         let file_share_id = sh_file_share_id first in
         bind (get_file_share E S file_share_id) (\<lambda>found.
         bind (lift (ok_or (Backend ''active share has no file_shares snapshot'') found)) (\<lambda>snapshot.
         bind (lift (ok_or (Backend ''snapshot share_file_id is not a UUID'') (uuid_parse E (sn_share_file_id snapshot)))) (\<lambda>share_file_uuid.
         bind (lift (map_err (\<lambda>_. Backend ''share file key unwrap failed'')
                 (unwrap_file_key E (sn_share_file_key_wrapped snapshot) share_file_uuid key_encryption_key))) (\<lambda>share_file_key.
         ret (file_share_id, snapshot, share_file_key)))))
     | [] \<Rightarrow>
         bind (draw (\<lambda>t. uuid_hyphenated E (draw_uuid E t 0))) (\<lambda>file_share_id.
         bind (build_new_file_share E CT MS file_id file_share_id now key_encryption_key staging_directory) (\<lambda>(snapshot, share_file_key).
         bind (insert_file_share E S snapshot) (\<lambda>_.
         ret (file_share_id, snapshot, share_file_key)))))"

type_synonym 'r credentials = "string \<Rightarrow> u32 \<Rightarrow> ('r, transport_error, json option) cloud_prog"

definition default_generate_share_credentials :: "'r credentials" where
  "default_generate_share_credentials path_prefix ttl_seconds = ret None"

definition share_endpoint ::
  "'r credentials \<Rightarrow> string \<Rightarrow> u32 \<Rightarrow> ('r, sharing_error, json \<times> string option \<times> string option) cloud_prog" where
  "share_endpoint G cloud_path_prefix ttl_seconds =
     bind (attempt (G cloud_path_prefix ttl_seconds)) (\<lambda>r.
     case r of
       Inr (Some creds0) \<Rightarrow>
         bind (lift (json_set ''receipt_requested'' (JBool True) creds0)) (\<lambda>creds.
         let text_field = (\<lambda>k. Option.bind (json_get k creds) as_str);
             key_id = (case text_field ''key_id'' of Some k \<Rightarrow> Some k | None \<Rightarrow> text_field ''permission_id'') in
         ret (creds, key_id, text_field ''folder_id''))
     | Inr None \<Rightarrow> ret (JObject [(''path_prefix'', JString cloud_path_prefix)], None, None)
     | Inl (SharingNotSupported msg) \<Rightarrow> fail (NotSupported msg)
     | Inl e \<Rightarrow> fail (CloudOperation (transport_error_text e)))"

definition create_share ::
  "env \<Rightarrow> share_env \<Rightarrow> 'r transport \<Rightarrow> 'r credentials \<Rightarrow> 'r site metadata_store \<Rightarrow> uuid \<Rightarrow> uuid \<Rightarrow> i64 option \<Rightarrow> i64 \<Rightarrow> bytes \<Rightarrow> path
     \<Rightarrow> ('r, sharing_error, create_share_output) cloud_prog" where
  "create_share E S CT G MS file_id contact_id expires_at now key_encryption_key staging_directory =
     bind (share_snapshot E S CT MS file_id now key_encryption_key staging_directory) (\<lambda>(file_share_id, snapshot, share_file_key).
     let cloud_path_prefix = ''shared/'' @ file_share_id @ ''/'' in
     bind (share_endpoint G cloud_path_prefix (ttl_of expires_at now)) (\<lambda>(cloud_endpoint, download_key_id, download_folder_id).
     bind (with_err (\<lambda>_. ContactNotFound) (get_contact E contact_id)) (\<lambda>recipient_contact.
     bind (create_share_package E S (co_public_key recipient_contact) expires_at cloud_endpoint snapshot share_file_key) (\<lambda>wire.
     bind (draw (\<lambda>t. uuid_hyphenated E (draw_uuid E t 0))) (\<lambda>share_id.
     bind (insert_share E
        \<lparr>sh_share_id = share_id, sh_file_id = uuid_hyphenated E file_id, sh_contact_id = contact_id,
         sh_file_share_id = file_share_id, sh_cloud_path = cloud_path_prefix, sh_created_at = now,
         sh_expires_at = expires_at, sh_revoked_at = None, sh_download_key_id = download_key_id,
         sh_download_folder_id = download_folder_id, sh_receipt_requested = True, sh_receipt_received_at = None\<rparr>) (\<lambda>_.
     ret \<lparr>so_share_id = share_id, so_wire_bytes = wire\<rparr>))))))"


section \<open>Revocation\<close>

fun delete_shared :: "'r transport \<Rightarrow> nat \<Rightarrow> string list \<Rightarrow> ('r, sharing_error, unit) cloud_prog" where
  "delete_shared CT index [] = ret ()"
| "delete_shared CT index (blob_path # rest) =
     bind (attempt (ct_delete_blob CT blob_path)) (\<lambda>r.
     if r = Inr () \<or> r = Inl BlobNotFound then delete_shared CT (index + 1) rest
     else fail (RevocationPartial index))"

definition revoke_share :: "env \<Rightarrow> 'r transport \<Rightarrow> string \<Rightarrow> i64 \<Rightarrow> ('r, sharing_error, unit) cloud_prog" where
  "revoke_share E CT share_id now =
     bind (get_share E share_id) (\<lambda>share.
     if sh_revoked_at share \<noteq> None then fail ShareAlreadyRevoked
     else
       bind (list_active_shares_by_file_share_id E (sh_file_share_id share)) (\<lambda>remaining.
       let is_last = (length remaining = 1 \<and> sh_share_id (remaining ! 0) = share_id) in
       bind (if is_last
             then bind (with_err (\<lambda>e. CloudOperation (transport_error_text e))
                          (ct_list_blobs CT (''shared/'' @ sh_file_share_id share @ ''/''))) (\<lambda>blob_paths.
                  delete_shared CT 0 blob_paths)
             else ret ()) (\<lambda>_.
       bind (set_share_revoked_at E share_id now) (\<lambda>_.
       if is_last then delete_file_share E (sh_file_share_id share) else ret ()))))"


section \<open>Fetching a received share\<close>

text \<open>\<open>String::as_bytes\<close>: UTF-8, for the characters below 256.\<close>

definition utf8 :: "string \<Rightarrow> bytes" where
  "utf8 s = concat (map (\<lambda>c. let n = of_char c :: nat in
     if n < 128 then [of_nat n] else [of_nat (0xC0 + n div 64), of_nat (0x80 + n mod 64)]) s)"

type_synonym 'r scoped = "path \<Rightarrow> path \<Rightarrow> string \<Rightarrow> 'r transport"

definition endpoint_text :: "string \<Rightarrow> json \<Rightarrow> sharing_error + string" where
  "endpoint_text k endpoint = ok_or InvalidSharePackage (Option.bind (json_get k endpoint) as_str)"

definition newline :: string where "newline = [char_of (10 :: nat)]"

definition conf_write_failed :: "io_error \<Rightarrow> sharing_error" where
  "conf_write_failed e = CloudOperation (''temp conf write failed: '' @ io_error_text e)"

definition build_b2_share_transport ::
  "env \<Rightarrow> 'r scoped \<Rightarrow> path \<Rightarrow> json \<Rightarrow> path \<Rightarrow> ('r, sharing_error, 'r transport) cloud_prog" where
  "build_b2_share_transport E R bin endpoint conf_path =
     bind (lift (endpoint_text ''key_id'' endpoint)) (\<lambda>key_id.
     bind (lift (endpoint_text ''application_key'' endpoint)) (\<lambda>app_key.
     bind (lift (endpoint_text ''bucket'' endpoint)) (\<lambda>bucket.
     bind (lift (endpoint_text ''path_prefix'' endpoint)) (\<lambda>path_prefix.
     bind (with_err conf_write_failed (fs_write E conf_path (utf8
            (''[arxshare-dl]'' @ newline @ ''type = b2'' @ newline @ ''account = '' @ key_id @ newline @
             ''key = '' @ app_key @ newline)))) (\<lambda>_.
     ret (R bin conf_path (''arxshare-dl:'' @ bucket @ ''/'' @ rev (dropWhile (\<lambda>c. c = CHR ''/'') (rev path_prefix)))))))))"

definition build_gdrive_share_transport ::
  "env \<Rightarrow> share_env \<Rightarrow> 'r scoped \<Rightarrow> path \<Rightarrow> json \<Rightarrow> path \<Rightarrow> ('r, sharing_error, 'r transport) cloud_prog" where
  "build_gdrive_share_transport E S R bin endpoint conf_path =
     bind (lift (endpoint_text ''folder_id'' endpoint)) (\<lambda>folder_id.
     bind (lift (endpoint_text ''sa_credentials_json'' endpoint)) (\<lambda>sa_json_raw.
     bind (lift (case value_from_json S sa_json_raw of
                   Inl _ \<Rightarrow> Inl InvalidSharePackage
                 | Inr v \<Rightarrow> map_err (\<lambda>_. InvalidSharePackage) (value_to_json S v))) (\<lambda>sa_json_compact.
     bind (with_err conf_write_failed (fs_write E conf_path (utf8
            (''[arxshare-gdl]'' @ newline @ ''type = drive'' @ newline @ ''scope = drive.readonly'' @ newline @
             ''service_account_credentials = '' @ sa_json_compact @ newline @ ''root_folder_id = '' @ folder_id @ newline)))) (\<lambda>_.
     ret (R bin conf_path ''arxshare-gdl:'')))))"

fun cleanup_temp_files :: "env \<Rightarrow> path list \<Rightarrow> ('s, 'e, unit) prog" where
  "cleanup_temp_files E [] = ret ()"
| "cleanup_temp_files E (p # ps) = bind (attempt (fs_remove E p)) (\<lambda>_. cleanup_temp_files E ps)"

text \<open>What every exit from the loop does first.\<close>

definition abandon :: "env \<Rightarrow> path list \<Rightarrow> bool \<Rightarrow> path \<Rightarrow> sharing_error \<Rightarrow> ('s, sharing_error, 'a) prog" where
  "abandon E local_paths has_scoped_transport conf_path error =
     bind (cleanup_temp_files E local_paths) (\<lambda>_.
     bind (if has_scoped_transport then bind (attempt (fs_remove E conf_path)) (\<lambda>_. ret ()) else ret ()) (\<lambda>_.
     fail error))"

fun fetch_chunks ::
  "env \<Rightarrow> 'r transport \<Rightarrow> path \<Rightarrow> bool \<Rightarrow> path \<Rightarrow> string \<Rightarrow> nat \<Rightarrow> path list \<Rightarrow> string list \<Rightarrow> ('r, sharing_error, path list) cloud_prog" where
  "fetch_chunks E CT staging_directory has_scoped_transport conf_path path_prefix i local_paths [] = ret local_paths"
| "fetch_chunks E CT staging_directory has_scoped_transport conf_path path_prefix i local_paths (chunk_uuid # rest) =
     (if \<not> is_uuid_v4_string E chunk_uuid then abandon E local_paths has_scoped_transport conf_path InvalidSharePackage
      else
        let local_path = blob_file staging_directory chunk_uuid in
        if \<not> prefix staging_directory local_path then abandon E local_paths False conf_path InvalidSharePackage
        else if \<not> has_scoped_transport \<and> path_prefix = [] then abandon E local_paths False conf_path InvalidSharePackage
        else
          let remote_path = (if has_scoped_transport then chunk_uuid @ ''.blob'' else path_prefix @ chunk_uuid @ ''.blob'') in
          bind (attempt (ct_download_blob CT remote_path local_path)) (\<lambda>r.
          case r of
            Inl e \<Rightarrow> abandon E local_paths has_scoped_transport conf_path
                       (CloudOperation (''download failed (chunk '' @ show_nat i @ ''): '' @ transport_error_text e))
          | Inr _ \<Rightarrow>
              bind (path_exists E local_path) (\<lambda>there.
              if \<not> there
              then abandon E local_paths has_scoped_transport conf_path
                     (CloudOperation (''blob not written by transport after reporting success (chunk '' @ show_nat i @ '')''))
              else fetch_chunks E CT staging_directory has_scoped_transport conf_path path_prefix (i + 1) (local_paths @ [local_path]) rest)))"

definition no_credentials :: sharing_error where
  "no_credentials = CloudOperation
     (''share download requires sender cloud credentials; '' @
      ''only Backblaze B2 and Google Drive shares support cross-user download'')"

definition fetch_received_share_to_local ::
  "env \<Rightarrow> share_env \<Rightarrow> 'r transport \<Rightarrow> 'r scoped \<Rightarrow> path \<Rightarrow> path option \<Rightarrow> string \<Rightarrow> ('r, sharing_error, path list) cloud_prog" where
  "fetch_received_share_to_local E S CT R staging_directory rclone_binary_path share_id =
     bind (get_received_share E S share_id) (\<lambda>received_share.
     bind (with_err (\<lambda>e. CloudOperation (''staging directory: '' @ storage_error_text E e)) (ensure_staging_directory E staging_directory)) (\<lambda>_.
     let endpoint = rv_cloud_endpoint received_share;
         provider = Option.bind (json_get ''provider'' endpoint) as_str;
         conf_path = staging_directory @ [''dl-'' @ share_id @ ''.conf''] in
     bind (case (rclone_binary_path, provider) of
             (Some bin, Some p) \<Rightarrow>
               if p = ''b2'' then bind (build_b2_share_transport E R bin endpoint conf_path) (\<lambda>t. ret (Some t))
               else if p = ''drive'' then bind (build_gdrive_share_transport E S R bin endpoint conf_path) (\<lambda>t. ret (Some t))
               else ret None
           | _ \<Rightarrow> ret None) (\<lambda>scoped_transport.
     let has_scoped_transport = (scoped_transport \<noteq> None) in
     if \<not> has_scoped_transport \<and> provider = None then fail no_credentials
     else
       let effective_cloud = (case scoped_transport of Some t \<Rightarrow> t | None \<Rightarrow> CT);
           path_prefix = (case Option.bind (json_get ''path_prefix'' endpoint) as_str of Some s \<Rightarrow> s | None \<Rightarrow> []) in
       bind (fetch_chunks E effective_cloud staging_directory has_scoped_transport conf_path path_prefix 0 []
              (rv_chunk_uuids received_share)) (\<lambda>local_paths.
       bind (if has_scoped_transport then bind (attempt (fs_remove E conf_path)) (\<lambda>_. ret ()) else ret ()) (\<lambda>_.
       ret local_paths)))))"

end
