(* ===== verification/Sharing_Inv.thy ===== *)
theory Sharing_Inv
  imports Sharing_Store Manifest_Inv
begin

text \<open>
  The rows of the sharing tables: what every operation of the store keeps, that the rows it wrote are always read
  back, and what an insertion can be relied on to return.
\<close>

section \<open>Names\<close>

definition untrimmed :: "string \<Rightarrow> bool" where
  "untrimmed s \<longleftrightarrow> s \<noteq> [] \<and> \<not> is_whitespace (hd s) \<and> \<not> is_whitespace (last s)"

lemma dropWhile_suffix: "\<exists>xs. s = xs @ dropWhile P s"
  by (metis takeWhile_dropWhile_id)

lemma dropWhile_self: "xs = [] \<or> \<not> P (hd xs) \<Longrightarrow> dropWhile P xs = xs"
  by (cases xs) auto

lemma trim_untrimmed: "untrimmed s \<Longrightarrow> trim s = s"
  by (simp add: trim_def untrimmed_def dropWhile_self hd_rev)

lemma untrimmed_trim:
  assumes "trim s \<noteq> []"
  shows "untrimmed (trim s)"
proof -
  let ?d = "dropWhile is_whitespace s"
  let ?r = "dropWhile is_whitespace (rev ?d)"
  have t: "trim s = rev ?r" by (simp add: trim_def)
  then have r: "?r \<noteq> []" using assms by simp
  have "\<not> is_whitespace (hd ?r)" using r by (rule hd_dropWhile)
  then have "\<not> is_whitespace (last (rev ?r))" using r by (simp add: last_rev)
  moreover have "\<not> is_whitespace (hd (rev ?r))"
  proof -
    obtain xs where "rev ?d = xs @ ?r" using dropWhile_suffix by metis
    then have d: "?d = rev ?r @ rev xs" by (metis rev_append rev_rev_ident)
    have "hd (rev ?r @ rev xs) = hd (rev ?r)" using r by (metis hd_append2 rev_is_Nil_conv)
    then have "hd ?d = hd (rev ?r)" using d by metis
    moreover have "?d \<noteq> []" using r by (metis dropWhile.simps(1) rev.simps(1))
    ultimately show ?thesis using hd_dropWhile [of is_whitespace s] by metis
  qed
  ultimately show ?thesis using r by (simp add: t untrimmed_def)
qed

lemma display_name_new_Inr: "display_name_new v = Inr n \<Longrightarrow> display_name_new n = Inr n"
  by (auto simp: display_name_new_def Let_def trim_untrimmed untrimmed_trim split: if_splits)


section \<open>The invariant\<close>

definition contact_row_ok :: "env \<Rightarrow> contact_row \<Rightarrow> bool" where
  "contact_row_ok E r \<longleftrightarrow>
     (\<exists>u. ct_contact_id r = uuid_hyphenated E u \<and> is_uuid_v4 E u) \<and> length (ct_public_key r) = 32 \<and>
     display_name_new (ct_display_name r) = Inr (ct_display_name r)"

definition share_row_ok :: "env \<Rightarrow> string set \<Rightarrow> share_row \<Rightarrow> bool" where
  "share_row_ok E cids r \<longleftrightarrow> canonical E (sr_contact_id r) \<and> sr_contact_id r \<in> cids"

definition received_row_ok :: "env \<Rightarrow> share_env \<Rightarrow> string set \<Rightarrow> received_share_row \<Rightarrow> bool" where
  "received_row_ok E S cids r \<longleftrightarrow>
     pred_option (\<lambda>c. canonical E c \<and> c \<in> cids) (rr_sender_contact_id r) \<and> length (rr_sender_public_key r) = 32 \<and>
     length (rr_file_key_wrapped r) = 72 \<and> is_ok (strings_from_json S (rr_chunk_uuids r)) \<and>
     is_ok (value_from_json S (rr_cloud_endpoint r))"

definition file_share_row_ok :: "share_env \<Rightarrow> file_share_row \<Rightarrow> bool" where
  "file_share_row_ok S r \<longleftrightarrow> length (fr_share_file_key_wrapped r) = 72 \<and> is_ok (strings_from_json S (fr_chunk_uuids r))"

definition sharing_inv :: "env \<Rightarrow> share_env \<Rightarrow> db \<Rightarrow> bool" where
  "sharing_inv E S d \<longleftrightarrow>
     (distinct (map ct_contact_id (t_contacts d)) \<and> (\<forall>r \<in> set (t_contacts d). contact_row_ok E r)) \<and>
     (distinct (map sr_share_id (t_shares d)) \<and>
        (\<forall>r \<in> set (t_shares d). share_row_ok E (ct_contact_id ` set (t_contacts d)) r)) \<and>
     (distinct (map rr_share_id (t_received_shares d)) \<and>
        (\<forall>r \<in> set (t_received_shares d). received_row_ok E S (ct_contact_id ` set (t_contacts d)) r)) \<and>
     (distinct (map fr_file_share_id (t_file_shares d)) \<and> (\<forall>r \<in> set (t_file_shares d). file_share_row_ok S r))"

text \<open>What the types of the source guarantee of an argument.\<close>

definition typed_contact :: "contact \<Rightarrow> bool" where
  "typed_contact c \<longleftrightarrow> length (co_public_key c) = 32 \<and> (\<exists>v. display_name_new v = Inr (co_display_name c))"

definition typed_received :: "received_share \<Rightarrow> bool" where
  "typed_received r \<longleftrightarrow> length (rv_sender_public_key r) = 32 \<and> length (rv_file_key_wrapped r) = 72 \<and>
     rv_chunk_count r < 2 ^ 32 \<and> rv_chunk_size r < 2 ^ 32"

definition typed_snapshot :: "file_share_snapshot \<Rightarrow> bool" where
  "typed_snapshot s \<longleftrightarrow> length (sn_share_file_key_wrapped s) = 72 \<and> sn_chunk_size s < 2 ^ 32 \<and> sn_file_size s < 2 ^ 64"

lemma json_lawsD:
  assumes "json_laws E S"
  shows "strings_to_json S xs = Inr t \<Longrightarrow> strings_from_json S t = Inr xs"
    and "value_to_json S j = Inr t \<Longrightarrow> value_from_json S t = Inr j"
    and "payload_to_json S p = Inr b \<Longrightarrow> payload_from_json S b = Inr p"
    and "base64_bytes S (base64_encode S b) = Some b"
  using assms unfolding json_laws_def by blast+

lemma bind_lift [simp]: "bind (lift r) f w = (case r of Inl e \<Rightarrow> (Inl e, w) | Inr a \<Rightarrow> f a w)"
  by (simp add: bind_def lift_def)

text \<open>A call that changes the database, seen from the rows.\<close>

lemma call_keeps:
  assumes "with_err g (db_mutate E f) w = (r, w')" "P (manifest (store w))"
    and "\<And>t d'. f t (manifest (store w)) = Inr d' \<Longrightarrow> P d'"
  shows "P (manifest (store w'))"
  using assms by (auto simp: with_err_def db_mutate_def mutate_def result_simps split: option.splits sum.splits prod.splits)

lemma sharing_inv_cong:
  "t_contacts d' = t_contacts d \<Longrightarrow> t_shares d' = t_shares d \<Longrightarrow> t_received_shares d' = t_received_shares d \<Longrightarrow>
   t_file_shares d' = t_file_shares d \<Longrightarrow> sharing_inv E S d' = sharing_inv E S d"
  by (simp add: sharing_inv_def)

text \<open>The rows refer to contacts, so the invariant survives when contacts are added.\<close>

lemma rows_mono:
  "share_row_ok E A r \<Longrightarrow> A \<subseteq> B \<Longrightarrow> share_row_ok E B r"
  "received_row_ok E S A q \<Longrightarrow> A \<subseteq> B \<Longrightarrow> received_row_ok E S B q"
  by (auto simp: share_row_ok_def received_row_ok_def pred_option_def)

lemma insert_contact_inv:
  assumes "typed_contact c" "insert_contact E c w = (r, w')" "sharing_inv E S (manifest (store w))"
  shows "sharing_inv E S (manifest (store w'))"
proof (cases "is_uuid_v4 E (co_contact_id c)")
  case True
  then have "with_err map_storage_error (db_mutate E (\<lambda>_. sql_insert_contact (contact_row_of E c))) w = (r, w')"
    using assms(2) by (simp add: insert_contact_def)
  then show ?thesis
  proof (rule call_keeps [where P = "sharing_inv E S", OF _ assms(3)])
    fix d' let ?d = "manifest (store w)"
    assume "sql_insert_contact (contact_row_of E c) ?d = Inr d'"
    then have d': "d' = ?d\<lparr>t_contacts := t_contacts ?d @ [contact_row_of E c]\<rparr>"
      and new: "ct_contact_id (contact_row_of E c) \<notin> ct_contact_id ` set (t_contacts ?d)"
      by (auto simp: sql_insert_contact_def split: if_splits)
    have "contact_row_ok E (contact_row_of E c)"
      using True assms(1) by (auto simp: contact_row_ok_def contact_row_of_def typed_contact_def display_name_new_Inr)
    then show "sharing_inv E S d'"
      using new assms(3) by (simp add: sharing_inv_def d') (blast intro: rows_mono)
  qed
qed (use assms in \<open>simp add: insert_contact_def\<close>)

lemma delete_contact_inv:
  assumes "delete_contact E u w = (r, w')" "sharing_inv E S (manifest (store w))"
  shows "sharing_inv E S (manifest (store w'))"
proof (cases "is_uuid_v4 E u")
  case True
  then have "with_err map_storage_error (db_mutate E (\<lambda>_. sql_delete_contact (uuid_hyphenated E u))) w = (r, w')"
    using assms(1) by (simp add: delete_contact_def)
  then show ?thesis
  proof (rule call_keeps [where P = "sharing_inv E S", OF _ assms(2)])
    fix d' let ?d = "manifest (store w)"
    assume "sql_delete_contact (uuid_hyphenated E u) ?d = Inr d'"
    then have d': "d' = ?d\<lparr>t_contacts := filter (\<lambda>r. ct_contact_id r \<noteq> uuid_hyphenated E u) (t_contacts ?d)\<rparr>"
      and free: "uuid_hyphenated E u \<notin> sr_contact_id ` set (t_shares ?d)" "Some (uuid_hyphenated E u) \<notin> rr_sender_contact_id ` set (t_received_shares ?d)"
      by (auto simp: sql_delete_contact_def split: if_splits)
    have left: "ct_contact_id ` set (t_contacts d') = ct_contact_id ` set (t_contacts ?d) - {uuid_hyphenated E u}" by (auto simp: d')
    have "share_row_ok E (ct_contact_id ` set (t_contacts d')) s"
      if "s \<in> set (t_shares ?d)" "share_row_ok E (ct_contact_id ` set (t_contacts ?d)) s" for s
    proof -
      have "sr_contact_id s \<noteq> uuid_hyphenated E u" using that(1) free(1) by (metis imageI)
      then show ?thesis using that(2) by (simp add: share_row_ok_def left)
    qed
    moreover have "received_row_ok E S (ct_contact_id ` set (t_contacts d')) s"
      if "s \<in> set (t_received_shares ?d)" "received_row_ok E S (ct_contact_id ` set (t_contacts ?d)) s" for s
      using that free(2) by (cases "rr_sender_contact_id s") (force simp: received_row_ok_def left)+
    ultimately show "sharing_inv E S d'" using assms(2) by (simp add: sharing_inv_def d' distinct_map_filter)
  qed
qed (use assms in \<open>simp add: delete_contact_def\<close>)

lemma insert_received_share_inv:
  assumes "json_laws E S" "uuid_laws E" "typed_received s" "insert_received_share E S s w = (r, w')" "sharing_inv E S (manifest (store w))"
  shows "sharing_inv E S (manifest (store w'))"
proof -
  have "sharing_inv E S d'"
    if ins: "sql_insert_received_share E row (manifest (store w)) = Inr d'" and c: "strings_to_json S (rv_chunk_uuids s) = Inr u"
      "value_to_json S (rv_cloud_endpoint s) = Inr j" and row: "rr_sender_contact_id row = map_option (uuid_hyphenated E) (rv_sender_contact_id s)"
        "rr_sender_public_key row = rv_sender_public_key s" "rr_file_key_wrapped row = rv_file_key_wrapped s"
        "rr_chunk_uuids row = u" "rr_cloud_endpoint row = j" for row u j d'
  proof -
    have "case rr_sender_contact_id row of None \<Rightarrow> True | Some c \<Rightarrow> c \<in> ct_contact_id ` set (t_contacts (manifest (store w)))"
      using ins by (auto simp: sql_insert_received_share_def split: if_splits option.split)
    then have "received_row_ok E S (ct_contact_id ` set (t_contacts (manifest (store w)))) row"
      using assms(2,3) json_lawsD(1,2) [OF assms(1)] c
      by (cases "rv_sender_contact_id s") (simp_all add: received_row_ok_def row typed_received_def)
    then show ?thesis using ins assms(5) by (auto simp: sharing_inv_def sql_insert_received_share_def split: if_splits)
  qed
  note row = this
  show ?thesis
    using assms(4,5) unfolding insert_received_share_def bind_lift
    by (simp split: if_splits sum.splits) (erule call_keeps [where P = "sharing_inv E S"], assumption, erule row, simp_all add: map_err_eq_Inr)
qed

lemma insert_share_inv:
  assumes "uuid_laws E" "insert_share E s w = (r, w')" "sharing_inv E S (manifest (store w))"
  shows "sharing_inv E S (manifest (store w'))"
proof (rule call_keeps [where P = "sharing_inv E S", OF assms(2) [unfolded insert_share_def] assms(3)])
  fix d' assume ins: "sql_insert_share (share_row_of E s) (manifest (store w)) = Inr d'"
  have "canonical E (sr_contact_id (share_row_of E s))" using assms(1) by (simp add: share_row_of_def)
  with ins have "share_row_ok E (ct_contact_id ` set (t_contacts (manifest (store w)))) (share_row_of E s)"
    by (auto simp: sql_insert_share_def share_row_ok_def split: if_splits)
  with ins assms(3) show "sharing_inv E S d'" by (auto simp: sharing_inv_def sql_insert_share_def split: if_splits)
qed

lemma set_share_revoked_at_inv:
  assumes "set_share_revoked_at E i t w = (r, w')" "sharing_inv E S (manifest (store w))"
  shows "sharing_inv E S (manifest (store w'))"
proof (rule call_keeps [where P = "sharing_inv E S", OF assms(1) [unfolded set_share_revoked_at_def] assms(2)])
  fix d' let ?d = "manifest (store w)"
  let ?f = "\<lambda>r. if sr_share_id r = i then r\<lparr>sr_revoked_at := Some t\<rparr> else r"
  assume "sql_set_revoked i t ?d = Inr d'"
  then have d': "d' = ?d\<lparr>t_shares := map ?f (t_shares ?d)\<rparr>" by (auto simp: sql_set_revoked_def split: option.splits if_splits)
  have ids: "sr_share_id (?f r) = sr_share_id r" "sr_contact_id (?f r) = sr_contact_id r" for r by simp_all
  have "map sr_share_id (map ?f (t_shares ?d)) = map sr_share_id (t_shares ?d)" unfolding map_map by (rule map_cong) (simp_all add: ids)
  moreover have "\<forall>r \<in> set (map ?f (t_shares ?d)). share_row_ok E C r"
    if "\<forall>r \<in> set (t_shares ?d). share_row_ok E C r" for C using that by (auto simp: share_row_ok_def)
  moreover have "t_shares d' = map ?f (t_shares ?d)" "t_contacts d' = t_contacts ?d" "t_received_shares d' = t_received_shares ?d"
      "t_file_shares d' = t_file_shares ?d" by (simp_all add: d')
  ultimately show "sharing_inv E S d'" using assms(2) unfolding sharing_inv_def by presburger
qed

lemma insert_file_share_inv:
  assumes "json_laws E S" "typed_snapshot s" "insert_file_share E S s w = (r, w')" "sharing_inv E S (manifest (store w))"
  shows "sharing_inv E S (manifest (store w'))"
proof -
  have row: "sharing_inv E S d'"
    if ins: "sql_insert_file_share E row (manifest (store w)) = Inr d'" and c: "strings_to_json S (sn_chunk_uuids s) = Inr u"
      and row: "fr_share_file_key_wrapped row = sn_share_file_key_wrapped s" "fr_chunk_uuids row = u" for row u d'
  proof -
    have "file_share_row_ok S row" using assms(2) json_lawsD(1) [OF assms(1)] c by (simp add: file_share_row_ok_def row typed_snapshot_def)
    then show ?thesis using ins assms(4) by (auto simp: sharing_inv_def sql_insert_file_share_def split: if_splits)
  qed
  show ?thesis
    using assms(3,4) unfolding insert_file_share_def bind_lift
    by (simp split: sum.splits) (erule call_keeps [where P = "sharing_inv E S"], assumption, erule row, simp_all add: map_err_eq_Inr)
qed

lemma delete_file_share_inv:
  assumes "delete_file_share E i w = (r, w')" "sharing_inv E S (manifest (store w))"
  shows "sharing_inv E S (manifest (store w'))"
  by (rule call_keeps [where P = "sharing_inv E S", OF assms(1) [unfolded delete_file_share_def] assms(2)])
    (use assms(2) in \<open>auto simp: sharing_inv_def intro: distinct_map_filter\<close>)


lemma delete_node_sharing_inv:
  assumes "db_mutate E (\<lambda>t. delete_node E t u) w = (r, w')" "sharing_inv E S (manifest (store w))"
  shows "sharing_inv E S (manifest (store w'))"
proof -
  have "with_err id (db_mutate E (\<lambda>t. delete_node E t u)) w = (map_err id r, w')" using assms(1) by (simp add: with_err_def)
  then show ?thesis
  proof (rule call_keeps [where P = "sharing_inv E S", OF _ assms(2)])
    fix t d' assume "delete_node E t u (manifest (store w)) = Inr d'"
    then have "t_shares d' = filter (\<lambda>s. sr_file_id s \<notin> descendants (manifest (store w)) (uuid_hyphenated E u)) (t_shares (manifest (store w)))"
        "t_contacts d' = t_contacts (manifest (store w))" "t_received_shares d' = t_received_shares (manifest (store w))"
        "t_file_shares d' = t_file_shares (manifest (store w))" by (auto simp: delete_node_eq_Inr)
    with assms(2) show "sharing_inv E S d'" by (simp add: sharing_inv_def distinct_map_filter)
  qed
qed


section \<open>Rows are read back\<close>

lemma map_contact_row_ok: "uuid_laws E \<Longrightarrow> contact_row_ok E r \<Longrightarrow> is_ok (map_contact_row E r)"
  by (auto simp: contact_row_ok_def map_contact_row_def uuid_lawsD(1))

lemma parse_share_row_ok: "share_row_ok E A r \<Longrightarrow> is_ok (parse_share_row E r)"
  by (auto simp: share_row_ok_def parse_share_row_def elim!: canonicalE)

lemma parse_received_row_ok: "received_row_ok E S A r \<Longrightarrow> is_ok (parse_received_share_row E S r)"
  by (cases "rr_sender_contact_id r") (auto simp: received_row_ok_def parse_received_share_row_def is_ok_iff elim!: canonicalE)

lemma parse_file_share_row_ok: "file_share_row_ok S r \<Longrightarrow> is_ok (parse_file_share_row S r)"
  by (auto simp: file_share_row_ok_def parse_file_share_row_def is_ok_iff)

lemma rmap_ok: "(\<And>x. x \<in> set xs \<Longrightarrow> is_ok (f x)) \<Longrightarrow> is_ok (rmap f xs)"
proof (induction xs)
  case (Cons x xs)
  then obtain a b where "f x = Inr a" "rmap f xs = Inr b" by (force simp: is_ok_iff)
  then show ?case by simp
qed simp

text \<open>A query that meets no fault gives its value.\<close>

lemma db_query_ok: "os_fault E (tick w) = None \<Longrightarrow> with_err g (db_query E f) w = (map_err g (f (manifest (store w))), next_tick w)"
  by (simp add: with_err_def db_query_def query_def)

lemma bind_query:
  "os_fault E (tick w) = None \<Longrightarrow> bind (with_err g (db_query E f)) h w =
     (case f (manifest (store w)) of Inl e \<Rightarrow> (Inl (g e), next_tick w) | Inr a \<Rightarrow> h a (next_tick w))"
  by (simp add: bind_def db_query_ok split: sum.split)

lemma find_rows: "find P rows = Some r \<Longrightarrow> r \<in> set rows"
  by (auto simp: find_Some_iff)

lemma sharing_reads:
  assumes "uuid_laws E" "sharing_inv E S (manifest (store w))" and ok: "os_fault E (tick w) = None"
  shows "is_ok (fst (list_contacts E w))" "is_ok (fst (list_received_shares E S w))" "is_ok (fst (list_shares_where E P w))"
    and "is_uuid_v4 E u \<Longrightarrow> is_ok (fst (get_contact E u w)) \<or> fst (get_contact E u w) = Inl ContactNotFound"
    and "is_ok (fst (get_share E i w)) \<or> fst (get_share E i w) = Inl ShareNotFound"
    and "is_ok (fst (get_received_share E S i w)) \<or> fst (get_received_share E S i w) = Inl ReceivedShareNotFound"
    and "is_ok (fst (get_file_share E S i w))"
proof -
  let ?d = "manifest (store w)"
  note I = assms(2) [unfolded sharing_inv_def]
  note q = bind_query [OF ok]
  show "is_ok (fst (list_contacts E w))"
    using I by (auto simp: list_contacts_def q lift_def intro!: rmap_ok map_contact_row_ok [OF assms(1)])
  show "is_ok (fst (list_received_shares E S w))"
    using I by (auto simp: list_received_shares_def q lift_def intro!: rmap_ok parse_received_row_ok)
  show "is_ok (fst (list_shares_where E P w))"
    using I by (auto simp: list_shares_where_def select_shares_def q lift_def intro!: rmap_ok parse_share_row_ok)
  show "is_ok (fst (get_contact E u w)) \<or> fst (get_contact E u w) = Inl ContactNotFound" if "is_uuid_v4 E u"
    using I that map_contact_row_ok [OF assms(1)]
    by (cases "find (\<lambda>r. ct_contact_id r = uuid_hyphenated E u) (t_contacts ?d)") (auto simp: get_contact_def q lift_def dest!: find_rows)
  show "is_ok (fst (get_share E i w)) \<or> fst (get_share E i w) = Inl ShareNotFound"
    using I parse_share_row_ok
    by (cases "find (\<lambda>r. sr_share_id r = i) (t_shares ?d)") (auto simp: get_share_def q lift_def dest!: find_rows)
  show "is_ok (fst (get_received_share E S i w)) \<or> fst (get_received_share E S i w) = Inl ReceivedShareNotFound"
    using I parse_received_row_ok
    by (cases "find (\<lambda>r. rr_share_id r = i) (t_received_shares ?d)") (auto simp: get_received_share_def q lift_def dest!: find_rows)
  show "is_ok (fst (get_file_share E S i w))"
  proof (cases "find (\<lambda>r. fr_file_share_id r = i) (t_file_shares ?d)")
    case (Some r)
    then have "is_ok (parse_file_share_row S r)" using I parse_file_share_row_ok by (auto dest!: find_rows)
    with Some show ?thesis by (auto simp: get_file_share_def q is_ok_iff ret_def)
  qed (simp add: get_file_share_def q ret_def)
qed


section \<open>Histories of the sharing tables\<close>

inductive sharing_run :: "env \<Rightarrow> share_env \<Rightarrow> 'r site world \<Rightarrow> 'r site world \<Rightarrow> bool" for E S w0 where
  start: "sharing_run E S w0 w0"
| contact_added: "sharing_run E S w0 w \<Longrightarrow> typed_contact c \<Longrightarrow> insert_contact E c w = (r, w') \<Longrightarrow> sharing_run E S w0 w'"
| contact_deleted: "sharing_run E S w0 w \<Longrightarrow> delete_contact E u w = (r, w') \<Longrightarrow> sharing_run E S w0 w'"
| share_received: "sharing_run E S w0 w \<Longrightarrow> typed_received s \<Longrightarrow> insert_received_share E S s w = (r, w') \<Longrightarrow> sharing_run E S w0 w'"
| share_added: "sharing_run E S w0 w \<Longrightarrow> insert_share E sh w = (r, w') \<Longrightarrow> sharing_run E S w0 w'"
| share_revoked: "sharing_run E S w0 w \<Longrightarrow> set_share_revoked_at E i t w = (r, w') \<Longrightarrow> sharing_run E S w0 w'"
| snapshot_added: "sharing_run E S w0 w \<Longrightarrow> typed_snapshot sn \<Longrightarrow> insert_file_share E S sn w = (r, w') \<Longrightarrow> sharing_run E S w0 w'"
| snapshot_deleted: "sharing_run E S w0 w \<Longrightarrow> delete_file_share E i w = (r, w') \<Longrightarrow> sharing_run E S w0 w'"
| node_deleted: "sharing_run E S w0 w \<Longrightarrow> db_mutate E (\<lambda>t. delete_node E t u) w = (r', w') \<Longrightarrow> sharing_run E S w0 w'"
| elsewhere: "sharing_run E S w0 w \<Longrightarrow> t_contacts (manifest (store w')) = t_contacts (manifest (store w)) \<Longrightarrow>
    t_shares (manifest (store w')) = t_shares (manifest (store w)) \<Longrightarrow>
    t_received_shares (manifest (store w')) = t_received_shares (manifest (store w)) \<Longrightarrow>
    t_file_shares (manifest (store w')) = t_file_shares (manifest (store w)) \<Longrightarrow> sharing_run E S w0 w'"

lemma sharing_run_inv:
  assumes "sharing_run E S w0 w" "json_laws E S" "uuid_laws E" "sharing_inv E S (manifest (store w0))"
  shows "sharing_inv E S (manifest (store w))"
  using assms(1)
proof induction
  case (elsewhere w w')
  then show ?case using sharing_inv_cong by blast
qed (use assms(2-4) in \<open>blast intro: insert_contact_inv delete_contact_inv insert_received_share_inv insert_share_inv
      set_share_revoked_at_inv insert_file_share_inv delete_file_share_inv delete_node_sharing_inv\<close>)+

text \<open>
  The types of the sharing tables: after any history of operations on the store, failed ones included, that
  starts with empty sharing tables, each row converts to its record.  A read that meets no I/O error never reports
  a malformed identifier, key, name or JSON value: the lists succeed, and the lookups fail only with their
  not-found errors.
\<close>

theorem sharing_rows_convert:
  assumes "sharing_run E S w0 w" "json_laws E S" "uuid_laws E" "os_fault E (tick w) = None"
    and "t_contacts (manifest (store w0)) = []" "t_shares (manifest (store w0)) = []"
    and "t_received_shares (manifest (store w0)) = []" "t_file_shares (manifest (store w0)) = []"
  shows "is_ok (fst (list_contacts E w)) \<and> is_ok (fst (list_received_shares E S w)) \<and>
    is_ok (fst (list_shares_by_file E f w)) \<and> is_ok (fst (list_active_shares_by_file E f w)) \<and>
    is_ok (fst (list_active_shares_by_file_share_id E f w)) \<and> is_ok (fst (get_file_share E S f w)) \<and>
    (\<forall>e. fst (get_contact E u w) = Inl e \<longrightarrow> e = (if is_uuid_v4 E u then ContactNotFound else InvalidContactId (uuid_hyphenated E u))) \<and>
    (\<forall>e. fst (get_share E f w) = Inl e \<longrightarrow> e = ShareNotFound) \<and>
    (\<forall>e. fst (get_received_share E S f w) = Inl e \<longrightarrow> e = ReceivedShareNotFound)"
proof -
  have "sharing_inv E S (manifest (store w0))" using assms(5-8) by (simp add: sharing_inv_def)
  note reads = sharing_reads [OF assms(3) sharing_run_inv [OF assms(1-3) this] assms(4)]
  have "e = (if is_uuid_v4 E u then ContactNotFound else InvalidContactId (uuid_hyphenated E u))"
    if "fst (get_contact E u w) = Inl e" for e
  proof (cases "is_uuid_v4 E u")
    case True
    with reads(4) [OF this] that show ?thesis by auto
  next
    case False
    with that show ?thesis by (simp add: get_contact_def fail_def)
  qed
  moreover have "e = ShareNotFound" if "fst (get_share E f w) = Inl e" for e using reads(5) [of f] that by auto
  moreover have "e = ReceivedShareNotFound" if "fst (get_received_share E S f w) = Inl e" for e using reads(6) [of f] that by auto
  ultimately show ?thesis
    using reads(1-3,7) by (simp add: list_shares_by_file_def list_active_shares_by_file_def list_active_shares_by_file_share_id_def)
qed

end
