(* ===== verification/Revocation.thy ===== *)
theory Revocation
  imports Share_Cloud Sharing_Inv
begin

text \<open>
  What a revocation changes, over every transport that satisfies the laws of \<open>cloud_transport\<close>, and what remains of
  a share when its file is deleted.
\<close>

section \<open>The rows of a shared file\<close>

definition active_for :: "string \<Rightarrow> share_row \<Rightarrow> bool" where
  "active_for f q \<longleftrightarrow> sr_file_share_id q = f \<and> sr_revoked_at q = None"

definition other_recipient :: "db \<Rightarrow> string \<Rightarrow> string \<Rightarrow> bool" where
  "other_recipient d f i \<longleftrightarrow> (\<exists>q \<in> set (t_shares d). active_for f q \<and> sr_share_id q \<noteq> i)"

definition revoked_row :: "string \<Rightarrow> i64 \<Rightarrow> share_row \<Rightarrow> share_row" where
  "revoked_row i t q = (if sr_share_id q = i then q\<lparr>sr_revoked_at := Some t\<rparr> else q)"

lemma find_distinct:
  assumes "distinct (map f xs)" "x \<in> set xs" "f x = k"
  shows "find (\<lambda>y. f y = k) xs = Some x"
  using assms by (induction xs) auto

lemma bind_query_either:
  "(\<exists>m. bind (with_err g (db_query E f)) h w = (Inl (g (Database m)), next_tick w)) \<or>
   bind (with_err g (db_query E f)) h w =
     (case f (manifest (store w)) of Inl e \<Rightarrow> (Inl (g e), next_tick w) | Inr a \<Rightarrow> h a (next_tick w))"
  by (auto simp: bind_def with_err_def db_query_def query_def split: option.splits sum.splits)

lemma distinct_single: "distinct xs \<Longrightarrow> set xs = {q} \<Longrightarrow> xs = [q]"
  by (cases xs; cases "tl xs") auto

lemma parse_share_row_fields:
  assumes "parse_share_row E q = Inr s"
  shows "sh_share_id s = sr_share_id q" "sh_file_share_id s = sr_file_share_id q" "sh_revoked_at s = sr_revoked_at q"
  using assms by (auto simp: parse_share_row_def result_simps)

lemma get_share_active:
  assumes "sharing_inv E S (manifest (store w))" "q \<in> set (t_shares (manifest (store w)))" "get_share E (sr_share_id q) w = (r, w')"
  shows "w' = next_tick w \<and> (case r of Inl e \<Rightarrow> True | Inr s \<Rightarrow> parse_share_row E q = Inr s)"
proof -
  have f: "find (\<lambda>r. sr_share_id r = sr_share_id q) (t_shares (manifest (store w))) = Some q"
    by (rule find_distinct) (use assms in \<open>auto simp: sharing_inv_def\<close>)
  show ?thesis
    using bind_query_either [of map_share_error E "\<lambda>d. ok_or NotFound (find (\<lambda>r. sr_share_id r = sr_share_id q) (t_shares d))"
        "\<lambda>row. lift (parse_share_row E row)" w] assms(3) f
    by (auto simp: get_share_def lift_def split: sum.split)
qed

lemma list_active_last:
  assumes "sharing_inv E S (manifest (store w))" "q \<in> set (t_shares (manifest (store w)))" "active_for f q"
    and "list_active_shares_by_file_share_id E f w = (r, w')"
  shows "w' = next_tick w \<and> (case r of Inl e \<Rightarrow> True
     | Inr l \<Rightarrow> (length l = 1 \<and> sh_share_id (l ! 0) = sr_share_id q) = (\<not> other_recipient (manifest (store w)) f (sr_share_id q)))"
proof -
  let ?d = "manifest (store w)" and ?P = "\<lambda>r. sr_file_share_id r = f \<and> sr_revoked_at r = None"
  let ?rows = "select_shares ?P ?d"
  have set: "set ?rows = {x \<in> set (t_shares ?d). active_for f x}" by (auto simp: select_shares_def active_for_def)
  have "distinct (map sr_share_id (t_shares ?d))" using assms(1) by (simp add: sharing_inv_def)
  then have dist: "distinct ?rows" by (simp add: select_shares_def distinct_map)
  have "(length l = 1 \<and> sh_share_id (l ! 0) = sr_share_id q) = (\<not> other_recipient ?d f (sr_share_id q))" if l: "rmap (parse_share_row E) ?rows = Inr l" for l
  proof -
    have same: "list_all2 (\<lambda>x y. parse_share_row E x = Inr y) ?rows l" using l by (simp add: rmap_eq_Inr)
    have len: "length l = length ?rows" using list_all2_lengthD [OF same] by simp
    have q: "q \<in> set ?rows" using assms(2,3) set by blast
    show ?thesis
    proof
      assume 1: "length l = 1 \<and> sh_share_id (l ! 0) = sr_share_id q"
      then obtain x where "?rows = [x]" using len by (cases ?rows) auto
      then have "set ?rows = {q}" using q by simp
      then show "\<not> other_recipient ?d f (sr_share_id q)" unfolding set by (auto simp: other_recipient_def)
    next
      assume none: "\<not> other_recipient ?d f (sr_share_id q)"
      have "x = q" if "x \<in> set ?rows" for x
      proof -
        have "sr_share_id x = sr_share_id q" using none that unfolding set by (auto simp: other_recipient_def)
        then show ?thesis using \<open>distinct (map sr_share_id (t_shares ?d))\<close> that assms(2) unfolding set
          by (auto simp: distinct_map dest: inj_onD)
      qed
      then have "set ?rows = {q}" using q by blast
      then have "?rows = [q]" by (rule distinct_single [OF dist])
      then show "length l = 1 \<and> sh_share_id (l ! 0) = sr_share_id q"
        using same by (auto simp: list_all2_Cons1 parse_share_row_fields)
    qed
  qed
  then show ?thesis
    using bind_query_either [of map_share_error E "\<lambda>d. Inr (select_shares ?P d)" "\<lambda>rows. lift (rmap (parse_share_row E) rows)" w] assms(4)
    by (auto simp: list_active_shares_by_file_share_id_def list_shares_where_def lift_def split: sum.split)
qed


section \<open>Deletion of the shared blobs\<close>

lemma remote_only_trans:
  "remote_only objects X w w' \<Longrightarrow> remote_only objects Y w' w'' \<Longrightarrow> X \<subseteq> Z \<Longrightarrow> Y \<subseteq> Z \<Longrightarrow> remote_only objects Z w w''"
  by (auto simp: remote_only_def) (metis subsetD)

lemma delete_shared_only:
  assumes "cloud_transport CT objects" "delete_shared CT k names w = (r, w')"
  shows "remote_only objects (set names) w w' \<and> (\<forall>e. r = Inl e \<longrightarrow> (\<exists>j. e = RevocationPartial j))"
  using assms(2)
proof (induction names arbitrary: k w)
  case (Cons q names)
  obtain r1 w1 where 1: "ct_delete_blob CT q w = (r1, w1)" by fastforce
  have d: "remote_only objects {q} w w1" by (rule cloud_transport.delete [OF assms(1) 1])
  show ?case
  proof (cases "r1 = Inr () \<or> r1 = Inl BlobNotFound")
    case True
    then have "delete_shared CT (k + 1) names w1 = (r, w')" using Cons.prems 1 by (auto simp: bind_def attempt_def)
    from Cons.IH [OF this] d show ?thesis by (auto intro: remote_only_trans)
  next
    case False
    then have "r = Inl (RevocationPartial k)" "w' = w1" using Cons.prems 1 by (auto simp: bind_def attempt_def fail_def)
    with d show ?thesis by (auto simp: remote_only_def)
  qed
qed (auto simp: ret_def)


lemma set_revoked_step:
  assumes "set_share_revoked_at E i t w = (r, w')"
  shows "objects_at objects w' = objects_at objects w \<and>
    (r = Inr () \<and> manifest (store w') = (manifest (store w))\<lparr>t_shares := map (revoked_row i t) (t_shares (manifest (store w)))\<rparr> \<or>
     (\<exists>e. r = Inl e) \<and> manifest (store w') = manifest (store w))"
  using assms
  by (auto simp: set_share_revoked_at_def with_err_def db_mutate_def mutate_def sql_set_revoked_def objects_at_def result_simps
      revoked_row_def [abs_def] split: option.splits sum.splits if_splits prod.splits)

lemma delete_snapshot_step:
  assumes "delete_file_share E f w = (r, w')"
  shows "objects_at objects w' = objects_at objects w \<and>
    (r = Inr () \<and> manifest (store w') = (manifest (store w))\<lparr>t_file_shares := filter (\<lambda>s. fr_file_share_id s \<noteq> f) (t_file_shares (manifest (store w)))\<rparr> \<or>
     r = Inl backend_failure \<and> manifest (store w') = manifest (store w))"
  using assms
  by (auto simp: delete_file_share_def with_err_def db_mutate_def mutate_def objects_at_def split: option.splits sum.splits prod.splits)

text \<open>What a revocation of share \<open>i\<close> of the shared file \<open>f\<close> may do.\<close>

definition revocation ::
  "('r \<Rightarrow> string \<Rightarrow> bytes option) \<Rightarrow> string \<Rightarrow> string \<Rightarrow> i64 \<Rightarrow> 'r site world \<Rightarrow> sharing_error + unit \<Rightarrow> 'r site world \<Rightarrow> bool" where
  "revocation objects i f now w r w' \<longleftrightarrow>
     (let d = manifest (store w);
          marked = d\<lparr>t_shares := map (revoked_row i now) (t_shares d)\<rparr>;
          dropped = marked\<lparr>t_file_shares := filter (\<lambda>s. fr_file_share_id s \<noteq> f) (t_file_shares d)\<rparr> in
      if other_recipient d f i
      then objects_at objects w' = objects_at objects w \<and> manifest (store w') = (case r of Inr _ \<Rightarrow> marked | Inl e \<Rightarrow> d)
      else (\<forall>p. \<not> prefix (''shared/'' @ f @ ''/'') p \<longrightarrow> objects_at objects w' p = objects_at objects w p) \<and>
        (case r of Inr _ \<Rightarrow> manifest (store w') = dropped
         | Inl e \<Rightarrow> manifest (store w') = d \<or> manifest (store w') = marked \<and> e = backend_failure))"

lemma revocation_untouched: "remote_only objects X w w' \<Longrightarrow> \<forall>x \<in> X. prefix (''shared/'' @ f @ ''/'') x \<Longrightarrow> \<not> other_recipient (manifest (store w)) f i \<Longrightarrow>
    revocation objects i f now w (Inl e) w'"
  by (auto simp: revocation_def Let_def remote_only_def objects_at_def)

text \<open>
  Revoking an active share never takes the file from another recipient: while another active share of the same shared
  file exists no object in the cloud changes, and only this share is marked.  For the last recipient the objects outside
  \<open>shared/<file_share_id>/\<close> stay as they are, and success means that the share is marked and the snapshot with the
  wrapped key is gone.  After an error the share is as active as before and the revocation can be tried again, except
  that the removal of the snapshot may be what failed.
\<close>

theorem revoke_spares_other_recipients:
  assumes "cloud_transport CT objects" "sharing_inv E S (manifest (store w))"
    and "q \<in> set (t_shares (manifest (store w)))" "sr_share_id q = i" "active_for f q"
    and "revoke_share E CT i now w = (r, w')"
  shows "revocation objects i f now w r w'"
proof -
  let ?d = "manifest (store w)" and ?other = "other_recipient (manifest (store w)) f i"
  have quiet: "revocation objects i f now w (Inl e) v" if "store v = store w" for e v
    using that by (simp add: revocation_def objects_at_def Let_def)
  obtain r1 w1 where 1: "get_share E i w = (r1, w1)" by fastforce
  note g = get_share_active [OF assms(2,3) 1 [folded assms(4)]]
  show ?thesis
  proof (cases r1)
    case (Inl e)
    then have "r = Inl e" "w' = w1" using assms(6) 1 by (auto simp: revoke_share_def bind_def)
    with g quiet show ?thesis by simp
  next
    case s: (Inr s)
    with g have "parse_share_row E q = Inr s" by simp
    note sf = parse_share_row_fields [OF this]
    have s': "sh_file_share_id s = f" "sh_revoked_at s = None" using sf assms(5) by (simp_all add: active_for_def)
    obtain r2 w2 where 2: "list_active_shares_by_file_share_id E f w1 = (r2, w2)" by fastforce
    have w1: "store w1 = store w" using g by simp
    have "sharing_inv E S (manifest (store w1))" "q \<in> set (t_shares (manifest (store w1)))" using assms(2,3) w1 by simp_all
    note l = list_active_last [OF this assms(5) 2, unfolded w1 assms(4)]
    then have w2: "store w2 = store w" using w1 by simp
    show ?thesis
    proof (cases r2)
      case (Inl e)
      then have "r = Inl e" "w' = w2" using assms(6) 1 s s' 2 by (auto simp: revoke_share_def bind_def)
      with w2 quiet show ?thesis by simp
    next
      case rem: (Inr rem)
      with l have last: "(length rem = 1 \<and> sh_share_id (rem ! 0) = i) = (\<not> ?other)" by simp
      let ?clear = "bind (with_err (\<lambda>e. CloudOperation (transport_error_text e)) (ct_list_blobs CT (''shared/'' @ f @ ''/''))) (delete_shared CT 0)"
      let ?last = "length rem = 1 \<and> sh_share_id (rem ! 0) = i"
      have "bind (if ?last then ?clear else ret ()) (\<lambda>_. bind (set_share_revoked_at E i now) (\<lambda>_.
          if ?last then delete_file_share E f else ret ())) w2 = (r, w')"
        using assms(6) 1 s s' 2 rem
        by (simp add: revoke_share_def bind_def [of "get_share E i"] bind_def [of "list_active_shares_by_file_share_id E f"] Let_def
            split del: if_split cong: if_cong)
      note run = this [unfolded last]
      show ?thesis
      proof (cases ?other)
        case True
        with run have "bind (set_share_revoked_at E i now) (\<lambda>_. ret ()) w2 = (r, w')" by (simp add: bind_def ret_def)
        then show ?thesis using True w2
          by (auto simp: bind_def ret_def revocation_def objects_at_def Let_def dest!: set_revoked_step [of _ _ _ _ _ _ objects] split: prod.splits sum.splits)
      next
        case alone: False
        obtain r3 w3 where 3: "?clear w2 = (r3, w3)" by fastforce
        have run0: "(case r3 of Inl e \<Rightarrow> (Inl e, w3)
            | Inr a \<Rightarrow> bind (set_share_revoked_at E i now) (\<lambda>_. delete_file_share E f) w3) = (r, w')"
          using run [unfolded if_P [OF alone] bind_def [of ?clear] 3] by (simp split: sum.splits)
        obtain rl wl where ls: "ct_list_blobs CT (''shared/'' @ f @ ''/'') w2 = (rl, wl)" by fastforce
        have only: "\<exists>X. remote_only objects X w2 w3 \<and> (\<forall>x \<in> X. prefix (''shared/'' @ f @ ''/'') x)"
        proof (cases rl)
          case (Inl e)
          then have "w3 = wl" using 3 ls by (auto simp: bind_def with_err_def)
          then show ?thesis using cloud_transport.list_blobs [OF assms(1) ls] by blast
        next
          case (Inr names)
          then have "delete_shared CT 0 names wl = (r3, w3)" using 3 ls by (auto simp: bind_def with_err_def)
          from delete_shared_only [OF assms(1) this] cloud_transport.list_blobs [OF assms(1) ls]
          have "remote_only objects (set names) w2 w3" by (blast intro: remote_only_trans)
          moreover have "\<forall>x \<in> set names. prefix (''shared/'' @ f @ ''/'') x"
            using cloud_transport.list_blobs_ok [OF assms(1) ls [unfolded Inr]] by blast
          ultimately show ?thesis by blast
        qed
        then have far: "\<forall>p. \<not> prefix (''shared/'' @ f @ ''/'') p \<longrightarrow> objects_at objects w3 p = objects_at objects w p"
          and m3: "manifest (store w3) = ?d" using w2 by (auto simp: remote_only_def objects_at_def)
        show ?thesis
        proof (cases r3)
          case (Inl e)
          then have "r = Inl e" "w' = w3" using run0 Inl by auto
          then show ?thesis using alone far m3 by (simp add: revocation_def Let_def)
        next
          case (Inr u)
          then have run3: "bind (set_share_revoked_at E i now) (\<lambda>_. delete_file_share E f) w3 = (r, w')"
            using run0 by simp
          obtain r4 w4 where 4: "set_share_revoked_at E i now w3 = (r4, w4)" by fastforce
          obtain r5 w5 where 5: "delete_file_share E f w4 = (r5, w5)" by fastforce
          note st4 = set_revoked_step [OF 4, of objects] and st5 = delete_snapshot_step [OF 5, of objects]
          show ?thesis
          proof (cases r4)
            case (Inl e)
            then have "r = Inl e" "w' = w4" using run3 4 by (auto simp: bind_def)
            then show ?thesis using alone far m3 st4 Inl by (auto simp: revocation_def Let_def)
          next
            case (Inr u)
            then have "r = r5" "w' = w5" using run3 4 5 by (auto simp: bind_def)
            then show ?thesis using alone far m3 st4 st5 Inr by (auto simp: revocation_def Let_def)
          qed
        qed
      qed
    qed
  qed
qed


section \<open>Deletion of a shared file\<close>

text \<open>
  Deleting a shared file removes its share rows and leaves the shared blobs in the cloud and the snapshot with the key:
  from then on a revocation of the share fails with \<open>ShareNotFound\<close> and changes nothing, so the recipients keep their
  access and the owner cannot take it away.
\<close>

theorem deleted_file_stays_shared:
  assumes "sharing_inv E S (manifest (store w))" "q \<in> set (t_shares (manifest (store w)))"
    and "sr_share_id q = i" "sr_file_id q = uuid_hyphenated E u"
    and "db_mutate E (\<lambda>t. delete_node E t u) w = (Inr (), w1)" "os_fault E (tick w1) = None"
  shows "\<exists>w2. revoke_share E CT i now w1 = (Inl ShareNotFound, w2) \<and> remote (store w2) = remote (store w) \<and>
    t_file_shares (manifest (store w2)) = t_file_shares (manifest (store w))"
proof -
  let ?d = "manifest (store w)"
  obtain s where s: "rbind (delete_node E (tick w) u ?d) (\<lambda>d. Inr ((store w)\<lparr>manifest := d\<rparr>)) = Inr s"
    and w1: "w1 = (next_tick w)\<lparr>store := s\<rparr>"
    using mutate_Inr [OF assms(5) [unfolded db_mutate_def]] by blast
  then obtain d' where d': "delete_node E (tick w) u ?d = Inr d'" and s': "s = (store w)\<lparr>manifest := d'\<rparr>" by (auto simp: result_simps)
  then have sh: "t_shares d' = filter (\<lambda>x. sr_file_id x \<notin> descendants ?d (uuid_hyphenated E u)) (t_shares ?d)"
    and fs: "t_file_shares d' = t_file_shares ?d" by (auto simp: delete_node_eq_Inr)
  have "x = q" if "x \<in> set (t_shares ?d)" "sr_share_id x = i" for x
    using that assms(1-3) by (auto simp: sharing_inv_def distinct_map dest: inj_onD)
  then have "find (\<lambda>x. sr_share_id x = i) (t_shares d') = None"
    using assms(4) by (auto simp: sh find_None_iff)
  then have "get_share E i w1 = (Inl ShareNotFound, next_tick w1)"
    using assms(6) by (simp add: get_share_def bind_query w1 s')
  then have "revoke_share E CT i now w1 = (Inl ShareNotFound, next_tick w1)" by (simp add: revoke_share_def bind_def)
  then show ?thesis by (simp add: w1 s' fs)
qed

end
