(* ===== verification/Share_Receive.thy ===== *)
theory Share_Receive
  imports Share_Cloud Cloud_Sync
begin

text \<open>
  The receiving side of \<open>ui/sharing_commands.rs\<close>: \<open>download_received_share\<close> from the lookup of the share to the
  removal of the fetched blobs, with \<open>decrypt_received_share_blobs\<close>, and the collection of delivery receipts of
  \<open>check_share_receipts\<close>.  Session checks, progress events and the upload of a receipt are not modelled; a
  \<open>BufWriter\<close> is modelled as writing through.
\<close>

section \<open>Decryption of the fetched blobs\<close>

text \<open>The failures the command tells apart; \<open>ReceivePanicked\<close> is a panic of the task.\<close>

datatype received_error =
    ReceiveStorage storage_error
  | ReceiveSharing sharing_error
  | ReceiveExpired
  | ReceiveInvalidFileId
  | ReceiveUnwrapFailed
  | ReceivePanicked string

text \<open>\<open>Path::with_extension("tmp")\<close>.\<close>

definition with_extension_tmp :: "path \<Rightarrow> path" where
  "with_extension_tmp p = parent_dir p @ [fst (split_ext (last p)) @ ''.tmp'']"

definition sub_sat_u64 :: "u64 \<Rightarrow> u64 \<Rightarrow> u64" where
  "sub_sat_u64 a b = a - b"

fun decrypt_share_loop ::
  "env \<Rightarrow> path \<Rightarrow> uuid \<Rightarrow> bytes \<Rightarrow> u64 \<Rightarrow> u32 \<Rightarrow> u32 \<Rightarrow> path \<Rightarrow> nat \<Rightarrow> string list \<Rightarrow> ('s, received_error, unit) prog" where
  "decrypt_share_loop E temp_dest file_id file_key file_size chunk_count chunk_size blob_directory index [] =
     with_err (\<lambda>e. ReceiveStorage (from_io e)) (fs_sync E)"
| "decrypt_share_loop E temp_dest file_id file_key file_size chunk_count chunk_size blob_directory index (blob_name # rest) =
     (let blob_path = blob_file blob_directory blob_name in
      bind (with_err (\<lambda>e. ReceiveStorage (Io (io_error_text e @ '' (blob: '' @ path_display blob_path @ '')''))) (fs_read E blob_path)) (\<lambda>blob_bytes.
      bind (lift (map_err (\<lambda>e. ReceiveStorage (from_crypto e)) (verify_checksum E blob_bytes (blake3 E blob_bytes)))) (\<lambda>verified.
      bind (lift (map_err (\<lambda>e. ReceiveStorage (from_crypto e)) (decrypt_chunk E verified file_key file_id (index mod 2 ^ 32)))) (\<lambda>padded.
      let bytes_to_write = (if index + 1 = chunk_count then min (sub_sat_u64 file_size (mul_u64 index chunk_size)) (length padded)
                            else chunk_size) in
      if bytes_to_write > length padded then fail (ReceivePanicked ''range end index out of range for slice'')
      else
        bind (with_err (\<lambda>e. ReceiveStorage (from_io e)) (fs_append E temp_dest (take bytes_to_write padded))) (\<lambda>_.
        decrypt_share_loop E temp_dest file_id file_key file_size chunk_count chunk_size blob_directory (index + 1) rest)))))"

definition decrypt_received_share_blobs ::
  "env \<Rightarrow> path \<Rightarrow> uuid \<Rightarrow> bytes \<Rightarrow> u64 \<Rightarrow> u32 \<Rightarrow> u32 \<Rightarrow> string list \<Rightarrow> path \<Rightarrow> ('s, received_error, unit) prog" where
  "decrypt_received_share_blobs E destination file_id file_key file_size chunk_count chunk_size chunk_uuids blob_directory =
     (if length chunk_uuids \<noteq> chunk_count
      then fail (ReceiveStorage (ConstraintViolation ''chunk_uuids length does not match chunk_count''))
      else
        let temp_dest = with_extension_tmp destination in
        bind (with_err (\<lambda>e. ReceiveStorage (from_io e)) (fs_write E temp_dest [])) (\<lambda>_.
        bind (attempt (decrypt_share_loop E temp_dest file_id file_key file_size chunk_count chunk_size blob_directory 0 chunk_uuids)) (\<lambda>result.
        case result of
          Inl (ReceivePanicked m) \<Rightarrow> fail (ReceivePanicked m)
        | Inl e \<Rightarrow> bind (attempt (fs_remove E temp_dest)) (\<lambda>_. fail e)
        | Inr _ \<Rightarrow>
            with_err (\<lambda>e. ReceiveStorage (Io (io_error_text e @ '' (rename: '' @ path_display temp_dest @ '' -> '' @ path_display destination @ '')'')))
              (fs_rename E temp_dest destination))))"


section \<open>The command\<close>

definition received_file_size :: "received_share \<Rightarrow> u64" where
  "received_file_size share =
     (case Option.bind (json_get ''_file_size'' (rv_cloud_endpoint share)) as_u64 of
        Some n \<Rightarrow> n
      | None \<Rightarrow> min (2 ^ 64 - 1) (rv_chunk_count share * rv_chunk_size share))"

definition download_received_share ::
  "env \<Rightarrow> share_env \<Rightarrow> 'r transport \<Rightarrow> 'r scoped \<Rightarrow> path \<Rightarrow> path option \<Rightarrow> bytes \<Rightarrow> path \<Rightarrow> string \<Rightarrow> ('r, received_error, string) cloud_prog" where
  "download_received_share E S CT R staging_dir rclone_bin kek destination share_id =
     bind (with_err ReceiveSharing (get_received_share E S share_id)) (\<lambda>share.
     bind (draw (now_unix_seconds E)) (\<lambda>now.
     if (case rv_expires_at share of None \<Rightarrow> False | Some t \<Rightarrow> t < now) then fail ReceiveExpired
     else
       bind (lift (ok_or ReceiveInvalidFileId (uuid_parse E (rv_file_id share)))) (\<lambda>file_id_uuid.
       bind (lift (map_err (\<lambda>_. ReceiveUnwrapFailed) (unwrap_file_key E (rv_file_key_wrapped share) file_id_uuid kek))) (\<lambda>file_key.
       let file_size = received_file_size share in
       bind (with_err ReceiveSharing (fetch_received_share_to_local E S CT R staging_dir rclone_bin share_id)) (\<lambda>local_blobs.
       bind (attempt (decrypt_received_share_blobs E destination file_id_uuid file_key file_size (rv_chunk_count share)
               (rv_chunk_size share) (rv_chunk_uuids share) staging_dir)) (\<lambda>decrypt_result.
       case decrypt_result of
         Inl (ReceivePanicked m) \<Rightarrow> fail (ReceivePanicked m)
       | _ \<Rightarrow>
           bind (cleanup_temp_files E local_blobs) (\<lambda>_.
           bind (lift decrypt_result) (\<lambda>_.
           ret (rv_file_name share)))))))))"


section \<open>Receipts\<close>

definition RECEIPT_PLACEHOLDER :: bytes where
  "RECEIPT_PLACEHOLDER = ascii ''ARX_RECEIPT_PLACEHOLDER_V1''"

text \<open>
  The two passes of \<open>check_share_receipts\<close> differ in the column, the folder, the names of the temporary files and the
  key of the time stamp; \<open>pending\<close>
  selects the rows, \<open>mark\<close> writes the column.
\<close>

record receipt_pass =
  rp_pending :: "share_row \<Rightarrow> bool"
  rp_folder :: string
  rp_local :: string
  rp_key :: string
  rp_mark :: "i64 \<Rightarrow> share_row \<Rightarrow> share_row"

definition download_receipts :: receipt_pass where
  "download_receipts =
     \<lparr>rp_pending = (\<lambda>r. sr_receipt_requested r = 1 \<and> sr_receipt_received_at r = None \<and> sr_revoked_at r = None),
      rp_folder = ''receipts/'', rp_local = ''rcpt-chk-'', rp_key = ''downloaded_at'', rp_mark = (\<lambda>t r. r\<lparr>sr_receipt_received_at := Some t\<rparr>)\<rparr>"

definition import_receipts :: receipt_pass where
  "import_receipts =
     \<lparr>rp_pending = (\<lambda>r. sr_receipt_requested r = 1 \<and> sr_import_receipt_received_at r = None \<and> sr_revoked_at r = None),
      rp_folder = ''import-receipts/'', rp_local = ''import-rcpt-chk-'', rp_key = ''imported_at'', rp_mark = (\<lambda>t r. r\<lparr>sr_import_receipt_received_at := Some t\<rparr>)\<rparr>"

text \<open>The time stamp of a receipt that opens, if it lies between the creation of the share and five minutes from now.\<close>

definition receipt_time :: "env \<Rightarrow> share_env \<Rightarrow> bytes \<Rightarrow> string \<Rightarrow> i64 \<Rightarrow> i64 \<Rightarrow> bytes \<Rightarrow> i64 option" where
  "receipt_time E S private_key key share_created_at now bs =
     (if bs = RECEIPT_PLACEHOLDER then None
      else case open_package E S private_key bs of
             Inl _ \<Rightarrow> None
           | Inr plaintext \<Rightarrow>
               Option.bind (value_from_bytes S plaintext) (\<lambda>payload.
               Option.bind (Option.bind (json_get key payload) as_i64) (\<lambda>ts.
               if ts < share_created_at \<or> ts > now + 300 then None else Some ts)))"

fun earliest :: "i64 option \<Rightarrow> i64 option \<Rightarrow> i64 option" where
  "earliest None t = t"
| "earliest (Some a) None = Some a"
| "earliest (Some a) (Some b) = Some (min a b)"

fun scan_receipts ::
  "env \<Rightarrow> share_env \<Rightarrow> 'r transport \<Rightarrow> path \<Rightarrow> bytes \<Rightarrow> receipt_pass \<Rightarrow> i64 \<Rightarrow> string list \<Rightarrow> i64 option \<Rightarrow> ('r, 'e, i64 option) cloud_prog" where
  "scan_receipts E S CT staging_dir private_key pass share_created_at [] found = ret found"
| "scan_receipts E S CT staging_dir private_key pass share_created_at (blob_name # rest) found =
     bind (draw (\<lambda>t. staging_dir @ [rp_local pass @ uuid_hyphenated E (draw_uuid E t 0) @ ''.blob''])) (\<lambda>local_path.
     bind (attempt (ct_download_blob CT blob_name local_path)) (\<lambda>r.
     case r of
       Inl _ \<Rightarrow> scan_receipts E S CT staging_dir private_key pass share_created_at rest found
     | Inr _ \<Rightarrow>
         bind (attempt (fs_read E local_path)) (\<lambda>contents.
         bind (attempt (fs_remove E local_path)) (\<lambda>_.
         bind (draw (now_unix_seconds E)) (\<lambda>now.
         scan_receipts E S CT staging_dir private_key pass share_created_at rest
           (case contents of Inl _ \<Rightarrow> found
            | Inr bs \<Rightarrow> earliest found (receipt_time E S private_key (rp_key pass) share_created_at now bs)))))))"

text \<open>The update of one row; its failure is ignored.\<close>

definition mark_receipt :: "env \<Rightarrow> (i64 \<Rightarrow> share_row \<Rightarrow> share_row) \<Rightarrow> string \<Rightarrow> i64 \<Rightarrow> ('r, 'e, unit) cloud_prog" where
  "mark_receipt E mark share_id ts =
     bind (attempt (db_mutate E (\<lambda>_ d. Inr (d\<lparr>t_shares := map (\<lambda>r. if sr_share_id r = share_id then mark ts r else r) (t_shares d)\<rparr>)))) (\<lambda>_.
     ret ())"

fun collect_receipts ::
  "env \<Rightarrow> share_env \<Rightarrow> 'r transport \<Rightarrow> path \<Rightarrow> bytes \<Rightarrow> receipt_pass \<Rightarrow> share_row list \<Rightarrow> ('r, 'e, unit) cloud_prog" where
  "collect_receipts E S CT staging_dir private_key pass [] = ret ()"
| "collect_receipts E S CT staging_dir private_key pass (row # rest) =
     (if sr_cloud_path row = [] then collect_receipts E S CT staging_dir private_key pass rest
      else
        bind (attempt (ct_list_blobs CT (sr_cloud_path row @ rp_folder pass))) (\<lambda>r.
        case r of
          Inl _ \<Rightarrow> collect_receipts E S CT staging_dir private_key pass rest
        | Inr blob_names \<Rightarrow>
            bind (scan_receipts E S CT staging_dir private_key pass (sr_created_at row) (take 50 blob_names) None) (\<lambda>found.
            bind (case found of None \<Rightarrow> ret () | Some ts \<Rightarrow> mark_receipt E (rp_mark pass) (sr_share_id row) ts) (\<lambda>_.
            collect_receipts E S CT staging_dir private_key pass rest))))"

definition run_receipt_pass ::
  "env \<Rightarrow> share_env \<Rightarrow> 'r transport \<Rightarrow> path \<Rightarrow> bytes \<Rightarrow> receipt_pass \<Rightarrow> ('r, storage_error, unit) cloud_prog" where
  "run_receipt_pass E S CT staging_dir private_key pass =
     bind (db_query E (\<lambda>d. Inr (filter (rp_pending pass) (t_shares d)))) (\<lambda>pending.
     collect_receipts E S CT staging_dir private_key pass pending)"

definition check_share_receipts ::
  "env \<Rightarrow> share_env \<Rightarrow> 'r transport \<Rightarrow> path \<Rightarrow> bytes \<Rightarrow> ('r, storage_error, unit) cloud_prog" where
  "check_share_receipts E S CT staging_dir private_key =
     bind (run_receipt_pass E S CT staging_dir private_key download_receipts) (\<lambda>_.
     run_receipt_pass E S CT staging_dir private_key import_receipts)"

end
