(* ===== verification/Spec2Isabelle.thy ===== *)
theory Spec2Isabelle
  imports Pipeline_Props Vault_Props File_Deletion Session_Lifecycle Sync_Props Shuffle_Uniform Push_Example Revocation Share_Receive
begin

text \<open>
  Arx Runa is an encrypted vault.  A file is split into chunks of a fixed size; every chunk is padded, encrypted under a key of
  the file and written as a blob with a random name into a staging directory.  Small files wait in a buffer and are packed
  into epoch blobs.  The manifest, a SQLCipher database, records which blobs make up which file; the blobs and an
  encrypted copy of the manifest are pushed to a cloud that sees neither names nor contents.  This development models the Rust
  backend (\<open>src/src-tauri/src\<close>) and proves what it promises.

  \<^bold>\<open>The parts and how they interact.\<close>  A user authenticates: the session manager derives the keys, opens the manifest and
  starts a timer.  The vault operations (upload, download, flush, delete) call the pipelines, which read and write
  files and blobs, and the metadata store, which changes the manifest.  Synchronisation moves blobs and the encrypted manifest
  through a cloud transport.  Sharing decrypts a file of the vault, encrypts it again under a key of its own below
  \<open>shared/\<close>, and seals key and layout for a recipient.

  \<^bold>\<open>How the code is represented.\<close>  \<open>Prelude\<close> and \<open>Environment\<close> hold the vocabulary.  A fallible function returns \<open>error + 'a\<close>.
  A function with effects is a \<open>prog\<close>: it maps a \<open>world\<close> (the store it works on, the files, the directories, a tick
  and the reported progress) to a result and a world, and \<open>bind\<close> is the \<open>?\<close> operator.  Each I/O call
  and each call of the store takes one tick; the field \<open>os_fault\<close> of the environment says at which ticks a call fails and
  with what, so that a theorem over all environments covers a failure at every call.  Random values are drawn by tick.
  Integers are \<open>nat\<close> or \<open>int\<close> with checks and casts written out at their width (the collection \<open>width_simps\<close>); the gate
  word is a \<open>32 word\<close>, bytes are \<open>8 word\<close>, strings are lists of characters below 256.
\<close>

text \<open>
  \<^bold>\<open>What is a parameter.\<close>  The record \<open>env\<close> holds the operating system, the random sources, the clock, the \<open>uuid\<close> crate, the
  cipher, BLAKE3, HKDF and the texts of SQLite errors; \<open>cloud_env\<close> extends it for synchronisation (base64, JSON, the export of
  the database, the order in which concurrent transfers complete); \<open>auth_env\<close> is Argon2id, memory locking and the opening
  of the database; \<open>share_env\<close> is the curve, HKDF, the key stream and the codecs of sharing.  Theorems assume of them only
  documented behaviour, as named laws: \<open>uuid_laws\<close>, \<open>aead_laws\<close> (decryption inverts encryption, lengths), \<open>aead_total\<close>,
  \<open>blake3_laws\<close>, \<open>hkdf_laws\<close>, \<open>x25519_laws\<close>, \<open>stream_laws\<close>, \<open>json_laws\<close>.  Nothing is assumed about what the
  cipher rejects, and in particular no key commitment, which XChaCha20-Poly1305 does not have: the theorems about a foreign context
  are reductions that give the rejection or exhibit the forgery (\<open>aead_forgery\<close>: a ciphertext and tag made for one
  associated data that the same key accepts under another).  \<open>Example_Env\<close>, \<open>Example_Vault\<close>, \<open>Example_Cloud\<close> instantiate
  the parameters with concrete functions; every property with a hypothesis has a witness there.

  \<^bold>\<open>Interfaces.\<close>  Three locales state the contracts between components.  \<open>manifest_store\<close> (\<open>Metadata_Laws\<close>, extending
  \<open>settings_store\<close>) is what the pipelines and the vault operations rely on from the trait \<open>MetadataStore\<close>; \<open>Sqlcipher_Vault\<close> interprets
  it by the model of \<open>SqlCipherMetadataStore\<close>.  \<open>cloud_transport\<close> and its extension \<open>honest_transport\<close> (\<open>Cloud_Transport\<close>)
  are the contract of the trait \<open>CloudTransport\<close>, interpreted by the in-memory transport of \<open>cloud/mock.rs\<close>; the rclone
  transport runs an external program and is not modelled.  \<open>frame_relation\<close> (\<open>Backup_Lemmas\<close>, \<open>Push_Lemmas\<close>) is proof
  infrastructure for programs that keep a relation on worlds.
\<close>

text \<open>
  \<^bold>\<open>Theories and sources.\<close>  Paths are below \<open>src/src-tauri/src\<close>.
  \<^item> \<open>Crypto\<close>: \<open>crypto/\<close> (chunk encryption and its associated data, wrapping of file and master keys, checksums, key derivation);
    each function shares its name with the source.
  \<^item> \<open>Exif\<close>: \<open>storage/pipeline/exif.rs\<close>.  \<open>Storage_Types\<close>: \<open>storage/error.rs\<close>, \<open>storage/types\<close>, \<open>storage/validation.rs\<close>.
  \<^item> \<open>Manifest_Db\<close>, \<open>Schema\<close>: \<open>storage/schema.rs\<close>.  The database is the record \<open>db\<close> with one list of row records per table;
    constraints and cascades are part of the insertions and deletions; \<open>migrations\<close> is the chain from version 1 to 10.
  \<^item> \<open>Sqlcipher\<close>, \<open>Sqlcipher_Sync\<close>: the queries and mutations of \<open>storage/sqlcipher.rs\<close>, one definition per method;
    \<open>Sqlcipher_Effects\<close>, \<open>Sqlcipher_Store\<close>, \<open>Sqlcipher_Vault\<close>: their effects, the store as a record of functions, and its refinement of \<open>manifest_store\<close>.
    \<open>Metadata_Store\<close>: the trait of \<open>storage/metadata_store.rs\<close> and \<open>pipeline/chunk_size.rs\<close>.
  \<^item> \<open>Manifest_Inv\<close>, \<open>Manifest_Steps\<close>, \<open>Manifest_Props\<close>: the invariant of the manifest, the databases reachable
    from a new one by any operations of the store, and the behaviour of the single operations.
  \<^item> \<open>Staging\<close>, \<open>Encrypt_File\<close>, \<open>Decrypt_File\<close>: \<open>storage/staging.rs\<close>, \<open>storage/pipeline\<close>; \<open>Encrypt_Lemmas\<close>, \<open>Decrypt_Lemmas\<close>, \<open>Epoch_Lemmas\<close>,
    \<open>Flush_Lemmas\<close>, \<open>Upload_Lemmas\<close>, \<open>Fresh_Blobs\<close>, \<open>Blob_Names\<close> carry the proofs; \<open>Pipeline_Props\<close> has the properties.
  \<^item> \<open>Vault_Ops\<close>: \<open>storage/vault_ops\<close>.  \<open>Vault_Runs\<close> (histories of uploads, failed uploads and flushes), \<open>Vault_Props\<close>,
    \<open>Vault_Failures\<close>, \<open>Vault_Deletion\<close>, \<open>File_Deletion\<close> have its properties.
  \<^item> \<open>Session\<close>: \<open>auth/session\<close>, \<open>auth/kdf.rs\<close>, \<open>auth/key_source.rs\<close>, \<open>ui/vault_paths.rs\<close>, \<open>memory/secure_buffer.rs\<close>.  The shared
    fields of the manager are one record, each atomic access a function on it.  \<open>Session_Gate\<close>: the step relation
    \<open>sys_step\<close> of operations, \<open>lock\<close> calls, timer and install.  \<open>Session_Props\<close>, \<open>Session_Lifecycle\<close>: properties.
  \<^item> \<open>Remote_Path\<close>, \<open>Cloud_Transport\<close>, \<open>Vault_Header\<close>, \<open>Manifest_Backup\<close>, \<open>Blob_Transfers\<close>, \<open>Cloud_Sync\<close>: \<open>storage/cloud\<close>;
    \<open>Transfer_Lemmas\<close>, \<open>Pool_Lemmas\<close>, \<open>Sync_Lemmas\<close>, \<open>Backup_Lemmas\<close>, \<open>Read_Back\<close>, \<open>Push_Lemmas\<close> lead to \<open>Sync_Props\<close>, \<open>Push_Props\<close>;
    \<open>Shuffle_Props\<close>, \<open>Shuffle_Uniform\<close>: the random order of uploads; \<open>Push_Example\<close>: witnesses.
  \<^item> \<open>Share_Crypto\<close>, \<open>Sharing_Store\<close>, \<open>Share_Packages\<close>, \<open>Share_Cloud\<close>, \<open>Share_Receive\<close>: \<open>sharing/\<close>, \<open>storage/sharing.rs\<close> and the receiving
    commands of \<open>ui/sharing_commands.rs\<close>; \<open>Sharing_Inv\<close>, \<open>Revocation\<close>: the rows of the sharing tables and what a revocation changes.
\<close>

text \<open>
  \<^bold>\<open>What the lemmas show.\<close>
  \<^item> Manifest (C1 to C6): an invariant over all reachable databases, constancy of the immutable settings, the discipline of
    the snapshot counter, exact conditions for moves, no blob lost or queued while in use, and migrations that keep every value.
  \<^item> Cryptography and pipeline (C7 to C11, C15 to C19): binding of chunks, wrapped keys and recovery slots to their context, round trip,
    range reads, rejection of tampered blobs, behaviour under a failing call, and exactness of the metadata removal.
  \<^item> Vault (C12 to C14, C20 to C25): durability over histories, the refinement of the store, totality and exactness of deletion, the exact set that
    the orphan cleanup removes, and two ways in which data is lost.
  \<^item> Sessions (C26 to C32): keys stay while an operation holds its guard unless an install overlaps a teardown; that overlap, a
    reset during a timeout and the operation count are where the gate fails; outcomes of \<open>authenticate\<close>, and of both ends of a session.
  \<^item> Synchronisation (C33 to C40): no blob is lost under any schedule and failure, pulls are complete, the shuffle is an
    unbiased permutation, and the outcomes of a push with the counter and the cloud after each.
  \<^item> Sharing: \<open>share_package_roundtrip\<close>, \<open>share_package_commits\<close> (two keys that open one package see one message, or BLAKE3 collides),
    \<open>sharing_rows_convert\<close>, \<open>revoke_spares_other_recipients\<close>, \<open>deleted_file_stays_shared\<close>.

  \<^bold>\<open>Loops and bounds.\<close>  Loops over data are structural or have a measure.  Two loops may run for ever, \<open>sample_loop\<close> (rejection sampling)
  and \<open>drain_loop\<close> (batches of the deletion queue); they are \<open>partial_function (option)\<close> with \<open>None\<close> for a run that does not
  end, and their callers are proved to return \<open>Some\<close>: the sampling when the random source eventually gives an accepted value,
  the draining always.  \<open>delete_directory\<close> takes fuel for the depth of its recursion; any fuel above the number of nodes is
  enough (C22).  Sizes are bounded where the code's types bound them: file lengths by \<open>addressable\<close>, chunk numbers by \<open>2 ^ 32\<close>.
\<close>

text \<open>
  \<^bold>\<open>Where the model is coarser than the code.\<close>
  \<^item> Concurrency is interleaved at the level of atomic accesses in the session manager only.  There \<open>reset_timer\<close> and \<open>swap_active_session\<close> are one
    step each, although they await several times; an aborted timer task stops at once, although it stops at its next await.
    \<open>authenticate\<close> as a program leaves the semaphore out, since it is the only one running.
  \<^item> In the pools of \<open>cloud/sync.rs\<close> transfers complete in any order, but each runs as a whole when it completes; two
    transfers touch different local files and remote objects.
  \<^item> When the encryption of a chunk fails, \<open>encrypt_file.rs\<close> spawns the removal of the staged blobs and does not wait for it; \<open>encrypt_chunks\<close> removes
    them before it returns.
  \<^item> \<open>run_vacuum_into_export\<close> exports the manifest of the state, where the code opens the database file again.
  \<^item> A \<open>BufWriter\<close> writes through; log messages, progress channels and durations are left out, except the progress that the
    pipelines report.  Zeroizing containers are their bytes.

  \<^bold>\<open>What is not modelled.\<close>  Opening and keying the database connection (FFI), the rclone subprocess and its configuration text, the HTTP
  clients of the cloud providers, platform memory and permissions, device monitoring, local configuration files and the
  test doubles: I/O or code that only calls the outside.  The ceremonies of \<open>auth/ceremonies\<close> and most handlers of
  \<open>ui/\<close> only sequence operations modelled here and are left out.
\<close>

end
